(* ===== verification/Prelude.thy ===== *)
theory Prelude
  imports Main "HOL-Library.Char_ord" "HOL-Library.List_Lexorder"
begin

text \<open>
  What every component of the development shares: the result type of Python code that may
  raise, sequencing of computations that read and write a state and may raise, and the
  list lemmas about relational tables (rows kept in insertion order, selected, updated and
  deleted by a condition, with columns that have to stay unique).
\<close>

section \<open>Collections of rewrite rules\<close>

named_theorems result_simps "inversion of computations that may raise"
named_theorems action_simps "inversion of stateful computations that may raise"
named_theorems table_simps "rows, keys and lookups of tables"

section \<open>Results: a value or the exception that was raised\<close>

type_synonym ('e, 'a) result = "'e + 'a"

definition bind_result :: "('e, 'a) result \<Rightarrow> ('a \<Rightarrow> ('e, 'b) result) \<Rightarrow> ('e, 'b) result" where
  "bind_result m f = (case m of Inl e \<Rightarrow> Inl e | Inr x \<Rightarrow> f x)"

text \<open>\<open>guard_result c e\<close> is the early \<^verbatim>\<open>if not c: raise e\<close> of the source.\<close>

definition guard_result :: "bool \<Rightarrow> 'e \<Rightarrow> ('e, unit) result" where
  "guard_result c e = (if c then Inr () else Inl e)"

definition map_error :: "('e \<Rightarrow> 'f) \<Rightarrow> ('e, 'a) result \<Rightarrow> ('f, 'a) result" where
  "map_error g m = (case m of Inl e \<Rightarrow> Inl (g e) | Inr x \<Rightarrow> Inr x)"

lemma bind_result_values [simp]:
  "bind_result (Inl e) f = Inl e" "bind_result (Inr x) f = f x"
  by (simp_all add: bind_result_def)

lemma bind_result_Inr [result_simps]:
  "bind_result m f = Inr y \<longleftrightarrow> (\<exists>x. m = Inr x \<and> f x = Inr y)"
  by (cases m) simp_all

lemma bind_result_Inl [result_simps]:
  "bind_result m f = Inl e \<longleftrightarrow> m = Inl e \<or> (\<exists>x. m = Inr x \<and> f x = Inl e)"
  by (cases m) auto

lemma guard_result_values [simp, result_simps]:
  "guard_result c e = Inr u \<longleftrightarrow> c" "guard_result c e = Inl e' \<longleftrightarrow> \<not> c \<and> e' = e"
  by (auto simp: guard_result_def)

lemma bind_guard [simp]:
  "bind_result (guard_result c e) f = (if c then f () else Inl e)"
  by (simp add: guard_result_def)

lemma map_error_values [simp]:
  "map_error g (Inl e) = Inl (g e)" "map_error g (Inr x) = Inr x"
  by (simp_all add: map_error_def)

lemma map_error_Inr [simp, result_simps]: "map_error g m = Inr x \<longleftrightarrow> m = Inr x"
  by (cases m) simp_all

section \<open>Actions: state, result, new state\<close>

text \<open>
  An action runs in a state and gives a result together with the state it leaves. The state
  survives a raised exception, as objects and databases do in the source.
\<close>

type_synonym ('s, 'e, 'a) action = "'s \<Rightarrow> ('e, 'a) result \<times> 's"

definition return_act :: "'a \<Rightarrow> ('s, 'e, 'a) action" where
  "return_act x s = (Inr x, s)"

definition raise_act :: "'e \<Rightarrow> ('s, 'e, 'a) action" where
  "raise_act e s = (Inl e, s)"

definition lift_act :: "('e, 'a) result \<Rightarrow> ('s, 'e, 'a) action" where
  "lift_act m s = (m, s)"

definition bind_act :: "('s, 'e, 'a) action \<Rightarrow> ('a \<Rightarrow> ('s, 'e, 'b) action) \<Rightarrow> ('s, 'e, 'b) action" where
  "bind_act m f s = (case m s of (Inl e, s') \<Rightarrow> (Inl e, s') | (Inr x, s') \<Rightarrow> f x s')"

text \<open>
  \<open>try_act m h k\<close> is \<^verbatim>\<open>try: x = m except e: h(e) else: k(x)\<close>: the handler sees every
  exception of \<open>m\<close> and decides what the whole statement does.
\<close>

definition try_act ::
  "('s, 'e, 'a) action \<Rightarrow> ('e \<Rightarrow> ('s, 'f, 'b) action) \<Rightarrow> ('a \<Rightarrow> ('s, 'f, 'b) action) \<Rightarrow> ('s, 'f, 'b) action" where
  "try_act m h k s = (case m s of (Inl e, s') \<Rightarrow> h e s' | (Inr x, s') \<Rightarrow> k x s')"

lemma return_act_iff [simp, action_simps]:
  "return_act x s = (Inr y, t) \<longleftrightarrow> y = x \<and> t = s" "return_act x s \<noteq> (Inl e, t)"
  by (auto simp: return_act_def)

lemma raise_act_iff [simp, action_simps]:
  "raise_act e s \<noteq> (Inr y, t)" "raise_act e s = (Inl e', t) \<longleftrightarrow> e' = e \<and> t = s"
  by (auto simp: raise_act_def)

lemma lift_act_iff [simp, action_simps]:
  "lift_act m s = (r, t) \<longleftrightarrow> m = r \<and> t = s"
  by (auto simp: lift_act_def)

lemma bind_act_Inr [action_simps]:
  "bind_act m f s = (Inr y, t) \<longleftrightarrow> (\<exists>x u. m s = (Inr x, u) \<and> f x u = (Inr y, t))"
  by (cases "m s"; cases "fst (m s)") (auto simp: bind_act_def)

lemma bind_act_Inl [action_simps]:
  "bind_act m f s = (Inl e, t) \<longleftrightarrow>
     m s = (Inl e, t) \<or> (\<exists>x u. m s = (Inr x, u) \<and> f x u = (Inl e, t))"
  by (cases "m s"; cases "fst (m s)") (auto simp: bind_act_def)

lemma try_act_iff [action_simps]:
  "try_act m h k s = (r, t) \<longleftrightarrow>
     (\<exists>e u. m s = (Inl e, u) \<and> h e u = (r, t)) \<or> (\<exists>x u. m s = (Inr x, u) \<and> k x u = (r, t))"
  by (cases "m s"; cases "fst (m s)") (auto simp: try_act_def)

lemma case_option_act:
  "(case v of None \<Rightarrow> m | Some x \<Rightarrow> f x) s = p \<longleftrightarrow>
     v = None \<and> m s = p \<or> (\<exists>x. v = Some x \<and> f x s = p)"
  by (cases v) simp_all

lemma if_act: "(if c then m else n) s = p \<longleftrightarrow> c \<and> m s = p \<or> \<not> c \<and> n s = p"
  by simp

text \<open>For inverting the run of an action without splitting it into cases first.\<close>

lemmas run_simps = action_simps case_option_act if_act

text \<open>
  What holds in every state an action can leave, whatever its result, given that it held
  before. The combinators keep it, so a service built from storage calls keeps what each
  call keeps.
\<close>

definition keeps :: "('s \<Rightarrow> 's \<Rightarrow> bool) \<Rightarrow> ('s, 'e, 'a) action \<Rightarrow> bool" where
  "keeps R m \<longleftrightarrow> (\<forall>s. R s (snd (m s)))"

lemma keepsD: "keeps R m \<Longrightarrow> m s = (r, t) \<Longrightarrow> R s t"
  by (metis keeps_def snd_conv)

lemma keeps_bind:
  assumes "keeps R m" "\<And>x. keeps R (f x)" "transp R"
  shows "keeps R (bind_act m f)"
proof (unfold keeps_def, rule allI)
  fix s
  obtain r u where m: "m s = (r, u)" by (cases "m s")
  have su: "R s u" using keepsD [OF assms(1) m] .
  show "R s (snd (bind_act m f s))"
  proof (cases r)
    case (Inl e)
    with m su show ?thesis by (simp add: bind_act_def)
  next
    case (Inr x)
    have "R u (snd (f x u))" using assms(2) by (simp add: keeps_def)
    with m su Inr show ?thesis using transpD [OF assms(3)] by (simp add: bind_act_def)
  qed
qed

lemma keeps_try:
  assumes "keeps R m" "\<And>e. keeps R (h e)" "\<And>x. keeps R (k x)" "transp R"
  shows "keeps R (try_act m h k)"
proof (unfold keeps_def, rule allI)
  fix s
  obtain r u where m: "m s = (r, u)" by (cases "m s")
  have su: "R s u" using keepsD [OF assms(1) m] .
  have "R u (snd (h e u))" "R u (snd (k x u))" for e x
    using assms(2,3) by (simp_all add: keeps_def)
  with m su show "R s (snd (try_act m h k s))"
    by (cases r) (auto simp: try_act_def intro: transpD [OF assms(4)])
qed

lemma keeps_pure:
  assumes "reflp R"
  shows "keeps R (return_act x)" "keeps R (raise_act e)" "keeps R (lift_act m)"
  using assms by (simp_all add: keeps_def return_act_def raise_act_def lift_act_def reflp_def)

lemma keeps_if: "keeps R m \<Longrightarrow> keeps R n \<Longrightarrow> keeps R (if c then m else n)"
  by simp

lemma keeps_option:
  "keeps R m \<Longrightarrow> (\<And>x. keeps R (f x)) \<Longrightarrow> keeps R (case v of None \<Rightarrow> m | Some x \<Rightarrow> f x)"
  by (cases v) simp_all

section \<open>Tables\<close>

text \<open>
  A table is the list of its rows in insertion order. \<open>update_where\<close> and
  \<open>delete_where\<close> are SQL's \<^verbatim>\<open>UPDATE .. SET .. WHERE\<close> and \<^verbatim>\<open>DELETE .. WHERE\<close>, \<open>find\<close>
  is \<^verbatim>\<open>SELECT .. WHERE\<close> followed by \<^verbatim>\<open>fetchone\<close>; \<open>unique_on\<close> is a \<^verbatim>\<open>PRIMARY KEY\<close> or
  \<^verbatim>\<open>UNIQUE\<close> column (or tuple of columns) and \<open>unique_some\<close> a partial unique index that
  leaves \<^verbatim>\<open>NULL\<close> out.
\<close>

definition update_where :: "('r \<Rightarrow> bool) \<Rightarrow> ('r \<Rightarrow> 'r) \<Rightarrow> 'r list \<Rightarrow> 'r list" where
  "update_where P f t = map (\<lambda>r. if P r then f r else r) t"

definition delete_where :: "('r \<Rightarrow> bool) \<Rightarrow> 'r list \<Rightarrow> 'r list" where
  "delete_where P t = filter (\<lambda>r. \<not> P r) t"

definition count_where :: "('r \<Rightarrow> bool) \<Rightarrow> 'r list \<Rightarrow> nat" where
  "count_where P t = length (filter P t)"

definition unique_on :: "('r \<Rightarrow> 'k) \<Rightarrow> 'r list \<Rightarrow> bool" where
  "unique_on key t \<longleftrightarrow> distinct (map key t)"

definition unique_some :: "('r \<Rightarrow> 'k option) \<Rightarrow> 'r list \<Rightarrow> bool" where
  "unique_some key t \<longleftrightarrow> sorted_wrt (\<lambda>a b. key a = None \<or> key a \<noteq> key b) t"

definition lookup_by :: "('r \<Rightarrow> 'k) \<Rightarrow> 'r list \<Rightarrow> 'k \<Rightarrow> 'r option" where
  "lookup_by key t k = find (\<lambda>r. key r = k) t"

lemma lookup_by_Nil [simp]: "lookup_by key [] k = None"
  by (simp add: lookup_by_def)

lemma lookup_by_Cons [simp]:
  "lookup_by key (r # t) k = (if key r = k then Some r else lookup_by key t k)"
  by (simp add: lookup_by_def)

lemma lookup_by_SomeD: "lookup_by key t k = Some r \<Longrightarrow> r \<in> set t \<and> key r = k"
  by (induction t) (auto split: if_splits)

lemma lookup_by_None [simp, table_simps]: "lookup_by key t k = None \<longleftrightarrow> k \<notin> key ` set t"
  by (induction t) auto

lemma lookup_by_Some_iff [table_simps]:
  "unique_on key t \<Longrightarrow> lookup_by key t k = Some r \<longleftrightarrow> r \<in> set t \<and> key r = k"
proof (induction t)
  case (Cons q t)
  then show ?case by (cases "key q = k") (auto simp: unique_on_def image_iff)
qed simp

lemma lookup_by_append [simp, table_simps]:
  "lookup_by key (t @ [r]) k =
     (case lookup_by key t k of None \<Rightarrow> (if key r = k then Some r else None) | Some q \<Rightarrow> Some q)"
  by (induction t) auto

lemma lookup_by_update [table_simps]:
  assumes "\<And>r. key (f r) = key r"
  shows "lookup_by key (update_where P f t) k =
    map_option (\<lambda>r. if P r then f r else r) (lookup_by key t k)"
  using assms by (induction t) (auto simp: update_where_def)

lemma update_where_cong:
  assumes "\<And>r. r \<in> set t \<Longrightarrow> P r = Q r" "\<And>r. r \<in> set t \<Longrightarrow> Q r \<Longrightarrow> f r = g r"
  shows "update_where P f t = update_where Q g t"
  using assms by (auto simp: update_where_def)

lemma count_where_cong:
  "(\<And>r. r \<in> set t \<Longrightarrow> P r = Q r) \<Longrightarrow> count_where P t = count_where Q t"
  by (auto simp: count_where_def intro!: arg_cong [where f = length] filter_cong)

lemma filter_update_where:
  assumes "\<And>r. P r \<Longrightarrow> \<not> Q r \<and> \<not> Q (f r)"
  shows "filter Q (update_where P f t) = filter Q t"
  using assms by (induction t) (auto simp: update_where_def)

lemma lookup_by_deleteD:
  "unique_on key t \<Longrightarrow> lookup_by key (delete_where P t) k = Some r \<Longrightarrow> lookup_by key t k = Some r"
  by (auto simp: delete_where_def lookup_by_Some_iff dest: lookup_by_SomeD)

lemma set_update_where [simp, table_simps]:
  "set (update_where P f t) = (\<lambda>r. if P r then f r else r) ` set t"
  by (simp add: update_where_def)

lemma set_delete_where [simp, table_simps]: "set (delete_where P t) = {r \<in> set t. \<not> P r}"
  by (auto simp: delete_where_def)

lemma map_update_where:
  "(\<And>r. key (f r) = key r) \<Longrightarrow> map key (update_where P f t) = map key t"
  by (simp add: update_where_def)

lemma unique_on_update [table_simps]:
  "(\<And>r. key (f r) = key r) \<Longrightarrow> unique_on key (update_where P f t) = unique_on key t"
  by (simp add: unique_on_def map_update_where)

lemma unique_on_delete [table_simps]: "unique_on key t \<Longrightarrow> unique_on key (delete_where P t)"
  by (simp add: unique_on_def delete_where_def distinct_map_filter)

lemma unique_on_append [simp, table_simps]:
  "unique_on key (t @ [r]) \<longleftrightarrow> unique_on key t \<and> key r \<notin> key ` set t"
  by (auto simp: unique_on_def)

lemma unique_on_Nil [simp]: "unique_on key []"
  by (simp add: unique_on_def)

lemma unique_onD: "unique_on key t \<Longrightarrow> a \<in> set t \<Longrightarrow> b \<in> set t \<Longrightarrow> key a = key b \<Longrightarrow> a = b"
  by (auto simp: unique_on_def distinct_map dest: inj_onD)

lemma unique_some_Nil [simp]: "unique_some key []"
  by (simp add: unique_some_def)

lemma unique_some_append [simp, table_simps]:
  "unique_some key (t @ [r]) \<longleftrightarrow> unique_some key t \<and> (key r = None \<or> key r \<notin> key ` set t)"
  by (cases "key r") (auto simp: unique_some_def sorted_wrt_append image_iff)

lemma unique_some_update [table_simps]:
  assumes "\<And>r. key (f r) = key r"
  shows "unique_some key (update_where P f t) = unique_some key t"
proof -
  have same: "key (if P r then f r else r) = key r" for r using assms by simp
  show ?thesis by (simp add: unique_some_def update_where_def sorted_wrt_map same)
qed

lemma unique_some_delete [table_simps]: "unique_some key t \<Longrightarrow> unique_some key (delete_where P t)"
  by (simp add: unique_some_def delete_where_def sorted_wrt_filter)

lemma unique_someD:
  "unique_some key t \<Longrightarrow> a \<in> set t \<Longrightarrow> b \<in> set t \<Longrightarrow> key a = Some k \<Longrightarrow> key b = Some k \<Longrightarrow> a = b"
  by (induction t) (auto simp: unique_some_def)

lemma count_where_Cons [simp]:
  "count_where P (r # t) = (if P r then Suc (count_where P t) else count_where P t)"
  by (simp add: count_where_def)

lemma count_where_eq_0 [simp]: "count_where P t = 0 \<longleftrightarrow> (\<forall>r \<in> set t. \<not> P r)"
  by (simp add: count_where_def filter_empty_conv)

lemma count_where_le_1:
  assumes "unique_on key t" "\<And>q. P q \<Longrightarrow> key q = k"
  shows "count_where P t = 1 \<longleftrightarrow> (\<exists>r \<in> set t. P r)"
  using assms(1)
proof (induction t)
  case Nil
  then show ?case by (simp add: count_where_def)
next
  case (Cons q t)
  have tail: "unique_on key t" and fresh: "\<forall>r \<in> set t. key r \<noteq> key q"
    using Cons.prems by (auto simp: unique_on_def image_iff)
  show ?case
  proof (cases "P q")
    case True
    then have "\<forall>r \<in> set t. \<not> P r" using fresh assms(2) by metis
    then have "count_where P t = 0" by (simp only: count_where_eq_0)
    with True show ?thesis by simp
  next
    case False
    then show ?thesis using Cons.IH [OF tail] by simp
  qed
qed

lemma count_where_unique:
  assumes "unique_on key t" "\<And>q. P q \<Longrightarrow> key q = k"
  shows "count_where P t \<noteq> 1 \<Longrightarrow> \<forall>r \<in> set t. \<not> P r"
  using count_where_le_1 [OF assms] by blast

lemma update_where_none: "\<forall>r \<in> set t. \<not> P r \<Longrightarrow> update_where P f t = t"
  by (induction t) (simp_all add: update_where_def)

lemma pred_option_code [code]:
  "pred_option P None \<longleftrightarrow> True" "pred_option P (Some x) \<longleftrightarrow> P x"
  by simp_all

end
