(* ===== verification/Timestamps.thy ===== *)
theory Timestamps
  imports Prelude
begin

text \<open>
  Instants and their persisted text. An aware \<^verbatim>\<open>datetime\<close> normalised to UTC is its number of
  microseconds since 0001-01-01T00:00:00Z; the storage code writes it with
  \<^verbatim>\<open>isoformat(timespec="microseconds")\<close> and lets SQLite compare the texts byte by byte. This
  theory models the calendar arithmetic of \<^verbatim>\<open>datetime\<close> that the text depends on,
  \<^verbatim>\<open>_encode_datetime\<close> and \<^verbatim>\<open>_decode_datetime\<close> of
  \<^verbatim>\<open>scripts/thebitlab_identity_sqlite.py\<close>, and proves that the text order is the time order and
  that decoding inverts encoding: the tables of the store may then hold instants.
\<close>

section \<open>The proleptic Gregorian calendar\<close>

type_synonym instant = int

record civil =
  civ_year :: int
  civ_month :: int
  civ_day :: int
  civ_hour :: int
  civ_minute :: int
  civ_second :: int
  civ_micro :: int

definition is_leap :: "int \<Rightarrow> bool" where
  "is_leap y \<longleftrightarrow> y mod 4 = 0 \<and> (y mod 100 \<noteq> 0 \<or> y mod 400 = 0)"

definition year_length :: "int \<Rightarrow> int" where
  "year_length y = (if is_leap y then 366 else 365)"

definition days_in_month :: "int \<Rightarrow> int \<Rightarrow> int" where
  "days_in_month y m =
     (if m = 2 then (if is_leap y then 29 else 28)
      else if m = 4 \<or> m = 6 \<or> m = 9 \<or> m = 11 then 30 else 31)"

definition days_before_year :: "int \<Rightarrow> int" where
  "days_before_year y = (y - 1) * 365 + (y - 1) div 4 - (y - 1) div 100 + (y - 1) div 400"

definition days_before_month :: "int \<Rightarrow> int \<Rightarrow> int" where
  "days_before_month y m = sum_list (map (days_in_month y) [1..m - 1])"

definition day_number :: "int \<Rightarrow> int \<Rightarrow> int \<Rightarrow> int" where
  "day_number y m d = days_before_year y + days_before_month y m + (d - 1)"

definition day_micros :: int where
  "day_micros = 86400000000"

definition time_of_day :: "int \<Rightarrow> int \<Rightarrow> int \<Rightarrow> int \<Rightarrow> int" where
  "time_of_day h mi s us = ((h * 60 + mi) * 60 + s) * 1000000 + us"

definition instant_of :: "civil \<Rightarrow> instant" where
  "instant_of c =
     day_number (civ_year c) (civ_month c) (civ_day c) * day_micros +
     time_of_day (civ_hour c) (civ_minute c) (civ_second c) (civ_micro c)"

definition max_instant :: instant where
  "max_instant = 3652059 * day_micros - 1"

definition representable :: "instant \<Rightarrow> bool" where
  "representable i \<longleftrightarrow> 0 \<le> i \<and> i \<le> max_instant"

definition valid_civil :: "civil \<Rightarrow> bool" where
  "valid_civil c \<longleftrightarrow>
     1 \<le> civ_year c \<and> civ_year c \<le> 9999 \<and> 1 \<le> civ_month c \<and> civ_month c \<le> 12 \<and>
     1 \<le> civ_day c \<and> civ_day c \<le> days_in_month (civ_year c) (civ_month c) \<and>
     0 \<le> civ_hour c \<and> civ_hour c \<le> 23 \<and> 0 \<le> civ_minute c \<and> civ_minute c \<le> 59 \<and>
     0 \<le> civ_second c \<and> civ_second c \<le> 59 \<and> 0 \<le> civ_micro c \<and> civ_micro c \<le> 999999"

text \<open>The inverse: year and month are found by subtracting whole years and whole months.\<close>

function year_from :: "int \<Rightarrow> int \<Rightarrow> int \<times> int" where
  "year_from y r = (if r < year_length y then (y, r) else year_from (y + 1) (r - year_length y))"
  by pat_completeness auto
termination
  by (relation "measure (\<lambda>(y, r). nat r)") (auto simp: year_length_def split: if_splits)

function month_from :: "int \<Rightarrow> int \<Rightarrow> int \<Rightarrow> int \<times> int" where
  "month_from y m r =
     (if 12 \<le> m \<or> r < days_in_month y m then (m, r)
      else month_from y (m + 1) (r - days_in_month y m))"
  by pat_completeness auto
termination
  by (relation "measure (\<lambda>(y, m, r). nat (12 - m))") auto

declare year_from.simps [simp del] month_from.simps [simp del]

definition civil_of :: "instant \<Rightarrow> civil" where
  "civil_of i =
     (let n = i div day_micros; t = i mod day_micros;
          y0 = n div 366 + 1;
          (y, r) = year_from y0 (n - days_before_year y0);
          (m, d) = month_from y 1 r
      in \<lparr>civ_year = y, civ_month = m, civ_day = d + 1,
          civ_hour = t div 3600000000, civ_minute = t div 60000000 mod 60,
          civ_second = t div 1000000 mod 60, civ_micro = t mod 1000000\<rparr>)"

lemma div_pred:
  fixes n y :: int
  assumes "1 < n"
  shows "y div n = (y - 1) div n + (if y mod n = 0 then 1 else 0)"
proof (cases "y mod n = 0")
  case True
  then have "y - 1 = n * (y div n - 1) + (n - 1)"
    using mult_div_mod_eq [of n y] by (simp add: algebra_simps)
  then have "(y - 1) div n = y div n - 1"
    by (rule int_div_pos_eq) (use assms in auto)
  with True show ?thesis by simp
next
  case False
  have "y - 1 = n * (y div n) + (y mod n - 1)" using mult_div_mod_eq [of n y] by simp
  then have "(y - 1) div n = y div n"
    by (rule int_div_pos_eq) (use assms False pos_mod_sign [of n y] pos_mod_bound [of n y] in linarith)+
  with False show ?thesis by simp
qed

lemma leap_days:
  fixes a b c :: int
  assumes "a = a' + (if p then 1 else 0)" "b = b' + (if q then 1 else 0)"
    "c = c' + (if r then 1 else 0)" "q \<longrightarrow> p" "r \<longrightarrow> q"
  shows "a - b + c = a' - b' + c' + (if p \<and> (\<not> q \<or> r) then 1 else 0)"
  using assms by (cases p; cases q; cases r) simp_all

lemma days_before_next_year: "days_before_year (y + 1) = days_before_year y + year_length y"
proof -
  have "4 dvd y" if "100 dvd y" using that by (rule dvd_trans [rotated]) simp
  moreover have "100 dvd y" if "400 dvd y" using that by (rule dvd_trans [rotated]) simp
  ultimately have imp: "y mod 100 = 0 \<longrightarrow> y mod 4 = 0" "y mod 400 = 0 \<longrightarrow> y mod 100 = 0"
    unfolding dvd_eq_mod_eq_0 by blast+
  have "y div 4 - y div 100 + y div 400 =
      (y - 1) div 4 - (y - 1) div 100 + (y - 1) div 400 + (if is_leap y then 1 else 0)"
    unfolding is_leap_def by (rule leap_days [OF div_pred div_pred div_pred imp]) simp_all
  then show ?thesis
    unfolding days_before_year_def year_length_def by (cases "is_leap y") simp_all
qed

lemma year_length_bounds: "365 \<le> year_length y" "year_length y \<le> 366"
  by (simp_all add: year_length_def)

lemma days_in_month_bounds: "28 \<le> days_in_month y m" "days_in_month y m \<le> 31"
  by (simp_all add: days_in_month_def)

lemma days_before_year_mono: "y \<le> z \<Longrightarrow> days_before_year y \<le> days_before_year z"
proof (induction z rule: int_ge_induct)
  case (step z)
  then show ?case using year_length_bounds(1) [of z] by (simp add: days_before_next_year)
qed simp

lemma days_before_next_month:
  "1 \<le> m \<Longrightarrow> days_before_month y (m + 1) = days_before_month y m + days_in_month y m"
  by (simp add: days_before_month_def upto_rec2)

lemma days_before_month_mono: "m \<le> n \<Longrightarrow> 1 \<le> m \<Longrightarrow> days_before_month y m \<le> days_before_month y n"
proof (induction n rule: int_ge_induct)
  case (step n)
  then show ?case using days_in_month_bounds(1) [of y n] by (simp add: days_before_next_month)
qed simp

lemma days_before_month_1 [simp]: "days_before_month y 1 = 0"
  by (simp add: days_before_month_def)

lemma days_before_month_13: "days_before_month y 13 = year_length y"
  by (simp add: days_before_month_def year_length_def days_in_month_def upto.simps)

lemma day_in_year:
  assumes "1 \<le> m" "m \<le> 12" "1 \<le> d" "d \<le> days_in_month y m"
  shows "0 \<le> days_before_month y m + (d - 1)" "days_before_month y m + (d - 1) < year_length y"
proof -
  have "days_before_month y 1 \<le> days_before_month y m"
    by (rule days_before_month_mono) (use assms in auto)
  with assms show "0 \<le> days_before_month y m + (d - 1)" by simp
  have "days_before_month y m + days_in_month y m \<le> days_before_month y 13"
    using days_before_month_mono [of "m + 1" 13 y] assms by (simp add: days_before_next_month)
  with assms show "days_before_month y m + (d - 1) < year_length y"
    by (simp add: days_before_month_13)
qed

lemma year_from_correct:
  "0 \<le> r \<Longrightarrow> year_from y r = (y', r') \<Longrightarrow>
     days_before_year y' + r' = days_before_year y + r \<and> 0 \<le> r' \<and> r' < year_length y' \<and> y \<le> y'"
proof (induction y r rule: year_from.induct)
  case (1 y r)
  show ?case
  proof (cases "r < year_length y")
    case True
    with "1.prems" show ?thesis by (simp add: year_from.simps [of y r])
  next
    case False
    then have "0 \<le> r - year_length y" by simp
    moreover have "year_from (y + 1) (r - year_length y) = (y', r')"
      using False "1.prems" by (simp add: year_from.simps [of y r])
    ultimately show ?thesis using "1.IH" False by (simp add: days_before_next_year)
  qed
qed

lemma month_from_correct:
  "1 \<le> m \<Longrightarrow> m \<le> 12 \<Longrightarrow> 0 \<le> r \<Longrightarrow> days_before_month y m + r < year_length y \<Longrightarrow>
   month_from y m r = (m', d) \<Longrightarrow>
     days_before_month y m' + d = days_before_month y m + r \<and> 1 \<le> m' \<and> m' \<le> 12 \<and>
     0 \<le> d \<and> d < days_in_month y m'"
proof (induction y m r rule: month_from.induct)
  case (1 y m r)
  show ?case
  proof (cases "12 \<le> m \<or> r < days_in_month y m")
    case True
    then have "m' = m" "d = r" using "1.prems"(5) by (simp_all add: month_from.simps [of y m r])
    moreover have "r < days_in_month y m"
    proof (cases "m = 12")
      case True
      then show ?thesis
        using "1.prems"(4) days_before_month_13 [of y] days_before_next_month [of 12 y] by simp
    next
      case False
      with \<open>12 \<le> m \<or> r < days_in_month y m\<close> "1.prems"(2) show ?thesis by simp
    qed
    ultimately show ?thesis using "1.prems" by simp
  next
    case False
    then have "month_from y (m + 1) (r - days_in_month y m) = (m', d)"
      using "1.prems"(5) by (simp add: month_from.simps [of y m r])
    with False "1.IH" "1.prems" show ?thesis by (simp add: days_before_next_month)
  qed
qed

lemma days_before_estimate: "0 \<le> n \<Longrightarrow> days_before_year (n div 366 + 1) \<le> n"
proof -
  assume "0 \<le> n"
  define k where "k = n div 366"
  have "0 \<le> k" "366 * k \<le> n" using \<open>0 \<le> n\<close> by (simp_all add: k_def)
  moreover have "k div 4 \<le> k div 1" "k div 400 \<le> k div 100"
    using \<open>0 \<le> k\<close> by (auto intro!: zdiv_mono2)
  ultimately show ?thesis by (simp add: days_before_year_def flip: k_def)
qed

lemma time_of_day_split:
  assumes "0 \<le> t" "t < day_micros"
  shows "time_of_day (t div 3600000000) (t div 60000000 mod 60) (t div 1000000 mod 60) (t mod 1000000) = t"
    "t div 3600000000 \<le> 23"
proof -
  define q where "q = t div 1000000"
  have h: "t div 3600000000 = q div 60 div 60" "t div 60000000 = q div 60"
    by (simp_all add: q_def flip: zdiv_zmult2_eq)
  have "t = q * 1000000 + t mod 1000000" by (simp add: q_def)
  moreover have "q = q div 60 * 60 + q mod 60" "q div 60 = q div 60 div 60 * 60 + q div 60 mod 60"
    by simp_all
  ultimately show "time_of_day (t div 3600000000) (t div 60000000 mod 60)
      (t div 1000000 mod 60) (t mod 1000000) = t"
    by (simp add: time_of_day_def h flip: q_def)
  show "t div 3600000000 \<le> 23" using assms by (simp add: day_micros_def)
qed

theorem civil_of_inverse:
  assumes "representable i"
  shows "instant_of (civil_of i) = i \<and> valid_civil (civil_of i)"
proof -
  define n where "n = i div day_micros"
  define t where "t = i mod day_micros"
  define y0 where "y0 = n div 366 + 1"
  obtain y r where yr: "year_from y0 (n - days_before_year y0) = (y, r)" by fastforce
  obtain m d where md: "month_from y 1 r = (m, d)" by fastforce
  have n: "0 \<le> n" "n < 3652059" and t: "0 \<le> t" "t < day_micros" and i: "n * day_micros + t = i"
    using assms by (auto simp: n_def t_def representable_def max_instant_def day_micros_def)
  have "0 \<le> n - days_before_year y0" using days_before_estimate [OF n(1)] by (simp add: y0_def)
  from year_from_correct [OF this yr]
  have y: "days_before_year y + r = n" "0 \<le> r" "r < year_length y" "1 \<le> y"
    using n by (auto simp: y0_def)
  have y9: "y \<le> 9999"
  proof (rule ccontr)
    assume "\<not> y \<le> 9999"
    then have "days_before_year 10000 \<le> days_before_year y" by (intro days_before_year_mono) simp
    with y n show False by (simp add: days_before_year_def [of 10000])
  qed
  have m: "days_before_month y m + d = r" "1 \<le> m" "m \<le> 12" "0 \<le> d" "d < days_in_month y m"
    using month_from_correct [of 1 r y m d] y md by auto
  have c: "civil_of i = \<lparr>civ_year = y, civ_month = m, civ_day = d + 1,
      civ_hour = t div 3600000000, civ_minute = t div 60000000 mod 60,
      civ_second = t div 1000000 mod 60, civ_micro = t mod 1000000\<rparr>"
    using yr md by (simp add: civil_of_def Let_def n_def t_def y0_def)
  have "day_number y m (d + 1) = n" using y m by (simp add: day_number_def)
  then have inst: "instant_of (civil_of i) = i"
    using time_of_day_split(1) [OF t] i by (simp add: c instant_of_def)
  have "a mod 60 \<le> 59" "a mod 1000000 \<le> 999999" for a :: int
    by presburger+
  then have "valid_civil (civil_of i)"
    using y9 y m t(1) time_of_day_split(2) [OF t]
    by (simp add: c valid_civil_def pos_imp_zdiv_nonneg_iff)
  with inst show ?thesis by simp
qed

section \<open>Order of instants and order of calendar fields\<close>

definition civil_key :: "civil \<Rightarrow> int list" where
  "civil_key c = [civ_year c, civ_month c, civ_day c, civ_hour c, civ_minute c, civ_second c, civ_micro c]"

definition civil_less :: "civil \<Rightarrow> civil \<Rightarrow> bool" where
  "civil_less a b \<longleftrightarrow> civil_key a < civil_key b"

lemma civil_key_inj [simp]: "civil_key a = civil_key b \<longleftrightarrow> a = b"
  by (cases a; cases b) (simp add: civil_key_def)

lemma day_number_less:
  assumes "1 \<le> m" "m \<le> 12" "1 \<le> d" "d \<le> days_in_month y m"
    and "1 \<le> m'" "m' \<le> 12" "1 \<le> d'" "d' \<le> days_in_month y' m'"
    and "y < y' \<or> y = y' \<and> (m < m' \<or> m = m' \<and> d < d')"
  shows "day_number y m d < day_number y' m' d'"
proof -
  consider "y < y'" | "y = y'" "m < m'" | "y = y'" "m = m'" "d < d'" using assms(9) by blast
  then show ?thesis
  proof cases
    case 1
    then have "days_before_year (y + 1) \<le> days_before_year y'"
      by (intro days_before_year_mono) simp
    then show ?thesis
      using day_in_year(2) [OF assms(1-4)] day_in_year(1) [OF assms(5-8)]
      by (simp add: day_number_def days_before_next_year)
  next
    case 2
    then have "days_before_month y (m + 1) \<le> days_before_month y m'"
      using assms(1) by (intro days_before_month_mono) simp_all
    then show ?thesis using 2 assms by (simp add: day_number_def days_before_next_month)
  next
    case 3
    then show ?thesis by (simp add: day_number_def)
  qed
qed

lemma civil_less_instant:
  assumes "valid_civil a" "valid_civil b" "civil_less a b"
  shows "instant_of a < instant_of b"
proof -
  let ?D = "\<lambda>c. day_number (civ_year c) (civ_month c) (civ_day c)"
  let ?T = "\<lambda>c. time_of_day (civ_hour c) (civ_minute c) (civ_second c) (civ_micro c)"
  have T: "0 \<le> ?T c" "?T c < day_micros" if "valid_civil c" for c
    using that by (simp_all add: valid_civil_def time_of_day_def day_micros_def)
  consider (day) "?D a < ?D b" | (time) "?D a = ?D b" "?T a < ?T b"
    using assms day_number_less [of "civ_month a" "civ_day a" "civ_year a"
        "civ_month b" "civ_day b" "civ_year b"]
    by (auto simp: valid_civil_def civil_less_def civil_key_def time_of_day_def)
  then show ?thesis
  proof cases
    case day
    then have "?D a * day_micros + day_micros \<le> ?D b * day_micros"
      by (simp add: day_micros_def)
    with T [OF assms(1)] T [OF assms(2)] show ?thesis by (simp add: instant_of_def)
  next
    case time
    then show ?thesis by (simp add: instant_of_def)
  qed
qed

lemma civil_less_linear: "civil_less a b \<or> a = b \<or> civil_less b a"
  unfolding civil_less_def using linorder_less_linear [of "civil_key a" "civil_key b"] by simp

lemma civil_of_less:
  assumes "representable i" "representable j" "i < j"
  shows "civil_less (civil_of i) (civil_of j)"
proof -
  note inv = civil_of_inverse [OF assms(1)] civil_of_inverse [OF assms(2)]
  have "\<not> civil_less (civil_of j) (civil_of i)"
    using civil_less_instant [of "civil_of j" "civil_of i"] inv assms(3) by auto
  moreover have "civil_of i \<noteq> civil_of j" using inv assms(3) by force
  ultimately show ?thesis using civil_less_linear by blast
qed

section \<open>The persisted text\<close>

definition digit_char :: "int \<Rightarrow> char" where
  "digit_char d = char_of (48 + nat d)"

fun pad :: "nat \<Rightarrow> int \<Rightarrow> string" where
  "pad 0 n = []"
| "pad (Suc w) n = pad w (n div 10) @ [digit_char (n mod 10)]"

definition isoformat :: "civil \<Rightarrow> string" where
  "isoformat c =
     pad 4 (civ_year c) @ ''-'' @ pad 2 (civ_month c) @ ''-'' @ pad 2 (civ_day c) @ ''T'' @
     pad 2 (civ_hour c) @ '':'' @ pad 2 (civ_minute c) @ '':'' @ pad 2 (civ_second c) @ ''.'' @
     pad 6 (civ_micro c) @ ''Z''"

definition encode_datetime :: "instant \<Rightarrow> string" where
  "encode_datetime i = isoformat (civil_of i)"

lemma length_pad [simp]: "length (pad w n) = w"
  by (induction w arbitrary: n) simp_all

lemma append_less_append:
  "length (a :: string) = length b \<Longrightarrow> a @ x < b @ y \<longleftrightarrow> a < b \<or> a = b \<and> x < y"
  by (induction a b rule: list_induct2) auto

lemma digit_char_less:
  "0 \<le> a \<Longrightarrow> a < 10 \<Longrightarrow> 0 \<le> b \<Longrightarrow> b < 10 \<Longrightarrow> digit_char a < digit_char b \<longleftrightarrow> a < b"
  by (auto simp: digit_char_def less_char_def)

lemma less_by_digits:
  fixes q r q' r' :: int
  assumes "0 \<le> r" "r < 10" "0 \<le> r'" "r' < 10"
  shows "q * 10 + r < q' * 10 + r' \<longleftrightarrow> q < q' \<or> q = q' \<and> r < r'"
  using assms by (cases q q' rule: linorder_cases) auto

lemma pad_less:
  "0 \<le> m \<Longrightarrow> m < 10 ^ w \<Longrightarrow> 0 \<le> n \<Longrightarrow> n < 10 ^ w \<Longrightarrow> pad w m < pad w n \<longleftrightarrow> m < n"
proof (induction w arbitrary: m n)
  case (Suc w)
  have below: "k div 10 < 10 ^ w" if "k < 10 ^ Suc w" for k :: int
    using that by (simp only: power_Suc)
  have range: "0 \<le> m div 10" "m div 10 < 10 ^ w" "0 \<le> n div 10" "n div 10 < 10 ^ w"
    using below [OF Suc.prems(2)] below [OF Suc.prems(4)] Suc.prems(1,3)
    by (simp_all only: pos_imp_zdiv_nonneg_iff zero_less_numeral)
  have eq: "pad w (m div 10) = pad w (n div 10) \<longleftrightarrow> m div 10 = n div 10"
    using Suc.IH [OF range] Suc.IH [OF range(3,4) range(1,2)]
    by (cases "m div 10" "n div 10" rule: linorder_cases) (auto simp del: pad.simps)
  have "pad (Suc w) m < pad (Suc w) n \<longleftrightarrow>
      pad w (m div 10) < pad w (n div 10) \<or>
      pad w (m div 10) = pad w (n div 10) \<and> digit_char (m mod 10) < digit_char (n mod 10)"
    by (simp add: append_less_append)
  also have "\<dots> \<longleftrightarrow> m div 10 < n div 10 \<or> m div 10 = n div 10 \<and> m mod 10 < n mod 10"
    by (simp only: Suc.IH [OF range] eq digit_char_less pos_mod_sign pos_mod_bound zero_less_numeral)
  also have "\<dots> \<longleftrightarrow> m div 10 * 10 + m mod 10 < n div 10 * 10 + n mod 10"
    by (rule less_by_digits [symmetric]) simp_all
  finally show ?case by simp
qed simp

lemma pad_eq:
  "0 \<le> m \<Longrightarrow> m < 10 ^ w \<Longrightarrow> 0 \<le> n \<Longrightarrow> n < 10 ^ w \<Longrightarrow> pad w m = pad w n \<longleftrightarrow> m = n"
  using pad_less [of m w n] pad_less [of n w m]
  by (cases m n rule: linorder_cases) (auto simp del: pad.simps)

lemma isoformat_less:
  assumes "valid_civil a" "valid_civil b"
  shows "isoformat a < isoformat b \<longleftrightarrow> civil_less a b"
proof -
  have small: "0 \<le> civ_year c \<and> civ_year c < 10 ^ 4 \<and> 0 \<le> civ_month c \<and> civ_month c < 10 ^ 2 \<and>
      0 \<le> civ_day c \<and> civ_day c < 10 ^ 2 \<and> 0 \<le> civ_hour c \<and> civ_hour c < 10 ^ 2 \<and>
      0 \<le> civ_minute c \<and> civ_minute c < 10 ^ 2 \<and> 0 \<le> civ_second c \<and> civ_second c < 10 ^ 2 \<and>
      0 \<le> civ_micro c \<and> civ_micro c < 10 ^ 6" if "valid_civil c" for c
    using that days_in_month_bounds(2) [of "civ_year c" "civ_month c"]
    by (auto simp: valid_civil_def)
  note s = small [OF assms(1)] small [OF assms(2)]
  show ?thesis
    using s by (simp add: isoformat_def civil_less_def civil_key_def append_less_append pad_less pad_eq
        del: pad.simps power_numeral)
qed

theorem encode_datetime_less:
  assumes "representable i" "representable j"
  shows "encode_datetime i < encode_datetime j \<longleftrightarrow> i < j"
proof -
  have "isoformat (civil_of i) < isoformat (civil_of j) \<longleftrightarrow> civil_less (civil_of i) (civil_of j)"
    by (rule isoformat_less) (use assms civil_of_inverse in auto)
  moreover have "civil_less (civil_of i) (civil_of j) \<longleftrightarrow> i < j"
    using civil_of_less [OF assms] civil_less_instant [of "civil_of i" "civil_of j"]
      civil_of_inverse [OF assms(1)] civil_of_inverse [OF assms(2)] by auto
  ultimately show ?thesis by (simp add: encode_datetime_def)
qed

section \<open>Reading the text back\<close>

text \<open>
  \<^verbatim>\<open>datetime.fromisoformat\<close> accepts more spellings than the encoder writes; the model reads
  the 27-character shape of \<^verbatim>\<open>_encode_datetime\<close>, the only one the store writes.
\<close>

text \<open>
  \<open>OtherText\<close> marks a text of another shape: \<^verbatim>\<open>fromisoformat\<close> accepts some of these too, and what
  it makes of them is outside the model.
\<close>

datatype timestamp_error = CorruptTimestamp | OtherText

definition digit_value :: "char \<Rightarrow> int option" where
  "digit_value c =
     (let n = int (of_char c) in if 48 \<le> n \<and> n \<le> 57 then Some (n - 48) else None)"

fun digits_value :: "int \<Rightarrow> string \<Rightarrow> int option" where
  "digits_value acc [] = Some acc"
| "digits_value acc (c # cs) =
     (case digit_value c of None \<Rightarrow> None | Some d \<Rightarrow> digits_value (acc * 10 + d) cs)"

definition slice_value :: "nat \<Rightarrow> nat \<Rightarrow> string \<Rightarrow> int option" where
  "slice_value from w s = digits_value 0 (take w (drop from s))"

definition has_shape :: "string \<Rightarrow> bool" where
  "has_shape s \<longleftrightarrow> length s = 27 \<and> s ! 4 = CHR ''-'' \<and> s ! 7 = CHR ''-'' \<and> s ! 10 = CHR ''T'' \<and>
     s ! 13 = CHR '':'' \<and> s ! 16 = CHR '':'' \<and> s ! 19 = CHR ''.'' \<and> s ! 26 = CHR ''Z''"

definition parse_civil :: "string \<Rightarrow> civil option" where
  "parse_civil s =
     (case (slice_value 0 4 s, slice_value 5 2 s, slice_value 8 2 s, slice_value 11 2 s,
            slice_value 14 2 s, slice_value 17 2 s, slice_value 20 6 s) of
        (Some y, Some m, Some d, Some h, Some mi, Some sec, Some us) \<Rightarrow>
          Some \<lparr>civ_year = y, civ_month = m, civ_day = d, civ_hour = h, civ_minute = mi,
                civ_second = sec, civ_micro = us\<rparr>
      | _ \<Rightarrow> None)"

definition decode_datetime :: "string option \<Rightarrow> (timestamp_error, instant option) result" where
  "decode_datetime v =
     (case v of
        None \<Rightarrow> Inr None
      | Some s \<Rightarrow>
          (if \<not> has_shape s then Inl OtherText
           else case parse_civil s of
             None \<Rightarrow> Inl CorruptTimestamp
           | Some c \<Rightarrow> if valid_civil c then Inr (Some (instant_of c)) else Inl CorruptTimestamp))"

lemma digit_value_char: "0 \<le> d \<Longrightarrow> d < 10 \<Longrightarrow> digit_value (digit_char d) = Some d"
  by (simp add: digit_value_def digit_char_def Let_def)

lemma digits_value_append:
  "digits_value acc (xs @ ys) = Option.bind (digits_value acc xs) (\<lambda>b. digits_value b ys)"
  by (induction xs arbitrary: acc) (auto split: option.splits)

lemma digits_value_pad:
  "0 \<le> n \<Longrightarrow> n < 10 ^ w \<Longrightarrow> digits_value acc (pad w n) = Some (acc * 10 ^ w + n)"
proof (induction w arbitrary: n)
  case (Suc w)
  have "n div 10 < 10 ^ w" using Suc.prems(2) by (simp only: power_Suc)
  with Suc.prems(1) Suc.IH [of "n div 10"]
  have "digits_value acc (pad w (n div 10)) = Some (acc * 10 ^ w + n div 10)" by simp
  then have "digits_value acc (pad (Suc w) n) =
      Some ((acc * 10 ^ w + n div 10) * 10 + n mod 10)"
    by (simp add: digits_value_append digit_value_char)
  then show ?case by (simp add: algebra_simps)
qed simp

lemma isoformat_shape: "has_shape (isoformat c)"
  by (simp add: has_shape_def isoformat_def nth_append del: pad.simps)

lemma parse_isoformat:
  assumes "valid_civil c"
  shows "parse_civil (isoformat c) = Some c"
proof -
  have "civ_day c < 10 ^ 2"
    using assms days_in_month_bounds(2) [of "civ_year c" "civ_month c"]
    by (simp add: valid_civil_def)
  then show ?thesis
    using assms
    by (simp add: parse_civil_def slice_value_def isoformat_def valid_civil_def digits_value_pad
        del: pad.simps)
qed

theorem decode_encode_datetime:
  assumes "representable i"
  shows "decode_datetime (Some (encode_datetime i)) = Inr (Some i)"
  using civil_of_inverse [OF assms]
  by (simp add: decode_datetime_def encode_datetime_def isoformat_shape parse_isoformat)

end
