(* ===== verification/Py_Text.thy ===== *)
theory Py_Text
  imports Timestamps
begin

text \<open>
  The Python values that reach the validating constructors, and the string methods the source
  applies to them. A Python string is modelled as a list of characters with code points below
  256, where \<^verbatim>\<open>str.strip\<close>, \<^verbatim>\<open>str.lower\<close> and \<^verbatim>\<open>unicodedata.category\<close> are given by the tables
  of the Latin-1 block; every such string encodes to UTF-8, so the branches for unencodable
  strings have no counterpart.
\<close>

section \<open>Values\<close>

text \<open>
  \<open>PyDatetime w off\<close> is a \<^verbatim>\<open>datetime\<close> with wall clock \<open>w\<close> (microseconds since
  0001-01-01T00:00:00) and the UTC offset \<open>off\<close> in microseconds, \<open>None\<close> for a naive value.
\<close>

datatype pyval =
    PyNone
  | PyStr string
  | PyBool bool
  | PyInt int
  | PyBytes "nat list"
  | PyDatetime int "int option"

definition utc_datetime :: "instant \<Rightarrow> pyval" where
  "utc_datetime i = PyDatetime i (Some 0)"

definition py_optional :: "('a \<Rightarrow> pyval) \<Rightarrow> 'a option \<Rightarrow> pyval" where
  "py_optional f v = (case v of None \<Rightarrow> PyNone | Some x \<Rightarrow> f x)"

lemma py_optional_simps [simp]: "py_optional f None = PyNone" "py_optional f (Some x) = f x"
  by (simp_all add: py_optional_def)

section \<open>Characters\<close>

definition code_point :: "char \<Rightarrow> nat" where
  "code_point c = of_char c"

definition is_space :: "char \<Rightarrow> bool" where
  "is_space c \<longleftrightarrow>
     (let n = code_point c in 9 \<le> n \<and> n \<le> 13 \<or> 28 \<le> n \<and> n \<le> 32 \<or> n = 133 \<or> n = 160)"

definition is_upper :: "char \<Rightarrow> bool" where
  "is_upper c \<longleftrightarrow> (let n = code_point c in 65 \<le> n \<and> n \<le> 90 \<or> 192 \<le> n \<and> n \<le> 222 \<and> n \<noteq> 215)"

definition lower_char :: "char \<Rightarrow> char" where
  "lower_char c = (if is_upper c then char_of (code_point c + 32) else c)"

definition is_control :: "char \<Rightarrow> bool" where
  "is_control c \<longleftrightarrow> (let n = code_point c in n < 32 \<or> n = 127)"

text \<open>\<^verbatim>\<open>unicodedata.category(c).startswith("C")\<close>: the C0 and C1 controls and the soft hyphen.\<close>

definition category_C :: "char \<Rightarrow> bool" where
  "category_C c \<longleftrightarrow> (let n = code_point c in n < 32 \<or> 127 \<le> n \<and> n < 160 \<or> n = 173)"

definition is_hex_digit :: "char \<Rightarrow> bool" where
  "is_hex_digit c \<longleftrightarrow> (let n = code_point c in 48 \<le> n \<and> n \<le> 57 \<or> 97 \<le> n \<and> n \<le> 102)"

lemma code_point_less [simp]: "code_point c < 256"
  by (simp add: code_point_def)

lemma code_point_char_of: "code_point (char_of n) = n mod 256"
  by (simp add: code_point_def)

lemma is_upper_lower [simp]: "\<not> is_upper (lower_char c)"
  by (auto simp: lower_char_def is_upper_def code_point_char_of Let_def)

lemma lower_char_idem [simp]: "lower_char (lower_char c) = lower_char c"
  by (simp add: lower_char_def [of "lower_char c"])

lemma is_space_lower [simp]: "is_space (lower_char c) = is_space c"
  by (auto simp: lower_char_def is_upper_def is_space_def code_point_char_of Let_def)

section \<open>String methods\<close>

definition strip :: "string \<Rightarrow> string" where
  "strip s = rev (dropWhile is_space (rev (dropWhile is_space s)))"

definition lower :: "string \<Rightarrow> string" where
  "lower s = map lower_char s"

text \<open>\<^verbatim>\<open>str.partition\<close> at a single character: the part before, whether it occurs, the part after.\<close>

definition partition_at :: "char \<Rightarrow> string \<Rightarrow> string \<times> bool \<times> string" where
  "partition_at c s =
     (let before = takeWhile (\<lambda>x. x \<noteq> c) s; rest = dropWhile (\<lambda>x. x \<noteq> c) s
      in case rest of [] \<Rightarrow> (s, False, []) | _ # after \<Rightarrow> (before, True, after))"

definition stripped :: "string \<Rightarrow> bool" where
  "stripped s \<longleftrightarrow> strip s = s"

lemma strip_Nil [simp]: "strip [] = []"
  by (simp add: strip_def)

lemma strip_prefix: "\<exists>w. dropWhile is_space s = strip s @ w"
  unfolding strip_def
  by (metis rev_append rev_rev_ident takeWhile_dropWhile_id)

lemma strip_idem [simp]: "strip (strip s) = strip s"
proof (cases "strip s")
  case (Cons c u)
  obtain w where w: "dropWhile is_space s = strip s @ w" using strip_prefix by blast
  then have "\<not> is_space c"
    using Cons hd_dropWhile [of is_space s] by auto
  then have "dropWhile is_space (strip s) = strip s" using Cons by simp
  moreover have "dropWhile is_space (rev (strip s)) = rev (strip s)"
    by (simp add: strip_def)
  ultimately show ?thesis by (simp add: strip_def [of "strip s"])
qed simp

lemma stripped_strip [simp]: "stripped (strip s)"
  by (simp add: stripped_def)

lemma lower_idem [simp]: "lower (lower s) = lower s"
  by (simp add: lower_def)

lemma length_lower [simp]: "length (lower s) = length s"
  by (simp add: lower_def)

lemma lower_eq_Nil [simp]: "lower s = [] \<longleftrightarrow> s = []"
  by (simp add: lower_def)

lemma strip_lower: "strip (lower s) = lower (strip s)"
proof -
  have "dropWhile is_space (map lower_char t) = map lower_char (dropWhile is_space t)" for t
    by (induction t) auto
  then show ?thesis by (simp add: strip_def lower_def rev_map)
qed

lemma stripped_lower [simp]: "stripped s \<Longrightarrow> stripped (lower s)"
  by (simp add: stripped_def strip_lower)

end
