(* ===== verification/Identity.thy ===== *)
theory Identity
  imports Py_Text
begin

text \<open>
  The identity domain of \<^verbatim>\<open>scripts/thebitlab_identity.py\<close>: the frozen dataclasses with their
  \<^verbatim>\<open>__post_init__\<close> validation as constructor functions from Python values to records, the
  pairing transitions, and the link and mapping checks. Each constructor comes with the
  invariant of the record it builds and the fact that rebuilding a valid record from its own
  fields gives the record back.
\<close>

section \<open>Roles, statuses and audiences\<close>

datatype user_role = RoleAdmin | RoleTeacher | RoleStudent | RolePending
datatype membership_role = MemberTeacher | MemberStudent
datatype pairing_status = PairPending | PairAuthorized | PairConsumed | PairExpired | PairRevoked
datatype session_audience = AudienceWeb | AudienceTui

datatype identity_error =
    InvalidIdentityData
  | InvalidRole
  | DuplicateExternalIdentity
  | IdentityLinkConflict
  | AccountDisabled
  | InvalidPairingTransition
  | DatetimeOverflow

fun role_text :: "user_role \<Rightarrow> string" where
  "role_text RoleAdmin = ''admin''"
| "role_text RoleTeacher = ''teacher''"
| "role_text RoleStudent = ''student''"
| "role_text RolePending = ''pending''"

definition role_of_text :: "string \<Rightarrow> user_role option" where
  "role_of_text s = find (\<lambda>r. role_text r = s) [RoleAdmin, RoleTeacher, RoleStudent, RolePending]"

fun member_text :: "membership_role \<Rightarrow> string" where
  "member_text MemberTeacher = ''teacher''"
| "member_text MemberStudent = ''student''"

definition member_of_text :: "string \<Rightarrow> membership_role option" where
  "member_of_text s = find (\<lambda>r. member_text r = s) [MemberTeacher, MemberStudent]"

fun status_text :: "pairing_status \<Rightarrow> string" where
  "status_text PairPending = ''pending''"
| "status_text PairAuthorized = ''authorized''"
| "status_text PairConsumed = ''consumed''"
| "status_text PairExpired = ''expired''"
| "status_text PairRevoked = ''revoked''"

definition status_of_text :: "string \<Rightarrow> pairing_status option" where
  "status_of_text s =
     find (\<lambda>r. status_text r = s) [PairPending, PairAuthorized, PairConsumed, PairExpired, PairRevoked]"

fun audience_text :: "session_audience \<Rightarrow> string" where
  "audience_text AudienceWeb = ''web''"
| "audience_text AudienceTui = ''tui''"

definition audience_of_text :: "string \<Rightarrow> session_audience option" where
  "audience_of_text s = find (\<lambda>r. audience_text r = s) [AudienceWeb, AudienceTui]"

lemma role_of_role_text [simp]: "role_of_text (role_text r) = Some r"
  by (cases r) (simp_all add: role_of_text_def)

lemma member_of_member_text [simp]: "member_of_text (member_text m) = Some m"
  by (cases m) (simp_all add: member_of_text_def)

lemma status_of_status_text [simp]: "status_of_text (status_text st) = Some st"
  by (cases st) (simp_all add: status_of_text_def)

lemma audience_of_audience_text [simp]: "audience_of_text (audience_text a) = Some a"
  by (cases a) (simp_all add: audience_of_text_def)

section \<open>Field validation\<close>

definition required_text :: "bool \<Rightarrow> pyval \<Rightarrow> (identity_error, string) result" where
  "required_text lowercase v =
     (case v of
        PyStr s \<Rightarrow>
          (let stripped_text = strip s;
               normalized = (if lowercase then lower stripped_text else stripped_text)
           in if normalized = [] then Inl InvalidIdentityData
              else if 512 < length normalized then Inl InvalidIdentityData
              else if list_ex is_control normalized then Inl InvalidIdentityData
              else Inr normalized)
      | _ \<Rightarrow> Inl InvalidIdentityData)"

definition optional_text :: "bool \<Rightarrow> pyval \<Rightarrow> (identity_error, string option) result" where
  "optional_text lowercase v =
     (if v = PyNone then Inr None else bind_result (required_text lowercase v) (\<lambda>t. Inr (Some t)))"

definition aware_datetime :: "pyval \<Rightarrow> (identity_error, instant) result" where
  "aware_datetime v =
     (case v of
        PyDatetime wall (Some offset) \<Rightarrow>
          if representable (wall - offset) then Inr (wall - offset) else Inl DatetimeOverflow
      | _ \<Rightarrow> Inl InvalidIdentityData)"

definition optional_datetime :: "pyval \<Rightarrow> (identity_error, instant option) result" where
  "optional_datetime v =
     (if v = PyNone then Inr None else bind_result (aware_datetime v) (\<lambda>t. Inr (Some t)))"

definition boolean_field :: "pyval \<Rightarrow> (identity_error, bool) result" where
  "boolean_field v = (case v of PyBool b \<Rightarrow> Inr b | _ \<Rightarrow> Inl InvalidIdentityData)"

definition choice_field ::
  "identity_error \<Rightarrow> (string \<Rightarrow> 'a option) \<Rightarrow> pyval \<Rightarrow> (identity_error, 'a) result" where
  "choice_field err parse v =
     bind_result (required_text True v)
       (\<lambda>t. case parse t of None \<Rightarrow> Inl err | Some x \<Rightarrow> Inr x)"

definition digest_hex_length :: "string \<Rightarrow> nat option" where
  "digest_hex_length algorithm =
     (if algorithm = ''sha256'' then Some 64
      else if algorithm = ''sha512'' then Some 128
      else if algorithm = ''hmac-sha256'' then Some 64
      else if algorithm = ''hmac-sha512'' then Some 128
      else None)"

definition session_digest_algorithms :: "string list" where
  "session_digest_algorithms = [''sha256'', ''sha512'']"

definition pairing_digest_algorithms :: "string list" where
  "pairing_digest_algorithms = [''hmac-sha256'', ''hmac-sha512'']"

definition digest_shape :: "string list \<Rightarrow> string \<Rightarrow> bool" where
  "digest_shape allowed d =
     (let (algorithm, separated, hexadecimal) = partition_at (CHR '':'') d
      in separated \<and> List.member allowed algorithm \<and>
         digest_hex_length algorithm = Some (length hexadecimal) \<and>
         hexadecimal \<noteq> [] \<and> list_all is_hex_digit hexadecimal)"

definition digest_field :: "string list \<Rightarrow> pyval \<Rightarrow> (identity_error, string) result" where
  "digest_field allowed v =
     bind_result (required_text True v)
       (\<lambda>d. if digest_shape allowed d then Inr d else Inl InvalidIdentityData)"

text \<open>The texts the validators let through; they are fixed points of the validators.\<close>

definition clean_text :: "string \<Rightarrow> bool" where
  "clean_text t \<longleftrightarrow> stripped t \<and> t \<noteq> [] \<and> length t \<le> 512 \<and> list_all (\<lambda>c. \<not> is_control c) t"

definition clean_lower_text :: "string \<Rightarrow> bool" where
  "clean_lower_text t \<longleftrightarrow> clean_text t \<and> lower t = t"

definition valid_digest :: "string list \<Rightarrow> string \<Rightarrow> bool" where
  "valid_digest allowed d \<longleftrightarrow> clean_lower_text d \<and> digest_shape allowed d"

named_theorems field_simps "what the field validators accept and return"

lemma not_list_ex: "\<not> list_ex P xs \<longleftrightarrow> list_all (\<lambda>x. \<not> P x) xs"
  by (induction xs) auto

lemma required_text_clean: "required_text lowercase v = Inr t \<Longrightarrow> clean_text t"
  by (cases v) (auto simp: required_text_def clean_text_def Let_def not_list_ex split: if_splits)

lemma required_text_lower: "required_text True v = Inr t \<Longrightarrow> clean_lower_text t"
  using required_text_clean [of True v t]
  by (cases v) (auto simp: required_text_def clean_lower_text_def Let_def split: if_splits)

lemma required_text_self [field_simps]:
  "clean_text t \<Longrightarrow> required_text False (PyStr t) = Inr t"
  "clean_lower_text t \<Longrightarrow> required_text True (PyStr t) = Inr t"
  by (auto simp: required_text_def clean_text_def clean_lower_text_def stripped_def Let_def not_list_ex)

definition optional_clean :: "string option \<Rightarrow> bool" where
  "optional_clean v \<longleftrightarrow> pred_option clean_text v"

definition optional_clean_lower :: "string option \<Rightarrow> bool" where
  "optional_clean_lower v \<longleftrightarrow> pred_option clean_lower_text v"

lemma optional_text_clean:
  "optional_text False v = Inr t \<Longrightarrow> optional_clean t"
  "optional_text True v = Inr t \<Longrightarrow> optional_clean_lower t"
  by (auto simp: optional_text_def optional_clean_def optional_clean_lower_def result_simps
      split: if_splits dest: required_text_clean required_text_lower)

lemma optional_text_self [field_simps]:
  "optional_clean v \<Longrightarrow> optional_text False (py_optional PyStr v) = Inr v"
  "optional_clean_lower v \<Longrightarrow> optional_text True (py_optional PyStr v) = Inr v"
  by (cases v; simp add: optional_text_def optional_clean_def optional_clean_lower_def field_simps)+

lemma aware_datetime_representable: "aware_datetime v = Inr i \<Longrightarrow> representable i"
  by (auto simp: aware_datetime_def split: pyval.splits option.splits if_splits)

lemma aware_datetime_utc [field_simps]:
  "representable i \<Longrightarrow> aware_datetime (utc_datetime i) = Inr i"
  by (simp add: aware_datetime_def utc_datetime_def)

lemma boolean_field_self [field_simps]: "boolean_field (PyBool b) = Inr b"
  by (simp add: boolean_field_def)

lemma clean_literals:
  "list_all clean_lower_text [''admin'', ''teacher'', ''student'', ''pending'', ''authorized'',
     ''consumed'', ''expired'', ''revoked'', ''web'', ''tui'', ''google'', ''github'']"
  by code_simp

lemma clean_texts [simp]:
  "clean_lower_text (role_text r)" "clean_lower_text (member_text m)"
  "clean_lower_text (status_text st)" "clean_lower_text (audience_text a)"
  using clean_literals
  by (cases r; simp) (use clean_literals in \<open>cases m; simp\<close>,
      use clean_literals in \<open>cases st; simp\<close>, use clean_literals in \<open>cases a; simp\<close>)

lemma choice_field_self [field_simps]:
  "choice_field e role_of_text (PyStr (role_text r)) = Inr r"
  "choice_field e member_of_text (PyStr (member_text m)) = Inr m"
  "choice_field e status_of_text (PyStr (status_text st)) = Inr st"
  "choice_field e audience_of_text (PyStr (audience_text a)) = Inr a"
  by (simp_all add: choice_field_def field_simps)

lemma digest_field_valid: "digest_field allowed v = Inr d \<Longrightarrow> valid_digest allowed d"
  by (auto simp: digest_field_def valid_digest_def result_simps split: if_splits
      dest: required_text_lower)

lemma digest_field_self [field_simps]:
  "valid_digest allowed d \<Longrightarrow> digest_field allowed (PyStr d) = Inr d"
  by (simp add: digest_field_def valid_digest_def field_simps)

lemma valid_digest_lower: "valid_digest allowed d \<Longrightarrow> lower d = d"
  by (simp add: valid_digest_def clean_lower_text_def)

section \<open>The dataclasses\<close>

record user_account =
  acc_user_id :: string
  acc_display_name :: string
  acc_role :: user_role
  acc_active :: bool
  acc_created_at :: instant
  acc_updated_at :: instant
  acc_primary_email :: "string option"

definition make_user_account ::
  "pyval \<Rightarrow> pyval \<Rightarrow> pyval \<Rightarrow> pyval \<Rightarrow> pyval \<Rightarrow> pyval \<Rightarrow> pyval \<Rightarrow> (identity_error, user_account) result"
where
  "make_user_account user_id display_name role active created_at updated_at primary_email =
     bind_result (required_text False user_id) (\<lambda>uid.
     bind_result (required_text False display_name) (\<lambda>name.
     bind_result (choice_field InvalidRole role_of_text role) (\<lambda>r.
     bind_result (boolean_field active) (\<lambda>act.
     bind_result (aware_datetime created_at) (\<lambda>created.
     bind_result (aware_datetime updated_at) (\<lambda>updated.
     if updated < created then Inl InvalidIdentityData
     else bind_result (optional_text True primary_email) (\<lambda>email.
       Inr \<lparr>acc_user_id = uid, acc_display_name = name, acc_role = r, acc_active = act,
            acc_created_at = created, acc_updated_at = updated, acc_primary_email = email\<rparr>)))))))"

record external_identity =
  ext_user_id :: string
  ext_provider :: string
  ext_subject :: string
  ext_linked_at :: instant
  ext_email :: "string option"
  ext_username :: "string option"

definition make_external_identity ::
  "pyval \<Rightarrow> pyval \<Rightarrow> pyval \<Rightarrow> pyval \<Rightarrow> pyval \<Rightarrow> pyval \<Rightarrow> (identity_error, external_identity) result"
where
  "make_external_identity user_id provider subject linked_at email username =
     bind_result (required_text False user_id) (\<lambda>uid.
     bind_result (required_text True provider) (\<lambda>prov.
     bind_result (required_text False subject) (\<lambda>subj.
     bind_result (aware_datetime linked_at) (\<lambda>linked.
     bind_result (optional_text True email) (\<lambda>mail.
     bind_result (optional_text False username) (\<lambda>name.
       Inr \<lparr>ext_user_id = uid, ext_provider = prov, ext_subject = subj, ext_linked_at = linked,
            ext_email = mail, ext_username = name\<rparr>))))))"

definition ext_provider_key :: "external_identity \<Rightarrow> string \<times> string" where
  "ext_provider_key e = (ext_provider e, ext_subject e)"

record class_group =
  cls_class_id :: string
  cls_label :: string
  cls_school_year :: string
  cls_active :: bool
  cls_created_at :: instant
  cls_updated_at :: instant

definition make_class_group ::
  "pyval \<Rightarrow> pyval \<Rightarrow> pyval \<Rightarrow> pyval \<Rightarrow> pyval \<Rightarrow> pyval \<Rightarrow> (identity_error, class_group) result"
where
  "make_class_group class_id label school_year active created_at updated_at =
     bind_result (required_text False class_id) (\<lambda>cid.
     bind_result (required_text False label) (\<lambda>lab.
     bind_result (required_text False school_year) (\<lambda>year.
     bind_result (boolean_field active) (\<lambda>act.
     bind_result (aware_datetime created_at) (\<lambda>created.
     bind_result (aware_datetime updated_at) (\<lambda>updated.
     if updated < created then Inl InvalidIdentityData
     else Inr \<lparr>cls_class_id = cid, cls_label = lab, cls_school_year = year, cls_active = act,
               cls_created_at = created, cls_updated_at = updated\<rparr>))))))"

record class_membership =
  mem_user_id :: string
  mem_class_id :: string
  mem_role :: membership_role
  mem_joined_at :: instant
  mem_source_provider :: "string option"
  mem_source_group :: "string option"

definition make_class_membership ::
  "pyval \<Rightarrow> pyval \<Rightarrow> pyval \<Rightarrow> pyval \<Rightarrow> pyval \<Rightarrow> pyval \<Rightarrow> (identity_error, class_membership) result"
where
  "make_class_membership user_id class_id role joined_at source_provider source_group_subject =
     bind_result (required_text False user_id) (\<lambda>uid.
     bind_result (required_text False class_id) (\<lambda>cid.
     bind_result (choice_field InvalidRole member_of_text role) (\<lambda>r.
     bind_result (aware_datetime joined_at) (\<lambda>joined.
     bind_result (optional_text True source_provider) (\<lambda>prov.
     bind_result (optional_text False source_group_subject) (\<lambda>grp.
     if (prov = None) \<noteq> (grp = None) then Inl InvalidIdentityData
     else Inr \<lparr>mem_user_id = uid, mem_class_id = cid, mem_role = r, mem_joined_at = joined,
               mem_source_provider = prov, mem_source_group = grp\<rparr>))))))"

record group_mapping =
  map_provider :: string
  map_organization :: string
  map_group :: string
  map_class_id :: string
  map_created_at :: instant
  map_display_name :: "string option"
  map_updated_at :: instant

definition make_group_mapping ::
  "pyval \<Rightarrow> pyval \<Rightarrow> pyval \<Rightarrow> pyval \<Rightarrow> pyval \<Rightarrow> pyval \<Rightarrow> pyval \<Rightarrow> (identity_error, group_mapping) result"
where
  "make_group_mapping provider organization_subject group_subject class_id created_at display_name updated_at =
     bind_result (required_text True provider) (\<lambda>prov.
     bind_result (required_text False organization_subject) (\<lambda>org.
     bind_result (required_text False group_subject) (\<lambda>grp.
     bind_result (required_text False class_id) (\<lambda>cid.
     bind_result (aware_datetime created_at) (\<lambda>created.
     bind_result (optional_text False display_name) (\<lambda>name.
     bind_result (if updated_at = PyNone then Inr created else aware_datetime updated_at) (\<lambda>updated.
     if updated < created then Inl InvalidIdentityData
     else Inr \<lparr>map_provider = prov, map_organization = org, map_group = grp, map_class_id = cid,
               map_created_at = created, map_display_name = name, map_updated_at = updated\<rparr>)))))))"

definition map_provider_key :: "group_mapping \<Rightarrow> string \<times> string \<times> string" where
  "map_provider_key m = (map_provider m, map_organization m, map_group m)"

record user_session =
  ses_session_id :: string
  ses_user_id :: string
  ses_token_digest :: string
  ses_created_at :: instant
  ses_expires_at :: instant
  ses_last_seen_at :: instant
  ses_revoked_at :: "instant option"
  ses_audience :: session_audience
  ses_source_pairing :: "string option"

definition revocation_field ::
  "pyval \<Rightarrow> instant \<Rightarrow> instant \<Rightarrow> instant \<Rightarrow> (identity_error, instant option) result" where
  "revocation_field revoked_at created expires last_seen =
     (if revoked_at = PyNone then Inr None
      else bind_result (aware_datetime revoked_at) (\<lambda>revoked.
        if \<not> (created \<le> revoked \<and> revoked < expires) then Inl InvalidIdentityData
        else if revoked < last_seen then Inl InvalidIdentityData
        else Inr (Some revoked)))"

definition make_user_session ::
  "pyval \<Rightarrow> pyval \<Rightarrow> pyval \<Rightarrow> pyval \<Rightarrow> pyval \<Rightarrow> pyval \<Rightarrow> pyval \<Rightarrow> pyval \<Rightarrow> pyval \<Rightarrow>
   (identity_error, user_session) result"
where
  "make_user_session session_id user_id token_digest created_at expires_at last_seen_at
       revoked_at audience source_pairing_id =
     bind_result (required_text False session_id) (\<lambda>sid.
     bind_result (required_text False user_id) (\<lambda>uid.
     bind_result (digest_field session_digest_algorithms token_digest) (\<lambda>digest.
     bind_result (choice_field InvalidIdentityData audience_of_text audience) (\<lambda>aud.
     bind_result (optional_text False source_pairing_id) (\<lambda>pairing.
     if (aud = AudienceTui) \<noteq> (pairing \<noteq> None) then Inl InvalidIdentityData
     else bind_result (aware_datetime created_at) (\<lambda>created.
     bind_result (aware_datetime expires_at) (\<lambda>expires.
     bind_result (aware_datetime last_seen_at) (\<lambda>last_seen.
     if expires \<le> created then Inl InvalidIdentityData
     else if \<not> (created \<le> last_seen \<and> last_seen < expires) then Inl InvalidIdentityData
     else bind_result (revocation_field revoked_at created expires last_seen) (\<lambda>revoked.
       Inr \<lparr>ses_session_id = sid, ses_user_id = uid, ses_token_digest = digest,
            ses_created_at = created, ses_expires_at = expires, ses_last_seen_at = last_seen,
            ses_revoked_at = revoked, ses_audience = aud, ses_source_pairing = pairing\<rparr>)))))))))"

record tui_pairing =
  par_pairing_id :: string
  par_code_digest :: string
  par_status :: pairing_status
  par_created_at :: instant
  par_expires_at :: instant
  par_user_id :: "string option"
  par_authorized_at :: "instant option"
  par_consumed_at :: "instant option"
  par_expired_at :: "instant option"
  par_revoked_at :: "instant option"

text \<open>One round of the loop over \<^verbatim>\<open>authorized_at\<close>, \<^verbatim>\<open>consumed_at\<close> and \<^verbatim>\<open>revoked_at\<close>.\<close>

definition pairing_instant_field ::
  "instant \<Rightarrow> instant \<Rightarrow> pyval \<Rightarrow> (identity_error, instant option) result" where
  "pairing_instant_field created expires v =
     (if v = PyNone then Inr None
      else bind_result (aware_datetime v) (\<lambda>t.
        if \<not> (created \<le> t \<and> t \<le> expires) then Inl InvalidIdentityData
        else if t = expires then Inl InvalidIdentityData
        else Inr (Some t)))"

definition expired_field :: "instant \<Rightarrow> pyval \<Rightarrow> (identity_error, instant option) result" where
  "expired_field expires v =
     (if v = PyNone then Inr None
      else bind_result (aware_datetime v) (\<lambda>t.
        if t < expires then Inl InvalidIdentityData else Inr (Some t)))"

definition later_than :: "instant option \<Rightarrow> instant option \<Rightarrow> bool" where
  "later_than a b \<longleftrightarrow> (case (a, b) of (Some x, Some y) \<Rightarrow> x \<le> y | _ \<Rightarrow> True)"

definition pairing_consistent :: "tui_pairing \<Rightarrow> bool" where
  "pairing_consistent p \<longleftrightarrow>
     (par_user_id p = None) = (par_authorized_at p = None) \<and>
     later_than (par_authorized_at p) (par_consumed_at p) \<and>
     later_than (par_authorized_at p) (par_revoked_at p) \<and>
     (case par_status p of
        PairPending \<Rightarrow> par_user_id p = None \<and> par_authorized_at p = None \<and> par_consumed_at p = None \<and>
          par_expired_at p = None \<and> par_revoked_at p = None
      | PairAuthorized \<Rightarrow> par_user_id p \<noteq> None \<and> par_consumed_at p = None \<and>
          par_expired_at p = None \<and> par_revoked_at p = None
      | PairConsumed \<Rightarrow> par_user_id p \<noteq> None \<and> par_consumed_at p \<noteq> None \<and>
          par_expired_at p = None \<and> par_revoked_at p = None
      | PairExpired \<Rightarrow> par_expired_at p \<noteq> None \<and> par_consumed_at p = None \<and> par_revoked_at p = None
      | PairRevoked \<Rightarrow> par_revoked_at p \<noteq> None \<and> par_consumed_at p = None \<and> par_expired_at p = None)"

definition make_tui_pairing ::
  "pyval \<Rightarrow> pyval \<Rightarrow> pyval \<Rightarrow> pyval \<Rightarrow> pyval \<Rightarrow> pyval \<Rightarrow> pyval \<Rightarrow> pyval \<Rightarrow> pyval \<Rightarrow> pyval \<Rightarrow>
   (identity_error, tui_pairing) result"
where
  "make_tui_pairing pairing_id code_digest status created_at expires_at user_id
       authorized_at consumed_at expired_at revoked_at =
     bind_result (required_text False pairing_id) (\<lambda>pid.
     bind_result (digest_field pairing_digest_algorithms code_digest) (\<lambda>digest.
     bind_result (choice_field InvalidIdentityData status_of_text status) (\<lambda>st.
     bind_result (aware_datetime created_at) (\<lambda>created.
     bind_result (aware_datetime expires_at) (\<lambda>expires.
     if expires \<le> created then Inl InvalidIdentityData
     else bind_result (optional_text False user_id) (\<lambda>uid.
     bind_result (pairing_instant_field created expires authorized_at) (\<lambda>authorized.
     bind_result (pairing_instant_field created expires consumed_at) (\<lambda>consumed.
     bind_result (pairing_instant_field created expires revoked_at) (\<lambda>revoked.
     bind_result (expired_field expires expired_at) (\<lambda>expired.
     let p = \<lparr>par_pairing_id = pid, par_code_digest = digest, par_status = st,
              par_created_at = created, par_expires_at = expires, par_user_id = uid,
              par_authorized_at = authorized, par_consumed_at = consumed,
              par_expired_at = expired, par_revoked_at = revoked\<rparr>
     in if pairing_consistent p then Inr p else Inl InvalidIdentityData))))))))))"

end
