(* ===== verification/Identity_Lifecycle.thy ===== *)
theory Identity_Lifecycle
  imports Identity
begin

text \<open>
  What the constructors of the identity domain guarantee, and the operations on built records:
  \<^verbatim>\<open>authorize_pairing\<close>, \<^verbatim>\<open>consume_pairing\<close>, \<^verbatim>\<open>expire_pairing\<close>, \<^verbatim>\<open>revoke_pairing\<close>,
  \<^verbatim>\<open>require_active_account\<close> and the two conflict checks. \<open>valid_X\<close> is the invariant of the
  dataclass \<open>X\<close>; \<open>rebuild_X\<close> runs its constructor on the fields of a record, as
  \<^verbatim>\<open>dataclasses.replace\<close> and the storage hydration do.
\<close>

section \<open>Invariants and rebuilding\<close>

definition valid_user :: "user_account \<Rightarrow> bool" where
  "valid_user u \<longleftrightarrow>
     clean_text (acc_user_id u) \<and> clean_text (acc_display_name u) \<and>
     representable (acc_created_at u) \<and> representable (acc_updated_at u) \<and>
     acc_created_at u \<le> acc_updated_at u \<and> optional_clean_lower (acc_primary_email u)"

definition rebuild_user :: "user_account \<Rightarrow> (identity_error, user_account) result" where
  "rebuild_user u =
     make_user_account (PyStr (acc_user_id u)) (PyStr (acc_display_name u))
       (PyStr (role_text (acc_role u))) (PyBool (acc_active u)) (utc_datetime (acc_created_at u))
       (utc_datetime (acc_updated_at u)) (py_optional PyStr (acc_primary_email u))"

definition valid_external :: "external_identity \<Rightarrow> bool" where
  "valid_external e \<longleftrightarrow>
     clean_text (ext_user_id e) \<and> clean_lower_text (ext_provider e) \<and> clean_text (ext_subject e) \<and>
     representable (ext_linked_at e) \<and> optional_clean_lower (ext_email e) \<and>
     optional_clean (ext_username e)"

definition rebuild_external :: "external_identity \<Rightarrow> (identity_error, external_identity) result" where
  "rebuild_external e =
     make_external_identity (PyStr (ext_user_id e)) (PyStr (ext_provider e)) (PyStr (ext_subject e))
       (utc_datetime (ext_linked_at e)) (py_optional PyStr (ext_email e))
       (py_optional PyStr (ext_username e))"

definition valid_class :: "class_group \<Rightarrow> bool" where
  "valid_class c \<longleftrightarrow>
     clean_text (cls_class_id c) \<and> clean_text (cls_label c) \<and> clean_text (cls_school_year c) \<and>
     representable (cls_created_at c) \<and> representable (cls_updated_at c) \<and>
     cls_created_at c \<le> cls_updated_at c"

definition rebuild_class :: "class_group \<Rightarrow> (identity_error, class_group) result" where
  "rebuild_class c =
     make_class_group (PyStr (cls_class_id c)) (PyStr (cls_label c)) (PyStr (cls_school_year c))
       (PyBool (cls_active c)) (utc_datetime (cls_created_at c)) (utc_datetime (cls_updated_at c))"

definition valid_membership :: "class_membership \<Rightarrow> bool" where
  "valid_membership m \<longleftrightarrow>
     clean_text (mem_user_id m) \<and> clean_text (mem_class_id m) \<and> representable (mem_joined_at m) \<and>
     optional_clean_lower (mem_source_provider m) \<and> optional_clean (mem_source_group m) \<and>
     (mem_source_provider m = None) = (mem_source_group m = None)"

definition rebuild_membership :: "class_membership \<Rightarrow> (identity_error, class_membership) result" where
  "rebuild_membership m =
     make_class_membership (PyStr (mem_user_id m)) (PyStr (mem_class_id m))
       (PyStr (member_text (mem_role m))) (utc_datetime (mem_joined_at m))
       (py_optional PyStr (mem_source_provider m)) (py_optional PyStr (mem_source_group m))"

definition valid_mapping :: "group_mapping \<Rightarrow> bool" where
  "valid_mapping m \<longleftrightarrow>
     clean_lower_text (map_provider m) \<and> clean_text (map_organization m) \<and> clean_text (map_group m) \<and>
     clean_text (map_class_id m) \<and> representable (map_created_at m) \<and>
     representable (map_updated_at m) \<and> map_created_at m \<le> map_updated_at m \<and>
     optional_clean (map_display_name m)"

definition rebuild_mapping :: "group_mapping \<Rightarrow> (identity_error, group_mapping) result" where
  "rebuild_mapping m =
     make_group_mapping (PyStr (map_provider m)) (PyStr (map_organization m)) (PyStr (map_group m))
       (PyStr (map_class_id m)) (utc_datetime (map_created_at m))
       (py_optional PyStr (map_display_name m)) (utc_datetime (map_updated_at m))"

definition valid_session :: "user_session \<Rightarrow> bool" where
  "valid_session s \<longleftrightarrow>
     clean_text (ses_session_id s) \<and> clean_text (ses_user_id s) \<and>
     valid_digest session_digest_algorithms (ses_token_digest s) \<and>
     optional_clean (ses_source_pairing s) \<and>
     (ses_audience s = AudienceTui \<longleftrightarrow> ses_source_pairing s \<noteq> None) \<and>
     representable (ses_created_at s) \<and> representable (ses_expires_at s) \<and>
     representable (ses_last_seen_at s) \<and>
     ses_created_at s < ses_expires_at s \<and>
     ses_created_at s \<le> ses_last_seen_at s \<and> ses_last_seen_at s < ses_expires_at s \<and>
     pred_option (\<lambda>r. representable r \<and> ses_created_at s \<le> r \<and> r < ses_expires_at s \<and>
       ses_last_seen_at s \<le> r) (ses_revoked_at s)"

definition rebuild_session :: "user_session \<Rightarrow> (identity_error, user_session) result" where
  "rebuild_session s =
     make_user_session (PyStr (ses_session_id s)) (PyStr (ses_user_id s))
       (PyStr (ses_token_digest s)) (utc_datetime (ses_created_at s))
       (utc_datetime (ses_expires_at s)) (utc_datetime (ses_last_seen_at s))
       (py_optional utc_datetime (ses_revoked_at s)) (PyStr (audience_text (ses_audience s)))
       (py_optional PyStr (ses_source_pairing s))"

definition within_pairing :: "tui_pairing \<Rightarrow> instant option \<Rightarrow> bool" where
  "within_pairing p v \<longleftrightarrow>
     pred_option (\<lambda>t. representable t \<and> par_created_at p \<le> t \<and> t < par_expires_at p) v"

definition valid_pairing :: "tui_pairing \<Rightarrow> bool" where
  "valid_pairing p \<longleftrightarrow>
     clean_text (par_pairing_id p) \<and> valid_digest pairing_digest_algorithms (par_code_digest p) \<and>
     representable (par_created_at p) \<and> representable (par_expires_at p) \<and>
     par_created_at p < par_expires_at p \<and> optional_clean (par_user_id p) \<and>
     within_pairing p (par_authorized_at p) \<and> within_pairing p (par_consumed_at p) \<and>
     within_pairing p (par_revoked_at p) \<and>
     pred_option (\<lambda>t. representable t \<and> par_expires_at p \<le> t) (par_expired_at p) \<and>
     pairing_consistent p"

definition rebuild_pairing :: "tui_pairing \<Rightarrow> (identity_error, tui_pairing) result" where
  "rebuild_pairing p =
     make_tui_pairing (PyStr (par_pairing_id p)) (PyStr (par_code_digest p))
       (PyStr (status_text (par_status p))) (utc_datetime (par_created_at p))
       (utc_datetime (par_expires_at p)) (py_optional PyStr (par_user_id p))
       (py_optional utc_datetime (par_authorized_at p))
       (py_optional utc_datetime (par_consumed_at p))
       (py_optional utc_datetime (par_expired_at p))
       (py_optional utc_datetime (par_revoked_at p))"

lemmas field_facts =
  required_text_clean required_text_lower optional_text_clean aware_datetime_representable
  digest_field_valid

lemma utc_datetime_not_None [simp]: "utc_datetime i \<noteq> PyNone"
  by (simp add: utc_datetime_def)

lemma make_user_valid: "make_user_account a b c d e f g = Inr u \<Longrightarrow> valid_user u"
  by (auto simp: make_user_account_def valid_user_def result_simps not_less split: if_splits
      dest: field_facts)

lemma rebuild_user_eq [simp]: "rebuild_user u = Inr u \<longleftrightarrow> valid_user u"
proof
  show "rebuild_user u = Inr u \<Longrightarrow> valid_user u"
    unfolding rebuild_user_def by (rule make_user_valid)
  show "valid_user u \<Longrightarrow> rebuild_user u = Inr u"
    by (simp add: rebuild_user_def make_user_account_def valid_user_def field_simps)
qed

lemma make_external_valid: "make_external_identity a b c d e f = Inr x \<Longrightarrow> valid_external x"
  by (auto simp: make_external_identity_def valid_external_def result_simps dest: field_facts)

lemma rebuild_external_eq [simp]: "rebuild_external e = Inr e \<longleftrightarrow> valid_external e"
proof
  show "rebuild_external e = Inr e \<Longrightarrow> valid_external e"
    unfolding rebuild_external_def by (rule make_external_valid)
  show "valid_external e \<Longrightarrow> rebuild_external e = Inr e"
    by (simp add: rebuild_external_def make_external_identity_def valid_external_def field_simps)
qed

lemma make_class_valid: "make_class_group a b c d e f = Inr x \<Longrightarrow> valid_class x"
  by (auto simp: make_class_group_def valid_class_def result_simps not_less split: if_splits
      dest: field_facts)

lemma rebuild_class_eq [simp]: "rebuild_class c = Inr c \<longleftrightarrow> valid_class c"
proof
  show "rebuild_class c = Inr c \<Longrightarrow> valid_class c"
    unfolding rebuild_class_def by (rule make_class_valid)
  show "valid_class c \<Longrightarrow> rebuild_class c = Inr c"
    by (simp add: rebuild_class_def make_class_group_def valid_class_def field_simps)
qed

lemma make_membership_valid: "make_class_membership a b c d e f = Inr x \<Longrightarrow> valid_membership x"
  by (auto simp: make_class_membership_def valid_membership_def result_simps split: if_splits
      dest: field_facts)

lemma make_mapping_valid: "make_group_mapping a b c d e f g = Inr x \<Longrightarrow> valid_mapping x"
  by (auto simp: make_group_mapping_def valid_mapping_def result_simps not_less split: if_splits
      dest: field_facts)

lemma rebuild_membership_eq [simp]: "rebuild_membership m = Inr m \<longleftrightarrow> valid_membership m"
proof
  show "rebuild_membership m = Inr m \<Longrightarrow> valid_membership m"
    unfolding rebuild_membership_def by (rule make_membership_valid)
  show "valid_membership m \<Longrightarrow> rebuild_membership m = Inr m"
    by (simp add: rebuild_membership_def make_class_membership_def valid_membership_def field_simps)
qed

lemma rebuild_mapping_eq [simp]: "rebuild_mapping m = Inr m \<longleftrightarrow> valid_mapping m"
proof
  show "rebuild_mapping m = Inr m \<Longrightarrow> valid_mapping m"
    unfolding rebuild_mapping_def by (rule make_mapping_valid)
  show "valid_mapping m \<Longrightarrow> rebuild_mapping m = Inr m"
    by (simp add: rebuild_mapping_def make_group_mapping_def valid_mapping_def field_simps)
qed

lemma revocation_field_valid:
  "revocation_field v created expires seen = Inr r \<Longrightarrow>
     pred_option (\<lambda>t. representable t \<and> created \<le> t \<and> t < expires \<and> seen \<le> t) r"
  by (auto simp: revocation_field_def result_simps split: if_splits dest: field_facts)

lemma make_session_valid: "make_user_session a b c d e f g h i = Inr s \<Longrightarrow> valid_session s"
  by (auto simp: make_user_session_def valid_session_def result_simps split: if_splits
      dest: field_facts revocation_field_valid)

lemma rebuild_session_eq [simp]: "rebuild_session s = Inr s \<longleftrightarrow> valid_session s"
proof
  show "rebuild_session s = Inr s \<Longrightarrow> valid_session s"
    unfolding rebuild_session_def by (rule make_session_valid)
  show "valid_session s \<Longrightarrow> rebuild_session s = Inr s"
    by (cases "ses_revoked_at s")
      (auto simp: rebuild_session_def make_user_session_def valid_session_def revocation_field_def
        field_simps)
qed

lemma pairing_instant_field_valid:
  "pairing_instant_field created expires v = Inr r \<Longrightarrow>
     pred_option (\<lambda>t. representable t \<and> created \<le> t \<and> t < expires) r"
  by (auto simp: pairing_instant_field_def result_simps split: if_splits dest: field_facts)

lemma expired_field_valid:
  "expired_field expires v = Inr r \<Longrightarrow> pred_option (\<lambda>t. representable t \<and> expires \<le> t) r"
  by (auto simp: expired_field_def result_simps not_less split: if_splits dest: field_facts)

lemma pairing_instant_field_self:
  "pred_option (\<lambda>t. representable t \<and> created \<le> t \<and> t < expires) r \<Longrightarrow>
     pairing_instant_field created expires (py_optional utc_datetime r) = Inr r"
  by (cases r) (auto simp: pairing_instant_field_def field_simps)

lemma expired_field_self:
  "pred_option (\<lambda>t. representable t \<and> expires \<le> t) r \<Longrightarrow>
     expired_field expires (py_optional utc_datetime r) = Inr r"
  by (cases r) (auto simp: expired_field_def field_simps)

lemma make_pairing_valid: "make_tui_pairing a b c d e f g h i j = Inr p \<Longrightarrow> valid_pairing p"
  by (auto simp: make_tui_pairing_def valid_pairing_def within_pairing_def result_simps Let_def
      not_le split: if_splits
      dest: field_facts pairing_instant_field_valid expired_field_valid)

lemma rebuild_pairing_valid: "valid_pairing p \<Longrightarrow> rebuild_pairing p = Inr p"
  by (cases p) (simp add: rebuild_pairing_def make_tui_pairing_def valid_pairing_def within_pairing_def
      Let_def pairing_instant_field_self expired_field_self field_simps)

lemma make_pairing_fields:
  assumes "make_tui_pairing (PyStr i) (PyStr c) (PyStr (status_text st)) (utc_datetime cr)
      (utc_datetime ex) (py_optional PyStr u) (py_optional utc_datetime a)
      (py_optional utc_datetime co) (py_optional utc_datetime xp) (py_optional utc_datetime r) = Inr p"
    and "clean_text i" "valid_digest pairing_digest_algorithms c" "optional_clean u"
  shows "p = \<lparr>par_pairing_id = i, par_code_digest = c, par_status = st, par_created_at = cr,
      par_expires_at = ex, par_user_id = u, par_authorized_at = a, par_consumed_at = co,
      par_expired_at = xp, par_revoked_at = r\<rparr>"
proof -
  have aware: "aware_datetime (utc_datetime t) = Inr t' \<Longrightarrow> t' = t" for t t'
    by (simp add: aware_datetime_def utc_datetime_def split: if_splits)
  have inst: "pairing_instant_field k l (py_optional utc_datetime v) = Inr v' \<Longrightarrow> v' = v" for k l v v'
    by (cases v) (auto simp: pairing_instant_field_def result_simps split: if_splits dest: aware)
  have exp: "expired_field l (py_optional utc_datetime v) = Inr v' \<Longrightarrow> v' = v" for l v v'
    by (cases v) (auto simp: expired_field_def result_simps split: if_splits dest: aware)
  show ?thesis
    using assms
    by (auto simp: make_tui_pairing_def result_simps Let_def field_simps split: if_splits
        dest!: aware inst exp)
qed

lemma rebuild_pairing_iff:
  assumes "clean_text (par_pairing_id p)" "valid_digest pairing_digest_algorithms (par_code_digest p)"
    "optional_clean (par_user_id p)"
  shows "rebuild_pairing p = Inr q \<longleftrightarrow> q = p \<and> valid_pairing p"
proof
  assume r: "rebuild_pairing p = Inr q"
  then have "q = p" unfolding rebuild_pairing_def using make_pairing_fields [OF _ assms] by fastforce
  with r show "q = p \<and> valid_pairing p"
    unfolding rebuild_pairing_def by (blast dest: make_pairing_valid)
qed (simp add: rebuild_pairing_valid)

section \<open>Pairing transitions\<close>

definition authorize_pairing ::
  "tui_pairing \<Rightarrow> pyval \<Rightarrow> pyval \<Rightarrow> (identity_error, tui_pairing) result" where
  "authorize_pairing p user_id authorized_at =
     (if par_status p \<noteq> PairPending then Inl InvalidPairingTransition
      else bind_result (required_text False user_id) (\<lambda>uid.
        bind_result (aware_datetime authorized_at) (\<lambda>t.
        rebuild_pairing (p\<lparr>par_status := PairAuthorized, par_user_id := Some uid,
          par_authorized_at := Some t\<rparr>))))"

definition consume_pairing :: "tui_pairing \<Rightarrow> pyval \<Rightarrow> (identity_error, tui_pairing) result" where
  "consume_pairing p consumed_at =
     (if par_status p \<noteq> PairAuthorized then Inl InvalidPairingTransition
      else bind_result (aware_datetime consumed_at) (\<lambda>t.
        rebuild_pairing (p\<lparr>par_status := PairConsumed, par_consumed_at := Some t\<rparr>)))"

definition expire_pairing :: "tui_pairing \<Rightarrow> pyval \<Rightarrow> (identity_error, tui_pairing) result" where
  "expire_pairing p expired_at =
     (if par_status p \<noteq> PairPending \<and> par_status p \<noteq> PairAuthorized then Inl InvalidPairingTransition
      else bind_result (aware_datetime expired_at) (\<lambda>t.
        rebuild_pairing (p\<lparr>par_status := PairExpired, par_expired_at := Some t\<rparr>)))"

definition revoke_pairing :: "tui_pairing \<Rightarrow> pyval \<Rightarrow> (identity_error, tui_pairing) result" where
  "revoke_pairing p revoked_at =
     (if par_status p \<noteq> PairPending \<and> par_status p \<noteq> PairAuthorized then Inl InvalidPairingTransition
      else bind_result (aware_datetime revoked_at) (\<lambda>t.
        rebuild_pairing (p\<lparr>par_status := PairRevoked, par_revoked_at := Some t\<rparr>)))"

lemma valid_pairing_parts:
  assumes "valid_pairing p"
  shows "clean_text (par_pairing_id p)" "valid_digest pairing_digest_algorithms (par_code_digest p)"
    "optional_clean (par_user_id p)" "pairing_consistent p"
  using assms by (simp_all add: valid_pairing_def)

lemma authorize_pairing_iff:
  assumes "valid_pairing p" "clean_text u" "representable t"
  shows "authorize_pairing p (PyStr u) (utc_datetime t) = Inr q \<longleftrightarrow>
    par_status p = PairPending \<and> par_created_at p \<le> t \<and> t < par_expires_at p \<and>
    q = p\<lparr>par_status := PairAuthorized, par_user_id := Some u, par_authorized_at := Some t\<rparr>"
proof -
  let ?q = "p\<lparr>par_status := PairAuthorized, par_user_id := Some u, par_authorized_at := Some t\<rparr>"
  have "valid_pairing ?q \<longleftrightarrow> par_created_at p \<le> t \<and> t < par_expires_at p"
    if "par_status p = PairPending"
    using assms that
    by (auto simp: valid_pairing_def within_pairing_def pairing_consistent_def later_than_def
        optional_clean_def)
  then show ?thesis
    using assms rebuild_pairing_iff [of ?q q]
    by (auto simp: authorize_pairing_def field_simps valid_pairing_def optional_clean_def)
qed

lemma consume_pairing_iff:
  assumes "valid_pairing p" "representable t"
  shows "consume_pairing p (utc_datetime t) = Inr q \<longleftrightarrow>
    par_status p = PairAuthorized \<and> par_created_at p \<le> t \<and> t < par_expires_at p \<and>
    later_than (par_authorized_at p) (Some t) \<and>
    q = p\<lparr>par_status := PairConsumed, par_consumed_at := Some t\<rparr>"
proof -
  let ?q = "p\<lparr>par_status := PairConsumed, par_consumed_at := Some t\<rparr>"
  have "valid_pairing ?q \<longleftrightarrow>
      par_created_at p \<le> t \<and> t < par_expires_at p \<and> later_than (par_authorized_at p) (Some t)"
    if "par_status p = PairAuthorized"
    using assms that
    by (auto simp: valid_pairing_def within_pairing_def pairing_consistent_def later_than_def)
  then show ?thesis
    using assms rebuild_pairing_iff [of ?q q]
    by (auto simp: consume_pairing_def field_simps valid_pairing_def)
qed

lemma expire_pairing_iff:
  assumes "valid_pairing p" "representable t"
  shows "expire_pairing p (utc_datetime t) = Inr q \<longleftrightarrow>
    par_status p \<in> {PairPending, PairAuthorized} \<and> par_expires_at p \<le> t \<and>
    q = p\<lparr>par_status := PairExpired, par_expired_at := Some t\<rparr>"
proof -
  let ?q = "p\<lparr>par_status := PairExpired, par_expired_at := Some t\<rparr>"
  have "valid_pairing ?q \<longleftrightarrow> par_expires_at p \<le> t"
    if "par_status p \<in> {PairPending, PairAuthorized}"
    using assms that
    by (auto simp: valid_pairing_def within_pairing_def pairing_consistent_def later_than_def)
  then show ?thesis
    using assms rebuild_pairing_iff [of ?q q]
    by (auto simp: expire_pairing_def field_simps valid_pairing_def)
qed

lemma revoke_pairing_iff:
  assumes "valid_pairing p" "representable t"
  shows "revoke_pairing p (utc_datetime t) = Inr q \<longleftrightarrow>
    par_status p \<in> {PairPending, PairAuthorized} \<and> par_created_at p \<le> t \<and> t < par_expires_at p \<and>
    later_than (par_authorized_at p) (Some t) \<and>
    q = p\<lparr>par_status := PairRevoked, par_revoked_at := Some t\<rparr>"
proof -
  let ?q = "p\<lparr>par_status := PairRevoked, par_revoked_at := Some t\<rparr>"
  have "valid_pairing ?q \<longleftrightarrow>
      par_created_at p \<le> t \<and> t < par_expires_at p \<and> later_than (par_authorized_at p) (Some t)"
    if "par_status p \<in> {PairPending, PairAuthorized}"
    using assms that
    by (auto simp: valid_pairing_def within_pairing_def pairing_consistent_def later_than_def)
  then show ?thesis
    using assms rebuild_pairing_iff [of ?q q]
    by (auto simp: revoke_pairing_def field_simps valid_pairing_def)
qed

text \<open>The state machine: one rule per transition function.\<close>

inductive pairing_step :: "tui_pairing \<Rightarrow> tui_pairing \<Rightarrow> bool" where
  authorized: "authorize_pairing p u t = Inr q \<Longrightarrow> pairing_step p q"
| consumed: "consume_pairing p t = Inr q \<Longrightarrow> pairing_step p q"
| expired: "expire_pairing p t = Inr q \<Longrightarrow> pairing_step p q"
| revoked: "revoke_pairing p t = Inr q \<Longrightarrow> pairing_step p q"

inductive_cases pairing_stepE: "pairing_step p q"

fun status_rank :: "pairing_status \<Rightarrow> nat" where
  "status_rank PairPending = 0"
| "status_rank PairAuthorized = 1"
| "status_rank PairConsumed = 2"
| "status_rank PairExpired = 2"
| "status_rank PairRevoked = 2"

text \<open>The order of progress of a pairing.\<close>

instantiation pairing_status :: order
begin

definition less_eq_pairing_status :: "pairing_status \<Rightarrow> pairing_status \<Rightarrow> bool" where
  "less_eq_pairing_status a b \<longleftrightarrow> a = b \<or> status_rank a < status_rank b"

definition less_pairing_status :: "pairing_status \<Rightarrow> pairing_status \<Rightarrow> bool" where
  "less_pairing_status a b \<longleftrightarrow> status_rank a < status_rank b"

instance
  by standard (auto simp: less_eq_pairing_status_def less_pairing_status_def)

end

definition terminal_status :: "pairing_status \<Rightarrow> bool" where
  "terminal_status st \<longleftrightarrow> st \<in> {PairConsumed, PairExpired, PairRevoked}"

lemma rebuild_pairing_frame:
  assumes "rebuild_pairing p = Inr q"
  shows "valid_pairing q" "par_status q = par_status p" "par_created_at q = par_created_at p"
    "par_expires_at q = par_expires_at p"
    "clean_text (par_pairing_id p) \<Longrightarrow> par_pairing_id q = par_pairing_id p"
proof -
  show "valid_pairing q" using assms unfolding rebuild_pairing_def by (rule make_pairing_valid)
  have aware: "aware_datetime (utc_datetime t) = Inr t' \<Longrightarrow> t' = t" for t t'
    by (simp add: aware_datetime_def utc_datetime_def split: if_splits)
  show "par_status q = par_status p" "par_created_at q = par_created_at p"
    "par_expires_at q = par_expires_at p"
    "clean_text (par_pairing_id p) \<Longrightarrow> par_pairing_id q = par_pairing_id p"
    using assms
    by (auto simp: rebuild_pairing_def make_tui_pairing_def result_simps Let_def field_simps
        split: if_splits dest!: aware)
qed

lemma pairing_step_valid: "pairing_step p q \<Longrightarrow> valid_pairing q"
  by (erule pairing_stepE)
    (auto simp: authorize_pairing_def consume_pairing_def expire_pairing_def revoke_pairing_def
      result_simps split: if_splits dest: rebuild_pairing_frame(1))

lemma pairing_step_rank:
  "pairing_step p q \<Longrightarrow> status_rank (par_status p) < status_rank (par_status q)"
  by (erule pairing_stepE)
    (auto simp: authorize_pairing_def consume_pairing_def expire_pairing_def revoke_pairing_def
      result_simps split: if_splits dest!: rebuild_pairing_frame(2))

lemma status_rank_le: "status_rank st \<le> 2"
  by (cases st) simp_all

lemma terminal_rank: "terminal_status st \<longleftrightarrow> status_rank st = 2"
  by (cases st) (simp_all add: terminal_status_def)

section \<open>Account and conflict checks\<close>

definition require_active_account :: "user_account \<Rightarrow> (identity_error, unit) result" where
  "require_active_account u = (if \<not> acc_active u then Inl AccountDisabled else Inr ())"

definition validate_external_identity_link ::
  "external_identity option \<Rightarrow> external_identity \<Rightarrow> (identity_error, unit) result" where
  "validate_external_identity_link existing requested =
     (case existing of
        None \<Rightarrow> Inr ()
      | Some e \<Rightarrow>
          if ext_provider_key e \<noteq> ext_provider_key requested then Inl IdentityLinkConflict
          else if ext_user_id e \<noteq> ext_user_id requested then Inl DuplicateExternalIdentity
          else Inr ())"

definition validate_external_group_mapping ::
  "group_mapping option \<Rightarrow> group_mapping \<Rightarrow> (identity_error, unit) result" where
  "validate_external_group_mapping existing requested =
     (case existing of
        None \<Rightarrow> Inr ()
      | Some m \<Rightarrow>
          if map_provider_key m \<noteq> map_provider_key requested then Inl IdentityLinkConflict
          else if map_class_id m \<noteq> map_class_id requested then Inl IdentityLinkConflict
          else Inr ())"

end
