(* ===== verification/Py_Json.thy ===== *)
theory Py_Json
  imports Py_Text
begin

text \<open>
  JSON values as Python holds them after \<^verbatim>\<open>json.loads\<close> (an object is a \<^verbatim>\<open>dict\<close> with its keys in
  insertion order; fractional numbers do not occur in the modelled data), and
  \<^verbatim>\<open>json.dumps(.., ensure_ascii=False, sort_keys=True, separators=(",", ":"))\<close>.
\<close>

datatype json =
    JNull
  | JBool bool
  | JInt int
  | JStr string
  | JList "json list"
  | JObj "(string \<times> json) list"

section \<open>Reading\<close>

definition json_get :: "(string \<times> json) list \<Rightarrow> string \<Rightarrow> json" where
  "json_get members key = (case map_of members key of None \<Rightarrow> JNull | Some v \<Rightarrow> v)"

text \<open>The value as an argument of a validator that accepts \<^verbatim>\<open>str\<close> only.\<close>

fun json_value :: "json \<Rightarrow> pyval" where
  "json_value (JStr s) = PyStr s"
| "json_value (JBool b) = PyBool b"
| "json_value (JInt n) = PyInt n"
| "json_value _ = PyNone"

text \<open>\<^verbatim>\<open>bool(value)\<close>\<close>

fun truthy :: "json \<Rightarrow> bool" where
  "truthy JNull = False"
| "truthy (JBool b) = b"
| "truthy (JInt n) = (n \<noteq> 0)"
| "truthy (JStr s) = (s \<noteq> [])"
| "truthy (JList xs) = (xs \<noteq> [])"
| "truthy (JObj members) = (members \<noteq> [])"

text \<open>\<^verbatim>\<open>target[key] = value\<close>: in place when the key is there, at the end otherwise.\<close>

fun json_put :: "string \<Rightarrow> json \<Rightarrow> (string \<times> json) list \<Rightarrow> (string \<times> json) list" where
  "json_put key v [] = [(key, v)]"
| "json_put key v ((k, w) # members) = (if k = key then (k, v) # members else (k, w) # json_put key v members)"

lemma json_get_put [simp]:
  "json_get (json_put key v members) k = (if k = key then v else json_get members k)"
  by (induction members) (auto simp: json_get_def)

lemma json_put_same: "json_get members key = v \<Longrightarrow> v \<noteq> JNull \<Longrightarrow> json_put key v members = members"
  by (induction members) (auto simp: json_get_def split: if_splits)

section \<open>Writing\<close>

function decimal :: "nat \<Rightarrow> string" where
  "decimal n = (if n < 10 then [digit_char (int n)]
                else decimal (n div 10) @ [digit_char (int (n mod 10))])"
  by pat_completeness auto
termination by (relation "measure id") auto

declare decimal.simps [simp del]

definition int_text :: "int \<Rightarrow> string" where
  "int_text n = (if n < 0 then CHR ''-'' # decimal (nat (- n)) else decimal (nat n))"

definition hex_char :: "nat \<Rightarrow> char" where
  "hex_char n = (if n < 10 then char_of (48 + n) else char_of (87 + n))"

definition escape_char :: "char \<Rightarrow> string" where
  "escape_char c =
     (let n = code_point c
      in if n = 34 then [CHR 0x5C, CHR 0x22]
         else if n = 92 then [CHR 0x5C, CHR 0x5C]
         else if n = 8 then [CHR 0x5C, CHR ''b'']
         else if n = 9 then [CHR 0x5C, CHR ''t'']
         else if n = 10 then [CHR 0x5C, CHR ''n'']
         else if n = 12 then [CHR 0x5C, CHR ''f'']
         else if n = 13 then [CHR 0x5C, CHR ''r'']
         else if n < 32 then [CHR 0x5C, CHR ''u'', CHR ''0'', CHR ''0'', hex_char (n div 16), hex_char (n mod 16)]
         else [c])"

definition json_string :: "string \<Rightarrow> string" where
  "json_string s = CHR 0x22 # concat (map escape_char s) @ [CHR 0x22]"

fun join :: "string list \<Rightarrow> string" where
  "join [] = []"
| "join [x] = x"
| "join (x # y # xs) = x @ CHR '','' # join (y # xs)"

definition write_fields :: "(string \<times> string) list \<Rightarrow> string" where
  "write_fields members =
     CHR ''{'' # join (map (\<lambda>(k, v). json_string k @ CHR '':'' # v) (sort_key fst members)) @ [CHR ''}'']"

fun json_dumps :: "json \<Rightarrow> string" where
  "json_dumps JNull = ''null''"
| "json_dumps (JBool b) = (if b then ''true'' else ''false'')"
| "json_dumps (JInt n) = int_text n"
| "json_dumps (JStr s) = json_string s"
| "json_dumps (JList xs) = CHR ''['' # join (map json_dumps xs) @ [CHR '']'']"
| "json_dumps (JObj members) = write_fields (map (\<lambda>(k, v). (k, json_dumps v)) members)"

end
