(* ===== verification/Subject_Binding.thy ===== *)
theory Subject_Binding
  imports Identity_Lifecycle Py_Json
begin

text \<open>
  The binding of an authenticated account to an educational subject,
  \<^verbatim>\<open>scripts/thebitlab_identity_binding.py\<close>: the two dataclasses, the authoritative snapshot with
  its content revision, and the resolution of a student and of an assignment target from it.
  SHA-256 is a parameter, a function from a text to the hexadecimal digest of its UTF-8 bytes.
\<close>

section \<open>Bindings and aliases\<close>

datatype binding_error =
    BindingValue
  | BindingOverflow
  | BindingMissing
  | BindingDuplicate
  | BindingAmbiguous
  | BindingIncoherent
  | ClassMismatch
  | TargetMissing
  | LegacyMissing
  | LegacyAmbiguous

definition binding_text :: "pyval \<Rightarrow> (binding_error, string) result" where
  "binding_text v = map_error (\<lambda>_. BindingValue) (required_text False v)"

definition subject_shape :: "string \<Rightarrow> bool" where
  "subject_shape s \<longleftrightarrow>
     take 8 s = ''subject:'' \<and> length s = 40 \<and> list_all is_hex_digit (drop 8 s)"

definition subject_text :: "pyval \<Rightarrow> (binding_error, string) result" where
  "subject_text v =
     bind_result (binding_text v) (\<lambda>s. if subject_shape s then Inr s else Inl BindingValue)"

definition binding_utc :: "pyval \<Rightarrow> (binding_error, instant) result" where
  "binding_utc v =
     map_error (\<lambda>e. if e = DatetimeOverflow then BindingOverflow else BindingValue) (aware_datetime v)"

record subject_binding =
  bnd_subject_id :: string
  bnd_user_id :: string
  bnd_active :: bool
  bnd_revision :: int
  bnd_created_at :: instant
  bnd_updated_at :: instant

definition make_subject_binding ::
  "pyval \<Rightarrow> pyval \<Rightarrow> pyval \<Rightarrow> pyval \<Rightarrow> pyval \<Rightarrow> pyval \<Rightarrow> (binding_error, subject_binding) result"
where
  "make_subject_binding subject_id user_id active revision created_at updated_at =
     bind_result (subject_text subject_id) (\<lambda>sid.
     bind_result (binding_text user_id) (\<lambda>uid.
     case active of
       PyBool act \<Rightarrow>
         (case revision of
            PyInt rvn \<Rightarrow>
              if rvn < 1 then Inl BindingValue
              else bind_result (binding_utc created_at) (\<lambda>created.
                   bind_result (binding_utc updated_at) (\<lambda>updated.
                   if updated < created then Inl BindingValue
                   else Inr \<lparr>bnd_subject_id = sid, bnd_user_id = uid, bnd_active = act, bnd_revision = rvn,
                             bnd_created_at = created, bnd_updated_at = updated\<rparr>))
          | _ \<Rightarrow> Inl BindingValue)
     | _ \<Rightarrow> Inl BindingValue))"

record subject_alias =
  als_class_id :: string
  als_legacy_id :: string
  als_subject_id :: string
  als_created_at :: instant

definition make_subject_alias ::
  "pyval \<Rightarrow> pyval \<Rightarrow> pyval \<Rightarrow> pyval \<Rightarrow> (binding_error, subject_alias) result" where
  "make_subject_alias class_id legacy_student_id subject_id created_at =
     bind_result (binding_text class_id) (\<lambda>cid.
     bind_result (binding_text legacy_student_id) (\<lambda>lid.
     bind_result (subject_text subject_id) (\<lambda>sid.
     bind_result (binding_utc created_at) (\<lambda>created.
       Inr \<lparr>als_class_id = cid, als_legacy_id = lid, als_subject_id = sid, als_created_at = created\<rparr>))))"

definition valid_binding :: "subject_binding \<Rightarrow> bool" where
  "valid_binding b \<longleftrightarrow>
     clean_text (bnd_subject_id b) \<and> subject_shape (bnd_subject_id b) \<and> clean_text (bnd_user_id b) \<and>
     1 \<le> bnd_revision b \<and> representable (bnd_created_at b) \<and> representable (bnd_updated_at b) \<and>
     bnd_created_at b \<le> bnd_updated_at b"

definition rebuild_binding :: "subject_binding \<Rightarrow> (binding_error, subject_binding) result" where
  "rebuild_binding b =
     make_subject_binding (PyStr (bnd_subject_id b)) (PyStr (bnd_user_id b)) (PyBool (bnd_active b))
       (PyInt (bnd_revision b)) (utc_datetime (bnd_created_at b)) (utc_datetime (bnd_updated_at b))"

definition valid_alias :: "subject_alias \<Rightarrow> bool" where
  "valid_alias a \<longleftrightarrow>
     clean_text (als_class_id a) \<and> clean_text (als_legacy_id a) \<and>
     clean_text (als_subject_id a) \<and> subject_shape (als_subject_id a) \<and> representable (als_created_at a)"

definition rebuild_alias :: "subject_alias \<Rightarrow> (binding_error, subject_alias) result" where
  "rebuild_alias a =
     make_subject_alias (PyStr (als_class_id a)) (PyStr (als_legacy_id a)) (PyStr (als_subject_id a))
       (utc_datetime (als_created_at a))"

lemma binding_text_clean: "binding_text v = Inr t \<Longrightarrow> clean_text t"
  by (auto simp: binding_text_def dest: required_text_clean)

lemma binding_text_self [field_simps]: "clean_text t \<Longrightarrow> binding_text (PyStr t) = Inr t"
  by (simp add: binding_text_def field_simps)

lemma subject_text_Inr: "subject_text v = Inr t \<longleftrightarrow> binding_text v = Inr t \<and> subject_shape t"
  by (auto simp: subject_text_def result_simps)

lemma subject_text_self [field_simps]:
  "clean_text t \<Longrightarrow> subject_shape t \<Longrightarrow> subject_text (PyStr t) = Inr t"
  by (simp add: subject_text_Inr field_simps)

lemma binding_utc_Inr: "binding_utc v = Inr i \<longleftrightarrow> aware_datetime v = Inr i"
  by (simp add: binding_utc_def)

lemma make_binding_valid: "make_subject_binding a b c d e f = Inr x \<Longrightarrow> valid_binding x"
  by (cases c; cases d)
    (auto simp: make_subject_binding_def valid_binding_def result_simps subject_text_Inr binding_utc_Inr
      split: if_splits dest: binding_text_clean aware_datetime_representable)

lemma make_alias_valid: "make_subject_alias a b c d = Inr x \<Longrightarrow> valid_alias x"
  by (auto simp: make_subject_alias_def valid_alias_def result_simps subject_text_Inr binding_utc_Inr
      dest: binding_text_clean aware_datetime_representable)

lemma rebuild_binding_eq [simp]: "rebuild_binding b = Inr b \<longleftrightarrow> valid_binding b"
proof
  show "rebuild_binding b = Inr b \<Longrightarrow> valid_binding b"
    unfolding rebuild_binding_def by (rule make_binding_valid)
  show "valid_binding b \<Longrightarrow> rebuild_binding b = Inr b"
    by (simp add: rebuild_binding_def make_subject_binding_def valid_binding_def field_simps binding_utc_def)
qed

lemma rebuild_alias_eq [simp]: "rebuild_alias a = Inr a \<longleftrightarrow> valid_alias a"
proof
  show "rebuild_alias a = Inr a \<Longrightarrow> valid_alias a"
    unfolding rebuild_alias_def by (rule make_alias_valid)
  show "valid_alias a \<Longrightarrow> rebuild_alias a = Inr a"
    by (simp add: rebuild_alias_def make_subject_alias_def valid_alias_def field_simps binding_utc_def)
qed

section \<open>The authoritative snapshot\<close>

record binding_snapshot =
  snp_account :: "user_account option"
  snp_bindings :: "subject_binding list"
  snp_memberships :: "class_membership list"
  snp_classes :: "class_group list"
  snp_aliases :: "subject_alias list"
  snp_revision :: string

definition json_time :: "instant \<Rightarrow> json" where
  "json_time t = JStr (encode_datetime t)"

definition json_optional :: "string option \<Rightarrow> json" where
  "json_optional v = (case v of None \<Rightarrow> JNull | Some s \<Rightarrow> JStr s)"

definition account_payload :: "user_account \<Rightarrow> json" where
  "account_payload a = JObj
     [(''user_id'', JStr (acc_user_id a)), (''role'', JStr (role_text (acc_role a))),
      (''active'', JBool (acc_active a)), (''created_at'', json_time (acc_created_at a)),
      (''updated_at'', json_time (acc_updated_at a))]"

definition binding_payload :: "subject_binding \<Rightarrow> json" where
  "binding_payload b = JObj
     [(''subject_id'', JStr (bnd_subject_id b)), (''user_id'', JStr (bnd_user_id b)),
      (''active'', JBool (bnd_active b)), (''revision'', JInt (bnd_revision b)),
      (''created_at'', json_time (bnd_created_at b)), (''updated_at'', json_time (bnd_updated_at b))]"

definition membership_payload :: "class_membership \<Rightarrow> json" where
  "membership_payload m = JObj
     [(''user_id'', JStr (mem_user_id m)), (''class_id'', JStr (mem_class_id m)),
      (''role'', JStr (member_text (mem_role m))), (''joined_at'', json_time (mem_joined_at m)),
      (''source_provider'', json_optional (mem_source_provider m)),
      (''source_group_subject'', json_optional (mem_source_group m))]"

definition class_payload :: "class_group \<Rightarrow> json" where
  "class_payload c = JObj
     [(''class_id'', JStr (cls_class_id c)), (''active'', JBool (cls_active c)),
      (''created_at'', json_time (cls_created_at c)), (''updated_at'', json_time (cls_updated_at c))]"

definition alias_payload :: "subject_alias \<Rightarrow> json" where
  "alias_payload a = JObj
     [(''class_id'', JStr (als_class_id a)), (''legacy_student_id'', JStr (als_legacy_id a)),
      (''subject_id'', JStr (als_subject_id a)), (''created_at'', json_time (als_created_at a))]"

definition snapshot_payload ::
  "user_account option \<Rightarrow> subject_binding list \<Rightarrow> class_membership list \<Rightarrow> class_group list \<Rightarrow>
   subject_alias list \<Rightarrow> json"
where
  "snapshot_payload account bindings memberships classes aliases = JObj
     [(''schema_version'', JStr ''identity_subject_binding.v1''),
      (''account'', case account of None \<Rightarrow> JNull | Some a \<Rightarrow> account_payload a),
      (''bindings'', JList (map binding_payload
         (sort_key bnd_subject_id (sort_key bnd_user_id (sort_key bnd_revision bindings))))),
      (''memberships'', JList (map membership_payload
         (sort_key mem_class_id (sort_key (\<lambda>m. member_text (mem_role m)) (sort_key mem_user_id memberships))))),
      (''classes'', JList (map class_payload (sort_key cls_class_id classes))),
      (''legacy_aliases'', JList (map alias_payload
         (sort_key als_class_id (sort_key als_legacy_id (sort_key als_subject_id aliases)))))]"

definition revision_shape :: "string \<Rightarrow> bool" where
  "revision_shape s \<longleftrightarrow> take 7 s = ''sha256:'' \<and> length s = 71 \<and> list_all is_hex_digit (drop 7 s)"

definition authority_revision ::
  "(string \<Rightarrow> string) \<Rightarrow> user_account option \<Rightarrow> subject_binding list \<Rightarrow> class_membership list \<Rightarrow>
   class_group list \<Rightarrow> subject_alias list \<Rightarrow> string"
where
  "authority_revision sha256 account bindings memberships classes aliases =
     ''sha256:'' @ sha256 (json_dumps (snapshot_payload account bindings memberships classes aliases))"

definition build_snapshot ::
  "(string \<Rightarrow> string) \<Rightarrow> user_account option \<Rightarrow> subject_binding list \<Rightarrow> class_membership list \<Rightarrow>
   class_group list \<Rightarrow> subject_alias list \<Rightarrow> (binding_error, binding_snapshot) result"
where
  "build_snapshot sha256 account bindings memberships classes aliases =
     (let revision = authority_revision sha256 account bindings memberships classes aliases
      in if \<not> revision_shape revision then Inl BindingValue
         else Inr \<lparr>snp_account = account, snp_bindings = bindings, snp_memberships = memberships,
                   snp_classes = classes, snp_aliases = aliases, snp_revision = revision\<rparr>)"

section \<open>Resolving a student\<close>

record student_identity =
  sid_user_id :: string
  sid_subject_id :: string
  sid_class_ids :: "string list"
  sid_revision :: string

fun index_classes ::
  "class_group list \<Rightarrow> (string \<times> class_group) list \<Rightarrow> (binding_error, (string \<times> class_group) list) result" where
  "index_classes [] table = Inr table"
| "index_classes (c # cs) table =
     (if cls_class_id c \<in> set (map fst table) then Inl BindingAmbiguous
      else index_classes cs (table @ [(cls_class_id c, c)]))"

fun collect_classes ::
  "string \<Rightarrow> (string \<times> class_group) list \<Rightarrow> class_membership list \<Rightarrow> string list \<Rightarrow>
   (binding_error, string list) result"
where
  "collect_classes user_id table [] ids = Inr ids"
| "collect_classes user_id table (m # ms) ids =
     (if mem_user_id m \<noteq> user_id \<or> mem_role m \<noteq> MemberStudent then Inl BindingAmbiguous
      else if mem_class_id m \<in> set ids then Inl BindingDuplicate
      else case map_of table (mem_class_id m) of
             None \<Rightarrow> Inl BindingIncoherent
           | Some c \<Rightarrow> if \<not> cls_active c then Inl BindingIncoherent
                       else collect_classes user_id table ms (ids @ [mem_class_id m]))"

text \<open>The classes a student belongs to: what the loops over classes and memberships accept.\<close>

definition student_class_ids ::
  "string \<Rightarrow> class_group list \<Rightarrow> class_membership list \<Rightarrow> (binding_error, string list) result" where
  "student_class_ids user_id classes memberships =
     bind_result (index_classes classes []) (\<lambda>table.
     bind_result (collect_classes user_id table memberships []) (\<lambda>ids.
     if set (map fst table) \<noteq> set ids then Inl BindingIncoherent else Inr ids))"

definition resolve_student_identity ::
  "(string \<Rightarrow> string) \<Rightarrow> pyval \<Rightarrow> binding_snapshot \<Rightarrow> (binding_error, student_identity) result" where
  "resolve_student_identity sha256 authenticated snapshot =
     bind_result
       (map_error (\<lambda>_. BindingIncoherent)
          (bind_result (binding_text authenticated) (\<lambda>user_id.
           bind_result (build_snapshot sha256 (snp_account snapshot) (snp_bindings snapshot)
             (snp_memberships snapshot) (snp_classes snapshot) (snp_aliases snapshot)) (\<lambda>rebuilt.
             Inr (user_id, rebuilt))))) (\<lambda>(user_id, rebuilt).
     if snp_revision rebuilt \<noteq> snp_revision snapshot then Inl BindingIncoherent
     else case snp_account snapshot of
       None \<Rightarrow> Inl BindingMissing
     | Some account \<Rightarrow>
         if \<not> acc_active account \<or> acc_role account \<noteq> RoleStudent then Inl BindingMissing
         else if acc_user_id account \<noteq> user_id then Inl BindingAmbiguous
         else case snp_bindings snapshot of
           [] \<Rightarrow> Inl BindingMissing
         | binding # others \<Rightarrow>
             if others \<noteq> [] then Inl BindingDuplicate
             else if bnd_user_id binding \<noteq> user_id then Inl BindingAmbiguous
             else if \<not> bnd_active binding then Inl BindingMissing
             else bind_result (student_class_ids user_id (snp_classes snapshot) (snp_memberships snapshot)) (\<lambda>ids.
                  Inr \<lparr>sid_user_id = user_id, sid_subject_id = bnd_subject_id binding,
                       sid_class_ids = sort ids, sid_revision = snp_revision snapshot\<rparr>))"

lemma index_classes_Inr:
  "index_classes cs table = Inr t \<longleftrightarrow>
     distinct (map cls_class_id cs) \<and> set (map cls_class_id cs) \<inter> set (map fst table) = {} \<and>
     t = table @ map (\<lambda>c. (cls_class_id c, c)) cs"
  by (induction cs arbitrary: table) (auto simp: image_iff)

lemma collect_classes_Inr:
  "collect_classes user_id table ms ids = Inr r \<longleftrightarrow>
     list_all (\<lambda>m. mem_user_id m = user_id \<and> mem_role m = MemberStudent \<and>
       (\<exists>c. map_of table (mem_class_id m) = Some c \<and> cls_active c)) ms \<and>
     distinct (map mem_class_id ms) \<and> set (map mem_class_id ms) \<inter> set ids = {} \<and>
     r = ids @ map mem_class_id ms"
  by (induction ms arbitrary: ids) (auto split: option.splits)

lemma class_table_lookup:
  "distinct (map cls_class_id cs) \<Longrightarrow>
     map_of (map (\<lambda>c. (cls_class_id c, c)) cs) i = Some c \<longleftrightarrow> c \<in> set cs \<and> cls_class_id c = i"
  by (auto simp: map_of_eq_Some_iff comp_def)

lemma student_class_ids_Inr:
  "student_class_ids u cs ms = Inr r \<longleftrightarrow>
     list_all (\<lambda>m. mem_user_id m = u \<and> mem_role m = MemberStudent) ms \<and>
     distinct (map mem_class_id ms) \<and> distinct (map cls_class_id cs) \<and> list_all cls_active cs \<and>
     set (map cls_class_id cs) = set (map mem_class_id ms) \<and> r = map mem_class_id ms"
proof (cases "distinct (map cls_class_id cs) \<and> set (map cls_class_id cs) = set (map mem_class_id ms)")
  case True
  let ?t = "map (\<lambda>c. (cls_class_id c, c)) cs"
  have ex: "(\<exists>c. map_of ?t (mem_class_id m) = Some c \<and> cls_active c) \<longleftrightarrow>
      (\<exists>c \<in> set cs. cls_class_id c = mem_class_id m \<and> cls_active c)" for m
    using True by (auto simp: class_table_lookup)
  have cover: "\<exists>m \<in> set ms. mem_class_id m = cls_class_id c" if "c \<in> set cs" for c
    using True that by (metis (no_types, lifting) image_eqI image_iff set_map)
  have "list_all (\<lambda>m. \<exists>c \<in> set cs. cls_class_id c = mem_class_id m \<and> cls_active c) ms \<longleftrightarrow> list_all cls_active cs"
  proof
    assume all: "list_all (\<lambda>m. \<exists>c \<in> set cs. cls_class_id c = mem_class_id m \<and> cls_active c) ms"
    have "cls_active c" if c: "c \<in> set cs" for c
    proof -
      obtain m where "m \<in> set ms" "mem_class_id m = cls_class_id c" using cover [OF c] by blast
      then obtain c' where "c' \<in> set cs" "cls_class_id c' = cls_class_id c" "cls_active c'"
        using all by (auto simp: list_all_iff)
      then show ?thesis using True c by (auto simp: distinct_map dest: inj_onD)
    qed
    then show "list_all cls_active cs" by (simp add: list_all_iff)
  next
    assume act: "list_all cls_active cs"
    show "list_all (\<lambda>m. \<exists>c \<in> set cs. cls_class_id c = mem_class_id m \<and> cls_active c) ms"
      unfolding list_all_iff
    proof
      fix m assume "m \<in> set ms"
      then have "mem_class_id m \<in> set (map cls_class_id cs)" using True by simp
      then show "\<exists>c \<in> set cs. cls_class_id c = mem_class_id m \<and> cls_active c"
        using act by (auto simp: list_all_iff)
    qed
  qed
  moreover have "list_all (\<lambda>m. P m \<and> Q m) ms \<longleftrightarrow> list_all P ms \<and> list_all Q ms" for P Q :: "class_membership \<Rightarrow> bool"
    by (auto simp: list_all_iff)
  ultimately show ?thesis using True
    by (auto simp: student_class_ids_def result_simps index_classes_Inr collect_classes_Inr ex comp_def
        image_image simp del: map_of_eq_Some_iff)
next
  case False
  then show ?thesis by (auto simp: student_class_ids_def result_simps index_classes_Inr collect_classes_Inr comp_def
        image_image simp del: map_of_eq_Some_iff split: if_splits)
qed

text \<open>A student is resolved exactly when the snapshot carries the revision of its own content, its
  account is the authenticated user's and an active student's, the one binding is the user's
  and active, every membership is a student membership of the user, one per class, and the
  classes are exactly those of the memberships, all of them active; the result names the
  subject of that binding and those classes in order.\<close>

lemma resolve_student_Inr:
  "resolve_student_identity sha256 authenticated s = Inr r \<longleftrightarrow>
     (\<exists>u a b. binding_text authenticated = Inr u \<and>
        snp_revision s = authority_revision sha256 (snp_account s) (snp_bindings s) (snp_memberships s)
          (snp_classes s) (snp_aliases s) \<and> revision_shape (snp_revision s) \<and>
        snp_account s = Some a \<and> acc_user_id a = u \<and> acc_active a \<and> acc_role a = RoleStudent \<and>
        snp_bindings s = [b] \<and> bnd_user_id b = u \<and> bnd_active b \<and>
        list_all (\<lambda>m. mem_user_id m = u \<and> mem_role m = MemberStudent) (snp_memberships s) \<and>
        distinct (map mem_class_id (snp_memberships s)) \<and> distinct (map cls_class_id (snp_classes s)) \<and>
        list_all cls_active (snp_classes s) \<and>
        set (map cls_class_id (snp_classes s)) = set (map mem_class_id (snp_memberships s)) \<and>
        r = \<lparr>sid_user_id = u, sid_subject_id = bnd_subject_id b,
             sid_class_ids = sort (map mem_class_id (snp_memberships s)), sid_revision = snp_revision s\<rparr>)"
proof -
  have one: "(case bs of [] \<Rightarrow> Inl e1 | b # os \<Rightarrow> if os \<noteq> [] then Inl e2 else g b) = Inr r \<longleftrightarrow>
      (\<exists>b. bs = [b] \<and> g b = Inr r)" for bs e1 e2 and g :: "subject_binding \<Rightarrow> (binding_error, student_identity) result"
    by (cases bs) auto
  have opt: "(case v of None \<Rightarrow> Inl e | Some a \<Rightarrow> g a) = Inr r \<longleftrightarrow> (\<exists>a. v = Some a \<and> g a = Inr r)"
    for v e and g :: "user_account \<Rightarrow> (binding_error, student_identity) result"
    by (cases v) auto
  have cond: "(if c then Inl e else m) = Inr r \<longleftrightarrow> \<not> c \<and> m = Inr r"
    for c e and m :: "(binding_error, student_identity) result"
    by simp
  show ?thesis
    by (auto simp only: resolve_student_identity_def bind_result_Inr map_error_Inr opt one cond
        student_class_ids_Inr prod.case build_snapshot_def Let_def)
      (auto simp: result_simps student_class_ids_Inr split: if_splits)
qed

end
