(* ===== verification/Identity_Store.thy ===== *)
theory Identity_Store
  imports Subject_Binding
begin

text \<open>
  The SQLite database of \<^verbatim>\<open>scripts/thebitlab_identity_sqlite.py\<close>: its tables after the twelve
  migrations, the statements the storage code executes, each with the constraints and triggers
  of the schema, and transactions that commit a body or roll it back. A row of a table is the
  record of the dataclass with the same columns; timestamps are instants, which the text
  order and the round trip of theory \<open>Timestamps\<close> justify.
\<close>

section \<open>Tables and errors\<close>

datatype storage_error =
    StorageError
  | StorageConflict
  | GenerationConflict
  | MappingGenerationConflict
  | PairingExpiredConflict
  | SessionExpiredConflict
  | StorageNotFound
  | StorageCorruption
  | InvalidDomainValue
  | StorageOverflow

text \<open>
  The exceptions of the storage module; \<open>InvalidDomainValue\<close> is the \<^verbatim>\<open>InvalidIdentityDataError\<close>
  of a dataclass built inside an operation and \<open>StorageOverflow\<close> the \<^verbatim>\<open>OverflowError\<close> of
  \<^verbatim>\<open>datetime\<close> arithmetic, which the storage lets through.
\<close>

text \<open>The subclasses of \<^verbatim>\<open>IdentityStorageConflictError\<close>.\<close>

definition is_conflict :: "storage_error \<Rightarrow> bool" where
  "is_conflict e \<longleftrightarrow>
     e \<in> {StorageConflict, GenerationConflict, MappingGenerationConflict, PairingExpiredConflict,
       SessionExpiredConflict}"

record identity_db =
  db_users :: "user_account list"
  db_identities :: "external_identity list"
  db_generations :: "(string \<times> string \<times> instant) list"
  db_classes :: "class_group list"
  db_memberships :: "class_membership list"
  db_sessions :: "user_session list"
  db_pairings :: "tui_pairing list"
  db_mappings :: "group_mapping list"
  db_map_generations :: "((string \<times> string \<times> string) \<times> instant) list"
  db_bindings :: "subject_binding list"
  db_aliases :: "subject_alias list"

definition empty_db :: identity_db where
  "empty_db = \<lparr>db_users = [], db_identities = [], db_generations = [], db_classes = [],
     db_memberships = [], db_sessions = [], db_pairings = [], db_mappings = [], db_map_generations = [],
     db_bindings = [], db_aliases = []\<rparr>"

type_synonym 'a db_result = "(storage_error, 'a) result"
type_synonym 'a db_action = "(identity_db, storage_error, 'a) action"

text \<open>
  \<^verbatim>\<open>with self._transaction(..)\<close>: the body runs on the current database; an exception leaves
  the database as it was, a normal end commits.
\<close>

definition transaction :: "(identity_db \<Rightarrow> ('a \<times> identity_db) db_result) \<Rightarrow> 'a db_action" where
  "transaction body d = (case body d of Inl e \<Rightarrow> (Inl e, d) | Inr (x, d') \<Rightarrow> (Inr x, d'))"

lemma transaction_iff [action_simps]:
  "transaction body d = (Inr x, d') \<longleftrightarrow> body d = Inr (x, d')"
  "transaction body d = (Inl e, d') \<longleftrightarrow> body d = Inl e \<and> d' = d"
  by (auto simp: transaction_def split: sum.splits)

section \<open>CHECK constraints\<close>

definition session_check :: "user_session \<Rightarrow> bool" where
  "session_check s \<longleftrightarrow>
     ses_created_at s < ses_expires_at s \<and>
     ses_created_at s \<le> ses_last_seen_at s \<and> ses_last_seen_at s < ses_expires_at s \<and>
     pred_option (\<lambda>r. ses_created_at s \<le> r \<and> r < ses_expires_at s \<and> ses_last_seen_at s \<le> r)
       (ses_revoked_at s)"

definition sql_between :: "instant \<Rightarrow> instant option \<Rightarrow> instant \<Rightarrow> bool" where
  "sql_between lo v hi \<longleftrightarrow> pred_option (\<lambda>t. lo \<le> t \<and> t < hi) v"

definition pairing_check :: "tui_pairing \<Rightarrow> bool" where
  "pairing_check p \<longleftrightarrow>
     par_created_at p < par_expires_at p \<and>
     (par_user_id p = None) = (par_authorized_at p = None) \<and>
     sql_between (par_created_at p) (par_authorized_at p) (par_expires_at p) \<and>
     pred_option (\<lambda>c. par_authorized_at p \<noteq> None \<and> the (par_authorized_at p) \<le> c \<and> c < par_expires_at p)
       (par_consumed_at p) \<and>
     pred_option (\<lambda>x. par_expires_at p \<le> x) (par_expired_at p) \<and>
     pred_option (\<lambda>r. par_created_at p \<le> r \<and> r < par_expires_at p \<and>
       (par_authorized_at p = None \<or> the (par_authorized_at p) \<le> r)) (par_revoked_at p) \<and>
     (par_status p = PairPending \<and> par_user_id p = None \<and> par_consumed_at p = None \<and>
        par_expired_at p = None \<and> par_revoked_at p = None \<or>
      par_status p = PairAuthorized \<and> par_user_id p \<noteq> None \<and> par_consumed_at p = None \<and>
        par_expired_at p = None \<and> par_revoked_at p = None \<or>
      par_status p = PairConsumed \<and> par_user_id p \<noteq> None \<and> par_consumed_at p \<noteq> None \<and>
        par_expired_at p = None \<and> par_revoked_at p = None \<or>
      par_status p = PairExpired \<and> par_consumed_at p = None \<and> par_expired_at p \<noteq> None \<and>
        par_revoked_at p = None \<or>
      par_status p = PairRevoked \<and> par_consumed_at p = None \<and> par_expired_at p = None \<and>
        par_revoked_at p \<noteq> None)"

section \<open>Triggers\<close>

text \<open>\<^verbatim>\<open>trg_sessions_validate_pairing_insert\<close>: the rows the trigger lets in.\<close>

definition session_correlated :: "tui_pairing list \<Rightarrow> user_session \<Rightarrow> bool" where
  "session_correlated pairings s \<longleftrightarrow>
     (case ses_audience s of
        AudienceWeb \<Rightarrow> ses_source_pairing s = None
      | AudienceTui \<Rightarrow>
          list_ex (\<lambda>p. ses_source_pairing s = Some (par_pairing_id p) \<and>
            par_status p = PairConsumed \<and> par_user_id p = Some (ses_user_id s) \<and>
            par_consumed_at p = Some (ses_created_at s)) pairings)"

definition pairing_referenced :: "user_session list \<Rightarrow> tui_pairing \<Rightarrow> bool" where
  "pairing_referenced sessions p \<longleftrightarrow>
     list_ex (\<lambda>s. ses_source_pairing s = Some (par_pairing_id p)) sessions"

text \<open>\<^verbatim>\<open>trg_consumed_pairing_session_immutable\<close>: the updates the trigger lets through.\<close>

definition pairing_update_allowed :: "user_session list \<Rightarrow> tui_pairing \<Rightarrow> tui_pairing \<Rightarrow> bool" where
  "pairing_update_allowed sessions old new \<longleftrightarrow> \<not> (pairing_referenced sessions old \<and> new \<noteq> old)"

section \<open>Statements\<close>

definition user_exists :: "identity_db \<Rightarrow> string \<Rightarrow> bool" where
  "user_exists d i \<longleftrightarrow> i \<in> acc_user_id ` set (db_users d)"

definition insert_user :: "user_account \<Rightarrow> identity_db \<Rightarrow> identity_db db_result" where
  "insert_user u d =
     (if user_exists d (acc_user_id u) \<or> acc_updated_at u < acc_created_at u then Inl StorageConflict
      else Inr (d\<lparr>db_users := db_users d @ [u]\<rparr>))"

definition update_users ::
  "(user_account \<Rightarrow> bool) \<Rightarrow> (user_account \<Rightarrow> user_account) \<Rightarrow> identity_db \<Rightarrow> (nat \<times> identity_db) db_result"
where
  "update_users P f d =
     (if list_all (\<lambda>u. P u \<longrightarrow> acc_created_at (f u) \<le> acc_updated_at (f u)) (db_users d)
      then Inr (count_where P (db_users d), d\<lparr>db_users := update_where P f (db_users d)\<rparr>)
      else Inl StorageConflict)"

definition reserve_generation ::
  "string \<Rightarrow> string \<Rightarrow> instant \<Rightarrow> identity_db \<Rightarrow> identity_db db_result" where
  "reserve_generation provider subject linked_at d =
     (if (provider, subject, linked_at) \<in> set (db_generations d) then Inl GenerationConflict
      else Inr (d\<lparr>db_generations := db_generations d @ [(provider, subject, linked_at)]\<rparr>))"

definition ext_user_provider :: "external_identity \<Rightarrow> string \<times> string" where
  "ext_user_provider e = (ext_user_id e, ext_provider e)"

definition insert_identity :: "external_identity \<Rightarrow> identity_db \<Rightarrow> identity_db db_result" where
  "insert_identity e d =
     (if ext_provider_key e \<in> ext_provider_key ` set (db_identities d) \<or>
         ext_user_provider e \<in> ext_user_provider ` set (db_identities d) \<or>
         \<not> user_exists d (ext_user_id e)
      then Inl StorageConflict
      else Inr (d\<lparr>db_identities := db_identities d @ [e]\<rparr>))"

definition insert_session :: "user_session \<Rightarrow> identity_db \<Rightarrow> identity_db db_result" where
  "insert_session s d =
     (if ses_session_id s \<in> ses_session_id ` set (db_sessions d) \<or>
         ses_token_digest s \<in> ses_token_digest ` set (db_sessions d) \<or>
         ses_source_pairing s \<noteq> None \<and> ses_source_pairing s \<in> ses_source_pairing ` set (db_sessions d) \<or>
         \<not> session_check s \<or> \<not> user_exists d (ses_user_id s) \<or>
         \<not> session_correlated (db_pairings d) s
      then Inl StorageConflict
      else Inr (d\<lparr>db_sessions := db_sessions d @ [s]\<rparr>))"

text \<open>
  Every \<^verbatim>\<open>UPDATE sessions\<close> of the source sets \<^verbatim>\<open>last_seen_at\<close> and \<^verbatim>\<open>revoked_at\<close> only, so keys,
  foreign keys and the immutability trigger are not affected; the CHECK constraints are.
\<close>

definition set_session_times ::
  "(user_session \<Rightarrow> instant) \<Rightarrow> (user_session \<Rightarrow> instant option) \<Rightarrow> user_session \<Rightarrow> user_session" where
  "set_session_times seen revoked s = s\<lparr>ses_last_seen_at := seen s, ses_revoked_at := revoked s\<rparr>"

definition update_sessions ::
  "(user_session \<Rightarrow> bool) \<Rightarrow> (user_session \<Rightarrow> instant) \<Rightarrow> (user_session \<Rightarrow> instant option) \<Rightarrow>
   identity_db \<Rightarrow> (nat \<times> identity_db) db_result"
where
  "update_sessions P seen revoked d =
     (if list_all (\<lambda>s. P s \<longrightarrow> session_check (set_session_times seen revoked s)) (db_sessions d)
      then Inr (count_where P (db_sessions d),
                d\<lparr>db_sessions := update_where P (set_session_times seen revoked) (db_sessions d)\<rparr>)
      else Inl StorageConflict)"

definition insert_pairing :: "tui_pairing \<Rightarrow> identity_db \<Rightarrow> identity_db db_result" where
  "insert_pairing p d =
     (if par_pairing_id p \<in> par_pairing_id ` set (db_pairings d) \<or>
         par_code_digest p \<in> par_code_digest ` set (db_pairings d) \<or>
         \<not> pairing_check p \<or> \<not> pred_option (user_exists d) (par_user_id p)
      then Inl StorageConflict
      else Inr (d\<lparr>db_pairings := db_pairings d @ [p]\<rparr>))"

text \<open>An \<^verbatim>\<open>UPDATE tui_pairings\<close> never sets the identifier, the digest or the validity interval.\<close>

definition set_pairing_state ::
  "pairing_status \<Rightarrow> string option \<Rightarrow> instant option \<Rightarrow> instant option \<Rightarrow> instant option \<Rightarrow>
   instant option \<Rightarrow> tui_pairing \<Rightarrow> tui_pairing"
where
  "set_pairing_state st uid authorized consumed expired revoked p =
     p\<lparr>par_status := st, par_user_id := uid, par_authorized_at := authorized,
       par_consumed_at := consumed, par_expired_at := expired, par_revoked_at := revoked\<rparr>"

definition update_pairings ::
  "(tui_pairing \<Rightarrow> bool) \<Rightarrow> (tui_pairing \<Rightarrow> tui_pairing) \<Rightarrow> identity_db \<Rightarrow> (nat \<times> identity_db) db_result"
where
  "update_pairings P f d =
     (if list_all (\<lambda>p. P p \<longrightarrow> pairing_check (f p) \<and> pred_option (user_exists d) (par_user_id (f p)) \<and>
           pairing_update_allowed (db_sessions d) p (f p)) (db_pairings d)
      then Inr (count_where P (db_pairings d), d\<lparr>db_pairings := update_where P f (db_pairings d)\<rparr>)
      else Inl StorageConflict)"

text \<open>Deleting a pairing that a session references violates the foreign key.\<close>

definition delete_pairings ::
  "(tui_pairing \<Rightarrow> bool) \<Rightarrow> identity_db \<Rightarrow> (nat \<times> identity_db) db_result" where
  "delete_pairings P d =
     (if list_ex (\<lambda>p. P p \<and> pairing_referenced (db_sessions d) p) (db_pairings d)
      then Inl StorageConflict
      else Inr (count_where P (db_pairings d), d\<lparr>db_pairings := delete_where P (db_pairings d)\<rparr>))"

definition mem_key :: "class_membership \<Rightarrow> string \<times> string \<times> membership_role" where
  "mem_key m = (mem_user_id m, mem_class_id m, mem_role m)"

definition class_exists :: "identity_db \<Rightarrow> string \<Rightarrow> bool" where
  "class_exists d c \<longleftrightarrow> c \<in> cls_class_id ` set (db_classes d)"

definition insert_class :: "class_group \<Rightarrow> identity_db \<Rightarrow> identity_db db_result" where
  "insert_class c d =
     (if class_exists d (cls_class_id c) \<or> cls_updated_at c < cls_created_at c then Inl StorageConflict
      else Inr (d\<lparr>db_classes := db_classes d @ [c]\<rparr>))"

definition insert_membership :: "class_membership \<Rightarrow> identity_db \<Rightarrow> identity_db db_result" where
  "insert_membership m d =
     (if mem_key m \<in> mem_key ` set (db_memberships d) \<or> \<not> user_exists d (mem_user_id m) \<or>
         \<not> class_exists d (mem_class_id m) \<or>
         (mem_source_provider m = None) \<noteq> (mem_source_group m = None)
      then Inl StorageConflict
      else Inr (d\<lparr>db_memberships := db_memberships d @ [m]\<rparr>))"

definition update_classes ::
  "(class_group \<Rightarrow> bool) \<Rightarrow> (class_group \<Rightarrow> class_group) \<Rightarrow> identity_db \<Rightarrow> (nat \<times> identity_db) db_result"
where
  "update_classes P f d =
     (if list_all (\<lambda>c. P c \<longrightarrow> cls_created_at (f c) \<le> cls_updated_at (f c)) (db_classes d)
      then Inr (count_where P (db_classes d), d\<lparr>db_classes := update_where P f (db_classes d)\<rparr>)
      else Inl StorageConflict)"

text \<open>\<^verbatim>\<open>INSERT .. ON CONFLICT(user_id, class_id, role) DO UPDATE\<close>\<close>

definition upsert_membership :: "class_membership \<Rightarrow> identity_db \<Rightarrow> identity_db db_result" where
  "upsert_membership m d =
     (if \<not> user_exists d (mem_user_id m) \<or> \<not> class_exists d (mem_class_id m) \<or>
         (mem_source_provider m = None) \<noteq> (mem_source_group m = None)
      then Inl StorageConflict
      else if mem_key m \<in> mem_key ` set (db_memberships d)
      then Inr (d\<lparr>db_memberships := update_where (\<lambda>r. mem_key r = mem_key m)
        (\<lambda>r. r\<lparr>mem_joined_at := mem_joined_at m, mem_source_provider := mem_source_provider m,
              mem_source_group := mem_source_group m\<rparr>) (db_memberships d)\<rparr>)
      else Inr (d\<lparr>db_memberships := db_memberships d @ [m]\<rparr>))"

definition delete_memberships :: "(class_membership \<Rightarrow> bool) \<Rightarrow> identity_db \<Rightarrow> nat \<times> identity_db" where
  "delete_memberships P d =
     (count_where P (db_memberships d), d\<lparr>db_memberships := delete_where P (db_memberships d)\<rparr>)"

definition insert_mapping :: "group_mapping \<Rightarrow> identity_db \<Rightarrow> identity_db db_result" where
  "insert_mapping m d =
     (if map_provider_key m \<in> map_provider_key ` set (db_mappings d) \<or> \<not> class_exists d (map_class_id m)
      then Inl StorageConflict
      else Inr (d\<lparr>db_mappings := db_mappings d @ [m]\<rparr>))"

text \<open>The updates of a mapping set its display name and its revision only.\<close>

definition update_mappings ::
  "(group_mapping \<Rightarrow> bool) \<Rightarrow> string option \<Rightarrow> instant \<Rightarrow> identity_db \<Rightarrow> nat \<times> identity_db" where
  "update_mappings P name updated d =
     (count_where P (db_mappings d),
      d\<lparr>db_mappings := update_where P (\<lambda>r. r\<lparr>map_display_name := name, map_updated_at := updated\<rparr>) (db_mappings d)\<rparr>)"

definition delete_mappings :: "(group_mapping \<Rightarrow> bool) \<Rightarrow> identity_db \<Rightarrow> nat \<times> identity_db" where
  "delete_mappings P d =
     (count_where P (db_mappings d), d\<lparr>db_mappings := delete_where P (db_mappings d)\<rparr>)"

text \<open>\<^verbatim>\<open>SELECT MAX(created_at)\<close> over the generations of a mapping, and their reservation.\<close>

definition latest_mapping_generation :: "identity_db \<Rightarrow> string \<times> string \<times> string \<Rightarrow> instant option" where
  "latest_mapping_generation d key =
     (let ts = map snd (filter (\<lambda>g. fst g = key) (db_map_generations d))
      in if ts = [] then None else Some (foldr max ts (hd ts)))"

definition reserve_mapping_generation ::
  "string \<times> string \<times> string \<Rightarrow> instant \<Rightarrow> identity_db \<Rightarrow> identity_db db_result" where
  "reserve_mapping_generation key created d =
     (if (case latest_mapping_generation d key of None \<Rightarrow> False | Some t \<Rightarrow> created \<le> t) then Inl MappingGenerationConflict
      else if (key, created) \<in> set (db_map_generations d) then Inl MappingGenerationConflict
      else Inr (d\<lparr>db_map_generations := db_map_generations d @ [(key, created)]\<rparr>))"

text \<open>
  The binding tables with their CHECK constraints and triggers: a binding starts active at
  revision 1 for an active student, is advanced one revision at a time, and never deleted; an
  alias is only ever appended, for an active student of an active class.
\<close>

definition active_student :: "identity_db \<Rightarrow> string \<Rightarrow> bool" where
  "active_student d i \<longleftrightarrow>
     list_ex (\<lambda>u. acc_user_id u = i \<and> acc_active u \<and> acc_role u = RoleStudent) (db_users d)"

definition binding_check :: "subject_binding \<Rightarrow> bool" where
  "binding_check b \<longleftrightarrow>
     1 \<le> bnd_revision b \<and> subject_shape (bnd_subject_id b) \<and> bnd_created_at b \<le> bnd_updated_at b"

definition insert_binding :: "subject_binding \<Rightarrow> identity_db \<Rightarrow> identity_db db_result" where
  "insert_binding b d =
     (if \<not> bnd_active b \<or> bnd_revision b \<noteq> 1 \<or> bnd_updated_at b \<noteq> bnd_created_at b \<or>
         \<not> active_student d (bnd_user_id b) \<or> \<not> binding_check b \<or> \<not> user_exists d (bnd_user_id b) \<or>
         bnd_subject_id b \<in> bnd_subject_id ` set (db_bindings d) \<or>
         bnd_user_id b \<in> bnd_user_id ` set (db_bindings d)
      then Inl StorageConflict
      else Inr (d\<lparr>db_bindings := db_bindings d @ [b]\<rparr>))"

text \<open>The one update of a binding sets its active flag, revision and \<^verbatim>\<open>updated_at\<close>.\<close>

definition update_bindings ::
  "(subject_binding \<Rightarrow> bool) \<Rightarrow> bool \<Rightarrow> int \<Rightarrow> instant \<Rightarrow> identity_db \<Rightarrow> (nat \<times> identity_db) db_result" where
  "update_bindings P active revision updated d =
     (let f = (\<lambda>r. r\<lparr>bnd_active := active, bnd_revision := revision, bnd_updated_at := updated\<rparr>)
      in if list_all (\<lambda>r. P r \<longrightarrow> revision = bnd_revision r + 1 \<and> bnd_updated_at r < updated \<and>
               (active \<longrightarrow> active_student d (bnd_user_id r)) \<and> binding_check (f r)) (db_bindings d)
         then Inr (count_where P (db_bindings d), d\<lparr>db_bindings := update_where P f (db_bindings d)\<rparr>)
         else Inl StorageConflict)"

definition alias_key :: "subject_alias \<Rightarrow> string \<times> string" where
  "alias_key a = (als_class_id a, als_legacy_id a)"

definition class_open :: "identity_db \<Rightarrow> string \<Rightarrow> bool" where
  "class_open d c \<longleftrightarrow> list_ex (\<lambda>k. cls_class_id k = c \<and> cls_active k) (db_classes d)"

definition enrolled :: "identity_db \<Rightarrow> string \<Rightarrow> string \<Rightarrow> bool" where
  "enrolled d i c \<longleftrightarrow> list_ex (\<lambda>m. mem_key m = (i, c, MemberStudent)) (db_memberships d)"

text \<open>The join of bindings, users, memberships and classes an alias has to be justified by.\<close>

definition alias_authority :: "identity_db \<Rightarrow> subject_alias \<Rightarrow> (subject_binding \<Rightarrow> bool) \<Rightarrow> bool" where
  "alias_authority d a P \<longleftrightarrow>
     list_ex (\<lambda>b. bnd_subject_id b = als_subject_id a \<and> bnd_active b \<and> P b \<and>
       active_student d (bnd_user_id b) \<and> enrolled d (bnd_user_id b) (als_class_id a) \<and>
       class_open d (als_class_id a)) (db_bindings d)"

definition insert_alias :: "subject_alias \<Rightarrow> identity_db \<Rightarrow> identity_db db_result" where
  "insert_alias a d =
     (if \<not> alias_authority d a (\<lambda>b. True) \<or> list_all (\<lambda>c. c = CHR '' '') (als_legacy_id a) \<or>
         alias_key a \<in> alias_key ` set (db_aliases d) \<or> \<not> class_exists d (als_class_id a) \<or>
         als_subject_id a \<notin> bnd_subject_id ` set (db_bindings d)
      then Inl StorageConflict
      else Inr (d\<lparr>db_aliases := db_aliases d @ [a]\<rparr>))"

section \<open>Hydration\<close>

definition hydrate_user :: "user_account \<Rightarrow> user_account db_result" where
  "hydrate_user row = map_error (\<lambda>_. StorageCorruption) (rebuild_user row)"

definition hydrate_identity :: "external_identity \<Rightarrow> external_identity db_result" where
  "hydrate_identity row = map_error (\<lambda>_. StorageCorruption) (rebuild_external row)"

definition hydrate_session :: "user_session \<Rightarrow> user_session db_result" where
  "hydrate_session row = map_error (\<lambda>_. StorageCorruption) (rebuild_session row)"

definition hydrate_pairing :: "tui_pairing \<Rightarrow> tui_pairing db_result" where
  "hydrate_pairing row = map_error (\<lambda>_. StorageCorruption) (rebuild_pairing row)"

definition hydrate_optional :: "('a \<Rightarrow> 'a db_result) \<Rightarrow> 'a option \<Rightarrow> 'a option db_result" where
  "hydrate_optional h row =
     (case row of None \<Rightarrow> Inr None | Some r \<Rightarrow> bind_result (h r) (\<lambda>x. Inr (Some x)))"

definition hydrate_class :: "class_group \<Rightarrow> class_group db_result" where
  "hydrate_class row = map_error (\<lambda>_. StorageCorruption) (rebuild_class row)"

definition hydrate_membership :: "class_membership \<Rightarrow> class_membership db_result" where
  "hydrate_membership row = map_error (\<lambda>_. StorageCorruption) (rebuild_membership row)"

definition hydrate_mapping :: "group_mapping \<Rightarrow> group_mapping db_result" where
  "hydrate_mapping row = map_error (\<lambda>_. StorageCorruption) (rebuild_mapping row)"

definition hydrate_binding :: "subject_binding \<Rightarrow> subject_binding db_result" where
  "hydrate_binding row = map_error (\<lambda>_. StorageCorruption) (rebuild_binding row)"

definition hydrate_alias :: "subject_alias \<Rightarrow> subject_alias db_result" where
  "hydrate_alias row = map_error (\<lambda>_. StorageCorruption) (rebuild_alias row)"

fun hydrate_all :: "('a \<Rightarrow> 'a db_result) \<Rightarrow> 'a list \<Rightarrow> 'a list db_result" where
  "hydrate_all h [] = Inr []"
| "hydrate_all h (r # rs) =
     bind_result (h r) (\<lambda>x. bind_result (hydrate_all h rs) (\<lambda>xs. Inr (x # xs)))"

section \<open>The schema and the domain agree\<close>

lemma session_check_domain:
  assumes "clean_text (ses_session_id s)" "clean_text (ses_user_id s)"
    "valid_digest session_digest_algorithms (ses_token_digest s)"
    "optional_clean (ses_source_pairing s)"
    "ses_audience s = AudienceTui \<longleftrightarrow> ses_source_pairing s \<noteq> None"
    "representable (ses_created_at s)" "representable (ses_expires_at s)"
    "representable (ses_last_seen_at s)" "pred_option representable (ses_revoked_at s)"
  shows "valid_session s \<longleftrightarrow> session_check s"
  using assms by (cases "ses_revoked_at s") (auto simp: valid_session_def session_check_def)

lemma pairing_check_domain:
  assumes "clean_text (par_pairing_id p)" "valid_digest pairing_digest_algorithms (par_code_digest p)"
    "optional_clean (par_user_id p)" "representable (par_created_at p)"
    "representable (par_expires_at p)" "pred_option representable (par_authorized_at p)"
    "pred_option representable (par_consumed_at p)" "pred_option representable (par_expired_at p)"
    "pred_option representable (par_revoked_at p)"
  shows "valid_pairing p \<longleftrightarrow> pairing_check p"
  using assms
  by (cases "par_status p"; cases "par_authorized_at p"; cases "par_consumed_at p";
      cases "par_expired_at p"; cases "par_revoked_at p"; cases "par_user_id p")
    (auto simp: valid_pairing_def pairing_check_def within_pairing_def sql_between_def
      pairing_consistent_def later_than_def)

lemma valid_session_check: "valid_session s \<Longrightarrow> session_check s"
  by (cases "ses_revoked_at s") (auto simp: valid_session_def session_check_def)

lemma valid_pairing_check: "valid_pairing p \<Longrightarrow> pairing_check p"
  by (subst pairing_check_domain [symmetric])
    (auto simp: valid_pairing_def within_pairing_def elim!: option.pred_mono_strong)

end
