(* ===== verification/Store_Invariant.thy ===== *)
theory Store_Invariant
  imports Identity_Store
begin

text \<open>
  The integrity invariant of the identity database and its preservation, statement by
  statement: keys are unique, rows satisfy the invariants of their dataclasses, foreign keys
  point to rows, every external identity holds a reserved generation, and every TUI session
  stands on the consumed pairing it was issued for. A second part says how rows may change:
  a user row changes only together with a later \<^verbatim>\<open>updated_at\<close>, a session keeps its generation
  and never loses its revocation, a pairing only moves forward in its state machine.
\<close>

named_theorems statement_simps "when a statement succeeds and what it leaves"

section \<open>The invariant\<close>

definition users_ok :: "identity_db \<Rightarrow> bool" where
  "users_ok d \<longleftrightarrow> unique_on acc_user_id (db_users d) \<and> list_all valid_user (db_users d)"

definition identities_ok :: "identity_db \<Rightarrow> bool" where
  "identities_ok d \<longleftrightarrow>
     unique_on ext_provider_key (db_identities d) \<and> unique_on ext_user_provider (db_identities d) \<and>
     list_all (\<lambda>e. valid_external e \<and> user_exists d (ext_user_id e) \<and>
       (ext_provider e, ext_subject e, ext_linked_at e) \<in> set (db_generations d)) (db_identities d)"

definition classes_ok :: "identity_db \<Rightarrow> bool" where
  "classes_ok d \<longleftrightarrow>
     unique_on cls_class_id (db_classes d) \<and> unique_on mem_key (db_memberships d) \<and>
     list_all valid_class (db_classes d) \<and>
     list_all (\<lambda>m. valid_membership m \<and> user_exists d (mem_user_id m) \<and> class_exists d (mem_class_id m)) (db_memberships d)"

definition sessions_ok :: "identity_db \<Rightarrow> bool" where
  "sessions_ok d \<longleftrightarrow>
     unique_on ses_session_id (db_sessions d) \<and> unique_on ses_token_digest (db_sessions d) \<and>
     unique_some ses_source_pairing (db_sessions d) \<and>
     list_all (\<lambda>s. valid_session s \<and> user_exists d (ses_user_id s) \<and>
       session_correlated (db_pairings d) s) (db_sessions d)"

definition pairings_ok :: "identity_db \<Rightarrow> bool" where
  "pairings_ok d \<longleftrightarrow>
     unique_on par_pairing_id (db_pairings d) \<and> unique_on par_code_digest (db_pairings d) \<and>
     list_all (\<lambda>p. valid_pairing p \<and> pred_option (user_exists d) (par_user_id p)) (db_pairings d)"

definition mappings_ok :: "identity_db \<Rightarrow> bool" where
  "mappings_ok d \<longleftrightarrow>
     unique_on map_provider_key (db_mappings d) \<and>
     list_all (\<lambda>m. valid_mapping m \<and> class_exists d (map_class_id m) \<and>
       (map_provider_key m, map_created_at m) \<in> set (db_map_generations d)) (db_mappings d)"

definition bindings_ok :: "identity_db \<Rightarrow> bool" where
  "bindings_ok d \<longleftrightarrow>
     unique_on bnd_subject_id (db_bindings d) \<and> unique_on bnd_user_id (db_bindings d) \<and>
     list_all (\<lambda>b. valid_binding b \<and> user_exists d (bnd_user_id b)) (db_bindings d) \<and>
     unique_on alias_key (db_aliases d) \<and>
     list_all (\<lambda>a. valid_alias a \<and> class_exists d (als_class_id a) \<and>
       als_subject_id a \<in> bnd_subject_id ` set (db_bindings d)) (db_aliases d)"

definition db_ok :: "identity_db \<Rightarrow> bool" where
  "db_ok d \<longleftrightarrow> users_ok d \<and> identities_ok d \<and> classes_ok d \<and> sessions_ok d \<and> pairings_ok d \<and>
     mappings_ok d \<and> bindings_ok d"

lemmas ok_defs = db_ok_def users_ok_def identities_ok_def classes_ok_def sessions_ok_def
  pairings_ok_def mappings_ok_def bindings_ok_def list_all_iff

lemma db_ok_empty [simp]: "db_ok empty_db"
  by (simp add: ok_defs empty_db_def)

section \<open>Statements keep the invariant\<close>

lemma user_exists_cong:
  "acc_user_id ` set (db_users d) = acc_user_id ` set (db_users d') \<Longrightarrow> user_exists d = user_exists d'"
  by (simp add: user_exists_def fun_eq_iff)

lemma user_exists_frames [simp]:
  "user_exists (d\<lparr>db_identities := x\<rparr>) = user_exists d" "user_exists (d\<lparr>db_generations := g\<rparr>) = user_exists d"
  "user_exists (d\<lparr>db_classes := c\<rparr>) = user_exists d" "user_exists (d\<lparr>db_memberships := m\<rparr>) = user_exists d"
  "user_exists (d\<lparr>db_sessions := s\<rparr>) = user_exists d" "user_exists (d\<lparr>db_pairings := p\<rparr>) = user_exists d"
  "user_exists (d\<lparr>db_mappings := n\<rparr>) = user_exists d" "user_exists (d\<lparr>db_map_generations := h\<rparr>) = user_exists d"
  "user_exists (d\<lparr>db_bindings := b\<rparr>) = user_exists d" "user_exists (d\<lparr>db_aliases := a\<rparr>) = user_exists d"
  by (simp_all add: user_exists_def fun_eq_iff)

lemma class_exists_frames [simp]:
  "class_exists (d\<lparr>db_users := u\<rparr>) = class_exists d" "class_exists (d\<lparr>db_memberships := m\<rparr>) = class_exists d"
  "class_exists (d\<lparr>db_identities := x\<rparr>) = class_exists d" "class_exists (d\<lparr>db_generations := g\<rparr>) = class_exists d"
  "class_exists (d\<lparr>db_sessions := s\<rparr>) = class_exists d" "class_exists (d\<lparr>db_pairings := p\<rparr>) = class_exists d"
  "class_exists (d\<lparr>db_mappings := n\<rparr>) = class_exists d" "class_exists (d\<lparr>db_map_generations := h\<rparr>) = class_exists d"
  "class_exists (d\<lparr>db_bindings := b\<rparr>) = class_exists d" "class_exists (d\<lparr>db_aliases := a\<rparr>) = class_exists d"
  by (simp_all add: class_exists_def fun_eq_iff)

text \<open>Each part of the invariant reads its own tables only.\<close>

lemma ok_frames [simp]:
  "users_ok (d\<lparr>db_identities := x\<rparr>) = users_ok d"
  "users_ok (d\<lparr>db_generations := g\<rparr>) = users_ok d"
  "users_ok (d\<lparr>db_classes := c\<rparr>) = users_ok d"
  "users_ok (d\<lparr>db_memberships := m\<rparr>) = users_ok d"
  "users_ok (d\<lparr>db_sessions := s\<rparr>) = users_ok d"
  "users_ok (d\<lparr>db_pairings := p\<rparr>) = users_ok d"
  "users_ok (d\<lparr>db_mappings := n\<rparr>) = users_ok d"
  "users_ok (d\<lparr>db_map_generations := h\<rparr>) = users_ok d"
  "users_ok (d\<lparr>db_bindings := b\<rparr>) = users_ok d"
  "users_ok (d\<lparr>db_aliases := a\<rparr>) = users_ok d"
  "identities_ok (d\<lparr>db_classes := c\<rparr>) = identities_ok d"
  "identities_ok (d\<lparr>db_memberships := m\<rparr>) = identities_ok d"
  "identities_ok (d\<lparr>db_sessions := s\<rparr>) = identities_ok d"
  "identities_ok (d\<lparr>db_pairings := p\<rparr>) = identities_ok d"
  "identities_ok (d\<lparr>db_mappings := n\<rparr>) = identities_ok d"
  "identities_ok (d\<lparr>db_map_generations := h\<rparr>) = identities_ok d"
  "identities_ok (d\<lparr>db_bindings := b\<rparr>) = identities_ok d"
  "identities_ok (d\<lparr>db_aliases := a\<rparr>) = identities_ok d"
  "classes_ok (d\<lparr>db_identities := x\<rparr>) = classes_ok d"
  "classes_ok (d\<lparr>db_generations := g\<rparr>) = classes_ok d"
  "classes_ok (d\<lparr>db_sessions := s\<rparr>) = classes_ok d"
  "classes_ok (d\<lparr>db_pairings := p\<rparr>) = classes_ok d"
  "classes_ok (d\<lparr>db_mappings := n\<rparr>) = classes_ok d"
  "classes_ok (d\<lparr>db_map_generations := h\<rparr>) = classes_ok d"
  "classes_ok (d\<lparr>db_bindings := b\<rparr>) = classes_ok d"
  "classes_ok (d\<lparr>db_aliases := a\<rparr>) = classes_ok d"
  "sessions_ok (d\<lparr>db_identities := x\<rparr>) = sessions_ok d"
  "sessions_ok (d\<lparr>db_generations := g\<rparr>) = sessions_ok d"
  "sessions_ok (d\<lparr>db_classes := c\<rparr>) = sessions_ok d"
  "sessions_ok (d\<lparr>db_memberships := m\<rparr>) = sessions_ok d"
  "sessions_ok (d\<lparr>db_mappings := n\<rparr>) = sessions_ok d"
  "sessions_ok (d\<lparr>db_map_generations := h\<rparr>) = sessions_ok d"
  "sessions_ok (d\<lparr>db_bindings := b\<rparr>) = sessions_ok d"
  "sessions_ok (d\<lparr>db_aliases := a\<rparr>) = sessions_ok d"
  "pairings_ok (d\<lparr>db_identities := x\<rparr>) = pairings_ok d"
  "pairings_ok (d\<lparr>db_generations := g\<rparr>) = pairings_ok d"
  "pairings_ok (d\<lparr>db_classes := c\<rparr>) = pairings_ok d"
  "pairings_ok (d\<lparr>db_memberships := m\<rparr>) = pairings_ok d"
  "pairings_ok (d\<lparr>db_sessions := s\<rparr>) = pairings_ok d"
  "pairings_ok (d\<lparr>db_mappings := n\<rparr>) = pairings_ok d"
  "pairings_ok (d\<lparr>db_map_generations := h\<rparr>) = pairings_ok d"
  "pairings_ok (d\<lparr>db_bindings := b\<rparr>) = pairings_ok d"
  "pairings_ok (d\<lparr>db_aliases := a\<rparr>) = pairings_ok d"
  "mappings_ok (d\<lparr>db_users := u\<rparr>) = mappings_ok d"
  "mappings_ok (d\<lparr>db_identities := x\<rparr>) = mappings_ok d"
  "mappings_ok (d\<lparr>db_generations := g\<rparr>) = mappings_ok d"
  "mappings_ok (d\<lparr>db_memberships := m\<rparr>) = mappings_ok d"
  "mappings_ok (d\<lparr>db_sessions := s\<rparr>) = mappings_ok d"
  "mappings_ok (d\<lparr>db_pairings := p\<rparr>) = mappings_ok d"
  "mappings_ok (d\<lparr>db_bindings := b\<rparr>) = mappings_ok d"
  "mappings_ok (d\<lparr>db_aliases := a\<rparr>) = mappings_ok d"
  "bindings_ok (d\<lparr>db_identities := x\<rparr>) = bindings_ok d"
  "bindings_ok (d\<lparr>db_generations := g\<rparr>) = bindings_ok d"
  "bindings_ok (d\<lparr>db_memberships := m\<rparr>) = bindings_ok d"
  "bindings_ok (d\<lparr>db_sessions := s\<rparr>) = bindings_ok d"
  "bindings_ok (d\<lparr>db_pairings := p\<rparr>) = bindings_ok d"
  "bindings_ok (d\<lparr>db_mappings := n\<rparr>) = bindings_ok d"
  "bindings_ok (d\<lparr>db_map_generations := h\<rparr>) = bindings_ok d"
  by (simp_all add: users_ok_def identities_ok_def classes_ok_def sessions_ok_def pairings_ok_def
      mappings_ok_def bindings_ok_def)

lemma class_exists_users [simp]: "class_exists (d\<lparr>db_users := u\<rparr>) = class_exists d"
  by (simp add: class_exists_def fun_eq_iff)

lemma ok_more_users:
  assumes "db_ok d" "\<And>i. user_exists d i \<Longrightarrow> user_exists (d\<lparr>db_users := u\<rparr>) i" "users_ok (d\<lparr>db_users := u\<rparr>)"
  shows "db_ok (d\<lparr>db_users := u\<rparr>)"
proof -
  have opt: "pred_option (user_exists d) v \<Longrightarrow> pred_option (user_exists (d\<lparr>db_users := u\<rparr>)) v" for v
    by (cases v) (auto intro: assms(2))
  have "identities_ok (d\<lparr>db_users := u\<rparr>)" using assms(1,2) by (auto simp: db_ok_def identities_ok_def list_all_iff)
  moreover have "classes_ok (d\<lparr>db_users := u\<rparr>)" using assms(1,2) by (auto simp: db_ok_def classes_ok_def list_all_iff)
  moreover have "sessions_ok (d\<lparr>db_users := u\<rparr>)" using assms(1,2) by (auto simp: db_ok_def sessions_ok_def list_all_iff)
  moreover have "pairings_ok (d\<lparr>db_users := u\<rparr>)" using assms(1) opt by (auto simp: db_ok_def pairings_ok_def list_all_iff)
  moreover have "bindings_ok (d\<lparr>db_users := u\<rparr>)" using assms(1,2) by (auto simp: db_ok_def bindings_ok_def list_all_iff)
  ultimately show ?thesis using assms(1,3) by (simp add: db_ok_def)
qed

lemma db_ok_insert_user:
  assumes "db_ok d" "valid_user u" "insert_user u d = Inr d'"
  shows "db_ok d'"
proof -
  have d': "d' = d\<lparr>db_users := db_users d @ [u]\<rparr>" and fresh: "\<not> user_exists d (acc_user_id u)"
    using assms(3) by (auto simp: insert_user_def split: if_splits)
  show ?thesis unfolding d'
    by (rule ok_more_users [OF assms(1)])
      (use assms(1,2) fresh in \<open>auto simp: user_exists_def db_ok_def users_ok_def\<close>)
qed

lemma db_ok_update_users:
  assumes "db_ok d" "update_users P f d = Inr (n, d')"
    and "\<And>u. acc_user_id (f u) = acc_user_id u"
    and "\<And>u. u \<in> set (db_users d) \<Longrightarrow> P u \<Longrightarrow> acc_created_at (f u) \<le> acc_updated_at (f u) \<Longrightarrow> valid_user (f u)"
  shows "db_ok d'"
proof -
  have d': "d' = d\<lparr>db_users := update_where P f (db_users d)\<rparr>"
    and chk: "\<forall>u \<in> set (db_users d). P u \<longrightarrow> acc_created_at (f u) \<le> acc_updated_at (f u)"
    using assms(2) by (auto simp: update_users_def list_all_iff split: if_splits)
  have "acc_user_id (if P u then f u else u) = acc_user_id u" for u by (simp add: assms(3))
  then have same: "user_exists d' = user_exists d"
    by (intro user_exists_cong) (simp add: d' image_image del: image_Un if_image_distrib)
  have "users_ok d'"
    using assms(1,3,4) chk by (auto simp: users_ok_def db_ok_def list_all_iff d' unique_on_update)
  with same show ?thesis unfolding d' by (intro ok_more_users [OF assms(1)]) simp_all
qed

lemma db_ok_reserve:
  assumes "db_ok d" "reserve_generation p s t d = Inr d'"
  shows "db_ok d'" "(p, s, t) \<in> set (db_generations d')" "(p, s, t) \<notin> set (db_generations d)"
  using assms by (auto simp: reserve_generation_def db_ok_def identities_ok_def list_all_iff split: if_splits)

lemma db_ok_insert_identity:
  assumes "db_ok d" "valid_external e" "insert_identity e d = Inr d'"
    "(ext_provider e, ext_subject e, ext_linked_at e) \<in> set (db_generations d)"
  shows "db_ok d'"
  using assms by (auto simp: insert_identity_def db_ok_def identities_ok_def split: if_splits)

lemma db_ok_identities_subset:
  assumes "db_ok d"
  shows "db_ok (d\<lparr>db_identities := delete_where P (db_identities d)\<rparr>)"
  using assms by (auto simp: db_ok_def identities_ok_def list_all_iff unique_on_delete)

lemma db_ok_memberships_subset:
  assumes "db_ok d"
  shows "db_ok (d\<lparr>db_memberships := delete_where P (db_memberships d)\<rparr>)"
  using assms by (auto simp: db_ok_def classes_ok_def list_all_iff unique_on_delete)

lemma db_ok_insert_session:
  assumes "db_ok d" "valid_session s" "insert_session s d = Inr d'"
  shows "db_ok d'"
  using assms by (auto simp: insert_session_def db_ok_def sessions_ok_def split: if_splits)

lemma set_session_times_simps [simp]:
  "ses_session_id (set_session_times seen rvk s) = ses_session_id s"
  "ses_user_id (set_session_times seen rvk s) = ses_user_id s"
  "ses_token_digest (set_session_times seen rvk s) = ses_token_digest s"
  "ses_created_at (set_session_times seen rvk s) = ses_created_at s"
  "ses_expires_at (set_session_times seen rvk s) = ses_expires_at s"
  "ses_audience (set_session_times seen rvk s) = ses_audience s"
  "ses_source_pairing (set_session_times seen rvk s) = ses_source_pairing s"
  "ses_last_seen_at (set_session_times seen rvk s) = seen s"
  "ses_revoked_at (set_session_times seen rvk s) = rvk s"
  by (simp_all add: set_session_times_def)

lemma session_correlated_times [simp]:
  "session_correlated ps (set_session_times seen rvk s) = session_correlated ps s"
  by (cases "ses_audience s") (simp_all add: session_correlated_def)

text \<open>The CHECK constraint alone keeps the instants of a touched row representable.\<close>

lemma valid_session_times:
  assumes "valid_session s" "session_check (set_session_times seen rvk s)"
  shows "valid_session (set_session_times seen rvk s)"
proof -
  have bounds: "ses_created_at s \<le> t \<Longrightarrow> t < ses_expires_at s \<Longrightarrow> representable t" for t
    using assms(1) by (auto simp: valid_session_def representable_def)
  then show ?thesis
    using assms by (cases "rvk s") (auto simp: valid_session_def session_check_def)
qed

lemma db_ok_update_sessions:
  assumes "db_ok d" "update_sessions P seen rvk d = Inr (n, d')"
  shows "db_ok d'"
proof -
  have d': "d' = d\<lparr>db_sessions := update_where P (set_session_times seen rvk) (db_sessions d)\<rparr>"
    and chk: "\<forall>s \<in> set (db_sessions d). P s \<longrightarrow> session_check (set_session_times seen rvk s)"
    using assms(2) by (auto simp: update_sessions_def list_all_iff split: if_splits)
  have "sessions_ok d'"
    using assms(1) chk
    by (auto simp: db_ok_def sessions_ok_def list_all_iff d' unique_on_update unique_some_update intro: valid_session_times)
  then show ?thesis using assms(1) by (simp add: db_ok_def d')
qed

lemma db_ok_insert_pairing:
  assumes "db_ok d" "valid_pairing p" "insert_pairing p d = Inr d'"
  shows "db_ok d'"
proof -
  have d': "d' = d\<lparr>db_pairings := db_pairings d @ [p]\<rparr>"
    using assms(3) by (auto simp: insert_pairing_def split: if_splits)
  have "session_correlated (db_pairings d) s \<Longrightarrow> session_correlated (db_pairings d') s" for s
    by (auto simp: session_correlated_def d' split: session_audience.splits)
  then have "sessions_ok d'" using assms(1) by (auto simp: db_ok_def sessions_ok_def list_all_iff d')
  then show ?thesis using assms by (auto simp: insert_pairing_def db_ok_def pairings_ok_def split: if_splits)
qed

lemma correlated_referenced:
  assumes "session_correlated ps s" "s \<in> set ss" "ses_source_pairing s = Some i"
  shows "\<exists>p \<in> set ps. par_pairing_id p = i \<and> par_status p = PairConsumed \<and>
    par_user_id p = Some (ses_user_id s) \<and> par_consumed_at p = Some (ses_created_at s) \<and>
    pairing_referenced ss p"
  using assms
  by (fastforce simp: session_correlated_def pairing_referenced_def list_ex_iff
      split: session_audience.splits)

lemma correlatedI:
  assumes "session_correlated ps s" "\<And>p. p \<in> set ps \<Longrightarrow> pairing_referenced ss p \<Longrightarrow> p \<in> set qs" "s \<in> set ss"
  shows "session_correlated qs s"
proof (cases "ses_audience s")
  case AudienceWeb
  with assms(1) show ?thesis by (simp add: session_correlated_def)
next
  case AudienceTui
  then obtain p where p: "p \<in> set ps" "ses_source_pairing s = Some (par_pairing_id p)"
      "par_status p = PairConsumed" "par_user_id p = Some (ses_user_id s)"
      "par_consumed_at p = Some (ses_created_at s)"
    using assms(1) by (auto simp: session_correlated_def list_ex_iff)
  then have "p \<in> set qs" using assms(2,3) by (auto simp: pairing_referenced_def list_ex_iff)
  with AudienceTui p show ?thesis by (auto simp: session_correlated_def list_ex_iff)
qed

lemma db_ok_update_pairings:
  assumes "db_ok d" "update_pairings P f d = Inr (n, d')"
    and "\<And>p. par_pairing_id (f p) = par_pairing_id p" "\<And>p. par_code_digest (f p) = par_code_digest p"
    and "\<And>p. p \<in> set (db_pairings d) \<Longrightarrow> P p \<Longrightarrow> pairing_check (f p) \<Longrightarrow> valid_pairing (f p)"
  shows "db_ok d'"
proof -
  have d': "d' = d\<lparr>db_pairings := update_where P f (db_pairings d)\<rparr>"
    and chk: "\<forall>p \<in> set (db_pairings d). P p \<longrightarrow> pairing_check (f p) \<and>
      pred_option (user_exists d) (par_user_id (f p)) \<and> pairing_update_allowed (db_sessions d) p (f p)"
    using assms(2) by (auto simp: update_pairings_def list_all_iff split: if_splits)
  have "session_correlated (db_pairings d') s"
    if "s \<in> set (db_sessions d)" "session_correlated (db_pairings d) s" for s
    by (rule correlatedI [OF that(2) _ that(1)])
      (use chk in \<open>auto simp: d' pairing_update_allowed_def intro!: rev_image_eqI\<close>)
  then have "sessions_ok d'" using assms(1) by (auto simp: db_ok_def sessions_ok_def list_all_iff d')
  moreover have "pairings_ok d'"
    using assms(1,3-5) chk by (auto simp: db_ok_def pairings_ok_def list_all_iff d' unique_on_update)
  ultimately show ?thesis using assms(1) by (simp add: db_ok_def d')
qed

lemma db_ok_delete_pairings:
  assumes "db_ok d" "delete_pairings P d = Inr (n, d')"
  shows "db_ok d'"
proof -
  have d': "d' = d\<lparr>db_pairings := delete_where P (db_pairings d)\<rparr>"
    and chk: "\<forall>p \<in> set (db_pairings d). pairing_referenced (db_sessions d) p \<longrightarrow> \<not> P p"
    using assms(2) by (auto simp: delete_pairings_def list_ex_iff split: if_splits)
  have "session_correlated (db_pairings d') s"
    if "s \<in> set (db_sessions d)" "session_correlated (db_pairings d) s" for s
    by (rule correlatedI [OF that(2) _ that(1)]) (use chk in \<open>auto simp: d'\<close>)
  then have "sessions_ok d'" using assms(1) by (auto simp: db_ok_def sessions_ok_def list_all_iff d')
  moreover have "pairings_ok d'"
    using assms(1) by (auto simp: db_ok_def pairings_ok_def list_all_iff d' unique_on_delete)
  ultimately show ?thesis using assms(1) by (simp add: db_ok_def d')
qed

lemma db_ok_delete_sessions:
  "db_ok d \<Longrightarrow> db_ok (d\<lparr>db_sessions := delete_where P (db_sessions d)\<rparr>)"
  by (auto simp: db_ok_def sessions_ok_def list_all_iff unique_on_delete unique_some_delete)

lemma db_ok_insert_class: "db_ok d \<Longrightarrow> valid_class c \<Longrightarrow> insert_class c d = Inr d' \<Longrightarrow> db_ok d'"
  by (auto simp: insert_class_def db_ok_def classes_ok_def mappings_ok_def bindings_ok_def list_all_iff
      class_exists_def user_exists_def split: if_splits)

lemma db_ok_insert_membership:
  "db_ok d \<Longrightarrow> valid_membership m \<Longrightarrow> insert_membership m d = Inr d' \<Longrightarrow> db_ok d'"
  by (auto simp: insert_membership_def db_ok_def classes_ok_def split: if_splits)

section \<open>Statements in a transaction\<close>

lemma insert_user_Inr [statement_simps]:
  "insert_user u d = Inr d' \<longleftrightarrow> \<not> user_exists d (acc_user_id u) \<and> acc_created_at u \<le> acc_updated_at u \<and>
     d' = d\<lparr>db_users := db_users d @ [u]\<rparr>"
  by (auto simp: insert_user_def)

lemma update_users_Inr [statement_simps]:
  "update_users P f d = Inr (n, d') \<longleftrightarrow>
     (\<forall>u \<in> set (db_users d). P u \<longrightarrow> acc_created_at (f u) \<le> acc_updated_at (f u)) \<and>
     n = count_where P (db_users d) \<and> d' = d\<lparr>db_users := update_where P f (db_users d)\<rparr>"
  by (auto simp: update_users_def list_all_iff)

lemma reserve_generation_Inr [statement_simps]:
  "reserve_generation p s t d = Inr d' \<longleftrightarrow> (p, s, t) \<notin> set (db_generations d) \<and>
     d' = d\<lparr>db_generations := db_generations d @ [(p, s, t)]\<rparr>"
  by (auto simp: reserve_generation_def)

lemma insert_identity_Inr [statement_simps]:
  "insert_identity e d = Inr d' \<longleftrightarrow> ext_provider_key e \<notin> ext_provider_key ` set (db_identities d) \<and>
     ext_user_provider e \<notin> ext_user_provider ` set (db_identities d) \<and> user_exists d (ext_user_id e) \<and>
     d' = d\<lparr>db_identities := db_identities d @ [e]\<rparr>"
  by (auto simp: insert_identity_def)

lemma insert_session_Inr [statement_simps]:
  "insert_session s d = Inr d' \<longleftrightarrow> ses_session_id s \<notin> ses_session_id ` set (db_sessions d) \<and>
     ses_token_digest s \<notin> ses_token_digest ` set (db_sessions d) \<and>
     (ses_source_pairing s = None \<or> ses_source_pairing s \<notin> ses_source_pairing ` set (db_sessions d)) \<and>
     session_check s \<and> user_exists d (ses_user_id s) \<and> session_correlated (db_pairings d) s \<and>
     d' = d\<lparr>db_sessions := db_sessions d @ [s]\<rparr>"
  by (auto simp: insert_session_def)

lemma update_sessions_Inr [statement_simps]:
  "update_sessions P seen rvk d = Inr (n, d') \<longleftrightarrow>
     (\<forall>s \<in> set (db_sessions d). P s \<longrightarrow> session_check (set_session_times seen rvk s)) \<and>
     n = count_where P (db_sessions d) \<and>
     d' = d\<lparr>db_sessions := update_where P (set_session_times seen rvk) (db_sessions d)\<rparr>"
  by (auto simp: update_sessions_def list_all_iff)

lemma insert_pairing_Inr [statement_simps]:
  "insert_pairing p d = Inr d' \<longleftrightarrow> par_pairing_id p \<notin> par_pairing_id ` set (db_pairings d) \<and>
     par_code_digest p \<notin> par_code_digest ` set (db_pairings d) \<and> pairing_check p \<and>
     pred_option (user_exists d) (par_user_id p) \<and> d' = d\<lparr>db_pairings := db_pairings d @ [p]\<rparr>"
  by (auto simp: insert_pairing_def)

lemma update_pairings_Inr [statement_simps]:
  "update_pairings P f d = Inr (n, d') \<longleftrightarrow>
     (\<forall>p \<in> set (db_pairings d). P p \<longrightarrow> pairing_check (f p) \<and>
        pred_option (user_exists d) (par_user_id (f p)) \<and>
        pairing_update_allowed (db_sessions d) p (f p)) \<and>
     n = count_where P (db_pairings d) \<and> d' = d\<lparr>db_pairings := update_where P f (db_pairings d)\<rparr>"
  by (auto simp: update_pairings_def list_all_iff)

lemma delete_pairings_Inr [statement_simps]:
  "delete_pairings P d = Inr (n, d') \<longleftrightarrow>
     (\<forall>p \<in> set (db_pairings d). P p \<longrightarrow> \<not> pairing_referenced (db_sessions d) p) \<and>
     n = count_where P (db_pairings d) \<and> d' = d\<lparr>db_pairings := delete_where P (db_pairings d)\<rparr>"
  by (auto simp: delete_pairings_def list_ex_iff)

lemma insert_class_Inr [statement_simps]:
  "insert_class c d = Inr d' \<longleftrightarrow> \<not> class_exists d (cls_class_id c) \<and>
     cls_created_at c \<le> cls_updated_at c \<and> d' = d\<lparr>db_classes := db_classes d @ [c]\<rparr>"
  by (auto simp: insert_class_def)

lemma insert_membership_Inr [statement_simps]:
  "insert_membership m d = Inr d' \<longleftrightarrow> mem_key m \<notin> mem_key ` set (db_memberships d) \<and>
     user_exists d (mem_user_id m) \<and> class_exists d (mem_class_id m) \<and>
     (mem_source_provider m = None) = (mem_source_group m = None) \<and>
     d' = d\<lparr>db_memberships := db_memberships d @ [m]\<rparr>"
  by (auto simp: insert_membership_def)

section \<open>How the database advances\<close>

text \<open>
  A user row is only ever replaced by one with a later \<^verbatim>\<open>updated_at\<close> and the same
  \<^verbatim>\<open>created_at\<close>, never deleted; reserved generations are never released. This is what makes
  \<^verbatim>\<open>updated_at\<close> usable as a compare-and-swap revision.
\<close>

definition users_advance :: "identity_db \<Rightarrow> identity_db \<Rightarrow> bool" where
  "users_advance d d' \<longleftrightarrow>
     (\<forall>u \<in> set (db_users d). \<exists>u' \<in> set (db_users d'). acc_user_id u' = acc_user_id u \<and>
        acc_created_at u' = acc_created_at u \<and> (u' = u \<or> acc_updated_at u < acc_updated_at u'))"

text \<open>
  The same holds of classes; mapping generations and aliases are never released, and a binding
  keeps its subject and its user for ever, while its revision grows.
\<close>

definition class_key :: "class_group \<Rightarrow> string \<times> instant" where
  "class_key c = (cls_class_id c, cls_created_at c)"

definition binding_key :: "subject_binding \<Rightarrow> string \<times> string \<times> instant" where
  "binding_key b = (bnd_subject_id b, bnd_user_id b, bnd_created_at b)"

definition school_advance :: "identity_db \<Rightarrow> identity_db \<Rightarrow> bool" where
  "school_advance d d' \<longleftrightarrow>
     (\<forall>c \<in> set (db_classes d). \<exists>c' \<in> set (db_classes d'). class_key c' = class_key c \<and>
        (c' = c \<or> cls_updated_at c < cls_updated_at c')) \<and>
     (\<forall>b \<in> set (db_bindings d). \<exists>b' \<in> set (db_bindings d'). binding_key b' = binding_key b \<and>
        (b' = b \<or> bnd_revision b < bnd_revision b')) \<and>
     set (db_map_generations d) \<subseteq> set (db_map_generations d') \<and>
     set (db_aliases d) \<subseteq> set (db_aliases d')"

definition db_advance :: "identity_db \<Rightarrow> identity_db \<Rightarrow> bool" where
  "db_advance d d' \<longleftrightarrow>
     (db_ok d \<longrightarrow> db_ok d' \<and> users_advance d d' \<and> school_advance d d' \<and>
       set (db_generations d) \<subseteq> set (db_generations d'))"

lemma users_advance_refl [simp]: "users_advance d d"
  by (auto simp: users_advance_def)

lemma users_advance_trans:
  assumes "users_advance d e" "users_advance e f"
  shows "users_advance d f"
  unfolding users_advance_def
proof
  fix u assume "u \<in> set (db_users d)"
  then obtain v where v: "v \<in> set (db_users e)" "acc_user_id v = acc_user_id u"
      "acc_created_at v = acc_created_at u" "v = u \<or> acc_updated_at u < acc_updated_at v"
    using assms(1) by (auto simp: users_advance_def)
  then obtain w where w: "w \<in> set (db_users f)" "acc_user_id w = acc_user_id v"
      "acc_created_at w = acc_created_at v" "w = v \<or> acc_updated_at v < acc_updated_at w"
    using assms(2) by (auto simp: users_advance_def)
  from v(4) w(4) have "w = u \<or> acc_updated_at u < acc_updated_at w" by (elim disjE) simp_all
  with v w show "\<exists>w \<in> set (db_users f). acc_user_id w = acc_user_id u \<and>
      acc_created_at w = acc_created_at u \<and> (w = u \<or> acc_updated_at u < acc_updated_at w)"
    by auto
qed

lemma school_advance_same [simp]:
  "db_classes d' = db_classes d \<Longrightarrow> db_bindings d' = db_bindings d \<Longrightarrow>
     db_map_generations d' = db_map_generations d \<Longrightarrow> db_aliases d' = db_aliases d \<Longrightarrow> school_advance d d'"
  by (auto simp: school_advance_def)

text \<open>A row evolves when it keeps its key and its stamp grows with any change.\<close>

lemma evolves_trans:
  assumes "\<forall>r \<in> A. \<exists>v \<in> B. key v = key r \<and> (v = r \<or> stamp r < (stamp v :: int))"
    "\<forall>r \<in> B. \<exists>v \<in> C. key v = key r \<and> (v = r \<or> stamp r < stamp v)"
  shows "\<forall>r \<in> A. \<exists>v \<in> C. key v = key r \<and> (v = r \<or> stamp r < stamp v)"
proof
  fix r assume "r \<in> A"
  then obtain v where v: "v \<in> B" "key v = key r" "v = r \<or> stamp r < stamp v" using assms(1) by blast
  then obtain w where w: "w \<in> C" "key w = key v" "w = v \<or> stamp v < stamp w" using assms(2) by blast
  have "w = r \<or> stamp r < stamp w" using v(3) w(3) by (elim disjE) simp_all
  with v(2) w(1,2) show "\<exists>v \<in> C. key v = key r \<and> (v = r \<or> stamp r < stamp v)" by auto
qed

lemma school_advance_trans:
  assumes "school_advance d e" "school_advance e f"
  shows "school_advance d f"
  using assms
    evolves_trans [where key = class_key and stamp = cls_updated_at,
      of "set (db_classes d)" "set (db_classes e)" "set (db_classes f)"]
    evolves_trans [where key = binding_key and stamp = bnd_revision,
      of "set (db_bindings d)" "set (db_bindings e)" "set (db_bindings f)"]
  unfolding school_advance_def by (elim conjE) (intro conjI; blast)

lemma users_advance_same [simp]: "db_users d' = db_users d \<Longrightarrow> users_advance d d'"
  by (auto simp: users_advance_def)

lemma db_advance_refl [simp, intro]: "db_advance d d"
  by (simp add: db_advance_def)

lemma db_advance_trans [trans]: "db_advance d e \<Longrightarrow> db_advance e f \<Longrightarrow> db_advance d f"
  by (auto simp: db_advance_def intro: users_advance_trans school_advance_trans)

lemma db_advance_order [simp]: "reflp db_advance" "transp db_advance"
  by (auto simp: reflp_def transp_def intro: db_advance_trans)

lemma db_advanceI:
  assumes "db_ok d \<Longrightarrow> db_ok d'" "db_users d' = db_users d" "db_generations d' = db_generations d"
    and "school_advance d d'"
  shows "db_advance d d'"
  using assms by (simp add: db_advance_def)

lemma keeps_transaction:
  assumes "reflp R" "\<And>d x d'. body d = Inr (x, d') \<Longrightarrow> R d d'"
  shows "keeps R (transaction body)"
  unfolding keeps_def
proof
  fix d
  show "R d (snd (transaction body d))"
    using assms by (cases "body d") (auto simp: transaction_def reflp_def split: prod.splits)
qed

lemma users_advance_update:
  assumes "\<And>u. acc_user_id (f u) = acc_user_id u" "\<And>u. acc_created_at (f u) = acc_created_at u"
    and "\<And>u. u \<in> set (db_users d) \<Longrightarrow> P u \<Longrightarrow> acc_updated_at u < acc_updated_at (f u)"
  shows "users_advance d (d\<lparr>db_users := update_where P f (db_users d)\<rparr>)"
  unfolding users_advance_def
proof
  fix u assume u: "u \<in> set (db_users d)"
  let ?v = "if P u then f u else u"
  have "?v \<in> set (update_where P f (db_users d))" using u by (simp del: if_image_distrib)
  then show "\<exists>v \<in> set (db_users (d\<lparr>db_users := update_where P f (db_users d)\<rparr>)). acc_user_id v = acc_user_id u \<and>
      acc_created_at v = acc_created_at u \<and> (v = u \<or> acc_updated_at u < acc_updated_at v)"
    using assms u by (intro bexI [of _ ?v]) auto
qed

lemma update_users_advance:
  assumes "update_users P f d = Inr (n, d')"
    and "\<And>u. acc_user_id (f u) = acc_user_id u" "\<And>u. acc_created_at (f u) = acc_created_at u"
    and "\<And>u. db_ok d \<Longrightarrow> u \<in> set (db_users d) \<Longrightarrow> P u \<Longrightarrow> valid_user (f u)"
    and "\<And>u. db_ok d \<Longrightarrow> u \<in> set (db_users d) \<Longrightarrow> P u \<Longrightarrow> acc_updated_at u < acc_updated_at (f u)"
  shows "db_advance d d'"
  unfolding db_advance_def
proof (intro impI conjI)
  assume d: "db_ok d"
  have d': "d' = d\<lparr>db_users := update_where P f (db_users d)\<rparr>"
    using assms(1) by (simp add: statement_simps)
  show "db_ok d'" using db_ok_update_users [OF d assms(1,2)] assms(4) d by blast
  show "users_advance d d'" unfolding d' by (rule users_advance_update) (use assms d in auto)
  show "set (db_generations d) \<subseteq> set (db_generations d')" "school_advance d d'" by (simp_all add: d')
qed

lemma insert_user_advance: "valid_user u \<Longrightarrow> insert_user u d = Inr d' \<Longrightarrow> db_advance d d'"
  using db_ok_insert_user [of d u d'] by (auto simp: db_advance_def users_advance_def statement_simps)

lemma reserve_advance: "reserve_generation p s t d = Inr d' \<Longrightarrow> db_advance d d'"
  using db_ok_reserve [of d p s t d'] by (auto simp: db_advance_def statement_simps)

lemma insert_identity_advance:
  "valid_external e \<Longrightarrow> (ext_provider e, ext_subject e, ext_linked_at e) \<in> set (db_generations d) \<Longrightarrow>
     insert_identity e d = Inr d' \<Longrightarrow> db_advance d d'"
  by (rule db_advanceI) (auto simp: statement_simps intro: db_ok_insert_identity)

lemma insert_session_advance: "valid_session s \<Longrightarrow> insert_session s d = Inr d' \<Longrightarrow> db_advance d d'"
  by (rule db_advanceI) (auto simp: statement_simps intro: db_ok_insert_session)

lemma update_sessions_advance: "update_sessions P seen rvk d = Inr (n, d') \<Longrightarrow> db_advance d d'"
  by (rule db_advanceI) (auto simp: update_sessions_Inr intro: db_ok_update_sessions)

lemma insert_pairing_advance: "valid_pairing p \<Longrightarrow> insert_pairing p d = Inr d' \<Longrightarrow> db_advance d d'"
  by (rule db_advanceI) (auto simp: statement_simps intro: db_ok_insert_pairing)

lemma update_pairings_advance:
  assumes "update_pairings P f d = Inr (n, d')"
    and "\<And>p. par_pairing_id (f p) = par_pairing_id p" "\<And>p. par_code_digest (f p) = par_code_digest p"
    and "\<And>p. db_ok d \<Longrightarrow> p \<in> set (db_pairings d) \<Longrightarrow> P p \<Longrightarrow> pairing_check (f p) \<Longrightarrow> valid_pairing (f p)"
  shows "db_advance d d'"
proof (rule db_advanceI)
  show "db_ok d'" if "db_ok d" using db_ok_update_pairings [OF that assms(1-3)] assms(4) that by blast
qed (use assms(1) in \<open>simp_all add: update_pairings_Inr\<close>)

lemma delete_pairings_advance: "delete_pairings P d = Inr (n, d') \<Longrightarrow> db_advance d d'"
  by (rule db_advanceI) (auto simp: delete_pairings_Inr intro: db_ok_delete_pairings)

lemma insert_class_advance: "valid_class c \<Longrightarrow> insert_class c d = Inr d' \<Longrightarrow> db_advance d d'"
  by (rule db_advanceI) (auto simp: statement_simps school_advance_def intro: db_ok_insert_class)

lemma insert_membership_advance:
  "(db_ok d \<Longrightarrow> valid_membership m) \<Longrightarrow> insert_membership m d = Inr d' \<Longrightarrow> db_advance d d'"
  by (rule db_advanceI) (auto simp: statement_simps intro: db_ok_insert_membership)

lemmas advance_rules = insert_user_advance reserve_advance insert_session_advance
  update_sessions_advance insert_pairing_advance delete_pairings_advance insert_class_advance
  insert_membership_advance

text \<open>
  Without the order of the revisions: what also holds of an operation that may write a user row
  with an arbitrary \<^verbatim>\<open>updated_at\<close>. The account stays, with the same \<^verbatim>\<open>created_at\<close>.
\<close>

definition account_key :: "user_account \<Rightarrow> string \<times> instant" where
  "account_key u = (acc_user_id u, acc_created_at u)"

definition db_growth :: "identity_db \<Rightarrow> identity_db \<Rightarrow> bool" where
  "db_growth d d' \<longleftrightarrow>
     (db_ok d \<longrightarrow> db_ok d' \<and> account_key ` set (db_users d) \<subseteq> account_key ` set (db_users d') \<and>
       school_advance d d' \<and> set (db_generations d) \<subseteq> set (db_generations d'))"

lemma users_advance_keys:
  assumes "users_advance d d'"
  shows "account_key ` set (db_users d) \<subseteq> account_key ` set (db_users d')"
proof (rule image_subsetI)
  fix u assume "u \<in> set (db_users d)"
  with assms obtain v where "v \<in> set (db_users d')" "account_key v = account_key u"
    unfolding users_advance_def account_key_def by force
  then show "account_key u \<in> account_key ` set (db_users d')" by (metis imageI)
qed

lemma advance_growth: "db_advance d d' \<Longrightarrow> db_growth d d'"
  unfolding db_advance_def db_growth_def using users_advance_keys by blast

lemma growth_refl [simp]: "db_growth d d"
  by (simp add: advance_growth)

lemma growth_trans [trans]: "db_growth d e \<Longrightarrow> db_growth e f \<Longrightarrow> db_growth d f"
  unfolding db_growth_def by (meson order_trans school_advance_trans)

lemma keeps_growth: "keeps db_advance m \<Longrightarrow> keeps db_growth m"
  by (auto simp: keeps_def advance_growth)

lemma update_users_growth:
  assumes "update_users P f d = Inr (n, d')"
    and "\<And>u. acc_user_id (f u) = acc_user_id u" "\<And>u. acc_created_at (f u) = acc_created_at u"
    and "\<And>u. db_ok d \<Longrightarrow> u \<in> set (db_users d) \<Longrightarrow> P u \<Longrightarrow> acc_created_at (f u) \<le> acc_updated_at (f u) \<Longrightarrow> valid_user (f u)"
  shows "db_growth d d'"
  unfolding db_growth_def
proof (intro impI conjI)
  assume d: "db_ok d"
  have d': "d' = d\<lparr>db_users := update_where P f (db_users d)\<rparr>"
    and chk: "\<And>u. u \<in> set (db_users d) \<Longrightarrow> P u \<Longrightarrow> acc_created_at (f u) \<le> acc_updated_at (f u)"
    using assms(1) by (auto simp: statement_simps)
  show "db_ok d'" using db_ok_update_users [OF d assms(1,2)] assms(4) chk d by blast
  show "account_key ` set (db_users d) \<subseteq> account_key ` set (db_users d')"
  proof -
    have "account_key (f u) = account_key u" for u by (simp add: account_key_def assms(2,3))
    then show ?thesis by (auto simp: d' update_where_def image_Un image_image)
  qed
  show "set (db_generations d) \<subseteq> set (db_generations d')" "school_advance d d'" by (simp_all add: d')
qed

text \<open>The revision is safe to compare: equal instants mean the very same row.\<close>

lemma revision_safe:
  assumes "users_advance d d'" "db_ok d" "db_ok d'" "u \<in> set (db_users d)" "u' \<in> set (db_users d')"
    "acc_user_id u' = acc_user_id u" "acc_updated_at u' = acc_updated_at u"
  shows "u' = u"
proof -
  obtain v where v: "v \<in> set (db_users d')" "acc_user_id v = acc_user_id u"
      "v = u \<or> acc_updated_at u < acc_updated_at v"
    using assms(1,4) by (auto simp: users_advance_def)
  have "v = u'" using assms(3,5,6) v(1,2) by (auto simp: ok_defs intro: unique_onD)
  with v(3) assms(7) show ?thesis by auto
qed

text \<open>
  Sessions and pairings may be deleted, and a later row may reuse a deleted identifier; a row
  that is there before and after keeps its generation, is never revoked twice or brought back
  to life, and is seen at later instants only. A pairing keeps its generation and only moves
  forward.
\<close>

definition session_follows :: "user_session \<Rightarrow> user_session \<Rightarrow> bool" where
  "session_follows s s' \<longleftrightarrow>
     s' = s\<lparr>ses_last_seen_at := ses_last_seen_at s', ses_revoked_at := ses_revoked_at s'\<rparr> \<and>
     ses_last_seen_at s \<le> ses_last_seen_at s' \<and>
     (ses_revoked_at s \<noteq> None \<longrightarrow> s' = s)"

definition sessions_follow :: "identity_db \<Rightarrow> identity_db \<Rightarrow> bool" where
  "sessions_follow d d' \<longleftrightarrow>
     (db_ok d \<longrightarrow> (\<forall>s \<in> set (db_sessions d). \<forall>s' \<in> set (db_sessions d').
        ses_session_id s' = ses_session_id s \<longrightarrow> session_follows s s'))"

definition pairing_follows :: "tui_pairing \<Rightarrow> tui_pairing \<Rightarrow> bool" where
  "pairing_follows p p' \<longleftrightarrow>
     par_code_digest p' = par_code_digest p \<and> par_created_at p' = par_created_at p \<and>
     par_expires_at p' = par_expires_at p \<and>
     (p' = p \<or> status_rank (par_status p) < status_rank (par_status p'))"

definition pairings_follow :: "identity_db \<Rightarrow> identity_db \<Rightarrow> bool" where
  "pairings_follow d d' \<longleftrightarrow>
     (db_ok d \<longrightarrow> (\<forall>p \<in> set (db_pairings d). \<forall>p' \<in> set (db_pairings d').
        par_pairing_id p' = par_pairing_id p \<longrightarrow> pairing_follows p p'))"

lemma session_follows_refl [simp]: "session_follows s s"
  by (simp add: session_follows_def)

lemma pairing_follows_refl [simp]: "pairing_follows p p"
  by (simp add: pairing_follows_def)

lemma sessions_follow_subset:
  assumes "set (db_sessions d') \<subseteq> set (db_sessions d)"
  shows "sessions_follow d d'"
  using assms by (auto simp: sessions_follow_def ok_defs dest!: subsetD dest: unique_onD)

lemma pairings_follow_subset:
  assumes "set (db_pairings d') \<subseteq> set (db_pairings d)"
  shows "pairings_follow d d'"
  using assms by (auto simp: pairings_follow_def ok_defs dest!: subsetD dest: unique_onD)

lemma follow_same [simp]:
  "db_sessions d' = db_sessions d \<Longrightarrow> sessions_follow d d'"
  "db_pairings d' = db_pairings d \<Longrightarrow> pairings_follow d d'"
  by (simp_all add: sessions_follow_subset pairings_follow_subset)

lemma follow_refl [simp]: "reflp sessions_follow" "reflp pairings_follow"
  by (simp_all add: reflp_def)

lemma sessions_follow_new:
  "db_sessions d' = db_sessions d @ [s] \<Longrightarrow> ses_session_id s \<notin> ses_session_id ` set (db_sessions d) \<Longrightarrow>
     sessions_follow d d'"
  by (auto simp: sessions_follow_def ok_defs dest: unique_onD)

lemma sessions_follow_insert:
  "insert_session s d = Inr d' \<Longrightarrow> sessions_follow d d'"
  by (auto simp: sessions_follow_def ok_defs statement_simps dest: unique_onD)

lemma pairings_follow_insert:
  "insert_pairing p d = Inr d' \<Longrightarrow> pairings_follow d d'"
  by (auto simp: pairings_follow_def ok_defs statement_simps dest: unique_onD)

lemma sessions_follow_update:
  assumes "db_sessions d' = update_where P f (db_sessions d)"
    "\<And>s. s \<in> set (db_sessions d) \<Longrightarrow> P s \<Longrightarrow> session_follows s (f s)"
  shows "sessions_follow d d'"
  unfolding sessions_follow_def
proof (intro impI ballI)
  assume ok: "db_ok d"
  fix s s' assume s: "s \<in> set (db_sessions d)" "s' \<in> set (db_sessions d')"
    and i: "ses_session_id s' = ses_session_id s"
  obtain r where r: "r \<in> set (db_sessions d)" "s' = (if P r then f r else r)"
    using s(2) assms(1) by (auto simp: update_where_def)
  have "session_follows r s'" using r assms(2) by auto
  moreover from this have "ses_session_id s' = ses_session_id r"
    unfolding session_follows_def by (metis user_session.surjective user_session.update_convs(6,7) user_session.select_convs(1))
  ultimately show "session_follows s s'"
    using ok r(1) s(1) i by (auto simp: ok_defs dest: unique_onD)
qed

lemma pairings_follow_update:
  assumes "db_pairings d' = update_where P f (db_pairings d)"
    "\<And>p. p \<in> set (db_pairings d) \<Longrightarrow> P p \<Longrightarrow> par_pairing_id (f p) = par_pairing_id p \<and> pairing_follows p (f p)"
  shows "pairings_follow d d'"
  unfolding pairings_follow_def
proof (intro impI ballI)
  assume ok: "db_ok d"
  fix p p' assume p: "p \<in> set (db_pairings d)" "p' \<in> set (db_pairings d')"
    and i: "par_pairing_id p' = par_pairing_id p"
  obtain r where r: "r \<in> set (db_pairings d)" "p' = (if P r then f r else r)"
    using p(2) assms(1) by (auto simp: update_where_def)
  then have "pairing_follows r p'" "par_pairing_id p' = par_pairing_id r" using assms(2) by auto
  then show "pairing_follows p p'"
    using ok r(1) p(1) i by (auto simp: ok_defs dest: unique_onD)
qed

section \<open>What lookups return in an intact database\<close>

lemma hydrate_lookup:
  assumes "\<And>r. r \<in> set t \<Longrightarrow> h r = Inr r"
  shows "hydrate_optional h (lookup_by key t i) = Inr (lookup_by key t i)"
  using assms by (cases "lookup_by key t i") (auto simp del: lookup_by_None simp: hydrate_optional_def dest: lookup_by_SomeD)

lemma hydrate_all_same: "(\<And>r. r \<in> set t \<Longrightarrow> h r = Inr r) \<Longrightarrow> hydrate_all h t = Inr t"
  by (induction t) simp_all

lemma hydrate_ok:
  assumes "db_ok d"
  shows "u \<in> set (db_users d) \<Longrightarrow> hydrate_user u = Inr u"
    "e \<in> set (db_identities d) \<Longrightarrow> hydrate_identity e = Inr e"
    "s \<in> set (db_sessions d) \<Longrightarrow> hydrate_session s = Inr s"
    "p \<in> set (db_pairings d) \<Longrightarrow> hydrate_pairing p = Inr p"
    "c \<in> set (db_classes d) \<Longrightarrow> hydrate_class c = Inr c"
    "m \<in> set (db_memberships d) \<Longrightarrow> hydrate_membership m = Inr m"
    "n \<in> set (db_mappings d) \<Longrightarrow> hydrate_mapping n = Inr n"
    "b \<in> set (db_bindings d) \<Longrightarrow> hydrate_binding b = Inr b"
    "a \<in> set (db_aliases d) \<Longrightarrow> hydrate_alias a = Inr a"
  using assms
  by (auto simp: ok_defs hydrate_class_def hydrate_user_def hydrate_identity_def hydrate_session_def
      hydrate_pairing_def hydrate_membership_def hydrate_mapping_def hydrate_binding_def hydrate_alias_def
      rebuild_pairing_valid)

end
