(* ===== verification/Store_Users.thy ===== *)
theory Store_Users
  imports Store_Invariant
begin

text \<open>
  The user operations of \<^verbatim>\<open>SQLiteIdentityStorage\<close>: creation, provisioning together with an
  external identity, revision-checked update, the first administrator, and what an
  administrator may do to pending accounts. Every operation is one transaction; its effects
  on sessions and pairings are part of it.
\<close>

section \<open>Operations\<close>

definition lookup_user :: "identity_db \<Rightarrow> string \<Rightarrow> user_account option" where
  "lookup_user d i = lookup_by acc_user_id (db_users d) i"

definition create_user :: "user_account \<Rightarrow> unit db_action" where
  "create_user u = transaction (\<lambda>d. bind_result (insert_user u d) (\<lambda>d1. Inr ((), d1)))"

definition provision_user_with_identity :: "user_account \<Rightarrow> external_identity \<Rightarrow> unit db_action" where
  "provision_user_with_identity u e =
     (if ext_user_id e \<noteq> acc_user_id u then raise_act StorageConflict
      else transaction (\<lambda>d.
        bind_result (insert_user u d) (\<lambda>d1.
        bind_result (reserve_generation (ext_provider e) (ext_subject e) (ext_linked_at e) d1) (\<lambda>d2.
        bind_result (insert_identity e d2) (\<lambda>d3. Inr ((), d3))))))"

definition read_user :: "string \<Rightarrow> user_account option db_action" where
  "read_user i d = (hydrate_optional hydrate_user (lookup_user d i), d)"

text \<open>\<^verbatim>\<open>DELETE FROM tui_pairings WHERE user_id = ? AND status = 'authorized'\<close>\<close>

definition drop_authorized_pairings :: "string \<Rightarrow> identity_db \<Rightarrow> (nat \<times> identity_db) db_result" where
  "drop_authorized_pairings i =
     delete_pairings (\<lambda>p. par_user_id p = Some i \<and> par_status p = PairAuthorized)"

text \<open>The revocation that disabling an account writes into every open session.\<close>

definition disabled_revocation :: "instant \<Rightarrow> user_session \<Rightarrow> instant option" where
  "disabled_revocation t s =
     Some (if ses_last_seen_at s \<le> t \<and> t < ses_expires_at s then t else ses_last_seen_at s)"

text \<open>The columns \<^verbatim>\<open>save_user\<close> sets.\<close>

definition overwrite_account :: "user_account \<Rightarrow> user_account \<Rightarrow> user_account" where
  "overwrite_account u r =
     r\<lparr>acc_display_name := acc_display_name u, acc_role := acc_role u, acc_active := acc_active u,
       acc_updated_at := acc_updated_at u, acc_primary_email := acc_primary_email u\<rparr>"

definition save_user :: "user_account \<Rightarrow> instant \<Rightarrow> unit db_action" where
  "save_user u expected =
     (if acc_updated_at u \<le> expected then raise_act StorageConflict
      else transaction (\<lambda>d.
        bind_result
          (update_users (\<lambda>r. acc_user_id r = acc_user_id u \<and> acc_created_at r = acc_created_at u \<and>
               acc_updated_at r = expected)
             (overwrite_account u) d) (\<lambda>(n, d1).
        if n \<noteq> 1 then
          (if \<not> user_exists d1 (acc_user_id u) then Inl StorageNotFound else Inl StorageConflict)
        else if acc_active u then Inr ((), d1)
        else
          bind_result
            (update_sessions (\<lambda>s. ses_user_id s = acc_user_id u \<and> ses_revoked_at s = None)
               ses_last_seen_at (disabled_revocation (acc_updated_at u)) d1) (\<lambda>(m, d2).
          bind_result (drop_authorized_pairings (acc_user_id u) d2) (\<lambda>(k, d3). Inr ((), d3))))))"

definition list_users :: "user_account list db_action" where
  "list_users d = (hydrate_all hydrate_user (sort_key acc_user_id (db_users d)), d)"

text \<open>
  The sessions the two checks around a role change read: a session that is open after the
  change instant although it was created or last used later, and the sessions the change
  revokes.
\<close>

definition stale_session :: "string \<Rightarrow> instant \<Rightarrow> user_session \<Rightarrow> bool" where
  "stale_session i t s \<longleftrightarrow>
     ses_user_id s = i \<and> ses_revoked_at s = None \<and> t < ses_expires_at s \<and>
     (t < ses_created_at s \<or> t < ses_last_seen_at s)"

definition revocable_session :: "string \<Rightarrow> instant \<Rightarrow> user_session \<Rightarrow> bool" where
  "revocable_session i t s \<longleftrightarrow>
     ses_user_id s = i \<and> ses_revoked_at s = None \<and> ses_created_at s \<le> t \<and> t < ses_expires_at s"

definition has_membership :: "identity_db \<Rightarrow> string \<Rightarrow> bool" where
  "has_membership d i \<longleftrightarrow> list_ex (\<lambda>m. mem_user_id m = i) (db_memberships d)"

text \<open>Reading back the row of the target at the end of a role change.\<close>

definition reread_user :: "identity_db \<Rightarrow> string \<Rightarrow> user_account db_result" where
  "reread_user d i =
     (case lookup_user d i of None \<Rightarrow> Inl StorageCorruption | Some r \<Rightarrow> hydrate_user r)"

definition bootstrap_first_admin ::
  "string \<Rightarrow> instant \<Rightarrow> instant \<Rightarrow> (user_account \<times> nat) db_action" where
  "bootstrap_first_admin target changed expected =
     (if changed \<le> expected then raise_act StorageConflict
      else transaction (\<lambda>d.
        if list_ex (\<lambda>u. acc_role u = RoleAdmin) (db_users d) then Inl StorageConflict
        else case lookup_user d target of
          None \<Rightarrow> Inl StorageNotFound
        | Some row \<Rightarrow>
            if acc_role row \<noteq> RolePending \<or> \<not> acc_active row \<or> acc_updated_at row \<noteq> expected
            then Inl StorageConflict
            else if has_membership d target then Inl StorageConflict
            else if list_ex (stale_session target changed) (db_sessions d) then Inl StorageConflict
            else
              bind_result
                (update_users (\<lambda>r. acc_user_id r = target)
                   (\<lambda>r. r\<lparr>acc_role := RoleAdmin, acc_updated_at := changed\<rparr>) d) (\<lambda>(n, d1).
              bind_result
                (update_sessions (revocable_session target changed) ses_last_seen_at
                   (\<lambda>s. Some changed) d1) (\<lambda>(revoked, d2).
              bind_result (drop_authorized_pairings target d2) (\<lambda>(k, d3).
              bind_result (reread_user d3 target) (\<lambda>u. Inr ((u, revoked), d3)))))))"

definition require_current_admin ::
  "identity_db \<Rightarrow> string \<Rightarrow> instant \<Rightarrow> user_account db_result" where
  "require_current_admin d actor_id expected =
     (case lookup_user d actor_id of
        None \<Rightarrow> Inl StorageNotFound
      | Some row \<Rightarrow>
          bind_result (hydrate_user row) (\<lambda>actor.
            if acc_role actor \<noteq> RoleAdmin \<or> \<not> acc_active actor \<or> acc_updated_at row \<noteq> expected
            then Inl StorageConflict
            else Inr actor))"

definition read_admin_provisioning_snapshot ::
  "string \<Rightarrow> instant \<Rightarrow> int \<Rightarrow> (user_account list \<times> class_group list) db_action" where
  "read_admin_provisioning_snapshot actor_id expected maximum =
     (if \<not> (1 \<le> maximum \<and> maximum \<le> 10000) then raise_act StorageConflict
      else transaction (\<lambda>d.
        bind_result (require_current_admin d actor_id expected) (\<lambda>actor.
        let users = take (nat (maximum + 1))
              (sort_key acc_created_at (sort_key acc_user_id
                 (filter (\<lambda>u. acc_role u = RolePending) (db_users d))));
            classes = take (nat (maximum + 1)) (sort_key cls_class_id (db_classes d))
        in if maximum < int (length users) \<or> maximum < int (length classes) then Inl StorageConflict
           else bind_result (hydrate_all hydrate_user users) (\<lambda>us.
                bind_result (hydrate_all hydrate_class classes) (\<lambda>cs. Inr ((us, cs), d))))))"

definition create_class_as_admin :: "string \<Rightarrow> class_group \<Rightarrow> instant \<Rightarrow> unit db_action" where
  "create_class_as_admin actor_id c expected =
     transaction (\<lambda>d.
       bind_result (require_current_admin d actor_id expected) (\<lambda>actor.
       bind_result (insert_class c d) (\<lambda>d1. Inr ((), d1))))"

definition approved_role :: "string \<Rightarrow> user_role" where
  "approved_role role = (if role = ''student'' then RoleStudent else RoleTeacher)"

text \<open>The membership row of an approved student, and the dataclass the operation returns.\<close>

definition enroll_student ::
  "string \<Rightarrow> string \<Rightarrow> instant \<Rightarrow> identity_db \<Rightarrow> (class_membership option \<times> identity_db) db_result" where
  "enroll_student target class_id changed d =
     bind_result
       (insert_membership \<lparr>mem_user_id = target, mem_class_id = class_id, mem_role = MemberStudent,
          mem_joined_at = changed, mem_source_provider = None, mem_source_group = None\<rparr> d) (\<lambda>d1.
     bind_result
       (map_error (\<lambda>_. InvalidDomainValue)
          (make_class_membership (PyStr target) (PyStr class_id) (PyStr ''student'')
             (utc_datetime changed) PyNone PyNone)) (\<lambda>m. Inr (Some m, d1)))"

definition approve_pending_user_as_admin ::
  "string \<Rightarrow> string \<Rightarrow> string \<Rightarrow> string option \<Rightarrow> instant \<Rightarrow> instant \<Rightarrow> instant \<Rightarrow>
   (user_account \<times> class_membership option \<times> nat) db_action"
where
  "approve_pending_user_as_admin actor_id target role class_id changed expected_actor expected_target =
     (if \<not> List.member [''teacher'', ''student''] role \<or> (role = ''student'') \<noteq> (class_id \<noteq> None)
      then raise_act StorageConflict
      else if changed \<le> expected_target then raise_act StorageConflict
      else transaction (\<lambda>d.
        bind_result (require_current_admin d actor_id expected_actor) (\<lambda>actor.
        case lookup_user d target of
          None \<Rightarrow> Inl StorageNotFound
        | Some row \<Rightarrow>
            if target = actor_id \<or> acc_role row \<noteq> RolePending \<or> \<not> acc_active row \<or>
               acc_updated_at row \<noteq> expected_target then Inl StorageConflict
            else if has_membership d target then Inl StorageConflict
            else if role = ''student'' \<and>
                \<not> list_ex (\<lambda>c. Some (cls_class_id c) = class_id \<and> cls_active c) (db_classes d)
            then Inl StorageConflict
            else if list_ex (stale_session target changed) (db_sessions d) then Inl StorageConflict
            else
              bind_result
                (update_users (\<lambda>r. acc_user_id r = target)
                   (\<lambda>r. r\<lparr>acc_role := approved_role role, acc_updated_at := changed\<rparr>) d) (\<lambda>(n, d1).
              bind_result
                (case class_id of
                   Some c \<Rightarrow> enroll_student target c changed d1
                 | None \<Rightarrow> Inr (None, d1)) (\<lambda>(membership, d2).
              bind_result
                (update_sessions (revocable_session target changed) ses_last_seen_at
                   (\<lambda>s. Some changed) d2) (\<lambda>(revoked, d3).
              bind_result (drop_authorized_pairings target d3) (\<lambda>(k, d4).
              bind_result (reread_user d4 target) (\<lambda>u. Inr ((u, membership, revoked), d4))))))))) "


section \<open>Authorized pairings can always be dropped\<close>

lemma authorized_unreferenced:
  assumes "db_ok d" "p \<in> set (db_pairings d)" "par_status p \<noteq> PairConsumed"
  shows "\<not> pairing_referenced (db_sessions d) p"
proof
  assume "pairing_referenced (db_sessions d) p"
  then obtain s where s: "s \<in> set (db_sessions d)" "ses_source_pairing s = Some (par_pairing_id p)"
    by (auto simp: pairing_referenced_def list_ex_iff)
  then have "session_correlated (db_pairings d) s" using assms(1) by (auto simp: ok_defs)
  then obtain q where q: "q \<in> set (db_pairings d)" "par_pairing_id q = par_pairing_id p"
      "par_status q = PairConsumed"
    using correlated_referenced [OF _ s(1)] s(2) by blast
  then have "q = p" using assms(1,2) by (auto simp: ok_defs intro: unique_onD)
  with q(3) assms(3) show False by simp
qed

lemma drop_authorized_succeeds:
  assumes "db_ok d"
  shows "drop_authorized_pairings i d = Inr
    (count_where (\<lambda>p. par_user_id p = Some i \<and> par_status p = PairAuthorized) (db_pairings d),
     d\<lparr>db_pairings := delete_where (\<lambda>p. par_user_id p = Some i \<and> par_status p = PairAuthorized)
        (db_pairings d)\<rparr>)"
  using assms by (auto simp: drop_authorized_pairings_def statement_simps dest: authorized_unreferenced)

section \<open>Every user operation advances the database\<close>

lemma lookup_userD: "lookup_user d i = Some u \<Longrightarrow> u \<in> set (db_users d) \<and> acc_user_id u = i"
  unfolding lookup_user_def by (rule lookup_by_SomeD)

lemma lookup_user_iff:
  "db_ok d \<Longrightarrow> lookup_user d i = Some u \<longleftrightarrow> u \<in> set (db_users d) \<and> acc_user_id u = i"
  by (simp add: lookup_user_def lookup_by_Some_iff ok_defs)

lemma lookup_user_None: "lookup_user d i = None \<longleftrightarrow> \<not> user_exists d i"
  by (auto simp: lookup_user_def user_exists_def)

lemma create_user_keeps: "valid_user u \<Longrightarrow> keeps db_advance (create_user u)"
  unfolding create_user_def
  by (rule keeps_transaction) (auto simp: result_simps intro: insert_user_advance)

lemma provision_keeps:
  assumes "valid_user u" "valid_external e"
  shows "keeps db_advance (provision_user_with_identity u e)"
proof -
  have "db_advance d d3"
    if "insert_user u d = Inr d1"
      "reserve_generation (ext_provider e) (ext_subject e) (ext_linked_at e) d1 = Inr d2"
      "insert_identity e d2 = Inr d3" for d d1 d2 d3
  proof -
    have "db_advance d d1" using assms(1) that(1) by (rule insert_user_advance)
    also have "db_advance d1 d2" using that(2) by (rule reserve_advance)
    also have "db_advance d2 d3"
      using assms(2) _ that(3) by (rule insert_identity_advance) (use that(2) in \<open>simp add: statement_simps\<close>)
    finally show ?thesis .
  qed
  then show ?thesis
    unfolding provision_user_with_identity_def
    by (auto intro!: keeps_if keeps_transaction keeps_pure simp: result_simps)
qed

lemma overwrite_account_simps [simp]:
  "acc_user_id (overwrite_account u r) = acc_user_id r"
  "acc_created_at (overwrite_account u r) = acc_created_at r"
  "acc_updated_at (overwrite_account u r) = acc_updated_at u"
  by (simp_all add: overwrite_account_def)

lemma overwrite_account_same:
  "acc_user_id r = acc_user_id u \<Longrightarrow> acc_created_at r = acc_created_at u \<Longrightarrow> overwrite_account u r = u"
  by (cases r; cases u) (simp add: overwrite_account_def)

lemma revoke_and_drop_advance:
  assumes "db_advance d d1" "update_sessions P seen rvk d1 = Inr (n, d2)" "delete_pairings Q d2 = Inr (m, d3)"
  shows "db_advance d d3"
  by (rule db_advance_trans [OF db_advance_trans [OF assms(1) update_sessions_advance [OF assms(2)]]
        delete_pairings_advance [OF assms(3)]])

lemma save_user_keeps:
  assumes "valid_user u"
  shows "keeps db_advance (save_user u expected)"
proof (cases "acc_updated_at u \<le> expected")
  case True
  then show ?thesis by (simp add: save_user_def keeps_pure)
next
  case False
  let ?P = "\<lambda>r. acc_user_id r = acc_user_id u \<and> acc_created_at r = acc_created_at u \<and>
               acc_updated_at r = expected"
  have first: "db_advance d d1" if "update_users ?P (overwrite_account u) d = Inr (n, d1)" for d n d1
    by (rule update_users_advance [OF that]) (use assms False overwrite_account_same in auto)
  show ?thesis
    unfolding save_user_def if_not_P [OF False]
  proof (rule keeps_transaction, simp, goal_cases)
    case (1 d x d')
    then show ?case
      by (auto simp: result_simps drop_authorized_pairings_def split: if_splits
          intro: first revoke_and_drop_advance [OF first])
  qed
qed

text \<open>A role change of an account whose stored revision is older than the new one.\<close>

lemma role_change_advance:
  assumes "update_users (\<lambda>r. acc_user_id r = i) (\<lambda>r. r\<lparr>acc_role := ro, acc_updated_at := t\<rparr>) d = Inr (n, d')"
    "lookup_user d i = Some row" "acc_updated_at row < t" "representable t"
  shows "db_advance d d'"
proof (rule update_users_advance [OF assms(1)])
  fix u assume d: "db_ok d" and u: "u \<in> set (db_users d)" "acc_user_id u = i"
  then have [simp]: "u = row" using assms(2) d by (auto simp: ok_defs lookup_user_iff intro: unique_onD)
  show "acc_updated_at u < acc_updated_at (u\<lparr>acc_role := ro, acc_updated_at := t\<rparr>)"
    using assms(3) by simp
  have "valid_user row" using d u by (auto simp: ok_defs)
  with assms(3,4) show "valid_user (u\<lparr>acc_role := ro, acc_updated_at := t\<rparr>)"
    by (auto simp: valid_user_def)
qed simp_all

lemma enroll_advance:
  assumes "enroll_student target c t d = Inr (m, d')" "representable t"
  shows "db_advance d d'"
  using assms
  by (auto simp: enroll_student_def result_simps intro!: insert_membership_advance)
    (auto simp: valid_membership_def statement_simps ok_defs user_exists_def class_exists_def
      valid_user_def valid_class_def optional_clean_lower_def optional_clean_def)

lemma bootstrap_keeps:
  assumes "representable t"
  shows "keeps db_advance (bootstrap_first_admin target t expected)"
proof (cases "t \<le> expected")
  case True
  then show ?thesis by (simp add: bootstrap_first_admin_def keeps_pure)
next
  case False
  show ?thesis
    unfolding bootstrap_first_admin_def if_not_P [OF False]
  proof (rule keeps_transaction, simp, goal_cases)
    case (1 d x d')
    then show ?case
      using False assms
      by (auto simp: result_simps drop_authorized_pairings_def not_le split: if_splits option.splits
          intro: revoke_and_drop_advance [OF role_change_advance])
  qed
qed

lemma require_current_admin_Inr:
  "db_ok d \<Longrightarrow> require_current_admin d i expected = Inr a \<longleftrightarrow>
     lookup_user d i = Some a \<and> acc_role a = RoleAdmin \<and> acc_active a \<and> acc_updated_at a = expected"
proof (cases "lookup_user d i")
  case (Some u)
  moreover assume "db_ok d"
  ultimately have "hydrate_user u = Inr u" by (auto simp: hydrate_ok dest: lookup_userD)
  with Some show ?thesis by (auto simp: require_current_admin_def)
qed (simp add: require_current_admin_def)

lemma snapshot_keeps: "keeps db_advance (read_admin_provisioning_snapshot i expected maximum)"
  unfolding read_admin_provisioning_snapshot_def
  by (auto intro!: keeps_if keeps_transaction keeps_pure simp: result_simps Let_def split: if_splits)

lemma create_class_keeps:
  "valid_class c \<Longrightarrow> keeps db_advance (create_class_as_admin i c expected)"
  unfolding create_class_as_admin_def
  by (auto intro!: keeps_transaction intro: insert_class_advance simp: result_simps)

lemma approve_keeps:
  assumes "representable t"
  shows "keeps db_advance (approve_pending_user_as_admin i target role c t ea et)"
proof (cases "t \<le> et")
  case True
  then show ?thesis by (simp add: approve_pending_user_as_admin_def keeps_pure keeps_if)
next
  case False
  have "db_advance d d4"
    if "lookup_user d target = Some row" "acc_updated_at row = et"
      "update_users (\<lambda>r. acc_user_id r = target) (\<lambda>r. r\<lparr>acc_role := ro, acc_updated_at := t\<rparr>) d = Inr (n, d1)"
      "(case c of Some k \<Rightarrow> enroll_student target k t d1 | None \<Rightarrow> Inr (None, d1)) = Inr (m, d2)"
      "update_sessions P seen rvk d2 = Inr (k, d3)"
      "drop_authorized_pairings target d3 = Inr (l, d4)"
    for d d1 d2 d3 d4 row n m k l P seen rvk ro
  proof -
    have "db_advance d d1" using that(1-3) False assms by (auto intro: role_change_advance)
    also have "db_advance d1 d2" using that(4) assms by (auto split: option.splits intro: enroll_advance)
    also have "db_advance d2 d3" using that(5) by (rule update_sessions_advance)
    also have "db_advance d3 d4"
      using that(6) unfolding drop_authorized_pairings_def by (rule delete_pairings_advance)
    finally show ?thesis .
  qed
  note chain = this
  show ?thesis
    unfolding approve_pending_user_as_admin_def if_not_P [OF False]
  proof (intro keeps_if keeps_transaction keeps_pure db_advance_order, goal_cases)
    case (1 d x d')
    then show ?case
      by (cases "lookup_user d target")
        (auto simp: result_simps split: if_splits intro: chain)
  qed
qed

section \<open>What the operations do\<close>

lemma lookup_user_update:
  assumes "\<And>u. acc_user_id (f u) = acc_user_id u"
  shows "lookup_user (d\<lparr>db_users := update_where P f (db_users d)\<rparr>) i =
    map_option (\<lambda>u. if P u then f u else u) (lookup_user d i)"
  by (simp add: lookup_user_def lookup_by_update assms)

lemma lookup_user_frames [simp]:
  "lookup_user (d\<lparr>db_sessions := s\<rparr>) = lookup_user d" "lookup_user (d\<lparr>db_pairings := p\<rparr>) = lookup_user d"
  "lookup_user (d\<lparr>db_memberships := m\<rparr>) = lookup_user d" "lookup_user (d\<lparr>db_classes := c\<rparr>) = lookup_user d"
  "lookup_user (d\<lparr>db_identities := x\<rparr>) = lookup_user d" "lookup_user (d\<lparr>db_generations := g\<rparr>) = lookup_user d"
  by (simp_all add: lookup_user_def fun_eq_iff)

lemma disabled_revocation_check:
  assumes "valid_session s"
  shows "session_check (set_session_times ses_last_seen_at (disabled_revocation t) s)"
  using assms by (auto simp: session_check_def disabled_revocation_def valid_session_def)

lemma current_revocation_check:
  assumes "valid_session s" "revocable_session i t s" "\<not> stale_session i t s"
  shows "session_check (set_session_times ses_last_seen_at (\<lambda>s. Some t) s)"
  using assms
  by (auto simp: session_check_def valid_session_def revocable_session_def stale_session_def)

text \<open>What remains of a user's access: an open session or an authorized pairing.\<close>

definition open_session :: "instant \<Rightarrow> user_session \<Rightarrow> bool" where
  "open_session t s \<longleftrightarrow> ses_revoked_at s = None \<and> t < ses_expires_at s"

definition has_access :: "identity_db \<Rightarrow> string \<Rightarrow> instant \<Rightarrow> bool" where
  "has_access d i t \<longleftrightarrow>
     list_ex (\<lambda>s. ses_user_id s = i \<and> open_session t s) (db_sessions d) \<or>
     list_ex (\<lambda>p. par_user_id p = Some i \<and> par_status p = PairAuthorized) (db_pairings d)"

text \<open>C25. Disabling an account in an intact database never fails on a constraint: given the current
  revision, the row becomes the new account, every session of the user is revoked whatever its
  expiry, no authorized pairing of the user survives, and the sessions of other users stay.\<close>

theorem disable_closes_access:
  assumes "db_ok d" "valid_user u" "\<not> acc_active u"
    and "lookup_user d (acc_user_id u) = Some r" "acc_created_at r = acc_created_at u"
    and "acc_updated_at r < acc_updated_at u"
  shows "\<exists>d'. save_user u (acc_updated_at r) d = (Inr (), d') \<and>
    lookup_user d' (acc_user_id u) = Some u \<and>
    (\<forall>t. \<not> has_access d' (acc_user_id u) t) \<and>
    filter (\<lambda>s. ses_user_id s \<noteq> acc_user_id u) (db_sessions d') =
      filter (\<lambda>s. ses_user_id s \<noteq> acc_user_id u) (db_sessions d)"
proof -
  let ?i = "acc_user_id u" and ?t = "acc_updated_at u"
  let ?P = "\<lambda>q. acc_user_id q = ?i \<and> acc_created_at q = acc_created_at u \<and> acc_updated_at q = acc_updated_at r"
  let ?S = "\<lambda>s. ses_user_id s = ?i \<and> ses_revoked_at s = None"
  let ?d1 = "d\<lparr>db_users := update_where ?P (overwrite_account u) (db_users d)\<rparr>"
  let ?d2 = "?d1\<lparr>db_sessions := update_where ?S
    (set_session_times ses_last_seen_at (disabled_revocation ?t)) (db_sessions d)\<rparr>"
  let ?d3 = "?d2\<lparr>db_pairings := delete_where
    (\<lambda>p. par_user_id p = Some ?i \<and> par_status p = PairAuthorized) (db_pairings d)\<rparr>"
  have r: "r \<in> set (db_users d)" "acc_user_id r = ?i" using assms(4) by (auto dest: lookup_userD)
  have "count_where ?P (db_users d) = 1"
    using assms(1,5) r by (subst count_where_le_1 [where key = acc_user_id and k = ?i]) (auto simp: ok_defs)
  moreover have "acc_created_at u \<le> acc_updated_at u" using assms(2) by (simp add: valid_user_def)
  ultimately have s1: "update_users ?P (overwrite_account u) d = Inr (1, ?d1)"
    by (simp add: update_users_Inr)
  have ok1: "db_ok ?d1"
    using db_ok_update_users [OF assms(1) s1] assms(2) overwrite_account_same by simp
  have s2: "update_sessions ?S ses_last_seen_at (disabled_revocation ?t) ?d1 =
      Inr (count_where ?S (db_sessions d), ?d2)"
    using assms(1) by (auto simp: update_sessions_Inr ok_defs intro: disabled_revocation_check)
  have "drop_authorized_pairings ?i ?d2 = Inr (count_where
      (\<lambda>p. par_user_id p = Some ?i \<and> par_status p = PairAuthorized) (db_pairings d), ?d3)"
    using drop_authorized_succeeds [OF db_ok_update_sessions [OF ok1 s2], of ?i] by simp
  with s1 s2 assms(3,6) have "save_user u (acc_updated_at r) d = (Inr (), ?d3)"
    by (simp add: save_user_def transaction_def)
  moreover have "lookup_user ?d3 ?i = Some u"
    using assms(4,5) r by (simp add: lookup_user_update overwrite_account_same)
  moreover have "\<not> has_access ?d3 ?i t" for t
    by (auto simp: has_access_def open_session_def list_ex_iff disabled_revocation_def)
  moreover have "filter (\<lambda>s. ses_user_id s \<noteq> ?i) (db_sessions ?d3) =
      filter (\<lambda>s. ses_user_id s \<noteq> ?i) (db_sessions d)"
    by (simp, rule filter_update_where) simp
  ultimately show ?thesis by blast
qed

text \<open>
  Both role changes end in the same way: no session that was open at the change instant stays
  open, no authorized pairing of the account is left, and the row read back is the new one.
\<close>

lemma role_change_ends_access:
  assumes "db_ok d" "\<not> list_ex (stale_session i t) (db_sessions d)"
    and "update_sessions (revocable_session i t) ses_last_seen_at (\<lambda>s. Some t) d = Inr (n, d1)"
    and "drop_authorized_pairings i d1 = Inr (k, d2)"
  shows "\<not> has_access d2 i t" "db_ok d2"
    "n = count_where (\<lambda>s. ses_user_id s = i \<and> open_session t s) (db_sessions d)"
    "db_users d2 = db_users d" "db_memberships d2 = db_memberships d"
proof -
  have same: "revocable_session i t s \<longleftrightarrow> ses_user_id s = i \<and> open_session t s"
    if "s \<in> set (db_sessions d)" for s
    using that assms(2) by (auto simp: revocable_session_def stale_session_def open_session_def list_ex_iff)
  have d1: "n = count_where (revocable_session i t) (db_sessions d)"
      "d1 = d\<lparr>db_sessions := update_where (revocable_session i t)
        (set_session_times ses_last_seen_at (\<lambda>s. Some t)) (db_sessions d)\<rparr>"
    using assms(3) by (simp_all add: update_sessions_Inr)
  have d2: "d2 = d1\<lparr>db_pairings := delete_where
      (\<lambda>p. par_user_id p = Some i \<and> par_status p = PairAuthorized) (db_pairings d1)\<rparr>"
    using assms(4) by (simp add: drop_authorized_pairings_def delete_pairings_Inr)
  show "n = count_where (\<lambda>s. ses_user_id s = i \<and> open_session t s) (db_sessions d)"
    unfolding d1(1) count_where_def by (intro arg_cong [where f = length] filter_cong) (simp_all add: same)
  show "\<not> has_access d2 i t"
  proof
    assume "has_access d2 i t"
    then obtain s where s: "s \<in> set (db_sessions d1)" "ses_user_id s = i" "open_session t s"
      by (auto simp: has_access_def list_ex_iff d2)
    then obtain r where r: "r \<in> set (db_sessions d)"
        "s = (if revocable_session i t r then set_session_times ses_last_seen_at (\<lambda>s. Some t) r else r)"
      by (auto simp: d1(2) update_where_def)
    with s(2,3) same [OF r(1)] show False
      by (cases "revocable_session i t r") (auto simp: open_session_def)
  qed
  have "db_ok d1" using assms(1,3) by (rule db_ok_update_sessions)
  then show "db_ok d2" using assms(4) unfolding drop_authorized_pairings_def by (rule db_ok_delete_pairings)
  show "db_users d2 = db_users d" "db_memberships d2 = db_memberships d" by (simp_all add: d2 d1(2))
qed

lemma promoted_row:
  assumes "lookup_user d i = Some row" "db_users d' = update_where (\<lambda>r. acc_user_id r = i) f (db_users d)"
    "\<And>r. acc_user_id (f r) = acc_user_id r"
  shows "lookup_user d' i = Some (f row)"
  using assms lookup_user_update [where f = f and d = d and P = "\<lambda>r. acc_user_id r = i" and i = i]
  by (auto simp: lookup_user_def dest: lookup_by_SomeD)

lemma reread_user_Inr:
  "db_ok d \<Longrightarrow> lookup_user d i = Some u \<Longrightarrow> reread_user d i = Inr v \<longleftrightarrow> v = u"
  by (auto simp: reread_user_def hydrate_ok dest: lookup_userD)

text \<open>The first administrator is made once: a successful bootstrap found no administrator and a
  pending active target at the expected revision, leaves exactly that account as administrator
  with none of its earlier access, reports how many sessions it closed, and every later
  bootstrap of any target is refused without a change.\<close>

theorem bootstrap_happens_once:
  assumes "db_ok d" "representable t" "bootstrap_first_admin target t expected d = (Inr (u, n), d')"
  shows "(\<exists>row. lookup_user d target = Some row \<and> acc_role row = RolePending \<and> acc_active row \<and>
      acc_updated_at row = expected \<and> u = row\<lparr>acc_role := RoleAdmin, acc_updated_at := t\<rparr>) \<and>
    {a \<in> set (db_users d'). acc_role a = RoleAdmin} = {u} \<and>
    \<not> has_access d' target t \<and>
    n = count_where (\<lambda>s. ses_user_id s = target \<and> open_session t s) (db_sessions d) \<and>
    bootstrap_first_admin other t' expected' d' = (Inl StorageConflict, d')"
proof (intro conjI)
  from assms(3) obtain row d1 d2 k m where
    less: "expected < t" and none: "\<not> list_ex (\<lambda>u. acc_role u = RoleAdmin) (db_users d)"
    and row: "lookup_user d target = Some row" "acc_role row = RolePending" "acc_active row"
      "acc_updated_at row = expected"
    and stale: "\<not> list_ex (stale_session target t) (db_sessions d)"
    and s1: "update_users (\<lambda>r. acc_user_id r = target) (\<lambda>r. r\<lparr>acc_role := RoleAdmin, acc_updated_at := t\<rparr>) d
      = Inr (m, d1)"
    and s2: "update_sessions (revocable_session target t) ses_last_seen_at (\<lambda>s. Some t) d1 = Inr (n, d2)"
    and s3: "drop_authorized_pairings target d2 = Inr (k, d')"
    and reread: "reread_user d' target = Inr u"
    by (auto simp: bootstrap_first_admin_def action_simps result_simps not_le
        split: if_splits option.splits)
  have d1: "d1 = d\<lparr>db_users := update_where (\<lambda>r. acc_user_id r = target)
      (\<lambda>r. r\<lparr>acc_role := RoleAdmin, acc_updated_at := t\<rparr>) (db_users d)\<rparr>"
    using s1 by (simp add: update_users_Inr)
  have ok1: "db_ok d1"
    using role_change_advance [OF s1 row(1)] row(4) less assms(1,2) by (simp add: db_advance_def)
  have stale1: "\<not> list_ex (stale_session target t) (db_sessions d1)" using stale by (simp add: d1)
  note ends = role_change_ends_access [OF ok1 stale1 s2 s3]
  let ?v = "row\<lparr>acc_role := RoleAdmin, acc_updated_at := t\<rparr>"
  have now: "lookup_user d' target = Some ?v"
    by (rule promoted_row [OF row(1)]) (simp_all add: ends(4) d1)
  have u: "u = ?v" using reread_user_Inr [OF ends(2) now] reread by simp
  then show "\<exists>row. lookup_user d target = Some row \<and> acc_role row = RolePending \<and> acc_active row \<and>
      acc_updated_at row = expected \<and> u = row\<lparr>acc_role := RoleAdmin, acc_updated_at := t\<rparr>"
    using row by blast
  show admins: "{a \<in> set (db_users d'). acc_role a = RoleAdmin} = {u}"
  proof (rule set_eqI)
    fix a
    have "acc_user_id a = target" if "a \<in> set (db_users d')" "acc_role a = RoleAdmin"
      using none that by (auto simp: ends(4) d1 list_ex_iff)
    then have "lookup_user d' target = Some a" if "a \<in> set (db_users d')" "acc_role a = RoleAdmin"
      using that by (simp add: lookup_user_iff [OF ends(2)])
    moreover have "u \<in> set (db_users d')" "acc_role u = RoleAdmin"
      using now u by (auto dest: lookup_userD)
    ultimately show "a \<in> {a \<in> set (db_users d'). acc_role a = RoleAdmin} \<longleftrightarrow> a \<in> {u}"
      using now u by auto
  qed
  show "\<not> has_access d' target t" by (rule ends(1))
  show "n = count_where (\<lambda>s. ses_user_id s = target \<and> open_session t s) (db_sessions d)"
    using ends(3) by (simp add: d1)
  have "list_ex (\<lambda>u. acc_role u = RoleAdmin) (db_users d')"
    using admins by (auto simp: list_ex_iff)
  then show "bootstrap_first_admin other t' expected' d' = (Inl StorageConflict, d')"
    by (simp add: bootstrap_first_admin_def transaction_def raise_act_def)
qed

text \<open>An approval happens only on the authority of the current administrator row and only to a
  pending active account without memberships; it gives the account the chosen role at the new
  revision, enrols a student (and nobody else) in the named active class, and ends every
  access the account had as a pending user.\<close>

theorem approval_effect:
  assumes "db_ok d" "representable t"
    and "approve_pending_user_as_admin actor_id target role class_id t ea et d = (Inr (u, m, n), d')"
  shows "(\<exists>a. lookup_user d actor_id = Some a \<and> acc_role a = RoleAdmin \<and> acc_active a \<and> acc_updated_at a = ea) \<and>
    target \<noteq> actor_id \<and>
    (\<exists>row. lookup_user d target = Some row \<and> acc_role row = RolePending \<and> acc_active row \<and>
      acc_updated_at row = et \<and> u = row\<lparr>acc_role := approved_role role, acc_updated_at := t\<rparr>) \<and>
    lookup_user d' target = Some u \<and>
    filter (\<lambda>k. mem_user_id k = target) (db_memberships d') =
      (if role = ''student'' then [\<lparr>mem_user_id = target, mem_class_id = the class_id,
         mem_role = MemberStudent, mem_joined_at = t, mem_source_provider = None, mem_source_group = None\<rparr>]
       else []) \<and>
    (role = ''student'' \<longrightarrow> list_ex (\<lambda>c. Some (cls_class_id c) = class_id \<and> cls_active c) (db_classes d)) \<and>
    \<not> has_access d' target t"
proof (intro conjI)
  from assms(3) have role: "List.member [''teacher'', ''student''] role" "(role = ''student'') = (class_id \<noteq> None)"
    and less: "et < t"
    by (simp_all add: approve_pending_user_as_admin_def not_le split: if_splits)
  obtain row where row: "lookup_user d target = Some row"
  proof (cases "lookup_user d target")
    case None
    then have False
      using assms(3)
      by (auto simp: approve_pending_user_as_admin_def action_simps result_simps split: if_splits)
    then show ?thesis ..
  qed (rule that)
  from assms(3) obtain a d1 d2 d3 k i m' where a: "require_current_admin d actor_id ea = Inr a" and
    target: "target \<noteq> actor_id" "acc_role row = RolePending" "acc_active row" "acc_updated_at row = et"
    and fresh: "\<not> has_membership d target" and stale: "\<not> list_ex (stale_session target t) (db_sessions d)"
    and cls: "class_id = None \<or> list_ex (\<lambda>c. Some (cls_class_id c) = class_id \<and> cls_active c) (db_classes d)"
    and s1: "update_users (\<lambda>r. acc_user_id r = target)
      (\<lambda>r. r\<lparr>acc_role := approved_role role, acc_updated_at := t\<rparr>) d = Inr (i, d1)"
    and s2: "(case class_id of Some c \<Rightarrow> enroll_student target c t d1 | None \<Rightarrow> Inr (None, d1)) = Inr (m', d2)"
    and m: "m' = m"
    and s3: "update_sessions (revocable_session target t) ses_last_seen_at (\<lambda>s. Some t) d2 = Inr (n, d3)"
    and s4: "drop_authorized_pairings target d3 = Inr (k, d')"
    and reread: "reread_user d' target = Inr u"
    using role less row
    by (simp add: approve_pending_user_as_admin_def action_simps result_simps split: if_split_asm)
      (elim exE conjE, rule that, assumption+)
  have d1: "d1 = d\<lparr>db_users := update_where (\<lambda>r. acc_user_id r = target)
      (\<lambda>r. r\<lparr>acc_role := approved_role role, acc_updated_at := t\<rparr>) (db_users d)\<rparr>"
    using s1 by (simp add: update_users_Inr)
  have d2: "db_users d2 = db_users d1" "db_sessions d2 = db_sessions d"
      "db_memberships d2 = db_memberships d @ (case class_id of None \<Rightarrow> [] | Some c \<Rightarrow>
         [\<lparr>mem_user_id = target, mem_class_id = c, mem_role = MemberStudent, mem_joined_at = t,
           mem_source_provider = None, mem_source_group = None\<rparr>])"
    using s2 by (auto simp: enroll_student_def result_simps statement_simps d1 split: option.splits)
  have "db_advance d d1" using role_change_advance [OF s1 row] target(4) less assms(2) by simp
  also have "db_advance d1 d2" using s2 assms(2) by (auto split: option.splits intro: enroll_advance)
  finally have ok2: "db_ok d2" using assms(1) by (simp add: db_advance_def)
  have stale2: "\<not> list_ex (stale_session target t) (db_sessions d2)" using stale by (simp add: d2)
  note ends = role_change_ends_access [OF ok2 stale2 s3 s4]
  let ?v = "row\<lparr>acc_role := approved_role role, acc_updated_at := t\<rparr>"
  have now: "lookup_user d' target = Some ?v"
    by (rule promoted_row [OF row]) (simp_all add: ends(4) d2(1) d1)
  have u: "u = ?v" using reread_user_Inr [OF ends(2) now] reread by simp
  show "\<exists>a. lookup_user d actor_id = Some a \<and> acc_role a = RoleAdmin \<and> acc_active a \<and> acc_updated_at a = ea"
    using a require_current_admin_Inr [OF assms(1)] by blast
  show "\<exists>row. lookup_user d target = Some row \<and> acc_role row = RolePending \<and> acc_active row \<and>
      acc_updated_at row = et \<and> u = row\<lparr>acc_role := approved_role role, acc_updated_at := t\<rparr>"
    using row target u by blast
  show "lookup_user d' target = Some u" using now u by simp
  have "filter (\<lambda>k. mem_user_id k = target) (db_memberships d) = []"
    using fresh by (auto simp: has_membership_def list_ex_iff filter_empty_conv)
  then show "filter (\<lambda>k. mem_user_id k = target) (db_memberships d') =
      (if role = ''student'' then [\<lparr>mem_user_id = target, mem_class_id = the class_id,
         mem_role = MemberStudent, mem_joined_at = t, mem_source_provider = None, mem_source_group = None\<rparr>]
       else [])"
    using role(2) by (auto simp: ends(5) d2(3))
  show "target \<noteq> actor_id" by (rule target(1))
  show "role = ''student'' \<longrightarrow> list_ex (\<lambda>c. Some (cls_class_id c) = class_id \<and> cls_active c) (db_classes d)"
    using cls role(2) by auto
  show "\<not> has_access d' target t" by (rule ends(1))
qed

end
