(* ===== verification/Store_Links.thy ===== *)
theory Store_Links
  imports Store_Users
begin

text \<open>
  The external identity links of \<^verbatim>\<open>SQLiteIdentityStorage\<close>: linking, refreshing and unlinking,
  each in a plain form, a form bound to the revision of an active user, and a form bound to a
  live session as well. A link reserves its generation \<^verbatim>\<open>(provider, subject, linked_at)\<close> for
  good, so a stale \<^verbatim>\<open>linked_at\<close> can never match a later link.
\<close>

section \<open>Conditions and statements\<close>

text \<open>The \<^verbatim>\<open>expected_session_*\<close> arguments: which session, which generation of it, valid when.\<close>

record session_expectation =
  exp_session_id :: string
  exp_token_digest :: string
  exp_created_at :: instant
  exp_expires_at :: instant
  exp_audience :: session_audience
  exp_source_pairing :: "string option"
  exp_valid_at :: instant

definition user_at_revision :: "identity_db \<Rightarrow> string \<Rightarrow> instant \<Rightarrow> bool" where
  "user_at_revision d i revision \<longleftrightarrow>
     list_ex (\<lambda>u. acc_user_id u = i \<and> acc_active u \<and> acc_updated_at u = revision) (db_users d)"

definition session_backs :: "identity_db \<Rightarrow> session_expectation \<Rightarrow> string \<Rightarrow> instant \<Rightarrow> bool" where
  "session_backs d x i t \<longleftrightarrow>
     list_ex (\<lambda>s. ses_session_id s = exp_session_id x \<and> ses_token_digest s = exp_token_digest x \<and>
       ses_created_at s = exp_created_at x \<and> ses_expires_at s = exp_expires_at x \<and>
       ses_audience s = exp_audience x \<and> ses_source_pairing s = exp_source_pairing x \<and>
       ses_user_id s = i \<and> ses_revoked_at s = None \<and> ses_created_at s \<le> t \<and>
       ses_last_seen_at s \<le> t \<and> t < ses_expires_at s) (db_sessions d)"

definition link_key :: "string \<Rightarrow> string \<Rightarrow> external_identity \<Rightarrow> bool" where
  "link_key provider subject r \<longleftrightarrow> ext_provider r = provider \<and> ext_subject r = subject"

definition link_exists :: "identity_db \<Rightarrow> string \<Rightarrow> string \<Rightarrow> bool" where
  "link_exists d provider subject \<longleftrightarrow> list_ex (link_key provider subject) (db_identities d)"

text \<open>\<^verbatim>\<open>UPDATE external_identities SET email, username\<close>: no constraint is on these columns.\<close>

definition update_identities ::
  "(external_identity \<Rightarrow> bool) \<Rightarrow> external_identity \<Rightarrow> identity_db \<Rightarrow> nat \<times> identity_db" where
  "update_identities P e d =
     (count_where P (db_identities d),
      d\<lparr>db_identities := update_where P
         (\<lambda>r. r\<lparr>ext_email := ext_email e, ext_username := ext_username e\<rparr>) (db_identities d)\<rparr>)"

definition delete_identities ::
  "(external_identity \<Rightarrow> bool) \<Rightarrow> identity_db \<Rightarrow> nat \<times> identity_db" where
  "delete_identities P d =
     (count_where P (db_identities d), d\<lparr>db_identities := delete_where P (db_identities d)\<rparr>)"

text \<open>The memberships a GitHub team gave a student go with the GitHub identity.\<close>

definition drop_github_memberships :: "string \<Rightarrow> identity_db \<Rightarrow> identity_db" where
  "drop_github_memberships i d =
     d\<lparr>db_memberships := delete_where (\<lambda>m. mem_user_id m = i \<and> mem_role m = MemberStudent \<and>
        mem_source_provider m = Some ''github'') (db_memberships d)\<rparr>"

lemma condition_frames [simp]:
  "user_at_revision (d\<lparr>db_generations := g\<rparr>) = user_at_revision d"
  "session_backs (d\<lparr>db_generations := g\<rparr>) = session_backs d"
  by (simp_all add: user_at_revision_def session_backs_def fun_eq_iff)

section \<open>Linking\<close>

definition link_external_identity :: "external_identity \<Rightarrow> unit db_action" where
  "link_external_identity e = transaction (\<lambda>d.
     bind_result (reserve_generation (ext_provider e) (ext_subject e) (ext_linked_at e) d) (\<lambda>d1.
     bind_result (insert_identity e d1) (\<lambda>d2. Inr ((), d2))))"

definition link_external_identity_for_active_user :: "external_identity \<Rightarrow> instant \<Rightarrow> unit db_action" where
  "link_external_identity_for_active_user e user_revision = transaction (\<lambda>d.
     bind_result (reserve_generation (ext_provider e) (ext_subject e) (ext_linked_at e) d) (\<lambda>d1.
     if \<not> user_at_revision d1 (ext_user_id e) user_revision then Inl StorageConflict
     else bind_result (insert_identity e d1) (\<lambda>d2. Inr ((), d2))))"

definition link_external_identity_for_active_session ::
  "instant \<Rightarrow> external_identity \<Rightarrow> instant \<Rightarrow> session_expectation \<Rightarrow> unit db_action" where
  "link_external_identity_for_active_session now e user_revision x = transaction (\<lambda>d.
     let t = max (exp_valid_at x) now in
     bind_result (reserve_generation (ext_provider e) (ext_subject e) (ext_linked_at e) d) (\<lambda>d1.
     if \<not> (user_at_revision d1 (ext_user_id e) user_revision \<and> session_backs d1 x (ext_user_id e) t)
     then Inl StorageConflict
     else bind_result (insert_identity e d1) (\<lambda>d2. Inr ((), d2))))"

section \<open>Refreshing\<close>

definition linked_row :: "external_identity \<Rightarrow> instant \<Rightarrow> external_identity \<Rightarrow> bool" where
  "linked_row e linked_at r \<longleftrightarrow>
     link_key (ext_provider e) (ext_subject e) r \<and> ext_user_id r = ext_user_id e \<and> ext_linked_at r = linked_at"

definition refresh_external_identity ::
  "external_identity \<Rightarrow> instant \<Rightarrow> instant \<Rightarrow> unit db_action" where
  "refresh_external_identity e linked_at user_revision = transaction (\<lambda>d.
     let (n, d1) = update_identities
           (\<lambda>r. linked_row e linked_at r \<and> user_at_revision d (ext_user_id r) user_revision) e d
     in if n \<noteq> 1 then
          (if \<not> link_exists d1 (ext_provider e) (ext_subject e) then Inl StorageNotFound
           else Inl StorageConflict)
        else Inr ((), d1))"

definition refresh_external_identity_for_active_session ::
  "instant \<Rightarrow> external_identity \<Rightarrow> instant \<Rightarrow> instant \<Rightarrow> session_expectation \<Rightarrow> unit db_action" where
  "refresh_external_identity_for_active_session now e linked_at user_revision x = transaction (\<lambda>d.
     let t = max (exp_valid_at x) now;
         (n, d1) = update_identities
           (\<lambda>r. linked_row e linked_at r \<and> user_at_revision d (ext_user_id r) user_revision \<and>
              session_backs d x (ext_user_id r) t) e d
     in if n \<noteq> 1 then Inl StorageConflict else Inr ((), d1))"

section \<open>Reading\<close>

definition read_external_identity :: "string \<Rightarrow> string \<Rightarrow> external_identity option db_action" where
  "read_external_identity provider subject d =
     (hydrate_optional hydrate_identity (lookup_by ext_provider_key (db_identities d) (lower provider, subject)), d)"

definition read_latest_generation :: "string \<Rightarrow> string \<Rightarrow> instant option db_action" where
  "read_latest_generation provider subject d =
     (let ts = map (\<lambda>(p, s, t). t)
            (filter (\<lambda>(p, s, t). p = lower provider \<and> s = subject) (db_generations d))
      in (Inr (if ts = [] then None else Some (foldr max ts (hd ts))), d))"

definition list_external_identities :: "string \<Rightarrow> external_identity list db_action" where
  "list_external_identities i d =
     (hydrate_all hydrate_identity (sort_key ext_provider (sort_key ext_subject
        (filter (\<lambda>e. ext_user_id e = i) (db_identities d)))), d)"

section \<open>Unlinking\<close>

definition unlink_external_identity :: "string \<Rightarrow> string \<Rightarrow> bool db_action" where
  "unlink_external_identity provider subject = transaction (\<lambda>d.
     let p = lower provider;
         owner = find (link_key p subject) (db_identities d);
         (n, d1) = delete_identities (link_key p subject) d
     in Inr (n = 1,
          (case owner of
             Some r \<Rightarrow> if n = 1 \<and> p = ''github'' then drop_github_memberships (ext_user_id r) d1 else d1
           | None \<Rightarrow> d1)))"

text \<open>What both guarded forms do after their \<^verbatim>\<open>DELETE\<close>.\<close>

definition finish_unlink ::
  "string \<Rightarrow> string \<Rightarrow> string \<Rightarrow> nat \<times> identity_db \<Rightarrow> (bool \<times> identity_db) db_result" where
  "finish_unlink p subject i = (\<lambda>(n, d1).
     if n = 1 then Inr (True, if p = ''github'' then drop_github_memberships i d1 else d1)
     else if \<not> link_exists d1 p subject then Inr (False, d1)
     else Inl StorageConflict)"

definition unlink_external_identity_for_active_user ::
  "string \<Rightarrow> string \<Rightarrow> string \<Rightarrow> instant \<Rightarrow> instant \<Rightarrow> bool db_action" where
  "unlink_external_identity_for_active_user provider subject i linked_at user_revision = transaction (\<lambda>d.
     finish_unlink (lower provider) subject i
       (delete_identities
         (\<lambda>r. link_key (lower provider) subject r \<and> ext_user_id r = i \<and> ext_linked_at r = linked_at \<and>
            user_at_revision d (ext_user_id r) user_revision) d))"

definition unlink_external_identity_for_active_session ::
  "instant \<Rightarrow> string \<Rightarrow> string \<Rightarrow> string \<Rightarrow> instant \<Rightarrow> instant \<Rightarrow> session_expectation \<Rightarrow> bool db_action" where
  "unlink_external_identity_for_active_session now provider subject i linked_at user_revision x =
     transaction (\<lambda>d.
       let t = max (exp_valid_at x) now in
       finish_unlink (lower provider) subject i
         (delete_identities
           (\<lambda>r. link_key (lower provider) subject r \<and> ext_user_id r = i \<and> ext_linked_at r = linked_at \<and>
              user_at_revision d (ext_user_id r) user_revision \<and>
              session_backs d x (ext_user_id r) t) d))"

section \<open>Every link operation advances the database\<close>

lemma link_advance:
  assumes "reserve_generation (ext_provider e) (ext_subject e) (ext_linked_at e) d = Inr d1"
    "insert_identity e d1 = Inr d2" "valid_external e"
  shows "db_advance d d2"
proof -
  have "db_advance d d1" using assms(1) by (rule reserve_advance)
  also have "db_advance d1 d2"
    using assms(3) _ assms(2) by (rule insert_identity_advance) (use assms(1) in \<open>simp add: statement_simps\<close>)
  finally show ?thesis .
qed

lemma link_keeps:
  assumes "valid_external e"
  shows "keeps db_advance (link_external_identity e)"
    "keeps db_advance (link_external_identity_for_active_user e rvn)"
    "keeps db_advance (link_external_identity_for_active_session now e rvn x)"
  unfolding link_external_identity_def link_external_identity_for_active_user_def
    link_external_identity_for_active_session_def Let_def
  by (rule keeps_transaction; auto simp: result_simps split: if_splits intro: link_advance [OF _ _ assms])+

lemma update_identities_advance:
  assumes "valid_external e" "update_identities P e d = (n, d')"
  shows "db_advance d d'"
proof (rule db_advanceI)
  let ?f = "\<lambda>r. r\<lparr>ext_email := ext_email e, ext_username := ext_username e\<rparr>"
  have d': "d' = d\<lparr>db_identities := update_where P ?f (db_identities d)\<rparr>"
    using assms(2) by (simp add: update_identities_def)
  show "db_ok d'" if ok: "db_ok d"
  proof -
    have keys: "unique_on ext_provider_key (update_where P ?f (db_identities d)) =
        unique_on ext_provider_key (db_identities d)"
      "unique_on ext_user_provider (update_where P ?f (db_identities d)) =
        unique_on ext_user_provider (db_identities d)"
      by (rule unique_on_update, simp add: ext_provider_key_def ext_user_provider_def)+
    have "identities_ok d'"
      using ok assms(1) by (auto simp: db_ok_def identities_ok_def d' keys list_all_iff valid_external_def)
    then show ?thesis using ok by (auto simp: ok_defs d')
  qed
qed (use assms(2) in \<open>auto simp: update_identities_def\<close>)

lemma refresh_keeps:
  assumes "valid_external e"
  shows "keeps db_advance (refresh_external_identity e l rvn)"
    "keeps db_advance (refresh_external_identity_for_active_session now e l rvn x)"
  unfolding refresh_external_identity_def refresh_external_identity_for_active_session_def Let_def
  by (rule keeps_transaction; auto split: prod.splits if_splits intro: update_identities_advance [OF assms])+

lemma delete_identities_advance:
  "delete_identities P d = (n, d') \<Longrightarrow> db_advance d d'"
  "delete_identities P d = (n, d') \<Longrightarrow> db_advance d (drop_github_memberships i d')"
  by (auto intro!: db_advanceI db_ok_identities_subset
        db_ok_memberships_subset [of "d\<lparr>db_identities := _\<rparr>", simplified]
      simp: delete_identities_def drop_github_memberships_def)

lemma unlink_keeps:
  "keeps db_advance (unlink_external_identity p s)"
  "keeps db_advance (unlink_external_identity_for_active_user p s i l rvn)"
  "keeps db_advance (unlink_external_identity_for_active_session now p s i l rvn x)"
  unfolding unlink_external_identity_def unlink_external_identity_for_active_user_def
    unlink_external_identity_for_active_session_def Let_def finish_unlink_def
  by (rule keeps_transaction; auto split: prod.splits if_splits option.splits
      intro: delete_identities_advance)+

section \<open>What the operations do\<close>

lemma link_session_Inr:
  "link_external_identity_for_active_session now e revision x d = (Inr (), d') \<longleftrightarrow>
     (ext_provider e, ext_subject e, ext_linked_at e) \<notin> set (db_generations d) \<and>
     user_at_revision d (ext_user_id e) revision \<and>
     session_backs d x (ext_user_id e) (max (exp_valid_at x) now) \<and>
     ext_provider_key e \<notin> ext_provider_key ` set (db_identities d) \<and>
     ext_user_provider e \<notin> ext_user_provider ` set (db_identities d) \<and>
     d' = d\<lparr>db_generations := db_generations d @ [(ext_provider e, ext_subject e, ext_linked_at e)],
            db_identities := db_identities d @ [e]\<rparr>"
proof -
  have user: "user_at_revision d i revision \<Longrightarrow> user_exists d i" for i
    by (auto simp: user_at_revision_def user_exists_def list_ex_iff)
  show ?thesis
    by (auto simp: link_external_identity_for_active_session_def action_simps result_simps statement_simps
        Let_def split: if_splits intro: user)
qed

text \<open>A link made for a live session happens exactly when its generation was never used, the user
  is active at the revision that was seen, the very session that was seen is still open at the
  later of the caller's and the storage's instants, and neither the provider subject nor the
  user's slot for the provider is taken; it adds the generation and the link and nothing else.\<close>

lemma session_link_iff:
  "link_external_identity_for_active_session now e revision x d = (Inr (), d') \<longleftrightarrow>
     (ext_provider e, ext_subject e, ext_linked_at e) \<notin> set (db_generations d) \<and>
     user_at_revision d (ext_user_id e) revision \<and>
     session_backs d x (ext_user_id e) (max (exp_valid_at x) now) \<and>
     ext_provider_key e \<notin> ext_provider_key ` set (db_identities d) \<and>
     ext_user_provider e \<notin> ext_user_provider ` set (db_identities d) \<and>
     d' = d\<lparr>db_generations := db_generations d @ [(ext_provider e, ext_subject e, ext_linked_at e)],
            db_identities := db_identities d @ [e]\<rparr>"
  by (rule link_session_Inr)

text \<open>A generation is spent once and for all: after a successful link, whatever the storage does
  next, no operation links the same provider subject with the same \<^verbatim>\<open>linked_at\<close> again, to any
  user, also after an unlink.\<close>

theorem generation_used_once:
  assumes "db_ok d" "valid_external e"
    and "link_external_identity e d = (Inr (), d1) \<or>
      link_external_identity_for_active_user e rvn d = (Inr (), d1) \<or>
      link_external_identity_for_active_session now e rvn x d = (Inr (), d1)"
    and "db_advance d1 d2"
    and "(ext_provider e', ext_subject e', ext_linked_at e') = (ext_provider e, ext_subject e, ext_linked_at e)"
  shows "link_external_identity e' d2 = (Inl GenerationConflict, d2) \<and>
    link_external_identity_for_active_user e' rvn' d2 = (Inl GenerationConflict, d2) \<and>
    link_external_identity_for_active_session now' e' rvn' x' d2 = (Inl GenerationConflict, d2)"
proof -
  have "db_advance d d1"
    using assms(3) by (elim disjE) (rule keepsD [OF link_keeps(1)] keepsD [OF link_keeps(2)]
      keepsD [OF link_keeps(3)], rule assms(2), assumption)+
  then have "db_ok d1" using assms(1) by (simp add: db_advance_def)
  moreover have "(ext_provider e, ext_subject e, ext_linked_at e) \<in> set (db_generations d1)"
    using assms(3)
    by (auto simp: link_external_identity_def link_external_identity_for_active_user_def
        link_external_identity_for_active_session_def Let_def action_simps result_simps statement_simps
        split: if_splits)
  ultimately have "(ext_provider e', ext_subject e', ext_linked_at e') \<in> set (db_generations d2)"
    using assms(4,5) by (auto simp: db_advance_def)
  then have "reserve_generation (ext_provider e') (ext_subject e') (ext_linked_at e') d2 = Inl GenerationConflict"
    by (simp add: reserve_generation_def)
  then show ?thesis
    by (simp add: link_external_identity_def link_external_identity_for_active_user_def
        link_external_identity_for_active_session_def Let_def transaction_def)
qed

lemma unlink_session_outcome:
  assumes "db_ok d"
    and "unlink_external_identity_for_active_session now provider subject i linked_at revision x d = (Inr b, d')"
  shows "\<not> link_exists d' (lower provider) subject \<and>
    (b \<longrightarrow> user_at_revision d i revision \<and> session_backs d x i (max (exp_valid_at x) now) \<and>
       (\<exists>r \<in> set (db_identities d). link_key (lower provider) subject r \<and> ext_user_id r = i \<and>
          ext_linked_at r = linked_at) \<and>
       db_memberships d' = (if lower provider = ''github''
         then filter (\<lambda>m. \<not> (mem_user_id m = i \<and> mem_role m = MemberStudent \<and>
             mem_source_provider m = Some ''github'')) (db_memberships d)
         else db_memberships d)) \<and>
    (\<not> b \<longrightarrow> d' = d)"
proof -
  define P where "P = (\<lambda>r. link_key (lower provider) subject r \<and> ext_user_id r = i \<and> ext_linked_at r = linked_at \<and>
    user_at_revision d (ext_user_id r) revision \<and>
    session_backs d x (ext_user_id r) (max (exp_valid_at x) now))"
  let ?n = "count_where P (db_identities d)"
  let ?d1 = "d\<lparr>db_identities := delete_where P (db_identities d)\<rparr>"
  have fin: "finish_unlink (lower provider) subject i (?n, ?d1) = Inr (b, d')"
    using assms(2)
    by (simp add: unlink_external_identity_for_active_session_def action_simps Let_def delete_identities_def P_def)
  have key: "link_key (lower provider) subject r \<longleftrightarrow> ext_provider_key r = (lower provider, subject)" for r
    by (simp add: link_key_def ext_provider_key_def)
  have unique: "unique_on ext_provider_key (db_identities d)" using assms(1) by (simp add: ok_defs)
  have one: "?n = 1 \<longleftrightarrow> (\<exists>r \<in> set (db_identities d). P r)"
    by (rule count_where_le_1 [OF unique, where k = "(lower provider, subject)"]) (simp add: key [symmetric] P_def)
  show ?thesis
  proof (cases "?n = 1")
    case True
    then obtain r where r: "r \<in> set (db_identities d)" "P r" using one by blast
    have gone: "\<not> link_exists ?d1 (lower provider) subject"
    proof
      assume "link_exists ?d1 (lower provider) subject"
      then obtain q where q: "q \<in> set (db_identities d)" "\<not> P q" "link_key (lower provider) subject q"
        by (auto simp: link_exists_def list_ex_iff)
      moreover have "link_key (lower provider) subject r" using r(2) by (simp add: P_def)
      ultimately have "q = r" using r(1) key unique by (auto dest: unique_onD)
      with q(2) r(2) show False by simp
    qed
    have d': "b" "d' = (if lower provider = ''github'' then drop_github_memberships i ?d1 else ?d1)"
      using True fin by (simp_all add: finish_unlink_def)
    have "user_at_revision d i revision" "session_backs d x i (max (exp_valid_at x) now)"
      "link_key (lower provider) subject r" "ext_user_id r = i" "ext_linked_at r = linked_at"
      using r(2) by (auto simp: P_def)
    with d' gone r(1) show ?thesis
      by (auto simp: link_exists_def drop_github_memberships_def delete_where_def)
  next
    case False
    then have "\<forall>r \<in> set (db_identities d). \<not> P r" using one by blast
    then have "delete_where P (db_identities d) = db_identities d"
      unfolding delete_where_def by (intro filter_True) blast
    with False fin show ?thesis by (auto simp: finish_unlink_def split: if_splits)
  qed
qed

text \<open>A session-bound unlink that returns leaves the provider subject unlinked. It answers true
  only for the exact link generation of the given user, on the authority of the active user
  row and the live session that were seen, and then a GitHub unlink takes every student
  membership of that user that came from GitHub, and no other membership. It answers false
  without a change.\<close>

theorem session_unlink_effect:
  assumes "db_ok d"
    and "unlink_external_identity_for_active_session now provider subject i linked_at revision x d = (Inr b, d')"
  shows "\<not> link_exists d' (lower provider) subject \<and>
    (b \<longrightarrow> user_at_revision d i revision \<and> session_backs d x i (max (exp_valid_at x) now) \<and>
       (\<exists>r \<in> set (db_identities d). link_key (lower provider) subject r \<and> ext_user_id r = i \<and>
          ext_linked_at r = linked_at) \<and>
       db_memberships d' = (if lower provider = ''github''
         then filter (\<lambda>m. \<not> (mem_user_id m = i \<and> mem_role m = MemberStudent \<and>
             mem_source_provider m = Some ''github'')) (db_memberships d)
         else db_memberships d)) \<and>
    (\<not> b \<longrightarrow> d' = d)"
  using assms by (rule unlink_session_outcome)

end
