(* ===== verification/Store_Sessions.thy ===== *)
theory Store_Sessions
  imports Store_Links
begin

text \<open>
  The session operations of \<^verbatim>\<open>SQLiteIdentityStorage\<close>: creation (web sessions only), lookup by
  identifier and by token digest, the two compare-and-swap updates, revocation by user and
  audience, and the deletion of expired rows. The storage clock is an argument.
\<close>

section \<open>Operations\<close>

definition create_session :: "user_session \<Rightarrow> unit db_action" where
  "create_session s =
     (if ses_audience s \<noteq> AudienceWeb \<or> ses_source_pairing s \<noteq> None then raise_act StorageConflict
      else transaction (\<lambda>d. bind_result (insert_session s d) (\<lambda>d1. Inr ((), d1))))"

definition create_session_for_active_user :: "user_session \<Rightarrow> instant \<Rightarrow> unit db_action" where
  "create_session_for_active_user s user_revision =
     (if ses_audience s \<noteq> AudienceWeb \<or> ses_source_pairing s \<noteq> None then raise_act StorageConflict
      else transaction (\<lambda>d.
        if \<not> user_at_revision d (ses_user_id s) user_revision then Inl StorageConflict
        else bind_result (insert_session s d) (\<lambda>d1. Inr ((), d1))))"

definition read_session :: "string \<Rightarrow> user_session option db_action" where
  "read_session i d = (hydrate_optional hydrate_session (lookup_by ses_session_id (db_sessions d) i), d)"

definition read_session_by_token_digest :: "string \<Rightarrow> user_session option db_action" where
  "read_session_by_token_digest digest d =
     (hydrate_optional hydrate_session (lookup_by ses_token_digest (db_sessions d) (lower digest)), d)"

definition read_tui_authentication_snapshot ::
  "string \<Rightarrow> string \<Rightarrow> (user_session option \<times> user_account option \<times> tui_pairing option) db_action"
where
  "read_tui_authentication_snapshot digest pairing_id d =
     (bind_result (hydrate_optional hydrate_session
         (lookup_by ses_token_digest (db_sessions d) (lower digest))) (\<lambda>s.
      bind_result (case s of None \<Rightarrow> Inr None
         | Some session \<Rightarrow> hydrate_optional hydrate_user (lookup_user d (ses_user_id session))) (\<lambda>u.
      bind_result (hydrate_optional hydrate_pairing
         (lookup_by par_pairing_id (db_pairings d) pairing_id)) (\<lambda>p.
      Inr (s, u, p)))), d)"

text \<open>The columns both updates compare and never change.\<close>

definition same_generation :: "user_session \<Rightarrow> user_session \<Rightarrow> bool" where
  "same_generation s r \<longleftrightarrow>
     ses_session_id r = ses_session_id s \<and> ses_user_id r = ses_user_id s \<and>
     ses_token_digest r = ses_token_digest s \<and> ses_created_at r = ses_created_at s \<and>
     ses_expires_at r = ses_expires_at s \<and> ses_audience r = ses_audience s \<and>
     ses_source_pairing r = ses_source_pairing s"

definition session_exists :: "identity_db \<Rightarrow> string \<Rightarrow> bool" where
  "session_exists d i \<longleftrightarrow> list_ex (\<lambda>s. ses_session_id s = i) (db_sessions d)"

definition save_session :: "user_session \<Rightarrow> unit db_action" where
  "save_session s = transaction (\<lambda>d.
     bind_result
       (case ses_revoked_at s of
          None \<Rightarrow>
            update_sessions (\<lambda>r. same_generation s r \<and> ses_revoked_at r = None \<and>
                 ses_last_seen_at r \<le> ses_last_seen_at s)
              (\<lambda>r. ses_last_seen_at s) ses_revoked_at d
        | Some revoked \<Rightarrow>
            update_sessions (\<lambda>r. same_generation s r \<and> ses_revoked_at r = None \<and>
                 ses_last_seen_at r \<le> revoked)
              (\<lambda>r. if ses_last_seen_at s < ses_last_seen_at r then ses_last_seen_at r
                    else ses_last_seen_at s) (\<lambda>r. Some revoked) d) (\<lambda>(n, d1).
     if n \<noteq> 1 then
       (if \<not> session_exists d1 (ses_session_id s) then Inl StorageNotFound else Inl StorageConflict)
     else Inr ((), d1)))"

definition save_session_for_active_user ::
  "instant \<Rightarrow> user_session \<Rightarrow> instant \<Rightarrow> instant \<Rightarrow> user_session db_action" where
  "save_session_for_active_user now s user_revision valid_at =
     (if ses_revoked_at s \<noteq> None then raise_act StorageConflict
      else transaction (\<lambda>d.
        let t = max valid_at (max (ses_last_seen_at s) now) in
        bind_result
          (update_sessions (\<lambda>r. same_generation s r \<and> ses_revoked_at r = None \<and>
               ses_last_seen_at r \<le> t \<and> ses_created_at r \<le> t \<and> t < ses_expires_at r \<and>
               user_at_revision d (ses_user_id r) user_revision)
             (\<lambda>r. t) ses_revoked_at d) (\<lambda>(n, d1).
        if n \<noteq> 1 then
          (case lookup_by ses_session_id (db_sessions d1) (ses_session_id s) of
             None \<Rightarrow> Inl StorageNotFound
           | Some r \<Rightarrow>
               if same_generation s r \<and> ses_revoked_at r = None \<and> ses_expires_at r \<le> t
               then Inl SessionExpiredConflict
               else Inl StorageConflict)
        else
          (case lookup_by ses_session_id (db_sessions d1) (ses_session_id s) of
             None \<Rightarrow> Inl StorageNotFound
           | Some r \<Rightarrow> bind_result (hydrate_session r) (\<lambda>x. Inr (x, d1))))))"

definition list_user_sessions :: "string \<Rightarrow> user_session list db_action" where
  "list_user_sessions i d =
     (hydrate_all hydrate_session (sort_key ses_created_at (sort_key ses_session_id
        (filter (\<lambda>s. ses_user_id s = i) (db_sessions d)))), d)"

definition audience_matches :: "string option \<Rightarrow> user_session \<Rightarrow> bool" where
  "audience_matches audience s \<longleftrightarrow> audience = None \<or> audience = Some (audience_text (ses_audience s))"

definition revoke_user_sessions :: "string \<Rightarrow> instant \<Rightarrow> string option \<Rightarrow> nat db_action" where
  "revoke_user_sessions i t audience =
     (if audience \<noteq> None \<and> audience \<noteq> Some ''web'' \<and> audience \<noteq> Some ''tui''
      then raise_act StorageConflict
      else transaction (\<lambda>d.
        if count_where (\<lambda>s. stale_session i t s \<and> audience_matches audience s) (db_sessions d) \<noteq> 0
        then Inl StorageConflict
        else bind_result
          (update_sessions (\<lambda>s. revocable_session i t s \<and> audience_matches audience s)
             ses_last_seen_at (\<lambda>s. Some t) d) (\<lambda>(n, d1). Inr (n, d1))))"

definition delete_expired_sessions :: "instant \<Rightarrow> nat db_action" where
  "delete_expired_sessions before = transaction (\<lambda>d.
     Inr (count_where (\<lambda>s. ses_expires_at s \<le> before) (db_sessions d),
          d\<lparr>db_sessions := delete_where (\<lambda>s. ses_expires_at s \<le> before) (db_sessions d)\<rparr>))"

section \<open>Every session operation advances the database\<close>

lemma create_session_keeps:
  assumes "valid_session s"
  shows "keeps db_advance (create_session s)" "keeps db_advance (create_session_for_active_user s rvn)"
  unfolding create_session_def create_session_for_active_user_def
  by (auto intro!: keeps_if keeps_transaction keeps_pure simp: result_simps split: if_splits
      intro: insert_session_advance [OF assms])

lemma save_session_keeps: "keeps db_advance (save_session s)"
  unfolding save_session_def
  by (rule keeps_transaction, simp) (cases "ses_revoked_at s";
      auto simp: result_simps split: if_splits intro: update_sessions_advance)

lemma touch_keeps: "keeps db_advance (save_session_for_active_user now s rvn v)"
  unfolding save_session_for_active_user_def
  by (intro keeps_if keeps_transaction keeps_pure)
    (auto simp: result_simps Let_def split: if_splits option.splits intro: update_sessions_advance)

lemma revoke_keeps: "keeps db_advance (revoke_user_sessions i t audience)"
  unfolding revoke_user_sessions_def
  by (intro keeps_if keeps_transaction keeps_pure)
    (auto simp: result_simps split: if_splits intro: update_sessions_advance)

lemma delete_expired_sessions_keeps: "keeps db_advance (delete_expired_sessions t)"
  unfolding delete_expired_sessions_def
  by (rule keeps_transaction) (auto intro!: db_advanceI db_ok_delete_sessions)

section \<open>Sessions follow their earlier versions\<close>

lemma update_sessions_follow:
  assumes "update_sessions P seen rvk d = Inr (n, d')"
    and "\<And>s. P s \<Longrightarrow> ses_revoked_at s = None"
    and "\<And>s. s \<in> set (db_sessions d) \<Longrightarrow> db_ok d \<Longrightarrow> P s \<Longrightarrow> ses_last_seen_at s \<le> seen s"
  shows "sessions_follow d d'"
proof (cases "db_ok d")
  case True
  show ?thesis
    by (rule sessions_follow_update [where P = P and f = "set_session_times seen rvk"])
      (use assms True in \<open>auto simp: update_sessions_Inr session_follows_def set_session_times_def\<close>)
qed (simp add: sessions_follow_def)

lemma session_writes_follow:
  "keeps sessions_follow (create_session s)"
  "keeps sessions_follow (create_session_for_active_user s rvn)"
  "keeps sessions_follow (save_session s)"
  "keeps sessions_follow (save_session_for_active_user now s rvn v)"
  "keeps sessions_follow (revoke_user_sessions i t audience)"
  "keeps sessions_follow (delete_expired_sessions t)"
proof -
  show "keeps sessions_follow (create_session s)"
    "keeps sessions_follow (create_session_for_active_user s rvn)"
    unfolding create_session_def create_session_for_active_user_def
    by (auto intro!: keeps_if keeps_transaction keeps_pure simp: result_simps split: if_splits
        intro: sessions_follow_insert)
  show "keeps sessions_follow (save_session s)"
    unfolding save_session_def
    by (rule keeps_transaction, simp) (cases "ses_revoked_at s";
        auto simp: result_simps split: if_splits intro: update_sessions_follow)
  show "keeps sessions_follow (save_session_for_active_user now s rvn v)"
    unfolding save_session_for_active_user_def
    by (intro keeps_if keeps_transaction keeps_pure)
      (auto simp: result_simps Let_def split: if_splits option.splits intro: update_sessions_follow)
  show "keeps sessions_follow (revoke_user_sessions i t audience)"
    unfolding revoke_user_sessions_def
    by (intro keeps_if keeps_transaction keeps_pure)
      (auto simp: result_simps revocable_session_def split: if_splits intro: update_sessions_follow)
  show "keeps sessions_follow (delete_expired_sessions t)"
    unfolding delete_expired_sessions_def
    by (rule keeps_transaction) (auto intro!: sessions_follow_subset)
qed

section \<open>What the operations do\<close>

lemma touched_row:
  assumes "db_ok d" "r \<in> set (db_sessions d)" "ses_session_id r = i"
    "\<And>q. ses_session_id (f q) = ses_session_id q"
  shows "lookup_by ses_session_id (update_where (\<lambda>q. ses_session_id q = i) f (db_sessions d)) i = Some (f r)"
proof -
  have "lookup_by ses_session_id (db_sessions d) i = Some r"
    using assms by (simp add: ok_defs lookup_by_Some_iff)
  then show ?thesis using assms(3) by (simp add: lookup_by_update assms(4))
qed

lemma touch_same_row:
  assumes "db_ok d" "r \<in> set (db_sessions d)" "same_generation s r" "ses_revoked_at r = None"
    "ses_last_seen_at r \<le> t" "ses_created_at r \<le> t" "t < ses_expires_at r" "Q (ses_user_id r)"
  shows "update_sessions (\<lambda>q. same_generation s q \<and> ses_revoked_at q = None \<and> ses_last_seen_at q \<le> t \<and>
      ses_created_at q \<le> t \<and> t < ses_expires_at q \<and> Q (ses_user_id q)) (\<lambda>q. t) ses_revoked_at d =
    Inr (1, d\<lparr>db_sessions := update_where (\<lambda>q. ses_session_id q = ses_session_id s)
      (\<lambda>q. q\<lparr>ses_last_seen_at := t\<rparr>) (db_sessions d)\<rparr>)" (is "update_sessions ?P _ _ d = _")
proof -
  have unique: "unique_on ses_session_id (db_sessions d)" using assms(1) by (simp add: ok_defs)
  have match: "?P q \<longleftrightarrow> ses_session_id q = ses_session_id s" if "q \<in> set (db_sessions d)" for q
  proof
    assume "ses_session_id q = ses_session_id s"
    then have "q = r" using unique that assms(2,3) by (auto simp: same_generation_def dest: unique_onD)
    then show "?P q" using assms(3-8) by simp
  qed (simp add: same_generation_def)
  have "count_where ?P (db_sessions d) = 1"
    using assms(2-8)
    by (subst count_where_le_1 [OF unique, where k = "ses_session_id s"]) (auto simp: same_generation_def)
  moreover have "update_where ?P (set_session_times (\<lambda>q. t) ses_revoked_at) (db_sessions d) =
      update_where (\<lambda>q. ses_session_id q = ses_session_id s) (\<lambda>q. q\<lparr>ses_last_seen_at := t\<rparr>) (db_sessions d)"
    by (rule update_where_cong) (simp_all add: match set_session_times_def)
  ultimately show ?thesis by (auto simp: update_sessions_Inr session_check_def)
qed

lemma touch_outcome:
  assumes "db_ok d" "t = max valid_at (max (ses_last_seen_at s) now)"
  shows "save_session_for_active_user now s revision valid_at d = (Inr s', d') \<longleftrightarrow>
    ses_revoked_at s = None \<and>
    (\<exists>r \<in> set (db_sessions d). same_generation s r \<and> ses_revoked_at r = None \<and>
       ses_last_seen_at r \<le> t \<and> ses_created_at r \<le> t \<and> t < ses_expires_at r \<and>
       user_at_revision d (ses_user_id r) revision \<and> s' = r\<lparr>ses_last_seen_at := t\<rparr>) \<and>
    d' = d\<lparr>db_sessions := update_where (\<lambda>q. ses_session_id q = ses_session_id s)
      (\<lambda>q. q\<lparr>ses_last_seen_at := t\<rparr>) (db_sessions d)\<rparr>" (is "?l \<longleftrightarrow> ?fresh \<and> ?row \<and> ?state")
proof
  let ?P = "\<lambda>r. same_generation s r \<and> ses_revoked_at r = None \<and> ses_last_seen_at r \<le> t \<and>
    ses_created_at r \<le> t \<and> t < ses_expires_at r \<and> user_at_revision d (ses_user_id r) revision"
  let ?d1 = "d\<lparr>db_sessions := update_where (\<lambda>q. ses_session_id q = ses_session_id s)
      (\<lambda>q. q\<lparr>ses_last_seen_at := t\<rparr>) (db_sessions d)\<rparr>"
  have run: "save_session_for_active_user now s revision valid_at d = (Inr (r\<lparr>ses_last_seen_at := t\<rparr>), ?d1)"
    if r: "r \<in> set (db_sessions d)" "?P r" and fresh: "ses_revoked_at s = None" for r
  proof -
    from r(2) have s1: "update_sessions ?P (\<lambda>q. t) ses_revoked_at d = Inr (1, ?d1)"
      by (elim conjE) (rule touch_same_row [OF assms(1) r(1)])
    have i: "ses_session_id r = ses_session_id s" using r(2) by (simp add: same_generation_def)
    have look: "lookup_by ses_session_id (db_sessions ?d1) (ses_session_id s) = Some (r\<lparr>ses_last_seen_at := t\<rparr>)"
      using touched_row [OF assms(1) r(1) i, of "\<lambda>q. q\<lparr>ses_last_seen_at := t\<rparr>"] by simp
    have "hydrate_session (r\<lparr>ses_last_seen_at := t\<rparr>) = Inr (r\<lparr>ses_last_seen_at := t\<rparr>)"
      using hydrate_ok(3) [OF db_ok_update_sessions [OF assms(1) s1]] look by (blast dest: lookup_by_SomeD)
    with s1 look fresh show ?thesis
      by (simp add: save_session_for_active_user_def transaction_def assms(2) [symmetric])
  qed
  {
    assume l: ?l
    then have fresh: ?fresh by (auto simp: save_session_for_active_user_def split: if_splits)
    obtain d1 where "update_sessions ?P (\<lambda>q. t) ses_revoked_at d = Inr (1, d1)"
      using l fresh
      by (auto simp: save_session_for_active_user_def action_simps result_simps assms(2) [symmetric]
          split: if_splits option.splits)
    then have "1 = count_where ?P (db_sessions d)" unfolding update_sessions_Inr by blast
    then have "count_where ?P (db_sessions d) \<noteq> 0" by linarith
    then obtain r where r: "r \<in> set (db_sessions d)" "?P r" unfolding count_where_eq_0 by blast
    from trans [OF sym [OF l] run [OF r fresh]]
    have "s' = r\<lparr>ses_last_seen_at := t\<rparr>" "d' = ?d1" by (simp_all only: prod.inject sum.inject)
    then show "?fresh \<and> ?row \<and> ?state" using fresh r by blast
  }
  {
    assume r: "?fresh \<and> ?row \<and> ?state"
    then obtain r where "r \<in> set (db_sessions d)" "?P r" "s' = r\<lparr>ses_last_seen_at := t\<rparr>" by blast
    with run [of r] r show ?l by simp
  }
qed

text \<open>The authentication touch succeeds exactly when, inside its transaction, the row of the session
  is still the generation that was read, not revoked, already created and not yet expired at
  the latest of the three instants involved, and its user is active at the revision that was
  read; it then moves \<^verbatim>\<open>last_seen_at\<close> of that one row to that instant and returns the row.\<close>

theorem touch_iff:
  assumes "db_ok d" "t = max valid_at (max (ses_last_seen_at s) now)"
  shows "save_session_for_active_user now s revision valid_at d = (Inr s', d') \<longleftrightarrow>
    ses_revoked_at s = None \<and>
    (\<exists>r \<in> set (db_sessions d). same_generation s r \<and> ses_revoked_at r = None \<and>
       ses_last_seen_at r \<le> t \<and> ses_created_at r \<le> t \<and> t < ses_expires_at r \<and>
       user_at_revision d (ses_user_id r) revision \<and> s' = r\<lparr>ses_last_seen_at := t\<rparr>) \<and>
    d' = d\<lparr>db_sessions := update_where (\<lambda>q. ses_session_id q = ses_session_id s)
      (\<lambda>q. q\<lparr>ses_last_seen_at := t\<rparr>) (db_sessions d)\<rparr>"
  using assms by (rule touch_outcome)

lemma stale_open:
  "stale_session i t s \<and> audience_matches audience s \<longleftrightarrow> ses_user_id s = i \<and> open_session t s \<and>
     audience_matches audience s \<and> (t < ses_created_at s \<or> t < ses_last_seen_at s)"
  by (auto simp: stale_session_def open_session_def)

lemma revoke_outcome:
  assumes "db_ok d"
  shows "revoke_user_sessions i t audience d =
    (if audience \<notin> {None, Some ''web'', Some ''tui''} \<or>
        (\<exists>s \<in> set (db_sessions d). ses_user_id s = i \<and> open_session t s \<and> audience_matches audience s \<and>
           (t < ses_created_at s \<or> t < ses_last_seen_at s))
     then (Inl StorageConflict, d)
     else (Inr (count_where (\<lambda>s. ses_user_id s = i \<and> open_session t s \<and> audience_matches audience s)
             (db_sessions d)),
           d\<lparr>db_sessions := update_where
              (\<lambda>s. ses_user_id s = i \<and> open_session t s \<and> audience_matches audience s)
              (\<lambda>s. s\<lparr>ses_revoked_at := Some t\<rparr>) (db_sessions d)\<rparr>))"
proof -
  let ?bad = "audience \<notin> {None, Some ''web'', Some ''tui''}"
  let ?stale = "\<exists>s \<in> set (db_sessions d). stale_session i t s \<and> audience_matches audience s"
  let ?P = "\<lambda>s. revocable_session i t s \<and> audience_matches audience s"
  let ?Q = "\<lambda>s. ses_user_id s = i \<and> open_session t s \<and> audience_matches audience s"
  have "revoke_user_sessions i t audience d = (Inl StorageConflict, d)" if ?bad
    using that by (simp add: revoke_user_sessions_def raise_act_def)
  moreover have "revoke_user_sessions i t audience d = (Inl StorageConflict, d)" if "\<not> ?bad" ?stale
    using that by (auto simp: revoke_user_sessions_def transaction_def)
  moreover have "revoke_user_sessions i t audience d =
      (Inr (count_where ?Q (db_sessions d)),
       d\<lparr>db_sessions := update_where ?Q (\<lambda>s. s\<lparr>ses_revoked_at := Some t\<rparr>) (db_sessions d)\<rparr>)"
    if fine: "\<not> ?bad" "\<not> ?stale"
  proof -
    have same: "?P s \<longleftrightarrow> ?Q s" if "s \<in> set (db_sessions d)" for s
      using that fine(2) by (auto simp: revocable_session_def stale_session_def open_session_def)
    have "update_sessions ?P ses_last_seen_at (\<lambda>s. Some t) d =
        Inr (count_where ?Q (db_sessions d),
          d\<lparr>db_sessions := update_where ?Q (\<lambda>s. s\<lparr>ses_revoked_at := Some t\<rparr>) (db_sessions d)\<rparr>)"
      unfolding update_sessions_Inr
    proof (intro conjI ballI impI)
      show "session_check (set_session_times ses_last_seen_at (\<lambda>s. Some t) s)"
        if "s \<in> set (db_sessions d)" "?P s" for s
        using that fine(2) assms by (intro current_revocation_check [where i = i]) (auto simp: ok_defs)
      show "count_where ?Q (db_sessions d) = count_where ?P (db_sessions d)"
        by (rule count_where_cong) (simp add: same)
      have "update_where ?Q (\<lambda>s. s\<lparr>ses_revoked_at := Some t\<rparr>) (db_sessions d) =
          update_where ?P (set_session_times ses_last_seen_at (\<lambda>s. Some t)) (db_sessions d)"
        by (rule update_where_cong) (simp_all add: same set_session_times_def)
      then show "d\<lparr>db_sessions := update_where ?Q (\<lambda>s. s\<lparr>ses_revoked_at := Some t\<rparr>) (db_sessions d)\<rparr> =
          d\<lparr>db_sessions := update_where ?P (set_session_times ses_last_seen_at (\<lambda>s. Some t)) (db_sessions d)\<rparr>"
        by simp
    qed
    with fine show ?thesis by (auto simp: revoke_user_sessions_def transaction_def)
  qed
  ultimately show ?thesis unfolding stale_open [symmetric] by (split if_split) blast
qed

text \<open>Bulk revocation is exact: it refuses a wrong audience, and an instant earlier than the
  creation or last use of a matching session that would still be open; otherwise it revokes at
  that instant precisely the matching sessions of the user that are open then, and returns
  their number. No constraint can make it fail.\<close>

theorem revoke_user_sessions_exact:
  assumes "db_ok d"
  shows "revoke_user_sessions i t audience d =
    (if audience \<notin> {None, Some ''web'', Some ''tui''} \<or>
        (\<exists>s \<in> set (db_sessions d). ses_user_id s = i \<and> open_session t s \<and> audience_matches audience s \<and>
           (t < ses_created_at s \<or> t < ses_last_seen_at s))
     then (Inl StorageConflict, d)
     else (Inr (count_where (\<lambda>s. ses_user_id s = i \<and> open_session t s \<and> audience_matches audience s)
             (db_sessions d)),
           d\<lparr>db_sessions := update_where
              (\<lambda>s. ses_user_id s = i \<and> open_session t s \<and> audience_matches audience s)
              (\<lambda>s. s\<lparr>ses_revoked_at := Some t\<rparr>) (db_sessions d)\<rparr>))"
  using assms by (rule revoke_outcome)

lemma revoked_outcome:
  assumes "db_ok d" "revoke_user_sessions i t audience d = (Inr n, d')"
    "s \<in> set (db_sessions d')" "ses_user_id s = i" "audience_matches audience s" "t < ses_expires_at s"
  shows "ses_revoked_at s \<noteq> None"
proof
  assume none: "ses_revoked_at s = None"
  let ?Q = "\<lambda>s. ses_user_id s = i \<and> open_session t s \<and> audience_matches audience s"
  have "d' = d\<lparr>db_sessions := update_where ?Q (\<lambda>s. s\<lparr>ses_revoked_at := Some t\<rparr>) (db_sessions d)\<rparr>"
    using assms(2) unfolding revoke_outcome [OF assms(1)] by (simp split: if_splits)
  then obtain r where "r \<in> set (db_sessions d)" "s = (if ?Q r then r\<lparr>ses_revoked_at := Some t\<rparr> else r)"
    using assms(3) by (auto simp: update_where_def)
  with none assms(4-6) show False by (auto simp: open_session_def split: if_splits)
qed

end
