(* ===== verification/Store_Pairings.thy ===== *)
theory Store_Pairings
  imports Store_Sessions
begin

text \<open>
  The TUI pairing operations of \<^verbatim>\<open>SQLiteIdentityStorage\<close>: creation and lookup, the guarded
  transitions, the atomic consumption of an authorized pairing together with the session it is
  exchanged for, and the deletion of expired rows. An operation that finds its pairing expired
  commits the expiry and raises afterwards.
\<close>

section \<open>Operations\<close>

definition create_pairing :: "tui_pairing \<Rightarrow> unit db_action" where
  "create_pairing p = transaction (\<lambda>d. bind_result (insert_pairing p d) (\<lambda>d1. Inr ((), d1)))"

definition read_pairing :: "string \<Rightarrow> tui_pairing option db_action" where
  "read_pairing i d = (hydrate_optional hydrate_pairing (lookup_by par_pairing_id (db_pairings d) i), d)"

definition read_pairing_by_code_digest :: "string \<Rightarrow> tui_pairing option db_action" where
  "read_pairing_by_code_digest digest d =
     (hydrate_optional hydrate_pairing (lookup_by par_code_digest (db_pairings d) (lower digest)), d)"

text \<open>The predecessor statuses of a transition and what the row must agree with.\<close>

definition transition_allowed :: "tui_pairing \<Rightarrow> tui_pairing \<Rightarrow> bool" where
  "transition_allowed p r \<longleftrightarrow>
     (if par_status p \<in> {PairConsumed, PairExpired, PairRevoked} \<and> par_user_id p \<noteq> None
      then par_status r = PairAuthorized \<and> par_user_id r = par_user_id p \<and>
           par_authorized_at p \<noteq> None \<and> par_authorized_at r = par_authorized_at p
      else if par_status p \<in> {PairExpired, PairRevoked} then par_status r = PairPending
      else (case par_status p of
              PairPending \<Rightarrow> par_status r = PairPending
            | PairAuthorized \<Rightarrow> par_status r = PairPending
            | _ \<Rightarrow> par_status r = PairAuthorized))"

definition pairing_key :: "tui_pairing \<Rightarrow> tui_pairing \<Rightarrow> bool" where
  "pairing_key p r \<longleftrightarrow>
     par_pairing_id r = par_pairing_id p \<and> par_code_digest r = par_code_digest p \<and>
     par_created_at r = par_created_at p \<and> par_expires_at r = par_expires_at p"

definition write_pairing :: "tui_pairing \<Rightarrow> tui_pairing \<Rightarrow> tui_pairing" where
  "write_pairing p =
     set_pairing_state (par_status p) (par_user_id p) (par_authorized_at p) (par_consumed_at p)
       (par_expired_at p) (par_revoked_at p)"

text \<open>
  The \<^verbatim>\<open>WHERE\<close> clause of the transition update, built from the optional parts:
  \<open>active_revision\<close> is \<^verbatim>\<open>expected_user_updated_at\<close> when \<^verbatim>\<open>require_active_user\<close> is set.
\<close>

definition transition_row ::
  "instant \<Rightarrow> tui_pairing \<Rightarrow> instant option \<Rightarrow> identity_db \<Rightarrow> tui_pairing \<Rightarrow> bool" where
  "transition_row now p active_revision d r \<longleftrightarrow>
     pairing_key p r \<and> transition_allowed p r \<and>
     (case active_revision of None \<Rightarrow> True
      | Some v \<Rightarrow> (case par_user_id p of None \<Rightarrow> False | Some i \<Rightarrow> user_at_revision d i v)) \<and>
     (par_status p = PairAuthorized \<longrightarrow> now < par_expires_at r)"

text \<open>The transaction answers whether the pairing expired during an authorization.\<close>

definition transition_body ::
  "instant \<Rightarrow> tui_pairing \<Rightarrow> instant option \<Rightarrow> identity_db \<Rightarrow> (bool \<times> identity_db) db_result" where
  "transition_body now p active_revision d =
     bind_result
       (update_pairings (transition_row now p active_revision d) (write_pairing p) d) (\<lambda>(n, d1).
     if n = 1 then Inr (False, d1)
     else case lookup_by par_pairing_id (db_pairings d1) (par_pairing_id p) of
         None \<Rightarrow> Inl StorageNotFound
       | Some current \<Rightarrow>
           if par_status p = PairAuthorized \<and> par_status current = PairPending \<and>
              par_expires_at current \<le> now
           then bind_result
             (update_pairings (\<lambda>r. par_pairing_id r = par_pairing_id p \<and> par_status r = PairPending \<and>
                  par_expires_at r \<le> now)
                (\<lambda>r. r\<lparr>par_status := PairExpired, par_expired_at := Some now\<rparr>) d1) (\<lambda>(m, d2).
             if m \<noteq> 1 then Inl StorageConflict else Inr (True, d2))
           else Inl StorageConflict)"

definition save_pairing_transition :: "instant \<Rightarrow> tui_pairing \<Rightarrow> instant option \<Rightarrow> unit db_action" where
  "save_pairing_transition now p active_revision =
     bind_act (transaction (transition_body now p active_revision)) (\<lambda>expired.
       if expired then raise_act PairingExpiredConflict else return_act ())"

definition save_pairing :: "instant \<Rightarrow> tui_pairing \<Rightarrow> unit db_action" where
  "save_pairing now p = save_pairing_transition now p None"

definition save_pairing_for_active_user :: "instant \<Rightarrow> tui_pairing \<Rightarrow> instant \<Rightarrow> unit db_action" where
  "save_pairing_for_active_user now p user_revision =
     (if par_user_id p = None then raise_act StorageConflict
      else save_pairing_transition now p (Some user_revision))"

definition consumption_contract :: "tui_pairing \<Rightarrow> user_session \<Rightarrow> string \<Rightarrow> bool" where
  "consumption_contract p s role \<longleftrightarrow>
     par_status p = PairConsumed \<and> par_user_id p \<noteq> None \<and> par_authorized_at p \<noteq> None \<and>
     par_consumed_at p \<noteq> None \<and> Some (ses_user_id s) = par_user_id p \<and>
     Some (ses_created_at s) = par_consumed_at p \<and> ses_last_seen_at s = ses_created_at s \<and>
     ses_revoked_at s = None \<and> ses_audience s = AudienceTui \<and>
     ses_source_pairing s = Some (par_pairing_id p) \<and> role = ''student''"

text \<open>The row both updates of the consumption look for.\<close>

definition consumable_row :: "tui_pairing \<Rightarrow> tui_pairing \<Rightarrow> bool" where
  "consumable_row p r \<longleftrightarrow>
     pairing_key p r \<and> par_status r = PairAuthorized \<and> par_user_id r = par_user_id p \<and>
     par_authorized_at r = par_authorized_at p \<and> par_consumed_at r = None \<and>
     par_expired_at r = None \<and> par_revoked_at r = None"

definition active_in_role :: "identity_db \<Rightarrow> string option \<Rightarrow> string \<Rightarrow> instant \<Rightarrow> bool" where
  "active_in_role d i role revision \<longleftrightarrow>
     list_ex (\<lambda>u. Some (acc_user_id u) = i \<and> acc_active u \<and> role_text (acc_role u) = role \<and>
       acc_updated_at u = revision) (db_users d)"

definition consumption_body ::
  "instant \<Rightarrow> tui_pairing \<Rightarrow> user_session \<Rightarrow> instant \<Rightarrow> string \<Rightarrow> identity_db \<Rightarrow>
   (bool \<times> identity_db) db_result"
where
  "consumption_body now p s user_revision role d =
     (let t = max (the (par_consumed_at p)) now in
      if par_expires_at p \<le> t then
        bind_result
          (update_pairings (consumable_row p)
             (\<lambda>r. r\<lparr>par_status := PairExpired, par_expired_at := Some t\<rparr>) d) (\<lambda>(n, d1).
        if n \<noteq> 1 then Inl StorageConflict else Inr (True, d1))
      else if ses_expires_at s \<le> t then Inl SessionExpiredConflict
      else
        bind_result
          (update_pairings
             (\<lambda>r. consumable_row p r \<and> par_created_at r \<le> t \<and>
                later_than (par_authorized_at r) (Some t) \<and> t < par_expires_at r \<and>
                active_in_role d (par_user_id r) role user_revision)
             (\<lambda>r. r\<lparr>par_status := PairConsumed, par_consumed_at := par_consumed_at p\<rparr>) d) (\<lambda>(n, d1).
        if n \<noteq> 1 then Inl StorageConflict
        else bind_result (insert_session (s\<lparr>ses_revoked_at := None\<rparr>) d1) (\<lambda>d2. Inr (False, d2))))"

definition consume_pairing_and_create_session ::
  "instant \<Rightarrow> tui_pairing \<Rightarrow> user_session \<Rightarrow> instant \<Rightarrow> string \<Rightarrow> unit db_action" where
  "consume_pairing_and_create_session now p s user_revision role =
     (if \<not> consumption_contract p s role then raise_act StorageConflict
      else bind_act (transaction (consumption_body now p s user_revision role)) (\<lambda>expired.
        if expired then raise_act PairingExpiredConflict else return_act ()))"

definition delete_expired_pairings :: "instant \<Rightarrow> nat db_action" where
  "delete_expired_pairings before = transaction (\<lambda>d.
     delete_pairings (\<lambda>p. par_expires_at p \<le> before \<and> \<not> pairing_referenced (db_sessions d) p) d)"

section \<open>Every pairing operation advances the database\<close>

lemma create_pairing_keeps: "valid_pairing p \<Longrightarrow> keeps db_advance (create_pairing p)"
  unfolding create_pairing_def
  by (rule keeps_transaction) (auto simp: result_simps intro: insert_pairing_advance)

lemma write_pairing_simps [simp]:
  "par_pairing_id (write_pairing p r) = par_pairing_id r"
  "par_code_digest (write_pairing p r) = par_code_digest r"
  by (simp_all add: write_pairing_def set_pairing_state_def)

lemma write_pairing_same: "pairing_key p r \<Longrightarrow> write_pairing p r = p"
  by (cases p; cases r) (simp add: write_pairing_def set_pairing_state_def pairing_key_def)

lemma valid_expired:
  assumes "valid_pairing r" "par_status r \<in> {PairPending, PairAuthorized}" "representable t"
    "par_expires_at r \<le> t"
  shows "valid_pairing (r\<lparr>par_status := PairExpired, par_expired_at := Some t\<rparr>)"
  using assms by (auto simp: valid_pairing_def within_pairing_def pairing_consistent_def)

lemma expire_advance:
  assumes "update_pairings P (\<lambda>r. r\<lparr>par_status := PairExpired, par_expired_at := Some t\<rparr>) d = Inr (n, d')"
    and "representable t"
    and "\<And>r. P r \<Longrightarrow> par_status r \<in> {PairPending, PairAuthorized} \<and> par_expires_at r \<le> t"
  shows "db_advance d d'" "pairings_follow d d'"
proof -
  show "db_advance d d'"
  proof (rule update_pairings_advance [OF assms(1)])
    fix r assume "db_ok d" "r \<in> set (db_pairings d)" "P r"
    then show "valid_pairing (r\<lparr>par_status := PairExpired, par_expired_at := Some t\<rparr>)"
      using assms(2,3) by (intro valid_expired) (auto simp: ok_defs)
  qed simp_all
  have d': "d' = d\<lparr>db_pairings := update_where P
      (\<lambda>r. r\<lparr>par_status := PairExpired, par_expired_at := Some t\<rparr>) (db_pairings d)\<rparr>"
    using assms(1) by (simp add: update_pairings_Inr)
  have "P r \<Longrightarrow> status_rank (par_status r) < 2" for r using assms(3) [of r] by auto
  then show "pairings_follow d d'"
    unfolding d' by (intro pairings_follow_update [where P = P]) (auto simp: pairing_follows_def)
qed

lemma keeps_expired:
  assumes "keeps R m" "reflp R" "transp R"
  shows "keeps R (bind_act m (\<lambda>expired. if expired then raise_act e else return_act ()))"
  by (rule keeps_bind [OF assms(1) keeps_if assms(3)]) (rule keeps_pure [OF assms(2)])+

lemma transition_advance:
  assumes "valid_pairing p" "representable now" "transition_body now p v d = Inr (x, d')"
  shows "db_advance d d'"
proof -
  have first: "db_advance d d1"
    if "update_pairings P (write_pairing p) d = Inr (n, d1)" "\<And>r. P r \<Longrightarrow> pairing_key p r" for P n d1
    by (rule update_pairings_advance [OF that(1)]) (use assms(1) that(2) write_pairing_same in auto)
  have row: "transition_row now p v d r \<Longrightarrow> pairing_key p r" for r
    by (simp add: transition_row_def)
  from assms(3) obtain n d1 where s1: "update_pairings (transition_row now p v d) (write_pairing p) d = Inr (n, d1)"
    and s2: "d' = d1 \<or> (\<exists>m. update_pairings (\<lambda>r. par_pairing_id r = par_pairing_id p \<and>
        par_status r = PairPending \<and> par_expires_at r \<le> now)
      (\<lambda>r. r\<lparr>par_status := PairExpired, par_expired_at := Some now\<rparr>) d1 = Inr (m, d'))"
    by (fastforce simp: transition_body_def result_simps split: if_splits option.splits)
  have "db_advance d d1" by (rule first [OF s1 row])
  also have "db_advance d1 d'" using s2 by (auto intro: expire_advance(1) [OF _ assms(2)])
  finally show ?thesis .
qed

lemma save_pairing_keeps:
  assumes "valid_pairing p" "representable now"
  shows "keeps db_advance (save_pairing now p)" "keeps db_advance (save_pairing_for_active_user now p v)"
  unfolding save_pairing_def save_pairing_for_active_user_def save_pairing_transition_def
  by (intro keeps_if keeps_expired keeps_transaction keeps_pure db_advance_order
      transition_advance [OF assms]; assumption)+

lemma valid_consumed:
  assumes "valid_pairing p" "consumable_row p r" "par_status p = PairConsumed" "valid_pairing r"
  shows "r\<lparr>par_status := PairConsumed, par_consumed_at := par_consumed_at p\<rparr> = p"
  using assms
  by (cases p; cases r)
    (auto simp: consumable_row_def pairing_key_def valid_pairing_def pairing_consistent_def)

lemma consumption_advance:
  assumes "valid_pairing p" "valid_session s" "representable now"
    "consumption_contract p s role" "consumption_body now p s v role d = Inr (x, d')"
  shows "db_advance d d'"
proof -
  let ?t = "max (the (par_consumed_at p)) now"
  have t: "representable ?t"
    using assms(1,3,4)
    by (auto simp: consumption_contract_def valid_pairing_def within_pairing_def max_def)
  have first: "db_advance d d1"
    if "update_pairings P (\<lambda>r. r\<lparr>par_status := PairConsumed, par_consumed_at := par_consumed_at p\<rparr>) d
        = Inr (n, d1)" "\<And>r. P r \<Longrightarrow> consumable_row p r" for P n d1
    by (rule update_pairings_advance [OF that(1)])
      (use assms(1,4) that(2) valid_consumed in \<open>auto simp: consumption_contract_def ok_defs\<close>)
  have s: "valid_session (s\<lparr>ses_revoked_at := None\<rparr>)"
    using assms(2,4) by (auto simp: consumption_contract_def valid_session_def)
  show ?thesis
  proof (cases "par_expires_at p \<le> ?t")
    case True
    with assms(5) show ?thesis
      by (auto simp: consumption_body_def Let_def result_simps consumable_row_def pairing_key_def
          split: if_splits intro: expire_advance(1) [OF _ t])
  next
    case False
    with assms(5) show ?thesis
      by (auto simp: consumption_body_def Let_def result_simps split: if_splits
          intro: db_advance_trans [OF first insert_session_advance [OF s]])
  qed
qed

lemma consume_keeps:
  assumes "valid_pairing p" "valid_session s" "representable now"
  shows "keeps db_advance (consume_pairing_and_create_session now p s v role)"
proof (cases "consumption_contract p s role")
  case True
  then show ?thesis
    by (auto simp: consume_pairing_and_create_session_def
        intro!: keeps_expired keeps_transaction intro: consumption_advance [OF assms])
qed (simp add: consume_pairing_and_create_session_def keeps_pure)

lemma delete_expired_pairings_keeps: "keeps db_advance (delete_expired_pairings t)"
  unfolding delete_expired_pairings_def
  by (rule keeps_transaction) (auto intro: delete_pairings_advance)

section \<open>Pairings move forward, sessions stay\<close>

lemma pending_pairing_same:
  assumes "valid_pairing p" "valid_pairing r" "pairing_key p r" "par_status p = PairPending"
    "par_status r = PairPending"
  shows "r = p"
  using assms
  by (cases p; cases r) (auto simp: pairing_key_def valid_pairing_def pairing_consistent_def)

lemma transition_follows:
  assumes "valid_pairing p" "valid_pairing r" "pairing_key p r" "transition_allowed p r"
  shows "pairing_follows r p"
  using assms pending_pairing_same [OF assms(1-3)]
  by (cases "par_status p") (auto simp: transition_allowed_def pairing_follows_def pairing_key_def split: if_splits)

lemma pairing_id_unique:
  "db_ok d \<Longrightarrow> unique_on par_pairing_id (db_pairings d)"
  "db_ok d \<Longrightarrow> p \<in> set (db_pairings d) \<Longrightarrow> valid_pairing p"
  by (auto simp: ok_defs)

lemma transition_none:
  assumes "db_ok d" "update_pairings (transition_row now p v d) (write_pairing p) d = Inr (n, d1)" "n \<noteq> 1"
  shows "d1 = d"
proof -
  have "transition_row now p v d r \<Longrightarrow> par_pairing_id r = par_pairing_id p" for r
    by (simp add: transition_row_def pairing_key_def)
  moreover have "count_where (transition_row now p v d) (db_pairings d) \<noteq> 1"
    using assms(2,3) by (simp add: update_pairings_Inr)
  ultimately have "\<forall>r \<in> set (db_pairings d). \<not> transition_row now p v d r"
    using count_where_unique [OF pairing_id_unique(1) [OF assms(1)]] by blast
  with assms(2) show ?thesis by (simp add: update_pairings_Inr update_where_none)
qed

lemma transition_pairings_follow:
  assumes "valid_pairing p" "representable now" "transition_body now p v d = Inr (x, d')"
  shows "pairings_follow d d'"
proof (cases "db_ok d")
  case True
  from assms(3) obtain n d1 where s1: "update_pairings (transition_row now p v d) (write_pairing p) d = Inr (n, d1)"
    and s2: "d' = d1 \<or> n \<noteq> 1 \<and> (\<exists>m. update_pairings (\<lambda>r. par_pairing_id r = par_pairing_id p \<and>
        par_status r = PairPending \<and> par_expires_at r \<le> now)
      (\<lambda>r. r\<lparr>par_status := PairExpired, par_expired_at := Some now\<rparr>) d1 = Inr (m, d'))"
    by (fastforce simp: transition_body_def result_simps split: if_splits option.splits)
  have "pairings_follow d d1"
  proof (rule pairings_follow_update [where P = "transition_row now p v d" and f = "write_pairing p"])
    show "db_pairings d1 = update_where (transition_row now p v d) (write_pairing p) (db_pairings d)"
      using s1 by (simp add: update_pairings_Inr)
    fix r assume r: "r \<in> set (db_pairings d)" "transition_row now p v d r"
    then have k: "pairing_key p r" "transition_allowed p r" by (simp_all add: transition_row_def)
    with transition_follows [OF assms(1) pairing_id_unique(2) [OF True r(1)]]
    show "par_pairing_id (write_pairing p r) = par_pairing_id r \<and> pairing_follows r (write_pairing p r)"
      by (simp add: write_pairing_same pairing_key_def)
  qed
  with s2 transition_none [OF True s1] show ?thesis
    by (auto intro: expire_advance(2) [OF _ assms(2)])
qed (simp add: pairings_follow_def)

lemma consumption_pairings_follow:
  assumes "valid_pairing p" "representable now" "consumption_contract p s role"
    "consumption_body now p s v role d = Inr (x, d')"
  shows "pairings_follow d d'" "sessions_follow d d'"
proof -
  let ?t = "max (the (par_consumed_at p)) now"
  have t: "representable ?t"
    using assms(1-3)
    by (auto simp: consumption_contract_def valid_pairing_def within_pairing_def max_def)
  let ?f = "\<lambda>r. r\<lparr>par_status := PairConsumed, par_consumed_at := par_consumed_at p\<rparr>"
  have first: "pairings_follow d d2"
    if "update_pairings P ?f d = Inr (n, d1)" "insert_session s' d1 = Inr d2" "\<And>r. P r \<Longrightarrow> consumable_row p r"
    for P n d1 d2 s'
    by (rule pairings_follow_update [where P = P and f = ?f])
      (use that in \<open>auto simp: statement_simps consumable_row_def pairing_follows_def\<close>)
  have second: "sessions_follow d d2"
    if "update_pairings P f d = Inr (n, d1)" "insert_session s' d1 = Inr d2" for P f n d1 d2 s'
    by (rule sessions_follow_new [where s = s']) (use that in \<open>auto simp: statement_simps\<close>)
  show "pairings_follow d d'"
    using assms(4)
    by (auto simp: consumption_body_def Let_def result_simps consumable_row_def pairing_key_def
        split: if_splits intro: expire_advance(2) [OF _ t] first)
  show "sessions_follow d d'"
  proof (cases "par_expires_at p \<le> ?t")
    case True
    with assms(4) show ?thesis
      by (auto simp: consumption_body_def Let_def result_simps update_pairings_Inr split: if_splits)
  next
    case False
    with assms(4) show ?thesis
      by (auto simp: consumption_body_def Let_def result_simps split: if_splits intro: second)
  qed
qed

section \<open>What the operations do\<close>

lemma consumable_live:
  assumes "db_ok d" "r \<in> set (db_pairings d)" "consumable_row p r"
  shows "\<not> pairing_referenced (db_sessions d) r" "pairing_update_allowed (db_sessions d) r q"
    "Some (par_pairing_id p) \<notin> ses_source_pairing ` set (db_sessions d)"
proof -
  have "par_status r \<noteq> PairConsumed" using assms(3) by (simp add: consumable_row_def)
  then show "\<not> pairing_referenced (db_sessions d) r" by (rule authorized_unreferenced [OF assms(1,2)])
  then show "pairing_update_allowed (db_sessions d) r q"
    and "Some (par_pairing_id p) \<notin> ses_source_pairing ` set (db_sessions d)"
    using assms(3)
    by (auto simp: pairing_update_allowed_def pairing_referenced_def list_ex_iff consumable_row_def
        pairing_key_def image_iff)
qed

text \<open>Replacing the consumable row of a valid consumed pairing satisfies every constraint.\<close>

lemma consume_statement:
  assumes "db_ok d" "valid_pairing p" "par_status p = PairConsumed" "r \<in> set (db_pairings d)"
    "consumable_row p r" "Q r"
  shows "update_pairings (\<lambda>q. consumable_row p q \<and> Q q)
      (\<lambda>q. q\<lparr>par_status := PairConsumed, par_consumed_at := par_consumed_at p\<rparr>) d =
    Inr (1, d\<lparr>db_pairings := update_where (\<lambda>q. par_pairing_id q = par_pairing_id p) (\<lambda>q. p) (db_pairings d)\<rparr>)"
    (is "update_pairings ?P ?f d = _")
proof -
  note unique = pairing_id_unique(1) [OF assms(1)]
  have row: "q = r" if "q \<in> set (db_pairings d)" "par_pairing_id q = par_pairing_id p" for q
    using that assms(4,5) unique by (auto simp: consumable_row_def pairing_key_def dest: unique_onD)
  have key: "?P q \<Longrightarrow> par_pairing_id q = par_pairing_id p" for q
    by (simp add: consumable_row_def pairing_key_def)
  have fr: "?f r = p"
    using valid_consumed [OF assms(2,5,3) pairing_id_unique(2) [OF assms(1,4)]] .
  have "pairing_check p" "pred_option (user_exists d) (par_user_id p)"
    using assms(1,2,4,5) by (auto simp: valid_pairing_check consumable_row_def ok_defs)
  with fr have ok: "pairing_check (?f r)" "pred_option (user_exists d) (par_user_id (?f r))"
      "pairing_update_allowed (db_sessions d) r (?f r)"
    using consumable_live(2) [OF assms(1,4,5)] by simp_all
  have "\<forall>q \<in> set (db_pairings d). ?P q \<longrightarrow> pairing_check (?f q) \<and>
      pred_option (user_exists d) (par_user_id (?f q)) \<and>
      pairing_update_allowed (db_sessions d) q (?f q)"
  proof (intro ballI impI)
    fix q assume q: "q \<in> set (db_pairings d)" "?P q"
    have qr: "q = r" by (rule row [OF q(1) key [OF q(2)]])
    show "pairing_check (?f q) \<and> pred_option (user_exists d) (par_user_id (?f q)) \<and>
      pairing_update_allowed (db_sessions d) q (?f q)" unfolding qr by (intro conjI ok)
  qed
  moreover have "count_where ?P (db_pairings d) = 1"
    by (rule count_where_le_1 [OF unique key, THEN iffD2]) (use assms(4-6) in auto)
  moreover have "update_where ?P ?f (db_pairings d) =
      update_where (\<lambda>q. par_pairing_id q = par_pairing_id p) (\<lambda>q. p) (db_pairings d)"
  proof (rule update_where_cong)
    fix q assume q: "q \<in> set (db_pairings d)"
    show "?P q = (par_pairing_id q = par_pairing_id p)"
      using key [of q] row [OF q] assms(5,6) by blast
    show "?f q = p" if "par_pairing_id q = par_pairing_id p"
      unfolding row [OF q that] by (rule fr)
  qed
  ultimately show ?thesis by (simp add: update_pairings_Inr)
qed

lemma consumable_row_valid:
  assumes "valid_pairing p" "consumption_contract p s role" "consumable_row p r" "the (par_consumed_at p) \<le> t"
  shows "par_created_at r \<le> t" "later_than (par_authorized_at r) (Some t)"
  using assms
  by (auto simp: consumption_contract_def consumable_row_def pairing_key_def valid_pairing_def
      within_pairing_def pairing_consistent_def later_than_def)

lemma active_in_role_exists: "active_in_role d i role v \<Longrightarrow> pred_option (user_exists d) i"
  by (auto simp: active_in_role_def user_exists_def list_ex_iff)

lemma consumed_session_insert:
  assumes "db_ok d" "valid_pairing p" "valid_session s" "consumption_contract p s role"
    "r \<in> set (db_pairings d)" "consumable_row p r" "active_in_role d (par_user_id p) role v"
    and d1: "d1 = d\<lparr>db_pairings := update_where (\<lambda>q. par_pairing_id q = par_pairing_id p) (\<lambda>q. p) (db_pairings d)\<rparr>"
  shows "insert_session (s\<lparr>ses_revoked_at := None\<rparr>) d1 = Inr d2 \<longleftrightarrow>
    ses_session_id s \<notin> ses_session_id ` set (db_sessions d) \<and>
    ses_token_digest s \<notin> ses_token_digest ` set (db_sessions d) \<and>
    d2 = d1\<lparr>db_sessions := db_sessions d @ [s]\<rparr>"
proof -
  have same: "s\<lparr>ses_revoked_at := None\<rparr> = s" using assms(4) by (simp add: consumption_contract_def)
  have "p \<in> set (db_pairings d1)"
    using assms(5,6) by (auto simp: d1 consumable_row_def pairing_key_def intro!: image_eqI [of _ _ r])
  then have "session_correlated (db_pairings d1) s"
    using assms(4) by (auto simp: session_correlated_def consumption_contract_def list_ex_iff)
  moreover have "user_exists d1 (ses_user_id s)"
    using active_in_role_exists [OF assms(7)] assms(4) by (auto simp: consumption_contract_def d1)
  moreover have "ses_source_pairing s \<notin> ses_source_pairing ` set (db_sessions d)"
    using consumable_live(3) [OF assms(1,5,6)] assms(4) by (simp add: consumption_contract_def)
  ultimately show ?thesis
    using valid_session_check [OF assms(3)] by (auto simp: same insert_session_Inr d1)
qed

lemma consume_outcome:
  assumes "db_ok d" "valid_pairing p" "valid_session s" "t = max (the (par_consumed_at p)) now"
  shows "consume_pairing_and_create_session now p s revision role d = (Inr (), d') \<longleftrightarrow>
    consumption_contract p s role \<and> t < par_expires_at p \<and> t < ses_expires_at s \<and>
    (\<exists>r \<in> set (db_pairings d). consumable_row p r) \<and>
    active_in_role d (par_user_id p) ''student'' revision \<and>
    ses_session_id s \<notin> ses_session_id ` set (db_sessions d) \<and>
    ses_token_digest s \<notin> ses_token_digest ` set (db_sessions d) \<and>
    d' = d\<lparr>db_pairings := update_where (\<lambda>q. par_pairing_id q = par_pairing_id p) (\<lambda>q. p) (db_pairings d),
           db_sessions := db_sessions d @ [s]\<rparr>"
proof (cases "consumption_contract p s role \<and> \<not> par_expires_at p \<le> t \<and> \<not> ses_expires_at s \<le> t")
  case False
  then show ?thesis
    by (auto simp: consume_pairing_and_create_session_def consumption_body_def assms(4) [symmetric] Let_def
        action_simps result_simps split: if_splits)
next
  case True
  let ?Q = "\<lambda>r. par_created_at r \<le> t \<and> later_than (par_authorized_at r) (Some t) \<and> t < par_expires_at r \<and>
    active_in_role d (par_user_id r) role revision"
  let ?f = "\<lambda>q. q\<lparr>par_status := PairConsumed, par_consumed_at := par_consumed_at p\<rparr>"
  let ?d1 = "d\<lparr>db_pairings := update_where (\<lambda>q. par_pairing_id q = par_pairing_id p) (\<lambda>q. p) (db_pairings d)\<rparr>"
  have role: "role = ''student''" "par_status p = PairConsumed"
    using True by (simp_all add: consumption_contract_def)
  have run: "consume_pairing_and_create_session now p s revision role d = (Inr (), d') \<longleftrightarrow>
      (\<exists>d1. update_pairings (\<lambda>r. consumable_row p r \<and> ?Q r) ?f d = Inr (1, d1) \<and>
        insert_session (s\<lparr>ses_revoked_at := None\<rparr>) d1 = Inr d')"
    using True
    by (auto simp: consume_pairing_and_create_session_def consumption_body_def assms(4) [symmetric] Let_def
        action_simps result_simps split: if_splits)
  show ?thesis
  proof (cases "(\<exists>r \<in> set (db_pairings d). consumable_row p r) \<and> active_in_role d (par_user_id p) role revision")
    case none: False
    have "\<not> (\<exists>r \<in> set (db_pairings d). consumable_row p r \<and> ?Q r)"
      using none by (auto simp: consumable_row_def)
    then have "count_where (\<lambda>r. consumable_row p r \<and> ?Q r) (db_pairings d) = 0"
      by (simp only: count_where_eq_0) blast
    then have "1 \<noteq> count_where (\<lambda>r. consumable_row p r \<and> ?Q r) (db_pairings d)" by linarith
    then have "\<not> (\<exists>d1. update_pairings (\<lambda>r. consumable_row p r \<and> ?Q r) ?f d = Inr (1, d1))"
      unfolding update_pairings_Inr by blast
    then show ?thesis unfolding run using none unfolding role(1) by blast
  next
    case some: True
    then obtain r where r: "r \<in> set (db_pairings d)" "consumable_row p r" by blast
    have "the (par_consumed_at p) \<le> t" by (simp add: assms(4))
    note live = consumable_row_valid [OF assms(2) conjunct1 [OF True] r(2) this]
    have "?Q r" using live True r(2) some by (auto simp: consumable_row_def pairing_key_def)
    note upd = consume_statement [OF assms(1,2) role(2) r, of ?Q, OF this]
    have "consume_pairing_and_create_session now p s revision role d = (Inr (), d') \<longleftrightarrow>
        insert_session (s\<lparr>ses_revoked_at := None\<rparr>) ?d1 = Inr d'"
      unfolding run upd by auto
    also have "\<dots> \<longleftrightarrow> ses_session_id s \<notin> ses_session_id ` set (db_sessions d) \<and>
        ses_token_digest s \<notin> ses_token_digest ` set (db_sessions d) \<and>
        d' = ?d1\<lparr>db_sessions := db_sessions d @ [s]\<rparr>"
      using some True r by (intro consumed_session_insert [OF assms(1-3) _ r]) auto
    finally show ?thesis using True some r role by auto
  qed
qed

text \<open>C2. Consuming a pairing and creating its session is one atomic exchange. It succeeds exactly when
  the arguments meet the contract, neither pairing nor session has expired at the later of the
  consumption instant and the storage clock, the stored pairing is still the authorized row
  that was read, its owner is an active student at the revision that was read, and session
  identifier and token digest are fresh; the pairing row becomes the consumed pairing and the
  session is added. No schema constraint can refuse it.\<close>

theorem consume_iff:
  assumes "db_ok d" "valid_pairing p" "valid_session s" "t = max (the (par_consumed_at p)) now"
  shows "consume_pairing_and_create_session now p s revision role d = (Inr (), d') \<longleftrightarrow>
    consumption_contract p s role \<and> t < par_expires_at p \<and> t < ses_expires_at s \<and>
    (\<exists>r \<in> set (db_pairings d). consumable_row p r) \<and>
    active_in_role d (par_user_id p) ''student'' revision \<and>
    ses_session_id s \<notin> ses_session_id ` set (db_sessions d) \<and>
    ses_token_digest s \<notin> ses_token_digest ` set (db_sessions d) \<and>
    d' = d\<lparr>db_pairings := update_where (\<lambda>q. par_pairing_id q = par_pairing_id p) (\<lambda>q. p) (db_pairings d),
           db_sessions := db_sessions d @ [s]\<rparr>"
  using assms by (rule consume_outcome)

text \<open>When the exchange fails, either the database is as before, or the pairing had expired: then no
  session was created and the only change is that its authorized row is now expired.\<close>

theorem consume_failure_frame:
  assumes "consume_pairing_and_create_session now p s revision role d = (Inl e, d')"
  shows "d' = d \<or>
    e = PairingExpiredConflict \<and> par_expires_at p \<le> max (the (par_consumed_at p)) now \<and>
    d' = d\<lparr>db_pairings := update_where (consumable_row p)
      (\<lambda>r. r\<lparr>par_status := PairExpired, par_expired_at := Some (max (the (par_consumed_at p)) now)\<rparr>)
      (db_pairings d)\<rparr>"
  using assms
  by (auto simp: consume_pairing_and_create_session_def consumption_body_def Let_def action_simps
      result_simps update_pairings_Inr split: if_splits)

text \<open>
  A statement whose condition picks at most the row with a given identifier updates that row or
  nothing.
\<close>

lemma update_one_pairing:
  assumes "db_ok d" "r \<in> set (db_pairings d)" "P r" "\<And>q. P q \<Longrightarrow> par_pairing_id q = i"
    and "pairing_check (f r)" "pred_option (user_exists d) (par_user_id (f r))" "par_status r \<noteq> PairConsumed"
  shows "update_pairings P f d =
    Inr (1, d\<lparr>db_pairings := update_where (\<lambda>q. par_pairing_id q = i) (\<lambda>q. f r) (db_pairings d)\<rparr>)"
proof -
  note unique = pairing_id_unique(1) [OF assms(1)]
  have i: "par_pairing_id r = i" by (rule assms(4) [OF assms(3)])
  have row: "q = r" if "q \<in> set (db_pairings d)" "par_pairing_id q = i" for q
    using that assms(2) i unique by (auto dest: unique_onD)
  have allowed: "pairing_update_allowed (db_sessions d) r (f r)"
    using authorized_unreferenced [OF assms(1,2,7)] by (simp add: pairing_update_allowed_def)
  have "\<forall>q \<in> set (db_pairings d). P q \<longrightarrow> pairing_check (f q) \<and>
      pred_option (user_exists d) (par_user_id (f q)) \<and> pairing_update_allowed (db_sessions d) q (f q)"
    using row assms(4-6) allowed by blast
  moreover have "count_where P (db_pairings d) = 1"
    by (rule count_where_le_1 [OF unique assms(4), THEN iffD2]) (use assms(2,3) in auto)
  moreover have "update_where P f (db_pairings d) =
      update_where (\<lambda>q. par_pairing_id q = i) (\<lambda>q. f r) (db_pairings d)"
    by (rule update_where_cong) (use row assms(3,4) in blast)+
  ultimately show ?thesis by (simp add: update_pairings_Inr)
qed

lemma authorize_outcome:
  assumes "db_ok d" "valid_pairing p" "par_status p = PairAuthorized" "par_user_id p = Some i" "representable now"
  shows "save_pairing_for_active_user now p revision d =
    (case lookup_by par_pairing_id (db_pairings d) (par_pairing_id p) of
       None \<Rightarrow> (Inl StorageNotFound, d)
     | Some r \<Rightarrow>
         if pairing_key p r \<and> par_status r = PairPending \<and> now < par_expires_at r \<and> user_at_revision d i revision
         then (Inr (), d\<lparr>db_pairings :=
           update_where (\<lambda>q. par_pairing_id q = par_pairing_id p) (\<lambda>q. p) (db_pairings d)\<rparr>)
         else if par_status r = PairPending \<and> par_expires_at r \<le> now
         then (Inl PairingExpiredConflict, d\<lparr>db_pairings :=
           update_where (\<lambda>q. par_pairing_id q = par_pairing_id p)
             (\<lambda>q. r\<lparr>par_status := PairExpired, par_expired_at := Some now\<rparr>) (db_pairings d)\<rparr>)
         else (Inl StorageConflict, d))"
proof -
  let ?P = "transition_row now p (Some revision) d"
  have P: "?P r \<longleftrightarrow> pairing_key p r \<and> par_status r = PairPending \<and> user_at_revision d i revision \<and>
      now < par_expires_at r" for r
    using assms(3,4) by (simp add: transition_row_def transition_allowed_def)
  have key: "?P q \<Longrightarrow> par_pairing_id q = par_pairing_id p" for q by (simp add: P pairing_key_def)
  have look: "lookup_by par_pairing_id (db_pairings d) (par_pairing_id p) = Some r \<longleftrightarrow>
      r \<in> set (db_pairings d) \<and> par_pairing_id r = par_pairing_id p" for r
    by (rule lookup_by_Some_iff [OF pairing_id_unique(1) [OF assms(1)]])
  have "user_at_revision d i revision \<Longrightarrow> user_exists d i"
    by (auto simp: user_at_revision_def user_exists_def list_ex_iff)
  then have hit: "update_pairings ?P (write_pairing p) d = Inr (1, d\<lparr>db_pairings :=
        update_where (\<lambda>q. par_pairing_id q = par_pairing_id p) (\<lambda>q. p) (db_pairings d)\<rparr>)"
    if "r \<in> set (db_pairings d)" "?P r" for r
    using update_one_pairing [where P = ?P and f = "write_pairing p", OF assms(1) that key] that
      valid_pairing_check [OF assms(2)] assms(4) by (simp add: P write_pairing_same)
  have miss: "update_pairings ?P (write_pairing p) d = Inr (0, d)"
    if "\<And>r. r \<in> set (db_pairings d) \<Longrightarrow> \<not> ?P r"
    using that by (simp add: update_pairings_Inr update_where_none) 
  have save: "save_pairing_for_active_user now p revision d =
      bind_act (transaction (transition_body now p (Some revision))) (\<lambda>expired.
        if expired then raise_act PairingExpiredConflict else return_act ()) d"
    by (simp add: save_pairing_for_active_user_def save_pairing_transition_def assms(4))
  show ?thesis
  proof (cases "lookup_by par_pairing_id (db_pairings d) (par_pairing_id p)")
    case None
    then have "\<not> ?P r" if "r \<in> set (db_pairings d)" for r
      using that key [of r] by (auto simp: image_iff)
    from miss [OF this] None show ?thesis
      by (simp del: lookup_by_None add: save transition_body_def transaction_def bind_act_def)
  next
    case (Some r)
    then have r: "r \<in> set (db_pairings d)" "par_pairing_id r = par_pairing_id p" using look by blast+
    show ?thesis
    proof (cases "?P r")
      case True
      with hit [OF r(1) True] Some show ?thesis
        by (simp add: save transition_body_def transaction_def bind_act_def P return_act_def)
    next
      case False
      then have none: "\<not> ?P q" if "q \<in> set (db_pairings d)" for q
        using that r key [of q] pairing_id_unique(1) [OF assms(1)] by (metis unique_onD)
      let ?R = "\<lambda>q. par_pairing_id q = par_pairing_id p \<and> par_status q = PairPending \<and> par_expires_at q \<le> now"
      let ?f = "\<lambda>q. q\<lparr>par_status := PairExpired, par_expired_at := Some now\<rparr>"
      have late: "update_pairings ?R ?f d = Inr (1, d\<lparr>db_pairings :=
          update_where (\<lambda>q. par_pairing_id q = par_pairing_id p) (\<lambda>q. ?f r) (db_pairings d)\<rparr>)"
        if "par_status r = PairPending" "par_expires_at r \<le> now"
      proof (rule update_one_pairing [OF assms(1) r(1)])
        have "valid_pairing r" using pairing_id_unique(2) [OF assms(1) r(1)] .
        with that assms(5) show "pairing_check (?f r)" by (intro valid_pairing_check valid_expired) auto
        show "pred_option (user_exists d) (par_user_id (?f r))"
          using assms(1) r(1) by (auto simp: ok_defs)
      qed (use that r in auto)
      from False miss [OF none] Some late show ?thesis
        by (auto simp: save transition_body_def transaction_def bind_act_def P assms(3) raise_act_def)
    qed
  qed
qed

text \<open>Authorizing a pairing for an active user: the stored pending row becomes the authorized pairing
  when it is the generation that was read, has not expired on the storage clock, and the user
  is active at the revision that was read. A row that expired in the meantime is committed as
  expired although the caller gets an error; any other obstacle leaves the database alone. No
  constraint interferes.\<close>

theorem authorize_exact:
  assumes "db_ok d" "valid_pairing p" "par_status p = PairAuthorized" "par_user_id p = Some i" "representable now"
  shows "save_pairing_for_active_user now p revision d =
    (case lookup_by par_pairing_id (db_pairings d) (par_pairing_id p) of
       None \<Rightarrow> (Inl StorageNotFound, d)
     | Some r \<Rightarrow>
         if pairing_key p r \<and> par_status r = PairPending \<and> now < par_expires_at r \<and> user_at_revision d i revision
         then (Inr (), d\<lparr>db_pairings :=
           update_where (\<lambda>q. par_pairing_id q = par_pairing_id p) (\<lambda>q. p) (db_pairings d)\<rparr>)
         else if par_status r = PairPending \<and> par_expires_at r \<le> now
         then (Inl PairingExpiredConflict, d\<lparr>db_pairings :=
           update_where (\<lambda>q. par_pairing_id q = par_pairing_id p)
             (\<lambda>q. r\<lparr>par_status := PairExpired, par_expired_at := Some now\<rparr>) (db_pairings d)\<rparr>)
         else (Inl StorageConflict, d))"
  using assms by (rule authorize_outcome)

section \<open>What a caller can rely on\<close>

lemma transition_written:
  assumes "transition_body now p v d = Inr (False, d')"
  shows "p \<in> set (db_pairings d')" "db_users d' = db_users d"
    "v = Some rvn \<Longrightarrow> \<exists>i. par_user_id p = Some i \<and> user_at_revision d i rvn"
proof -
  have upd: "update_pairings (transition_row now p v d) (write_pairing p) d = Inr (1, d')"
    using assms by (auto simp: transition_body_def result_simps split: if_splits option.splits)
  then have "1 = count_where (transition_row now p v d) (db_pairings d)" unfolding update_pairings_Inr by blast
  then have "count_where (transition_row now p v d) (db_pairings d) \<noteq> 0" by linarith
  then obtain r where r: "r \<in> set (db_pairings d)" "transition_row now p v d r"
    unfolding count_where_eq_0 by blast
  have d': "d' = d\<lparr>db_pairings := update_where (transition_row now p v d) (write_pairing p) (db_pairings d)\<rparr>"
    using upd unfolding update_pairings_Inr by blast
  have "write_pairing p r = p" using r(2) by (intro write_pairing_same) (simp add: transition_row_def)
  then show "p \<in> set (db_pairings d')"
    using r by (auto simp: d' update_where_def intro!: image_eqI [of _ _ r])
  show "db_users d' = db_users d" by (simp add: d')
  show "v = Some rvn \<Longrightarrow> \<exists>i. par_user_id p = Some i \<and> user_at_revision d i rvn"
    using r(2) by (auto simp: transition_row_def split: option.splits)
qed

lemma saved_pairing:
  assumes "save_pairing now p d = (Inr (), d')"
  shows "p \<in> set (db_pairings d')"
  using assms transition_written(1) [of now p None d d']
  by (auto simp: save_pairing_def save_pairing_transition_def action_simps split: if_splits)

lemma saved_pairing_for_user:
  assumes "save_pairing_for_active_user now p rvn d = (Inr (), d')"
  shows "p \<in> set (db_pairings d')" "db_users d' = db_users d"
    "\<exists>i. par_user_id p = Some i \<and> user_at_revision d i rvn"
  using assms transition_written [of now p "Some rvn" d d']
  by (auto simp: save_pairing_for_active_user_def save_pairing_transition_def action_simps split: if_splits)

lemma consumed_pairing:
  assumes "db_ok d" "valid_pairing p" "valid_session s"
    "consume_pairing_and_create_session now p s rvn role d = (Inr (), d')"
  shows "p \<in> set (db_pairings d')" "s \<in> set (db_sessions d')" "par_status p = PairConsumed"
    "db_users d' = db_users d"
    "\<exists>u \<in> set (db_users d). acc_user_id u = ses_user_id s \<and> acc_active u \<and> acc_role u = RoleStudent \<and>
       acc_updated_at u = rvn"
proof -
  note out = assms(4) [unfolded consume_outcome [OF assms(1-3) refl]]
  then obtain r where r: "r \<in> set (db_pairings d)" "consumable_row p r" by blast
  have d': "d' = d\<lparr>db_pairings := update_where (\<lambda>q. par_pairing_id q = par_pairing_id p) (\<lambda>q. p) (db_pairings d),
           db_sessions := db_sessions d @ [s]\<rparr>" using out by blast
  show "p \<in> set (db_pairings d')"
    using r by (auto simp: d' update_where_def consumable_row_def pairing_key_def intro!: image_eqI [of _ _ r])
  show "s \<in> set (db_sessions d')" "db_users d' = db_users d" by (simp_all add: d')
  have contract: "consumption_contract p s role" using out by blast
  then show "par_status p = PairConsumed" by (simp add: consumption_contract_def)
  have "role_text q = ''student'' \<Longrightarrow> q = RoleStudent" for q by (cases q) simp_all
  then show "\<exists>u \<in> set (db_users d). acc_user_id u = ses_user_id s \<and> acc_active u \<and> acc_role u = RoleStudent \<and>
       acc_updated_at u = rvn"
    using out contract by (auto simp: active_in_role_def consumption_contract_def list_ex_iff)
qed

end
