(* ===== verification/School_Invariant.thy ===== *)
theory School_Invariant
  imports Store_Invariant
begin

text \<open>
  The statements on classes, memberships, group mappings and subject bindings: when they
  succeed, that they keep the integrity of the database, and how they let rows evolve.
\<close>

section \<open>Classes and memberships\<close>

lemma update_classes_Inr [statement_simps]:
  "update_classes P f d = Inr (n, d') \<longleftrightarrow>
     (\<forall>c \<in> set (db_classes d). P c \<longrightarrow> cls_created_at (f c) \<le> cls_updated_at (f c)) \<and>
     n = count_where P (db_classes d) \<and> d' = d\<lparr>db_classes := update_where P f (db_classes d)\<rparr>"
  by (auto simp: update_classes_def list_all_iff)

lemma class_exists_cong:
  "cls_class_id ` set (db_classes d) = cls_class_id ` set (db_classes d') \<Longrightarrow> class_exists d = class_exists d'"
  by (simp add: class_exists_def fun_eq_iff)

lemma update_classes_advance:
  assumes "update_classes P f d = Inr (n, d')"
    and "\<And>c. cls_class_id (f c) = cls_class_id c" "\<And>c. cls_created_at (f c) = cls_created_at c"
    and "\<And>c. db_ok d \<Longrightarrow> c \<in> set (db_classes d) \<Longrightarrow> P c \<Longrightarrow> valid_class (f c)"
    and "\<And>c. c \<in> set (db_classes d) \<Longrightarrow> P c \<Longrightarrow> cls_updated_at c < cls_updated_at (f c)"
  shows "db_advance d d'"
proof (rule db_advanceI)
  have d': "d' = d\<lparr>db_classes := update_where P f (db_classes d)\<rparr>" using assms(1) by (simp add: statement_simps)
  have "cls_class_id (if P c then f c else c) = cls_class_id c" for c by (simp add: assms(2))
  then have same: "class_exists d' = class_exists d"
    by (intro class_exists_cong) (simp add: d' image_image del: image_Un if_image_distrib)
  show "db_ok d'" if ok: "db_ok d"
  proof -
    have "classes_ok d'"
      using ok assms(2,4) same by (auto simp: db_ok_def classes_ok_def list_all_iff d' unique_on_update)
    moreover have "mappings_ok d'" using ok same by (auto simp: db_ok_def mappings_ok_def d' list_all_iff)
    moreover have "bindings_ok d'" using ok same by (auto simp: db_ok_def bindings_ok_def d' list_all_iff)
    ultimately show ?thesis using ok by (simp add: db_ok_def d')
  qed
  have "\<exists>c' \<in> set (db_classes d'). class_key c' = class_key c \<and> (c' = c \<or> cls_updated_at c < cls_updated_at c')"
    if "c \<in> set (db_classes d)" for c
  proof -
    have "(if P c then f c else c) \<in> set (db_classes d')" using that by (simp add: d' del: if_image_distrib)
    then show ?thesis
      using assms(2,3,5) that by (intro bexI [of _ "if P c then f c else c"]) (auto simp: class_key_def)
  qed
  then show "school_advance d d'" by (auto simp: school_advance_def d')
qed (use assms(1) in \<open>simp_all add: statement_simps\<close>)

lemma upsert_membership_advance:
  assumes "valid_membership m" "upsert_membership m d = Inr d'"
  shows "db_advance d d'"
proof -
  obtain ms where d': "d' = d\<lparr>db_memberships := ms\<rparr>"
    using assms(2) by (auto simp: upsert_membership_def split: if_splits)
  show ?thesis
  proof (rule db_advanceI)
    show "db_ok d'" if "db_ok d"
      using that assms
      by (auto simp: upsert_membership_def db_ok_def classes_ok_def list_all_iff unique_on_update mem_key_def
          valid_membership_def split: if_splits)
  qed (simp_all add: d')
qed

lemma delete_memberships_advance: "delete_memberships P d = (n, d') \<Longrightarrow> db_advance d d'"
  by (rule db_advanceI) (auto simp: delete_memberships_def intro: db_ok_memberships_subset)

section \<open>Group mappings\<close>

lemma insert_mapping_Inr [statement_simps]:
  "insert_mapping m d = Inr d' \<longleftrightarrow> map_provider_key m \<notin> map_provider_key ` set (db_mappings d) \<and>
     class_exists d (map_class_id m) \<and> d' = d\<lparr>db_mappings := db_mappings d @ [m]\<rparr>"
  by (auto simp: insert_mapping_def)

lemma insert_mapping_advance:
  "valid_mapping m \<Longrightarrow> (map_provider_key m, map_created_at m) \<in> set (db_map_generations d) \<Longrightarrow>
     insert_mapping m d = Inr d' \<Longrightarrow> db_advance d d'"
  by (rule db_advanceI) (auto simp: statement_simps db_ok_def mappings_ok_def)

lemma foldr_max_le: "t \<in> set ts \<Longrightarrow> t \<le> foldr max ts (a :: int)"
  by (induction ts) auto

lemma foldr_max_hd: "ts \<noteq> [] \<Longrightarrow> foldr max ts (hd ts) \<in> set ts" for ts :: "int list"
proof -
  have "foldr max ts a \<in> insert a (set ts)" for a :: int and ts
    by (induction ts) (auto simp: max_def)
  then show "ts \<noteq> [] \<Longrightarrow> foldr max ts (hd ts) \<in> set ts" by (cases ts) (auto simp: max_def)
qed

text \<open>A generation is reserved exactly when it is later than every earlier one of the same key.\<close>

lemma reserve_mapping_generation_Inr [statement_simps]:
  "reserve_mapping_generation key t d = Inr d' \<longleftrightarrow>
     (\<forall>u. (key, u) \<in> set (db_map_generations d) \<longrightarrow> u < t) \<and>
     d' = d\<lparr>db_map_generations := db_map_generations d @ [(key, t)]\<rparr>"
proof -
  let ?ts = "map snd (filter (\<lambda>g. fst g = key) (db_map_generations d))"
  have mem: "u \<in> set ?ts \<longleftrightarrow> (key, u) \<in> set (db_map_generations d)" for u
    by (cases key) (force simp: image_iff)
  have "(case latest_mapping_generation d key of None \<Rightarrow> False | Some u \<Rightarrow> t \<le> u) \<longleftrightarrow>
      (\<exists>u. (key, u) \<in> set (db_map_generations d) \<and> t \<le> u)"
  proof (cases "?ts = []")
    case True
    then show ?thesis by (auto simp: latest_mapping_generation_def mem [symmetric] simp del: set_map)
  next
    case False
    then have "t \<le> foldr max ?ts (hd ?ts) \<longleftrightarrow> (\<exists>u \<in> set ?ts. t \<le> u)"
      using foldr_max_le [of _ ?ts] foldr_max_hd [of ?ts] by (meson order_trans)
    with False show ?thesis by (simp add: latest_mapping_generation_def Let_def mem Bex_def del: set_map map_is_Nil_conv)
  qed
  then show ?thesis by (auto simp: reserve_mapping_generation_def not_le)
qed

lemma reserve_mapping_advance: "reserve_mapping_generation key t d = Inr d' \<Longrightarrow> db_advance d d'"
  by (auto simp: statement_simps db_advance_def db_ok_def mappings_ok_def list_all_iff school_advance_def)

lemma update_mappings_advance:
  assumes "update_mappings P name updated d = (n, d')" "optional_clean name" "representable updated"
    "\<And>r. r \<in> set (db_mappings d) \<Longrightarrow> P r \<Longrightarrow> map_created_at r \<le> updated"
  shows "db_advance d d'"
proof -
  have d': "d' = d\<lparr>db_mappings := update_where P
      (\<lambda>r. r\<lparr>map_display_name := name, map_updated_at := updated\<rparr>) (db_mappings d)\<rparr>"
    using assms(1) by (simp add: update_mappings_def)
  show ?thesis
  proof (rule db_advanceI)
    show "db_ok d'" if "db_ok d"
      using that assms(2-4)
      by (auto simp: d' db_ok_def mappings_ok_def list_all_iff unique_on_update map_provider_key_def valid_mapping_def)
  qed (simp_all add: d')
qed

lemma delete_mappings_advance: "delete_mappings P d = (n, d') \<Longrightarrow> db_advance d d'"
  by (rule db_advanceI) (auto simp: delete_mappings_def db_ok_def mappings_ok_def list_all_iff unique_on_delete)

section \<open>Subject bindings\<close>

lemma insert_binding_Inr [statement_simps]:
  "insert_binding b d = Inr d' \<longleftrightarrow> bnd_active b \<and> bnd_revision b = 1 \<and> bnd_updated_at b = bnd_created_at b \<and>
     active_student d (bnd_user_id b) \<and> binding_check b \<and> user_exists d (bnd_user_id b) \<and>
     bnd_subject_id b \<notin> bnd_subject_id ` set (db_bindings d) \<and>
     bnd_user_id b \<notin> bnd_user_id ` set (db_bindings d) \<and> d' = d\<lparr>db_bindings := db_bindings d @ [b]\<rparr>"
  by (auto simp: insert_binding_def)

lemma update_bindings_Inr [statement_simps]:
  "update_bindings P active revision updated d = Inr (n, d') \<longleftrightarrow>
     (\<forall>r \<in> set (db_bindings d). P r \<longrightarrow> revision = bnd_revision r + 1 \<and> bnd_updated_at r < updated \<and>
        (active \<longrightarrow> active_student d (bnd_user_id r)) \<and>
        binding_check (r\<lparr>bnd_active := active, bnd_revision := revision, bnd_updated_at := updated\<rparr>)) \<and>
     n = count_where P (db_bindings d) \<and>
     d' = d\<lparr>db_bindings := update_where P
       (\<lambda>r. r\<lparr>bnd_active := active, bnd_revision := revision, bnd_updated_at := updated\<rparr>) (db_bindings d)\<rparr>"
  by (auto simp: update_bindings_def list_all_iff Let_def)

lemma insert_alias_Inr [statement_simps]:
  "insert_alias a d = Inr d' \<longleftrightarrow> alias_authority d a (\<lambda>b. True) \<and>
     \<not> list_all (\<lambda>c. c = CHR '' '') (als_legacy_id a) \<and> alias_key a \<notin> alias_key ` set (db_aliases d) \<and>
     class_exists d (als_class_id a) \<and> als_subject_id a \<in> bnd_subject_id ` set (db_bindings d) \<and>
     d' = d\<lparr>db_aliases := db_aliases d @ [a]\<rparr>"
  by (auto simp: insert_alias_def)

lemma insert_binding_advance: "valid_binding b \<Longrightarrow> insert_binding b d = Inr d' \<Longrightarrow> db_advance d d'"
  by (rule db_advanceI) (auto simp: statement_simps db_ok_def bindings_ok_def list_all_iff school_advance_def)

lemma update_bindings_advance:
  assumes "update_bindings P active revision updated d = Inr (n, d')" "representable updated"
  shows "db_advance d d'"
proof -
  let ?f = "\<lambda>r. r\<lparr>bnd_active := active, bnd_revision := revision, bnd_updated_at := updated\<rparr>"
  have d': "d' = d\<lparr>db_bindings := update_where P ?f (db_bindings d)\<rparr>"
    and chk: "\<forall>r \<in> set (db_bindings d). P r \<longrightarrow> revision = bnd_revision r + 1 \<and> bnd_updated_at r < updated \<and>
      binding_check (?f r)"
    using assms(1) by (auto simp: update_bindings_Inr)
  have ids: "bnd_subject_id ` set (db_bindings d') = bnd_subject_id ` set (db_bindings d)"
  proof -
    have "bnd_subject_id (if P r then ?f r else r) = bnd_subject_id r" for r by simp
    then show ?thesis by (simp add: d' image_image del: image_Un if_image_distrib)
  qed
  show ?thesis
  proof (rule db_advanceI)
    show "db_ok d'" if ok: "db_ok d"
    proof -
      have "list_all (\<lambda>b. valid_binding b \<and> user_exists d (bnd_user_id b)) (db_bindings d')"
        using ok chk assms(2)
        by (auto simp: d' db_ok_def bindings_ok_def list_all_iff valid_binding_def binding_check_def)
      moreover have "unique_on bnd_subject_id (db_bindings d')" "unique_on bnd_user_id (db_bindings d')"
        using ok by (simp_all add: d' db_ok_def bindings_ok_def unique_on_update)
      ultimately have "bindings_ok d'"
        using ok ids by (auto simp: db_ok_def bindings_ok_def) (auto simp: d')
      then show ?thesis using ok by (simp add: db_ok_def d')
    qed
    have "\<exists>b' \<in> set (db_bindings d'). binding_key b' = binding_key b \<and> (b' = b \<or> bnd_revision b < bnd_revision b')"
      if "b \<in> set (db_bindings d)" for b
    proof -
      have "(if P b then ?f b else b) \<in> set (db_bindings d')" using that by (simp add: d' del: if_image_distrib)
      then show ?thesis
        using chk that by (intro bexI [of _ "if P b then ?f b else b"]) (auto simp: binding_key_def)
    qed
    then show "school_advance d d'" by (auto simp: school_advance_def d')
  qed (simp_all add: d')
qed

lemma insert_alias_advance: "valid_alias a \<Longrightarrow> insert_alias a d = Inr d' \<Longrightarrow> db_advance d d'"
  by (rule db_advanceI) (auto simp: statement_simps db_ok_def bindings_ok_def list_all_iff school_advance_def)

lemmas school_rules = upsert_membership_advance delete_memberships_advance insert_mapping_advance
  reserve_mapping_advance delete_mappings_advance insert_binding_advance update_bindings_advance
  insert_alias_advance

end
