(* ===== verification/Dashboard_Scope.thy ===== *)
theory Dashboard_Scope
  imports Identity_Lifecycle
begin

text \<open>
  The contracts of dashboard authorization, \<^verbatim>\<open>scripts/thebitlab_dashboard_auth_ports.py\<close>: the
  snapshot a storage reads for one decision, and the scope that a granted request carries to
  the data queries.
\<close>

datatype dashboard_error = DashboardValue | DashboardOverflow

definition dashboard_identifier :: "pyval \<Rightarrow> (dashboard_error, string) result" where
  "dashboard_identifier v = map_error (\<lambda>_. DashboardValue) (required_text False v)"

definition dashboard_utc :: "pyval \<Rightarrow> (dashboard_error, instant) result" where
  "dashboard_utc v =
     map_error (\<lambda>e. if e = DatetimeOverflow then DashboardOverflow else DashboardValue) (aware_datetime v)"

fun identifier_list :: "pyval list \<Rightarrow> (dashboard_error, string list) result" where
  "identifier_list [] = Inr []"
| "identifier_list (v # vs) =
     bind_result (dashboard_identifier v) (\<lambda>x. bind_result (identifier_list vs) (\<lambda>xs. Inr (x # xs)))"

definition class_id_tuple :: "pyval list \<Rightarrow> (dashboard_error, string list) result" where
  "class_id_tuple values =
     bind_result (identifier_list values) (\<lambda>ids.
       if ids \<noteq> sort (remdups ids) then Inl DashboardValue else Inr ids)"

definition exact_role :: "pyval \<Rightarrow> (dashboard_error, user_role) result" where
  "exact_role v =
     (case v of
        PyStr s \<Rightarrow> (case role_of_text s of None \<Rightarrow> Inl DashboardValue | Some r \<Rightarrow> Inr r)
      | _ \<Rightarrow> Inl DashboardValue)"

record dashboard_snapshot =
  dsh_actor_id :: string
  dsh_actor_role :: user_role
  dsh_actor_updated_at :: instant
  dsh_actor_classes :: "string list"
  dsh_target_id :: "string option"
  dsh_target_role :: "user_role option"
  dsh_target_classes :: "string list"

definition make_dashboard_snapshot ::
  "pyval \<Rightarrow> pyval \<Rightarrow> pyval \<Rightarrow> pyval list \<Rightarrow> pyval \<Rightarrow> pyval \<Rightarrow> pyval list \<Rightarrow>
   (dashboard_error, dashboard_snapshot) result"
where
  "make_dashboard_snapshot actor_id actor_role actor_updated_at actor_classes target_id target_role target_classes =
     bind_result (dashboard_identifier actor_id) (\<lambda>aid.
     bind_result (exact_role actor_role) (\<lambda>arole.
     bind_result (dashboard_utc actor_updated_at) (\<lambda>updated.
     bind_result (class_id_tuple actor_classes) (\<lambda>aclasses.
     if target_id = PyNone then
       (if target_role \<noteq> PyNone \<or> target_classes \<noteq> [] then Inl DashboardValue
        else Inr \<lparr>dsh_actor_id = aid, dsh_actor_role = arole, dsh_actor_updated_at = updated,
                  dsh_actor_classes = aclasses, dsh_target_id = None, dsh_target_role = None,
                  dsh_target_classes = []\<rparr>)
     else
       bind_result (dashboard_identifier target_id) (\<lambda>tid.
       bind_result (exact_role target_role) (\<lambda>trole.
       bind_result (class_id_tuple target_classes) (\<lambda>tclasses.
         Inr \<lparr>dsh_actor_id = aid, dsh_actor_role = arole, dsh_actor_updated_at = updated,
              dsh_actor_classes = aclasses, dsh_target_id = Some tid, dsh_target_role = Some trole,
              dsh_target_classes = tclasses\<rparr>)))))))"

datatype dashboard_kind = DashStudent | DashTeacher

record access_scope =
  scp_dashboard :: dashboard_kind
  scp_actor_id :: string
  scp_actor_role :: user_role
  scp_class_ids :: "string list"
  scp_student_id :: "string option"
  scp_all_classes :: bool

definition make_access_scope ::
  "dashboard_kind \<Rightarrow> pyval \<Rightarrow> user_role \<Rightarrow> pyval list \<Rightarrow> pyval \<Rightarrow> bool \<Rightarrow>
   (dashboard_error, access_scope) result"
where
  "make_access_scope dashboard actor_id role class_ids student_id all_classes =
     bind_result (dashboard_identifier actor_id) (\<lambda>aid.
     if role = RolePending then Inl DashboardValue
     else bind_result (class_id_tuple class_ids) (\<lambda>classes.
     if dashboard = DashTeacher then
       (if student_id \<noteq> PyNone then Inl DashboardValue
        else if role = RoleAdmin then
          (if \<not> all_classes \<or> classes \<noteq> [] then Inl DashboardValue
           else Inr \<lparr>scp_dashboard = dashboard, scp_actor_id = aid, scp_actor_role = role,
                     scp_class_ids = classes, scp_student_id = None, scp_all_classes = all_classes\<rparr>)
        else if role \<noteq> RoleTeacher \<or> all_classes \<or> classes = [] then Inl DashboardValue
        else Inr \<lparr>scp_dashboard = dashboard, scp_actor_id = aid, scp_actor_role = role,
                  scp_class_ids = classes, scp_student_id = None, scp_all_classes = all_classes\<rparr>)
     else if all_classes then Inl DashboardValue
     else if student_id = PyNone then Inl DashboardValue
     else bind_result (dashboard_identifier student_id) (\<lambda>sid.
       if classes = [] then Inl DashboardValue
       else if role = RoleStudent \<and> sid \<noteq> aid then Inl DashboardValue
       else Inr \<lparr>scp_dashboard = dashboard, scp_actor_id = aid, scp_actor_role = role,
                 scp_class_ids = classes, scp_student_id = Some sid, scp_all_classes = all_classes\<rparr>)))"

lemma dashboard_identifier_self [field_simps]: "clean_text t \<Longrightarrow> dashboard_identifier (PyStr t) = Inr t"
  by (simp add: dashboard_identifier_def field_simps)

lemma identifier_list_self [field_simps]: "list_all clean_text ts \<Longrightarrow> identifier_list (map PyStr ts) = Inr ts"
  by (induction ts) (simp_all add: field_simps)

lemma class_id_tuple_self [field_simps]:
  "list_all clean_text ts \<Longrightarrow> sorted ts \<Longrightarrow> distinct ts \<Longrightarrow> class_id_tuple (map PyStr ts) = Inr ts"
  by (simp add: class_id_tuple_def field_simps distinct_remdups_id sorted_sort_id)

lemma exact_role_self [field_simps]: "exact_role (PyStr (role_text r)) = Inr r"
  by (simp add: exact_role_def)

lemma dashboard_utc_self [field_simps]: "representable i \<Longrightarrow> dashboard_utc (utc_datetime i) = Inr i"
  by (simp add: dashboard_utc_def field_simps)

end
