(* ===== verification/Store_Classes.thy ===== *)
theory Store_Classes
  imports School_Invariant Store_Users Dashboard_Scope
begin

text \<open>
  The class directory of \<^verbatim>\<open>SQLiteIdentityStorage\<close>: classes, memberships and the snapshot for
  dashboard authorization.
\<close>

section \<open>Operations\<close>

definition create_class :: "class_group \<Rightarrow> unit db_action" where
  "create_class c = transaction (\<lambda>d. bind_result (insert_class c d) (\<lambda>d1. Inr ((), d1)))"

definition read_class :: "string \<Rightarrow> class_group option db_action" where
  "read_class i d = (hydrate_optional hydrate_class (lookup_by cls_class_id (db_classes d) i), d)"

definition save_class :: "class_group \<Rightarrow> instant \<Rightarrow> unit db_action" where
  "save_class c expected =
     (if cls_updated_at c \<le> expected then raise_act StorageConflict
      else transaction (\<lambda>d.
        bind_result
          (update_classes (\<lambda>r. cls_class_id r = cls_class_id c \<and> cls_created_at r = cls_created_at c \<and>
               cls_updated_at r = expected)
             (\<lambda>r. r\<lparr>cls_label := cls_label c, cls_school_year := cls_school_year c,
                    cls_active := cls_active c, cls_updated_at := cls_updated_at c\<rparr>) d) (\<lambda>(n, d1).
        if n \<noteq> 1 then
          (if \<not> class_exists d1 (cls_class_id c) then Inl StorageNotFound else Inl StorageConflict)
        else Inr ((), d1))))"

definition list_classes :: "bool \<Rightarrow> class_group list db_action" where
  "list_classes active_only d =
     (hydrate_all hydrate_class
        (sort_key cls_class_id (filter (\<lambda>c. \<not> active_only \<or> cls_active c) (db_classes d))), d)"

text \<open>The active classes of a user in one membership role, \<^verbatim>\<open>ORDER BY class_id\<close>.\<close>

definition active_class_ids :: "identity_db \<Rightarrow> string \<Rightarrow> string \<Rightarrow> string list" where
  "active_class_ids d i role =
     sort (map mem_class_id (filter (\<lambda>m. mem_user_id m = i \<and> member_text (mem_role m) = role \<and>
       class_open d (mem_class_id m)) (db_memberships d)))"

definition read_dashboard_snapshot ::
  "string \<Rightarrow> instant \<Rightarrow> string option \<Rightarrow> dashboard_snapshot option db_action" where
  "read_dashboard_snapshot actor_id expected target_id d =
     (case find (\<lambda>u. acc_user_id u = actor_id \<and> acc_active u \<and> acc_updated_at u = expected) (db_users d) of
        None \<Rightarrow> (Inr None, d)
      | Some actor \<Rightarrow>
          let target = (case target_id of
                None \<Rightarrow> None
              | Some i \<Rightarrow> find (\<lambda>u. acc_user_id u = i \<and> acc_active u) (db_users d));
              snapshot = make_dashboard_snapshot (PyStr (acc_user_id actor)) (PyStr (role_text (acc_role actor)))
                (utc_datetime (acc_updated_at actor))
                (map PyStr (active_class_ids d (acc_user_id actor) (role_text (acc_role actor))))
                (py_optional (\<lambda>u. PyStr (acc_user_id u)) target)
                (py_optional (\<lambda>u. PyStr (role_text (acc_role u))) target)
                (case target of None \<Rightarrow> [] | Some u \<Rightarrow> map PyStr (active_class_ids d (acc_user_id u) ''student''))
          in (case snapshot of
                Inl e \<Rightarrow> Inl StorageCorruption
              | Inr s \<Rightarrow> Inr (Some s), d))"

definition save_membership :: "class_membership \<Rightarrow> unit db_action" where
  "save_membership m = transaction (\<lambda>d. bind_result (upsert_membership m d) (\<lambda>d1. Inr ((), d1)))"

definition list_user_memberships :: "string \<Rightarrow> class_membership list db_action" where
  "list_user_memberships i d =
     (hydrate_all hydrate_membership (sort_key mem_class_id (sort_key (\<lambda>m. member_text (mem_role m))
        (filter (\<lambda>m. mem_user_id m = i) (db_memberships d)))), d)"

definition list_class_memberships :: "string \<Rightarrow> class_membership list db_action" where
  "list_class_memberships c d =
     (hydrate_all hydrate_membership (sort_key mem_user_id (sort_key (\<lambda>m. member_text (mem_role m))
        (filter (\<lambda>m. mem_class_id m = c) (db_memberships d)))), d)"

definition delete_membership :: "string \<Rightarrow> string \<Rightarrow> string \<Rightarrow> bool db_action" where
  "delete_membership i c role = transaction (\<lambda>d.
     let (n, d1) = delete_memberships
           (\<lambda>m. mem_user_id m = i \<and> mem_class_id m = c \<and> member_text (mem_role m) = lower role) d
     in Inr (n = 1, d1))"

section \<open>Integrity\<close>

lemma create_class_row_keeps: "valid_class c \<Longrightarrow> keeps db_advance (create_class c)"
  unfolding create_class_def by (rule keeps_transaction) (auto simp: result_simps intro: advance_rules)

lemma save_class_keeps:
  assumes "valid_class c"
  shows "keeps db_advance (save_class c expected)"
proof (cases "cls_updated_at c \<le> expected")
  case False
  then show ?thesis
    unfolding save_class_def
    by (auto intro!: keeps_transaction)
      (use assms in \<open>auto simp: result_simps valid_class_def split: if_splits elim!: update_classes_advance\<close>)
qed (simp add: save_class_def keeps_pure)

lemma save_membership_keeps: "valid_membership m \<Longrightarrow> keeps db_advance (save_membership m)"
  unfolding save_membership_def by (rule keeps_transaction) (auto simp: result_simps intro: school_rules)

lemma delete_membership_keeps: "keeps db_advance (delete_membership i c role)"
  unfolding delete_membership_def
  by (rule keeps_transaction) (auto split: prod.splits intro: school_rules)

end
