(* ===== verification/Store_Mappings.thy ===== *)
theory Store_Mappings
  imports Store_Classes Store_Links
begin

text \<open>
  The mappings of provider groups to classes, and the GitHub memberships and accounts that
  follow from them: each operation of \<^verbatim>\<open>SQLiteIdentityStorage\<close> compares the whole state its
  caller saw with the rows inside its transaction.
\<close>

section \<open>Mappings\<close>

definition mapping_at :: "identity_db \<Rightarrow> string \<times> string \<times> string \<Rightarrow> group_mapping option" where
  "mapping_at d key = lookup_by map_provider_key (db_mappings d) key"

definition save_external_group_mapping :: "group_mapping \<Rightarrow> instant option \<Rightarrow> unit db_action" where
  "save_external_group_mapping m expected =
     (if (case expected of None \<Rightarrow> map_updated_at m \<noteq> map_created_at m | Some e \<Rightarrow> map_updated_at m \<le> e)
      then raise_act StorageConflict
      else transaction (\<lambda>d.
        case expected of
          None \<Rightarrow>
            if mapping_at d (map_provider_key m) \<noteq> None then Inl MappingGenerationConflict
            else bind_result (reserve_mapping_generation (map_provider_key m) (map_created_at m) d) (\<lambda>d1.
                 bind_result (insert_mapping m d1) (\<lambda>d2. Inr ((), d2)))
        | Some e \<Rightarrow>
            (case mapping_at d (map_provider_key m) of
               None \<Rightarrow> Inl MappingGenerationConflict
             | Some r \<Rightarrow>
                 if map_created_at r \<noteq> map_created_at m \<or> map_updated_at r \<noteq> e then Inl MappingGenerationConflict
                 else
                   let (n, d1) = update_mappings (\<lambda>r. map_provider_key r = map_provider_key m \<and>
                         map_class_id r = map_class_id m \<and> map_created_at r = map_created_at m \<and>
                         map_updated_at r = e) (map_display_name m) (map_updated_at m) d
                   in if n \<noteq> 1 then Inl StorageConflict else Inr ((), d1))))"

definition read_external_group_mapping ::
  "string \<Rightarrow> string \<Rightarrow> string \<Rightarrow> group_mapping option db_action" where
  "read_external_group_mapping provider organization grp d =
     (hydrate_optional hydrate_mapping (mapping_at d (lower provider, organization, grp)), d)"

definition list_external_group_mappings :: "string option \<Rightarrow> group_mapping list db_action" where
  "list_external_group_mappings class_id d =
     (hydrate_all hydrate_mapping (sort_key map_provider (sort_key map_organization (sort_key map_group
        (filter (\<lambda>m. class_id = None \<or> class_id = Some (map_class_id m)) (db_mappings d))))), d)"

definition delete_external_group_mapping ::
  "string \<Rightarrow> string \<Rightarrow> string \<Rightarrow> instant \<Rightarrow> instant \<Rightarrow> bool db_action" where
  "delete_external_group_mapping provider organization grp created updated = transaction (\<lambda>d.
     let key = (lower provider, organization, grp);
         (n, d1) = delete_mappings (\<lambda>r. map_provider_key r = key \<and> map_created_at r = created \<and>
           map_updated_at r = updated) d
     in if n = 1 then Inr (True, d1)
        else if mapping_at d1 key = None then Inr (False, d1)
        else Inl MappingGenerationConflict)"

definition read_latest_mapping_generation ::
  "string \<Rightarrow> string \<Rightarrow> string \<Rightarrow> instant option db_action" where
  "read_latest_mapping_generation provider organization grp d =
     (Inr (latest_mapping_generation d (lower provider, organization, grp)), d)"

section \<open>Mappings managed by an administrator\<close>

definition admin_at_revision :: "identity_db \<Rightarrow> string \<Rightarrow> instant \<Rightarrow> bool" where
  "admin_at_revision d i revision \<longleftrightarrow>
     list_ex (\<lambda>u. acc_user_id u = i \<and> acc_active u \<and> acc_role u = RoleAdmin \<and> acc_updated_at u = revision) (db_users d)"

definition class_at_revision :: "identity_db \<Rightarrow> string \<Rightarrow> instant \<Rightarrow> bool" where
  "class_at_revision d c revision \<longleftrightarrow>
     list_ex (\<lambda>k. cls_class_id k = c \<and> cls_active k \<and> cls_updated_at k = revision) (db_classes d)"

definition save_mapping_for_admin ::
  "group_mapping \<Rightarrow> string \<Rightarrow> instant \<Rightarrow> instant \<Rightarrow> instant option \<Rightarrow> instant option \<Rightarrow> unit db_action" where
  "save_mapping_for_admin m admin_id admin_revision class_revision expected_created expected_updated =
     (if (case expected_created of
            None \<Rightarrow> expected_updated \<noteq> None \<or> map_updated_at m \<noteq> map_created_at m
          | Some _ \<Rightarrow> (case expected_updated of None \<Rightarrow> True | Some e \<Rightarrow> map_updated_at m \<le> e))
      then raise_act StorageConflict
      else transaction (\<lambda>d.
        let authority = admin_at_revision d admin_id admin_revision \<and>
              class_at_revision d (map_class_id m) class_revision
        in case expected_created of
          None \<Rightarrow>
            if mapping_at d (map_provider_key m) \<noteq> None then Inl MappingGenerationConflict
            else bind_result (reserve_mapping_generation (map_provider_key m) (map_created_at m) d) (\<lambda>d1.
                 if \<not> authority then Inl StorageConflict
                 else bind_result (insert_mapping m d1) (\<lambda>d2. Inr ((), d2)))
        | Some created \<Rightarrow>
            (case mapping_at d (map_provider_key m) of
               None \<Rightarrow> Inl MappingGenerationConflict
             | Some r \<Rightarrow>
                 if map_created_at r \<noteq> created \<or> Some (map_updated_at r) \<noteq> expected_updated
                 then Inl MappingGenerationConflict
                 else
                   let (n, d1) = update_mappings (\<lambda>r. map_provider_key r = map_provider_key m \<and>
                         map_class_id r = map_class_id m \<and> map_created_at r = map_created_at m \<and>
                         Some (map_updated_at r) = expected_updated \<and> authority)
                         (map_display_name m) (map_updated_at m) d
                   in if n \<noteq> 1 then Inl StorageConflict else Inr ((), d1))))"

definition delete_mapping_for_admin ::
  "group_mapping \<Rightarrow> string \<Rightarrow> instant \<Rightarrow> instant \<Rightarrow> bool db_action" where
  "delete_mapping_for_admin m admin_id admin_revision class_revision = transaction (\<lambda>d.
     let (n, d1) = delete_mappings (\<lambda>r. map_provider_key r = map_provider_key m \<and>
           map_class_id r = map_class_id m \<and> map_created_at r = map_created_at m \<and>
           map_updated_at r = map_updated_at m \<and> admin_at_revision d admin_id admin_revision \<and>
           class_at_revision d (map_class_id m) class_revision) d
     in if n = 1 then Inr (True, d1)
        else if mapping_at d1 (map_provider_key m) = None then Inr (False, d1)
        else Inl StorageConflict)"

section \<open>GitHub memberships\<close>

definition student_at_revision :: "identity_db \<Rightarrow> string \<Rightarrow> instant \<Rightarrow> bool" where
  "student_at_revision d i revision \<longleftrightarrow>
     (case lookup_user d i of
        None \<Rightarrow> False
      | Some u \<Rightarrow> acc_active u \<and> acc_role u = RoleStudent \<and> acc_updated_at u = revision)"

text \<open>The memberships of a user \<^verbatim>\<open>ORDER BY class_id, role\<close>, and expected rows in the order of \<^verbatim>\<open>sorted\<close>.\<close>

definition sorted_memberships :: "class_membership list \<Rightarrow> class_membership list" where
  "sorted_memberships ms =
     sort_key mem_class_id (sort_key (\<lambda>m. member_text (mem_role m)) (sort_key mem_joined_at ms))"

definition memberships_of :: "identity_db \<Rightarrow> string \<Rightarrow> class_membership list" where
  "memberships_of d i = sorted_memberships (filter (\<lambda>m. mem_user_id m = i) (db_memberships d))"

definition github_student :: "string \<Rightarrow> class_membership \<Rightarrow> bool" where
  "github_student i m \<longleftrightarrow>
     mem_user_id m = i \<and> mem_role m = MemberStudent \<and> mem_source_provider m = Some ''github''"

definition github_identities :: "identity_db \<Rightarrow> string \<Rightarrow> external_identity list" where
  "github_identities d i =
     sort_key ext_subject (filter (\<lambda>e. ext_provider e = ''github'' \<and> ext_user_id e = i) (db_identities d))"

definition revoke_github_memberships ::
  "string \<Rightarrow> instant \<Rightarrow> class_membership list \<Rightarrow> unit db_action" where
  "revoke_github_memberships i user_revision expected =
     (if i = [] \<or> list_ex (\<lambda>m. mem_user_id m \<noteq> i) expected then raise_act StorageError
      else transaction (\<lambda>d.
        if \<not> student_at_revision d i user_revision then Inl StorageConflict
        else if github_identities d i \<noteq> [] then Inl StorageConflict
        else if memberships_of d i \<noteq> sorted_memberships expected then Inl StorageConflict
        else Inr ((), snd (delete_memberships (github_student i) d))))"

definition snapshot_stale ::
  "instant \<Rightarrow> instant \<Rightarrow> int \<Rightarrow> int \<Rightarrow> bool db_result" where
  "snapshot_stale captured now max_age skew =
     (if \<not> representable (now - max_age) then Inl StorageOverflow
      else if captured \<le> now - max_age then Inr True
      else if \<not> representable (now + skew) then Inl StorageOverflow
      else Inr (now + skew < captured))"

text \<open>The mappings of the expected groups, as rows in the order of \<^verbatim>\<open>sorted\<close>.\<close>

definition mapping_row :: "group_mapping \<Rightarrow> string \<times> string \<times> string \<times> instant \<times> instant" where
  "mapping_row m = (map_organization m, map_group m, map_class_id m, map_created_at m, map_updated_at m)"

definition mapping_rows :: "group_mapping list \<Rightarrow> (string \<times> string \<times> string \<times> instant \<times> instant) list" where
  "mapping_rows ms =
     map mapping_row (sort_key map_organization (sort_key map_group (sort_key map_class_id
       (sort_key map_created_at (sort_key map_updated_at ms)))))"

definition joined_mappings :: "identity_db \<Rightarrow> (string \<times> string) list \<Rightarrow> group_mapping list" where
  "joined_mappings d keys =
     filter (\<lambda>m. map_provider m = ''github'' \<and> (map_organization m, map_group m) \<in> set keys) (db_mappings d)"

record github_sync =
  gs_user_id :: string
  gs_desired :: "class_membership list"
  gs_user_revision :: instant
  gs_subject :: string
  gs_linked_at :: instant
  gs_memberships :: "class_membership list"
  gs_mappings :: "group_mapping list"
  gs_group_keys :: "(string \<times> string) list"
  gs_captured_at :: instant
  gs_max_age :: int
  gs_skew :: int
  gs_classes :: "class_group list"

definition sync_arguments_ok :: "github_sync \<Rightarrow> bool" where
  "sync_arguments_ok g \<longleftrightarrow>
     gs_user_id g \<noteq> [] \<and> distinct (gs_group_keys g) \<and> distinct (map mem_class_id (gs_desired g)) \<and>
     list_all (github_student (gs_user_id g)) (gs_desired g) \<and>
     list_all (\<lambda>m. mem_user_id m = gs_user_id g) (gs_memberships g) \<and>
     list_all (\<lambda>m. map_provider m = ''github'') (gs_mappings g) \<and>
     list_all (\<lambda>(a, b). a \<noteq> [] \<and> b \<noteq> []) (gs_group_keys g) \<and>
     distinct (map cls_class_id (gs_classes g)) \<and> 0 < gs_max_age g \<and> 0 \<le> gs_skew g"

definition desired_mapped :: "github_sync \<Rightarrow> bool" where
  "desired_mapped g \<longleftrightarrow>
     list_all (\<lambda>k. list_ex (\<lambda>m. map_class_id m = mem_class_id k \<and> Some (map_group m) = mem_source_group k)
       (gs_mappings g)) (gs_desired g)"

definition class_as_seen :: "identity_db \<Rightarrow> class_group \<Rightarrow> bool" where
  "class_as_seen d c \<longleftrightarrow>
     (case lookup_by cls_class_id (db_classes d) (cls_class_id c) of
        None \<Rightarrow> False
      | Some r \<Rightarrow> cls_active r = cls_active c \<and> cls_updated_at r = cls_updated_at c)"

fun insert_memberships :: "class_membership list \<Rightarrow> identity_db \<Rightarrow> identity_db db_result" where
  "insert_memberships [] d = Inr d"
| "insert_memberships (m # ms) d = bind_result (insert_membership m d) (insert_memberships ms)"

definition sync_body :: "instant \<Rightarrow> github_sync \<Rightarrow> identity_db \<Rightarrow> (unit \<times> identity_db) db_result" where
  "sync_body now g d =
     bind_result (snapshot_stale (gs_captured_at g) now (gs_max_age g) (gs_skew g)) (\<lambda>stale.
     if stale then Inl StorageConflict
     else if \<not> student_at_revision d (gs_user_id g) (gs_user_revision g) then Inl StorageConflict
     else if map (\<lambda>e. (ext_subject e, ext_linked_at e)) (github_identities d (gs_user_id g)) \<noteq>
             [(gs_subject g, gs_linked_at g)] then Inl StorageConflict
     else if memberships_of d (gs_user_id g) \<noteq> sorted_memberships (gs_memberships g) then Inl StorageConflict
     else if mapping_rows (joined_mappings d (gs_group_keys g)) \<noteq> mapping_rows (gs_mappings g)
     then Inl StorageConflict
     else if set (map cls_class_id (gs_classes g)) \<noteq> set (map map_class_id (gs_mappings g)) then Inl StorageError
     else if \<not> list_all (class_as_seen d) (gs_classes g) then Inl StorageConflict
     else if list_ex (\<lambda>m. mem_class_id m \<notin> set (map cls_class_id (gs_classes g))) (gs_desired g) then Inl StorageError
     else bind_result (insert_memberships (gs_desired g) (snd (delete_memberships (github_student (gs_user_id g)) d)))
       (\<lambda>d1. Inr ((), d1)))"

definition synchronize_github_memberships :: "instant \<Rightarrow> github_sync \<Rightarrow> unit db_action" where
  "synchronize_github_memberships now g =
     (if \<not> sync_arguments_ok g then raise_act StorageError
      else if \<not> desired_mapped g then raise_act StorageError
      else if gs_captured_at g < gs_linked_at g then raise_act StorageError
      else transaction (sync_body now g))"

section \<open>Onboarding through a group\<close>

record github_onboarding =
  go_membership :: class_membership
  go_user_revision :: instant
  go_subject :: string
  go_linked_at :: instant
  go_mapping :: group_mapping
  go_group_keys :: "(string \<times> string) list"
  go_captured_at :: instant
  go_max_age :: int
  go_skew :: int
  go_class_revision :: instant

definition onboarding_arguments_ok :: "github_onboarding \<Rightarrow> bool" where
  "onboarding_arguments_ok g \<longleftrightarrow>
     go_group_keys g \<noteq> [] \<and> list_all (\<lambda>(a, b). a \<noteq> [] \<and> b \<noteq> []) (go_group_keys g) \<and>
     distinct (go_group_keys g) \<and> map_provider (go_mapping g) = ''github'' \<and>
     mem_source_provider (go_membership g) = Some ''github'' \<and>
     mem_class_id (go_membership g) = map_class_id (go_mapping g) \<and>
     mem_source_group (go_membership g) = Some (map_group (go_mapping g)) \<and>
     0 < go_max_age g \<and> 0 \<le> go_skew g"

text \<open>The row the guarded \<^verbatim>\<open>UPDATE users\<close> looks for.\<close>

definition onboardable :: "identity_db \<Rightarrow> github_onboarding \<Rightarrow> user_account \<Rightarrow> bool" where
  "onboardable d g u \<longleftrightarrow>
     acc_user_id u = mem_user_id (go_membership g) \<and> acc_active u \<and> acc_role u = RolePending \<and>
     acc_updated_at u = go_user_revision g \<and>
     list_ex (\<lambda>e. ext_provider e = ''github'' \<and> ext_subject e = go_subject g \<and> ext_user_id e = acc_user_id u \<and>
       ext_linked_at e = go_linked_at g) (db_identities d) \<and>
     count_where (\<lambda>e. ext_provider e = ''github'' \<and> ext_user_id e = acc_user_id u) (db_identities d) = 1 \<and>
     list_ex (\<lambda>m. map_provider_key m = map_provider_key (go_mapping g) \<and>
       mapping_row m = mapping_row (go_mapping g)) (db_mappings d) \<and>
     class_at_revision d (mem_class_id (go_membership g)) (go_class_revision g)"

definition onboarding_body :: "instant \<Rightarrow> github_onboarding \<Rightarrow> identity_db \<Rightarrow> (unit \<times> identity_db) db_result" where
  "onboarding_body now g d =
     bind_result (snapshot_stale (go_captured_at g) now (go_max_age g) (go_skew g)) (\<lambda>stale.
     if stale then Inl StorageConflict
     else if map mapping_row (joined_mappings d (go_group_keys g)) \<noteq> [mapping_row (go_mapping g)] then Inl StorageConflict
     else
       bind_result (update_users (onboardable d g)
         (\<lambda>u. u\<lparr>acc_role := RoleStudent, acc_updated_at := mem_joined_at (go_membership g)\<rparr>) d) (\<lambda>(n, d1).
       if n \<noteq> 1 then Inl StorageConflict
       else bind_result (insert_membership (go_membership g) d1) (\<lambda>d2. Inr ((), d2))))"

definition onboard_pending_user :: "instant \<Rightarrow> github_onboarding \<Rightarrow> unit db_action" where
  "onboard_pending_user now g =
     (if \<not> onboarding_arguments_ok g then raise_act StorageError
      else transaction (onboarding_body now g))"

section \<open>Integrity\<close>

lemma keeps_cond: "(\<not> c \<Longrightarrow> keeps R m) \<Longrightarrow> reflp R \<Longrightarrow> keeps R (if c then raise_act e else m)"
  by (simp add: keeps_pure)

lemma update_mapping_advance:
  assumes "valid_mapping m" "\<And>r. P r \<Longrightarrow> map_created_at r = map_created_at m"
    "update_mappings P (map_display_name m) (map_updated_at m) d = (n, d')"
  shows "db_advance d d'"
  using assms by (intro update_mappings_advance [OF assms(3)]) (auto simp: valid_mapping_def)

lemma new_mapping_advance:
  assumes "valid_mapping m" "reserve_mapping_generation (map_provider_key m) (map_created_at m) d = Inr d1"
    "insert_mapping m d1 = Inr d2"
  shows "db_advance d d2"
proof -
  have "db_advance d d1" using assms(2) by (rule reserve_mapping_advance)
  also have "db_advance d1 d2"
    using assms(2) by (intro insert_mapping_advance [OF assms(1) _ assms(3)]) (auto simp: reserve_mapping_generation_Inr)
  finally show ?thesis .
qed

lemma save_mapping_keeps:
  assumes "valid_mapping m"
  shows "keeps db_advance (save_external_group_mapping m expected)"
    "keeps db_advance (save_mapping_for_admin m admin ar cr ec eu)"
proof -
  show "keeps db_advance (save_external_group_mapping m expected)"
    unfolding save_external_group_mapping_def
    by (intro keeps_if keeps_transaction keeps_pure db_advance_order)
      (auto simp: result_simps Let_def split: option.splits if_splits prod.splits
        intro: new_mapping_advance [OF assms] elim!: update_mapping_advance [OF assms, rotated])
  show "keeps db_advance (save_mapping_for_admin m admin ar cr ec eu)"
    unfolding save_mapping_for_admin_def
    by (intro keeps_if keeps_transaction keeps_pure db_advance_order)
      (auto simp: result_simps Let_def split: option.splits if_splits prod.splits
        intro: new_mapping_advance [OF assms] elim!: update_mapping_advance [OF assms, rotated])
qed

lemma delete_mapping_keeps:
  "keeps db_advance (delete_external_group_mapping provider organization grp created updated)"
  "keeps db_advance (delete_mapping_for_admin m admin ar cr)"
  unfolding delete_external_group_mapping_def delete_mapping_for_admin_def
  by (rule keeps_transaction; auto simp: Let_def split: if_splits prod.splits intro: school_rules)+

lemma snd_delete_memberships [simp]: "db_advance d (snd (delete_memberships P d))"
  by (rule delete_memberships_advance [of P d "fst (delete_memberships P d)"]) simp

lemma revoke_github_keeps: "keeps db_advance (revoke_github_memberships i rvn expected)"
  unfolding revoke_github_memberships_def
  by (intro keeps_cond keeps_transaction db_advance_order) (auto split: if_splits)

lemma insert_memberships_advance:
  "list_all valid_membership ms \<Longrightarrow> insert_memberships ms d = Inr d' \<Longrightarrow> db_advance d d'"
proof (induction ms arbitrary: d)
  case (Cons m ms)
  then obtain d1 where d1: "insert_membership m d = Inr d1" "insert_memberships ms d1 = Inr d'"
    by (auto simp: result_simps)
  have "db_advance d d1" using Cons.prems(1) by (intro insert_membership_advance [OF _ d1(1)]) simp
  also have "db_advance d1 d'" using Cons d1 by simp
  finally show ?case .
qed simp

lemma insert_memberships_Inr:
  "insert_memberships ms d = Inr d' \<Longrightarrow> d' = d\<lparr>db_memberships := db_memberships d @ ms\<rparr>"
proof (induction ms arbitrary: d)
  case (Cons m ms)
  then obtain d1 where d1: "d1 = d\<lparr>db_memberships := db_memberships d @ [m]\<rparr>" "insert_memberships ms d1 = Inr d'"
    by (auto simp: result_simps insert_membership_def split: if_splits)
  with Cons.IH [OF d1(2)] show ?case by simp
qed simp

lemma sync_keeps:
  assumes "list_all valid_membership (gs_desired g)"
  shows "keeps db_advance (synchronize_github_memberships now g)"
  unfolding synchronize_github_memberships_def
proof (intro keeps_cond keeps_transaction db_advance_order, goal_cases)
  case (1 d x d')
  then obtain d1 where "insert_memberships (gs_desired g)
      (snd (delete_memberships (github_student (gs_user_id g)) d)) = Inr d1" "d' = d1"
    by (auto simp: sync_body_def result_simps split: if_splits)
  then show ?case
    using insert_memberships_advance [OF assms] by (auto intro: db_advance_trans [OF snd_delete_memberships])
qed

lemma onboard_keeps:
  assumes "valid_membership (go_membership g)" "go_user_revision g < mem_joined_at (go_membership g)"
  shows "keeps db_advance (onboard_pending_user now g)"
  unfolding onboard_pending_user_def
proof (intro keeps_cond keeps_transaction db_advance_order, goal_cases)
  case (1 d x d')
  let ?f = "\<lambda>u. u\<lparr>acc_role := RoleStudent, acc_updated_at := mem_joined_at (go_membership g)\<rparr>"
  from 1 obtain n d1 where d1: "update_users (onboardable d g) ?f d = Inr (n, d1)"
      "insert_membership (go_membership g) d1 = Inr d'"
    by (auto simp: onboarding_body_def result_simps split: if_splits)
  have "db_advance d d1"
    by (rule update_users_advance [OF d1(1)])
      (use assms in \<open>auto simp: onboardable_def ok_defs valid_user_def valid_membership_def\<close>)
  also have "db_advance d1 d'" by (rule insert_membership_advance [OF assms(1) d1(2)])
  finally show ?case .
qed

text \<open>
  The storage does not compare \<^verbatim>\<open>joined_at\<close> with the revision that it expects; whatever its value,
  the CHECK constraint on the user row keeps the database intact.
\<close>

lemma onboard_grows:
  assumes "valid_membership (go_membership g)"
  shows "keeps db_growth (onboard_pending_user now g)"
  unfolding onboard_pending_user_def
proof (intro keeps_cond keeps_transaction)
  fix d x d'
  assume 1: "onboarding_body now g d = Inr (x, d')"
  let ?f = "\<lambda>u. u\<lparr>acc_role := RoleStudent, acc_updated_at := mem_joined_at (go_membership g)\<rparr>"
  obtain n d1 where d1: "update_users (onboardable d g) ?f d = Inr (n, d1)"
      "insert_membership (go_membership g) d1 = Inr d'"
    using 1 by (auto simp: onboarding_body_def result_simps split: if_splits)
  have "db_growth d d1"
    by (rule update_users_growth [OF d1(1)])
      (use assms in \<open>auto simp: onboardable_def ok_defs valid_user_def valid_membership_def\<close>)
  also have "db_growth d1 d'" using insert_membership_advance [OF assms d1(2)] by (rule advance_growth)
  finally show "db_growth d d'" .
qed (auto simp: reflp_def)

section \<open>What the operations promise\<close>

text \<open>A synchronization that succeeds replaces the GitHub memberships of the student by exactly the
  desired ones and touches nothing else; it happens only for the active student and the one
  GitHub account that were seen, from a snapshot that is fresh on the storage clock, and every
  new membership stands on a mapping in the database of a group of the snapshot to that class.\<close>

lemma sync_follows_mappings:
  assumes "synchronize_github_memberships now g d = (Inr (), d')"
  shows "d' = d\<lparr>db_memberships := filter (\<lambda>m. \<not> github_student (gs_user_id g) m) (db_memberships d) @ gs_desired g\<rparr> \<and>
    student_at_revision d (gs_user_id g) (gs_user_revision g) \<and>
    map (\<lambda>e. (ext_subject e, ext_linked_at e)) (github_identities d (gs_user_id g)) = [(gs_subject g, gs_linked_at g)] \<and>
    now - gs_max_age g < gs_captured_at g \<and> gs_captured_at g \<le> now + gs_skew g \<and>
    (\<forall>m \<in> set (gs_desired g). \<exists>n \<in> set (db_mappings d). map_provider n = ''github'' \<and>
       (map_organization n, map_group n) \<in> set (gs_group_keys g) \<and> map_class_id n = mem_class_id m \<and>
       Some (map_group n) = mem_source_group m)"
proof -
  have body: "sync_body now g d = Inr ((), d')" and mapped: "desired_mapped g"
    using assms by (auto simp: synchronize_github_memberships_def action_simps split: if_splits)
  have rows: "mapping_rows (joined_mappings d (gs_group_keys g)) = mapping_rows (gs_mappings g)"
    and ins: "insert_memberships (gs_desired g) (snd (delete_memberships (github_student (gs_user_id g)) d)) = Inr d'"
    using body by (auto simp: sync_body_def result_simps split: if_splits)
  have same: "mapping_row ` set (joined_mappings d (gs_group_keys g)) = mapping_row ` set (gs_mappings g)"
    using arg_cong [OF rows, of set] by (simp add: mapping_rows_def)
  have "\<exists>n \<in> set (db_mappings d). map_provider n = ''github'' \<and>
       (map_organization n, map_group n) \<in> set (gs_group_keys g) \<and> map_class_id n = mem_class_id m \<and>
       Some (map_group n) = mem_source_group m" if "m \<in> set (gs_desired g)" for m
  proof -
    have "list_ex (\<lambda>k. map_class_id k = mem_class_id m \<and> Some (map_group k) = mem_source_group m) (gs_mappings g)"
      using mapped that by (simp add: desired_mapped_def list_all_iff)
    then obtain k where k: "k \<in> set (gs_mappings g)" "map_class_id k = mem_class_id m"
        "Some (map_group k) = mem_source_group m"
      by (auto simp: list_ex_iff)
    then obtain n where "n \<in> set (joined_mappings d (gs_group_keys g))" "mapping_row n = mapping_row k"
      using same by (metis (no_types, lifting) image_iff)
    with k show ?thesis by (auto simp: joined_mappings_def mapping_row_def)
  qed
  with body insert_memberships_Inr [OF ins] show ?thesis
    by (auto simp: sync_body_def snapshot_stale_def result_simps delete_memberships_def delete_where_def split: if_splits)
qed

text \<open>Onboarding through a group turns exactly one pending active account into a student, at the
  revision that was read, with the one membership it was given: the account has the one GitHub
  link that was seen, the groups of the snapshot have exactly one mapping, the given one, and
  its class is active at the revision that was seen.\<close>

lemma onboarding_effect:
  assumes "db_ok d" "onboard_pending_user now g d = (Inr (), d')" "i = mem_user_id (go_membership g)"
  shows "\<exists>u. lookup_user d i = Some u \<and> acc_role u = RolePending \<and> acc_active u \<and> acc_updated_at u = go_user_revision g \<and>
    lookup_user d' i = Some (u\<lparr>acc_role := RoleStudent, acc_updated_at := mem_joined_at (go_membership g)\<rparr>) \<and>
    (\<forall>j. j \<noteq> i \<longrightarrow> lookup_user d' j = lookup_user d j) \<and>
    db_memberships d' = db_memberships d @ [go_membership g] \<and>
    map (\<lambda>e. (ext_subject e, ext_linked_at e)) (github_identities d i) = [(go_subject g, go_linked_at g)] \<and>
    map mapping_row (joined_mappings d (go_group_keys g)) = [mapping_row (go_mapping g)] \<and>
    class_at_revision d (map_class_id (go_mapping g)) (go_class_revision g)"
proof -
  let ?f = "\<lambda>u. u\<lparr>acc_role := RoleStudent, acc_updated_at := mem_joined_at (go_membership g)\<rparr>"
  have args: "onboarding_arguments_ok g" and body: "onboarding_body now g d = Inr ((), d')"
    using assms(2) by (auto simp: onboard_pending_user_def action_simps split: if_splits)
  obtain d1 where d1: "update_users (onboardable d g) ?f d = Inr (1, d1)" "insert_membership (go_membership g) d1 = Inr d'"
      and maps: "map mapping_row (joined_mappings d (go_group_keys g)) = [mapping_row (go_mapping g)]"
    using body by (auto simp: onboarding_body_def result_simps split: if_splits)
  have uniq: "unique_on acc_user_id (db_users d)" using assms(1) by (simp add: ok_defs)
  have "count_where (onboardable d g) (db_users d) = 1" using d1(1) by (simp add: update_users_Inr)
  then obtain u where u: "u \<in> set (db_users d)" "onboardable d g u"
    using count_where_le_1 [OF uniq, of "onboardable d g" i] assms(3) by (auto simp: onboardable_def)
  have at: "lookup_user d i = Some u"
    using u uniq assms(3) by (simp add: lookup_user_def lookup_by_Some_iff onboardable_def)
  have d': "d' = d\<lparr>db_users := update_where (onboardable d g) ?f (db_users d),
      db_memberships := db_memberships d @ [go_membership g]\<rparr>"
    using d1 by (simp add: update_users_Inr insert_membership_Inr)
  have now: "lookup_user d' j = map_option (\<lambda>r. if onboardable d g r then ?f r else r) (lookup_user d j)" for j
    by (simp add: d' lookup_user_def lookup_by_update)
  have others: "lookup_user d' j = lookup_user d j" if "j \<noteq> i" for j
  proof (cases "lookup_user d j")
    case (Some r)
    then have "acc_user_id r = j" by (auto dest: lookup_userD)
    then have "\<not> onboardable d g r" using that assms(3) by (auto simp: onboardable_def)
    with Some now show ?thesis by simp
  qed (simp add: now)
  obtain e where e: "filter (\<lambda>e. ext_provider e = ''github'' \<and> ext_user_id e = i) (db_identities d) = [e]"
    using u(2) assms(3) by (auto simp: onboardable_def count_where_def length_Suc_conv)
  have "ext_subject e = go_subject g \<and> ext_linked_at e = go_linked_at g"
  proof -
    obtain k where k: "k \<in> set (db_identities d)" "ext_provider k = ''github''" "ext_user_id k = i"
        "ext_subject k = go_subject g" "ext_linked_at k = go_linked_at g"
      using u(2) assms(3) by (auto simp: onboardable_def list_ex_iff)
    then have "k \<in> set (filter (\<lambda>e. ext_provider e = ''github'' \<and> ext_user_id e = i) (db_identities d))" by simp
    with e k show ?thesis by simp
  qed
  then have ids: "map (\<lambda>e. (ext_subject e, ext_linked_at e)) (github_identities d i) = [(go_subject g, go_linked_at g)]"
    by (simp add: github_identities_def e)
  show ?thesis
    by (intro exI [of _ u] conjI allI impI others ids maps at)
      (use u now [of i] at args in \<open>auto simp: onboardable_def onboarding_arguments_ok_def d'\<close>)
qed

text \<open>A created mapping leaves its generation, and a generation that is not later than a recorded
  one of the same group is refused.\<close>

lemma mapping_generation_recorded:
  assumes "save_external_group_mapping m None d = (Inr (), d1) \<or>
      save_mapping_for_admin m admin ar cr None None d = (Inr (), d1)"
  shows "(map_provider_key m, map_created_at m) \<in> set (db_map_generations d1)"
  using assms
  by (auto simp: save_external_group_mapping_def save_mapping_for_admin_def action_simps result_simps
      statement_simps Let_def split: if_splits)

lemma mapping_generation_refused:
  assumes "(map_provider_key n, t) \<in> set (db_map_generations d)" "map_created_at n \<le> t"
    "map_updated_at n = map_created_at n"
  shows "save_external_group_mapping n None d = (Inl MappingGenerationConflict, d)"
    "save_mapping_for_admin n admin ar cr None None d = (Inl MappingGenerationConflict, d)"
proof -
  have "reserve_mapping_generation (map_provider_key n) (map_created_at n) d \<noteq> Inr d3" for d3
    using assms(1,2) by (auto simp: reserve_mapping_generation_Inr not_less)
  moreover have "reserve_mapping_generation k u d = Inl e \<Longrightarrow> e = MappingGenerationConflict" for k u e
    by (auto simp: reserve_mapping_generation_def split: if_splits)
  ultimately have r: "reserve_mapping_generation (map_provider_key n) (map_created_at n) d = Inl MappingGenerationConflict"
    by (metis sumE)
  show "save_external_group_mapping n None d = (Inl MappingGenerationConflict, d)"
    "save_mapping_for_admin n admin ar cr None None d = (Inl MappingGenerationConflict, d)"
    using assms(3) r by (simp_all add: save_external_group_mapping_def save_mapping_for_admin_def transaction_def Let_def)
qed

end
