(* ===== verification/Store_Bindings.thy ===== *)
theory Store_Bindings
  imports Store_Classes "HOL-Library.Multiset"
begin

text \<open>
  The subject bindings of \<^verbatim>\<open>SQLiteIdentityStorage\<close> and the authoritative snapshot of a student's
  rows.
\<close>

section \<open>Operations\<close>

fun insert_aliases :: "subject_alias list \<Rightarrow> identity_db \<Rightarrow> identity_db db_result" where
  "insert_aliases [] d = Inr d"
| "insert_aliases (a # as) d = bind_result (insert_alias a d) (insert_aliases as)"

definition create_subject_binding :: "subject_binding \<Rightarrow> subject_alias list \<Rightarrow> unit db_action" where
  "create_subject_binding b aliases =
     (if \<not> bnd_active b \<or> bnd_revision b \<noteq> 1 \<or> bnd_updated_at b \<noteq> bnd_created_at b then raise_act StorageConflict
      else if list_ex (\<lambda>a. als_subject_id a \<noteq> bnd_subject_id b) aliases then raise_act StorageConflict
      else transaction (\<lambda>d.
        if (case lookup_user d (bnd_user_id b) of
              None \<Rightarrow> True
            | Some u \<Rightarrow> \<not> acc_active u \<or> acc_role u \<noteq> RoleStudent) then Inl StorageConflict
        else if \<not> list_all (\<lambda>a. class_open d (als_class_id a) \<and> enrolled d (bnd_user_id b) (als_class_id a)) aliases
        then Inl StorageConflict
        else bind_result (insert_binding b d) (\<lambda>d1.
             bind_result (insert_aliases aliases d1) (\<lambda>d2. Inr ((), d2)))))"

definition read_subject_binding :: "string \<Rightarrow> subject_binding option db_action" where
  "read_subject_binding i d = (hydrate_optional hydrate_binding (lookup_by bnd_subject_id (db_bindings d) i), d)"

definition list_user_bindings :: "string \<Rightarrow> subject_binding list db_action" where
  "list_user_bindings i d =
     (hydrate_all hydrate_binding (sort_key bnd_subject_id (filter (\<lambda>b. bnd_user_id b = i) (db_bindings d))), d)"

definition save_subject_binding :: "subject_binding \<Rightarrow> int \<Rightarrow> unit db_action" where
  "save_subject_binding b expected =
     (if bnd_revision b \<noteq> expected + 1 then raise_act StorageConflict
      else transaction (\<lambda>d.
        bind_result
          (update_bindings (\<lambda>r. bnd_subject_id r = bnd_subject_id b \<and> bnd_user_id r = bnd_user_id b \<and>
               bnd_created_at r = bnd_created_at b \<and> bnd_revision r = expected \<and> bnd_updated_at r < bnd_updated_at b)
             (bnd_active b) (bnd_revision b) (bnd_updated_at b) d) (\<lambda>(n, d1).
        if n \<noteq> 1 then Inl StorageConflict else Inr ((), d1))))"

definition save_subject_alias :: "subject_alias \<Rightarrow> int \<Rightarrow> unit db_action" where
  "save_subject_alias a expected = transaction (\<lambda>d.
     if \<not> alias_authority d a (\<lambda>b. bnd_revision b = expected) then Inl StorageConflict
     else bind_result (insert_alias a d) (\<lambda>d1. Inr ((), d1)))"

definition list_subject_aliases :: "string option \<Rightarrow> subject_alias list db_action" where
  "list_subject_aliases class_id d =
     (hydrate_all hydrate_alias (sort_key als_class_id (sort_key als_legacy_id (sort_key als_subject_id
        (filter (\<lambda>a. class_id = None \<or> class_id = Some (als_class_id a)) (db_aliases d))))), d)"

definition read_binding_snapshot :: "(string \<Rightarrow> string) \<Rightarrow> string \<Rightarrow> binding_snapshot db_action" where
  "read_binding_snapshot sha256 i d =
     (bind_result (hydrate_optional hydrate_user (lookup_user d i)) (\<lambda>account.
      bind_result (hydrate_all hydrate_binding
        (sort_key bnd_subject_id (filter (\<lambda>b. bnd_user_id b = i) (db_bindings d)))) (\<lambda>bindings.
      bind_result (hydrate_all hydrate_membership
        (sort_key mem_class_id (sort_key (\<lambda>m. member_text (mem_role m))
          (filter (\<lambda>m. mem_user_id m = i) (db_memberships d))))) (\<lambda>memberships.
      bind_result (hydrate_all hydrate_class
        (sort_key cls_class_id (filter (\<lambda>c. list_ex (\<lambda>m. mem_user_id m = i \<and> mem_class_id m = cls_class_id c)
          (db_memberships d)) (db_classes d)))) (\<lambda>classes.
      bind_result (hydrate_all hydrate_alias
        (sort_key als_class_id (sort_key als_legacy_id (filter (\<lambda>a. list_ex (\<lambda>b. bnd_user_id b = i \<and>
          bnd_subject_id b = als_subject_id a) (db_bindings d)) (db_aliases d))))) (\<lambda>aliases.
      map_error (\<lambda>_. StorageCorruption)
        (build_snapshot sha256 account bindings memberships classes aliases)))))), d)"

section \<open>Integrity\<close>

lemma insert_aliases_advance:
  "list_all valid_alias as \<Longrightarrow> insert_aliases as d = Inr d' \<Longrightarrow> db_advance d d'"
proof (induction as arbitrary: d)
  case (Cons a as)
  then obtain d1 where d1: "insert_alias a d = Inr d1" "insert_aliases as d1 = Inr d'"
    by (auto simp: result_simps)
  have "db_advance d d1" using Cons.prems(1) d1(1) by (intro insert_alias_advance) simp_all
  also have "db_advance d1 d'" using Cons d1 by simp
  finally show ?case .
qed simp

lemma create_binding_keeps:
  assumes "valid_binding b" "list_all valid_alias aliases"
  shows "keeps db_advance (create_subject_binding b aliases)"
  unfolding create_subject_binding_def
  by (intro keeps_if keeps_transaction keeps_pure db_advance_order)
    (auto simp: result_simps split: if_splits
      intro: db_advance_trans [OF insert_binding_advance [OF assms(1)]] insert_aliases_advance [OF assms(2)])

lemma save_binding_keeps:
  assumes "valid_binding b"
  shows "keeps db_advance (save_subject_binding b expected)"
  unfolding save_subject_binding_def
  by (intro keeps_if keeps_transaction keeps_pure db_advance_order)
    (use assms in \<open>auto simp: result_simps valid_binding_def split: if_splits intro: update_bindings_advance\<close>)

lemma save_alias_keeps: "valid_alias a \<Longrightarrow> keeps db_advance (save_subject_alias a expected)"
  unfolding save_subject_alias_def
  by (rule keeps_transaction) (auto simp: result_simps split: if_splits intro: insert_alias_advance)

section \<open>Resolution from the database\<close>

lemma snapshot_rows:
  assumes "db_ok d" "\<And>t. revision_shape (''sha256:'' @ sha256 t)"
  shows "read_binding_snapshot sha256 i d =
    (map_error (\<lambda>_. StorageCorruption) (build_snapshot sha256 (lookup_user d i)
       (sort_key bnd_subject_id (filter (\<lambda>b. bnd_user_id b = i) (db_bindings d)))
       (sort_key mem_class_id (sort_key (\<lambda>m. member_text (mem_role m))
          (filter (\<lambda>m. mem_user_id m = i) (db_memberships d))))
       (sort_key cls_class_id (filter (\<lambda>c. list_ex (\<lambda>m. mem_user_id m = i \<and> mem_class_id m = cls_class_id c)
          (db_memberships d)) (db_classes d)))
       (sort_key als_class_id (sort_key als_legacy_id (filter (\<lambda>a. list_ex (\<lambda>b. bnd_user_id b = i \<and>
          bnd_subject_id b = als_subject_id a) (db_bindings d)) (db_aliases d))))), d)"
proof -
  have "hydrate_optional hydrate_user (lookup_user d i) = Inr (lookup_user d i)"
    unfolding lookup_user_def by (rule hydrate_lookup) (rule hydrate_ok(1) [OF assms(1)])
  moreover have "set t \<subseteq> set (db_bindings d) \<Longrightarrow> hydrate_all hydrate_binding t = Inr t" for t
    by (rule hydrate_all_same) (auto intro: hydrate_ok [OF assms(1)])
  moreover have "set t \<subseteq> set (db_memberships d) \<Longrightarrow> hydrate_all hydrate_membership t = Inr t" for t
    by (rule hydrate_all_same) (auto intro: hydrate_ok [OF assms(1)])
  moreover have "set t \<subseteq> set (db_classes d) \<Longrightarrow> hydrate_all hydrate_class t = Inr t" for t
    by (rule hydrate_all_same) (auto intro: hydrate_ok [OF assms(1)])
  moreover have "set t \<subseteq> set (db_aliases d) \<Longrightarrow> hydrate_all hydrate_alias t = Inr t" for t
    by (rule hydrate_all_same) (auto intro: hydrate_ok [OF assms(1)])
  ultimately show ?thesis
    using assms(2)
    by (simp add: read_binding_snapshot_def build_snapshot_def authority_revision_def Let_def)
qed

lemma sort_mset: "mset xs = mset ys \<Longrightarrow> sort xs = sort ys" for xs ys :: "'a :: linorder list"
  by (metis sorted_list_of_multiset_mset)

lemma sort_key_singleton: "sort_key f xs = [x] \<longleftrightarrow> xs = [x]"
proof
  assume "sort_key f xs = [x]"
  then have "mset xs = mset [x]" by (metis mset_sort)
  then show "xs = [x]" by simp
qed simp

lemma unique_filter_singleton:
  assumes "unique_on key t" "\<And>r. P r \<Longrightarrow> key r = k"
  shows "filter P t = [r] \<longleftrightarrow> r \<in> set t \<and> P r"
proof
  assume r: "r \<in> set t \<and> P r"
  then have "count_where P t = 1" using count_where_le_1 [OF assms, of P] by auto
  then obtain q where q: "filter P t = [q]" by (auto simp: count_where_def length_Suc_conv)
  have "r \<in> set (filter P t)" using r by simp
  then show "filter P t = [r]" unfolding q by simp
next
  assume "filter P t = [r]"
  then have "r \<in> set (filter P t)" by simp
  then show "r \<in> set t \<and> P r" by simp
qed

text \<open>The student a snapshot resolves to, in terms of the rows of the database.\<close>

lemma student_of_rows:
  assumes "db_ok d" "\<And>t. revision_shape (''sha256:'' @ sha256 t)" "read_binding_snapshot sha256 i d = (Inr s, d')"
  shows "resolve_student_identity sha256 (PyStr i) s = Inr r \<longleftrightarrow>
    (\<exists>u b. lookup_user d i = Some u \<and> acc_active u \<and> acc_role u = RoleStudent \<and>
       b \<in> set (db_bindings d) \<and> bnd_user_id b = i \<and> bnd_active b \<and>
       list_all (\<lambda>m. mem_user_id m = i \<longrightarrow> mem_role m = MemberStudent \<and> class_open d (mem_class_id m)) (db_memberships d) \<and>
       r = \<lparr>sid_user_id = i, sid_subject_id = bnd_subject_id b,
            sid_class_ids = sort (map mem_class_id (filter (\<lambda>m. mem_user_id m = i) (db_memberships d))),
            sid_revision = snp_revision s\<rparr>)"
proof -
  let ?ms = "filter (\<lambda>m. mem_user_id m = i) (db_memberships d)"
  let ?cs = "filter (\<lambda>c. list_ex (\<lambda>m. mem_user_id m = i \<and> mem_class_id m = cls_class_id c) (db_memberships d)) (db_classes d)"
  let ?sms = "sort_key mem_class_id (sort_key (\<lambda>m. member_text (mem_role m)) ?ms)"
  let ?scs = "sort_key cls_class_id ?cs"
  have s: "snp_account s = lookup_user d i" "snp_memberships s = ?sms" "snp_classes s = ?scs"
      "snp_bindings s = sort_key bnd_subject_id (filter (\<lambda>b. bnd_user_id b = i) (db_bindings d))"
      "snp_revision s = authority_revision sha256 (snp_account s) (snp_bindings s) (snp_memberships s)
        (snp_classes s) (snp_aliases s)" "revision_shape (snp_revision s)"
    using assms(3) assms(2) unfolding snapshot_rows [OF assms(1,2)]
    by (auto simp: build_snapshot_def authority_revision_def Let_def)
  have ok: "unique_on cls_class_id (db_classes d)" "unique_on mem_key (db_memberships d)"
      "unique_on bnd_user_id (db_bindings d)" "\<And>u. u \<in> set (db_users d) \<Longrightarrow> valid_user u"
      "\<And>m. m \<in> set (db_memberships d) \<Longrightarrow> class_exists d (mem_class_id m)"
    using assms(1) by (auto simp: ok_defs)
  have clean: "binding_text (PyStr i) = Inr i" if "lookup_user d i = Some u" for u
    using lookup_userD [OF that] ok(4) by (auto simp: valid_user_def field_simps)
  have acc: "acc_user_id u = i" if "lookup_user d i = Some u" for u using lookup_userD [OF that] by simp
  have bnd: "snp_bindings s = [b] \<longleftrightarrow> b \<in> set (db_bindings d) \<and> bnd_user_id b = i" for b
    unfolding s(4) sort_key_singleton by (rule unique_filter_singleton [OF ok(3)]) simp
  have ids: "set (map cls_class_id (snp_classes s)) = set (map mem_class_id (snp_memberships s))"
  proof -
    have "cls_class_id c \<in> mem_class_id ` set ?ms" if "c \<in> set ?cs" for c
    proof -
      have "list_ex (\<lambda>m. mem_user_id m = i \<and> mem_class_id m = cls_class_id c) (db_memberships d)" using that by simp
      then obtain m where "m \<in> set ?ms" "cls_class_id c = mem_class_id m" by (auto simp: list_ex_iff)
      then show ?thesis by blast
    qed
    moreover have "mem_class_id m \<in> cls_class_id ` set ?cs" if m: "m \<in> set ?ms" for m
    proof -
      obtain c where c: "c \<in> set (db_classes d)" "mem_class_id m = cls_class_id c"
        using ok(5) m by (auto simp: class_exists_def)
      then have "c \<in> set ?cs" using m by (auto simp: list_ex_iff)
      with c(2) show ?thesis by blast
    qed
    ultimately show ?thesis unfolding s(2,3) by (simp only: set_map set_sort) blast
  qed
  have dcls: "distinct (map cls_class_id (snp_classes s))"
  proof -
    have "mset (map cls_class_id ?scs) = mset (map cls_class_id ?cs)" by simp
    moreover have "distinct (map cls_class_id ?cs)" using ok(1) by (simp add: unique_on_def distinct_map_filter)
    ultimately show ?thesis unfolding s(3) using mset_eq_imp_distinct_iff by blast
  qed
  have dmem: "distinct (map mem_class_id (snp_memberships s))"
    if "list_all (\<lambda>m. mem_user_id m = i \<and> mem_role m = MemberStudent) (snp_memberships s)"
  proof -
    have "inj_on mem_class_id (set ?ms)"
    proof (rule inj_onI)
      fix a b assume ab: "a \<in> set ?ms" "b \<in> set ?ms" "mem_class_id a = mem_class_id b"
      then have "mem_key a = mem_key b" using that by (auto simp: s(2) list_all_iff mem_key_def)
      with ab ok(2) show "a = b" by (auto dest: unique_onD)
    qed
    moreover have "distinct ?ms" using ok(2) by (simp add: unique_on_def distinct_map)
    ultimately have "distinct (map mem_class_id ?ms)" by (simp add: distinct_map)
    moreover have "mset (map mem_class_id ?sms) = mset (map mem_class_id ?ms)" by simp
    ultimately show ?thesis unfolding s(2) using mset_eq_imp_distinct_iff by blast
  qed
  have sorted: "sort (map mem_class_id (snp_memberships s)) = sort (map mem_class_id ?ms)"
    unfolding s(2) by (rule sort_mset) simp
  have act: "list_all cls_active (snp_classes s) \<longleftrightarrow> (\<forall>m \<in> set ?ms. class_open d (mem_class_id m))"
  proof
    assume "list_all cls_active (snp_classes s)"
    then have a: "c \<in> set ?cs \<Longrightarrow> cls_active c" for c by (simp add: s(3) list_all_iff)
    show "\<forall>m \<in> set ?ms. class_open d (mem_class_id m)"
    proof
      fix m assume m: "m \<in> set ?ms"
      then obtain c where "c \<in> set (db_classes d)" "mem_class_id m = cls_class_id c"
        using ok(5) [of m] by (auto simp: class_exists_def)
      with a [of c] m show "class_open d (mem_class_id m)" by (auto simp: class_open_def list_ex_iff)
    qed
  next
    assume a: "\<forall>m \<in> set ?ms. class_open d (mem_class_id m)"
    have "cls_active c" if c: "c \<in> set ?cs" for c
    proof -
      have "list_ex (\<lambda>m. mem_user_id m = i \<and> mem_class_id m = cls_class_id c) (db_memberships d)" using c by simp
      then obtain m where "m \<in> set ?ms" "mem_class_id m = cls_class_id c" by (auto simp: list_ex_iff)
      then have "class_open d (cls_class_id c)" using a by metis
      then obtain k where "k \<in> set (db_classes d)" "cls_class_id k = cls_class_id c" "cls_active k"
        by (auto simp: class_open_def list_ex_iff)
      with c ok(1) show ?thesis by (auto dest: unique_onD)
    qed
    then show "list_all cls_active (snp_classes s)" by (simp add: s(3) list_all_iff)
  qed
  have mem: "list_all (\<lambda>m. mem_user_id m = i \<and> mem_role m = MemberStudent) (snp_memberships s) \<and> list_all cls_active (snp_classes s) \<longleftrightarrow>
      list_all (\<lambda>m. mem_user_id m = i \<longrightarrow> mem_role m = MemberStudent \<and> class_open d (mem_class_id m)) (db_memberships d)"
    unfolding act by (auto simp: s(2) list_all_iff)
  show ?thesis
  proof
    assume "resolve_student_identity sha256 (PyStr i) s = Inr r"
    then show "\<exists>u b. lookup_user d i = Some u \<and> acc_active u \<and> acc_role u = RoleStudent \<and>
       b \<in> set (db_bindings d) \<and> bnd_user_id b = i \<and> bnd_active b \<and>
       list_all (\<lambda>m. mem_user_id m = i \<longrightarrow> mem_role m = MemberStudent \<and> class_open d (mem_class_id m)) (db_memberships d) \<and>
       r = \<lparr>sid_user_id = i, sid_subject_id = bnd_subject_id b, sid_class_ids = sort (map mem_class_id ?ms),
            sid_revision = snp_revision s\<rparr>"
      proof (elim resolve_student_Inr [THEN iffD1, elim_format] exE conjE, goal_cases)
        case (1 v a b)
        have u: "lookup_user d i = Some a" using 1 s(1) by simp
        have v: "v = i" using acc [OF u] 1 by simp
        have b: "b \<in> set (db_bindings d) \<and> bnd_user_id b = i" by (rule bnd [THEN iffD1, OF 1(8)])
        show ?case
        proof (intro exI conjI)
          show "lookup_user d i = Some a" by (rule u)
          show "b \<in> set (db_bindings d)" "bnd_user_id b = i" using b by simp_all
          show "list_all (\<lambda>m. mem_user_id m = i \<longrightarrow> mem_role m = MemberStudent \<and> class_open d (mem_class_id m)) (db_memberships d)"
            using mem 1 v by simp
          show "r = \<lparr>sid_user_id = i, sid_subject_id = bnd_subject_id b, sid_class_ids = sort (map mem_class_id ?ms),
            sid_revision = snp_revision s\<rparr>" using 1 v sorted by simp
        qed (use 1 in simp_all)
      qed
  next
    assume "\<exists>u b. lookup_user d i = Some u \<and> acc_active u \<and> acc_role u = RoleStudent \<and>
       b \<in> set (db_bindings d) \<and> bnd_user_id b = i \<and> bnd_active b \<and>
       list_all (\<lambda>m. mem_user_id m = i \<longrightarrow> mem_role m = MemberStudent \<and> class_open d (mem_class_id m)) (db_memberships d) \<and>
       r = \<lparr>sid_user_id = i, sid_subject_id = bnd_subject_id b, sid_class_ids = sort (map mem_class_id ?ms),
            sid_revision = snp_revision s\<rparr>"
    then obtain u b where u: "lookup_user d i = Some u" "acc_active u" "acc_role u = RoleStudent"
        and b: "snp_bindings s = [b]" "bnd_user_id b = i" "bnd_active b"
        and m: "list_all (\<lambda>m. mem_user_id m = i \<and> mem_role m = MemberStudent) (snp_memberships s)"
          "list_all cls_active (snp_classes s)"
        and r: "r = \<lparr>sid_user_id = i, sid_subject_id = bnd_subject_id b,
          sid_class_ids = sort (map mem_class_id ?ms), sid_revision = snp_revision s\<rparr>"
      using bnd mem by blast
    show "resolve_student_identity sha256 (PyStr i) s = Inr r"
      unfolding resolve_student_Inr
      by (intro exI conjI) (use clean [OF u(1)] acc [OF u(1)] u b m dmem [OF m(1)] dcls ids r sorted s(1,5,6) in auto)
  qed
qed

text \<open>C26. What the storage reads is what the resolution needs: from an intact database a student is
  resolved exactly when the account is an active student with an active binding, all of whose
  memberships are student memberships in active classes; the result names that binding's
  subject and those classes.\<close>

theorem stored_student_iff:
  assumes "db_ok d" "\<And>t. revision_shape (''sha256:'' @ sha256 t)" "read_binding_snapshot sha256 i d = (Inr s, d')"
  shows "resolve_student_identity sha256 (PyStr i) s = Inr r \<longleftrightarrow>
    (\<exists>u b. lookup_user d i = Some u \<and> acc_active u \<and> acc_role u = RoleStudent \<and>
       b \<in> set (db_bindings d) \<and> bnd_user_id b = i \<and> bnd_active b \<and>
       list_all (\<lambda>m. mem_user_id m = i \<longrightarrow> mem_role m = MemberStudent \<and> class_open d (mem_class_id m)) (db_memberships d) \<and>
       r = \<lparr>sid_user_id = i, sid_subject_id = bnd_subject_id b,
            sid_class_ids = sort (map mem_class_id (filter (\<lambda>m. mem_user_id m = i) (db_memberships d))),
            sid_revision = snp_revision s\<rparr>)"
  using assms by (rule student_of_rows)

end
