(* ===== verification/Store_Machine.thy ===== *)
theory Store_Machine
  imports Store_Pairings Store_Mappings Store_Bindings
begin

text \<open>
  The storage as a state machine: one step is any completed operation of the modelled part of
  \<^verbatim>\<open>SQLiteIdentityStorage\<close> on valid arguments, whatever its outcome, so a run is any interleaving
  of operations of any number of processes (every operation that writes is one immediate
  transaction). The invariant of \<open>Store_Invariant\<close> holds in every reachable database and the
  rows evolve as described there.

  \<^verbatim>\<open>onboard_pending_user_from_external_group\<close> writes \<^verbatim>\<open>joined_at\<close> as the new \<^verbatim>\<open>updated_at\<close> of the user and,
  unlike the other operations that write a user row, does not require it to be later than the
  revision it expects; its caller in \<^verbatim>\<open>thebitlab_github_team_mapping.py\<close> takes care of that. Steps are
  therefore described twice: \<open>storage_step\<close> is any operation, \<open>dated_step\<close> is any operation but
  for onboardings with a \<^verbatim>\<open>joined_at\<close> that is not later than the expected revision.
\<close>

section \<open>Steps\<close>

inductive storage_op :: "bool \<Rightarrow> identity_db \<Rightarrow> identity_db \<Rightarrow> bool" for dated where
  user_created: "valid_user u \<Longrightarrow> create_user u d = (r, d') \<Longrightarrow> storage_op dated d d'"
| user_provisioned: "valid_user u \<Longrightarrow> valid_external e \<Longrightarrow>
    provision_user_with_identity u e d = (r, d') \<Longrightarrow> storage_op dated d d'"
| user_saved: "valid_user u \<Longrightarrow> save_user u expected d = (r, d') \<Longrightarrow> storage_op dated d d'"
| bootstrapped: "representable t \<Longrightarrow> bootstrap_first_admin i t expected d = (r', d') \<Longrightarrow> storage_op dated d d'"
| class_created: "valid_class c \<Longrightarrow> create_class_as_admin i c expected d = (r, d') \<Longrightarrow> storage_op dated d d'"
| approved: "representable t \<Longrightarrow>
    approve_pending_user_as_admin i target role cls t ea et d = (r3, d') \<Longrightarrow> storage_op dated d d'"
| linked: "valid_external e \<Longrightarrow> link_external_identity e d = (r, d') \<Longrightarrow> storage_op dated d d'"
| linked_for_user: "valid_external e \<Longrightarrow>
    link_external_identity_for_active_user e rvn d = (r, d') \<Longrightarrow> storage_op dated d d'"
| linked_for_session: "valid_external e \<Longrightarrow>
    link_external_identity_for_active_session now e rvn x d = (r, d') \<Longrightarrow> storage_op dated d d'"
| refreshed: "valid_external e \<Longrightarrow> refresh_external_identity e l rvn d = (r, d') \<Longrightarrow> storage_op dated d d'"
| refreshed_for_session: "valid_external e \<Longrightarrow>
    refresh_external_identity_for_active_session now e l rvn x d = (r, d') \<Longrightarrow> storage_op dated d d'"
| unlinked: "unlink_external_identity p q d = (b, d') \<Longrightarrow> storage_op dated d d'"
| unlinked_for_user: "unlink_external_identity_for_active_user p q i l rvn d = (b, d') \<Longrightarrow> storage_op dated d d'"
| unlinked_for_session:
    "unlink_external_identity_for_active_session now p q i l rvn x d = (b, d') \<Longrightarrow> storage_op dated d d'"
| session_created: "valid_session s \<Longrightarrow> create_session s d = (r, d') \<Longrightarrow> storage_op dated d d'"
| session_created_for_user: "valid_session s \<Longrightarrow>
    create_session_for_active_user s rvn d = (r, d') \<Longrightarrow> storage_op dated d d'"
| session_saved: "save_session s d = (r, d') \<Longrightarrow> storage_op dated d d'"
| session_touched: "save_session_for_active_user now s rvn v d = (rs, d') \<Longrightarrow> storage_op dated d d'"
| sessions_revoked: "revoke_user_sessions i t audience d = (n, d') \<Longrightarrow> storage_op dated d d'"
| sessions_expired: "delete_expired_sessions t d = (n, d') \<Longrightarrow> storage_op dated d d'"
| pairing_created: "valid_pairing p \<Longrightarrow> create_pairing p d = (r, d') \<Longrightarrow> storage_op dated d d'"
| pairing_saved: "valid_pairing p \<Longrightarrow> representable now \<Longrightarrow> save_pairing now p d = (r, d') \<Longrightarrow> storage_op dated d d'"
| pairing_saved_for_user: "valid_pairing p \<Longrightarrow> representable now \<Longrightarrow>
    save_pairing_for_active_user now p rvn d = (r, d') \<Longrightarrow> storage_op dated d d'"
| pairing_consumed: "valid_pairing p \<Longrightarrow> valid_session s \<Longrightarrow> representable now \<Longrightarrow>
    consume_pairing_and_create_session now p s rvn role d = (r, d') \<Longrightarrow> storage_op dated d d'"
| pairings_expired: "delete_expired_pairings t d = (n, d') \<Longrightarrow> storage_op dated d d'"
| class_row_created: "valid_class c \<Longrightarrow> create_class c d = (r, d') \<Longrightarrow> storage_op dated d d'"
| class_saved: "valid_class c \<Longrightarrow> save_class c expected d = (r, d') \<Longrightarrow> storage_op dated d d'"
| membership_saved: "valid_membership m \<Longrightarrow> save_membership m d = (r, d') \<Longrightarrow> storage_op dated d d'"
| membership_deleted: "delete_membership i c role d = (b, d') \<Longrightarrow> storage_op dated d d'"
| mapping_saved: "valid_mapping mp \<Longrightarrow>
    save_external_group_mapping mp known d = (r, d') \<Longrightarrow> storage_op dated d d'"
| mapping_saved_for_admin: "valid_mapping mp \<Longrightarrow>
    save_mapping_for_admin mp admin ar cr ec eu d = (r, d') \<Longrightarrow> storage_op dated d d'"
| mapping_deleted: "delete_external_group_mapping p g h created updated d = (b, d') \<Longrightarrow> storage_op dated d d'"
| mapping_deleted_for_admin: "delete_mapping_for_admin mp admin ar cr d = (b, d') \<Longrightarrow> storage_op dated d d'"
| memberships_revoked: "revoke_github_memberships i rvn ms d = (r, d') \<Longrightarrow> storage_op dated d d'"
| memberships_synchronized: "list_all valid_membership (gs_desired gs) \<Longrightarrow>
    synchronize_github_memberships now gs d = (r, d') \<Longrightarrow> storage_op dated d d'"
| onboarded: "valid_membership (go_membership go) \<Longrightarrow>
    (dated \<Longrightarrow> go_user_revision go < mem_joined_at (go_membership go)) \<Longrightarrow>
    onboard_pending_user now go d = (r, d') \<Longrightarrow> storage_op dated d d'"
| binding_created: "valid_binding bnd \<Longrightarrow> list_all valid_alias as \<Longrightarrow>
    create_subject_binding bnd as d = (r, d') \<Longrightarrow> storage_op dated d d'"
| binding_saved: "valid_binding bnd \<Longrightarrow> save_subject_binding bnd version d = (r, d') \<Longrightarrow> storage_op dated d d'"
| alias_saved: "valid_alias al \<Longrightarrow> save_subject_alias al version d = (r, d') \<Longrightarrow> storage_op dated d d'"

abbreviation storage_step :: "identity_db \<Rightarrow> identity_db \<Rightarrow> bool" where
  "storage_step \<equiv> storage_op False"

abbreviation dated_step :: "identity_db \<Rightarrow> identity_db \<Rightarrow> bool" where
  "dated_step \<equiv> storage_op True"

abbreviation storage_steps :: "identity_db \<Rightarrow> identity_db \<Rightarrow> bool" where
  "storage_steps \<equiv> storage_step\<^sup>*\<^sup>*"

abbreviation dated_steps :: "identity_db \<Rightarrow> identity_db \<Rightarrow> bool" where
  "dated_steps \<equiv> dated_step\<^sup>*\<^sup>*"

lemma dated_is_step: "storage_op dated d d' \<Longrightarrow> storage_step d d'"
  by (induction rule: storage_op.induct) (blast intro: storage_op.intros)+

lemma dated_are_steps: "dated_steps d d' \<Longrightarrow> storage_steps d d'"
  by (rule mono_rtranclp [rule_format]) (rule dated_is_step)

lemmas storage_keeps = create_user_keeps provision_keeps save_user_keeps bootstrap_keeps
  create_class_keeps approve_keeps link_keeps refresh_keeps unlink_keeps create_session_keeps
  save_session_keeps touch_keeps revoke_keeps delete_expired_sessions_keeps create_pairing_keeps
  save_pairing_keeps consume_keeps delete_expired_pairings_keeps create_class_row_keeps save_class_keeps
  save_membership_keeps delete_membership_keeps save_mapping_keeps delete_mapping_keeps revoke_github_keeps
  sync_keeps onboard_keeps create_binding_keeps save_binding_keeps save_alias_keeps

lemma dated_step_advance: "dated_step d d' \<Longrightarrow> db_advance d d'"
  by (induction rule: storage_op.induct) (blast intro: keepsD storage_keeps)+

lemma dated_steps_advance: "dated_steps d d' \<Longrightarrow> db_advance d d'"
  by (induction rule: rtranclp_induct) (auto intro: db_advance_trans dated_step_advance)

text \<open>An operation that is not dated is an onboarding.\<close>

lemma storage_op_cases: "storage_op dated d d' \<Longrightarrow>
    dated_step d d' \<or> (\<exists>now go r. valid_membership (go_membership go) \<and> onboard_pending_user now go d = (r, d'))"
  by (induction rule: storage_op.induct) (blast intro: storage_op.intros)+

lemma storage_step_growth: "storage_step d d' \<Longrightarrow> db_growth d d'"
  using storage_op_cases [of False d d'] dated_step_advance advance_growth keepsD [OF onboard_grows] by blast

lemma storage_steps_growth: "storage_steps d d' \<Longrightarrow> db_growth d d'"
  by (induction rule: rtranclp_induct) (auto intro: growth_trans storage_step_growth)

section \<open>Sessions and pairings in a step\<close>

lemma update_in_chain:
  assumes "update_sessions P seen rvk d1 = Inr (n, d2)" "db_sessions d1 = db_sessions d"
    "db_sessions d3 = db_sessions d2" "\<And>s. P s \<Longrightarrow> ses_revoked_at s = None"
    "\<And>s. P s \<Longrightarrow> seen s = ses_last_seen_at s"
  shows "sessions_follow d d3"
  by (rule sessions_follow_update [where P = P and f = "set_session_times seen rvk"])
    (use assms in \<open>auto simp: update_sessions_Inr session_follows_def set_session_times_def\<close>)

lemma drop_authorized_frames:
  assumes "drop_authorized_pairings i d = Inr (n, d')"
  shows "db_sessions d' = db_sessions d" "set (db_pairings d') \<subseteq> set (db_pairings d)"
  using assms by (auto simp: drop_authorized_pairings_def delete_pairings_Inr)

lemma user_writes_follow:
  "keeps sessions_follow (save_user u expected)" "keeps pairings_follow (save_user u expected)"
  "keeps sessions_follow (bootstrap_first_admin i t expected)"
  "keeps pairings_follow (bootstrap_first_admin i t expected)"
  "keeps sessions_follow (approve_pending_user_as_admin i target role cls t ea et)"
  "keeps pairings_follow (approve_pending_user_as_admin i target role cls t ea et)"
proof -
  have ses: "sessions_follow d d3"
    if "update_sessions P ses_last_seen_at rvk d1 = Inr (n, d2)" "drop_authorized_pairings i d2 = Inr (k, d3)"
      "db_sessions d1 = db_sessions d" "\<And>s. P s \<Longrightarrow> ses_revoked_at s = None" for P rvk n k i d d1 d2 d3
    by (rule update_in_chain [OF that(1,3) drop_authorized_frames(1) [OF that(2)] that(4)]) simp_all
  have par: "pairings_follow d d3"
    if "update_sessions P ses_last_seen_at rvk d1 = Inr (n, d2)" "drop_authorized_pairings i d2 = Inr (k, d3)"
      "db_pairings d1 = db_pairings d" for P rvk n k i d d1 d2 d3
    by (rule pairings_follow_subset) (use that drop_authorized_frames(2) [OF that(2)] in \<open>simp add: update_sessions_Inr\<close>)
  have enroll: "db_sessions d2 = db_sessions d1 \<and> db_pairings d2 = db_pairings d1"
    if "(case cls of Some c \<Rightarrow> enroll_student j c t d1 | None \<Rightarrow> Inr (None, d1)) = Inr (m, d2)" for j d1 d2 m
    using that by (auto simp: enroll_student_def result_simps statement_simps split: option.splits)
  have users: "db_sessions d1 = db_sessions d \<and> db_pairings d1 = db_pairings d"
    if "update_users P f d = Inr (n, d1)" for P f n d d1
    using that by (simp add: update_users_Inr)
  show "keeps sessions_follow (save_user u expected)" "keeps pairings_follow (save_user u expected)"
    unfolding save_user_def
    by (intro keeps_if keeps_transaction keeps_pure follow_refl;
        auto simp: result_simps split: if_splits dest!: users intro: ses par)+
  show "keeps sessions_follow (bootstrap_first_admin i t expected)"
    "keeps pairings_follow (bootstrap_first_admin i t expected)"
    unfolding bootstrap_first_admin_def
    by (intro keeps_if keeps_transaction keeps_pure follow_refl;
        auto simp: result_simps split: if_splits option.splits dest!: users
          intro: ses par simp: revocable_session_def)+
  have chain: "sessions_follow d d4" "pairings_follow d d4"
    if "update_users P f d = Inr (n, d1)"
      "(case cls of Some c \<Rightarrow> enroll_student target c t d1 | None \<Rightarrow> Inr (None, d1)) = Inr (m, d2)"
      "update_sessions (revocable_session target t) ses_last_seen_at rvk d2 = Inr (k, d3)"
      "drop_authorized_pairings target d3 = Inr (l, d4)"
    for P f n d d1 m d2 rvk k d3 l d4
    using users [OF that(1)] enroll [OF that(2)] ses [OF that(3,4)] par [OF that(3,4)]
    by (simp_all add: revocable_session_def)
  show "keeps sessions_follow (approve_pending_user_as_admin i target role cls t ea et)"
    unfolding approve_pending_user_as_admin_def
  proof (intro keeps_if keeps_transaction keeps_pure follow_refl, goal_cases)
    case (1 d x d')
    then show ?case
      by (cases "lookup_user d target") (auto simp: result_simps split: if_splits intro: chain(1))
  qed
  show "keeps pairings_follow (approve_pending_user_as_admin i target role cls t ea et)"
    unfolding approve_pending_user_as_admin_def
  proof (intro keeps_if keeps_transaction keeps_pure follow_refl, goal_cases)
    case (1 d x d')
    then show ?case
      by (cases "lookup_user d target") (auto simp: result_simps split: if_splits intro: chain(2))
  qed
qed

lemma pairing_writes_follow:
  assumes "valid_pairing p" "representable now"
  shows "keeps pairings_follow (save_pairing now p)" "keeps sessions_follow (save_pairing now p)"
    "keeps pairings_follow (save_pairing_for_active_user now p v)"
    "keeps sessions_follow (save_pairing_for_active_user now p v)"
    "keeps pairings_follow (consume_pairing_and_create_session now p s rvn role)"
    "keeps sessions_follow (consume_pairing_and_create_session now p s rvn role)"
proof -
  have one: "keeps R (bind_act (transaction body) (\<lambda>expired. if expired then raise_act e else return_act ()))"
    if "\<And>d x d'. body d = Inr (x, d') \<Longrightarrow> R d d'" "reflp R" for R body and e :: storage_error
  proof (unfold keeps_def, rule allI)
    fix d
    show "R d (snd (bind_act (transaction body)
        (\<lambda>expired. if expired then raise_act e else return_act ()) d))"
      using that by (cases "body d")
        (auto simp: bind_act_def transaction_def raise_act_def return_act_def reflp_def)
  qed
  have same: "db_sessions d' = db_sessions d" if "transition_body now p v d = Inr (x, d')" for v d x d'
    using that
    by (fastforce simp: transition_body_def result_simps update_pairings_Inr split: if_splits option.splits)
  show "keeps pairings_follow (save_pairing now p)" "keeps sessions_follow (save_pairing now p)"
    "keeps pairings_follow (save_pairing_for_active_user now p v)"
    "keeps sessions_follow (save_pairing_for_active_user now p v)"
    unfolding save_pairing_def save_pairing_for_active_user_def save_pairing_transition_def
    by (intro keeps_if keeps_pure one follow_refl follow_same(1) transition_pairings_follow [OF assms] same;
        assumption)+
  show "keeps pairings_follow (consume_pairing_and_create_session now p s rvn role)"
    "keeps sessions_follow (consume_pairing_and_create_session now p s rvn role)"
    by (cases "consumption_contract p s role";
        auto simp: consume_pairing_and_create_session_def keeps_pure
          intro!: one intro: consumption_pairings_follow [OF assms])+
qed

lemma unrelated_writes_follow:
  assumes "m \<in> {create_user u, provision_user_with_identity u e, create_class_as_admin i c expected,
    link_external_identity e, link_external_identity_for_active_user e rvn,
    link_external_identity_for_active_session now e rvn x, refresh_external_identity e l rvn,
    refresh_external_identity_for_active_session now e l rvn x}"
  shows "keeps sessions_follow m" "keeps pairings_follow m"
proof -
  have "db_sessions d' = db_sessions d \<and> db_pairings d' = db_pairings d" if "m d = (r, d')" for d r d'
    using assms that
    by (cases r; elim insertE emptyE;
      auto simp: create_user_def provision_user_with_identity_def create_class_as_admin_def
        link_external_identity_def link_external_identity_for_active_user_def
        link_external_identity_for_active_session_def refresh_external_identity_def
        refresh_external_identity_for_active_session_def update_identities_def Let_def
        action_simps result_simps statement_simps split: if_splits)
  then show "keeps sessions_follow m" "keeps pairings_follow m"
    unfolding keeps_def by (metis follow_same prod.collapse)+
qed

lemma unlink_writes_follow:
  assumes "m \<in> {unlink_external_identity p q, unlink_external_identity_for_active_user p q i l rvn,
    unlink_external_identity_for_active_session now p q i l rvn x}"
  shows "keeps sessions_follow m" "keeps pairings_follow m"
proof -
  have "db_sessions d' = db_sessions d \<and> db_pairings d' = db_pairings d" if "m d = (r, d')" for d r d'
    using assms that
    by (cases r; elim insertE emptyE;
      auto simp: unlink_external_identity_def unlink_external_identity_for_active_user_def
        unlink_external_identity_for_active_session_def finish_unlink_def delete_identities_def
        drop_github_memberships_def Let_def action_simps split: if_splits option.splits)
  then show "keeps sessions_follow m" "keeps pairings_follow m"
    unfolding keeps_def by (metis follow_same prod.collapse)+
qed

lemma session_writes_frame:
  "keeps pairings_follow (create_session s)"
  "keeps pairings_follow (create_session_for_active_user s rvn)"
  "keeps pairings_follow (save_session s)"
  "keeps pairings_follow (save_session_for_active_user now s rvn v)"
  "keeps pairings_follow (revoke_user_sessions i t audience)"
  "keeps pairings_follow (delete_expired_sessions t)"
proof -
  show "keeps pairings_follow (create_session s)"
    "keeps pairings_follow (create_session_for_active_user s rvn)"
    "keeps pairings_follow (save_session_for_active_user now s rvn v)"
    "keeps pairings_follow (revoke_user_sessions i t audience)"
    "keeps pairings_follow (delete_expired_sessions t)"
    unfolding create_session_def create_session_for_active_user_def save_session_for_active_user_def
      revoke_user_sessions_def delete_expired_sessions_def
    by (intro keeps_if keeps_transaction keeps_pure follow_refl;
        auto simp: result_simps statement_simps Let_def split: if_splits option.splits)+
  show "keeps pairings_follow (save_session s)"
    unfolding save_session_def
    by (rule keeps_transaction, simp) (cases "ses_revoked_at s";
        auto simp: result_simps update_sessions_Inr split: if_splits)
qed

lemma pairing_writes_frame:
  "keeps sessions_follow (create_pairing p)" "keeps pairings_follow (create_pairing p)"
  "keeps sessions_follow (delete_expired_pairings t)" "keeps pairings_follow (delete_expired_pairings t)"
  unfolding create_pairing_def delete_expired_pairings_def
  by (rule keeps_transaction;
      auto simp: result_simps delete_pairings_Inr insert_pairing_Inr
        intro: pairings_follow_insert pairings_follow_subset)+

lemma class_writes_follow:
  assumes "m \<in> {create_class c, save_class c expected, save_membership k, save_external_group_mapping mp known,
    save_mapping_for_admin mp admin ar cr ec eu, save_subject_binding bnd version, save_subject_alias al version}"
  shows "keeps sessions_follow m" "keeps pairings_follow m"
proof -
  have "db_sessions d' = db_sessions d \<and> db_pairings d' = db_pairings d" if "m d = (r, d')" for d r d'
    using assms that
    by (cases r; elim insertE emptyE;
      auto simp: create_class_def save_class_def save_membership_def upsert_membership_def
        save_external_group_mapping_def save_mapping_for_admin_def update_mappings_def save_subject_binding_def
        save_subject_alias_def Let_def action_simps result_simps statement_simps split: if_splits option.splits)
  then show "keeps sessions_follow m" "keeps pairings_follow m"
    unfolding keeps_def by (metis follow_same prod.collapse)+
qed

lemma insert_aliases_frame:
  "insert_aliases as d = Inr d' \<Longrightarrow> db_sessions d' = db_sessions d \<and> db_pairings d' = db_pairings d"
  by (induction as arbitrary: d) (auto simp: result_simps statement_simps)

lemma insert_memberships_frame:
  "insert_memberships ms d = Inr d' \<Longrightarrow> db_sessions d' = db_sessions d \<and> db_pairings d' = db_pairings d"
  by (drule insert_memberships_Inr) simp

lemma group_writes_follow:
  assumes "m \<in> {revoke_github_memberships i rvn ms, synchronize_github_memberships now gs,
    onboard_pending_user now go, create_subject_binding bnd as}"
  shows "keeps sessions_follow m" "keeps pairings_follow m"
proof -
  have "db_sessions d' = db_sessions d \<and> db_pairings d' = db_pairings d" if "m d = (r, d')" for d r d'
    using assms that
    by (cases r; elim insertE emptyE;
      auto simp: revoke_github_memberships_def delete_memberships_def synchronize_github_memberships_def sync_body_def
        onboard_pending_user_def onboarding_body_def create_subject_binding_def Let_def action_simps result_simps
        statement_simps split: if_splits option.splits dest!: insert_aliases_frame insert_memberships_frame)
  then show "keeps sessions_follow m" "keeps pairings_follow m"
    unfolding keeps_def by (metis follow_same prod.collapse)+
qed

lemma deletes_follow:
  assumes "m \<in> {delete_membership i c role, delete_external_group_mapping p g h created updated,
    delete_mapping_for_admin mp admin ar cr}"
  shows "keeps sessions_follow m" "keeps pairings_follow m"
proof -
  have "db_sessions d' = db_sessions d \<and> db_pairings d' = db_pairings d" if "m d = (r, d')" for d r d'
    using assms that
    by (cases r; elim insertE emptyE;
      auto simp: delete_membership_def delete_memberships_def delete_external_group_mapping_def
        delete_mapping_for_admin_def delete_mappings_def Let_def action_simps split: if_splits)
  then show "keeps sessions_follow m" "keeps pairings_follow m"
    unfolding keeps_def by (metis follow_same prod.collapse)+
qed

lemma storage_step_follow:
  assumes "storage_op dated d d'"
  shows "sessions_follow d d'" "pairings_follow d d'"
  using assms
  by (induction rule: storage_op.induct)
    (blast intro: keepsD user_writes_follow pairing_writes_follow session_writes_follow
      session_writes_frame pairing_writes_frame unrelated_writes_follow unlink_writes_follow
      class_writes_follow group_writes_follow deletes_follow)+

lemma session_follows_generation: "session_follows s s' \<Longrightarrow> same_generation s s'"
  by (cases s; cases s') (simp add: session_follows_def same_generation_def)

section \<open>Every reachable database\<close>

text \<open>C1. Integrity is invariant: in every database reachable from the empty schema by any interleaving
  of storage operations, keys are unique, every row satisfies its dataclass's invariant, no
  reference dangles, every link holds a reserved generation, and every TUI session stands on
  the consumed pairing of the same user, consumed at the instant the session was created.\<close>

theorem reachable_database_ok: "storage_steps empty_db d \<Longrightarrow> db_ok d"
  using storage_steps_growth [of empty_db d] by (simp add: db_growth_def)

text \<open>C17. The compare-and-swap revision is sound under any interleaving, provided that onboardings are
  dated: if after any number of operations, none of them an onboarding whose \<^verbatim>\<open>joined_at\<close> is not
  later than the revision it expects, the row of a user carries the \<^verbatim>\<open>updated_at\<close> that was read
  before, it is the very row that was read, so no change in between can go unnoticed. The storage
  itself does not refuse the onboardings excluded here; those of the team service, its only caller,
  are dated, which the contract of this service with the storage requires.\<close>

theorem revision_detects_change:
  assumes "db_ok d" "dated_steps d d'" "lookup_user d i = Some u" "lookup_user d' i = Some u'"
    "acc_updated_at u' = acc_updated_at u"
  shows "u' = u"
  using dated_steps_advance [OF assms(2)] assms(1,3-5)
  by (auto simp: db_advance_def intro!: revision_safe [of d d'] dest!: lookup_userD)

text \<open>C24. Sessions and pairings only move forward: across one operation, a session that stays keeps its
  generation, is never seen earlier, and once revoked never changes again; a pairing that stays
  keeps its code and validity and either is unchanged or has moved on in the order pending,
  authorized, finished.\<close>

theorem steps_move_forward:
  assumes "db_ok d" "storage_step d d'"
  shows "(\<forall>s \<in> set (db_sessions d). \<forall>s' \<in> set (db_sessions d').
      ses_session_id s' = ses_session_id s \<longrightarrow>
        same_generation s s' \<and> ses_last_seen_at s \<le> ses_last_seen_at s' \<and>
        (ses_revoked_at s \<noteq> None \<longrightarrow> s' = s)) \<and>
    (\<forall>p \<in> set (db_pairings d). \<forall>p' \<in> set (db_pairings d').
      par_pairing_id p' = par_pairing_id p \<longrightarrow>
        par_code_digest p' = par_code_digest p \<and> par_expires_at p' = par_expires_at p \<and>
        (p' = p \<or> status_rank (par_status p) < status_rank (par_status p')))"
proof -
  have "same_generation s s' \<and> ses_last_seen_at s \<le> ses_last_seen_at s' \<and>
      (ses_revoked_at s \<noteq> None \<longrightarrow> s' = s)"
    if "s \<in> set (db_sessions d)" "s' \<in> set (db_sessions d')" "ses_session_id s' = ses_session_id s" for s s'
    using storage_step_follow(1) [OF assms(2)] assms(1) that session_follows_generation [of s s']
    by (simp add: sessions_follow_def session_follows_def)
  moreover have "par_code_digest p' = par_code_digest p \<and> par_expires_at p' = par_expires_at p \<and>
      (p' = p \<or> status_rank (par_status p) < status_rank (par_status p'))"
    if "p \<in> set (db_pairings d)" "p' \<in> set (db_pairings d')" "par_pairing_id p' = par_pairing_id p" for p p'
    using storage_step_follow(2) [OF assms(2)] assms(1) that
    by (simp add: pairings_follow_def pairing_follows_def)
  ultimately show ?thesis by blast
qed

text \<open>Mapping generations only grow: once a mapping has been created, whatever the storage does
  next, no mapping of the same group is ever created with the same or an earlier
  \<^verbatim>\<open>created_at\<close>, also after the mapping has been deleted.\<close>

theorem mapping_generations_grow:
  assumes "db_ok d1" "save_external_group_mapping m None d = (Inr (), d1) \<or>
      save_mapping_for_admin m admin ar cr None None d = (Inr (), d1)"
    and "storage_steps d1 d2"
    and "map_provider_key n = map_provider_key m" "map_created_at n \<le> map_created_at m"
    "map_updated_at n = map_created_at n"
  shows "save_external_group_mapping n None d2 = (Inl MappingGenerationConflict, d2) \<and>
    save_mapping_for_admin n admin' ar' cr' None None d2 = (Inl MappingGenerationConflict, d2)"
proof -
  have "(map_provider_key n, map_created_at m) \<in> set (db_map_generations d2)"
    using storage_steps_growth [OF assms(3)] mapping_generation_recorded [OF assms(2)] assms(1,4)
    by (auto simp: db_growth_def school_advance_def)
  from mapping_generation_refused [OF this assms(5,6)] show ?thesis by blast
qed

text \<open>C27. A subject is bound once and for all: across any number of operations the binding of a
  subject stays, names the same account and the same creation instant, and is either unchanged
  or carries a later revision; no other account ever gets that subject, that account never gets
  another subject, and an alias in the database stays as it is.\<close>

theorem subject_is_permanent:
  assumes "db_ok d" "storage_steps d d'" "b \<in> set (db_bindings d)"
  shows "(\<exists>b' \<in> set (db_bindings d'). binding_key b' = binding_key b \<and> (b' = b \<or> bnd_revision b < bnd_revision b')) \<and>
    (\<forall>c \<in> set (db_bindings d'). bnd_subject_id c = bnd_subject_id b \<longleftrightarrow> bnd_user_id c = bnd_user_id b) \<and>
    set (db_aliases d) \<subseteq> set (db_aliases d')"
proof -
  have adv: "db_ok d'" "school_advance d d'"
    using storage_steps_growth [OF assms(2)] assms(1) by (simp_all add: db_growth_def)
  obtain b' where b': "b' \<in> set (db_bindings d')" "binding_key b' = binding_key b"
      "b' = b \<or> bnd_revision b < bnd_revision b'"
    using adv(2) assms(3) by (auto simp: school_advance_def)
  have "unique_on bnd_subject_id (db_bindings d')" "unique_on bnd_user_id (db_bindings d')"
    using adv(1) by (simp_all add: db_ok_def bindings_ok_def)
  then have "bnd_subject_id c = bnd_subject_id b \<longleftrightarrow> bnd_user_id c = bnd_user_id b" if "c \<in> set (db_bindings d')" for c
    using b'(1,2) that unique_onD [of bnd_subject_id "db_bindings d'" c b']
      unique_onD [of bnd_user_id "db_bindings d'" c b']
    by (auto simp: binding_key_def)
  with b' adv(2) show ?thesis by (auto simp: school_advance_def)
qed

end
