(* ===== verification/Auth_Ports.thy ===== *)
theory Auth_Ports
  imports Store_Machine
begin

text \<open>
  What the application services of \<^verbatim>\<open>scripts/thebitlab_auth_services.py\<close> are built from: their
  exceptions, the validation and digesting of credentials, the storage protocols as records of
  operations on an abstract state, and the contracts of these protocols as locales. Theory
  \<open>Sqlite_Ports\<close> discharges the contracts for the SQLite storage; the service theories prove
  the services against the contracts.
\<close>

section \<open>Exceptions\<close>

datatype auth_error =
    AuthApplication
  | ProviderAuthentication
  | ProviderProtocol
  | OnboardingNotAllowed
  | InvalidCredential
  | ConcurrentStateChange
  | CredentialGeneration
  | ExternalLinkConflict
  | ExternalNotLinked
  | PairingState
  | PairingExpiredState
  | FromIdentity identity_error
  | FromStorage storage_error
  | AuthOverflow
  | AuthRecursion

text \<open>
  The subclasses of \<^verbatim>\<open>AuthApplicationError\<close>; the others are domain and storage exceptions that a
  service lets through, and the \<^verbatim>\<open>OverflowError\<close> of datetime arithmetic and the \<^verbatim>\<open>RecursionError\<close> of the interpreter.
\<close>

fun is_auth_error :: "auth_error \<Rightarrow> bool" where
  "is_auth_error (FromIdentity e) = False"
| "is_auth_error (FromStorage e) = False"
| "is_auth_error AuthOverflow = False"
| "is_auth_error AuthRecursion = False"
| "is_auth_error _ = True"

type_synonym ('s, 'a) auth_action = "('s, auth_error, 'a) action"
type_synonym ('s, 'a) storage_call = "('s, storage_error, 'a) action"

text \<open>A callable that takes no argument: a clock, a token or an identifier factory.\<close>

type_synonym 's source = "'s \<Rightarrow> pyval \<times> 's"

definition draw :: "'s source \<Rightarrow> ('s, pyval) auth_action" where
  "draw f s = (case f s of (v, t) \<Rightarrow> (Inr v, t))"

text \<open>A storage call without a handler, and a domain constructor or check without one.\<close>

definition uncaught :: "('s, 'a) storage_call \<Rightarrow> ('s, 'a) auth_action" where
  "uncaught m = try_act m (\<lambda>e. raise_act (FromStorage e)) return_act"

definition lift_identity :: "(identity_error, 'a) result \<Rightarrow> ('s, 'a) auth_action" where
  "lift_identity m = lift_act (map_error FromIdentity m)"

section \<open>Text, time and digests\<close>

definition auth_required_text :: "bool \<Rightarrow> pyval \<Rightarrow> (auth_error, string) result" where
  "auth_required_text lowercase v =
     (case v of
        PyStr s \<Rightarrow>
          (let stripped_text = strip s;
               normalized = (if lowercase then lower stripped_text else stripped_text)
           in if normalized = [] \<or> 512 < length normalized then Inl ProviderProtocol
              else if list_ex is_control normalized then Inl ProviderProtocol
              else Inr normalized)
      | _ \<Rightarrow> Inl ProviderProtocol)"

definition auth_optional_text :: "bool \<Rightarrow> pyval \<Rightarrow> (auth_error, string option) result" where
  "auth_optional_text lowercase v =
     (if v = PyNone then Inr None
      else bind_result (auth_required_text lowercase v) (\<lambda>t. Inr (Some t)))"

definition utc :: "pyval \<Rightarrow> (auth_error, instant) result" where
  "utc v =
     (case v of
        PyDatetime wall (Some offset) \<Rightarrow>
          if representable (wall - offset) then Inr (wall - offset) else Inl AuthOverflow
      | _ \<Rightarrow> Inl AuthApplication)"

definition read_clock :: "'s source \<Rightarrow> ('s, instant) auth_action" where
  "read_clock clock = bind_act (draw clock) (\<lambda>v. lift_act (utc v))"

text \<open>\<^verbatim>\<open>now + ttl\<close> raises \<^verbatim>\<open>OverflowError\<close> outside the range of \<^verbatim>\<open>datetime\<close>.\<close>

definition plus_duration :: "instant \<Rightarrow> int \<Rightarrow> (auth_error, instant) result" where
  "plus_duration t ttl = (if representable (t + ttl) then Inr (t + ttl) else Inl AuthOverflow)"

definition positive_ttl :: "int \<Rightarrow> (auth_error, int) result" where
  "positive_ttl ttl = (if ttl \<le> 0 then Inl AuthApplication else Inr ttl)"

definition generated_text :: "nat \<Rightarrow> pyval \<Rightarrow> (auth_error, string) result" where
  "generated_text minimum_length v =
     (case auth_required_text False v of
        Inl e \<Rightarrow> Inl CredentialGeneration
      | Inr normalized \<Rightarrow>
          if PyStr normalized \<noteq> v \<or> length normalized < minimum_length \<or> list_ex category_C normalized
          then Inl CredentialGeneration
          else Inr normalized)"

definition bearer_char :: "char \<Rightarrow> bool" where
  "bearer_char c \<longleftrightarrow>
     (let n = code_point c in 65 \<le> n \<and> n \<le> 90 \<or> 97 \<le> n \<and> n \<le> 122 \<or> 48 \<le> n \<and> n \<le> 57 \<or> n = 95 \<or> n = 45)"

definition valid_session_bearer :: "pyval \<Rightarrow> bool" where
  "valid_session_bearer v =
     (case v of
        PyStr t \<Rightarrow> 32 \<le> length t \<and> length t \<le> 1024 \<and> list_all bearer_char t
      | _ \<Rightarrow> False)"

text \<open>
  \<^verbatim>\<open>hashlib.sha256\<close> and \<^verbatim>\<open>hmac.new(.., sha256)\<close> on the UTF-8 encoding of a text, as hexadecimal
  digests. \<open>hashing_ok\<close> is their documented shape; nothing else about them is used.
\<close>

record hashing =
  sha256_hex :: "string \<Rightarrow> string"
  hmac_sha256_hex :: "nat list \<Rightarrow> string \<Rightarrow> string"

definition hex64 :: "string \<Rightarrow> bool" where
  "hex64 d \<longleftrightarrow> length d = 64 \<and> list_all is_hex_digit d"

definition hashing_ok :: "hashing \<Rightarrow> bool" where
  "hashing_ok h \<longleftrightarrow> (\<forall>t. hex64 (sha256_hex h t)) \<and> (\<forall>k t. hex64 (hmac_sha256_hex h k t))"

text \<open>The shape both digest functions require of a raw credential.\<close>

definition credential_text :: "string \<Rightarrow> bool" where
  "credential_text t \<longleftrightarrow> t \<noteq> [] \<and> length t \<le> 512 \<and> t = strip t \<and> \<not> list_ex is_control t"

definition session_token_digest :: "hashing \<Rightarrow> pyval \<Rightarrow> (auth_error, string) result" where
  "session_token_digest h raw =
     (case raw of
        PyStr token \<Rightarrow>
          if \<not> credential_text token then Inl CredentialGeneration
          else if length token < 32 then Inl CredentialGeneration
          else Inr (''sha256:'' @ sha256_hex h token)
      | _ \<Rightarrow> Inl CredentialGeneration)"

definition pairing_code_digest :: "hashing \<Rightarrow> pyval \<Rightarrow> pyval \<Rightarrow> (auth_error, string) result" where
  "pairing_code_digest h raw pepper =
     (case raw of
        PyStr code \<Rightarrow>
          if \<not> credential_text code then Inl CredentialGeneration
          else (case pepper of
                  PyBytes key \<Rightarrow>
                    if length key < 32 then Inl AuthApplication
                    else Inr (''hmac-sha256:'' @ hmac_sha256_hex h key code)
                | _ \<Rightarrow> Inl AuthApplication)
      | _ \<Rightarrow> Inl CredentialGeneration)"

text \<open>\<^verbatim>\<open>hmac.compare_digest\<close> on two texts raises \<^verbatim>\<open>TypeError\<close> unless both are ASCII.\<close>

definition ascii_text :: "string \<Rightarrow> bool" where
  "ascii_text t \<longleftrightarrow> list_all (\<lambda>c. code_point c < 128) t"

definition compare_digest :: "string \<Rightarrow> string \<Rightarrow> bool option" where
  "compare_digest a b = (if ascii_text a \<and> ascii_text b then Some (a = b) else None)"

definition session_digest_for_verification :: "hashing \<Rightarrow> pyval \<Rightarrow> (auth_error, string) result" where
  "session_digest_for_verification h raw = map_error (\<lambda>_. InvalidCredential) (session_token_digest h raw)"

definition pairing_digest_for_verification ::
  "hashing \<Rightarrow> pyval \<Rightarrow> pyval \<Rightarrow> (auth_error, string) result" where
  "pairing_digest_for_verification h raw pepper =
     map_error (\<lambda>_. InvalidCredential) (pairing_code_digest h raw pepper)"

definition max_attempts :: nat where
  "max_attempts = 5"

lemma hex_digit_plain: "is_hex_digit c \<Longrightarrow> \<not> is_space c \<and> \<not> is_control c \<and> lower_char c = c"
  by (auto simp: is_hex_digit_def is_space_def is_control_def lower_char_def is_upper_def Let_def)

lemma no_space_stripped:
  assumes "list_all (\<lambda>c. \<not> is_space c) s"
  shows "stripped s"
proof -
  have drop: "dropWhile is_space t = t" if "list_all (\<lambda>c. \<not> is_space c) t" for t
    using that by (cases t) simp_all
  show ?thesis
    using assms drop [of s] drop [of "List.rev s"] by (simp add: stripped_def strip_def list_all_iff)
qed

text \<open>A digest is a fixed prefix and a hexadecimal part, and the domain accepts it as it is.\<close>

lemma prefixed_digest:
  assumes "hex64 x" "\<forall>c \<in> set k. \<not> is_space c \<and> \<not> is_control c \<and> lower_char c = c \<and> c \<noteq> CHR '':''"
    "digest_hex_length k = Some 64" "List.member allowed k" "length k \<le> 100"
  shows "valid_digest allowed (k @ CHR '':'' # x)"
proof -
  have colon: "\<not> is_space (CHR '':'') \<and> \<not> is_control (CHR '':'') \<and> lower_char (CHR '':'') = CHR '':''"
    by code_simp
  have x: "length x = 64" "\<forall>c \<in> set x. is_hex_digit c" using assms(1) by (auto simp: hex64_def list_all_iff)
  have "\<forall>c \<in> set (k @ CHR '':'' # x). \<not> is_space c \<and> \<not> is_control c \<and> lower_char c = c"
    using assms(2) x(2) colon hex_digit_plain by auto
  then have "clean_lower_text (k @ CHR '':'' # x)"
    using assms(5) x(1) no_space_stripped [of "k @ CHR '':'' # x"]
    by (auto simp: clean_lower_text_def clean_text_def list_all_iff lower_def map_idI)
  moreover have "partition_at (CHR '':'') (k @ CHR '':'' # x) = (k, True, x)"
  proof -
    have "takeWhile (\<lambda>c. c \<noteq> CHR '':'') (k @ CHR '':'' # x) = k"
      "dropWhile (\<lambda>c. c \<noteq> CHR '':'') (k @ CHR '':'' # x) = CHR '':'' # x"
      using assms(2) by (induction k) auto
    then show ?thesis by (simp add: partition_at_def)
  qed
  ultimately show ?thesis
    using assms(3,4) x by (auto simp: valid_digest_def digest_shape_def list_all_iff)
qed

lemma session_token_digest_valid:
  assumes "hashing_ok h" "session_token_digest h raw = Inr d"
  shows "valid_digest session_digest_algorithms d"
proof -
  obtain t where d: "d = ''sha256'' @ CHR '':'' # sha256_hex h t"
    using assms(2) by (auto simp: session_token_digest_def split: pyval.splits if_splits)
  have plain: "\<forall>c \<in> set ''sha256''. \<not> is_space c \<and> \<not> is_control c \<and> lower_char c = c \<and> c \<noteq> CHR '':''"
    by code_simp
  have known: "digest_hex_length ''sha256'' = Some 64" "List.member session_digest_algorithms ''sha256''"
    by code_simp+
  have "hex64 (sha256_hex h t)" using assms(1) by (simp add: hashing_ok_def)
  then show ?thesis unfolding d by (rule prefixed_digest [OF _ plain known]) simp
qed

lemma pairing_code_digest_valid:
  assumes "hashing_ok h" "pairing_code_digest h raw pepper = Inr d"
  shows "valid_digest pairing_digest_algorithms d"
proof -
  obtain k t where d: "d = ''hmac-sha256'' @ CHR '':'' # hmac_sha256_hex h k t"
    using assms(2) by (auto simp: pairing_code_digest_def split: pyval.splits if_splits)
  have plain: "\<forall>c \<in> set ''hmac-sha256''. \<not> is_space c \<and> \<not> is_control c \<and> lower_char c = c \<and> c \<noteq> CHR '':''"
    by code_simp
  have known: "digest_hex_length ''hmac-sha256'' = Some 64" "List.member pairing_digest_algorithms ''hmac-sha256''"
    by code_simp+
  have "hex64 (hmac_sha256_hex h k t)" using assms(1) by (simp add: hashing_ok_def)
  then show ?thesis unfolding d by (rule prefixed_digest [OF _ plain known]) simp
qed

lemma utc_representable: "utc v = Inr t \<Longrightarrow> representable t"
  by (auto simp: utc_def split: pyval.splits option.splits if_splits)

lemma generated_text_clean: "generated_text k v = Inr t \<Longrightarrow> v = PyStr t \<and> clean_text t \<and> k \<le> length t"
  by (auto simp: generated_text_def auth_required_text_def clean_text_def stripped_def Let_def not_list_ex
      split: sum.splits pyval.splits if_splits)

section \<open>Storage protocols\<close>

record 's session_port =
  sp_read_user :: "string \<Rightarrow> ('s, user_account option) storage_call"
  sp_create_session :: "user_session \<Rightarrow> instant \<Rightarrow> ('s, unit) storage_call"
  sp_read_by_digest :: "string \<Rightarrow> ('s, user_session option) storage_call"
  sp_save_session :: "user_session \<Rightarrow> ('s, unit) storage_call"
  sp_touch_session :: "user_session \<Rightarrow> instant \<Rightarrow> instant \<Rightarrow> ('s, user_session) storage_call"
  sp_revoke_sessions :: "string \<Rightarrow> instant \<Rightarrow> string option \<Rightarrow> ('s, nat) storage_call"

record 's pairing_port =
  pp_read_user :: "string \<Rightarrow> ('s, user_account option) storage_call"
  pp_create_pairing :: "tui_pairing \<Rightarrow> ('s, unit) storage_call"
  pp_read_pairing :: "string \<Rightarrow> ('s, tui_pairing option) storage_call"
  pp_read_by_code :: "string \<Rightarrow> ('s, tui_pairing option) storage_call"
  pp_save_pairing :: "tui_pairing \<Rightarrow> ('s, unit) storage_call"
  pp_save_for_user :: "tui_pairing \<Rightarrow> instant \<Rightarrow> ('s, unit) storage_call"
  pp_consume :: "tui_pairing \<Rightarrow> user_session \<Rightarrow> instant \<Rightarrow> string \<Rightarrow> ('s, unit) storage_call"

record 's federation_port =
  fp_read_user :: "string \<Rightarrow> ('s, user_account option) storage_call"
  fp_read_identity :: "string \<Rightarrow> string \<Rightarrow> ('s, external_identity option) storage_call"
  fp_refresh :: "external_identity \<Rightarrow> instant \<Rightarrow> instant \<Rightarrow> ('s, unit) storage_call"
  fp_provision :: "user_account \<Rightarrow> external_identity \<Rightarrow> ('s, unit) storage_call"

section \<open>Contracts\<close>

text \<open>
  \<open>guarded intact evolves\<close> is what every call keeps: from an intact state it leads to an intact
  state that evolved from it.
\<close>

definition guarded :: "('s \<Rightarrow> bool) \<Rightarrow> ('s \<Rightarrow> 's \<Rightarrow> bool) \<Rightarrow> 's \<Rightarrow> 's \<Rightarrow> bool" where
  "guarded intact evolves s t \<longleftrightarrow> (intact s \<longrightarrow> intact t \<and> evolves s t)"

text \<open>
  The accounts of a registry that other parties may change between two calls. The revision law
  is what the services' compare-and-swap rests on.
\<close>

locale identity_registry =
  fixes intact :: "'s \<Rightarrow> bool"
    and evolves :: "'s \<Rightarrow> 's \<Rightarrow> bool"
    and user_at :: "'s \<Rightarrow> user_account \<Rightarrow> bool"
  assumes evolves_refl: "evolves s s"
    and evolves_trans: "evolves s t \<Longrightarrow> evolves t w \<Longrightarrow> evolves s w"
    and user_valid: "intact s \<Longrightarrow> user_at s u \<Longrightarrow> valid_user u"
    and user_revision: "intact s \<Longrightarrow> evolves s t \<Longrightarrow> user_at s u \<Longrightarrow> user_at t v \<Longrightarrow>
      acc_user_id v = acc_user_id u \<Longrightarrow> acc_updated_at v = acc_updated_at u \<Longrightarrow> v = u"
begin

lemma guarded_order: "reflp (guarded intact evolves)" "transp (guarded intact evolves)"
  by (auto simp: guarded_def reflp_def transp_def intro: evolves_refl evolves_trans)

lemma guardedD: "keeps (guarded intact evolves) m \<Longrightarrow> m s = (r, t) \<Longrightarrow> intact s \<Longrightarrow> intact t \<and> evolves s t"
  by (drule (1) keepsD) (simp add: guarded_def)

lemma guarded_pure:
  "keeps (guarded intact evolves) (return_act x)" "keeps (guarded intact evolves) (raise_act e)"
  "keeps (guarded intact evolves) (lift_act m)" "keeps (guarded intact evolves) (lift_identity n)"
  unfolding lift_identity_def by (rule keeps_pure [OF guarded_order(1)])+

lemma guarded_bind:
  "keeps (guarded intact evolves) m \<Longrightarrow> (\<And>x. keeps (guarded intact evolves) (f x)) \<Longrightarrow>
     keeps (guarded intact evolves) (bind_act m f)"
  by (rule keeps_bind [OF _ _ guarded_order(2)])

lemma guarded_try:
  "keeps (guarded intact evolves) m \<Longrightarrow> (\<And>e. keeps (guarded intact evolves) (h e)) \<Longrightarrow>
     (\<And>x. keeps (guarded intact evolves) (k x)) \<Longrightarrow> keeps (guarded intact evolves) (try_act m h k)"
  by (rule keeps_try [OF _ _ _ guarded_order(2)])

lemma guarded_uncaught: "keeps (guarded intact evolves) m \<Longrightarrow> keeps (guarded intact evolves) (uncaught m)"
  unfolding uncaught_def by (intro guarded_try guarded_pure)

lemma guarded_lift_bind:
  "(\<And>x. n = Inr x \<Longrightarrow> keeps (guarded intact evolves) (f x)) \<Longrightarrow>
     keeps (guarded intact evolves) (bind_act (lift_identity n) f)"
  by (cases n) (auto simp: keeps_def bind_act_def lift_identity_def lift_act_def guarded_def intro: evolves_refl)

lemma guarded_draw:
  assumes "\<And>s. guarded intact evolves s (snd (f s))"
  shows "keeps (guarded intact evolves) (draw f)" "keeps (guarded intact evolves) (read_clock f)"
proof -
  show "keeps (guarded intact evolves) (draw f)"
    using assms by (simp add: keeps_def draw_def prod.case_eq_if)
  then show "keeps (guarded intact evolves) (read_clock f)"
    unfolding read_clock_def by (intro guarded_bind guarded_pure)
qed

lemmas guarded_rules = guarded_bind guarded_try guarded_uncaught guarded_pure keeps_if keeps_option

end

text \<open>The user of a row, active and at the revision that was compared.\<close>

definition active_at :: "('s \<Rightarrow> user_account \<Rightarrow> bool) \<Rightarrow> 's \<Rightarrow> string \<Rightarrow> instant \<Rightarrow> bool" where
  "active_at user_at s i revision \<longleftrightarrow>
     (\<exists>u. user_at s u \<and> acc_user_id u = i \<and> acc_active u \<and> acc_updated_at u = revision)"

locale session_registry = identity_registry intact evolves user_at
  for intact :: "'s \<Rightarrow> bool" and evolves :: "'s \<Rightarrow> 's \<Rightarrow> bool" and user_at :: "'s \<Rightarrow> user_account \<Rightarrow> bool" +
  fixes port :: "'s session_port"
    and session_at :: "'s \<Rightarrow> user_session \<Rightarrow> bool"
  assumes read_user_keeps: "keeps (guarded intact evolves) (sp_read_user port i)"
    and create_keeps: "valid_session x \<Longrightarrow> keeps (guarded intact evolves) (sp_create_session port x rvn)"
    and by_digest_keeps: "keeps (guarded intact evolves) (sp_read_by_digest port d)"
    and save_keeps: "keeps (guarded intact evolves) (sp_save_session port x)"
    and touch_keeps: "keeps (guarded intact evolves) (sp_touch_session port x rvn v)"
    and revoke_keeps: "keeps (guarded intact evolves) (sp_revoke_sessions port i v aud)"
    and session_valid: "intact s \<Longrightarrow> session_at s x \<Longrightarrow> valid_session x"
    and session_unique: "intact s \<Longrightarrow> session_at s x \<Longrightarrow> session_at s y \<Longrightarrow>
      ses_token_digest x = ses_token_digest y \<Longrightarrow> x = y"
    and read_user_law: "intact s \<Longrightarrow> sp_read_user port i s = (Inr (Some u), t) \<Longrightarrow>
      user_at t u \<and> acc_user_id u = i"
    and create_law: "intact s \<Longrightarrow> sp_create_session port x rvn s = (Inr (), t) \<Longrightarrow>
      session_at t x \<and> active_at user_at t (ses_user_id x) rvn"
    and by_digest_law: "intact s \<Longrightarrow> sp_read_by_digest port d s = (Inr (Some x), t) \<Longrightarrow>
      session_at t x \<and> ses_token_digest x = lower d"
    and save_law: "intact s \<Longrightarrow> sp_save_session port x s = (Inr (), t) \<Longrightarrow> ses_revoked_at x \<noteq> None \<Longrightarrow>
      \<exists>y. session_at t y \<and> same_generation x y \<and> ses_revoked_at y = ses_revoked_at x"
    and touch_law: "intact s \<Longrightarrow> sp_touch_session port x rvn v s = (Inr y, t) \<Longrightarrow>
      session_at t y \<and> same_generation x y \<and> ses_revoked_at y = None \<and> v \<le> ses_last_seen_at y \<and>
      ses_last_seen_at x \<le> ses_last_seen_at y \<and> ses_last_seen_at y < ses_expires_at y \<and>
      active_at user_at t (ses_user_id y) rvn"
    and revoke_law: "intact s \<Longrightarrow> sp_revoke_sessions port i v aud s = (Inr n, t) \<Longrightarrow> session_at t y \<Longrightarrow>
      ses_user_id y = i \<Longrightarrow> audience_matches aud y \<Longrightarrow> v < ses_expires_at y \<Longrightarrow> ses_revoked_at y \<noteq> None"

locale pairing_registry = identity_registry intact evolves user_at
  for intact :: "'s \<Rightarrow> bool" and evolves :: "'s \<Rightarrow> 's \<Rightarrow> bool" and user_at :: "'s \<Rightarrow> user_account \<Rightarrow> bool" +
  fixes port :: "'s pairing_port"
    and pairing_at :: "'s \<Rightarrow> tui_pairing \<Rightarrow> bool"
    and session_at :: "'s \<Rightarrow> user_session \<Rightarrow> bool"
  assumes read_user_keeps: "keeps (guarded intact evolves) (pp_read_user port i)"
    and create_keeps: "valid_pairing p \<Longrightarrow> keeps (guarded intact evolves) (pp_create_pairing port p)"
    and read_keeps: "keeps (guarded intact evolves) (pp_read_pairing port i)"
    and by_code_keeps: "keeps (guarded intact evolves) (pp_read_by_code port d)"
    and save_keeps: "valid_pairing p \<Longrightarrow> keeps (guarded intact evolves) (pp_save_pairing port p)"
    and save_for_user_keeps: "valid_pairing p \<Longrightarrow>
      keeps (guarded intact evolves) (pp_save_for_user port p rvn)"
    and consume_keeps: "valid_pairing p \<Longrightarrow> valid_session x \<Longrightarrow>
      keeps (guarded intact evolves) (pp_consume port p x rvn role)"
    and pairing_valid: "intact s \<Longrightarrow> pairing_at s p \<Longrightarrow> valid_pairing p"
    and pairing_unique: "intact s \<Longrightarrow> pairing_at s p \<Longrightarrow> pairing_at s q \<Longrightarrow>
      par_pairing_id p = par_pairing_id q \<Longrightarrow> p = q"
    and read_user_law: "intact s \<Longrightarrow> pp_read_user port i s = (Inr (Some u), t) \<Longrightarrow>
      user_at t u \<and> acc_user_id u = i"
    and create_law: "intact s \<Longrightarrow> pp_create_pairing port p s = (Inr (), t) \<Longrightarrow> pairing_at t p"
    and read_law: "intact s \<Longrightarrow> pp_read_pairing port i s = (Inr (Some p), t) \<Longrightarrow>
      pairing_at t p \<and> par_pairing_id p = i"
    and by_code_law: "intact s \<Longrightarrow> pp_read_by_code port d s = (Inr (Some p), t) \<Longrightarrow>
      pairing_at t p \<and> par_code_digest p = lower d"
    and save_law: "intact s \<Longrightarrow> valid_pairing p \<Longrightarrow> pp_save_pairing port p s = (Inr (), t) \<Longrightarrow>
      pairing_at t p"
    and save_for_user_law: "intact s \<Longrightarrow> valid_pairing p \<Longrightarrow> pp_save_for_user port p rvn s = (Inr (), t) \<Longrightarrow>
      pairing_at t p \<and> (\<exists>i. par_user_id p = Some i \<and> active_at user_at t i rvn)"
    and consume_law: "intact s \<Longrightarrow> valid_pairing p \<Longrightarrow> valid_session x \<Longrightarrow>
      pp_consume port p x rvn role s = (Inr (), t) \<Longrightarrow>
      pairing_at t p \<and> session_at t x \<and> par_status p = PairConsumed \<and>
      (\<exists>u. user_at t u \<and> acc_user_id u = ses_user_id x \<and> acc_active u \<and> acc_role u = RoleStudent \<and>
         acc_updated_at u = rvn)"

locale federation_registry = identity_registry intact evolves user_at
  for intact :: "'s \<Rightarrow> bool" and evolves :: "'s \<Rightarrow> 's \<Rightarrow> bool" and user_at :: "'s \<Rightarrow> user_account \<Rightarrow> bool" +
  fixes port :: "'s federation_port"
    and link_at :: "'s \<Rightarrow> external_identity \<Rightarrow> bool"
  assumes read_user_keeps: "keeps (guarded intact evolves) (fp_read_user port i)"
    and read_identity_keeps: "keeps (guarded intact evolves) (fp_read_identity port p q)"
    and refresh_keeps: "valid_external e \<Longrightarrow> keeps (guarded intact evolves) (fp_refresh port e l rvn)"
    and provision_keeps: "valid_user u \<Longrightarrow> valid_external e \<Longrightarrow>
      keeps (guarded intact evolves) (fp_provision port u e)"
    and read_user_law: "intact s \<Longrightarrow> fp_read_user port i s = (Inr (Some u), t) \<Longrightarrow>
      user_at t u \<and> acc_user_id u = i"
    and read_identity_law: "intact s \<Longrightarrow> fp_read_identity port p q s = (Inr (Some e), t) \<Longrightarrow>
      link_at t e \<and> ext_provider e = lower p \<and> ext_subject e = q"
    and refresh_law: "intact s \<Longrightarrow> fp_refresh port e l rvn s = (Inr (), t) \<Longrightarrow>
      (\<exists>k. link_at t k \<and> ext_provider_key k = ext_provider_key e \<and> ext_user_id k = ext_user_id e \<and>
         ext_linked_at k = l) \<and> active_at user_at t (ext_user_id e) rvn"
    and provision_law: "intact s \<Longrightarrow> fp_provision port u e s = (Inr (), t) \<Longrightarrow>
      user_at t u \<and> link_at t e \<and> ext_user_id e = acc_user_id u"

end
