(* ===== verification/Sqlite_Ports.thy ===== *)
theory Sqlite_Ports
  imports Auth_Ports
begin

text \<open>
  \<^verbatim>\<open>SQLiteIdentityStorage\<close> behind the service protocols. A service runs in a world: the database
  and a counter of the calls it makes. Before each call the environment may run any sequence
  of dated storage operations of other processes; each call reads the storage clock once. The
  contracts of theory \<open>Auth_Ports\<close> hold for these ports in every such environment.
\<close>

section \<open>Worlds and environments\<close>

record world =
  w_db :: identity_db
  w_tick :: nat

text \<open>
  What the outside does at each tick: the clocks, the values of the credential factories, and
  the operations of other processes on the database.
\<close>

record environment =
  env_clock :: "nat \<Rightarrow> pyval"
  env_storage_clock :: "nat \<Rightarrow> instant"
  env_token :: "nat \<Rightarrow> pyval"
  env_identifier :: "nat \<Rightarrow> pyval"
  env_others :: "nat \<Rightarrow> identity_db \<Rightarrow> identity_db"

definition honest :: "environment \<Rightarrow> bool" where
  "honest e \<longleftrightarrow>
     (\<forall>n d. dated_steps d (env_others e n d)) \<and> (\<forall>n. representable (env_storage_clock e n))"

definition tick_source :: "(nat \<Rightarrow> pyval) \<Rightarrow> world source" where
  "tick_source f w = (f (w_tick w), w\<lparr>w_tick := Suc (w_tick w)\<rparr>)"

definition call :: "environment \<Rightarrow> (instant \<Rightarrow> 'a db_action) \<Rightarrow> (world, 'a) storage_call" where
  "call e m w =
     (let n = w_tick w;
          (r, d) = m (env_storage_clock e n) (env_others e n (w_db w))
      in (r, \<lparr>w_db = d, w_tick = Suc n\<rparr>))"

definition sqlite_session_port :: "environment \<Rightarrow> world session_port" where
  "sqlite_session_port e =
     \<lparr>sp_read_user = (\<lambda>i. call e (\<lambda>now. read_user i)),
      sp_create_session = (\<lambda>s rvn. call e (\<lambda>now. create_session_for_active_user s rvn)),
      sp_read_by_digest = (\<lambda>d. call e (\<lambda>now. read_session_by_token_digest d)),
      sp_save_session = (\<lambda>s. call e (\<lambda>now. save_session s)),
      sp_touch_session = (\<lambda>s rvn v. call e (\<lambda>now. save_session_for_active_user now s rvn v)),
      sp_revoke_sessions = (\<lambda>i t aud. call e (\<lambda>now. revoke_user_sessions i t aud))\<rparr>"

definition sqlite_pairing_port :: "environment \<Rightarrow> world pairing_port" where
  "sqlite_pairing_port e =
     \<lparr>pp_read_user = (\<lambda>i. call e (\<lambda>now. read_user i)),
      pp_create_pairing = (\<lambda>p. call e (\<lambda>now. create_pairing p)),
      pp_read_pairing = (\<lambda>i. call e (\<lambda>now. read_pairing i)),
      pp_read_by_code = (\<lambda>d. call e (\<lambda>now. read_pairing_by_code_digest d)),
      pp_save_pairing = (\<lambda>p. call e (\<lambda>now. save_pairing now p)),
      pp_save_for_user = (\<lambda>p rvn. call e (\<lambda>now. save_pairing_for_active_user now p rvn)),
      pp_consume = (\<lambda>p s rvn role. call e (\<lambda>now. consume_pairing_and_create_session now p s rvn role))\<rparr>"

definition sqlite_federation_port :: "environment \<Rightarrow> world federation_port" where
  "sqlite_federation_port e =
     \<lparr>fp_read_user = (\<lambda>i. call e (\<lambda>now. read_user i)),
      fp_read_identity = (\<lambda>p q. call e (\<lambda>now. read_external_identity p q)),
      fp_refresh = (\<lambda>x l rvn. call e (\<lambda>now. refresh_external_identity x l rvn)),
      fp_provision = (\<lambda>u x. call e (\<lambda>now. provision_user_with_identity u x))\<rparr>"

section \<open>What a service observes\<close>

definition world_intact :: "environment \<Rightarrow> world \<Rightarrow> bool" where
  "world_intact e w \<longleftrightarrow> honest e \<and> db_ok (w_db w)"

definition world_evolves :: "world \<Rightarrow> world \<Rightarrow> bool" where
  "world_evolves w w' \<longleftrightarrow> dated_steps (w_db w) (w_db w')"

definition user_in :: "world \<Rightarrow> user_account \<Rightarrow> bool" where
  "user_in w u \<longleftrightarrow> u \<in> set (db_users (w_db w))"

definition session_in :: "world \<Rightarrow> user_session \<Rightarrow> bool" where
  "session_in w s \<longleftrightarrow> s \<in> set (db_sessions (w_db w))"

definition pairing_in :: "world \<Rightarrow> tui_pairing \<Rightarrow> bool" where
  "pairing_in w p \<longleftrightarrow> p \<in> set (db_pairings (w_db w))"

definition link_in :: "world \<Rightarrow> external_identity \<Rightarrow> bool" where
  "link_in w x \<longleftrightarrow> x \<in> set (db_identities (w_db w))"

lemmas observations = user_in_def session_in_def pairing_in_def link_in_def

section \<open>The contracts hold\<close>

lemma call_step:
  assumes "\<And>now d r d'. representable now \<Longrightarrow> m now d = (r, d') \<Longrightarrow> dated_steps d d'"
  shows "keeps (guarded (world_intact e) world_evolves) (call e m)"
  unfolding keeps_def guarded_def
proof (intro allI impI)
  fix w assume w: "world_intact e w"
  let ?n = "w_tick w"
  let ?d = "env_others e ?n (w_db w)"
  obtain r d' where m: "m (env_storage_clock e ?n) ?d = (r, d')" by fastforce
  have "dated_steps (w_db w) ?d" "representable (env_storage_clock e ?n)"
    using w by (simp_all add: world_intact_def honest_def)
  then have steps: "dated_steps (w_db w) d'"
    using assms [OF _ m] by (meson rtranclp_trans)
  moreover have "db_ok d'"
    using w dated_steps_advance [OF steps] by (simp add: world_intact_def db_advance_def)
  ultimately show "world_intact e (snd (call e m w)) \<and> world_evolves w (snd (call e m w))"
    using w m by (simp add: call_def world_intact_def world_evolves_def Let_def)
qed

lemma call_cases:
  assumes "call e m w = (r, w')" "world_intact e w"
  obtains d where "m (env_storage_clock e (w_tick w)) d = (r, w_db w')" "db_ok d"
    "dated_steps (w_db w) d" "representable (env_storage_clock e (w_tick w))"
proof
  let ?d = "env_others e (w_tick w) (w_db w)"
  show "m (env_storage_clock e (w_tick w)) ?d = (r, w_db w')"
    using assms(1) by (auto simp: call_def Let_def split: prod.splits)
  show "dated_steps (w_db w) ?d" "representable (env_storage_clock e (w_tick w))"
    using assms(2) by (simp_all add: world_intact_def honest_def)
  then show "db_ok ?d"
    using assms(2) dated_steps_advance by (fastforce simp: world_intact_def db_advance_def)
qed

lemma read_only_steps:
  "read_user i d = (r1, d') \<Longrightarrow> dated_steps d d'"
  "read_session_by_token_digest g d = (r2, d') \<Longrightarrow> dated_steps d d'"
  "read_pairing i d = (r3, d') \<Longrightarrow> dated_steps d d'"
  "read_pairing_by_code_digest g d = (r3, d') \<Longrightarrow> dated_steps d d'"
  "read_external_identity p q d = (r4, d') \<Longrightarrow> dated_steps d d'"
  by (auto simp: read_user_def read_session_by_token_digest_def read_pairing_def
      read_pairing_by_code_digest_def read_external_identity_def)

text \<open>A lookup that returns a row of an intact database returns the row itself.\<close>

lemma read_rows:
  assumes "db_ok d"
  shows "read_user i d = (Inr (Some u), d') \<Longrightarrow> d' = d \<and> u \<in> set (db_users d) \<and> acc_user_id u = i"
    "read_session_by_token_digest g d = (Inr (Some s), d') \<Longrightarrow>
       d' = d \<and> s \<in> set (db_sessions d) \<and> ses_token_digest s = lower g"
    "read_pairing i d = (Inr (Some p), d') \<Longrightarrow> d' = d \<and> p \<in> set (db_pairings d) \<and> par_pairing_id p = i"
    "read_pairing_by_code_digest g d = (Inr (Some p), d') \<Longrightarrow>
       d' = d \<and> p \<in> set (db_pairings d) \<and> par_code_digest p = lower g"
    "read_external_identity a b d = (Inr (Some x), d') \<Longrightarrow>
       d' = d \<and> x \<in> set (db_identities d) \<and> ext_provider x = lower a \<and> ext_subject x = b"
  using assms
  by (auto simp: read_user_def lookup_user_def read_session_by_token_digest_def read_pairing_def
      read_pairing_by_code_digest_def read_external_identity_def hydrate_lookup hydrate_ok
      ext_provider_key_def dest!: lookup_by_SomeD)

lemma step_of: "dated_step d d' \<Longrightarrow> dated_steps d d'"
  by (rule r_into_rtranclp)

lemma world_revision:
  assumes "world_intact e w" "world_evolves w w'" "user_in w u" "user_in w' v"
    "acc_user_id v = acc_user_id u" "acc_updated_at v = acc_updated_at u"
  shows "v = u"
  using dated_steps_advance assms revision_safe [of "w_db w" "w_db w'" u v]
  by (auto simp: world_intact_def world_evolves_def user_in_def db_advance_def)

interpretation sqlite_accounts: identity_registry "world_intact e" world_evolves user_in for e
proof unfold_locales
  show "world_evolves w w" for w by (simp add: world_evolves_def)
  show "world_evolves w w' \<Longrightarrow> world_evolves w' w'' \<Longrightarrow> world_evolves w w''" for w w' w''
    by (auto simp: world_evolves_def)
  show "world_intact e w \<Longrightarrow> user_in w u \<Longrightarrow> valid_user u" for w u
    by (auto simp: world_intact_def user_in_def ok_defs)
qed (rule world_revision)

lemma active_user: "db_ok d \<Longrightarrow> user_at_revision d i rvn \<Longrightarrow> w_db w = d' \<Longrightarrow> db_users d' = db_users d \<Longrightarrow>
    active_at user_in w i rvn"
  by (auto simp: active_at_def user_in_def user_at_revision_def list_ex_iff)

lemma created_session:
  assumes "create_session_for_active_user s rvn d = (Inr (), d')"
  shows "s \<in> set (db_sessions d')" "user_at_revision d (ses_user_id s) rvn" "db_users d' = db_users d"
  using assms
  by (auto simp: create_session_for_active_user_def action_simps result_simps insert_session_Inr
      split: if_splits)

lemma saved_session:
  assumes "db_ok d" "save_session s d = (Inr (), d')" "ses_revoked_at s \<noteq> None"
  shows "\<exists>y \<in> set (db_sessions d'). same_generation s y \<and> ses_revoked_at y = ses_revoked_at s"
proof -
  obtain t where t: "ses_revoked_at s = Some t" using assms(3) by blast
  let ?P = "\<lambda>r. same_generation s r \<and> ses_revoked_at r = None \<and> ses_last_seen_at r \<le> t"
  let ?seen = "\<lambda>r. if ses_last_seen_at s < ses_last_seen_at r then ses_last_seen_at r else ses_last_seen_at s"
  have upd: "update_sessions ?P ?seen (\<lambda>r. Some t) d = Inr (1, d')"
    using assms(2) by (auto simp: save_session_def t action_simps result_simps split: if_splits)
  then have "1 = count_where ?P (db_sessions d)" unfolding update_sessions_Inr by blast
  then have "count_where ?P (db_sessions d) \<noteq> 0" by linarith
  then obtain r where r: "r \<in> set (db_sessions d)" "?P r" unfolding count_where_eq_0 by blast
  have "d' = d\<lparr>db_sessions := update_where ?P (set_session_times ?seen (\<lambda>r. Some t)) (db_sessions d)\<rparr>"
    using upd unfolding update_sessions_Inr by blast
  then have "set_session_times ?seen (\<lambda>r. Some t) r \<in> set (db_sessions d')"
    using r by (auto simp: update_where_def intro!: image_eqI [of _ _ r])
  moreover have "same_generation s (set_session_times ?seen (\<lambda>r. Some t) r)"
    using r(2) by (simp add: same_generation_def)
  ultimately show ?thesis unfolding t by (intro bexI) simp_all
qed

lemma touched_session:
  assumes "db_ok d" "save_session_for_active_user now s rvn v d = (Inr y, d')"
  shows "y \<in> set (db_sessions d')" "same_generation s y" "ses_revoked_at y = None" "v \<le> ses_last_seen_at y"
    "ses_last_seen_at s \<le> ses_last_seen_at y" "ses_last_seen_at y < ses_expires_at y"
    "user_at_revision d (ses_user_id y) rvn" "db_users d' = db_users d"
proof -
  let ?t = "max v (max (ses_last_seen_at s) now)"
  obtain r where r: "r \<in> set (db_sessions d)" "same_generation s r" "ses_revoked_at r = None"
      "?t < ses_expires_at r" "user_at_revision d (ses_user_id r) rvn" "y = r\<lparr>ses_last_seen_at := ?t\<rparr>"
    and d': "d' = d\<lparr>db_sessions := update_where (\<lambda>q. ses_session_id q = ses_session_id s)
      (\<lambda>q. q\<lparr>ses_last_seen_at := ?t\<rparr>) (db_sessions d)\<rparr>"
    using touch_outcome [OF assms(1) refl] assms(2) by blast
  show "y \<in> set (db_sessions d')"
    using r(1,2,6) by (auto simp: d' update_where_def same_generation_def intro!: image_eqI [of _ _ r])
  show "same_generation s y" using r(2,6) by (simp add: same_generation_def)
  show "ses_revoked_at y = None" "v \<le> ses_last_seen_at y" "ses_last_seen_at s \<le> ses_last_seen_at y"
    "ses_last_seen_at y < ses_expires_at y" "user_at_revision d (ses_user_id y) rvn"
    using r by simp_all
  show "db_users d' = db_users d" by (simp add: d')
qed

interpretation sqlite_sessions:
  session_registry "world_intact e" world_evolves user_in "sqlite_session_port e" session_in for e
proof unfold_locales
  fix i x rvn d v aud
  show "keeps (guarded (world_intact e) world_evolves) (sp_read_user (sqlite_session_port e) i)"
    "keeps (guarded (world_intact e) world_evolves) (sp_read_by_digest (sqlite_session_port e) d)"
    by (auto simp: sqlite_session_port_def intro!: call_step intro: read_only_steps)
  show "valid_session x \<Longrightarrow>
      keeps (guarded (world_intact e) world_evolves) (sp_create_session (sqlite_session_port e) x rvn)"
    "keeps (guarded (world_intact e) world_evolves) (sp_save_session (sqlite_session_port e) x)"
    "keeps (guarded (world_intact e) world_evolves) (sp_touch_session (sqlite_session_port e) x rvn v)"
    "keeps (guarded (world_intact e) world_evolves) (sp_revoke_sessions (sqlite_session_port e) i v aud)"
    by (auto simp: sqlite_session_port_def intro!: call_step step_of intro: storage_op.intros)
next
  fix w w' x y
  assume w: "world_intact e w"
  show "session_in w x \<Longrightarrow> valid_session x"
    "session_in w x \<Longrightarrow> session_in w y \<Longrightarrow> ses_token_digest x = ses_token_digest y \<Longrightarrow> x = y"
    using w by (auto simp: world_intact_def session_in_def ok_defs dest: unique_onD)
  show "user_in w' u \<and> acc_user_id u = i" if "sp_read_user (sqlite_session_port e) i w = (Inr (Some u), w')" for i u
    using that w by (auto simp: sqlite_session_port_def user_in_def elim!: call_cases dest: read_rows)
  show "session_in w' x \<and> active_at user_in w' (ses_user_id x) rvn"
    if "sp_create_session (sqlite_session_port e) x rvn w = (Inr (), w')" for rvn
    using that w
    by (auto simp: sqlite_session_port_def session_in_def elim!: call_cases
        intro: active_user dest: created_session)
  show "session_in w' x \<and> ses_token_digest x = lower g"
    if "sp_read_by_digest (sqlite_session_port e) g w = (Inr (Some x), w')" for g
    using that w by (auto simp: sqlite_session_port_def session_in_def elim!: call_cases dest: read_rows)
  show "\<exists>y. session_in w' y \<and> same_generation x y \<and> ses_revoked_at y = ses_revoked_at x"
    if "sp_save_session (sqlite_session_port e) x w = (Inr (), w')" "ses_revoked_at x \<noteq> None"
    using that w saved_session
    by (fastforce simp: sqlite_session_port_def session_in_def elim!: call_cases)
  show "session_in w' y \<and> same_generation x y \<and> ses_revoked_at y = None \<and> v \<le> ses_last_seen_at y \<and>
      ses_last_seen_at x \<le> ses_last_seen_at y \<and> ses_last_seen_at y < ses_expires_at y \<and>
      active_at user_in w' (ses_user_id y) rvn"
    if touch: "sp_touch_session (sqlite_session_port e) x rvn v w = (Inr y, w')" for rvn v
  proof -
    obtain d now where "save_session_for_active_user now x rvn v d = (Inr y, w_db w')" "db_ok d"
      using touch w by (auto simp: sqlite_session_port_def elim!: call_cases)
    note t = touched_session [OF this(2,1)] and ok = this(2)
    show ?thesis using t(1-6) active_user [OF ok t(7) refl t(8)] by (simp add: session_in_def)
  qed
  show "ses_revoked_at y \<noteq> None"
    if revoke: "sp_revoke_sessions (sqlite_session_port e) i v aud w = (Inr n, w')" and y: "session_in w' y"
      "ses_user_id y = i" "audience_matches aud y" "v < ses_expires_at y" for i v aud n
  proof -
    obtain d where run: "revoke_user_sessions i v aud d = (Inr n, w_db w')" and "db_ok d"
      using revoke w by (auto simp: sqlite_session_port_def elim!: call_cases)
    then show ?thesis using revoked_outcome y by (simp add: session_in_def)
  qed
qed

lemma created_pairing: "create_pairing p d = (Inr (), d') \<Longrightarrow> p \<in> set (db_pairings d')"
  by (auto simp: create_pairing_def action_simps result_simps insert_pairing_Inr)

interpretation sqlite_pairings:
  pairing_registry "world_intact e" world_evolves user_in "sqlite_pairing_port e" pairing_in session_in for e
proof unfold_locales
  fix i p x rvn d role
  show "keeps (guarded (world_intact e) world_evolves) (pp_read_user (sqlite_pairing_port e) i)"
    "keeps (guarded (world_intact e) world_evolves) (pp_read_pairing (sqlite_pairing_port e) i)"
    "keeps (guarded (world_intact e) world_evolves) (pp_read_by_code (sqlite_pairing_port e) d)"
    by (auto simp: sqlite_pairing_port_def intro!: call_step intro: read_only_steps)
  show "valid_pairing p \<Longrightarrow>
      keeps (guarded (world_intact e) world_evolves) (pp_create_pairing (sqlite_pairing_port e) p)"
    "valid_pairing p \<Longrightarrow>
      keeps (guarded (world_intact e) world_evolves) (pp_save_pairing (sqlite_pairing_port e) p)"
    "valid_pairing p \<Longrightarrow>
      keeps (guarded (world_intact e) world_evolves) (pp_save_for_user (sqlite_pairing_port e) p rvn)"
    "valid_pairing p \<Longrightarrow> valid_session x \<Longrightarrow>
      keeps (guarded (world_intact e) world_evolves) (pp_consume (sqlite_pairing_port e) p x rvn role)"
    by (auto simp: sqlite_pairing_port_def intro!: call_step step_of intro: storage_op.intros)
next
  fix w w' p q x
  assume w: "world_intact e w"
  show "pairing_in w p \<Longrightarrow> valid_pairing p"
    "pairing_in w p \<Longrightarrow> pairing_in w q \<Longrightarrow> par_pairing_id p = par_pairing_id q \<Longrightarrow> p = q"
    using w by (auto simp: world_intact_def pairing_in_def ok_defs dest: unique_onD)
  show "user_in w' u \<and> acc_user_id u = i" if "pp_read_user (sqlite_pairing_port e) i w = (Inr (Some u), w')" for i u
    using that w by (auto simp: sqlite_pairing_port_def user_in_def elim!: call_cases dest: read_rows)
  show "pairing_in w' p" if "pp_create_pairing (sqlite_pairing_port e) p w = (Inr (), w')"
    using that w
    by (auto simp: sqlite_pairing_port_def pairing_in_def elim!: call_cases dest: created_pairing)
  show "pairing_in w' p \<and> par_pairing_id p = i"
    if "pp_read_pairing (sqlite_pairing_port e) i w = (Inr (Some p), w')" for i
    using that w by (auto simp: sqlite_pairing_port_def pairing_in_def elim!: call_cases dest: read_rows)
  show "pairing_in w' p \<and> par_code_digest p = lower g"
    if "pp_read_by_code (sqlite_pairing_port e) g w = (Inr (Some p), w')" for g
    using that w by (auto simp: sqlite_pairing_port_def pairing_in_def elim!: call_cases dest: read_rows)
  show "pairing_in w' p" if "pp_save_pairing (sqlite_pairing_port e) p w = (Inr (), w')"
    using that w
    by (auto simp: sqlite_pairing_port_def pairing_in_def elim!: call_cases intro: saved_pairing)
  show "pairing_in w' p \<and> (\<exists>i. par_user_id p = Some i \<and> active_at user_in w' i rvn)"
    if save: "pp_save_for_user (sqlite_pairing_port e) p rvn w = (Inr (), w')" for rvn
  proof -
    obtain d now where "save_pairing_for_active_user now p rvn d = (Inr (), w_db w')" "db_ok d"
      using save w by (auto simp: sqlite_pairing_port_def elim!: call_cases)
    with saved_pairing_for_user [OF this(1)] show ?thesis
      by (auto simp: pairing_in_def intro: active_user)
  qed
  show "pairing_in w' p \<and> session_in w' x \<and> par_status p = PairConsumed \<and>
      (\<exists>u. user_in w' u \<and> acc_user_id u = ses_user_id x \<and> acc_active u \<and> acc_role u = RoleStudent \<and>
         acc_updated_at u = rvn)"
    if consume: "pp_consume (sqlite_pairing_port e) p x rvn role w = (Inr (), w')"
      and v: "valid_pairing p" "valid_session x" for rvn role
  proof -
    obtain d now where "consume_pairing_and_create_session now p x rvn role d = (Inr (), w_db w')" "db_ok d"
      using consume w by (auto simp: sqlite_pairing_port_def elim!: call_cases)
    with consumed_pairing [OF this(2) v this(1)] show ?thesis
      by (auto simp: pairing_in_def session_in_def user_in_def)
  qed
qed

lemma provisioned_user:
  assumes "provision_user_with_identity u x d = (Inr (), d')"
  shows "u \<in> set (db_users d')" "x \<in> set (db_identities d')" "ext_user_id x = acc_user_id u"
  using assms
  by (auto simp: provision_user_with_identity_def action_simps result_simps statement_simps split: if_splits)

lemma refreshed_link:
  assumes "db_ok d" "refresh_external_identity e l rvn d = (Inr (), d')"
  shows "\<exists>k \<in> set (db_identities d'). ext_provider_key k = ext_provider_key e \<and> ext_user_id k = ext_user_id e \<and>
      ext_linked_at k = l" "user_at_revision d (ext_user_id e) rvn" "db_users d' = db_users d"
proof -
  let ?P = "\<lambda>r. linked_row e l r \<and> user_at_revision d (ext_user_id r) rvn"
  let ?f = "\<lambda>r. r\<lparr>ext_email := ext_email e, ext_username := ext_username e\<rparr>"
  have "count_where ?P (db_identities d) = 1"
    and d': "d' = d\<lparr>db_identities := update_where ?P ?f (db_identities d)\<rparr>"
    using assms(2)
    by (auto simp: refresh_external_identity_def update_identities_def Let_def action_simps split: if_splits)
  then have "count_where ?P (db_identities d) \<noteq> 0" by linarith
  then obtain r where r: "r \<in> set (db_identities d)" "?P r" unfolding count_where_eq_0 by blast
  then have "?f r \<in> set (db_identities d')"
    by (auto simp: d' update_where_def intro!: image_eqI [of _ _ r])
  then show "\<exists>k \<in> set (db_identities d'). ext_provider_key k = ext_provider_key e \<and>
      ext_user_id k = ext_user_id e \<and> ext_linked_at k = l"
    using r(2) by (intro bexI [of _ "?f r"]) (auto simp: ext_provider_key_def linked_row_def link_key_def)
  show "user_at_revision d (ext_user_id e) rvn" using r(2) by (auto simp: linked_row_def)
  show "db_users d' = db_users d" by (simp add: d')
qed

interpretation sqlite_federation:
  federation_registry "world_intact e" world_evolves user_in "sqlite_federation_port e" link_in for e
proof unfold_locales
  fix i p q x l rvn u
  show "keeps (guarded (world_intact e) world_evolves) (fp_read_user (sqlite_federation_port e) i)"
    "keeps (guarded (world_intact e) world_evolves) (fp_read_identity (sqlite_federation_port e) p q)"
    by (auto simp: sqlite_federation_port_def intro!: call_step intro: read_only_steps)
  show "valid_external x \<Longrightarrow>
      keeps (guarded (world_intact e) world_evolves) (fp_refresh (sqlite_federation_port e) x l rvn)"
    "valid_user u \<Longrightarrow> valid_external x \<Longrightarrow>
      keeps (guarded (world_intact e) world_evolves) (fp_provision (sqlite_federation_port e) u x)"
    by (auto simp: sqlite_federation_port_def intro!: call_step step_of intro: storage_op.intros)
next
  fix w w' x
  assume w: "world_intact e w"
  show "user_in w' u \<and> acc_user_id u = i"
    if "fp_read_user (sqlite_federation_port e) i w = (Inr (Some u), w')" for i u
    using that w by (auto simp: sqlite_federation_port_def user_in_def elim!: call_cases dest: read_rows)
  show "link_in w' x \<and> ext_provider x = lower p \<and> ext_subject x = q"
    if "fp_read_identity (sqlite_federation_port e) p q w = (Inr (Some x), w')" for p q
    using that w by (auto simp: sqlite_federation_port_def link_in_def elim!: call_cases dest: read_rows)
  show "(\<exists>k. link_in w' k \<and> ext_provider_key k = ext_provider_key x \<and> ext_user_id k = ext_user_id x \<and>
      ext_linked_at k = l) \<and> active_at user_in w' (ext_user_id x) rvn"
    if refresh: "fp_refresh (sqlite_federation_port e) x l rvn w = (Inr (), w')" for l rvn
  proof -
    obtain d where "refresh_external_identity x l rvn d = (Inr (), w_db w')" "db_ok d"
      using refresh w by (auto simp: sqlite_federation_port_def elim!: call_cases)
    with refreshed_link [OF this(2,1)] show ?thesis
      by (auto simp: link_in_def intro: active_user)
  qed
  show "user_in w' u \<and> link_in w' x \<and> ext_user_id x = acc_user_id u"
    if "fp_provision (sqlite_federation_port e) u x w = (Inr (), w')" for u
    using that w
    by (auto simp: sqlite_federation_port_def user_in_def link_in_def elim!: call_cases dest: provisioned_user)
qed

end
