(* ===== verification/Auth_Sessions.thy ===== *)
theory Auth_Sessions
  imports Sqlite_Ports
begin

text \<open>
  \<^verbatim>\<open>SessionService\<close>: issuing, authenticating and revoking bearer sessions against a storage that
  other parties use at the same time. The retry loops are recursions on the number of attempts
  left. The theorems are proved once against the storage contract and hold for the SQLite
  storage in every environment of theory \<open>Sqlite_Ports\<close>.
\<close>

section \<open>The service\<close>

record 's session_service =
  ss_storage :: "'s session_port"
  ss_clock :: "'s source"
  ss_ttl :: int
  ss_token :: "'s source"
  ss_identifier :: "'s source"
  ss_audience :: session_audience
  ss_hash :: hashing

definition make_session_service ::
  "'s session_port \<Rightarrow> 's source \<Rightarrow> int \<Rightarrow> 's source \<Rightarrow> 's source \<Rightarrow> pyval \<Rightarrow> hashing \<Rightarrow>
   (auth_error, 's session_service) result"
where
  "make_session_service storage clock ttl token_factory session_id_factory audience h =
     bind_result (positive_ttl ttl) (\<lambda>duration.
     bind_result (auth_required_text True audience) (\<lambda>text.
     case audience_of_text text of
       None \<Rightarrow> Inl AuthApplication
     | Some a \<Rightarrow> Inr \<lparr>ss_storage = storage, ss_clock = clock, ss_ttl = duration, ss_token = token_factory,
                     ss_identifier = session_id_factory, ss_audience = a, ss_hash = h\<rparr>))"

text \<open>One attempt draws a token and an identifier; a storage conflict is looked into and retried.\<close>

fun issue_attempts ::
  "nat \<Rightarrow> 's session_service \<Rightarrow> user_account \<Rightarrow> instant \<Rightarrow> ('s, user_session \<times> pyval) auth_action" where
  "issue_attempts 0 srv account now = raise_act CredentialGeneration"
| "issue_attempts (Suc n) srv account now =
     bind_act (draw (ss_token srv)) (\<lambda>raw_token.
     bind_act (lift_act (map_error (\<lambda>_. CredentialGeneration) (session_token_digest (ss_hash srv) raw_token))) (\<lambda>digest.
     bind_act (draw (ss_identifier srv)) (\<lambda>raw_id.
     bind_act (lift_act (generated_text 1 raw_id)) (\<lambda>session_id.
     bind_act (lift_act (plus_duration now (ss_ttl srv))) (\<lambda>expires.
     bind_act (lift_identity (make_user_session (PyStr session_id) (PyStr (acc_user_id account))
       (PyStr digest) (utc_datetime now) (utc_datetime expires) (utc_datetime now) PyNone
       (PyStr (audience_text (ss_audience srv))) PyNone)) (\<lambda>session.
     try_act (sp_create_session (ss_storage srv) session (acc_updated_at account))
       (\<lambda>e. if is_conflict e then
              bind_act (uncaught (sp_read_user (ss_storage srv) (acc_user_id account))) (\<lambda>current.
                case current of
                  None \<Rightarrow> raise_act InvalidCredential
                | Some c \<Rightarrow>
                    bind_act (lift_identity (require_active_account c)) (\<lambda>_.
                      if acc_updated_at c \<noteq> acc_updated_at account then raise_act ConcurrentStateChange
                      else issue_attempts n srv account now))
            else raise_act (FromStorage e))
       (\<lambda>_. return_act (session, raw_token))))))))"

definition issue_session :: "'s session_service \<Rightarrow> string \<Rightarrow> ('s, user_session \<times> pyval) auth_action" where
  "issue_session srv user_id =
     (if ss_audience srv \<noteq> AudienceWeb then raise_act AuthApplication
      else bind_act (uncaught (sp_read_user (ss_storage srv) user_id)) (\<lambda>found.
        case found of
          None \<Rightarrow> raise_act InvalidCredential
        | Some account \<Rightarrow>
            bind_act (lift_identity (require_active_account account)) (\<lambda>_.
            bind_act (read_clock (ss_clock srv)) (\<lambda>now.
              issue_attempts max_attempts srv account now))))"

type_synonym generation =
  "string \<times> string \<times> string \<times> instant \<times> instant \<times> session_audience \<times> string option"

definition session_generation :: "user_session \<Rightarrow> generation" where
  "session_generation s =
     (ses_session_id s, ses_user_id s, ses_token_digest s, ses_created_at s, ses_expires_at s,
      ses_audience s, ses_source_pairing s)"

definition require_valid ::
  "'s session_service \<Rightarrow> user_session option \<Rightarrow> string \<Rightarrow> instant \<Rightarrow>
   ('s, user_session \<times> user_account) auth_action"
where
  "require_valid srv found digest now =
     (case found of
        None \<Rightarrow> raise_act InvalidCredential
      | Some session \<Rightarrow>
          if ses_audience session \<noteq> ss_audience srv \<or> ses_token_digest session \<noteq> digest
          then raise_act InvalidCredential
          else if now < ses_last_seen_at session then raise_act ConcurrentStateChange
          else if now < ses_created_at session \<or> ses_expires_at session \<le> now \<or> ses_revoked_at session \<noteq> None
          then raise_act InvalidCredential
          else bind_act (uncaught (sp_read_user (ss_storage srv) (ses_user_id session))) (\<lambda>found_user.
            case found_user of
              None \<Rightarrow> raise_act InvalidCredential
            | Some account \<Rightarrow>
                bind_act (lift_identity (require_active_account account)) (\<lambda>_.
                  return_act (session, account))))"

fun authenticate_attempts ::
  "nat \<Rightarrow> 's session_service \<Rightarrow> string \<Rightarrow> instant \<Rightarrow> generation option \<Rightarrow> user_session option \<Rightarrow>
   ('s, user_session \<times> user_account) auth_action"
where
  "authenticate_attempts 0 srv digest now expected found = raise_act ConcurrentStateChange"
| "authenticate_attempts (Suc n) srv digest now expected found =
     bind_act (require_valid srv found digest now) (\<lambda>(session, account).
     if Some (session_generation session) \<noteq> expected then raise_act ConcurrentStateChange
     else bind_act (lift_identity (rebuild_session
            (session\<lparr>ses_last_seen_at := max (ses_last_seen_at session) now\<rparr>))) (\<lambda>touched.
       try_act (sp_touch_session (ss_storage srv) touched (acc_updated_at account) now)
         (\<lambda>e. if e = SessionExpiredConflict then raise_act InvalidCredential
              else if is_conflict e \<or> e = StorageNotFound then
                bind_act (uncaught (sp_read_by_digest (ss_storage srv) digest))
                  (authenticate_attempts n srv digest now expected)
              else raise_act (FromStorage e))
         (\<lambda>persisted.
            if Some (session_generation persisted) \<noteq> expected \<or> ses_revoked_at persisted \<noteq> None \<or>
               ses_last_seen_at persisted < ses_last_seen_at touched
            then raise_act ConcurrentStateChange
            else return_act (persisted, account))))"

definition authenticate_session ::
  "'s session_service \<Rightarrow> pyval \<Rightarrow> ('s, user_session \<times> user_account) auth_action" where
  "authenticate_session srv bearer =
     bind_act (lift_act (session_digest_for_verification (ss_hash srv) bearer)) (\<lambda>digest.
     bind_act (uncaught (sp_read_by_digest (ss_storage srv) digest)) (\<lambda>found.
     bind_act (read_clock (ss_clock srv)) (\<lambda>now.
       authenticate_attempts max_attempts srv digest now (map_option session_generation found) found)))"

fun revoke_attempts ::
  "nat \<Rightarrow> 's session_service \<Rightarrow> string \<Rightarrow> user_session option \<Rightarrow> ('s, bool) auth_action" where
  "revoke_attempts 0 srv digest found = raise_act ConcurrentStateChange"
| "revoke_attempts (Suc n) srv digest found =
     bind_act (read_clock (ss_clock srv)) (\<lambda>now.
     case found of
       None \<Rightarrow> return_act False
     | Some session \<Rightarrow>
         if ses_audience session \<noteq> ss_audience srv \<or> ses_revoked_at session \<noteq> None \<or>
            ses_token_digest session \<noteq> digest
         then return_act False
         else if now < ses_created_at session \<or> ses_expires_at session \<le> now then return_act False
         else bind_act (lift_identity (rebuild_session
                (session\<lparr>ses_revoked_at := Some (max now (ses_last_seen_at session))\<rparr>))) (\<lambda>closed.
           try_act (sp_save_session (ss_storage srv) closed)
             (\<lambda>e. if is_conflict e \<or> e = StorageNotFound then
                    bind_act (uncaught (sp_read_by_digest (ss_storage srv) digest))
                      (revoke_attempts n srv digest)
                  else raise_act (FromStorage e))
             (\<lambda>_. return_act True)))"

definition revoke_session :: "'s session_service \<Rightarrow> pyval \<Rightarrow> ('s, bool) auth_action" where
  "revoke_session srv bearer =
     bind_act (lift_act (session_digest_for_verification (ss_hash srv) bearer)) (\<lambda>digest.
     bind_act (uncaught (sp_read_by_digest (ss_storage srv) digest))
       (revoke_attempts max_attempts srv digest))"

definition revoke_all_sessions :: "'s session_service \<Rightarrow> string \<Rightarrow> ('s, nat) auth_action" where
  "revoke_all_sessions srv user_id =
     bind_act (read_clock (ss_clock srv)) (\<lambda>now.
     try_act (sp_revoke_sessions (ss_storage srv) user_id now (Some (audience_text (ss_audience srv))))
       (\<lambda>e. if is_conflict e then raise_act ConcurrentStateChange else raise_act (FromStorage e))
       return_act)"

section \<open>Proofs against the contract\<close>

text \<open>The callables of a service may not write to the registry themselves.\<close>

definition harmless :: "('s \<Rightarrow> 's \<Rightarrow> bool) \<Rightarrow> 's source \<Rightarrow> bool" where
  "harmless R f \<longleftrightarrow> (\<forall>s. R s (snd (f s)))"

lemma same_generation_iff: "session_generation x = session_generation y \<longleftrightarrow> same_generation x y"
  by (auto simp: session_generation_def same_generation_def)

lemma require_valid_Inr:
  assumes "require_valid srv found digest now s = (Inr (session, account), t)"
  shows "found = Some session" "ses_audience session = ss_audience srv" "ses_token_digest session = digest"
    "sp_read_user (ss_storage srv) (ses_user_id session) s = (Inr (Some account), t)" "acc_active account"
  using assms
  by (auto simp: require_valid_def run_simps uncaught_def lift_identity_def require_active_account_def
      split: option.splits if_splits)

lemma rebuild_session_touched:
  assumes "rebuild_session s = Inr s'" "valid_session s0" "same_generation s0 s"
  shows "valid_session s'" "same_generation s s'" "ses_last_seen_at s' = ses_last_seen_at s"
    "ses_revoked_at s' = ses_revoked_at s"
proof -
  show "valid_session s'" using assms(1) unfolding rebuild_session_def by (rule make_session_valid)
  have aware: "aware_datetime (utc_datetime t) = Inr t' \<Longrightarrow> t' = t" for t t'
    by (simp add: aware_datetime_def utc_datetime_def split: if_splits)
  have inst: "revocation_field (py_optional utc_datetime v) a b c = Inr v' \<Longrightarrow> v' = v" for a b c v v'
    by (cases v) (auto simp: revocation_field_def result_simps split: if_splits dest: aware)
  show "same_generation s s'" "ses_last_seen_at s' = ses_last_seen_at s" "ses_revoked_at s' = ses_revoked_at s"
    using assms
    by (auto simp: rebuild_session_def make_user_session_def result_simps field_simps valid_session_def
        same_generation_def split: if_splits dest!: aware inst)
qed

lemma issued_fields:
  assumes "make_user_session (PyStr i) (PyStr u) (PyStr d) (utc_datetime now) (utc_datetime ex)
      (utc_datetime now) PyNone (PyStr (audience_text a)) src = Inr s"
    "clean_text u" "valid_digest session_digest_algorithms d"
  shows "valid_session s" "ses_user_id s = u" "ses_token_digest s = d" "ses_created_at s = now"
    "ses_expires_at s = ex" "ses_last_seen_at s = now" "ses_revoked_at s = None" "ses_audience s = a"
proof -
  show "valid_session s" using assms(1) by (rule make_session_valid)
  have aware: "aware_datetime (utc_datetime t) = Inr t' \<Longrightarrow> t' = t" for t t'
    by (simp add: aware_datetime_def utc_datetime_def split: if_splits)
  show "ses_user_id s = u" "ses_token_digest s = d" "ses_created_at s = now" "ses_expires_at s = ex"
    "ses_last_seen_at s = now" "ses_revoked_at s = None" "ses_audience s = a"
    using assms
    by (auto simp: make_user_session_def result_simps field_simps revocation_field_def
        split: if_splits dest!: aware)
qed

text \<open>The parts of a service that is wired to the registry.\<close>

definition wired :: "('s \<Rightarrow> bool) \<Rightarrow> ('s \<Rightarrow> 's \<Rightarrow> bool) \<Rightarrow> 's session_port \<Rightarrow> 's session_service \<Rightarrow> bool" where
  "wired intact evolves port srv \<longleftrightarrow>
     ss_storage srv = port \<and> hashing_ok (ss_hash srv) \<and>
     harmless (guarded intact evolves) (ss_clock srv) \<and>
     harmless (guarded intact evolves) (ss_token srv) \<and>
     harmless (guarded intact evolves) (ss_identifier srv)"

context session_registry begin

lemma wired_draws:
  assumes "wired intact evolves port srv"
  shows "keeps (guarded intact evolves) (draw (ss_token srv))"
    "keeps (guarded intact evolves) (draw (ss_identifier srv))"
    "keeps (guarded intact evolves) (read_clock (ss_clock srv))"
  using assms by (auto simp: wired_def harmless_def intro!: guarded_draw)

lemma issue_attempts_keeps:
  assumes "wired intact evolves port srv"
  shows "keeps (guarded intact evolves) (issue_attempts n srv account now)"
proof (induction n)
  case 0
  then show ?case by (simp add: guarded_pure)
next
  case (Suc n)
  have port: "ss_storage srv = port" using assms by (simp add: wired_def)
  show ?case
    by (auto simp: port intro!: guarded_bind guarded_lift_bind guarded_try guarded_uncaught guarded_pure
        wired_draws [OF assms] create_keeps read_user_keeps Suc.IH keeps_if keeps_option
        dest: make_session_valid)
qed

lemma wired_port: "wired intact evolves port srv \<Longrightarrow> ss_storage srv = port"
  by (simp add: wired_def)

lemma issue_keeps: "wired intact evolves port srv \<Longrightarrow> keeps (guarded intact evolves) (issue_session srv i)"
  unfolding issue_session_def
  by (auto simp: wired_port intro!: guarded_bind guarded_uncaught guarded_pure keeps_if keeps_option
      read_user_keeps issue_attempts_keeps wired_draws)

lemma issue_attempts_sound:
  assumes "wired intact evolves port srv" "valid_user account"
  shows "issue_attempts n srv account now s = (Inr (x, raw), t) \<Longrightarrow> intact s \<Longrightarrow>
    session_at t x \<and> active_at user_at t (acc_user_id account) (acc_updated_at account) \<and>
    ses_user_id x = acc_user_id account \<and> session_token_digest (ss_hash srv) raw = Inr (ses_token_digest x) \<and>
    ses_created_at x = now \<and> ses_expires_at x = now + ss_ttl srv \<and> ses_last_seen_at x = now \<and>
    ses_revoked_at x = None \<and> ses_audience x = ss_audience srv"
proof (induction n arbitrary: s)
  case 0
  then show ?case by simp
next
  case (Suc n)
  note port = assms(1) [unfolded wired_def, THEN conjunct1]
  from Suc.prems(1) obtain s1 s2 digest raw_id sid expires session raw'
    where d1: "draw (ss_token srv) s = (Inr raw', s1)"
    and dg: "session_token_digest (ss_hash srv) raw' = Inr digest"
    and d2: "draw (ss_identifier srv) s1 = (Inr raw_id, s2)"
    and ex: "plus_duration now (ss_ttl srv) = Inr expires"
    and mk: "make_user_session (PyStr sid) (PyStr (acc_user_id account))
       (PyStr digest) (utc_datetime now) (utc_datetime expires) (utc_datetime now) PyNone
       (PyStr (audience_text (ss_audience srv))) PyNone = Inr session"
    and tried: "sp_create_session port session (acc_updated_at account) s2 = (Inr (), t) \<and> x = session \<and> raw = raw' \<or>
      (\<exists>e s3 s4 c. sp_create_session port session (acc_updated_at account) s2 = (Inl e, s3) \<and>
         sp_read_user port (acc_user_id account) s3 = (Inr (Some c), s4) \<and>
         issue_attempts n srv account now s4 = (Inr (x, raw), t))"
    by (auto simp: run_simps lift_identity_def uncaught_def port)
  have clean: "clean_text (acc_user_id account)" using assms(2) by (simp add: valid_user_def)
  have "valid_digest session_digest_algorithms digest"
    using session_token_digest_valid [OF _ dg] assms(1) by (simp add: wired_def)
  note f = issued_fields [OF mk clean this]
  have s2: "intact s2"
    using guardedD [OF wired_draws(1) [OF assms(1)] d1 Suc.prems(2)]
      guardedD [OF wired_draws(2) [OF assms(1)] d2] by blast
  from tried show ?case
  proof (elim disjE exE conjE)
    assume c: "sp_create_session port session (acc_updated_at account) s2 = (Inr (), t)" "x = session" "raw = raw'"
    from create_law [OF s2 c(1)] f dg ex c(2,3) show ?thesis
      by (auto simp: plus_duration_def split: if_splits)
  next
    fix e s3 s4 c
    assume c: "sp_create_session port session (acc_updated_at account) s2 = (Inl e, s3)"
      "sp_read_user port (acc_user_id account) s3 = (Inr (Some c), s4)"
      "issue_attempts n srv account now s4 = (Inr (x, raw), t)"
    have "intact s3" using guardedD [OF create_keeps [OF f(1)] c(1) s2] by blast
    then have "intact s4" using guardedD [OF read_user_keeps c(2)] by blast
    with Suc.IH [OF c(3)] show ?thesis by blast
  qed
qed

lemma issue_sound:
  assumes "wired intact evolves port srv" "intact s" "issue_session srv i s = (Inr (x, raw), t)"
  shows "session_at t x \<and> ses_user_id x = i \<and> (\<exists>u. user_at t u \<and> acc_user_id u = i \<and> acc_active u) \<and>
    ses_audience x = AudienceWeb \<and> session_token_digest (ss_hash srv) raw = Inr (ses_token_digest x) \<and>
    ses_expires_at x = ses_created_at x + ss_ttl srv \<and> ses_last_seen_at x = ses_created_at x \<and>
    ses_revoked_at x = None"
proof -
  note port = wired_port [OF assms(1)]
  from assms(3) obtain account s1 s2 now where web: "ss_audience srv = AudienceWeb"
    and rd: "sp_read_user port i s = (Inr (Some account), s1)"
    and cl: "read_clock (ss_clock srv) s1 = (Inr now, s2)"
    and go: "issue_attempts max_attempts srv account now s2 = (Inr (x, raw), t)"
    by (auto simp: issue_session_def run_simps uncaught_def lift_identity_def port)
  have s1: "intact s1" using guardedD [OF read_user_keeps rd assms(2)] by blast
  have u: "user_at s1 account" "acc_user_id account = i" using read_user_law [OF assms(2) rd] by simp_all
  have "intact s2" using guardedD [OF wired_draws(3) [OF assms(1)] cl s1] by blast
  from issue_attempts_sound [OF assms(1) user_valid [OF s1 u(1)] go this] show ?thesis
    using u(2) web by (auto simp: active_at_def)
qed

lemma require_valid_keeps:
  assumes "wired intact evolves port srv"
  shows "keeps (guarded intact evolves) (require_valid srv found digest now)"
  unfolding require_valid_def
  by (auto simp: wired_port [OF assms] intro!: guarded_bind guarded_uncaught guarded_pure keeps_if keeps_option
      read_user_keeps)

lemma authenticate_attempts_keeps:
  assumes "wired intact evolves port srv"
  shows "keeps (guarded intact evolves) (authenticate_attempts n srv digest now expected found)"
proof (induction n arbitrary: found)
  case 0
  then show ?case by (simp add: guarded_pure)
next
  case (Suc n)
  show ?case
    by (auto simp: wired_port [OF assms] split_beta intro!: guarded_bind guarded_try guarded_uncaught
        guarded_pure keeps_if keeps_option require_valid_keeps [OF assms] touch_keeps by_digest_keeps Suc.IH)
qed

lemma authenticate_keeps:
  assumes "wired intact evolves port srv"
  shows "keeps (guarded intact evolves) (authenticate_session srv bearer)"
  unfolding authenticate_session_def
  by (auto simp: wired_port [OF assms] intro!: guarded_bind guarded_uncaught guarded_pure
      by_digest_keeps wired_draws [OF assms] authenticate_attempts_keeps [OF assms])

lemma authenticate_attempts_sound:
  assumes "wired intact evolves port srv"
  shows "authenticate_attempts n srv digest now expected found s = (Inr (x, u), t) \<Longrightarrow> intact s \<Longrightarrow>
    pred_option valid_session found \<Longrightarrow>
    session_at t x \<and> user_at t u \<and> acc_user_id u = ses_user_id x \<and> acc_active u \<and>
    ses_audience x = ss_audience srv \<and> ses_token_digest x = digest \<and> ses_revoked_at x = None \<and>
    now \<le> ses_last_seen_at x \<and> ses_last_seen_at x < ses_expires_at x \<and>
    expected = Some (session_generation x)"
proof (induction n arbitrary: s found)
  case 0
  then show ?case by simp
next
  case (Suc n)
  note port = wired_port [OF assms(1)]
  from Suc.prems(1) obtain session account s1 touched
    where valid: "require_valid srv found digest now s = (Inr (session, account), s1)"
    and gen: "expected = Some (session_generation session)"
    and rb: "rebuild_session (session\<lparr>ses_last_seen_at := max (ses_last_seen_at session) now\<rparr>) = Inr touched"
    and tried: "sp_touch_session port touched (acc_updated_at account) now s1 = (Inr x, t) \<and> u = account \<or>
      (\<exists>e s2 found' s3. sp_touch_session port touched (acc_updated_at account) now s1 = (Inl e, s2) \<and>
        sp_read_by_digest port digest s2 = (Inr found', s3) \<and>
        authenticate_attempts n srv digest now expected found' s3 = (Inr (x, u), t))"
    by (auto simp: run_simps lift_identity_def uncaught_def port)
  note rv = require_valid_Inr [OF valid, unfolded port]
  have s1: "intact s1" using guardedD [OF require_valid_keeps [OF assms] valid Suc.prems(2)] by blast
  have "valid_session session" using Suc.prems(3) rv(1) by simp
  from rebuild_session_touched [OF rb this]
  have same: "same_generation session touched" by (auto simp: same_generation_def)
  from tried show ?case
  proof (elim disjE exE conjE)
    assume touch: "sp_touch_session port touched (acc_updated_at account) now s1 = (Inr x, t)" and u: "u = account"
    note law = touch_law [OF s1 touch]
    then obtain v where v: "user_at t v" "acc_user_id v = ses_user_id x" "acc_updated_at v = acc_updated_at account"
      by (auto simp: active_at_def)
    have g: "same_generation session x" using law same by (auto simp: same_generation_def)
    have acc: "user_at s1 account" "acc_user_id account = ses_user_id session"
      using read_user_law [OF Suc.prems(2) rv(4)] by simp_all
    have "evolves s1 t" using guardedD [OF touch_keeps touch s1] by blast
    then have "v = account"
      using user_revision [OF s1 _ acc(1) v(1) _ v(3)] v(2) acc(2) g by (simp add: same_generation_def)
    with law v u rv(2,3,5) g gen show ?thesis
      by (auto simp: same_generation_iff same_generation_def)
  next
    fix e s2 found' s3
    assume again: "sp_touch_session port touched (acc_updated_at account) now s1 = (Inl e, s2)"
      "sp_read_by_digest port digest s2 = (Inr found', s3)"
      "authenticate_attempts n srv digest now expected found' s3 = (Inr (x, u), t)"
    have s2: "intact s2" using guardedD [OF touch_keeps again(1) s1] by blast
    have s3: "intact s3" using guardedD [OF by_digest_keeps again(2) s2] by blast
    have "pred_option valid_session found'"
      using by_digest_law [OF s2, of digest] again(2) session_valid [OF s3] by (cases found') auto
    with Suc.IH [OF again(3) s3] show ?thesis by blast
  qed
qed

lemma authenticate_sound:
  assumes "wired intact evolves port srv" "intact s" "authenticate_session srv bearer s = (Inr (x, u), t)"
  shows "session_at t x \<and> user_at t u \<and> acc_user_id u = ses_user_id x \<and> acc_active u \<and>
    ses_audience x = ss_audience srv \<and> session_token_digest (ss_hash srv) bearer = Inr (ses_token_digest x) \<and>
    ses_revoked_at x = None \<and> ses_last_seen_at x < ses_expires_at x \<and> intact t \<and> evolves s t"
proof -
  note port = wired_port [OF assms(1)]
  from assms(3) obtain digest found s1 now s2
    where dg: "session_token_digest (ss_hash srv) bearer = Inr digest"
    and rd: "sp_read_by_digest port digest s = (Inr found, s1)"
    and cl: "read_clock (ss_clock srv) s1 = (Inr now, s2)"
    and go: "authenticate_attempts max_attempts srv digest now (map_option session_generation found) found s2 =
      (Inr (x, u), t)"
    by (auto simp: authenticate_session_def run_simps uncaught_def session_digest_for_verification_def port)
  have s1: "intact s1" using guardedD [OF by_digest_keeps rd assms(2)] by blast
  have s2: "intact s2" using guardedD [OF wired_draws(3) [OF assms(1)] cl s1] by blast
  have "pred_option valid_session found"
    using by_digest_law [OF assms(2), of digest] rd session_valid [OF s1] by (cases found) auto
  from authenticate_attempts_sound [OF assms(1) go s2 this] dg
    guardedD [OF authenticate_keeps [OF assms(1)] assms(3,2)] show ?thesis by auto
qed

lemma revoke_attempts_keeps:
  assumes "wired intact evolves port srv"
  shows "keeps (guarded intact evolves) (revoke_attempts n srv digest found)"
proof (induction n arbitrary: found)
  case 0
  then show ?case by (simp add: guarded_pure)
next
  case (Suc n)
  show ?case
    by (auto simp: wired_port [OF assms] intro!: guarded_bind guarded_try guarded_uncaught guarded_pure
        keeps_if keeps_option wired_draws [OF assms] save_keeps by_digest_keeps Suc.IH)
qed

lemma revoke_attempts_sound:
  assumes "wired intact evolves port srv"
  shows "revoke_attempts n srv digest found s = (Inr True, t) \<Longrightarrow> intact s \<Longrightarrow>
    pred_option valid_session found \<Longrightarrow>
    \<exists>x. session_at t x \<and> ses_token_digest x = digest \<and> ses_revoked_at x \<noteq> None"
proof (induction n arbitrary: s found)
  case 0
  then show ?case by simp
next
  case (Suc n)
  note port = wired_port [OF assms(1)]
  from Suc.prems(1) obtain now s1 session closed
    where cl: "read_clock (ss_clock srv) s = (Inr now, s1)" and some: "found = Some session"
    and dg: "ses_token_digest session = digest"
    and rb: "rebuild_session (session\<lparr>ses_revoked_at := Some (max now (ses_last_seen_at session))\<rparr>) = Inr closed"
    and tried: "sp_save_session port closed s1 = (Inr (), t) \<or>
      (\<exists>e s2 found' s3. sp_save_session port closed s1 = (Inl e, s2) \<and>
        sp_read_by_digest port digest s2 = (Inr found', s3) \<and>
        revoke_attempts n srv digest found' s3 = (Inr True, t))"
    by (auto simp: run_simps lift_identity_def uncaught_def port)
  have s1: "intact s1" using guardedD [OF wired_draws(3) [OF assms] cl Suc.prems(2)] by blast
  have "valid_session session" using Suc.prems(3) some by simp
  note r = rebuild_session_touched [OF rb this, unfolded same_generation_def, simplified]
  from tried show ?case
  proof (elim disjE exE conjE)
    assume save: "sp_save_session port closed s1 = (Inr (), t)"
    from save_law [OF s1 save] r dg show ?thesis by (auto simp: same_generation_def)
  next
    fix e s2 found' s3
    assume again: "sp_save_session port closed s1 = (Inl e, s2)"
      "sp_read_by_digest port digest s2 = (Inr found', s3)"
      "revoke_attempts n srv digest found' s3 = (Inr True, t)"
    have s2: "intact s2" using guardedD [OF save_keeps again(1) s1] by blast
    have s3: "intact s3" using guardedD [OF by_digest_keeps again(2) s2] by blast
    have "pred_option valid_session found'"
      using by_digest_law [OF s2, of digest] again(2) session_valid [OF s3] by (cases found') auto
    with Suc.IH [OF again(3) s3] show ?thesis by blast
  qed
qed

lemma revoke_sound:
  assumes "wired intact evolves port srv" "intact s" "revoke_session srv bearer s = (Inr True, t)"
    "session_token_digest (ss_hash srv) bearer = Inr digest" "session_at t y" "ses_token_digest y = digest"
  shows "ses_revoked_at y \<noteq> None"
proof -
  note port = wired_port [OF assms(1)]
  from assms(3,4) obtain found s1
    where rd: "sp_read_by_digest port digest s = (Inr found, s1)"
    and go: "revoke_attempts max_attempts srv digest found s1 = (Inr True, t)"
    by (auto simp: revoke_session_def run_simps uncaught_def session_digest_for_verification_def port)
  have s1: "intact s1" using guardedD [OF by_digest_keeps rd assms(2)] by blast
  have "pred_option valid_session found"
    using by_digest_law [OF assms(2), of digest] rd session_valid [OF s1] by (cases found) auto
  from revoke_attempts_sound [OF assms(1) go s1 this]
  obtain x where x: "session_at t x" "ses_token_digest x = digest" "ses_revoked_at x \<noteq> None" by blast
  have "intact t" using guardedD [OF revoke_attempts_keeps [OF assms(1)] go s1] by blast
  then have "y = x" using session_unique assms(5,6) x by simp
  with x show ?thesis by simp
qed

lemma revoke_all_sound:
  assumes "wired intact evolves port srv" "intact s" "revoke_all_sessions srv i s = (Inr n, t)"
  shows "\<exists>now s1. read_clock (ss_clock srv) s = (Inr now, s1) \<and>
    (\<forall>y. session_at t y \<longrightarrow> ses_user_id y = i \<longrightarrow> ses_audience y = ss_audience srv \<longrightarrow>
       now < ses_expires_at y \<longrightarrow> ses_revoked_at y \<noteq> None)"
proof -
  note port = wired_port [OF assms(1)]
  from assms(3) obtain now s1 where cl: "read_clock (ss_clock srv) s = (Inr now, s1)"
    and go: "sp_revoke_sessions port i now (Some (audience_text (ss_audience srv))) s1 = (Inr n, t)"
    by (auto simp: revoke_all_sessions_def action_simps port split: if_splits)
  have "intact s1" using guardedD [OF wired_draws(3) [OF assms(1)] cl assms(2)] by blast
  from revoke_law [OF this go] cl show ?thesis by (auto simp: audience_matches_def)
qed

end

section \<open>The service on the SQLite storage\<close>

definition sqlite_session_service ::
  "environment \<Rightarrow> int \<Rightarrow> session_audience \<Rightarrow> hashing \<Rightarrow> world session_service" where
  "sqlite_session_service e ttl a h =
     \<lparr>ss_storage = sqlite_session_port e, ss_clock = tick_source (env_clock e), ss_ttl = ttl,
      ss_token = tick_source (env_token e), ss_identifier = tick_source (env_identifier e),
      ss_audience = a, ss_hash = h\<rparr>"

lemma tick_source_harmless: "harmless (guarded (world_intact e) world_evolves) (tick_source f)"
  by (auto simp: harmless_def guarded_def tick_source_def world_intact_def world_evolves_def)

lemma sqlite_service_simps [simp]:
  "ss_storage (sqlite_session_service e ttl a h) = sqlite_session_port e"
  "ss_clock (sqlite_session_service e ttl a h) = tick_source (env_clock e)"
  "ss_ttl (sqlite_session_service e ttl a h) = ttl"
  "ss_token (sqlite_session_service e ttl a h) = tick_source (env_token e)"
  "ss_identifier (sqlite_session_service e ttl a h) = tick_source (env_identifier e)"
  "ss_audience (sqlite_session_service e ttl a h) = a"
  "ss_hash (sqlite_session_service e ttl a h) = h"
  by (simp_all add: sqlite_session_service_def)

lemma sqlite_service_wired:
  "hashing_ok h \<Longrightarrow> wired (world_intact e) world_evolves (sqlite_session_port e) (sqlite_session_service e ttl a h)"
  by (simp add: wired_def tick_source_harmless)

text \<open>C5. Authentication is sound under interference: whatever other processes do to the database
  between the calls of the service, when it returns a session and an account, the database it
  leaves holds exactly that session row, not revoked, seen before its expiry, for the
  service's audience and with the digest of the bearer, and exactly that account row, active
  and the owner of the session.\<close>

theorem authenticated_session_is_live:
  assumes "honest e" "db_ok (w_db w)" "hashing_ok h"
    and "authenticate_session (sqlite_session_service e ttl a h) bearer w = (Inr (x, u), w')"
  shows "x \<in> set (db_sessions (w_db w')) \<and> u \<in> set (db_users (w_db w')) \<and>
    acc_user_id u = ses_user_id x \<and> acc_active u \<and> ses_audience x = a \<and>
    session_token_digest h bearer = Inr (ses_token_digest x) \<and>
    ses_revoked_at x = None \<and> ses_last_seen_at x < ses_expires_at x"
  using sqlite_sessions.authenticate_sound [OF sqlite_service_wired [OF assms(3)] _ assms(4)] assms(1,2)
  by (simp add: world_intact_def session_in_def user_in_def)

text \<open>An issued session is in the database the service leaves, for an account that is active in that
  database, with the digest of the returned bearer and not the bearer, a web session of exactly
  the configured lifetime.\<close>

theorem issued_session_is_stored:
  assumes "honest e" "db_ok (w_db w)" "hashing_ok h"
    and "issue_session (sqlite_session_service e ttl a h) i w = (Inr (x, raw), w')"
  shows "x \<in> set (db_sessions (w_db w')) \<and> ses_user_id x = i \<and>
    (\<exists>u \<in> set (db_users (w_db w')). acc_user_id u = i \<and> acc_active u) \<and>
    ses_audience x = AudienceWeb \<and> session_token_digest h raw = Inr (ses_token_digest x) \<and>
    ses_expires_at x = ses_created_at x + ttl \<and> ses_last_seen_at x = ses_created_at x \<and>
    ses_revoked_at x = None"
  using sqlite_sessions.issue_sound [OF sqlite_service_wired [OF assms(3)] _ assms(4)] assms(1,2)
  by (auto simp: world_intact_def session_in_def user_in_def)

text \<open>Revoking every session of a user: in the database the service leaves, no session of the user for
  the service's audience that expires after the service's clock reading is open.\<close>

theorem revoke_all_closes_sessions:
  assumes "honest e" "db_ok (w_db w)" "hashing_ok h"
    and "revoke_all_sessions (sqlite_session_service e ttl a h) i w = (Inr n, w')"
  shows "\<exists>now. utc (env_clock e (w_tick w)) = Inr now \<and>
    (\<forall>y \<in> set (db_sessions (w_db w')). ses_user_id y = i \<and> ses_audience y = a \<longrightarrow> \<not> open_session now y)"
proof -
  obtain now w1 where "read_clock (tick_source (env_clock e)) w = (Inr now, w1)"
    and "\<forall>y. session_in w' y \<longrightarrow> ses_user_id y = i \<longrightarrow> ses_audience y = a \<longrightarrow> now < ses_expires_at y \<longrightarrow>
      ses_revoked_at y \<noteq> None"
    using sqlite_sessions.revoke_all_sound [OF sqlite_service_wired [OF assms(3)] _ assms(4)] assms(1,2)
    by (auto simp: world_intact_def)
  then show ?thesis
    by (auto simp: read_clock_def draw_def tick_source_def action_simps session_in_def open_session_def)
qed

section \<open>A quiet environment\<close>

lemmas session_token_digest_lower = valid_digest_lower [OF session_token_digest_valid]

text \<open>
  Without other processes and with clocks that do not run backwards the services also succeed.
  \<open>c n\<close> is the time at tick \<open>n\<close>.
\<close>

definition quiet :: "environment \<Rightarrow> (nat \<Rightarrow> instant) \<Rightarrow> bool" where
  "quiet e c \<longleftrightarrow> (\<forall>n. env_others e n = id) \<and> (\<forall>n. env_clock e n = utc_datetime (c n)) \<and>
     env_storage_clock e = c \<and> (\<forall>n. representable (c n)) \<and> mono c"

lemma quiet_honest: "quiet e c \<Longrightarrow> honest e"
  by (auto simp: quiet_def honest_def)

lemma quiet_times:
  assumes "quiet e c"
  shows "representable (c n)" "m \<le> n \<Longrightarrow> c m \<le> c n"
  using assms by (auto simp: quiet_def intro: monoD)

lemma quiet_call:
  "quiet e c \<Longrightarrow> call e m w =
     (let (r, d) = m (c (w_tick w)) (w_db w) in (r, \<lparr>w_db = d, w_tick = Suc (w_tick w)\<rparr>))"
  by (simp add: call_def quiet_def Let_def)

lemma quiet_clock:
  "quiet e c \<Longrightarrow> read_clock (tick_source (env_clock e)) w = (Inr (c (w_tick w)), w\<lparr>w_tick := Suc (w_tick w)\<rparr>)"
  by (simp add: read_clock_def draw_def tick_source_def bind_act_def lift_act_def quiet_def utc_def
      utc_datetime_def)

lemma bind_act_values [simp]:
  "m s = (Inr x, t) \<Longrightarrow> bind_act m f s = f x t" "m s = (Inl e, t) \<Longrightarrow> bind_act m f s = (Inl e, t)"
  by (simp_all add: bind_act_def)

lemma uncaught_values: "m s = (Inr x, t) \<Longrightarrow> uncaught m s = (Inr x, t)"
  by (simp add: uncaught_def try_act_def return_act_def)

lemma read_row_exact:
  assumes "db_ok d"
  shows "u \<in> set (db_users d) \<Longrightarrow> read_user (acc_user_id u) d = (Inr (Some u), d)"
    "s \<in> set (db_sessions d) \<Longrightarrow> lower g = ses_token_digest s \<Longrightarrow>
       read_session_by_token_digest g d = (Inr (Some s), d)"
proof -
  show "read_user (acc_user_id u) d = (Inr (Some u), d)" if "u \<in> set (db_users d)"
  proof -
    have "lookup_user d (acc_user_id u) = Some u" using assms that by (simp add: lookup_user_iff)
    then show ?thesis using hydrate_ok(1) [OF assms that] by (simp add: read_user_def hydrate_optional_def)
  qed
  show "read_session_by_token_digest g d = (Inr (Some s), d)"
    if "s \<in> set (db_sessions d)" "lower g = ses_token_digest s"
  proof -
    have "lookup_by ses_token_digest (db_sessions d) (lower g) = Some s"
      using assms that by (simp add: lookup_by_Some_iff ok_defs)
    then show ?thesis
      using hydrate_ok(3) [OF assms that(1)]
      by (simp add: read_session_by_token_digest_def hydrate_optional_def)
  qed
qed

lemma rebuild_session_seen:
  assumes "valid_session s" "ses_revoked_at s = None" "ses_created_at s \<le> t" "t < ses_expires_at s"
  shows "rebuild_session (s\<lparr>ses_last_seen_at := t\<rparr>) = Inr (s\<lparr>ses_last_seen_at := t\<rparr>)"
proof -
  have "representable t" using assms by (auto simp: valid_session_def representable_def)
  then show ?thesis using assms by (simp add: valid_session_def)
qed

lemma quiet_authenticate:
  assumes q: "quiet e c" and ok: "db_ok (w_db w)" and h: "hashing_ok h"
    and dg: "session_token_digest h bearer = Inr (ses_token_digest s)"
    and s: "s \<in> set (db_sessions (w_db w))" "ses_audience s = a" "ses_revoked_at s = None"
      "ses_last_seen_at s \<le> c (w_tick w + 1)" "c (w_tick w + 3) < ses_expires_at s"
    and u: "u \<in> set (db_users (w_db w))" "acc_user_id u = ses_user_id s" "acc_active u"
    and t: "t = c (w_tick w + 3)"
  shows "authenticate_session (sqlite_session_service e ttl a h) bearer w =
    (Inr (s\<lparr>ses_last_seen_at := t\<rparr>, u),
     \<lparr>w_db = (w_db w)\<lparr>db_sessions := update_where (\<lambda>q. ses_session_id q = ses_session_id s)
        (\<lambda>q. q\<lparr>ses_last_seen_at := t\<rparr>) (db_sessions (w_db w))\<rparr>, w_tick = w_tick w + 4\<rparr>)"
proof -
  let ?srv = "sqlite_session_service e ttl a h" and ?d = "w_db w" and ?n = "w_tick w"
  let ?now = "c (Suc ?n)"
  have mono: "?now \<le> t" using q t by (auto simp: quiet_def intro: monoD)
  have valid: "valid_session s" using ok s(1) by (simp add: ok_defs)
  have created: "ses_created_at s \<le> ses_last_seen_at s" using valid by (simp add: valid_session_def)
  have w1: "uncaught (sp_read_by_digest (sqlite_session_port e) (ses_token_digest s)) w =
      (Inr (Some s), \<lparr>w_db = ?d, w_tick = Suc ?n\<rparr>)"
    using read_row_exact(2) [OF ok s(1), of "ses_token_digest s"] session_token_digest_lower [OF h dg]
    by (intro uncaught_values) (simp add: sqlite_session_port_def quiet_call [OF q])
  have w2: "read_clock (tick_source (env_clock e)) \<lparr>w_db = ?d, w_tick = Suc ?n\<rparr> =
      (Inr ?now, \<lparr>w_db = ?d, w_tick = Suc (Suc ?n)\<rparr>)"
    by (simp add: quiet_clock [OF q])
  have user: "uncaught (sp_read_user (sqlite_session_port e) (ses_user_id s)) \<lparr>w_db = ?d, w_tick = Suc (Suc ?n)\<rparr> =
      (Inr (Some u), \<lparr>w_db = ?d, w_tick = Suc (Suc (Suc ?n))\<rparr>)"
    using read_row_exact(1) [OF ok u(1)] u(2)
    by (intro uncaught_values) (simp add: sqlite_session_port_def quiet_call [OF q])
  have w3: "require_valid ?srv (Some s) (ses_token_digest s) ?now \<lparr>w_db = ?d, w_tick = Suc (Suc ?n)\<rparr> =
      (Inr (s, u), \<lparr>w_db = ?d, w_tick = Suc (Suc (Suc ?n))\<rparr>)"
    using s(2-5) created mono t u(3) user
    by (simp add: require_valid_def lift_identity_def require_active_account_def bind_act_def
        lift_act_def return_act_def)
  have seen: "max (ses_last_seen_at s) ?now = ?now" using s(4) by simp
  have rb: "rebuild_session (s\<lparr>ses_last_seen_at := ?now\<rparr>) = Inr (s\<lparr>ses_last_seen_at := ?now\<rparr>)"
    by (rule rebuild_session_seen [OF valid s(3)]) (use s(4,5) created mono t in auto)
  have "t = max ?now (max (ses_last_seen_at (s\<lparr>ses_last_seen_at := ?now\<rparr>)) (c (Suc (Suc (Suc ?n)))))"
    using mono t by (simp add: numeral_3_eq_3)
  note out = touch_outcome [OF ok this, of "acc_updated_at u" "s\<lparr>ses_last_seen_at := t\<rparr>"]
  have active: "user_at_revision ?d (ses_user_id s) (acc_updated_at u)"
    using u by (auto simp: user_at_revision_def list_ex_iff)
  have touch: "sp_touch_session (sqlite_session_port e) (s\<lparr>ses_last_seen_at := ?now\<rparr>) (acc_updated_at u) ?now
      \<lparr>w_db = ?d, w_tick = Suc (Suc (Suc ?n))\<rparr> =
    (Inr (s\<lparr>ses_last_seen_at := t\<rparr>), \<lparr>w_db = ?d\<lparr>db_sessions := update_where (\<lambda>q. ses_session_id q = ses_session_id s)
        (\<lambda>q. q\<lparr>ses_last_seen_at := t\<rparr>) (db_sessions ?d)\<rparr>, w_tick = ?n + 4\<rparr>)"
  proof -
    have "save_session_for_active_user (c (Suc (Suc (Suc ?n)))) (s\<lparr>ses_last_seen_at := ?now\<rparr>)
        (acc_updated_at u) ?now ?d = (Inr (s\<lparr>ses_last_seen_at := t\<rparr>), ?d\<lparr>db_sessions :=
          update_where (\<lambda>q. ses_session_id q = ses_session_id s) (\<lambda>q. q\<lparr>ses_last_seen_at := t\<rparr>) (db_sessions ?d)\<rparr>)"
      by (subst out) (use s created mono t active in \<open>auto simp: same_generation_def intro!: bexI [of _ s]\<close>)
    then show ?thesis by (simp add: sqlite_session_port_def quiet_call [OF q] numeral_eq_Suc)
  qed
  have "authenticate_attempts max_attempts ?srv (ses_token_digest s) ?now (Some (session_generation s)) (Some s)
      \<lparr>w_db = ?d, w_tick = Suc (Suc ?n)\<rparr> =
    (Inr (s\<lparr>ses_last_seen_at := t\<rparr>, u), \<lparr>w_db = ?d\<lparr>db_sessions := update_where (\<lambda>q. ses_session_id q = ses_session_id s)
        (\<lambda>q. q\<lparr>ses_last_seen_at := t\<rparr>) (db_sessions ?d)\<rparr>, w_tick = ?n + 4\<rparr>)"
    using w3 touch mono s(3)
    by (simp del: rebuild_session_eq add: rb max_attempts_def numeral_eq_Suc lift_identity_def seen try_act_def bind_act_def lift_act_def
        session_generation_def return_act_def)
  with dg w1 w2 show ?thesis
    by (simp add: authenticate_session_def session_digest_for_verification_def bind_act_def lift_act_def)
qed

text \<open>Logging in works: a session that was issued is accepted with the bearer that was returned, for
  the account it was issued to, as long as no other process interferes, the clocks do not run
  backwards and the session has not expired; only its last use moves.\<close>

theorem issue_then_authenticate:
  assumes "quiet e c" "db_ok (w_db w)" "hashing_ok h"
    and "issue_session (sqlite_session_service e ttl AudienceWeb h) i w = (Inr (x, raw), w1)"
    and "ses_created_at x \<le> c (w_tick w1 + 1)" "c (w_tick w1 + 3) < ses_expires_at x"
  shows "\<exists>u w2. authenticate_session (sqlite_session_service e ttl AudienceWeb h) raw w1 =
    (Inr (x\<lparr>ses_last_seen_at := c (w_tick w1 + 3)\<rparr>, u), w2) \<and> acc_user_id u = i \<and> acc_active u"
proof -
  note wired = sqlite_service_wired [OF assms(3)]
  have w: "world_intact e w" using assms(1,2) by (simp add: world_intact_def quiet_honest)
  from sqlite_sessions.issue_sound [OF wired w assms(4)]
  obtain u where x: "x \<in> set (db_sessions (w_db w1))" "ses_user_id x = i" "ses_audience x = AudienceWeb"
      "session_token_digest h raw = Inr (ses_token_digest x)" "ses_last_seen_at x = ses_created_at x"
      "ses_revoked_at x = None"
    and u: "u \<in> set (db_users (w_db w1))" "acc_user_id u = i" "acc_active u"
    by (auto simp: session_in_def user_in_def)
  have "db_ok (w_db w1)"
    using sqlite_accounts.guardedD [OF sqlite_sessions.issue_keeps [OF wired] assms(4) w]
    by (simp add: world_intact_def)
  from quiet_authenticate [OF assms(1) this assms(3) x(4,1,3,6) _ assms(6) u(1) _ u(3) refl]
  show ?thesis using x(2,5) u(2,3) assms(5) by auto
qed

text \<open>Logging out works: once a revocation by bearer has answered true, the same bearer is no longer
  accepted, as long as no other process interferes.\<close>

theorem revoke_then_reject:
  assumes "quiet e c" "db_ok (w_db w)" "hashing_ok h"
    and "revoke_session (sqlite_session_service e ttl a h) bearer w = (Inr True, w1)"
  shows "\<exists>err w2. authenticate_session (sqlite_session_service e ttl a h) bearer w1 = (Inl err, w2)"
proof -
  note wired = sqlite_service_wired [OF assms(3)]
  have w: "world_intact e w" using assms(1,2) by (simp add: world_intact_def quiet_honest)
  obtain digest where dg: "session_token_digest h bearer = Inr digest"
    using assms(4) by (auto simp: revoke_session_def action_simps session_digest_for_verification_def)
  note closed = sqlite_sessions.revoke_sound [OF wired w assms(4), simplified, OF dg]
  have "keeps (guarded (world_intact e) world_evolves) (revoke_session (sqlite_session_service e ttl a h) bearer)"
    using wired unfolding revoke_session_def
    by (auto intro!: sqlite_accounts.guarded_bind sqlite_accounts.guarded_uncaught sqlite_accounts.guarded_pure
        sqlite_sessions.by_digest_keeps sqlite_sessions.revoke_attempts_keeps)
  then have w1: "world_intact e w1" using sqlite_accounts.guardedD assms(4) w by blast
  show ?thesis
  proof (cases "authenticate_session (sqlite_session_service e ttl a h) bearer w1")
    case (Pair r w2)
    show ?thesis
    proof (cases r)
      case (Inl err)
      with Pair show ?thesis by blast
    next
      case (Inr xu)
      obtain found w3 now w4 where rd: "sp_read_by_digest (sqlite_session_port e) digest w1 = (Inr found, w3)"
        and go: "authenticate_attempts max_attempts (sqlite_session_service e ttl a h) digest now
          (map_option session_generation found) found w4 = (Inr xu, w2)"
        using Pair Inr dg
        by (auto simp: authenticate_session_def run_simps uncaught_def session_digest_for_verification_def)
      then obtain s acc w5 where valid: "require_valid (sqlite_session_service e ttl a h) found digest now w4 =
          (Inr (s, acc), w5)"
        by (auto simp: max_attempts_def numeral_eq_Suc action_simps)
      then have found: "found = Some s" "ses_revoked_at s = None"
        by (auto simp: require_valid_def run_simps)
      have "session_in w3 s" "ses_token_digest s = lower digest"
        using sqlite_sessions.by_digest_law [OF w1] rd found(1) by blast+
      moreover have "w_db w3 = w_db w1"
        using rd by (auto simp: sqlite_session_port_def quiet_call [OF assms(1)] Let_def
            read_session_by_token_digest_def)
      ultimately have "ses_revoked_at s \<noteq> None"
        using closed [of s] session_token_digest_lower [OF assms(3) dg] by (simp add: session_in_def)
      with found(2) show ?thesis by simp
    qed
  qed
qed

end
