(* ===== verification/Sample_School.thy ===== *)
theory Sample_School
  imports Auth_Sessions
begin

text \<open>
  A small school and a quiet environment, the concrete inputs on which the properties with
  hypotheses are applied. Instants are small numbers of microseconds.
\<close>

section \<open>A school\<close>

definition root_admin :: user_account where
  "root_admin = \<lparr>acc_user_id = ''root'', acc_display_name = ''Root'', acc_role = RoleAdmin, acc_active = True,
     acc_created_at = 10, acc_updated_at = 10, acc_primary_email = None\<rparr>"

definition some_student :: user_account where
  "some_student = \<lparr>acc_user_id = ''stu'', acc_display_name = ''Stu'', acc_role = RoleStudent, acc_active = True,
     acc_created_at = 10, acc_updated_at = 20, acc_primary_email = None\<rparr>"

definition some_pending :: user_account where
  "some_pending = \<lparr>acc_user_id = ''new'', acc_display_name = ''New'', acc_role = RolePending, acc_active = True,
     acc_created_at = 10, acc_updated_at = 30, acc_primary_email = None\<rparr>"

definition some_link :: external_identity where
  "some_link = \<lparr>ext_user_id = ''stu'', ext_provider = ''google'', ext_subject = ''42'', ext_linked_at = 40,
     ext_email = None, ext_username = None\<rparr>"

definition some_class :: class_group where
  "some_class = \<lparr>cls_class_id = ''1A'', cls_label = ''1A'', cls_school_year = ''2025'', cls_active = True,
     cls_created_at = 10, cls_updated_at = 10\<rparr>"

definition sha_of :: "char \<Rightarrow> string" where
  "sha_of c = ''sha256:'' @ replicate 64 c"

definition hmac_of :: "char \<Rightarrow> string" where
  "hmac_of c = ''hmac-sha256:'' @ replicate 64 c"

definition web_session :: user_session where
  "web_session = \<lparr>ses_session_id = ''w1'', ses_user_id = ''stu'', ses_token_digest = sha_of (CHR ''a''),
     ses_created_at = 100, ses_expires_at = 1000, ses_last_seen_at = 110, ses_revoked_at = None,
     ses_audience = AudienceWeb, ses_source_pairing = None\<rparr>"

definition pending_pairing :: tui_pairing where
  "pending_pairing = \<lparr>par_pairing_id = ''q0'', par_code_digest = hmac_of (CHR ''b''), par_status = PairPending,
     par_created_at = 100, par_expires_at = 1000, par_user_id = None, par_authorized_at = None,
     par_consumed_at = None, par_expired_at = None, par_revoked_at = None\<rparr>"

definition authorized_pairing :: tui_pairing where
  "authorized_pairing = \<lparr>par_pairing_id = ''q1'', par_code_digest = hmac_of (CHR ''c''), par_status = PairAuthorized,
     par_created_at = 100, par_expires_at = 1000, par_user_id = Some ''stu'', par_authorized_at = Some 150,
     par_consumed_at = None, par_expired_at = None, par_revoked_at = None\<rparr>"

definition school :: identity_db where
  "school = \<lparr>db_users = [root_admin, some_student, some_pending], db_identities = [some_link],
     db_generations = [(''google'', ''42'', 40)], db_classes = [some_class], db_memberships = [],
     db_sessions = [web_session], db_pairings = [pending_pairing, authorized_pairing],
     db_mappings = [], db_map_generations = [], db_bindings = [], db_aliases = []\<rparr>"

lemma school_ok: "db_ok school"
  by code_simp

section \<open>A quiet afternoon\<close>

definition same_hash :: hashing where
  "same_hash = \<lparr>sha256_hex = (\<lambda>t. replicate 64 (if t = replicate 40 (CHR ''t'') then CHR ''d'' else CHR ''a'')),
     hmac_sha256_hex = (\<lambda>k t. replicate 64 
       (if t = ''CODE0001'' then CHR ''e'' else if t = ''CODE0002'' then CHR ''b'' else CHR ''c''))\<rparr>"

definition ticking :: "nat \<Rightarrow> instant" where
  "ticking n = 200 + int (min n 100)"

definition afternoon :: environment where
  "afternoon = \<lparr>env_clock = (\<lambda>n. utc_datetime (ticking n)), env_storage_clock = ticking,
     env_token = (\<lambda>n. PyStr (replicate 40 (CHR ''t''))), env_identifier = (\<lambda>n. PyStr ''w2''), env_others = (\<lambda>n. id)\<rparr>"

definition noon :: world where
  "noon = \<lparr>w_db = school, w_tick = 0\<rparr>"

definition web_service :: "world session_service" where
  "web_service = sqlite_session_service afternoon 500 AudienceWeb same_hash"

definition old_bearer :: pyval where
  "old_bearer = PyStr (replicate 40 (CHR ''o''))"

lemma same_hash_ok: "hashing_ok same_hash"
proof -
  have "hex64 (replicate 64 (CHR ''a''))" "hex64 (replicate 64 (CHR ''c''))" "hex64 (replicate 64 (CHR ''d''))"
    "hex64 (replicate 64 (CHR ''e''))" "hex64 (replicate 64 (CHR ''b''))"
    by code_simp+
  then show ?thesis by (simp add: hashing_ok_def same_hash_def)
qed

lemma afternoon_quiet: "quiet afternoon ticking"
  by (auto simp: quiet_def afternoon_def fun_eq_iff ticking_def representable_def max_instant_def day_micros_def
      intro!: monoI)

lemmas afternoon_honest = quiet_honest [OF afternoon_quiet]

definition run_ok :: "('e + 'a) \<times> 's \<Rightarrow> bool" where
  "run_ok p = (case fst p of Inl e \<Rightarrow> False | Inr x \<Rightarrow> True)"

lemma run_okD: "run_ok p \<Longrightarrow> \<exists>x t. p = (Inr x, t)"
  by (cases p) (auto simp: run_ok_def split: sum.splits)

lemma run_ok_pair: "run_ok p \<Longrightarrow> \<exists>x y t. p = (Inr (x, y), t)"
  using run_okD [of p] by (metis surj_pair)

lemma run_ok_triple: "run_ok p \<Longrightarrow> \<exists>x y z t. p = (Inr (x, y, z), t)"
  using run_okD [of p] by (metis surj_pair)

end
