(* ===== verification/Identity_Properties.thy ===== *)
theory Identity_Properties
  imports Store_Invariant
begin

text \<open>
  What the identity domain and the storage rows guarantee, as properties: the timestamp texts,
  the constructors of the dataclasses, the pairing state machine, and the agreement of the
  schema with the domain.
\<close>

section \<open>Timestamps\<close>

text \<open>C40. A stored timestamp is read back as the instant that was written, for every instant a
  \<^verbatim>\<open>datetime\<close> can hold, and the texts of two stored timestamps compare as the instants do, so the
  comparisons in SQL are comparisons of instants.\<close>

theorem timestamps_are_faithful:
  assumes "representable i" "representable j"
  shows "decode_datetime (Some (encode_datetime i)) = Inr (Some i) \<and>
    (encode_datetime i < encode_datetime j) = (i < j) \<and> (encode_datetime i = encode_datetime j) = (i = j)"
proof -
  have "(encode_datetime i = encode_datetime j) = (i = j)"
  proof
    assume "encode_datetime i = encode_datetime j"
    from decode_encode_datetime [OF assms(1), unfolded this] show "i = j"
      unfolding decode_encode_datetime [OF assms(2)] by blast
  qed blast
  then show ?thesis using encode_datetime_less [OF assms] decode_encode_datetime [OF assms(1)] by simp
qed

section \<open>Constructors\<close>

text \<open>C39. Construction normalizes once: whatever Python values a constructor accepts, the object it
  builds satisfies the invariant of its dataclass, and building it again from its own fields, as
  \<^verbatim>\<open>dataclasses.replace\<close> and the storage do, gives the same object.\<close>

theorem construction_is_stable:
  "(make_user_account a1 a2 a3 a4 a5 a6 a7 = Inr u \<longrightarrow> valid_user u \<and> rebuild_user u = Inr u) \<and>
   (make_external_identity b1 b2 b3 b4 b5 b6 = Inr x \<longrightarrow> valid_external x \<and> rebuild_external x = Inr x) \<and>
   (make_class_group c1 c2 c3 c4 c5 c6 = Inr k \<longrightarrow> valid_class k \<and> rebuild_class k = Inr k) \<and>
   (make_class_membership f1 f2 f3 f4 f5 f6 = Inr m \<longrightarrow> valid_membership m \<and> rebuild_membership m = Inr m) \<and>
   (make_group_mapping g1 g2 g3 g4 g5 g6 g7 = Inr n \<longrightarrow> valid_mapping n \<and> rebuild_mapping n = Inr n) \<and>
   (make_subject_binding h1 h2 h3 h4 h5 h6 = Inr b \<longrightarrow> valid_binding b \<and> rebuild_binding b = Inr b) \<and>
   (make_subject_alias i1 i2 i3 i4 = Inr a \<longrightarrow> valid_alias a \<and> rebuild_alias a = Inr a) \<and>
   (make_user_session d1 d2 d3 d4 d5 d6 d7 d8 d9 = Inr s \<longrightarrow> valid_session s \<and> rebuild_session s = Inr s) \<and>
   (make_tui_pairing e1 e2 e3 e4 e5 e6 e7 e8 e9 e10 = Inr p \<longrightarrow> valid_pairing p \<and> rebuild_pairing p = Inr p)"
  by (auto dest: make_user_valid make_external_valid make_class_valid make_session_valid make_pairing_valid
      make_membership_valid make_mapping_valid make_binding_valid make_alias_valid
      intro: rebuild_pairing_valid)

section \<open>The pairing state machine\<close>

inductive_simps pairing_step_iff: "pairing_step p q"

lemma rebuilt_digest:
  "rebuild_pairing p = Inr q \<Longrightarrow> valid_digest pairing_digest_algorithms (par_code_digest p) \<Longrightarrow>
     par_code_digest q = par_code_digest p"
  by (auto simp: rebuild_pairing_def make_tui_pairing_def result_simps Let_def field_simps split: if_splits)

text \<open>Every transition of a valid pairing gives a valid pairing with the same identifier, code digest
  and interval and a status strictly further in the order pending, authorized, finished; a
  finished pairing has no transition.\<close>

theorem pairing_machine:
  assumes "valid_pairing p" "pairing_step p q"
  shows "valid_pairing q \<and> par_status p < par_status q \<and> \<not> terminal_status (par_status p) \<and>
    par_pairing_id q = par_pairing_id p \<and> par_code_digest q = par_code_digest p \<and>
    par_created_at q = par_created_at p \<and> par_expires_at q = par_expires_at p"
proof -
  have rank: "status_rank (par_status p) < status_rank (par_status q)" by (rule pairing_step_rank [OF assms(2)])
  have "\<not> terminal_status (par_status p)"
    using rank status_rank_le [of "par_status q"] by (simp add: terminal_rank)
  moreover have "par_pairing_id q = par_pairing_id p \<and> par_code_digest q = par_code_digest p \<and>
      par_created_at q = par_created_at p \<and> par_expires_at q = par_expires_at p"
    using assms valid_pairing_parts [OF assms(1)] unfolding pairing_step_iff
    by (auto simp: authorize_pairing_def consume_pairing_def expire_pairing_def revoke_pairing_def result_simps
        split: if_splits dest: rebuild_pairing_frame(3-5) rebuilt_digest)
  ultimately show ?thesis
    using rank pairing_step_valid [OF assms(2)] by (simp add: less_pairing_status_def)
qed

text \<open>What each transition demands and does: an authorization needs a pending pairing inside its
  interval, a consumption an authorized one not earlier than its authorization, an expiry an
  open one past its end, a revocation an open one inside its interval; each sets its status and
  its instant and nothing else.\<close>

theorem pairing_transitions_exact:
  assumes "valid_pairing p" "clean_text u" "representable t"
  shows "(authorize_pairing p (PyStr u) (utc_datetime t) = Inr q) =
      (par_status p = PairPending \<and> par_created_at p \<le> t \<and> t < par_expires_at p \<and>
       q = p\<lparr>par_status := PairAuthorized, par_user_id := Some u, par_authorized_at := Some t\<rparr>) \<and>
    (consume_pairing p (utc_datetime t) = Inr q) =
      (par_status p = PairAuthorized \<and> par_created_at p \<le> t \<and> t < par_expires_at p \<and>
       later_than (par_authorized_at p) (Some t) \<and>
       q = p\<lparr>par_status := PairConsumed, par_consumed_at := Some t\<rparr>) \<and>
    (expire_pairing p (utc_datetime t) = Inr q) =
      (par_status p \<in> {PairPending, PairAuthorized} \<and> par_expires_at p \<le> t \<and>
       q = p\<lparr>par_status := PairExpired, par_expired_at := Some t\<rparr>) \<and>
    (revoke_pairing p (utc_datetime t) = Inr q) =
      (par_status p \<in> {PairPending, PairAuthorized} \<and> par_created_at p \<le> t \<and> t < par_expires_at p \<and>
       later_than (par_authorized_at p) (Some t) \<and>
       q = p\<lparr>par_status := PairRevoked, par_revoked_at := Some t\<rparr>)"
  by (intro conjI authorize_pairing_iff [OF assms] consume_pairing_iff [OF assms(1,3)]
      expire_pairing_iff [OF assms(1,3)] revoke_pairing_iff [OF assms(1,3)])

section \<open>Schema and domain\<close>

text \<open>C38. The CHECK constraints of the schema say exactly what the dataclasses demand of the instants and
  the status of a pairing: for rows with well-formed texts and timestamps, a pairing row passes
  the constraints just in case hydrating it succeeds, and then it is hydrated as it is.\<close>

theorem pairing_schema_matches_domain:
  assumes "clean_text (par_pairing_id p)" "valid_digest pairing_digest_algorithms (par_code_digest p)"
    "optional_clean (par_user_id p)" "representable (par_created_at p)"
    "representable (par_expires_at p)" "pred_option representable (par_authorized_at p)"
    "pred_option representable (par_consumed_at p)" "pred_option representable (par_expired_at p)"
    "pred_option representable (par_revoked_at p)"
  shows "hydrate_pairing p = (if pairing_check p then Inr p else Inl StorageCorruption)"
proof (cases "pairing_check p")
  case True
  then have "valid_pairing p" using pairing_check_domain [OF assms] by simp
  then show ?thesis using True by (simp add: hydrate_pairing_def rebuild_pairing_valid)
next
  case False
  then have "\<not> valid_pairing p" using pairing_check_domain [OF assms] by simp
  then have "rebuild_pairing p \<noteq> Inr q" for q using rebuild_pairing_iff [OF assms(1-3)] by simp
  then obtain e where "rebuild_pairing p = Inl e" by (cases "rebuild_pairing p") auto
  with False show ?thesis by (simp add: hydrate_pairing_def)
qed

end
