(* ===== verification/Sample_Store.thy ===== *)
theory Sample_Store
  imports Sample_School Identity_Properties
begin

text \<open>The properties of the identity domain and the storage on concrete inputs.\<close>

section \<open>Users and the machine\<close>

theorem reachable_database_ok_witness:
  "\<exists>d. storage_steps empty_db d \<and> root_admin \<in> set (db_users d) \<and> db_ok d"
proof -
  have "create_user root_admin empty_db = (Inr (), empty_db\<lparr>db_users := [root_admin]\<rparr>)" by code_simp
  moreover have "valid_user root_admin" by code_simp
  ultimately have "storage_steps empty_db (empty_db\<lparr>db_users := [root_admin]\<rparr>)"
    by (blast intro: storage_op.user_created)
  with reachable_database_ok [OF this] show ?thesis by (intro exI conjI) simp_all
qed

theorem revision_detects_change_witness:
  "\<exists>d' u'. dated_steps school d' \<and> lookup_user school ''stu'' = Some some_student \<and>
     lookup_user d' ''stu'' = Some u' \<and> acc_updated_at u' = 20 \<and> u' = some_student"
proof -
  let ?d = "snd (revoke_user_sessions ''stu'' 300 None school)"
  have "dated_step school ?d" by (rule storage_op.sessions_revoked [OF prod.collapse [symmetric]])
  then have steps: "dated_steps school ?d" by blast
  have look: "lookup_user school ''stu'' = Some some_student" "lookup_user ?d ''stu'' = Some some_student"
    by code_simp+
  have "acc_updated_at some_student = 20" by code_simp
  with revision_detects_change [OF school_ok steps look refl] steps look show ?thesis by blast
qed

theorem steps_move_forward_witness:
  "\<exists>d'. storage_step school d' \<and>
    (\<forall>s \<in> set (db_sessions school). \<forall>s' \<in> set (db_sessions d'). ses_session_id s' = ses_session_id s \<longrightarrow>
       same_generation s s' \<and> ses_last_seen_at s \<le> ses_last_seen_at s' \<and> (ses_revoked_at s \<noteq> None \<longrightarrow> s' = s))"
proof -
  let ?d = "snd (revoke_user_sessions ''stu'' 300 None school)"
  have step: "storage_step school ?d" by (rule storage_op.sessions_revoked [OF prod.collapse [symmetric]])
  from steps_move_forward [OF school_ok step] step show ?thesis by blast
qed

definition disabled_student :: user_account where
  "disabled_student = some_student\<lparr>acc_active := False, acc_updated_at := 500\<rparr>"

theorem disable_closes_access_witness:
  "\<exists>d'. save_user disabled_student 20 school = (Inr (), d') \<and>
    lookup_user d' ''stu'' = Some disabled_student \<and> (\<forall>t. \<not> has_access d' ''stu'' t)"
proof -
  have "valid_user disabled_student" "\<not> acc_active disabled_student"
    "lookup_user school (acc_user_id disabled_student) = Some some_student"
    "acc_created_at some_student = acc_created_at disabled_student"
    "acc_updated_at some_student < acc_updated_at disabled_student"
    by code_simp+
  from disable_closes_access [OF school_ok this] show ?thesis
    by (auto simp: disabled_student_def some_student_def)
qed

definition new_school :: identity_db where
  "new_school = empty_db\<lparr>db_users := [some_pending]\<rparr>"

theorem bootstrap_happens_once_witness:
  "\<exists>u n d'. bootstrap_first_admin ''new'' 400 30 new_school = (Inr (u, n), d') \<and>
    {a \<in> set (db_users d'). acc_role a = RoleAdmin} = {u} \<and>
    bootstrap_first_admin ''new'' 500 400 d' = (Inl StorageConflict, d')"
proof -
  have ok: "db_ok new_school" "representable 400" by code_simp+
  have "run_ok (bootstrap_first_admin ''new'' 400 30 new_school)" by code_simp
  then obtain u n d' where run: "bootstrap_first_admin ''new'' 400 30 new_school = (Inr (u, n), d')"
    using run_ok_pair by blast
  from bootstrap_happens_once [OF ok run, where other = "''new''" and t' = 500 and expected' = 400] run
  show ?thesis by blast
qed

theorem approval_effect_witness:
  "\<exists>u m n d'. approve_pending_user_as_admin ''root'' ''new'' ''student'' (Some ''1A'') 400 10 30 school =
      (Inr (u, m, n), d') \<and>
    acc_role u = RoleStudent \<and> lookup_user d' ''new'' = Some u \<and> \<not> has_access d' ''new'' 400"
proof -
  have rep: "representable 400" by code_simp
  have "run_ok (approve_pending_user_as_admin ''root'' ''new'' ''student'' (Some ''1A'') 400 10 30 school)"
    by code_simp
  then obtain u m n d' where run:
    "approve_pending_user_as_admin ''root'' ''new'' ''student'' (Some ''1A'') 400 10 30 school = (Inr (u, m, n), d')"
    using run_ok_triple by blast
  have "approved_role ''student'' = RoleStudent" by code_simp
  with approval_effect [OF school_ok rep run] run show ?thesis by (intro exI conjI) auto
qed

section \<open>Links\<close>

definition other_link :: external_identity where
  "other_link = \<lparr>ext_user_id = ''new'', ext_provider = ''github'', ext_subject = ''77'', ext_linked_at = 60,
     ext_email = None, ext_username = None\<rparr>"

definition seen_session :: session_expectation where
  "seen_session = \<lparr>exp_session_id = ''w1'', exp_token_digest = sha_of (CHR ''a''), exp_created_at = 100,
     exp_expires_at = 1000, exp_audience = AudienceWeb, exp_source_pairing = None, exp_valid_at = 200\<rparr>"

theorem generation_used_once_witness:
  "\<exists>d1. link_external_identity other_link school = (Inr (), d1) \<and>
     link_external_identity other_link d1 = (Inl GenerationConflict, d1)"
proof -
  have "run_ok (link_external_identity other_link school)" "valid_external other_link" by code_simp+
  then obtain d1 where run: "link_external_identity other_link school = (Inr (), d1)" and v: "valid_external other_link"
    using run_okD by fastforce
  from generation_used_once [OF school_ok v disjI1 [OF run] db_advance_refl refl] run show ?thesis by blast
qed

theorem session_unlink_effect_witness:
  "\<exists>d'. unlink_external_identity_for_active_session 210 ''Google'' ''42'' ''stu'' 40 20 seen_session school = (Inr True, d') \<and>
     \<not> link_exists d' (lower ''Google'') ''42'' \<and> session_backs school seen_session ''stu'' 210"
proof -
  let ?m = "unlink_external_identity_for_active_session 210 ''Google'' ''42'' ''stu'' 40 20 seen_session"
  have "fst (?m school) = Inr True" by code_simp
  then obtain d' where run: "?m school = (Inr True, d')" by (cases "?m school") simp
  have "max (exp_valid_at seen_session) 210 = 210" by (simp add: seen_session_def)
  with session_unlink_effect [OF school_ok run] run show ?thesis by auto
qed

section \<open>Sessions\<close>

theorem touch_iff_witness:
  "save_session_for_active_user 300 web_session 20 250 school =
     (Inr (web_session\<lparr>ses_last_seen_at := 300\<rparr>), school\<lparr>db_sessions := [web_session\<lparr>ses_last_seen_at := 300\<rparr>]\<rparr>)"
proof -
  have t: "300 = max 250 (max (ses_last_seen_at web_session) 300)" by (simp add: web_session_def)
  have "ses_revoked_at web_session = None \<and>
     (\<exists>r \<in> set (db_sessions school). same_generation web_session r \<and> ses_revoked_at r = None \<and>
        ses_last_seen_at r \<le> 300 \<and> ses_created_at r \<le> 300 \<and> 300 < ses_expires_at r \<and>
        user_at_revision school (ses_user_id r) 20 \<and>
        web_session\<lparr>ses_last_seen_at := 300\<rparr> = r\<lparr>ses_last_seen_at := 300\<rparr>) \<and>
     school\<lparr>db_sessions := [web_session\<lparr>ses_last_seen_at := 300\<rparr>]\<rparr> =
       school\<lparr>db_sessions := update_where (\<lambda>q. ses_session_id q = ses_session_id web_session)
         (\<lambda>q. q\<lparr>ses_last_seen_at := 300\<rparr>) (db_sessions school)\<rparr>"
    by code_simp
  with touch_iff [OF school_ok t, of 20 "web_session\<lparr>ses_last_seen_at := 300\<rparr>"] show ?thesis by blast
qed

theorem revoke_user_sessions_exact_witness:
  "revoke_user_sessions ''stu'' 300 None school =
     (Inr 1, school\<lparr>db_sessions := [web_session\<lparr>ses_revoked_at := Some 300\<rparr>]\<rparr>)"
  unfolding revoke_user_sessions_exact [OF school_ok] by code_simp

section \<open>Pairings\<close>

definition consumed_pairing_row :: tui_pairing where
  "consumed_pairing_row = authorized_pairing\<lparr>par_status := PairConsumed, par_consumed_at := Some 200\<rparr>"

definition terminal_session :: user_session where
  "terminal_session = \<lparr>ses_session_id = ''t1'', ses_user_id = ''stu'', ses_token_digest = sha_of (CHR ''b''),
     ses_created_at = 200, ses_expires_at = 900, ses_last_seen_at = 200, ses_revoked_at = None,
     ses_audience = AudienceTui, ses_source_pairing = Some ''q1''\<rparr>"

lemma sample_rows_valid: "valid_pairing consumed_pairing_row" "valid_session terminal_session"
  by code_simp+

theorem consume_iff_witness:
  "\<exists>d'. consume_pairing_and_create_session 210 consumed_pairing_row terminal_session 20 ''student'' school = (Inr (), d') \<and>
     terminal_session \<in> set (db_sessions d')"
proof -
  let ?d = "school\<lparr>db_pairings := update_where (\<lambda>q. par_pairing_id q = par_pairing_id consumed_pairing_row)
      (\<lambda>q. consumed_pairing_row) (db_pairings school), db_sessions := db_sessions school @ [terminal_session]\<rparr>"
  have t: "210 = max (the (par_consumed_at consumed_pairing_row)) 210" by (simp add: consumed_pairing_row_def)
  have "consumption_contract consumed_pairing_row terminal_session ''student'' \<and>
     210 < par_expires_at consumed_pairing_row \<and> 210 < ses_expires_at terminal_session \<and>
     (\<exists>r \<in> set (db_pairings school). consumable_row consumed_pairing_row r) \<and>
     active_in_role school (par_user_id consumed_pairing_row) ''student'' 20 \<and>
     ses_session_id terminal_session \<notin> ses_session_id ` set (db_sessions school) \<and>
     ses_token_digest terminal_session \<notin> ses_token_digest ` set (db_sessions school)"
    by code_simp
  with consume_iff [OF school_ok sample_rows_valid t, of 20 "''student''" ?d] show ?thesis by auto
qed

theorem consume_failure_frame_witness:
  "\<exists>e d'. consume_pairing_and_create_session 1000 consumed_pairing_row terminal_session 20 ''student'' school = (Inl e, d') \<and>
     d' \<noteq> school \<and> e = PairingExpiredConflict \<and> db_sessions d' = db_sessions school"
proof -
  let ?m = "consume_pairing_and_create_session 1000 consumed_pairing_row terminal_session 20 ''student''"
  have "fst (?m school) = Inl PairingExpiredConflict" "snd (?m school) \<noteq> school" by code_simp+
  then obtain d' where run: "?m school = (Inl PairingExpiredConflict, d')" and ne: "d' \<noteq> school"
    by (cases "?m school") simp
  from consume_failure_frame [OF run] ne have "db_sessions d' = db_sessions school" by auto
  with run ne show ?thesis by blast
qed

definition freshly_authorized :: tui_pairing where
  "freshly_authorized = pending_pairing\<lparr>par_status := PairAuthorized, par_user_id := Some ''stu'',
     par_authorized_at := Some 200\<rparr>"

theorem authorize_exact_witness:
  "save_pairing_for_active_user 210 freshly_authorized 20 school =
     (Inr (), school\<lparr>db_pairings := [freshly_authorized, authorized_pairing]\<rparr>)"
proof -
  have "valid_pairing freshly_authorized" "par_status freshly_authorized = PairAuthorized"
    "par_user_id freshly_authorized = Some ''stu''" "representable 210"
    by code_simp+
  note exact = authorize_exact [OF school_ok this, of 20]
  show ?thesis unfolding exact by code_simp
qed

section \<open>The identity domain\<close>

theorem timestamps_are_faithful_witness:
  "decode_datetime (Some (encode_datetime 999999)) = Inr (Some 999999) \<and>
   encode_datetime 999999 < encode_datetime 1000000"
proof -
  have "representable 999999" "representable 1000000" by code_simp+
  from timestamps_are_faithful [OF this] show ?thesis by simp
qed

definition typed_user :: "(identity_error, user_account) result" where
  "typed_user = make_user_account (PyStr '' stu '') (PyStr ''Stu'') (PyStr ''Student'') (PyBool True)
     (PyDatetime 3610000000 (Some 3600000000)) (utc_datetime 20000000) (PyStr ''S@X.ORG'')"

theorem construction_is_stable_witness:
  "\<exists>u. typed_user = Inr u \<and> acc_primary_email u = Some ''s@x.org'' \<and> valid_user u \<and> rebuild_user u = Inr u"
proof -
  have "(case typed_user of Inl e \<Rightarrow> False | Inr u \<Rightarrow> acc_primary_email u = Some ''s@x.org'')" by code_simp
  then obtain u where u: "typed_user = Inr u" "acc_primary_email u = Some ''s@x.org''"
    by (auto split: sum.splits)
  from construction_is_stable [THEN conjunct1, THEN mp, OF u(1) [unfolded typed_user_def]] u show ?thesis by blast
qed

theorem pairing_machine_witness:
  "pairing_step authorized_pairing consumed_pairing_row \<and> par_status authorized_pairing < par_status consumed_pairing_row"
proof -
  have "consume_pairing authorized_pairing (utc_datetime 200) = Inr consumed_pairing_row"
    "valid_pairing authorized_pairing"
    by code_simp+
  then have "pairing_step authorized_pairing consumed_pairing_row" "valid_pairing authorized_pairing"
    by (blast intro: pairing_step.consumed)+
  with pairing_machine [OF this(2,1)] show ?thesis by blast
qed

theorem pairing_transitions_exact_witness:
  "\<exists>q. authorize_pairing pending_pairing (PyStr ''stu'') (utc_datetime 200) = Inr q \<and> q = freshly_authorized"
proof -
  have "valid_pairing pending_pairing" "clean_text ''stu''" "representable 200" by code_simp+
  note exact = pairing_transitions_exact [OF this, of freshly_authorized, THEN conjunct1]
  have "authorize_pairing pending_pairing (PyStr ''stu'') (utc_datetime 200) = Inr freshly_authorized"
    unfolding exact by (simp add: pending_pairing_def freshly_authorized_def)
  then show ?thesis by blast
qed

theorem pairing_schema_matches_domain_witness:
  "hydrate_pairing authorized_pairing = Inr authorized_pairing"
proof -
  have "clean_text (par_pairing_id authorized_pairing)"
    "valid_digest pairing_digest_algorithms (par_code_digest authorized_pairing)"
    "optional_clean (par_user_id authorized_pairing)" "representable (par_created_at authorized_pairing)"
    "representable (par_expires_at authorized_pairing)"
    "pred_option representable (par_authorized_at authorized_pairing)"
    "pred_option representable (par_consumed_at authorized_pairing)"
    "pred_option representable (par_expired_at authorized_pairing)"
    "pred_option representable (par_revoked_at authorized_pairing)" "pairing_check authorized_pairing"
    by code_simp+
  with pairing_schema_matches_domain [OF this(1-9)] show ?thesis by simp
qed

end
