(* ===== verification/Assignment_Target.thy ===== *)
theory Assignment_Target
  imports Subject_Binding
begin

text \<open>
  The target of an assignment a student may see, \<^verbatim>\<open>resolve_assignment_target\<close> of
  \<^verbatim>\<open>scripts/thebitlab_identity_binding.py\<close>, and the migration of legacy targets. Assignments are
  JSON objects; a target is the member list of an object.
\<close>

type_synonym target = "(string \<times> json) list"

section \<open>Assignments\<close>

definition is_object :: "json \<Rightarrow> bool" where
  "is_object v = (case v of JObj _ \<Rightarrow> True | _ \<Rightarrow> False)"

fun object_members :: "json \<Rightarrow> target" where
  "object_members (JObj ms) = ms"
| "object_members _ = []"

definition assignment_parts :: "json \<Rightarrow> (binding_error, string \<times> string \<times> target list) result" where
  "assignment_parts assignment =
     (case assignment of
        JObj ms \<Rightarrow>
          bind_result (map_error (\<lambda>_. BindingIncoherent) (binding_text (json_value (json_get ms ''id'')))) (\<lambda>aid.
          bind_result (map_error (\<lambda>_. BindingIncoherent) (binding_text (json_value (json_get ms ''class_id'')))) (\<lambda>cid.
          case json_get ms ''targets'' of
            JList ts \<Rightarrow>
              if ts = [] \<or> \<not> list_all is_object ts then Inl BindingIncoherent
              else Inr (aid, cid, map object_members ts)
          | _ \<Rightarrow> Inl BindingIncoherent))
      | _ \<Rightarrow> Inl BindingIncoherent)"

definition alias_subjects :: "subject_alias list \<Rightarrow> string \<Rightarrow> string \<Rightarrow> string list" where
  "alias_subjects aliases class_id legacy_id =
     map als_subject_id (filter (\<lambda>a. als_class_id a = class_id \<and> als_legacy_id a = legacy_id) aliases)"

text \<open>\<^verbatim>\<open>value is None or value == ""\<close>\<close>

definition blank :: "json \<Rightarrow> bool" where
  "blank v \<longleftrightarrow> v = JNull \<or> v = JStr []"

definition target_field :: "string \<Rightarrow> target \<Rightarrow> pyval" where
  "target_field key t = json_value (json_get t key)"

section \<open>Resolving a target\<close>

fun canonical_matches ::
  "string \<Rightarrow> target list \<Rightarrow> string list \<Rightarrow> target list \<Rightarrow> (binding_error, target list) result" where
  "canonical_matches subject [] seen found = Inr found"
| "canonical_matches subject (t # ts) seen found =
     (if blank (json_get t ''subject_id'') then canonical_matches subject ts seen found
      else bind_result (map_error (\<lambda>_. BindingIncoherent) (subject_text (target_field ''subject_id'' t))) (\<lambda>s.
        if s \<in> set seen then Inl BindingDuplicate
        else canonical_matches subject ts (s # seen) (if s = subject then found @ [t] else found)))"

fun legacy_matches ::
  "subject_alias list \<Rightarrow> string \<Rightarrow> string \<Rightarrow> target list \<Rightarrow> target list \<Rightarrow> (binding_error, target list) result" where
  "legacy_matches aliases class_id subject [] found = Inr found"
| "legacy_matches aliases class_id subject (t # ts) found =
     (if \<not> blank (json_get t ''subject_id'') \<or> blank (json_get t ''student_id'')
      then legacy_matches aliases class_id subject ts found
      else bind_result (map_error (\<lambda>_. BindingIncoherent) (binding_text (target_field ''student_id'' t))) (\<lambda>l.
        let subjects = alias_subjects aliases class_id l
        in if 1 < length subjects then Inl LegacyAmbiguous
           else legacy_matches aliases class_id subject ts (if subjects = [subject] then found @ [t] else found)))"

record target_resolution =
  tgt_assignment_id :: string
  tgt_class_id :: string
  tgt_user_id :: string
  tgt_subject_id :: string
  tgt_target :: target
  tgt_revision :: string
  tgt_used_alias :: bool

definition resolve_assignment_target ::
  "(string \<Rightarrow> string) \<Rightarrow> pyval \<Rightarrow> binding_snapshot \<Rightarrow> json \<Rightarrow> (binding_error, target_resolution) result"
where
  "resolve_assignment_target sha256 authenticated snapshot assignment =
     bind_result (resolve_student_identity sha256 authenticated snapshot) (\<lambda>i.
     bind_result (assignment_parts assignment) (\<lambda>(aid, cid, targets).
     if cid \<notin> set (sid_class_ids i) then Inl ClassMismatch
     else bind_result (canonical_matches (sid_subject_id i) targets [] []) (\<lambda>canonical.
     if 1 < length canonical then Inl BindingDuplicate
     else case canonical of
       t # _ \<Rightarrow>
         Inr \<lparr>tgt_assignment_id = aid, tgt_class_id = cid, tgt_user_id = sid_user_id i,
              tgt_subject_id = sid_subject_id i, tgt_target = t, tgt_revision = sid_revision i,
              tgt_used_alias = False\<rparr>
     | [] \<Rightarrow>
         bind_result (legacy_matches (snp_aliases snapshot) cid (sid_subject_id i) targets []) (\<lambda>legacy.
         if 1 < length legacy then Inl LegacyAmbiguous
         else case legacy of
           [] \<Rightarrow> Inl TargetMissing
         | t # _ \<Rightarrow>
             Inr \<lparr>tgt_assignment_id = aid, tgt_class_id = cid, tgt_user_id = sid_user_id i,
                  tgt_subject_id = sid_subject_id i, tgt_target = t, tgt_revision = sid_revision i,
                  tgt_used_alias = True\<rparr>))))"

section \<open>Migrating legacy targets\<close>

text \<open>The subject the loop of the migration settles for a target.\<close>

definition target_subject ::
  "subject_alias list \<Rightarrow> string \<Rightarrow> target \<Rightarrow> (binding_error, string) result" where
  "target_subject aliases class_id t =
     (if truthy (json_get t ''subject_id'')
      then map_error (\<lambda>_. BindingIncoherent) (subject_text (target_field ''subject_id'' t))
      else bind_result (map_error (\<lambda>_. LegacyMissing) (binding_text (target_field ''student_id'' t))) (\<lambda>l.
        case alias_subjects aliases class_id l of
          [] \<Rightarrow> Inl LegacyMissing
        | [s] \<Rightarrow> Inr s
        | _ \<Rightarrow> Inl LegacyAmbiguous))"

fun migrate_targets ::
  "subject_alias list \<Rightarrow> string \<Rightarrow> target list \<Rightarrow> string list \<Rightarrow> (binding_error, target list) result" where
  "migrate_targets aliases class_id [] seen = Inr []"
| "migrate_targets aliases class_id (t # ts) seen =
     bind_result (target_subject aliases class_id t) (\<lambda>s.
     if s \<in> set seen then Inl LegacyAmbiguous
     else bind_result (migrate_targets aliases class_id ts (s # seen)) (\<lambda>ts'.
       Inr ((if truthy (json_get t ''subject_id'') then t else json_put ''subject_id'' (JStr s) t) # ts')))"

definition migrate_legacy_assignment_targets ::
  "json \<Rightarrow> subject_alias list \<Rightarrow> (binding_error, json) result" where
  "migrate_legacy_assignment_targets assignment aliases =
     bind_result (assignment_parts assignment) (\<lambda>(aid, cid, targets).
     bind_result (migrate_targets aliases cid targets []) (\<lambda>targets'.
       Inr (JObj (json_put ''targets'' (JList (map JObj targets')) (object_members assignment)))))"

section \<open>What the loops accept\<close>

definition named_subject :: "target \<Rightarrow> string option" where
  "named_subject t =
     (if blank (json_get t ''subject_id'') then None
      else case subject_text (target_field ''subject_id'' t) of Inl e \<Rightarrow> None | Inr s \<Rightarrow> Some s)"

definition aliased_subject :: "subject_alias list \<Rightarrow> string \<Rightarrow> target \<Rightarrow> string option" where
  "aliased_subject aliases class_id t =
     (if \<not> blank (json_get t ''subject_id'') \<or> blank (json_get t ''student_id'') then None
      else case binding_text (target_field ''student_id'' t) of
             Inl e \<Rightarrow> None
           | Inr l \<Rightarrow> (case alias_subjects aliases class_id l of [s] \<Rightarrow> Some s | _ \<Rightarrow> None))"

lemma canonical_matches_Inr:
  "canonical_matches subject ts seen found = Inr r \<longleftrightarrow>
     list_all (\<lambda>t. blank (json_get t ''subject_id'') \<or> named_subject t \<noteq> None) ts \<and>
     distinct (List.map_filter named_subject ts) \<and>
     set (List.map_filter named_subject ts) \<inter> set seen = {} \<and>
     r = found @ filter (\<lambda>t. named_subject t = Some subject) ts"
proof (induction ts arbitrary: seen found)
  case Nil
  then show ?case by (auto simp: List.map_filter_simps)
next
  case (Cons t ts)
  show ?case
  proof (cases "blank (json_get t ''subject_id'')")
    case True
    then show ?thesis by (simp add: Cons.IH named_subject_def List.map_filter_simps)
  next
    case False
    show ?thesis
    proof (cases "subject_text (target_field ''subject_id'' t)")
      case (Inl e)
      with False show ?thesis by (simp add: named_subject_def)
    next
      case (Inr s)
      with False have "named_subject t = Some s" by (simp add: named_subject_def)
      with False Inr show ?thesis by (auto simp: Cons.IH List.map_filter_simps)
    qed
  qed
qed

lemma legacy_matches_Inr:
  "legacy_matches aliases c subject ts found = Inr r \<Longrightarrow>
     r = found @ filter (\<lambda>t. aliased_subject aliases c t = Some subject) ts"
proof (induction ts arbitrary: found)
  case (Cons t ts)
  show ?case
  proof (cases "\<not> blank (json_get t ''subject_id'') \<or> blank (json_get t ''student_id'')")
    case True
    with Cons show ?thesis by (auto simp: aliased_subject_def)
  next
    case False
    with Cons.prems obtain l where l: "binding_text (target_field ''student_id'' t) = Inr l"
      by (auto simp: result_simps)
    with False have "aliased_subject aliases c t = (case alias_subjects aliases c l of [s] \<Rightarrow> Some s | _ \<Rightarrow> None)"
      by (simp add: aliased_subject_def)
    with False l Cons.prems show ?thesis
      by (auto simp: Let_def split: if_splits list.splits dest!: Cons.IH)
  qed
qed simp

text \<open>C30. The target a student gets is the student's: it belongs to an assignment of one of the
  student's classes, and it is the only target of the assignment that names the student's
  subject, or, when none does, the only one whose legacy identifier stands for that subject
  alone in that class.\<close>

theorem resolved_target_is_owned:
  assumes "resolve_assignment_target sha256 authenticated snapshot assignment = Inr r"
  shows "\<exists>i cid targets. resolve_student_identity sha256 authenticated snapshot = Inr i \<and>
    assignment_parts assignment = Inr (tgt_assignment_id r, cid, targets) \<and> cid \<in> set (sid_class_ids i) \<and>
    tgt_class_id r = cid \<and> tgt_user_id r = sid_user_id i \<and> tgt_subject_id r = sid_subject_id i \<and>
    (if tgt_used_alias r
     then filter (\<lambda>t. named_subject t = Some (sid_subject_id i)) targets = [] \<and>
       filter (\<lambda>t. aliased_subject (snp_aliases snapshot) cid t = Some (sid_subject_id i)) targets = [tgt_target r]
     else filter (\<lambda>t. named_subject t = Some (sid_subject_id i)) targets = [tgt_target r])"
proof -
  obtain i aid cid targets where i: "resolve_student_identity sha256 authenticated snapshot = Inr i"
      and parts: "assignment_parts assignment = Inr (aid, cid, targets)" and c: "cid \<in> set (sid_class_ids i)"
    using assms by (auto simp: resolve_assignment_target_def result_simps split: if_splits)
  have one: "length xs \<le> 1 \<Longrightarrow> xs = t # ys \<Longrightarrow> xs = [t]" for xs ys and t :: target by simp
  from assms i parts c show ?thesis
    by (auto simp: resolve_assignment_target_def result_simps canonical_matches_Inr not_less
        split: if_splits list.splits dest!: legacy_matches_Inr one)
qed

section \<open>Migration keeps the owner\<close>

definition settled_subject :: "subject_alias list \<Rightarrow> string \<Rightarrow> target \<Rightarrow> string" where
  "settled_subject aliases c t = (case target_subject aliases c t of Inl e \<Rightarrow> [] | Inr s \<Rightarrow> s)"

definition migrated_target :: "subject_alias list \<Rightarrow> string \<Rightarrow> target \<Rightarrow> target" where
  "migrated_target aliases c t =
     (if truthy (json_get t ''subject_id'') then t
      else json_put ''subject_id'' (JStr (settled_subject aliases c t)) t)"

lemma migrate_targets_Inr:
  "migrate_targets aliases c ts seen = Inr ts' \<longleftrightarrow>
     list_all (\<lambda>t. target_subject aliases c t = Inr (settled_subject aliases c t)) ts \<and>
     distinct (map (settled_subject aliases c) ts) \<and>
     set (map (settled_subject aliases c) ts) \<inter> set seen = {} \<and> ts' = map (migrated_target aliases c) ts"
proof (induction ts arbitrary: seen ts')
  case (Cons t ts)
  show ?case
  proof (cases "target_subject aliases c t")
    case (Inr s)
    then have "settled_subject aliases c t = s" by (simp add: settled_subject_def)
    with Inr show ?thesis by (auto simp: Cons.IH result_simps migrated_target_def)
  qed simp
qed auto

lemma truthy_subject:
  "subject_text (json_value v) = Inr s \<Longrightarrow> truthy v \<longleftrightarrow> \<not> blank v"
  by (cases v) (auto simp: blank_def subject_text_def binding_text_def required_text_def result_simps Let_def)

lemma subject_shape_nonempty: "subject_shape s \<Longrightarrow> s \<noteq> []"
  by (auto simp: subject_shape_def)

lemma single_Inr:
  "(case xs of [] \<Rightarrow> Inl e | [x] \<Rightarrow> Inr x | x # y # ys \<Rightarrow> Inl e') = Inr s \<longleftrightarrow> xs = [s]"
  by (cases xs; cases "tl xs") auto

lemma migrated_names:
  assumes "list_all valid_alias aliases" "target_subject aliases c t = Inr s"
  shows "named_subject (migrated_target aliases c t) = Some s"
    "\<not> blank (json_get (migrated_target aliases c t) ''subject_id'')"
proof -
  have "named_subject (migrated_target aliases c t) = Some s \<and>
      \<not> blank (json_get (migrated_target aliases c t) ''subject_id'')"
  proof (cases "truthy (json_get t ''subject_id'')")
    case True
    with assms(2) have "subject_text (json_value (json_get t ''subject_id'')) = Inr s"
      by (simp add: target_subject_def target_field_def)
    with True truthy_subject [OF this] show ?thesis
      by (simp add: migrated_target_def named_subject_def target_field_def)
  next
    case False
    with assms(2) obtain l where "alias_subjects aliases c l = [s]"
      by (auto simp: target_subject_def result_simps single_Inr)
    then have "s \<in> set (alias_subjects aliases c l)" by simp
    then have "s \<in> als_subject_id ` set aliases" by (auto simp: alias_subjects_def)
    then have "clean_text s" "subject_shape s" using assms(1) by (auto simp: list_all_iff valid_alias_def)
    with False assms(2) show ?thesis
      by (simp add: migrated_target_def named_subject_def target_field_def settled_subject_def blank_def
          subject_text_self subject_shape_nonempty)
  qed
  then show "named_subject (migrated_target aliases c t) = Some s"
    "\<not> blank (json_get (migrated_target aliases c t) ''subject_id'')" by auto
qed

lemma settled_named:
  assumes "target_subject aliases c t = Inr s"
  shows "named_subject t = Some u \<Longrightarrow> s = u \<and> migrated_target aliases c t = t"
    "aliased_subject aliases c t = Some u \<Longrightarrow> s = u \<and> migrated_target aliases c t = json_put ''subject_id'' (JStr s) t"
proof -
  assume "named_subject t = Some u"
  then have u: "\<not> blank (json_get t ''subject_id'')" "subject_text (json_value (json_get t ''subject_id'')) = Inr u"
    by (auto simp: named_subject_def target_field_def split: if_splits sum.splits)
  with truthy_subject [OF u(2)] assms show "s = u \<and> migrated_target aliases c t = t"
    by (simp add: target_subject_def target_field_def migrated_target_def)
next
  assume "aliased_subject aliases c t = Some u"
  then obtain l where l: "blank (json_get t ''subject_id'')" "binding_text (target_field ''student_id'' t) = Inr l"
      "alias_subjects aliases c l = [u]"
    by (auto simp: aliased_subject_def split: if_splits sum.splits list.splits)
  moreover from l(1) have "\<not> truthy (json_get t ''subject_id'')" by (auto simp: blank_def)
  ultimately show "s = u \<and> migrated_target aliases c t = json_put ''subject_id'' (JStr s) t"
    using assms by (simp add: target_subject_def migrated_target_def settled_subject_def)
qed

lemma filter_distinct_key:
  "distinct (map f ts) \<Longrightarrow> t \<in> set ts \<Longrightarrow> filter (\<lambda>x. f x = f t) ts = [t]"
  by (induction ts) (auto simp: filter_empty_conv image_iff)

lemma migrated_parts:
  assumes "assignment_parts assignment = Inr (aid, cid, targets)" "length targets' = length targets"
  shows "assignment_parts (JObj (json_put ''targets'' (JList (map JObj targets')) (object_members assignment))) =
    Inr (aid, cid, targets')"
proof -
  obtain ms where "assignment = JObj ms" using assms(1) by (cases assignment) (auto simp: assignment_parts_def)
  moreover from this assms(1) obtain xs where "json_get ms ''targets'' = JList xs"
    by (cases "json_get ms ''targets''") (auto simp: assignment_parts_def result_simps)
  ultimately show ?thesis
    using assms
    by (auto simp: assignment_parts_def result_simps is_object_def list_all_iff comp_def split: if_splits)
qed

text \<open>
  The aliases of a snapshot are the student's own, while a migration is given the aliases of all students:
  what a snapshot has to know of these.
\<close>

definition own_aliases :: "(string \<Rightarrow> string) \<Rightarrow> pyval \<Rightarrow> binding_snapshot \<Rightarrow> subject_alias list \<Rightarrow> bool" where
  "own_aliases sha256 authenticated snapshot aliases \<longleftrightarrow>
     (\<forall>i c l. resolve_student_identity sha256 authenticated snapshot = Inr i \<longrightarrow>
        alias_subjects (snp_aliases snapshot) c l = filter (\<lambda>s. s = sid_subject_id i) (alias_subjects aliases c l))"

lemma own_aliased:
  assumes "own_aliases sha256 authenticated snapshot aliases"
    "resolve_student_identity sha256 authenticated snapshot = Inr i"
    "aliased_subject (snp_aliases snapshot) c t = Some (sid_subject_id i)" "target_subject aliases c t = Inr s"
  shows "aliased_subject aliases c t = Some (sid_subject_id i)"
proof -
  let ?S = "sid_subject_id i"
  obtain l where l: "blank (json_get t ''subject_id'')" "\<not> blank (json_get t ''student_id'')"
      "binding_text (target_field ''student_id'' t) = Inr l" "alias_subjects (snp_aliases snapshot) c l = [?S]"
    using assms(3) by (auto simp: aliased_subject_def split: if_splits sum.splits list.splits)
  then have S: "filter (\<lambda>s. s = ?S) (alias_subjects aliases c l) = [?S]" using assms(1,2) by (auto simp: own_aliases_def)
  have "\<not> truthy (json_get t ''subject_id'')" using l(1) by (auto simp: blank_def)
  with assms(4) l(3) have "alias_subjects aliases c l = [s]" by (simp add: target_subject_def single_Inr)
  with S l(1-3) show ?thesis by (auto simp: aliased_subject_def split: if_splits)
qed

lemma migrated_resolution:
  assumes "list_all valid_alias aliases"
    and mig: "migrate_legacy_assignment_targets assignment aliases = Inr assignment'"
    and own: "own_aliases sha256 authenticated snapshot aliases"
    and res: "resolve_assignment_target sha256 authenticated snapshot assignment = Inr r"
  shows "resolve_assignment_target sha256 authenticated snapshot assignment' =
    Inr (r\<lparr>tgt_used_alias := False,
      tgt_target := if tgt_used_alias r then json_put ''subject_id'' (JStr (tgt_subject_id r)) (tgt_target r)
                    else tgt_target r\<rparr>)"
proof -
  let ?as = aliases
  obtain i aid cid targets where i: "resolve_student_identity sha256 authenticated snapshot = Inr i"
      and parts: "assignment_parts assignment = Inr (aid, cid, targets)" and c: "cid \<in> set (sid_class_ids i)"
    using res by (auto simp: resolve_assignment_target_def result_simps split: if_splits)
  let ?S = "sid_subject_id i" and ?m = "migrated_target ?as cid" and ?s = "settled_subject ?as cid"
  have ts: "list_all (\<lambda>t. target_subject ?as cid t = Inr (?s t)) targets" "distinct (map ?s targets)"
    and parts': "assignment_parts assignment' = Inr (aid, cid, map ?m targets)"
    using mig parts
    using migrated_parts [OF parts, of "map ?m targets"]
    by (auto simp: migrate_legacy_assignment_targets_def result_simps migrate_targets_Inr)
  have names: "named_subject (?m t) = Some (?s t)" "\<not> blank (json_get (?m t) ''subject_id'')" if "t \<in> set targets" for t
    using migrated_names [OF assms(1)] ts(1) that by (auto simp: list_all_iff)
  have canonical: "canonical_matches ?S (map ?m targets) [] [] = Inr (map ?m (filter (\<lambda>t. ?s t = ?S) targets))"
  proof -
    have "List.map_filter named_subject (map ?m targets) = map ?s targets"
      using names by (simp add: List.map_filter_def comp_def cong: map_cong)
    moreover have "filter (\<lambda>t. named_subject t = Some ?S) (map ?m targets) = map ?m (filter (\<lambda>t. ?s t = ?S) targets)"
      using names by (simp add: filter_map comp_def cong: filter_cong)
    ultimately show ?thesis using ts(2) names by (auto simp: canonical_matches_Inr list_all_iff)
  qed
  have one: "length xs \<le> 1 \<Longrightarrow> xs = t # ys \<Longrightarrow> xs = [t]" for xs ys and t :: target by simp
  have pick: "filter P xs = t # ys \<Longrightarrow> t \<in> set xs \<and> P t" "t # ys = filter P xs \<Longrightarrow> t \<in> set xs \<and> P t"
    for P xs ys and t :: target
    by (metis (no_types, lifting) list.set_intros(1) mem_Collect_eq set_filter)+
  obtain b where b_def: "b = tgt_used_alias r" by simp
  obtain t where t: "t \<in> set targets"
      and r: "r = \<lparr>tgt_assignment_id = aid, tgt_class_id = cid, tgt_user_id = sid_user_id i, tgt_subject_id = ?S,
        tgt_target = t, tgt_revision = sid_revision i, tgt_used_alias = b\<rparr>"
      and b: "if b then aliased_subject (snp_aliases snapshot) cid t = Some ?S else named_subject t = Some ?S"
    using res i parts c unfolding b_def
    by (auto simp: resolve_assignment_target_def result_simps canonical_matches_Inr not_less
        split: if_splits list.splits dest!: legacy_matches_Inr pick)
  have st: "?s t = ?S" "?m t = (if b then json_put ''subject_id'' (JStr ?S) t else t)"
    using settled_named [of ?as cid t "?s t"] own_aliased [OF own i] ts(1) t b by (auto simp: list_all_iff split: if_splits)
  then have "filter (\<lambda>x. ?s x = ?S) targets = [t]" using filter_distinct_key [OF ts(2) t] by simp
  with i parts' c canonical st r show ?thesis
    by (simp add: resolve_assignment_target_def)
qed

lemma matches_not_missing:
  "canonical_matches subject ts seen found \<noteq> Inl TargetMissing"
  "legacy_matches aliases c subject ts found' \<noteq> Inl TargetMissing"
  by (induction ts arbitrary: seen found found') (auto simp: result_simps map_error_def Let_def split: sum.splits)

lemma missing_stays:
  assumes mig: "migrate_legacy_assignment_targets assignment aliases = Inr assignment'"
    and "list_all valid_alias aliases" "own_aliases sha256 authenticated snapshot aliases"
    and res: "resolve_assignment_target sha256 authenticated snapshot assignment = Inl TargetMissing"
    and st: "resolve_student_identity sha256 authenticated snapshot = Inr i"
  shows "resolve_assignment_target sha256 authenticated snapshot assignment' = Inl TargetMissing"
proof -
  obtain aid cid targets where parts: "assignment_parts assignment = Inr (aid, cid, targets)"
    using mig by (auto simp: migrate_legacy_assignment_targets_def result_simps)
  let ?S = "sid_subject_id i" and ?m = "migrated_target aliases cid" and ?s = "settled_subject aliases cid"
  have ts: "target_subject aliases cid t = Inr (?s t)" if "t \<in> set targets" for t
    using mig parts that by (auto simp: migrate_legacy_assignment_targets_def result_simps migrate_targets_Inr list_all_iff)
  have new: "distinct (map ?s targets)" "assignment_parts assignment' = Inr (aid, cid, map ?m targets)"
    using mig parts migrated_parts [OF parts, of "map ?m targets"]
    by (auto simp: migrate_legacy_assignment_targets_def result_simps migrate_targets_Inr)
  obtain c where c: "cid \<in> set (sid_class_ids i)" "canonical_matches ?S targets [] [] = Inr []"
      "legacy_matches (snp_aliases snapshot) cid ?S targets [] = Inr []"
    using res st parts
    by (auto simp: resolve_assignment_target_def result_simps matches_not_missing neq_Nil_conv split: if_splits list.splits)
  have none: "?s t \<noteq> ?S" if t: "t \<in> set targets" for t
  proof
    assume S: "?s t = ?S"
    have can: "blank (json_get t ''subject_id'') \<or> named_subject t \<noteq> None" "named_subject t \<noteq> Some ?S"
      using c(2) t by (auto simp: canonical_matches_Inr list_all_iff empty_filter_conv)
    have leg: "aliased_subject (snp_aliases snapshot) cid t \<noteq> Some ?S"
      using legacy_matches_Inr [OF c(3)] t by (auto simp: empty_filter_conv)
    show False
    proof (cases "named_subject t")
      case (Some u)
      with settled_named(1) [OF ts [OF t] Some] S can(2) show False by simp
    next
      case None
      with can(1) have b: "blank (json_get t ''subject_id'')" by simp
      then have "\<not> truthy (json_get t ''subject_id'')" by (auto simp: blank_def)
      with ts [OF t] S obtain l where l: "binding_text (target_field ''student_id'' t) = Inr l" "alias_subjects aliases cid l = [?S]"
        by (auto simp: target_subject_def result_simps single_Inr)
      have "alias_subjects (snp_aliases snapshot) cid l = [?S]" using assms(3) st l(2) by (auto simp: own_aliases_def)
      moreover have "\<not> blank (json_get t ''student_id'')"
        using l(1) by (auto simp: blank_def target_field_def binding_text_def required_text_def result_simps Let_def)
      ultimately show False using leg b l(1) by (simp add: aliased_subject_def)
    qed
  qed
  have names: "named_subject (?m t) = Some (?s t)" "\<not> blank (json_get (?m t) ''subject_id'')" if "t \<in> set targets" for t
    using migrated_names [OF assms(2) ts [OF that]] by simp_all
  have "List.map_filter named_subject (map ?m targets) = map ?s targets"
    using names by (simp add: List.map_filter_def comp_def cong: map_cong)
  then have "canonical_matches ?S (map ?m targets) [] [] = Inr []"
    using new(1) names none by (auto simp: canonical_matches_Inr list_all_iff filter_empty_conv)
  moreover have "legacy_matches (snp_aliases snapshot) cid ?S (map ?m ts') [] = Inr []" if "set ts' \<subseteq> set targets" for ts'
    using that names by (induction ts') simp_all
  ultimately show ?thesis using st new(2) c(1) by (simp add: resolve_assignment_target_def)
qed

end
