(* ===== verification/Store_Migration.thy ===== *)
theory Store_Migration
  imports Store_Bindings Assignment_Target
begin








end
