(* ===== verification/Sample_Classes.thy ===== *)
theory Sample_Classes
  imports Sample_School Store_Migration
begin

text \<open>The properties of the class directory, the group mappings and the subject bindings on concrete
  inputs.\<close>

section \<open>A class with a GitHub team\<close>

definition the_subject :: string where
  "the_subject = ''subject:'' @ replicate 32 (CHR ''a'')"

definition team_mapping :: group_mapping where
  "team_mapping = \<lparr>map_provider = ''github'', map_organization = ''7'', map_group = ''70'', map_class_id = ''1A'',
     map_created_at = 15, map_display_name = None, map_updated_at = 15\<rparr>"

definition student_github :: external_identity where
  "student_github = \<lparr>ext_user_id = ''stu'', ext_provider = ''github'', ext_subject = ''77'', ext_linked_at = 60,
     ext_email = None, ext_username = None\<rparr>"

definition pending_github :: external_identity where
  "pending_github = \<lparr>ext_user_id = ''new'', ext_provider = ''github'', ext_subject = ''88'', ext_linked_at = 70,
     ext_email = None, ext_username = None\<rparr>"

definition manual_membership :: class_membership where
  "manual_membership = \<lparr>mem_user_id = ''stu'', mem_class_id = ''1A'', mem_role = MemberStudent, mem_joined_at = 50,
     mem_source_provider = None, mem_source_group = None\<rparr>"

definition team_membership :: "string \<Rightarrow> class_membership" where
  "team_membership i = \<lparr>mem_user_id = i, mem_class_id = ''1A'', mem_role = MemberStudent, mem_joined_at = 200,
     mem_source_provider = Some ''github'', mem_source_group = Some ''70''\<rparr>"

definition the_binding :: subject_binding where
  "the_binding = \<lparr>bnd_subject_id = the_subject, bnd_user_id = ''stu'', bnd_active = True, bnd_revision = 1,
     bnd_created_at = 80, bnd_updated_at = 80\<rparr>"

definition the_alias :: subject_alias where
  "the_alias = \<lparr>als_class_id = ''1A'', als_legacy_id = ''old7'', als_subject_id = the_subject, als_created_at = 80\<rparr>"

definition classroom :: identity_db where
  "classroom = school\<lparr>db_identities := [some_link, student_github, pending_github],
     db_generations := [(''google'', ''42'', 40), (''github'', ''77'', 60), (''github'', ''88'', 70)],
     db_mappings := [team_mapping], db_map_generations := [(map_provider_key team_mapping, 15)]\<rparr>"

definition enrolled_classroom :: identity_db where
  "enrolled_classroom = classroom\<lparr>db_memberships := [manual_membership], db_bindings := [the_binding],
     db_aliases := [the_alias]\<rparr>"

lemma classrooms_ok: "db_ok classroom" "db_ok enrolled_classroom"
  by code_simp+

section \<open>Group mappings and memberships\<close>

definition team_sync :: github_sync where
  "team_sync = \<lparr>gs_user_id = ''stu'', gs_desired = [team_membership ''stu''], gs_user_revision = 20, gs_subject = ''77'',
     gs_linked_at = 60, gs_memberships = [], gs_mappings = [team_mapping], gs_group_keys = [(''7'', ''70'')],
     gs_captured_at = 190, gs_max_age = 100, gs_skew = 5, gs_classes = [some_class]\<rparr>"

theorem sync_follows_mappings_witness:
  "\<exists>d'. synchronize_github_memberships 200 team_sync classroom = (Inr (), d') \<and>
     d' = classroom\<lparr>db_memberships := [team_membership ''stu'']\<rparr>"
proof -
  have "run_ok (synchronize_github_memberships 200 team_sync classroom)" by code_simp
  then obtain d' where run: "synchronize_github_memberships 200 team_sync classroom = (Inr (), d')"
    using run_okD by fastforce
  from sync_follows_mappings [OF run] run show ?thesis
    by (simp add: team_sync_def classroom_def school_def)
qed

definition team_onboarding :: github_onboarding where
  "team_onboarding = \<lparr>go_membership = team_membership ''new'', go_user_revision = 30, go_subject = ''88'',
     go_linked_at = 70, go_mapping = team_mapping, go_group_keys = [(''7'', ''70'')], go_captured_at = 190,
     go_max_age = 100, go_skew = 5, go_class_revision = 10\<rparr>"

theorem onboarding_effect_witness:
  "\<exists>d'. onboard_pending_user 200 team_onboarding classroom = (Inr (), d') \<and>
     lookup_user d' ''new'' = Some (some_pending\<lparr>acc_role := RoleStudent, acc_updated_at := 200\<rparr>)"
proof -
  have "run_ok (onboard_pending_user 200 team_onboarding classroom)" by code_simp
  then obtain d' where run: "onboard_pending_user 200 team_onboarding classroom = (Inr (), d')"
    using run_okD by fastforce
  have i: "''new'' = mem_user_id (go_membership team_onboarding)" by code_simp
  have "lookup_user classroom ''new'' = Some some_pending" "mem_joined_at (go_membership team_onboarding) = 200"
    by code_simp+
  with onboarding_effect [OF classrooms_ok(1) run i] run show ?thesis by auto
qed

text \<open>The storage accepts a \<^verbatim>\<open>joined_at\<close> that equals the revision: the role changes, the revision does not.\<close>

lemma undated_onboarding:
  "\<exists>d'. storage_step classroom d' \<and> lookup_user classroom ''new'' = Some some_pending \<and>
     lookup_user d' ''new'' = Some (some_pending\<lparr>acc_role := RoleStudent\<rparr>) \<and> acc_role some_pending = RolePending"
proof -
  let ?m = "team_membership ''new''\<lparr>mem_joined_at := 30\<rparr>"
  let ?g = "team_onboarding\<lparr>go_membership := ?m\<rparr>"
  let ?d = "snd (onboard_pending_user 200 ?g classroom)"
  have "valid_membership (go_membership ?g)" by code_simp
  from storage_op.onboarded [of ?g False, OF this _ prod.collapse [symmetric]] have "storage_step classroom ?d" by simp
  moreover have "lookup_user classroom ''new'' = Some some_pending" "acc_role some_pending = RolePending"
    "lookup_user ?d ''new'' = Some (some_pending\<lparr>acc_role := RoleStudent\<rparr>)"
    by code_simp+
  ultimately show ?thesis by blast
qed

definition second_mapping :: group_mapping where
  "second_mapping = team_mapping\<lparr>map_group := ''71'', map_created_at := 300, map_updated_at := 300\<rparr>"

theorem mapping_generations_grow_witness:
  "\<exists>d1 d2. save_external_group_mapping second_mapping None classroom = (Inr (), d1) \<and>
     delete_external_group_mapping ''GitHub'' ''7'' ''71'' 300 300 d1 = (Inr True, d2) \<and>
     save_external_group_mapping second_mapping None d2 = (Inl MappingGenerationConflict, d2)"
proof -
  let ?r = "save_external_group_mapping second_mapping None classroom"
  let ?q = "delete_external_group_mapping ''GitHub'' ''7'' ''71'' 300 300 (snd ?r)"
  have r: "run_ok ?r" "fst ?q = Inr True" "db_ok (snd ?r)" "map_updated_at second_mapping = map_created_at second_mapping"
    by code_simp+
  obtain d1 where d1: "?r = (Inr (), d1)" using run_okD [OF r(1)] by fastforce
  obtain d2 where d2: "delete_external_group_mapping ''GitHub'' ''7'' ''71'' 300 300 d1 = (Inr True, d2)"
    using r(2) d1 by (cases "delete_external_group_mapping ''GitHub'' ''7'' ''71'' 300 300 d1") simp
  have ok: "db_ok d1" using r(3) d1 by simp
  have "storage_steps d1 d2" using d2 by (blast intro: storage_op.mapping_deleted)
  from mapping_generations_grow [OF ok disjI1 [OF d1] this refl order_refl r(4)] d1 d2 show ?thesis by blast
qed

section \<open>Subjects\<close>

definition constant_hash :: "string \<Rightarrow> string" where
  "constant_hash t = replicate 64 (CHR ''f'')"

lemma constant_hash_shape: "revision_shape (''sha256:'' @ constant_hash t)"
proof -
  have "revision_shape (''sha256:'' @ replicate 64 (CHR ''f''))" by code_simp
  then show ?thesis by (simp add: constant_hash_def)
qed

definition the_snapshot :: binding_snapshot where
  "the_snapshot = \<lparr>snp_account = Some some_student, snp_bindings = [the_binding],
     snp_memberships = [manual_membership], snp_classes = [some_class], snp_aliases = [the_alias],
     snp_revision = ''sha256:'' @ replicate 64 (CHR ''f'')\<rparr>"

lemma the_snapshot_read:
  "read_binding_snapshot constant_hash ''stu'' enrolled_classroom = (Inr the_snapshot, enrolled_classroom)"
  by code_simp

definition the_identity :: student_identity where
  "the_identity = \<lparr>sid_user_id = ''stu'', sid_subject_id = the_subject, sid_class_ids = [''1A''],
     sid_revision = ''sha256:'' @ replicate 64 (CHR ''f'')\<rparr>"

theorem stored_student_iff_witness:
  "resolve_student_identity constant_hash (PyStr ''stu'') the_snapshot = Inr the_identity"
proof -
  have "\<exists>u b. lookup_user enrolled_classroom ''stu'' = Some u \<and> acc_active u \<and> acc_role u = RoleStudent \<and>
       b \<in> set (db_bindings enrolled_classroom) \<and> bnd_user_id b = ''stu'' \<and> bnd_active b \<and>
       list_all (\<lambda>m. mem_user_id m = ''stu'' \<longrightarrow> mem_role m = MemberStudent \<and>
         class_open enrolled_classroom (mem_class_id m)) (db_memberships enrolled_classroom) \<and>
       the_identity = \<lparr>sid_user_id = ''stu'', sid_subject_id = bnd_subject_id b,
            sid_class_ids = sort (map mem_class_id (filter (\<lambda>m. mem_user_id m = ''stu'') (db_memberships enrolled_classroom))),
            sid_revision = snp_revision the_snapshot\<rparr>"
    by (intro exI [of _ some_student] exI [of _ the_binding]) code_simp
  then show ?thesis by (rule stored_student_iff [OF classrooms_ok(2) constant_hash_shape the_snapshot_read, THEN iffD2])
qed

theorem subject_is_permanent_witness:
  "\<exists>d'. storage_steps enrolled_classroom d' \<and> d' \<noteq> enrolled_classroom \<and>
     (\<forall>c \<in> set (db_bindings d'). bnd_subject_id c = the_subject \<longleftrightarrow> bnd_user_id c = ''stu'')"
proof -
  let ?b = "the_binding\<lparr>bnd_active := False, bnd_revision := 2, bnd_updated_at := 90\<rparr>"
  let ?d = "snd (save_subject_binding ?b 1 enrolled_classroom)"
  have v: "valid_binding ?b" "?d \<noteq> enrolled_classroom" "the_binding \<in> set (db_bindings enrolled_classroom)"
    by code_simp+
  have "storage_step enrolled_classroom ?d"
    by (rule storage_op.binding_saved [OF v(1) prod.collapse [symmetric]])
  then have steps: "storage_steps enrolled_classroom ?d" by blast
  have ids: "bnd_subject_id the_binding = the_subject" "bnd_user_id the_binding = ''stu''"
    by (simp_all add: the_binding_def)
  from subject_is_permanent [OF classrooms_ok(2) steps v(3)] steps v(2) show ?thesis unfolding ids by blast
qed

section \<open>Assignment targets\<close>

definition legacy_target :: target where
  "legacy_target = [(''student_id'', JStr ''old7''), (''repo'', JStr ''r7'')]"

definition legacy_assignment :: json where
  "legacy_assignment = JObj [(''id'', JStr ''a1''), (''class_id'', JStr ''1A''), (''targets'', JList [JObj legacy_target])]"

definition legacy_resolution :: target_resolution where
  "legacy_resolution = \<lparr>tgt_assignment_id = ''a1'', tgt_class_id = ''1A'', tgt_user_id = ''stu'',
     tgt_subject_id = the_subject, tgt_target = legacy_target,
     tgt_revision = ''sha256:'' @ replicate 64 (CHR ''f''), tgt_used_alias = True\<rparr>"

lemma legacy_resolved:
  "resolve_assignment_target constant_hash (PyStr ''stu'') the_snapshot legacy_assignment = Inr legacy_resolution"
  by code_simp

theorem resolved_target_is_owned_witness:
  "\<exists>i cid targets. resolve_student_identity constant_hash (PyStr ''stu'') the_snapshot = Inr i \<and>
    assignment_parts legacy_assignment = Inr (''a1'', cid, targets) \<and> cid \<in> set (sid_class_ids i) \<and>
    filter (\<lambda>t. aliased_subject [the_alias] cid t = Some (sid_subject_id i)) targets = [legacy_target]"
proof -
  have "tgt_used_alias legacy_resolution" "tgt_target legacy_resolution = legacy_target"
    "tgt_assignment_id legacy_resolution = ''a1''" "snp_aliases the_snapshot = [the_alias]"
    by (simp_all add: legacy_resolution_def the_snapshot_def)
  with resolved_target_is_owned [OF legacy_resolved] show ?thesis by auto
qed








end
