(* ===== verification/Auth_Pairings.thy ===== *)
theory Auth_Pairings
  imports Auth_Sessions
begin

text \<open>
  \<^verbatim>\<open>PairingService\<close> and \<^verbatim>\<open>TuiPairingSessionService\<close>: one-time codes that a browser user
  authorizes and a terminal exchanges for a session. Proved against the pairing contract and
  transferred to the SQLite storage.
\<close>

section \<open>PairingService\<close>

record 's pairing_service =
  ps_storage :: "'s pairing_port"
  ps_pepper :: pyval
  ps_clock :: "'s source"
  ps_ttl :: int
  ps_code :: "'s source"
  ps_identifier :: "'s source"
  ps_hash :: hashing

definition valid_pepper :: "pyval \<Rightarrow> bool" where
  "valid_pepper pepper = (case pepper of PyBytes key \<Rightarrow> 32 \<le> length key | _ \<Rightarrow> False)"

definition make_pairing_service ::
  "'s pairing_port \<Rightarrow> pyval \<Rightarrow> 's source \<Rightarrow> int \<Rightarrow> 's source \<Rightarrow> 's source \<Rightarrow> hashing \<Rightarrow>
   (auth_error, 's pairing_service) result"
where
  "make_pairing_service storage pepper clock ttl code_factory pairing_id_factory h =
     (case positive_ttl ttl of
        Inl e \<Rightarrow> Inl AuthApplication
      | Inr duration \<Rightarrow>
          if \<not> valid_pepper pepper then Inl AuthApplication
          else Inr \<lparr>ps_storage = storage, ps_pepper = pepper, ps_clock = clock, ps_ttl = duration,
                    ps_code = code_factory, ps_identifier = pairing_id_factory, ps_hash = h\<rparr>)"

fun issue_pairing_attempts ::
  "nat \<Rightarrow> 's pairing_service \<Rightarrow> instant \<Rightarrow> ('s, tui_pairing \<times> string) auth_action" where
  "issue_pairing_attempts 0 srv now = raise_act CredentialGeneration"
| "issue_pairing_attempts (Suc n) srv now =
     bind_act (draw (ps_code srv)) (\<lambda>raw_code.
     bind_act (lift_act (generated_text 8 raw_code)) (\<lambda>code.
     bind_act (draw (ps_identifier srv)) (\<lambda>raw_id.
     bind_act (lift_act (generated_text 1 raw_id)) (\<lambda>pairing_id.
     bind_act (lift_act (pairing_code_digest (ps_hash srv) (PyStr code) (ps_pepper srv))) (\<lambda>digest.
     bind_act (lift_act (plus_duration now (ps_ttl srv))) (\<lambda>expires.
     bind_act (lift_identity (make_tui_pairing (PyStr pairing_id) (PyStr digest) (PyStr ''pending'')
       (utc_datetime now) (utc_datetime expires) PyNone PyNone PyNone PyNone PyNone)) (\<lambda>pairing.
     try_act (pp_create_pairing (ps_storage srv) pairing)
       (\<lambda>e. if is_conflict e then issue_pairing_attempts n srv now else raise_act (FromStorage e))
       (\<lambda>_. return_act (pairing, code)))))))))"

definition issue_pairing :: "'s pairing_service \<Rightarrow> ('s, tui_pairing \<times> string) auth_action" where
  "issue_pairing srv = bind_act (read_clock (ps_clock srv)) (issue_pairing_attempts max_attempts srv)"

definition require_secret :: "tui_pairing option \<Rightarrow> string \<Rightarrow> ('s, tui_pairing) auth_action" where
  "require_secret found digest =
     (case found of
        None \<Rightarrow> raise_act InvalidCredential
      | Some p \<Rightarrow> if par_code_digest p \<noteq> digest then raise_act InvalidCredential else return_act p)"

definition require_current :: "'s pairing_service \<Rightarrow> tui_pairing \<Rightarrow> instant \<Rightarrow> ('s, unit) auth_action" where
  "require_current srv p now =
     (if now < par_created_at p then raise_act PairingState
      else if (case par_authorized_at p of None \<Rightarrow> False | Some t \<Rightarrow> now < t)
      then raise_act ConcurrentStateChange
      else if par_expires_at p \<le> now then
        bind_act (lift_identity (expire_pairing p (utc_datetime now))) (\<lambda>expired.
        try_act (pp_save_pairing (ps_storage srv) expired)
          (\<lambda>e. if is_conflict e \<or> e = StorageNotFound then raise_act PairingExpiredState
                else raise_act (FromStorage e))
          (\<lambda>_. raise_act PairingExpiredState))
      else return_act ())"

definition save_transition ::
  "'s pairing_service \<Rightarrow> tui_pairing \<Rightarrow> bool \<Rightarrow> instant option \<Rightarrow> ('s, unit) auth_action" where
  "save_transition srv p require_active revision =
     (if require_active \<and> revision = None then raise_act AuthApplication
      else try_act
        (if require_active then pp_save_for_user (ps_storage srv) p (the revision)
         else pp_save_pairing (ps_storage srv) p)
        (\<lambda>e. if e = PairingExpiredConflict then raise_act PairingExpiredState
              else if is_conflict e \<or> e = StorageNotFound then
                bind_act (uncaught (pp_read_pairing (ps_storage srv) (par_pairing_id p))) (\<lambda>current.
                if (case current of None \<Rightarrow> False | Some q \<Rightarrow> par_status q = PairExpired)
                then raise_act PairingExpiredState
                else (case (if require_active then par_user_id p else None) of
                        None \<Rightarrow> raise_act ConcurrentStateChange
                      | Some i \<Rightarrow>
                          bind_act (uncaught (pp_read_user (ps_storage srv) i)) (\<lambda>found.
                          case found of
                            None \<Rightarrow> raise_act InvalidCredential
                          | Some account \<Rightarrow>
                              bind_act (lift_identity (require_active_account account)) (\<lambda>_.
                                raise_act ConcurrentStateChange))))
              else raise_act (FromStorage e))
        return_act)"

definition authorize_code ::
  "'s pairing_service \<Rightarrow> pyval \<Rightarrow> string \<Rightarrow> string option \<Rightarrow> ('s, tui_pairing) auth_action" where
  "authorize_code srv code user_id required_role =
     bind_act (lift_act (pairing_digest_for_verification (ps_hash srv) code (ps_pepper srv))) (\<lambda>digest.
     bind_act (uncaught (pp_read_by_code (ps_storage srv) digest)) (\<lambda>found.
     bind_act (read_clock (ps_clock srv)) (\<lambda>now.
     bind_act (require_secret found digest) (\<lambda>pairing.
     if par_status pairing = PairExpired then raise_act PairingExpiredState
     else if par_status pairing \<noteq> PairPending then raise_act PairingState
     else bind_act (require_current srv pairing now) (\<lambda>_.
     bind_act (uncaught (pp_read_user (ps_storage srv) user_id)) (\<lambda>found_user.
     case found_user of
       None \<Rightarrow> raise_act InvalidCredential
     | Some account \<Rightarrow>
         bind_act (lift_identity (require_active_account account)) (\<lambda>_.
         if (case required_role of None \<Rightarrow> False | Some r \<Rightarrow> role_text (acc_role account) \<noteq> r)
         then raise_act InvalidCredential
         else bind_act (lift_identity (authorize_pairing pairing (PyStr (acc_user_id account)) (utc_datetime now)))
           (\<lambda>authorized.
         bind_act (save_transition srv authorized True (Some (acc_updated_at account))) (\<lambda>_.
           return_act authorized))))))))) "

definition prepare_consumption ::
  "'s pairing_service \<Rightarrow> string \<Rightarrow> pyval \<Rightarrow> ('s, tui_pairing \<times> user_account \<times> tui_pairing) auth_action"
where
  "prepare_consumption srv pairing_id code =
     bind_act (lift_act (pairing_digest_for_verification (ps_hash srv) code (ps_pepper srv))) (\<lambda>digest.
     bind_act (uncaught (pp_read_pairing (ps_storage srv) pairing_id)) (\<lambda>found.
     bind_act (read_clock (ps_clock srv)) (\<lambda>now.
     bind_act (require_secret found digest) (\<lambda>pairing.
     if par_status pairing = PairExpired then raise_act PairingExpiredState
     else if par_status pairing \<noteq> PairAuthorized then raise_act PairingState
     else bind_act (require_current srv pairing now) (\<lambda>_.
     bind_act (uncaught (pp_read_user (ps_storage srv)
       (case par_user_id pairing of None \<Rightarrow> [] | Some i \<Rightarrow> i))) (\<lambda>found_user.
     case found_user of
       None \<Rightarrow> raise_act InvalidCredential
     | Some account \<Rightarrow>
         bind_act (lift_identity (require_active_account account)) (\<lambda>_.
         bind_act (lift_identity (consume_pairing pairing (utc_datetime now))) (\<lambda>consumed.
           return_act (pairing, account, consumed)))))))))"

definition consume_code :: "'s pairing_service \<Rightarrow> string \<Rightarrow> pyval \<Rightarrow> ('s, tui_pairing) auth_action" where
  "consume_code srv pairing_id code =
     bind_act (prepare_consumption srv pairing_id code) (\<lambda>(pairing, account, consumed).
     bind_act (save_transition srv consumed True (Some (acc_updated_at account))) (\<lambda>_.
       return_act consumed))"

definition revoke_code :: "'s pairing_service \<Rightarrow> string \<Rightarrow> ('s, tui_pairing) auth_action" where
  "revoke_code srv pairing_id =
     bind_act (uncaught (pp_read_pairing (ps_storage srv) pairing_id)) (\<lambda>found.
     case found of
       None \<Rightarrow> raise_act PairingState
     | Some pairing \<Rightarrow>
         bind_act (read_clock (ps_clock srv)) (\<lambda>now.
         if par_status pairing \<noteq> PairPending \<and> par_status pairing \<noteq> PairAuthorized
         then raise_act PairingState
         else bind_act (require_current srv pairing now) (\<lambda>_.
           bind_act (lift_identity (revoke_pairing pairing (utc_datetime now))) (\<lambda>revoked.
           bind_act (save_transition srv revoked False None) (\<lambda>_. return_act revoked)))))"

section \<open>TuiPairingSessionService\<close>

record 's tui_service =
  tui_pairings :: "'s pairing_service"
  tui_ttl :: int
  tui_token :: "'s source"
  tui_identifier :: "'s source"

definition make_tui_service ::
  "'s pairing_service \<Rightarrow> int \<Rightarrow> 's source \<Rightarrow> 's source \<Rightarrow> (auth_error, 's tui_service) result"
where
  "make_tui_service pairings session_ttl token_factory session_id_factory =
     bind_result (positive_ttl session_ttl) (\<lambda>duration.
       Inr \<lparr>tui_pairings = pairings, tui_ttl = duration, tui_token = token_factory,
            tui_identifier = session_id_factory\<rparr>)"

definition tui_issue :: "'s tui_service \<Rightarrow> ('s, tui_pairing \<times> string) auth_action" where
  "tui_issue srv = issue_pairing (tui_pairings srv)"

definition tui_authorize :: "'s tui_service \<Rightarrow> pyval \<Rightarrow> string \<Rightarrow> ('s, tui_pairing) auth_action" where
  "tui_authorize srv code user_id = authorize_code (tui_pairings srv) code user_id (Some ''student'')"

definition tui_revoke :: "'s tui_service \<Rightarrow> string \<Rightarrow> ('s, tui_pairing) auth_action" where
  "tui_revoke srv pairing_id = revoke_code (tui_pairings srv) pairing_id"

text \<open>What a refused exchange turns into, before the next attempt.\<close>

definition consumption_refused ::
  "'s tui_service \<Rightarrow> tui_pairing \<Rightarrow> user_account \<Rightarrow> ('s, unit) auth_action" where
  "consumption_refused srv pairing account =
     bind_act (uncaught (pp_read_pairing (ps_storage (tui_pairings srv)) (par_pairing_id pairing))) (\<lambda>current.
     bind_act (uncaught (pp_read_user (ps_storage (tui_pairings srv)) (acc_user_id account))) (\<lambda>found.
     if (case current of None \<Rightarrow> False | Some q \<Rightarrow> par_status q = PairExpired) then raise_act PairingExpiredState
     else if current \<noteq> Some pairing then raise_act ConcurrentStateChange
     else (case found of
             None \<Rightarrow> raise_act InvalidCredential
           | Some c \<Rightarrow>
               bind_act (lift_identity (require_active_account c)) (\<lambda>_.
               if acc_role c \<noteq> RoleStudent then raise_act InvalidCredential
               else if acc_updated_at c \<noteq> acc_updated_at account then raise_act ConcurrentStateChange
               else return_act ()))))"

fun tui_consume_attempts ::
  "nat \<Rightarrow> 's tui_service \<Rightarrow> tui_pairing \<Rightarrow> user_account \<Rightarrow> tui_pairing \<Rightarrow>
   ('s, user_session \<times> pyval) auth_action"
where
  "tui_consume_attempts 0 srv pairing account consumed = raise_act CredentialGeneration"
| "tui_consume_attempts (Suc n) srv pairing account consumed =
     bind_act (draw (tui_token srv)) (\<lambda>raw_token.
     if \<not> valid_session_bearer raw_token then raise_act CredentialGeneration
     else bind_act (lift_act (map_error (\<lambda>_. CredentialGeneration)
            (session_token_digest (ps_hash (tui_pairings srv)) raw_token))) (\<lambda>digest.
     bind_act (draw (tui_identifier srv)) (\<lambda>raw_id.
     bind_act (lift_act (generated_text 1 raw_id)) (\<lambda>session_id.
     bind_act (lift_act (plus_duration (the (par_consumed_at consumed)) (tui_ttl srv))) (\<lambda>expires.
     bind_act (lift_identity (make_user_session (PyStr session_id) (PyStr (acc_user_id account))
       (PyStr digest) (utc_datetime (the (par_consumed_at consumed))) (utc_datetime expires)
       (utc_datetime (the (par_consumed_at consumed))) PyNone (PyStr ''tui'')
       (PyStr (par_pairing_id pairing)))) (\<lambda>session.
     try_act (pp_consume (ps_storage (tui_pairings srv)) consumed session (acc_updated_at account) ''student'')
       (\<lambda>e. if e = PairingExpiredConflict then raise_act PairingExpiredState
             else if e = SessionExpiredConflict then raise_act ConcurrentStateChange
             else if is_conflict e then
               bind_act (consumption_refused srv pairing account) (\<lambda>_.
                 tui_consume_attempts n srv pairing account consumed)
             else raise_act (FromStorage e))
       (\<lambda>_. return_act (session, raw_token))))))))"

definition tui_consume ::
  "'s tui_service \<Rightarrow> string \<Rightarrow> pyval \<Rightarrow> ('s, user_session \<times> pyval) auth_action" where
  "tui_consume srv pairing_id code =
     bind_act (prepare_consumption (tui_pairings srv) pairing_id code) (\<lambda>(pairing, account, consumed).
     if acc_role account \<noteq> RoleStudent then raise_act InvalidCredential
     else tui_consume_attempts max_attempts srv pairing account consumed)"

section \<open>Proofs against the contract\<close>

definition pairing_wired ::
  "('s \<Rightarrow> bool) \<Rightarrow> ('s \<Rightarrow> 's \<Rightarrow> bool) \<Rightarrow> 's pairing_port \<Rightarrow> 's pairing_service \<Rightarrow> bool" where
  "pairing_wired intact evolves port srv \<longleftrightarrow>
     ps_storage srv = port \<and> hashing_ok (ps_hash srv) \<and>
     harmless (guarded intact evolves) (ps_clock srv) \<and>
     harmless (guarded intact evolves) (ps_code srv) \<and>
     harmless (guarded intact evolves) (ps_identifier srv)"

definition tui_wired ::
  "('s \<Rightarrow> bool) \<Rightarrow> ('s \<Rightarrow> 's \<Rightarrow> bool) \<Rightarrow> 's pairing_port \<Rightarrow> 's tui_service \<Rightarrow> bool" where
  "tui_wired intact evolves port srv \<longleftrightarrow>
     pairing_wired intact evolves port (tui_pairings srv) \<and>
     harmless (guarded intact evolves) (tui_token srv) \<and>
     harmless (guarded intact evolves) (tui_identifier srv)"

lemma transitions_valid:
  "authorize_pairing p u t = Inr q \<Longrightarrow> valid_pairing q"
  "consume_pairing p t = Inr q \<Longrightarrow> valid_pairing q"
  "expire_pairing p t = Inr q \<Longrightarrow> valid_pairing q"
  "revoke_pairing p t = Inr q \<Longrightarrow> valid_pairing q"
  by (blast intro: pairing_step_valid pairing_step.intros)+

lemma require_secret_Inr [simp]:
  "require_secret found digest s = (Inr p, t) \<longleftrightarrow> found = Some p \<and> par_code_digest p = digest \<and> t = s"
  by (auto simp: require_secret_def run_simps)

lemma issued_source:
  assumes "make_user_session a b c d e f g h (PyStr i) = Inr s" "clean_text i"
  shows "ses_source_pairing s = Some i"
  using assms
  by (auto simp: make_user_session_def optional_text_def result_simps field_simps split: if_splits)

context pairing_registry begin

lemma pairing_draws:
  assumes "pairing_wired intact evolves port srv"
  shows "keeps (guarded intact evolves) (draw (ps_code srv))"
    "keeps (guarded intact evolves) (draw (ps_identifier srv))"
    "keeps (guarded intact evolves) (read_clock (ps_clock srv))" "ps_storage srv = port"
  using assms by (auto simp: pairing_wired_def harmless_def intro!: guarded_draw)

lemma issue_pairing_keeps:
  assumes "pairing_wired intact evolves port srv"
  shows "keeps (guarded intact evolves) (issue_pairing srv)"
proof -
  have "keeps (guarded intact evolves) (issue_pairing_attempts n srv now)" for n now
  proof (induction n)
    case 0
    then show ?case by (simp add: guarded_pure)
  next
    case (Suc n)
    show ?case
      by (auto simp: pairing_draws(4) [OF assms] intro!: guarded_bind guarded_lift_bind guarded_try
          guarded_pure pairing_draws [OF assms] create_keeps Suc.IH keeps_if dest: make_pairing_valid)
  qed
  then show ?thesis
    unfolding issue_pairing_def by (intro guarded_bind pairing_draws [OF assms])
qed

lemma require_current_keeps:
  assumes "pairing_wired intact evolves port srv"
  shows "keeps (guarded intact evolves) (require_current srv p now)"
  unfolding require_current_def
  by (auto simp: pairing_draws(4) [OF assms] intro!: guarded_lift_bind guarded_try guarded_pure save_keeps
      keeps_if dest: transitions_valid)

lemma save_transition_keeps:
  assumes "pairing_wired intact evolves port srv" "valid_pairing p"
  shows "keeps (guarded intact evolves) (save_transition srv p act rvn)"
proof -
  have store: "keeps (guarded intact evolves) (if act then pp_save_for_user port p v else pp_save_pairing port p)" for v
    using save_keeps [OF assms(2)] save_for_user_keeps [OF assms(2)] by simp
  show ?thesis
    unfolding save_transition_def pairing_draws(4) [OF assms(1)]
    by (intro keeps_if guarded_try guarded_bind guarded_uncaught guarded_pure keeps_option store
        read_keeps read_user_keeps)
qed

lemma prepare_keeps:
  assumes "pairing_wired intact evolves port srv"
  shows "keeps (guarded intact evolves) (prepare_consumption srv i code)"
  unfolding prepare_consumption_def require_secret_def
  by (auto simp: pairing_draws(4) [OF assms] intro!: guarded_bind guarded_uncaught guarded_pure keeps_if
      keeps_option pairing_draws [OF assms] require_current_keeps [OF assms] read_keeps read_user_keeps)

lemma authorize_keeps:
  assumes "pairing_wired intact evolves port srv"
  shows "keeps (guarded intact evolves) (authorize_code srv code i role)"
  unfolding authorize_code_def require_secret_def
  by (auto simp: pairing_draws(4) [OF assms] intro!: guarded_bind guarded_lift_bind guarded_uncaught guarded_pure
      keeps_if keeps_option pairing_draws [OF assms] require_current_keeps [OF assms] by_code_keeps
      read_user_keeps save_transition_keeps [OF assms] dest: transitions_valid)

lemma issue_pairing_sound:
  assumes "pairing_wired intact evolves port srv" "intact s" "issue_pairing srv s = (Inr (p, code), t)"
  shows "pairing_at t p \<and> par_status p = PairPending \<and> 8 \<le> length code \<and>
    pairing_code_digest (ps_hash srv) (PyStr code) (ps_pepper srv) = Inr (par_code_digest p) \<and>
    par_expires_at p = par_created_at p + ps_ttl srv"
proof -
  note port = pairing_draws(4) [OF assms(1)]
  have loop: "issue_pairing_attempts n srv now s = (Inr (p, code), t) \<Longrightarrow> intact s \<Longrightarrow> ?thesis" for n now s
  proof (induction n arbitrary: s)
    case 0
    then show ?case by simp
  next
    case (Suc n)
    from Suc.prems(1) obtain raw s1 code' raw_id s2 i digest expires pairing
      where d1: "draw (ps_code srv) s = (Inr raw, s1)" and g: "generated_text 8 raw = Inr code'"
      and d2: "draw (ps_identifier srv) s1 = (Inr raw_id, s2)"
      and gi: "generated_text 1 raw_id = Inr i"
      and dg: "pairing_code_digest (ps_hash srv) (PyStr code') (ps_pepper srv) = Inr digest"
      and ex: "plus_duration now (ps_ttl srv) = Inr expires"
      and mk: "make_tui_pairing (PyStr i) (PyStr digest) (PyStr ''pending'') (utc_datetime now)
        (utc_datetime expires) PyNone PyNone PyNone PyNone PyNone = Inr pairing"
      and tried: "pp_create_pairing port pairing s2 = (Inr (), t) \<and> p = pairing \<and> code = code' \<or>
        (\<exists>e s3. pp_create_pairing port pairing s2 = (Inl e, s3) \<and>
           issue_pairing_attempts n srv now s3 = (Inr (p, code), t))"
      by (auto simp: run_simps lift_identity_def port)
    have s2: "intact s2"
      using guardedD [OF pairing_draws(1) [OF assms(1)] d1 Suc.prems(2)]
        guardedD [OF pairing_draws(2) [OF assms(1)] d2] by blast
    from tried show ?case
    proof (elim disjE exE conjE)
      assume c: "pp_create_pairing port pairing s2 = (Inr (), t)" "p = pairing" "code = code'"
      have "valid_digest pairing_digest_algorithms digest"
        using pairing_code_digest_valid [OF _ dg] assms(1) by (simp add: pairing_wired_def)
      moreover have "make_tui_pairing (PyStr i) (PyStr digest) (PyStr (status_text PairPending)) (utc_datetime now)
        (utc_datetime expires) (py_optional PyStr None) (py_optional utc_datetime None)
        (py_optional utc_datetime None) (py_optional utc_datetime None) (py_optional utc_datetime None) = Inr pairing"
        using mk by simp
      ultimately have "pairing = \<lparr>par_pairing_id = i, par_code_digest = digest, par_status = PairPending,
          par_created_at = now, par_expires_at = expires, par_user_id = None, par_authorized_at = None,
          par_consumed_at = None, par_expired_at = None, par_revoked_at = None\<rparr>"
        using generated_text_clean [OF gi] by (intro make_pairing_fields) (auto simp: optional_clean_def)
      with create_law [OF s2 c(1)] c(2,3) dg ex generated_text_clean [OF g] show ?thesis
        by (auto simp: plus_duration_def split: if_splits)
    next
      fix e s3
      assume c: "pp_create_pairing port pairing s2 = (Inl e, s3)"
        "issue_pairing_attempts n srv now s3 = (Inr (p, code), t)"
      have "intact s3" using guardedD [OF create_keeps [OF make_pairing_valid [OF mk]] c(1) s2] by blast
      with Suc.IH [OF c(2)] show ?thesis .
    qed
  qed
  from assms(3) obtain now s1 where cl: "read_clock (ps_clock srv) s = (Inr now, s1)"
    and go: "issue_pairing_attempts max_attempts srv now s1 = (Inr (p, code), t)"
    by (auto simp: issue_pairing_def action_simps)
  have "intact s1" using guardedD [OF pairing_draws(3) [OF assms(1)] cl assms(2)] by blast
  with loop [OF go] show ?thesis .
qed

lemma authorize_sound:
  assumes "pairing_wired intact evolves port srv" "intact s" "authorize_code srv code i role s = (Inr q, t)"
  shows "pairing_at t q \<and> par_status q = PairAuthorized \<and> par_user_id q = Some i \<and>
    pairing_code_digest (ps_hash srv) code (ps_pepper srv) = Inr (par_code_digest q) \<and>
    (\<exists>u. user_at t u \<and> acc_user_id u = i \<and> acc_active u \<and>
       pred_option (\<lambda>r. role_text (acc_role u) = r) role)"
proof -
  note port = pairing_draws(4) [OF assms(1)]
  from assms(3) obtain digest s1 now s2 p s3 s4 account
    where dg: "pairing_code_digest (ps_hash srv) code (ps_pepper srv) = Inr digest"
    and rd: "pp_read_by_code port digest s = (Inr (Some p), s1)"
    and cl: "read_clock (ps_clock srv) s1 = (Inr now, s2)"
    and dp: "par_code_digest p = digest" and st: "par_status p = PairPending"
    and cu: "require_current srv p now s2 = (Inr (), s3)"
    and us: "pp_read_user port i s3 = (Inr (Some account), s4)"
    and act: "acc_active account" and ro: "pred_option (\<lambda>r. role_text (acc_role account) = r) role"
    and au: "authorize_pairing p (PyStr (acc_user_id account)) (utc_datetime now) = Inr q"
    and sv: "save_transition srv q True (Some (acc_updated_at account)) s4 = (Inr (), t)"
    by (auto simp: authorize_code_def run_simps uncaught_def lift_identity_def port
        pairing_digest_for_verification_def require_active_account_def split: if_splits option.split_asm)
  have s1: "intact s1" using guardedD [OF by_code_keeps rd assms(2)] by blast
  have s2: "intact s2" using guardedD [OF pairing_draws(3) [OF assms(1)] cl s1] by blast
  have s3: "intact s3" using guardedD [OF require_current_keeps [OF assms(1)] cu s2] by blast
  have s4: "intact s4" using guardedD [OF read_user_keeps us s3] by blast
  have u: "user_at s4 account" "acc_user_id account = i" using read_user_law [OF s3 us] by simp_all
  have p: "valid_pairing p" using by_code_law [OF assms(2) rd] pairing_valid [OF s1] by blast
  have now: "representable now" using cl by (auto simp: read_clock_def action_simps dest: utc_representable)
  have "clean_text (acc_user_id account)" using user_valid [OF s4 u(1)] by (simp add: valid_user_def)
  from au [unfolded authorize_pairing_iff [OF p this now]]
  have q: "q = p\<lparr>par_status := PairAuthorized, par_user_id := Some (acc_user_id account),
      par_authorized_at := Some now\<rparr>" by blast
  have vq: "valid_pairing q" using au by (rule transitions_valid)
  have save: "pp_save_for_user port q (acc_updated_at account) s4 = (Inr (), t)"
    using sv by (auto simp: save_transition_def run_simps port split: option.split_asm if_splits)
  note law = save_for_user_law [OF s4 vq save]
  then obtain v where v: "user_at t v" "acc_user_id v = i" "acc_updated_at v = acc_updated_at account"
    using q u(2) by (auto simp: active_at_def)
  have "evolves s4 t" using guardedD [OF save_for_user_keeps [OF vq] save s4] by blast
  then have "v = account" using user_revision [OF s4 _ u(1) v(1) _ v(3)] v(2) u(2) by simp
  then show ?thesis using law q v u(2) act ro dg dp by auto
qed

lemma prepare_sound:
  assumes "pairing_wired intact evolves port srv" "intact s"
    "prepare_consumption srv i code s = (Inr (p, account, q), t)"
  shows "intact t" "valid_pairing p" "valid_pairing q" "user_at t account" "acc_active account"
    "par_pairing_id p = i" "par_user_id p = Some (acc_user_id account)"
    "pairing_code_digest (ps_hash srv) code (ps_pepper srv) = Inr (par_code_digest p)"
    "\<exists>now. q = p\<lparr>par_status := PairConsumed, par_consumed_at := Some now\<rparr>"
proof -
  note port = pairing_draws(4) [OF assms(1)]
  from assms(3) obtain digest s1 now s2 s3
    where dg: "pairing_code_digest (ps_hash srv) code (ps_pepper srv) = Inr digest"
    and rd: "pp_read_pairing port i s = (Inr (Some p), s1)"
    and cl: "read_clock (ps_clock srv) s1 = (Inr now, s2)"
    and dp: "par_code_digest p = digest" and st: "par_status p = PairAuthorized"
    and cu: "require_current srv p now s2 = (Inr (), s3)"
    and us: "pp_read_user port (case par_user_id p of None \<Rightarrow> [] | Some i \<Rightarrow> i) s3 = (Inr (Some account), t)"
    and act: "acc_active account" and co: "consume_pairing p (utc_datetime now) = Inr q"
    by (auto simp: prepare_consumption_def run_simps uncaught_def lift_identity_def port
        pairing_digest_for_verification_def require_active_account_def split: if_splits)
  have s1: "intact s1" using guardedD [OF read_keeps rd assms(2)] by blast
  have s2: "intact s2" using guardedD [OF pairing_draws(3) [OF assms(1)] cl s1] by blast
  have s3: "intact s3" using guardedD [OF require_current_keeps [OF assms(1)] cu s2] by blast
  show t: "intact t" using guardedD [OF read_user_keeps us s3] by blast
  show p: "valid_pairing p" using read_law [OF assms(2) rd] pairing_valid [OF s1] by blast
  show "par_pairing_id p = i" using read_law [OF assms(2) rd] by blast
  obtain j where j: "par_user_id p = Some j"
    using p st by (auto simp: valid_pairing_def pairing_consistent_def)
  show "user_at t account" "par_user_id p = Some (acc_user_id account)"
    using read_user_law [OF s3 us] j by simp_all
  show "acc_active account" by (rule act)
  show "pairing_code_digest (ps_hash srv) code (ps_pepper srv) = Inr (par_code_digest p)" using dg dp by simp
  show "valid_pairing q" using co by (rule transitions_valid)
  have "representable now" using cl by (auto simp: read_clock_def action_simps dest: utc_representable)
  from co [unfolded consume_pairing_iff [OF p this]]
  show "\<exists>now. q = p\<lparr>par_status := PairConsumed, par_consumed_at := Some now\<rparr>" by blast
qed

lemma tui_parts:
  assumes "tui_wired intact evolves port srv"
  shows "pairing_wired intact evolves port (tui_pairings srv)"
    "keeps (guarded intact evolves) (draw (tui_token srv))"
    "keeps (guarded intact evolves) (draw (tui_identifier srv))" "ps_storage (tui_pairings srv) = port"
    "hashing_ok (ps_hash (tui_pairings srv))"
  using assms by (auto simp: tui_wired_def pairing_wired_def harmless_def intro!: guarded_draw)

lemma refused_keeps:
  assumes "tui_wired intact evolves port srv"
  shows "keeps (guarded intact evolves) (consumption_refused srv p account)"
  unfolding consumption_refused_def tui_parts(4) [OF assms]
  by (intro guarded_bind guarded_uncaught guarded_pure keeps_if keeps_option read_keeps read_user_keeps)

lemma tui_attempts_keeps:
  assumes "tui_wired intact evolves port srv" "valid_pairing q"
  shows "keeps (guarded intact evolves) (tui_consume_attempts n srv p account q)"
proof (induction n)
  case 0
  then show ?case by (simp add: guarded_pure)
next
  case (Suc n)
  show ?case
    by (auto simp: tui_parts(4) [OF assms(1)] intro!: guarded_bind guarded_lift_bind guarded_try guarded_pure
        tui_parts [OF assms(1)] consume_keeps assms(2) refused_keeps [OF assms(1)] Suc.IH keeps_if
        dest: make_session_valid)
qed

lemma tui_consume_keeps:
  assumes "tui_wired intact evolves port srv"
  shows "keeps (guarded intact evolves) (tui_consume srv i code)"
proof -
  have "guarded intact evolves s (snd (tui_consume srv i code s))" for s
    unfolding guarded_def
  proof
    assume s: "intact s"
    obtain r t where m: "prepare_consumption (tui_pairings srv) i code s = (r, t)" by fastforce
    have t: "intact t \<and> evolves s t" using guardedD [OF prepare_keeps [OF tui_parts(1) [OF assms]] m s] .
    show "intact (snd (tui_consume srv i code s)) \<and> evolves s (snd (tui_consume srv i code s))"
    proof (cases r)
      case (Inl e)
      with m t show ?thesis by (simp add: tui_consume_def bind_act_def)
    next
      case (Inr z)
      obtain p account q where z: "z = (p, account, q)" by (cases z)
      have "valid_pairing q" using prepare_sound(3) [OF tui_parts(1) [OF assms] s m [unfolded Inr z]] .
      from tui_attempts_keeps [OF assms this, of max_attempts p account]
      have "guarded intact evolves t (snd (tui_consume_attempts max_attempts srv p account q t))"
        by (simp add: keeps_def)
      with m t z Inr show ?thesis
        by (auto simp: tui_consume_def bind_act_def guarded_def raise_act_def intro: evolves_trans)
    qed
  qed
  then show ?thesis by (simp add: keeps_def)
qed

lemma tui_attempts_sound:
  assumes "tui_wired intact evolves port srv" "valid_pairing q" "clean_text (acc_user_id account)"
    "clean_text (par_pairing_id p)"
  shows "tui_consume_attempts n srv p account q s = (Inr (x, raw), t) \<Longrightarrow> intact s \<Longrightarrow>
    session_at t x \<and> pairing_at t q \<and> par_status q = PairConsumed \<and>
    (\<exists>u. user_at t u \<and> acc_user_id u = acc_user_id account \<and> acc_active u \<and> acc_role u = RoleStudent) \<and>
    ses_user_id x = acc_user_id account \<and> valid_session_bearer raw \<and>
    session_token_digest (ps_hash (tui_pairings srv)) raw = Inr (ses_token_digest x) \<and>
    ses_created_at x = the (par_consumed_at q) \<and> ses_expires_at x = ses_created_at x + tui_ttl srv \<and>
    ses_last_seen_at x = ses_created_at x \<and> ses_revoked_at x = None \<and>
    ses_audience x = AudienceTui \<and> ses_source_pairing x = Some (par_pairing_id p)"
proof (induction n arbitrary: s)
  case 0
  then show ?case by simp
next
  case (Suc n)
  note port = tui_parts(4) [OF assms(1)]
  let ?h = "ps_hash (tui_pairings srv)" and ?at = "the (par_consumed_at q)"
  from Suc.prems(1) obtain s1 s2 digest raw_id sid expires session raw'
    where d1: "draw (tui_token srv) s = (Inr raw', s1)" and be: "valid_session_bearer raw'"
    and dg: "session_token_digest ?h raw' = Inr digest"
    and d2: "draw (tui_identifier srv) s1 = (Inr raw_id, s2)"
    and ex: "plus_duration ?at (tui_ttl srv) = Inr expires"
    and mk: "make_user_session (PyStr sid) (PyStr (acc_user_id account)) (PyStr digest) (utc_datetime ?at)
       (utc_datetime expires) (utc_datetime ?at) PyNone (PyStr ''tui'') (PyStr (par_pairing_id p)) = Inr session"
    and tried: "pp_consume port q session (acc_updated_at account) ''student'' s2 = (Inr (), t) \<and>
        x = session \<and> raw = raw' \<or>
      (\<exists>e s3 s4. pp_consume port q session (acc_updated_at account) ''student'' s2 = (Inl e, s3) \<and>
         consumption_refused srv p account s3 = (Inr (), s4) \<and>
         tui_consume_attempts n srv p account q s4 = (Inr (x, raw), t))"
    by (auto simp: run_simps lift_identity_def port)
  have digest: "valid_digest session_digest_algorithms digest"
    using session_token_digest_valid [OF tui_parts(5) [OF assms(1)] dg] .
  have mk': "make_user_session (PyStr sid) (PyStr (acc_user_id account)) (PyStr digest) (utc_datetime ?at)
       (utc_datetime expires) (utc_datetime ?at) PyNone (PyStr (audience_text AudienceTui))
       (PyStr (par_pairing_id p)) = Inr session"
    using mk by simp
  note f = issued_fields [OF mk' assms(3) digest] issued_source [OF mk assms(4)]
  have s2: "intact s2"
    using guardedD [OF tui_parts(2) [OF assms(1)] d1 Suc.prems(2)]
      guardedD [OF tui_parts(3) [OF assms(1)] d2] by blast
  from tried show ?case
  proof (elim disjE exE conjE)
    assume c: "pp_consume port q session (acc_updated_at account) ''student'' s2 = (Inr (), t)"
      "x = session" "raw = raw'"
    from consume_law [OF s2 assms(2) f(1) c(1)] f be dg ex c(2,3) show ?thesis
      by (auto simp: plus_duration_def split: if_splits)
  next
    fix e s3 s4
    assume c: "pp_consume port q session (acc_updated_at account) ''student'' s2 = (Inl e, s3)"
      "consumption_refused srv p account s3 = (Inr (), s4)"
      "tui_consume_attempts n srv p account q s4 = (Inr (x, raw), t)"
    have "intact s3" using guardedD [OF consume_keeps [OF assms(2) f(1)] c(1) s2] by blast
    then have "intact s4" using guardedD [OF refused_keeps [OF assms(1)] c(2)] by blast
    with Suc.IH [OF c(3)] show ?thesis by blast
  qed
qed

lemma tui_consume_sound:
  assumes "tui_wired intact evolves port srv" "intact s" "tui_consume srv i code s = (Inr (x, raw), t)"
  shows "session_at t x \<and> ses_audience x = AudienceTui \<and> ses_source_pairing x = Some i \<and>
    ses_revoked_at x = None \<and> ses_expires_at x = ses_created_at x + tui_ttl srv \<and>
    session_token_digest (ps_hash (tui_pairings srv)) raw = Inr (ses_token_digest x) \<and>
    (\<exists>p. pairing_at t p \<and> par_pairing_id p = i \<and> par_status p = PairConsumed \<and>
       par_user_id p = Some (ses_user_id x) \<and> par_consumed_at p = Some (ses_created_at x) \<and>
       pairing_code_digest (ps_hash (tui_pairings srv)) code (ps_pepper (tui_pairings srv)) =
         Inr (par_code_digest p)) \<and>
    (\<exists>u. user_at t u \<and> acc_user_id u = ses_user_id x \<and> acc_active u \<and> acc_role u = RoleStudent)"
proof -
  from assms(3) obtain p account q s1
    where prep: "prepare_consumption (tui_pairings srv) i code s = (Inr (p, account, q), s1)"
    and go: "tui_consume_attempts max_attempts srv p account q s1 = (Inr (x, raw), t)"
    by (auto simp: tui_consume_def run_simps)
  note pr = prepare_sound [OF tui_parts(1) [OF assms(1)] assms(2) prep]
  obtain now where q: "q = p\<lparr>par_status := PairConsumed, par_consumed_at := Some now\<rparr>" using pr(9) by blast
  have "clean_text (acc_user_id account)" using user_valid [OF pr(1,4)] by (simp add: valid_user_def)
  moreover have "clean_text (par_pairing_id p)" using pr(2) by (simp add: valid_pairing_def)
  ultimately show ?thesis
    using tui_attempts_sound [OF assms(1) pr(3) _ _ go pr(1)] pr(6-8) q by auto
qed

end

section \<open>The services on the SQLite storage\<close>

text \<open>\<open>codes\<close> are the values of the code factory, \<open>ids\<close> those of the pairing identifier factory.\<close>

definition sqlite_pairing_service ::
  "environment \<Rightarrow> (nat \<Rightarrow> pyval) \<Rightarrow> (nat \<Rightarrow> pyval) \<Rightarrow> pyval \<Rightarrow> int \<Rightarrow> hashing \<Rightarrow> world pairing_service" where
  "sqlite_pairing_service e codes ids pepper ttl h =
     \<lparr>ps_storage = sqlite_pairing_port e, ps_pepper = pepper, ps_clock = tick_source (env_clock e),
      ps_ttl = ttl, ps_code = tick_source codes, ps_identifier = tick_source ids, ps_hash = h\<rparr>"

definition sqlite_tui_service :: "environment \<Rightarrow> world pairing_service \<Rightarrow> int \<Rightarrow> world tui_service" where
  "sqlite_tui_service e pairings session_ttl =
     \<lparr>tui_pairings = pairings, tui_ttl = session_ttl, tui_token = tick_source (env_token e),
      tui_identifier = tick_source (env_identifier e)\<rparr>"

lemma sqlite_pairing_simps [simp]:
  "ps_storage (sqlite_pairing_service e codes ids pepper ttl h) = sqlite_pairing_port e"
  "ps_pepper (sqlite_pairing_service e codes ids pepper ttl h) = pepper"
  "ps_clock (sqlite_pairing_service e codes ids pepper ttl h) = tick_source (env_clock e)"
  "ps_ttl (sqlite_pairing_service e codes ids pepper ttl h) = ttl"
  "ps_code (sqlite_pairing_service e codes ids pepper ttl h) = tick_source codes"
  "ps_identifier (sqlite_pairing_service e codes ids pepper ttl h) = tick_source ids"
  "ps_hash (sqlite_pairing_service e codes ids pepper ttl h) = h"
  by (simp_all add: sqlite_pairing_service_def)

lemma sqlite_tui_simps [simp]:
  "tui_pairings (sqlite_tui_service e srv ttl) = srv" "tui_ttl (sqlite_tui_service e srv ttl) = ttl"
  "tui_token (sqlite_tui_service e srv ttl) = tick_source (env_token e)"
  "tui_identifier (sqlite_tui_service e srv ttl) = tick_source (env_identifier e)"
  by (simp_all add: sqlite_tui_service_def)

lemma sqlite_pairing_wired:
  "hashing_ok h \<Longrightarrow> pairing_wired (world_intact e) world_evolves (sqlite_pairing_port e)
     (sqlite_pairing_service e codes ids pepper ttl h)"
  by (simp add: pairing_wired_def tick_source_harmless)

lemma sqlite_tui_wired:
  "hashing_ok h \<Longrightarrow> tui_wired (world_intact e) world_evolves (sqlite_pairing_port e)
     (sqlite_tui_service e (sqlite_pairing_service e codes ids pepper ttl h) session_ttl)"
  by (simp add: tui_wired_def sqlite_pairing_wired tick_source_harmless)

text \<open>Authorizing a code is sound under interference: when the service answers with a pairing, the
  database it leaves holds exactly that row, authorized for the requesting user, under the
  digest of the code, and the user is an active student in that database.\<close>

theorem authorized_code_is_bound:
  assumes "honest e" "db_ok (w_db w)" "hashing_ok h"
    and "tui_authorize (sqlite_tui_service e (sqlite_pairing_service e codes ids pepper ttl h) sttl)
      code i w = (Inr q, w')"
  shows "q \<in> set (db_pairings (w_db w')) \<and> par_status q = PairAuthorized \<and> par_user_id q = Some i \<and>
    pairing_code_digest h code pepper = Inr (par_code_digest q) \<and>
    (\<exists>u \<in> set (db_users (w_db w')). acc_user_id u = i \<and> acc_active u \<and> acc_role u = RoleStudent)"
proof -
  have student: "role_text r = ''student'' \<longleftrightarrow> r = RoleStudent" for r by (cases r) simp_all
  from sqlite_pairings.authorize_sound [OF sqlite_pairing_wired [OF assms(3)] _
      assms(4) [unfolded tui_authorize_def sqlite_tui_simps]] assms(1,2)
  show ?thesis by (auto simp: world_intact_def pairing_in_def user_in_def student)
qed

text \<open>C9. A terminal session is sound under interference: when an exchange returns a session, the database
  it leaves holds that session, open and of the configured lifetime, the pairing of the given
  identifier consumed at the instant the session was created by the same user under the digest
  of the given code, and the user is an active student.\<close>

theorem exchanged_session_is_founded:
  assumes "honest e" "db_ok (w_db w)" "hashing_ok h"
    and "tui_consume (sqlite_tui_service e (sqlite_pairing_service e codes ids pepper ttl h) sttl)
      i code w = (Inr (x, raw), w')"
  shows "x \<in> set (db_sessions (w_db w')) \<and> ses_audience x = AudienceTui \<and> ses_source_pairing x = Some i \<and>
    ses_revoked_at x = None \<and> ses_expires_at x = ses_created_at x + sttl \<and>
    session_token_digest h raw = Inr (ses_token_digest x) \<and>
    (\<exists>p \<in> set (db_pairings (w_db w')). par_pairing_id p = i \<and> par_status p = PairConsumed \<and>
       par_user_id p = Some (ses_user_id x) \<and> par_consumed_at p = Some (ses_created_at x) \<and>
       pairing_code_digest h code pepper = Inr (par_code_digest p)) \<and>
    (\<exists>u \<in> set (db_users (w_db w')). acc_user_id u = ses_user_id x \<and> acc_active u \<and> acc_role u = RoleStudent)"
proof -
  have "world_intact e w" using assms(1,2) by (simp add: world_intact_def)
  from sqlite_pairings.tui_consume_sound [OF sqlite_tui_wired [OF assms(3)] this assms(4)]
  show ?thesis unfolding observations by simp blast
qed

end
