(* ===== verification/Auth_Tui.thy ===== *)
theory Auth_Tui
  imports Auth_Pairings
begin

text \<open>
  Terminal login from end to end, in an environment without other processes: a code that was
  issued can be authorized, an authorized code can be exchanged, and it can be exchanged once.
\<close>

section \<open>Pairing calls of a quiet environment\<close>

lemma update_where_hit: "x \<in> set xs \<Longrightarrow> P x \<Longrightarrow> f x \<in> set (update_where P f xs)"
  by (auto simp: update_where_def intro!: image_eqI [of _ _ x])

lemma read_pairing_exact:
  assumes "db_ok d" "p \<in> set (db_pairings d)"
  shows "read_pairing (par_pairing_id p) d = (Inr (Some p), d)"
    "lower g = par_code_digest p \<Longrightarrow> read_pairing_by_code_digest g d = (Inr (Some p), d)"
proof -
  have "lookup_by par_pairing_id (db_pairings d) (par_pairing_id p) = Some p"
    "lookup_by par_code_digest (db_pairings d) (par_code_digest p) = Some p"
    using assms by (simp_all add: lookup_by_Some_iff ok_defs)
  then show "read_pairing (par_pairing_id p) d = (Inr (Some p), d)"
    "lower g = par_code_digest p \<Longrightarrow> read_pairing_by_code_digest g d = (Inr (Some p), d)"
    using hydrate_ok(4) [OF assms]
    by (simp_all add: read_pairing_def read_pairing_by_code_digest_def hydrate_optional_def)
qed

lemma quiet_read_user:
  assumes "quiet e c" "db_ok (w_db w)" "u \<in> set (db_users (w_db w))"
  shows "uncaught (pp_read_user (sqlite_pairing_port e) (acc_user_id u)) w =
    (Inr (Some u), \<lparr>w_db = w_db w, w_tick = Suc (w_tick w)\<rparr>)"
  using read_row_exact(1) [OF assms(2,3)]
  by (intro uncaught_values) (simp add: sqlite_pairing_port_def quiet_call [OF assms(1)])

lemma quiet_read_pairing:
  assumes "quiet e c" "db_ok (w_db w)" "p \<in> set (db_pairings (w_db w))"
  shows "uncaught (pp_read_pairing (sqlite_pairing_port e) (par_pairing_id p)) w =
      (Inr (Some p), \<lparr>w_db = w_db w, w_tick = Suc (w_tick w)\<rparr>)"
    "lower g = par_code_digest p \<Longrightarrow> uncaught (pp_read_by_code (sqlite_pairing_port e) g) w =
      (Inr (Some p), \<lparr>w_db = w_db w, w_tick = Suc (w_tick w)\<rparr>)"
  using read_pairing_exact [OF assms(2,3)]
  by (auto intro!: uncaught_values simp: sqlite_pairing_port_def quiet_call [OF assms(1)])

lemma require_current_fresh:
  assumes "par_created_at p \<le> now" "later_than (par_authorized_at p) (Some now)" "now < par_expires_at p"
  shows "require_current srv p now = return_act ()"
  using assms by (auto simp: require_current_def later_than_def split: option.splits)

lemma code_digest_lower:
  "hashing_ok h \<Longrightarrow> pairing_code_digest h code pepper = Inr d \<Longrightarrow> lower d = d"
  by (rule valid_digest_lower [OF pairing_code_digest_valid])

lemma quiet_authorize:
  assumes q: "quiet e c" and ok: "db_ok (w_db w)" and h: "hashing_ok h"
    and dg: "pairing_code_digest h code pepper = Inr (par_code_digest p)"
    and p: "p \<in> set (db_pairings (w_db w))" "par_status p = PairPending"
      "par_created_at p \<le> c (w_tick w + 1)" "c (w_tick w + 3) < par_expires_at p"
    and u: "u \<in> set (db_users (w_db w))" "acc_active u" "acc_role u = RoleStudent"
    and r: "r = p\<lparr>par_status := PairAuthorized, par_user_id := Some (acc_user_id u),
      par_authorized_at := Some (c (w_tick w + 1))\<rparr>"
  shows "tui_authorize (sqlite_tui_service e (sqlite_pairing_service e codes ids pepper ttl h) sttl)
      code (acc_user_id u) w =
    (Inr r, \<lparr>w_db = (w_db w)\<lparr>db_pairings := update_where (\<lambda>x. par_pairing_id x = par_pairing_id p) (\<lambda>x. r)
       (db_pairings (w_db w))\<rparr>, w_tick = w_tick w + 4\<rparr>)"
proof -
  let ?srv = "sqlite_pairing_service e codes ids pepper ttl h" and ?d = "w_db w" and ?n = "w_tick w"
  let ?now = "c (Suc ?n)" and ?w = "\<lambda>k. \<lparr>w_db = w_db w, w_tick = k\<rparr>"
  have late: "?now \<le> c (?n + 3)" using quiet_times(2) [OF q] by simp
  have valid: "valid_pairing p" and uid: "clean_text (acc_user_id u)"
    using ok p(1) u(1) by (auto simp: ok_defs valid_user_def)
  have none: "par_user_id p = None" "par_authorized_at p = None" "par_consumed_at p = None"
    "par_expired_at p = None" "par_revoked_at p = None"
    using valid p(2) by (auto simp: valid_pairing_def pairing_consistent_def)
  have au: "authorize_pairing p (PyStr (acc_user_id u)) (utc_datetime ?now) = Inr r"
    using p(2-4) late r by (simp add: authorize_pairing_iff [OF valid uid quiet_times(1) [OF q]])
  have vr: "valid_pairing r" using au by (rule transitions_valid)
  have cu: "require_current ?srv p ?now = return_act ()"
    using p(3,4) late none by (intro require_current_fresh) (auto simp: later_than_def)
  have look: "lookup_by par_pairing_id (db_pairings ?d) (par_pairing_id p) = Some p"
    using ok p(1) by (simp add: lookup_by_Some_iff ok_defs)
  have "user_at_revision ?d (acc_user_id u) (acc_updated_at u)"
    using u by (auto simp: user_at_revision_def list_ex_iff)
  moreover have "pairing_key r p" using r none by (simp add: pairing_key_def)
  ultimately have "save_pairing_for_active_user (c (?n + 3)) r (acc_updated_at u) ?d =
      (Inr (), ?d\<lparr>db_pairings := update_where (\<lambda>x. par_pairing_id x = par_pairing_id p) (\<lambda>x. r) (db_pairings ?d)\<rparr>)"
    using look p(2,4) r
    by (subst authorize_outcome [OF ok vr _ _ quiet_times(1) [OF q], of "acc_user_id u"]) simp_all
  then have sv: "save_transition ?srv r True (Some (acc_updated_at u)) (?w (Suc (Suc (Suc ?n)))) =
      (Inr (), \<lparr>w_db = ?d\<lparr>db_pairings := update_where (\<lambda>x. par_pairing_id x = par_pairing_id p) (\<lambda>x. r)
         (db_pairings ?d)\<rparr>, w_tick = ?n + 4\<rparr>)"
    by (simp add: save_transition_def sqlite_pairing_port_def quiet_call [OF q] try_act_def return_act_def
        numeral_eq_Suc)
  have w1: "uncaught (pp_read_by_code (sqlite_pairing_port e) (par_code_digest p)) w = (Inr (Some p), ?w (Suc ?n))"
    by (rule quiet_read_pairing(2) [OF q ok p(1) code_digest_lower [OF h dg]])
  have w2: "read_clock (tick_source (env_clock e)) (?w (Suc ?n)) = (Inr ?now, ?w (Suc (Suc ?n)))"
    by (simp add: quiet_clock [OF q])
  have w3: "uncaught (pp_read_user (sqlite_pairing_port e) (acc_user_id u)) (?w (Suc (Suc ?n))) =
      (Inr (Some u), ?w (Suc (Suc (Suc ?n))))"
    using quiet_read_user [OF q, of "?w (Suc (Suc ?n))" u] ok u(1) by simp
  show ?thesis
    using w1 w2 w3 sv u(2,3) p(2)
    by (simp add: tui_authorize_def authorize_code_def pairing_digest_for_verification_def dg bind_act_def
        lift_act_def require_secret_def return_act_def cu lift_identity_def require_active_account_def au)
qed

lemma quiet_prepare:
  assumes q: "quiet e c" and ok: "db_ok (w_db w)" and h: "hashing_ok h"
    and dg: "pairing_code_digest h code pepper = Inr (par_code_digest p)"
    and p: "p \<in> set (db_pairings (w_db w))" "par_status p = PairAuthorized" "par_user_id p = Some (acc_user_id u)"
      "later_than (par_authorized_at p) (Some (c (w_tick w + 1)))" "c (w_tick w + 1) < par_expires_at p"
    and u: "u \<in> set (db_users (w_db w))" "acc_active u"
  shows "prepare_consumption (sqlite_pairing_service e codes ids pepper ttl h) (par_pairing_id p) code w =
    (Inr (p, u, p\<lparr>par_status := PairConsumed, par_consumed_at := Some (c (w_tick w + 1))\<rparr>),
     \<lparr>w_db = w_db w, w_tick = w_tick w + 3\<rparr>)"
proof -
  let ?srv = "sqlite_pairing_service e codes ids pepper ttl h" and ?n = "w_tick w"
  let ?now = "c (Suc ?n)" and ?w = "\<lambda>k. \<lparr>w_db = w_db w, w_tick = k\<rparr>"
  have valid: "valid_pairing p" using ok p(1) by (auto simp: ok_defs)
  have created: "par_created_at p \<le> ?now"
    using valid p(2,4)
    by (auto simp: valid_pairing_def pairing_consistent_def within_pairing_def later_than_def split: option.splits)
  have co: "consume_pairing p (utc_datetime ?now) =
      Inr (p\<lparr>par_status := PairConsumed, par_consumed_at := Some ?now\<rparr>)"
    using p(2,4,5) created by (simp add: consume_pairing_iff [OF valid quiet_times(1) [OF q]])
  have cu: "require_current ?srv p ?now = return_act ()"
    using p(4,5) created by (intro require_current_fresh) simp_all
  have w1: "uncaught (pp_read_pairing (sqlite_pairing_port e) (par_pairing_id p)) w = (Inr (Some p), ?w (Suc ?n))"
    by (rule quiet_read_pairing(1) [OF q ok p(1)])
  have w2: "read_clock (tick_source (env_clock e)) (?w (Suc ?n)) = (Inr ?now, ?w (Suc (Suc ?n)))"
    by (simp add: quiet_clock [OF q])
  have w3: "uncaught (pp_read_user (sqlite_pairing_port e) (acc_user_id u)) (?w (Suc (Suc ?n))) =
      (Inr (Some u), ?w (Suc (Suc (Suc ?n))))"
    using quiet_read_user [OF q, of "?w (Suc (Suc ?n))" u] ok u(1) by simp
  show ?thesis
    using w1 w2 w3 u(2) p(2,3)
    by (simp add: prepare_consumption_def pairing_digest_for_verification_def dg bind_act_def
        lift_act_def require_secret_def return_act_def cu lift_identity_def require_active_account_def co
        numeral_eq_Suc)
qed

text \<open>The session an exchange builds.\<close>

definition tui_session :: "string \<Rightarrow> string \<Rightarrow> string \<Rightarrow> instant \<Rightarrow> int \<Rightarrow> string \<Rightarrow> user_session" where
  "tui_session sid uid digest at ttl pid =
     \<lparr>ses_session_id = sid, ses_user_id = uid, ses_token_digest = digest, ses_created_at = at,
      ses_expires_at = at + ttl, ses_last_seen_at = at, ses_revoked_at = None,
      ses_audience = AudienceTui, ses_source_pairing = Some pid\<rparr>"

lemma tui_session_made:
  assumes "clean_text sid" "clean_text uid" "valid_digest session_digest_algorithms digest" "clean_text pid"
    "representable at" "representable (at + ttl)" "0 < ttl"
  shows "valid_session (tui_session sid uid digest at ttl pid)"
    "make_user_session (PyStr sid) (PyStr uid) (PyStr digest) (utc_datetime at) (utc_datetime (at + ttl))
       (utc_datetime at) PyNone (PyStr ''tui'') (PyStr pid) = Inr (tui_session sid uid digest at ttl pid)"
proof -
  show v: "valid_session (tui_session sid uid digest at ttl pid)"
    using assms by (simp add: valid_session_def tui_session_def optional_clean_def)
  then have "rebuild_session (tui_session sid uid digest at ttl pid) = Inr (tui_session sid uid digest at ttl pid)"
    by simp
  then show "make_user_session (PyStr sid) (PyStr uid) (PyStr digest) (utc_datetime at) (utc_datetime (at + ttl))
       (utc_datetime at) PyNone (PyStr ''tui'') (PyStr pid) = Inr (tui_session sid uid digest at ttl pid)"
    unfolding rebuild_session_def by (simp add: tui_session_def)
qed

lemma quiet_exchange:
  assumes q: "quiet e c" and ok: "db_ok (w_db w)" and h: "hashing_ok h"
    and p: "p \<in> set (db_pairings (w_db w))" "par_status p = PairAuthorized" "par_user_id p = Some (acc_user_id u)"
      "later_than (par_authorized_at p) (Some at)" "at < par_expires_at p" "representable at"
      "at \<le> c (w_tick w + 2)" "c (w_tick w + 2) < par_expires_at p"
    and u: "u \<in> set (db_users (w_db w))" "acc_active u" "acc_role u = RoleStudent"
    and tok: "valid_session_bearer (env_token e (w_tick w))"
      "session_token_digest h (env_token e (w_tick w)) = Inr digest"
      "digest \<notin> ses_token_digest ` set (db_sessions (w_db w))"
    and sid: "generated_text 1 (env_identifier e (w_tick w + 1)) = Inr i"
      "i \<notin> ses_session_id ` set (db_sessions (w_db w))"
    and ttl: "c (w_tick w + 2) < at + sttl" "representable (at + sttl)"
    and r: "r = p\<lparr>par_status := PairConsumed, par_consumed_at := Some at\<rparr>"
    and x: "x = tui_session i (acc_user_id u) digest at sttl (par_pairing_id p)"
  shows "tui_consume_attempts (Suc n) (sqlite_tui_service e (sqlite_pairing_service e codes ids pepper ttl h) sttl)
      p u r w =
    (Inr (x, env_token e (w_tick w)),
     \<lparr>w_db = (w_db w)\<lparr>db_pairings := update_where (\<lambda>y. par_pairing_id y = par_pairing_id p) (\<lambda>y. r)
        (db_pairings (w_db w)), db_sessions := db_sessions (w_db w) @ [x]\<rparr>, w_tick = w_tick w + 3\<rparr>)"
proof -
  let ?d = "w_db w" and ?n = "w_tick w"
  have valid: "valid_pairing p" "valid_user u" using ok p(1) u(1) by (auto simp: ok_defs)
  have created: "par_created_at p \<le> at" and auth: "par_authorized_at p \<noteq> None"
    and none: "par_consumed_at p = None" "par_expired_at p = None" "par_revoked_at p = None"
    using valid(1) p(2,4)
    by (auto simp: valid_pairing_def pairing_consistent_def within_pairing_def later_than_def split: option.splits)
  have "consume_pairing p (utc_datetime at) = Inr r"
    using p(2,4,5) created r by (simp add: consume_pairing_iff [OF valid(1) p(6)])
  then have vr: "valid_pairing r" by (rule transitions_valid)
  have clean: "clean_text i" "clean_text (acc_user_id u)" "clean_text (par_pairing_id p)"
    "valid_digest session_digest_algorithms digest"
    using generated_text_clean [OF sid(1)] valid session_token_digest_valid [OF h tok(2)]
    by (simp_all add: valid_user_def valid_pairing_def)
  have pos: "0 < sttl" using ttl(1) p(7) by simp
  note made = tui_session_made [OF clean(1,2,4,3) p(6) ttl(2) pos, folded x]
  have at: "max (the (par_consumed_at r)) (c (?n + 2)) = c (?n + 2)" using p(7) r by simp
  have contract: "consumption_contract r x ''student''"
    using p(3) auth r x by (simp add: consumption_contract_def tui_session_def)
  have row: "consumable_row r p" using p(2) none r by (simp add: consumable_row_def pairing_key_def)
  have active: "active_in_role ?d (par_user_id r) ''student'' (acc_updated_at u)"
    using u p(3) r by (auto simp: active_in_role_def list_ex_iff)
  have "consume_pairing_and_create_session (c (?n + 2)) r x (acc_updated_at u) ''student'' ?d =
      (Inr (), ?d\<lparr>db_pairings := update_where (\<lambda>y. par_pairing_id y = par_pairing_id p) (\<lambda>y. r) (db_pairings ?d),
         db_sessions := db_sessions ?d @ [x]\<rparr>)"
    using contract row p(1,5,8) pos active tok(3) sid(2) ttl(1) r x
    by (subst consume_outcome [OF ok vr made(1) refl]) (auto simp: tui_session_def at)
  then have store: "pp_consume (sqlite_pairing_port e) r x (acc_updated_at u) ''student''
      \<lparr>w_db = ?d, w_tick = Suc (Suc ?n)\<rparr> =
      (Inr (), \<lparr>w_db = ?d\<lparr>db_pairings := update_where (\<lambda>y. par_pairing_id y = par_pairing_id p) (\<lambda>y. r)
         (db_pairings ?d), db_sessions := db_sessions ?d @ [x]\<rparr>, w_tick = ?n + 3\<rparr>)"
    by (simp add: sqlite_pairing_port_def quiet_call [OF q] numeral_eq_Suc)
  have draws: "draw (tick_source (env_token e)) w = (Inr (env_token e ?n), \<lparr>w_db = ?d, w_tick = Suc ?n\<rparr>)"
    "draw (tick_source (env_identifier e)) \<lparr>w_db = ?d, w_tick = Suc ?n\<rparr> =
      (Inr (env_identifier e (?n + 1)), \<lparr>w_db = ?d, w_tick = Suc (Suc ?n)\<rparr>)"
    by (simp_all add: draw_def tick_source_def)
  show ?thesis
    using store draws made(2) tok(1,2) sid(1) ttl(2) r
    by (simp add: bind_act_def lift_act_def plus_duration_def lift_identity_def try_act_def return_act_def)
qed

section \<open>From code to session\<close>

text \<open>C10. A student can log in from a terminal: the code that was issued is authorized by an active
  student and then exchanged, for a session of that student that is stored together with its
  consumed pairing, as long as no other process interferes, the clocks do not run backwards,
  the code and the new session last until the exchange, and the drawn token and identifier are
  well-formed and fresh.\<close>

theorem terminal_login_succeeds:
  assumes "quiet e c" "db_ok (w_db w)" "hashing_ok h"
    and srv: "srv = sqlite_tui_service e (sqlite_pairing_service e codes ids pepper ttl h) sttl"
    and issued: "tui_issue srv w = (Inr (p, code), w1)"
    and u: "u \<in> set (db_users (w_db w1))" "acc_active u" "acc_role u = RoleStudent"
    and n: "n = w_tick w1" and live: "par_created_at p \<le> c (n + 1)" "c (n + 9) < par_expires_at p"
      "c (n + 9) < c (n + 5) + sttl" "representable (c (n + 5) + sttl)"
    and tok: "valid_session_bearer (env_token e (n + 7))"
      "session_token_digest h (env_token e (n + 7)) = Inr digest"
      "digest \<notin> ses_token_digest ` set (db_sessions (w_db w1))"
    and sid: "generated_text 1 (env_identifier e (n + 8)) = Inr i"
      "i \<notin> ses_session_id ` set (db_sessions (w_db w1))"
  shows "\<exists>q w2 x w3. tui_authorize srv (PyStr code) (acc_user_id u) w1 = (Inr q, w2) \<and>
    tui_consume srv (par_pairing_id p) (PyStr code) w2 = (Inr (x, env_token e (n + 7)), w3) \<and>
    x \<in> set (db_sessions (w_db w3)) \<and> ses_user_id x = acc_user_id u \<and> ses_audience x = AudienceTui \<and>
    par_status q = PairAuthorized \<and>
    q\<lparr>par_status := PairConsumed, par_consumed_at := Some (ses_created_at x)\<rparr> \<in> set (db_pairings (w_db w3))"
proof -
  let ?ps = "sqlite_pairing_service e codes ids pepper ttl h"
  note wired = sqlite_tui_wired [OF assms(3), of e codes ids pepper ttl sttl]
  note pw = sqlite_pairing_wired [OF assms(3), of e codes ids pepper ttl]
  have w: "world_intact e w" using assms(1,2) by (simp add: world_intact_def quiet_honest)
  have go: "issue_pairing ?ps w = (Inr (p, code), w1)" using issued by (simp add: tui_issue_def srv)
  have p: "p \<in> set (db_pairings (w_db w1))" "par_status p = PairPending"
    "pairing_code_digest h (PyStr code) pepper = Inr (par_code_digest p)"
    using sqlite_pairings.issue_pairing_sound [OF pw w go] by (simp_all add: pairing_in_def)
  have w1: "world_intact e w1"
    using sqlite_accounts.guardedD [OF sqlite_pairings.issue_pairing_keeps [OF pw] go w] by blast
  then have ok: "db_ok (w_db w1)" by (simp add: world_intact_def)
  let ?q = "p\<lparr>par_status := PairAuthorized, par_user_id := Some (acc_user_id u),
      par_authorized_at := Some (c (n + 1))\<rparr>"
  let ?w2 = "\<lparr>w_db = (w_db w1)\<lparr>db_pairings := update_where (\<lambda>x. par_pairing_id x = par_pairing_id p) (\<lambda>x. ?q)
       (db_pairings (w_db w1))\<rparr>, w_tick = n + 4\<rparr>"
  have c: "c (n + 1) \<le> c (n + 3)" "c (n + 3) \<le> c (n + 9)" "c (n + 1) \<le> c (n + 5)" "c (n + 5) \<le> c (n + 9)"
    by (rule quiet_times(2) [OF assms(1)]; simp)+
  have auth: "tui_authorize srv (PyStr code) (acc_user_id u) w1 = (Inr ?q, ?w2)"
    using quiet_authorize [OF assms(1) ok assms(3) p(3,1,2) _ _ u refl] live c by (simp add: srv n)
  have "keeps (guarded (world_intact e) world_evolves) (tui_authorize srv (PyStr code) (acc_user_id u))"
    unfolding tui_authorize_def srv sqlite_tui_simps by (rule sqlite_pairings.authorize_keeps [OF pw])
  from sqlite_accounts.guardedD [OF this auth w1] have ok2: "db_ok (w_db ?w2)" by (simp add: world_intact_def)
  have q: "?q \<in> set (db_pairings (w_db ?w2))"
    using p(1) by (auto simp: update_where_def intro!: image_eqI [of _ _ p])
  have prep: "prepare_consumption ?ps (par_pairing_id p) (PyStr code) ?w2 =
      (Inr (?q, u, ?q\<lparr>par_status := PairConsumed, par_consumed_at := Some (c (n + 5))\<rparr>),
       \<lparr>w_db = w_db ?w2, w_tick = n + 7\<rparr>)"
    using quiet_prepare [OF assms(1) ok2 assms(3) _ q, of "PyStr code" pepper u codes ids ttl] p(3) u live c
    by (simp add: later_than_def numeral_eq_Suc)
  let ?x = "tui_session i (acc_user_id u) digest (c (n + 5)) sttl (par_pairing_id p)"
  let ?r = "?q\<lparr>par_status := PairConsumed, par_consumed_at := Some (c (n + 5))\<rparr>"
  let ?w3 = "\<lparr>w_db = w_db ?w2, w_tick = n + 7\<rparr>"
  have ex: "tui_consume_attempts max_attempts srv ?q u ?r ?w3 =
    (Inr (?x, env_token e (n + 7)),
     \<lparr>w_db = (w_db ?w2)\<lparr>db_pairings := update_where (\<lambda>y. par_pairing_id y = par_pairing_id p) (\<lambda>y. ?r)
        (db_pairings (w_db ?w2)), db_sessions := db_sessions (w_db ?w2) @ [?x]\<rparr>, w_tick = n + 10\<rparr>)"
  proof -
    note go = quiet_exchange [OF assms(1) _ assms(3), of ?w3 ?q u "c (n + 5)" digest i sttl ?r ?x 4 codes ids pepper ttl]
    show ?thesis unfolding srv max_attempts_def numeral_eq_Suc
      using go ok2 q u live c tok sid quiet_times(1) [OF assms(1)]
      by (simp add: later_than_def numeral_eq_Suc)
  qed
  have "tui_consume srv (par_pairing_id p) (PyStr code) ?w2 =
    (Inr (?x, env_token e (n + 7)),
     \<lparr>w_db = (w_db ?w2)\<lparr>db_pairings := update_where (\<lambda>y. par_pairing_id y = par_pairing_id p) (\<lambda>y. ?r)
        (db_pairings (w_db ?w2)), db_sessions := db_sessions (w_db ?w2) @ [?x]\<rparr>, w_tick = n + 10\<rparr>)"
    using prep ex u(3) by (simp add: tui_consume_def srv del: tui_consume_attempts.simps)
  moreover have "?q\<lparr>par_status := PairConsumed, par_consumed_at := Some (ses_created_at ?x)\<rparr> \<in>
      set (update_where (\<lambda>y. par_pairing_id y = par_pairing_id p) (\<lambda>y. ?r) (db_pairings (w_db ?w2)))"
    using update_where_hit [OF q, of "\<lambda>y. par_pairing_id y = par_pairing_id p" "\<lambda>y. ?r"]
    by (simp add: tui_session_def)
  moreover have "ses_user_id ?x = acc_user_id u" "ses_audience ?x = AudienceTui" "par_status ?q = PairAuthorized"
    by (simp_all add: tui_session_def)
  ultimately show ?thesis
    using auth by (intro exI [of _ ?q] exI [of _ ?w2] exI [of _ ?x] exI conjI) (assumption | simp)+
qed

text \<open>A code is exchanged once: after a successful exchange every further exchange of the same
  pairing is refused, whatever code is presented, and leaves the database as it is, as long as
  no other process interferes.\<close>

theorem exchange_happens_once:
  assumes "quiet e c" "db_ok (w_db w)" "hashing_ok h"
    and srv: "srv = sqlite_tui_service e (sqlite_pairing_service e codes ids pepper ttl h) sttl"
    and spent: "tui_consume srv i code w = (Inr (x, raw), w1)"
  shows "\<exists>err w2. tui_consume srv i code' w1 = (Inl err, w2) \<and> err \<in> {InvalidCredential, PairingState} \<and>
    w_db w2 = w_db w1"
proof -
  note wired = sqlite_tui_wired [OF assms(3), of e codes ids pepper ttl sttl]
  have w: "world_intact e w" using assms(1,2) by (simp add: world_intact_def quiet_honest)
  from sqlite_pairings.tui_consume_sound [OF wired w spent [unfolded srv]]
  obtain p where p: "p \<in> set (db_pairings (w_db w1))" "par_pairing_id p = i" "par_status p = PairConsumed"
    by (auto simp: pairing_in_def)
  have "db_ok (w_db w1)"
    using sqlite_accounts.guardedD [OF sqlite_pairings.tui_consume_keeps [OF wired] spent [unfolded srv] w]
    by (simp add: world_intact_def)
  note rd = quiet_read_pairing(1) [OF assms(1) this p(1), unfolded p(2)]
  show ?thesis
  proof (cases "pairing_code_digest h code' pepper")
    case (Inl err)
    then show ?thesis
      by (simp add: tui_consume_def prepare_consumption_def srv pairing_digest_for_verification_def
          bind_act_def lift_act_def)
  next
    case (Inr d)
    then show ?thesis
      using rd p(3)
      by (simp add: tui_consume_def prepare_consumption_def srv pairing_digest_for_verification_def
          bind_act_def lift_act_def quiet_clock [OF assms(1)] require_secret_def raise_act_def return_act_def)
  qed
qed

end
