(* ===== verification/Auth_Federated.thy ===== *)
theory Auth_Federated
  imports Auth_Sessions
begin

text \<open>
  \<^verbatim>\<open>FederatedIdentityService\<close>: from the assertion of an identity provider to the internal user
  it is linked to, or to a new pending user when the provider may onboard. The provider adapter
  is a parameter. The theorems are proved against the contract of the federation storage and
  transferred to the SQLite storage.
\<close>

section \<open>Assertions\<close>

text \<open>The attributes of an assertion object before validation, and the validated dataclass.\<close>

record raw_assertion =
  raw_provider :: pyval
  raw_subject :: pyval
  raw_display_name :: pyval
  raw_email :: pyval
  raw_email_verified :: pyval
  raw_username :: pyval

record assertion =
  asr_provider :: string
  asr_subject :: string
  asr_display_name :: string
  asr_email :: "string option"
  asr_email_verified :: bool
  asr_username :: "string option"

definition make_assertion :: "raw_assertion \<Rightarrow> (auth_error, assertion) result" where
  "make_assertion raw =
     bind_result (auth_required_text True (raw_provider raw)) (\<lambda>provider.
     bind_result (auth_required_text False (raw_subject raw)) (\<lambda>subject.
     bind_result (auth_required_text False (raw_display_name raw)) (\<lambda>name.
     bind_result (auth_optional_text True (raw_email raw)) (\<lambda>email.
     bind_result (auth_optional_text False (raw_username raw)) (\<lambda>username.
     case raw_email_verified raw of
       PyBool verified \<Rightarrow>
         if email = None \<and> verified then Inl ProviderProtocol
         else Inr \<lparr>asr_provider = provider, asr_subject = subject, asr_display_name = name,
                   asr_email = email, asr_email_verified = verified, asr_username = username\<rparr>
     | _ \<Rightarrow> Inl ProviderProtocol)))))"

text \<open>
  What a provider adapter answers: \<open>None\<close> for an object that is not an assertion. An adapter
  may raise; which exception is not distinguished by the service.
\<close>

record 's provider_adapter =
  ad_provider_name :: pyval
  ad_authenticate :: "pyval \<Rightarrow> ('s, unit, raw_assertion option) action"

fun echoes_credential :: "string \<Rightarrow> pyval list \<Rightarrow> bool option" where
  "echoes_credential credential [] = Some False"
| "echoes_credential credential (claim # claims) =
     (case claim of
        PyStr text \<Rightarrow>
          (case compare_digest text credential of
             None \<Rightarrow> None
           | Some True \<Rightarrow> Some True
           | Some False \<Rightarrow> echoes_credential credential claims)
      | _ \<Rightarrow> echoes_credential credential claims)"

definition assertion_claims :: "raw_assertion \<Rightarrow> pyval list" where
  "assertion_claims raw = [raw_provider raw, raw_subject raw, raw_display_name raw, raw_email raw, raw_username raw]"

section \<open>The service\<close>

record 's federation_service =
  fs_storage :: "'s federation_port"
  fs_clock :: "'s source"
  fs_user_id :: "'s source"
  fs_onboarding :: "string list"

definition make_federation_service ::
  "'s federation_port \<Rightarrow> 's source \<Rightarrow> 's source \<Rightarrow> string list \<Rightarrow> 's federation_service" where
  "make_federation_service storage clock user_id_factory onboarding_providers =
     \<lparr>fs_storage = storage, fs_clock = clock, fs_user_id = user_id_factory,
      fs_onboarding = map (\<lambda>v. lower (strip v)) onboarding_providers\<rparr>"

definition normalize_assertion :: "raw_assertion option \<Rightarrow> (auth_error, assertion) result" where
  "normalize_assertion obj =
     (case obj of
        None \<Rightarrow> Inl ProviderProtocol
      | Some raw \<Rightarrow> map_error (\<lambda>_. ProviderProtocol) (make_assertion raw))"

definition assertion_identity ::
  "string \<Rightarrow> assertion \<Rightarrow> instant \<Rightarrow> (identity_error, external_identity) result" where
  "assertion_identity user_id a linked_at =
     make_external_identity (PyStr user_id) (PyStr (asr_provider a)) (PyStr (asr_subject a))
       (utc_datetime linked_at) (py_optional PyStr (asr_email a)) (py_optional PyStr (asr_username a))"

definition resolve_existing ::
  "'s federation_service \<Rightarrow> assertion \<Rightarrow> external_identity \<Rightarrow> ('s, user_account) auth_action" where
  "resolve_existing srv a existing =
     bind_act (uncaught (fp_read_user (fs_storage srv) (ext_user_id existing))) (\<lambda>found.
     case found of
       None \<Rightarrow> raise_act ConcurrentStateChange
     | Some account \<Rightarrow>
         bind_act (lift_identity (require_active_account account)) (\<lambda>_.
         bind_act (lift_identity (assertion_identity (acc_user_id account) a (ext_linked_at existing))) (\<lambda>refreshed.
         try_act (fp_refresh (fs_storage srv) refreshed (ext_linked_at existing) (acc_updated_at account))
           (\<lambda>e. if is_conflict e \<or> e = StorageNotFound then
                  bind_act (uncaught (fp_read_user (fs_storage srv) (acc_user_id account))) (\<lambda>current.
                  case current of
                    None \<Rightarrow> raise_act ConcurrentStateChange
                  | Some c \<Rightarrow>
                      bind_act (lift_identity (require_active_account c)) (\<lambda>_.
                      if acc_updated_at c \<noteq> acc_updated_at account then raise_act ConcurrentStateChange
                      else bind_act (uncaught (fp_read_identity (fs_storage srv) (asr_provider a) (asr_subject a)))
                        (\<lambda>_. raise_act ConcurrentStateChange)))
                else raise_act (FromStorage e))
           (\<lambda>_. return_act account))))"

text \<open>
  The inner loop over generations: an account, or \<open>None\<close> for the \<^verbatim>\<open>break\<close> to the next user
  identifier, with the \<^verbatim>\<open>linked_at\<close> reached.
\<close>

fun provision_generations ::
  "nat \<Rightarrow> 's federation_service \<Rightarrow> assertion \<Rightarrow> user_account \<Rightarrow> instant \<Rightarrow>
   ('s, user_account option \<times> instant) auth_action"
where
  "provision_generations 0 srv a account linked_at = raise_act ConcurrentStateChange"
| "provision_generations (Suc n) srv a account linked_at =
     bind_act (lift_identity (assertion_identity (acc_user_id account) a linked_at)) (\<lambda>identity.
     try_act (fp_provision (fs_storage srv) account identity)
       (\<lambda>e. if is_conflict e then
              bind_act (uncaught (fp_read_identity (fs_storage srv) (asr_provider a) (asr_subject a))) (\<lambda>winner.
              case winner of
                Some w \<Rightarrow> bind_act (resolve_existing srv a w) (\<lambda>known. return_act (Some known, linked_at))
              | None \<Rightarrow>
                  if e = GenerationConflict then
                    (if representable (linked_at + 1)
                     then provision_generations n srv a account (linked_at + 1)
                     else raise_act ConcurrentStateChange)
                  else return_act (None, linked_at))
            else raise_act (FromStorage e))
       (\<lambda>_. return_act (Some account, linked_at)))"

fun provision_users ::
  "nat \<Rightarrow> 's federation_service \<Rightarrow> assertion \<Rightarrow> instant \<Rightarrow> instant \<Rightarrow> ('s, user_account) auth_action" where
  "provision_users 0 srv a now linked_at = raise_act CredentialGeneration"
| "provision_users (Suc n) srv a now linked_at =
     bind_act (draw (fs_user_id srv)) (\<lambda>raw_id.
     bind_act (lift_act (generated_text 1 raw_id)) (\<lambda>user_id.
     bind_act (lift_identity (make_user_account (PyStr user_id) (PyStr (asr_display_name a)) (PyStr ''pending'')
       (PyBool True) (utc_datetime now) (utc_datetime now) (py_optional PyStr (asr_email a)))) (\<lambda>account.
     bind_act (provision_generations max_attempts srv a account linked_at) (\<lambda>(found, linked).
     case found of
       Some known \<Rightarrow> return_act known
     | None \<Rightarrow> provision_users n srv a now linked))))"

definition may_onboard :: "'s federation_service \<Rightarrow> assertion \<Rightarrow> bool" where
  "may_onboard srv a \<longleftrightarrow>
     asr_provider a \<in> set (fs_onboarding srv) \<and> asr_email a \<noteq> None \<and> asr_email_verified a"

definition resolve_normalized :: "'s federation_service \<Rightarrow> assertion \<Rightarrow> ('s, user_account) auth_action" where
  "resolve_normalized srv a =
     bind_act (read_clock (fs_clock srv)) (\<lambda>now.
     bind_act (uncaught (fp_read_identity (fs_storage srv) (asr_provider a) (asr_subject a))) (\<lambda>existing.
     case existing of
       Some e \<Rightarrow> resolve_existing srv a e
     | None \<Rightarrow>
         if \<not> may_onboard srv a then raise_act OnboardingNotAllowed
         else provision_users max_attempts srv a now now))"

definition resolve_assertion ::
  "'s federation_service \<Rightarrow> raw_assertion option \<Rightarrow> ('s, user_account) auth_action" where
  "resolve_assertion srv obj =
     bind_act (lift_act (normalize_assertion obj)) (resolve_normalized srv)"

definition federated_authenticate ::
  "'s federation_service \<Rightarrow> 's provider_adapter \<Rightarrow> pyval \<Rightarrow> ('s, user_account) auth_action" where
  "federated_authenticate srv adapter credential =
     (case auth_required_text True (ad_provider_name adapter) of
        Inl e \<Rightarrow> raise_act ProviderAuthentication
      | Inr expected_provider \<Rightarrow>
          try_act (ad_authenticate adapter credential) (\<lambda>_. raise_act ProviderAuthentication) (\<lambda>obj.
          case (case (obj, credential) of
                  (Some raw, PyStr text) \<Rightarrow> echoes_credential text (assertion_claims raw)
                | _ \<Rightarrow> Some False) of
            None \<Rightarrow> raise_act ProviderAuthentication
          | Some echoed \<Rightarrow>
              if echoed then raise_act ProviderProtocol
              else bind_act (lift_act (normalize_assertion obj)) (\<lambda>a.
                if asr_provider a \<noteq> expected_provider then raise_act ProviderProtocol
                else resolve_normalized srv a)))"

text \<open>\<^verbatim>\<open>FakeFederatedIdentityProvider\<close>: the adapter of the application tests and local demos.\<close>

definition raw_of_assertion :: "assertion \<Rightarrow> raw_assertion" where
  "raw_of_assertion a =
     \<lparr>raw_provider = PyStr (asr_provider a), raw_subject = PyStr (asr_subject a),
      raw_display_name = PyStr (asr_display_name a), raw_email = py_optional PyStr (asr_email a),
      raw_email_verified = PyBool (asr_email_verified a), raw_username = py_optional PyStr (asr_username a)\<rparr>"

definition fake_provider ::
  "pyval \<Rightarrow> (string \<times> assertion) list \<Rightarrow> (auth_error, 's provider_adapter) result" where
  "fake_provider provider_name assertions =
     bind_result (auth_required_text True provider_name) (\<lambda>name.
     Inr \<lparr>ad_provider_name = PyStr name,
          ad_authenticate = (\<lambda>credential.
            case credential of
              PyStr text \<Rightarrow>
                (case map_of assertions text of
                   None \<Rightarrow> raise_act ()
                 | Some a \<Rightarrow>
                     if asr_provider a \<noteq> name then raise_act ()
                     else return_act (Some (raw_of_assertion a)))
            | _ \<Rightarrow> raise_act ())\<rparr>)"

section \<open>Normalized assertions\<close>

definition valid_assertion :: "assertion \<Rightarrow> bool" where
  "valid_assertion a \<longleftrightarrow>
     clean_lower_text (asr_provider a) \<and> clean_text (asr_subject a) \<and> clean_text (asr_display_name a) \<and>
     optional_clean_lower (asr_email a) \<and> optional_clean (asr_username a) \<and>
     (asr_email_verified a \<longrightarrow> asr_email a \<noteq> None)"

text \<open>The services and the domain validate texts alike, with exceptions of their own.\<close>

lemma auth_text_domain:
  "auth_required_text lowercase v = Inr t \<longleftrightarrow> required_text lowercase v = Inr t"
  "auth_optional_text lowercase v = Inr o' \<longleftrightarrow> optional_text lowercase v = Inr o'"
proof -
  show req: "auth_required_text lowercase v = Inr t \<longleftrightarrow> required_text lowercase v = Inr t" for t
    by (cases v) (auto simp: auth_required_text_def required_text_def Let_def)
  then show "auth_optional_text lowercase v = Inr o' \<longleftrightarrow> optional_text lowercase v = Inr o'"
    by (auto simp: auth_optional_text_def optional_text_def result_simps)
qed

lemma make_assertion_Inr:
  "make_assertion raw = Inr a \<longleftrightarrow>
     required_text True (raw_provider raw) = Inr (asr_provider a) \<and>
     required_text False (raw_subject raw) = Inr (asr_subject a) \<and>
     required_text False (raw_display_name raw) = Inr (asr_display_name a) \<and>
     optional_text True (raw_email raw) = Inr (asr_email a) \<and>
     optional_text False (raw_username raw) = Inr (asr_username a) \<and>
     raw_email_verified raw = PyBool (asr_email_verified a) \<and> (asr_email_verified a \<longrightarrow> asr_email a \<noteq> None)"
  unfolding make_assertion_def
  by (cases a; cases "raw_email_verified raw") (auto simp: result_simps auth_text_domain)

lemma make_assertion_valid: "make_assertion raw = Inr a \<Longrightarrow> valid_assertion a"
  unfolding make_assertion_Inr valid_assertion_def
  by (blast intro: required_text_clean required_text_lower optional_text_clean)

lemma normalize_valid: "normalize_assertion obj = Inr a \<Longrightarrow> valid_assertion a"
  by (auto simp: normalize_assertion_def split: option.splits dest: make_assertion_valid)

lemma make_assertion_again: "valid_assertion a \<Longrightarrow> make_assertion (raw_of_assertion a) = Inr a"
proof -
  assume v: "valid_assertion a"
  have "auth_required_text True (PyStr (asr_provider a)) = Inr (asr_provider a)"
    "auth_required_text False (PyStr (asr_subject a)) = Inr (asr_subject a)"
    "auth_required_text False (PyStr (asr_display_name a)) = Inr (asr_display_name a)"
    "auth_optional_text True (py_optional PyStr (asr_email a)) = Inr (asr_email a)"
    "auth_optional_text False (py_optional PyStr (asr_username a)) = Inr (asr_username a)"
    using v by (simp_all add: auth_text_domain valid_assertion_def field_simps)
  then show ?thesis using v by (auto simp: make_assertion_def raw_of_assertion_def valid_assertion_def)
qed

lemma aware_utc_Inr: "aware_datetime (utc_datetime t) = Inr t' \<longleftrightarrow> t' = t \<and> representable t"
  by (auto simp: aware_datetime_def utc_datetime_def split: if_splits)

lemma assertion_identity_Inr:
  assumes "valid_assertion a" "clean_text u"
  shows "assertion_identity u a t = Inr x \<longleftrightarrow>
    representable t \<and>
    x = \<lparr>ext_user_id = u, ext_provider = asr_provider a, ext_subject = asr_subject a, ext_linked_at = t,
         ext_email = asr_email a, ext_username = asr_username a\<rparr>"
  using assms
  by (auto simp: assertion_identity_def make_external_identity_def result_simps valid_assertion_def field_simps
      aware_utc_Inr)

lemma pending_account_Inr:
  assumes "valid_assertion a" "clean_text u"
  shows "make_user_account (PyStr u) (PyStr (asr_display_name a)) (PyStr ''pending'')
       (PyBool True) (utc_datetime t) (utc_datetime t) (py_optional PyStr (asr_email a)) = Inr x \<longleftrightarrow>
    representable t \<and>
    x = \<lparr>acc_user_id = u, acc_display_name = asr_display_name a, acc_role = RolePending, acc_active = True,
         acc_created_at = t, acc_updated_at = t, acc_primary_email = asr_email a\<rparr>"
proof -
  have "choice_field InvalidRole role_of_text (PyStr ''pending'') = Inr RolePending"
    using choice_field_self(1) [of InvalidRole RolePending] by simp
  then show ?thesis
    using assms
    by (auto simp: make_user_account_def result_simps valid_assertion_def field_simps aware_utc_Inr)
qed

section \<open>Proofs against the contract\<close>

definition federation_wired ::
  "('s \<Rightarrow> bool) \<Rightarrow> ('s \<Rightarrow> 's \<Rightarrow> bool) \<Rightarrow> 's federation_port \<Rightarrow> 's federation_service \<Rightarrow> bool" where
  "federation_wired intact evolves port srv \<longleftrightarrow>
     fs_storage srv = port \<and> harmless (guarded intact evolves) (fs_clock srv) \<and>
     harmless (guarded intact evolves) (fs_user_id srv)"

context federation_registry begin

text \<open>The account is active in the state and a link of the provider subject leads to it.\<close>

definition resolved :: "'s \<Rightarrow> assertion \<Rightarrow> user_account \<Rightarrow> bool" where
  "resolved s a u \<longleftrightarrow>
     user_at s u \<and> acc_active u \<and>
     (\<exists>k. link_at s k \<and> ext_provider k = asr_provider a \<and> ext_subject k = asr_subject a \<and>
        ext_user_id k = acc_user_id u)"

lemma federation_parts:
  assumes "federation_wired intact evolves port srv"
  shows "fs_storage srv = port" "keeps (guarded intact evolves) (read_clock (fs_clock srv))"
    "keeps (guarded intact evolves) (draw (fs_user_id srv))"
  using assms by (auto simp: federation_wired_def harmless_def intro!: guarded_draw)

lemma identity_valid: "assertion_identity u a t = Inr x \<Longrightarrow> valid_external x"
  unfolding assertion_identity_def by (rule make_external_valid)

lemma resolve_existing_keeps:
  assumes "federation_wired intact evolves port srv"
  shows "keeps (guarded intact evolves) (resolve_existing srv a e)"
  unfolding resolve_existing_def federation_parts(1) [OF assms]
  by (auto intro!: guarded_bind guarded_lift_bind guarded_try guarded_uncaught guarded_pure keeps_if keeps_option
      read_user_keeps read_identity_keeps refresh_keeps dest: identity_valid)

lemma resolve_existing_sound:
  assumes "federation_wired intact evolves port srv" "valid_assertion a"
    "resolve_existing srv a e s = (Inr u, t)" "intact s"
  shows "resolved t a u"
proof -
  from assms(3) obtain s1 x where rd: "fp_read_user port (ext_user_id e) s = (Inr (Some u), s1)"
    and act: "acc_active u" and x: "assertion_identity (acc_user_id u) a (ext_linked_at e) = Inr x"
    and rf: "fp_refresh port x (ext_linked_at e) (acc_updated_at u) s1 = (Inr (), t)"
    by (auto simp: resolve_existing_def run_simps uncaught_def lift_identity_def require_active_account_def
        federation_parts(1) [OF assms(1)] split: if_splits)
  have s1: "intact s1" using guardedD [OF read_user_keeps rd assms(4)] by blast
  have u: "user_at s1 u" using read_user_law [OF assms(4) rd] by blast
  have "clean_text (acc_user_id u)" using user_valid [OF s1 u] by (simp add: valid_user_def)
  note xf = x [unfolded assertion_identity_Inr [OF assms(2) this]]
  note law = refresh_law [OF s1 rf]
  then obtain v where v: "user_at t v" "acc_user_id v = acc_user_id u" "acc_updated_at v = acc_updated_at u"
    using xf by (auto simp: active_at_def)
  have "evolves s1 t" using guardedD [OF refresh_keeps [OF identity_valid [OF x]] rf s1] by blast
  then have "v = u" using user_revision [OF s1 _ u v(1) v(2,3)] by simp
  with law v act xf show ?thesis by (auto simp: resolved_def ext_provider_key_def)
qed

lemma generations_keeps:
  assumes "federation_wired intact evolves port srv" "valid_user account"
  shows "keeps (guarded intact evolves) (provision_generations n srv a account l)"
proof (induction n arbitrary: l)
  case 0
  then show ?case by (simp add: guarded_pure)
next
  case (Suc n)
  show ?case
    unfolding provision_generations.simps federation_parts(1) [OF assms(1)]
    by (auto intro!: guarded_bind guarded_lift_bind guarded_try guarded_uncaught guarded_pure keeps_if keeps_option
        resolve_existing_keeps [OF assms(1)] read_identity_keeps provision_keeps assms(2) Suc.IH
        dest: identity_valid)
qed

lemma generations_sound:
  assumes "federation_wired intact evolves port srv" "valid_assertion a" "valid_user account" "acc_active account"
  shows "provision_generations n srv a account l s = (Inr (Some u, l'), t) \<Longrightarrow> intact s \<Longrightarrow> resolved t a u"
proof (induction n arbitrary: s l)
  case 0
  then show ?case by simp
next
  case (Suc n)
  have clean: "clean_text (acc_user_id account)" using assms(3) by (simp add: valid_user_def)
  from Suc.prems(1) obtain x where x: "assertion_identity (acc_user_id account) a l = Inr x"
    and tried: "fp_provision port account x s = (Inr (), t) \<and> u = account \<or>
      (\<exists>e s1 w s2. fp_provision port account x s = (Inl e, s1) \<and>
         fp_read_identity port (asr_provider a) (asr_subject a) s1 = (Inr (Some w), s2) \<and>
         resolve_existing srv a w s2 = (Inr u, t)) \<or>
      (\<exists>e s1 s2. fp_provision port account x s = (Inl e, s1) \<and>
         fp_read_identity port (asr_provider a) (asr_subject a) s1 = (Inr None, s2) \<and>
         provision_generations n srv a account (l + 1) s2 = (Inr (Some u, l'), t))"
    by (auto simp: run_simps uncaught_def lift_identity_def federation_parts(1) [OF assms(1)] split: if_splits)
  note xf = x [unfolded assertion_identity_Inr [OF assms(2) clean]]
  have next_intact: "intact s1 \<and> (fp_read_identity port p q s1 = (r', s2) \<longrightarrow> intact s2)"
    if "fp_provision port account x s = (r, s1)" for r s1 p q r' s2
    using guardedD [OF provision_keeps [OF assms(3) identity_valid [OF x]] that Suc.prems(2)]
      guardedD [OF read_identity_keeps, of p q s1 r' s2] by blast
  from tried show ?case
  proof (elim disjE exE conjE)
    assume c: "fp_provision port account x s = (Inr (), t)" "u = account"
    from provision_law [OF Suc.prems(2) c(1)] c(2) xf assms(4) show ?thesis by (auto simp: resolved_def)
  next
    fix e s1 w s2
    assume c: "fp_provision port account x s = (Inl e, s1)"
      "fp_read_identity port (asr_provider a) (asr_subject a) s1 = (Inr (Some w), s2)"
      "resolve_existing srv a w s2 = (Inr u, t)"
    from next_intact [OF c(1)] c(2) have "intact s2" by blast
    with resolve_existing_sound [OF assms(1,2) c(3)] show ?thesis .
  next
    fix e s1 s2
    assume c: "fp_provision port account x s = (Inl e, s1)"
      "fp_read_identity port (asr_provider a) (asr_subject a) s1 = (Inr None, s2)"
      "provision_generations n srv a account (l + 1) s2 = (Inr (Some u, l'), t)"
    from next_intact [OF c(1)] c(2) have "intact s2" by blast
    with Suc.IH [OF c(3)] show ?thesis .
  qed
qed

lemma users_keeps:
  assumes "federation_wired intact evolves port srv"
  shows "keeps (guarded intact evolves) (provision_users n srv a now l)"
proof (induction n arbitrary: l)
  case 0
  then show ?case by (simp add: guarded_pure)
next
  case (Suc n)
  show ?case
    by (auto intro!: guarded_bind guarded_lift_bind guarded_pure keeps_option federation_parts [OF assms]
        generations_keeps [OF assms] Suc.IH dest: make_user_valid simp: split_beta)
qed

lemma users_sound:
  assumes "federation_wired intact evolves port srv" "valid_assertion a"
  shows "provision_users n srv a now l s = (Inr u, t) \<Longrightarrow> intact s \<Longrightarrow> resolved t a u"
proof (induction n arbitrary: s l)
  case 0
  then show ?case by simp
next
  case (Suc n)
  from Suc.prems(1) obtain raw s1 i account s2 l2
    where dr: "draw (fs_user_id srv) s = (Inr raw, s1)" and gi: "generated_text 1 raw = Inr i"
    and mk: "make_user_account (PyStr i) (PyStr (asr_display_name a)) (PyStr ''pending'')
       (PyBool True) (utc_datetime now) (utc_datetime now) (py_optional PyStr (asr_email a)) = Inr account"
    and tried: "provision_generations max_attempts srv a account l s1 = (Inr (Some u, l2), t) \<or>
      provision_generations max_attempts srv a account l s1 = (Inr (None, l2), s2) \<and>
      provision_users n srv a now l2 s2 = (Inr u, t)"
    by (auto simp: run_simps lift_identity_def)
  have "clean_text i" using generated_text_clean [OF gi] by blast
  from mk [unfolded pending_account_Inr [OF assms(2) this]] have act: "acc_active account" by simp
  have v: "valid_user account" using mk by (rule make_user_valid)
  have s1: "intact s1" using guardedD [OF federation_parts(3) [OF assms(1)] dr Suc.prems(2)] by blast
  from tried show ?case
  proof (elim disjE conjE)
    assume "provision_generations max_attempts srv a account l s1 = (Inr (Some u, l2), t)"
    from generations_sound [OF assms v act this s1] show ?thesis .
  next
    assume c: "provision_generations max_attempts srv a account l s1 = (Inr (None, l2), s2)"
      "provision_users n srv a now l2 s2 = (Inr u, t)"
    have "intact s2" using guardedD [OF generations_keeps [OF assms(1) v] c(1) s1] by blast
    with Suc.IH [OF c(2)] show ?thesis .
  qed
qed

lemma resolve_sound:
  assumes "federation_wired intact evolves port srv" "valid_assertion a"
    "resolve_normalized srv a s = (Inr u, t)" "intact s"
  shows "resolved t a u"
proof -
  from assms(3) obtain now s1 found s2
    where cl: "read_clock (fs_clock srv) s = (Inr now, s1)"
    and rd: "fp_read_identity port (asr_provider a) (asr_subject a) s1 = (Inr found, s2)"
    and go: "(\<exists>e. resolve_existing srv a e s2 = (Inr u, t)) \<or>
      provision_users max_attempts srv a now now s2 = (Inr u, t)"
    by (auto simp: resolve_normalized_def run_simps uncaught_def federation_parts(1) [OF assms(1)]; blast)
  have "intact s1" using guardedD [OF federation_parts(2) [OF assms(1)] cl assms(4)] by blast
  then have "intact s2" using guardedD [OF read_identity_keeps rd] by blast
  with go resolve_existing_sound [OF assms(1,2)] users_sound [OF assms(1,2)] show ?thesis by blast
qed

end

section \<open>The service on the SQLite storage\<close>

definition sqlite_federation_service ::
  "environment \<Rightarrow> (nat \<Rightarrow> pyval) \<Rightarrow> string list \<Rightarrow> world federation_service" where
  "sqlite_federation_service e ids onboarding =
     make_federation_service (sqlite_federation_port e) (tick_source (env_clock e)) (tick_source ids) onboarding"

lemma sqlite_federation_simps [simp]:
  "fs_storage (sqlite_federation_service e ids onboarding) = sqlite_federation_port e"
  "fs_clock (sqlite_federation_service e ids onboarding) = tick_source (env_clock e)"
  "fs_user_id (sqlite_federation_service e ids onboarding) = tick_source ids"
  "fs_onboarding (sqlite_federation_service e ids onboarding) = map (\<lambda>v. lower (strip v)) onboarding"
  by (simp_all add: sqlite_federation_service_def make_federation_service_def)

lemma sqlite_federation_wired:
  "federation_wired (world_intact e) world_evolves (sqlite_federation_port e) (sqlite_federation_service e ids ob)"
  by (simp add: federation_wired_def tick_source_harmless)

text \<open>C8. Resolving an assertion is sound under interference: the account that is returned is a row of
  the database the service leaves, it is active there, and the provider subject of the validated
  assertion is linked to that very account, whichever of the refresh, provisioning and
  lost-race paths was taken and whatever other processes did in between.\<close>

theorem resolved_account_is_linked:
  assumes "honest e" "db_ok (w_db w)"
    and "resolve_assertion (sqlite_federation_service e ids ob) obj w = (Inr u, w')"
  shows "\<exists>a. normalize_assertion obj = Inr a \<and> u \<in> set (db_users (w_db w')) \<and> acc_active u \<and>
    (\<exists>k \<in> set (db_identities (w_db w')). ext_provider k = asr_provider a \<and> ext_subject k = asr_subject a \<and>
       ext_user_id k = acc_user_id u)"
proof -
  obtain a where a: "normalize_assertion obj = Inr a"
    and go: "resolve_normalized (sqlite_federation_service e ids ob) a w = (Inr u, w')"
    using assms(3) by (auto simp: resolve_assertion_def run_simps)
  have "world_intact e w" using assms(1,2) by (simp add: world_intact_def)
  from sqlite_federation.resolve_sound [OF sqlite_federation_wired normalize_valid [OF a] go this] a
  show ?thesis by (auto simp: sqlite_federation.resolved_def user_in_def link_in_def)
qed

section \<open>A quiet environment\<close>

lemma quiet_identity:
  assumes "quiet e c" "db_ok (w_db w)" "lower p = p"
  shows "uncaught (fp_read_identity (sqlite_federation_port e) p q) w =
    (Inr (lookup_by ext_provider_key (db_identities (w_db w)) (p, q)), \<lparr>w_db = w_db w, w_tick = Suc (w_tick w)\<rparr>)"
proof -
  have "read_external_identity p q (w_db w) =
      (Inr (lookup_by ext_provider_key (db_identities (w_db w)) (p, q)), w_db w)"
  proof (cases "lookup_by ext_provider_key (db_identities (w_db w)) (p, q)")
    case None
    then show ?thesis
      by (simp del: lookup_by_None add: read_external_identity_def hydrate_optional_def assms(3))
  next
    case (Some k)
    then have "k \<in> set (db_identities (w_db w))" by (auto dest: lookup_by_SomeD)
    from hydrate_ok(2) [OF assms(2) this] Some show ?thesis
      by (simp add: read_external_identity_def hydrate_optional_def assms(3))
  qed
  then show ?thesis
    by (intro uncaught_values) (simp add: sqlite_federation_port_def quiet_call [OF assms(1)])
qed

lemma quiet_lookup:
  assumes q: "quiet e c" and ok: "db_ok (w_db w)" and a: "valid_assertion a"
  shows "resolve_normalized (sqlite_federation_service e ids ob) a w =
    (case lookup_by ext_provider_key (db_identities (w_db w)) (asr_provider a, asr_subject a) of
       Some k \<Rightarrow> resolve_existing (sqlite_federation_service e ids ob) a k
     | None \<Rightarrow>
         if \<not> may_onboard (sqlite_federation_service e ids ob) a then raise_act OnboardingNotAllowed
         else provision_users max_attempts (sqlite_federation_service e ids ob) a (c (w_tick w)) (c (w_tick w)))
    \<lparr>w_db = w_db w, w_tick = w_tick w + 2\<rparr>"
proof -
  have "lower (asr_provider a) = asr_provider a" using a by (simp add: valid_assertion_def clean_lower_text_def)
  from quiet_identity [OF q _ this, of "w\<lparr>w_tick := Suc (w_tick w)\<rparr>"] ok show ?thesis
    by (simp add: resolve_normalized_def quiet_clock [OF q] numeral_eq_Suc)
qed

lemma provision_exact:
  assumes "db_ok d" "\<not> user_exists d (acc_user_id u)" "acc_created_at u \<le> acc_updated_at u"
    "ext_user_id x = acc_user_id u" "(ext_provider x, ext_subject x, ext_linked_at x) \<notin> set (db_generations d)"
    "ext_provider_key x \<notin> ext_provider_key ` set (db_identities d)"
  shows "provision_user_with_identity u x d =
    (Inr (), d\<lparr>db_users := db_users d @ [u],
       db_generations := db_generations d @ [(ext_provider x, ext_subject x, ext_linked_at x)],
       db_identities := db_identities d @ [x]\<rparr>)"
proof -
  have "ext_user_provider x \<notin> ext_user_provider ` set (db_identities d)"
    using assms(1,2,4) by (auto simp: ok_defs ext_user_provider_def image_iff)
  then show ?thesis
    using assms(2-6)
    by (simp add: provision_user_with_identity_def insert_user_def reserve_generation_def insert_identity_def
        user_exists_def transaction_def)
qed

text \<open>C36. Onboarding follows the policy: an unknown provider subject without a verified email from an
  onboarding provider is refused without a change to the database; otherwise it gets a new
  account that is pending, with the drawn identifier and the verified email, linked to the
  subject. (No other process interferes, and the drawn identifier and the generation are fresh.)\<close>

theorem onboarding_follows_policy:
  assumes "quiet e c" "db_ok (w_db w)" "normalize_assertion obj = Inr a"
    and unknown: "(asr_provider a, asr_subject a) \<notin> ext_provider_key ` set (db_identities (w_db w))"
    and fresh: "generated_text 1 (ids (w_tick w + 2)) = Inr i" "\<not> user_exists (w_db w) i"
      "(asr_provider a, asr_subject a, c (w_tick w)) \<notin> set (db_generations (w_db w))"
    and x: "x = \<lparr>ext_user_id = i, ext_provider = asr_provider a, ext_subject = asr_subject a,
      ext_linked_at = c (w_tick w), ext_email = asr_email a, ext_username = asr_username a\<rparr>"
    and u: "u = \<lparr>acc_user_id = i, acc_display_name = asr_display_name a, acc_role = RolePending,
      acc_active = True, acc_created_at = c (w_tick w), acc_updated_at = c (w_tick w),
      acc_primary_email = asr_email a\<rparr>"
    and d: "d = w_db w"
  shows "resolve_assertion (sqlite_federation_service e ids ob) obj w =
    (if asr_provider a \<in> (\<lambda>v. lower (strip v)) ` set ob \<and> asr_email a \<noteq> None \<and> asr_email_verified a
     then (Inr u, \<lparr>w_db = d\<lparr>db_users := db_users d @ [u],
        db_generations := db_generations d @ [(asr_provider a, asr_subject a, c (w_tick w))],
        db_identities := db_identities d @ [x]\<rparr>, w_tick = w_tick w + 4\<rparr>)
     else (Inl OnboardingNotAllowed, \<lparr>w_db = d, w_tick = w_tick w + 2\<rparr>))"
proof -
  let ?srv = "sqlite_federation_service e ids ob"
  have a: "valid_assertion a" using normalize_valid [OF assms(3)] .
  have none: "lookup_by ext_provider_key (db_identities (w_db w)) (asr_provider a, asr_subject a) = None"
    using unknown by simp
  have start: "resolve_assertion ?srv obj w = resolve_normalized ?srv a w"
    by (simp add: resolve_assertion_def assms(3) bind_act_def lift_act_def)
  have policy: "may_onboard ?srv a \<longleftrightarrow>
      asr_provider a \<in> (\<lambda>v. lower (strip v)) ` set ob \<and> asr_email a \<noteq> None \<and> asr_email_verified a"
    by (simp add: may_onboard_def)
  show ?thesis
  proof (cases "may_onboard ?srv a")
    case False
    then show ?thesis
      unfolding start quiet_lookup [OF assms(1,2) a] none d using policy by (simp add: raise_act_def)
  next
    case True
    have clean: "clean_text i" using generated_text_clean [OF fresh(1)] by blast
    have made: "make_user_account (PyStr i) (PyStr (asr_display_name a)) (PyStr ''pending'')
       (PyBool True) (utc_datetime (c (w_tick w))) (utc_datetime (c (w_tick w))) (py_optional PyStr (asr_email a)) = Inr u"
      unfolding pending_account_Inr [OF a clean] u using quiet_times(1) [OF assms(1)] by simp
    have ident: "assertion_identity i a (c (w_tick w)) = Inr x"
      unfolding assertion_identity_Inr [OF a clean] x using quiet_times(1) [OF assms(1)] by simp
    have "provision_user_with_identity u x (w_db w) =
      (Inr (), d\<lparr>db_users := db_users d @ [u],
        db_generations := db_generations d @ [(asr_provider a, asr_subject a, c (w_tick w))],
        db_identities := db_identities d @ [x]\<rparr>)"
      using provision_exact [OF assms(2), of u x] fresh unknown by (simp add: u x d ext_provider_key_def)
    then have store: "fp_provision (sqlite_federation_port e) u x \<lparr>w_db = w_db w, w_tick = w_tick w + 3\<rparr> =
      (Inr (), \<lparr>w_db = d\<lparr>db_users := db_users d @ [u],
        db_generations := db_generations d @ [(asr_provider a, asr_subject a, c (w_tick w))],
        db_identities := db_identities d @ [x]\<rparr>, w_tick = w_tick w + 4\<rparr>)"
      by (simp add: sqlite_federation_port_def quiet_call [OF assms(1)])
    have uid: "acc_user_id u = i" by (simp add: u)
    have drawn: "draw (tick_source ids) \<lparr>w_db = w_db w, w_tick = w_tick w + 2\<rparr> =
        (Inr (ids (w_tick w + 2)), \<lparr>w_db = w_db w, w_tick = w_tick w + 3\<rparr>)"
      by (simp add: draw_def tick_source_def)
    have five: "max_attempts = Suc 4" by (simp add: max_attempts_def)
    let ?w3 = "\<lparr>w_db = w_db w, w_tick = w_tick w + 3\<rparr>"
    let ?w4 = "\<lparr>w_db = d\<lparr>db_users := db_users d @ [u],
        db_generations := db_generations d @ [(asr_provider a, asr_subject a, c (w_tick w))],
        db_identities := db_identities d @ [x]\<rparr>, w_tick = w_tick w + 4\<rparr>"
    have "provision_generations max_attempts ?srv a u (c (w_tick w)) ?w3 = (Inr (Some u, c (w_tick w)), ?w4)"
      unfolding five provision_generations.simps uid
      by (simp add: ident store bind_act_def lift_identity_def lift_act_def try_act_def return_act_def)
    then have "provision_users (Suc 4) ?srv a (c (w_tick w)) (c (w_tick w)) \<lparr>w_db = w_db w, w_tick = w_tick w + 2\<rparr> =
      (Inr u, ?w4)"
      unfolding provision_users.simps sqlite_federation_simps
      by (simp add: drawn [simplified] fresh(1) [simplified] made bind_act_def lift_act_def lift_identity_def return_act_def)
    then have "provision_users max_attempts ?srv a (c (w_tick w)) (c (w_tick w)) \<lparr>w_db = w_db w, w_tick = w_tick w + 2\<rparr> =
      (Inr u, ?w4)"
      by (simp only: five)
    then show ?thesis
      unfolding start quiet_lookup [OF assms(1,2) a] none using True policy by simp
  qed
qed

lemma refresh_exact:
  assumes "db_ok d" "k \<in> set (db_identities d)" "linked_row x (ext_linked_at k) k"
    "user_at_revision d (ext_user_id k) rvn"
  shows "refresh_external_identity x (ext_linked_at k) rvn d =
    (Inr (), d\<lparr>db_identities := update_where (\<lambda>r. ext_provider_key r = ext_provider_key k)
       (\<lambda>r. r\<lparr>ext_email := ext_email x, ext_username := ext_username x\<rparr>) (db_identities d)\<rparr>)"
proof -
  let ?P = "\<lambda>r. linked_row x (ext_linked_at k) r \<and> user_at_revision d (ext_user_id r) rvn"
  have uniq: "unique_on ext_provider_key (db_identities d)" using assms(1) by (simp add: ok_defs)
  have key: "?P r \<Longrightarrow> ext_provider_key r = ext_provider_key k" for r
    using assms(3) by (auto simp: linked_row_def link_key_def ext_provider_key_def)
  have "count_where ?P (db_identities d) \<noteq> 1 \<Longrightarrow> \<forall>r \<in> set (db_identities d). \<not> ?P r"
    by (rule count_where_unique [OF uniq key])
  with assms(2-4) have one: "count_where ?P (db_identities d) = 1" by blast
  have "?P r \<longleftrightarrow> ext_provider_key r = ext_provider_key k" if "r \<in> set (db_identities d)" for r
    using key [of r] unique_onD [OF uniq that assms(2)] assms(3,4) by blast
  then have "update_where ?P f (db_identities d) =
      update_where (\<lambda>r. ext_provider_key r = ext_provider_key k) f (db_identities d)" for f
    by (intro update_where_cong) simp_all
  with one show ?thesis
    by (simp add: refresh_external_identity_def update_identities_def transaction_def)
qed

text \<open>A known provider subject leads to the account it is linked to and never to another or a new one:
  an active account is returned as it is stored, with only the email and username of the link
  refreshed from the assertion; a disabled account is refused and nothing is written. (No other
  process interferes.)\<close>

theorem known_subject_resolves:
  assumes "quiet e c" "db_ok (w_db w)" "normalize_assertion obj = Inr a"
    and k: "k \<in> set (db_identities (w_db w))" "ext_provider k = asr_provider a" "ext_subject k = asr_subject a"
    and u: "u \<in> set (db_users (w_db w))" "acc_user_id u = ext_user_id k"
  shows "resolve_assertion (sqlite_federation_service e ids ob) obj w =
    (if acc_active u
     then (Inr u, \<lparr>w_db = (w_db w)\<lparr>db_identities := update_where (\<lambda>r. ext_provider_key r = ext_provider_key k)
       (\<lambda>r. r\<lparr>ext_email := asr_email a, ext_username := asr_username a\<rparr>) (db_identities (w_db w))\<rparr>,
       w_tick = w_tick w + 4\<rparr>)
     else (Inl (FromIdentity AccountDisabled), \<lparr>w_db = w_db w, w_tick = w_tick w + 3\<rparr>))"
proof -
  let ?srv = "sqlite_federation_service e ids ob" and ?w = "\<lambda>n. \<lparr>w_db = w_db w, w_tick = n\<rparr>"
  have a: "valid_assertion a" using normalize_valid [OF assms(3)] .
  have found: "lookup_by ext_provider_key (db_identities (w_db w)) (asr_provider a, asr_subject a) = Some k"
    using assms(2) k by (simp add: lookup_by_Some_iff ok_defs ext_provider_key_def)
  have "valid_user u" "valid_external k" using assms(2) u(1) k(1) by (auto simp: ok_defs)
  then have clean: "clean_text (ext_user_id k)" "representable (ext_linked_at k)"
    by (simp_all add: valid_external_def)
  let ?x = "\<lparr>ext_user_id = ext_user_id k, ext_provider = asr_provider a, ext_subject = asr_subject a,
      ext_linked_at = ext_linked_at k, ext_email = asr_email a, ext_username = asr_username a\<rparr>"
  have ident: "assertion_identity (ext_user_id k) a (ext_linked_at k) = Inr ?x"
    unfolding assertion_identity_Inr [OF a clean(1)] using clean(2) by simp
  have read: "uncaught (fp_read_user (sqlite_federation_port e) (ext_user_id k)) (?w (w_tick w + 2)) =
      (Inr (Some u), ?w (w_tick w + 3))"
    using read_row_exact(1) [OF assms(2) u(1)] u(2)
    by (intro uncaught_values) (simp add: sqlite_federation_port_def quiet_call [OF assms(1)])
  have store: "fp_refresh (sqlite_federation_port e) ?x (ext_linked_at k) (acc_updated_at u) (?w (w_tick w + 3)) =
      (Inr (), \<lparr>w_db = (w_db w)\<lparr>db_identities := update_where (\<lambda>r. ext_provider_key r = ext_provider_key k)
       (\<lambda>r. r\<lparr>ext_email := asr_email a, ext_username := asr_username a\<rparr>) (db_identities (w_db w))\<rparr>,
       w_tick = w_tick w + 4\<rparr>)" if "acc_active u"
  proof -
    have "user_at_revision (w_db w) (ext_user_id k) (acc_updated_at u)"
      using u that by (auto simp: user_at_revision_def list_ex_iff)
    moreover have "linked_row ?x (ext_linked_at k) k" using k by (simp add: linked_row_def link_key_def)
    ultimately show ?thesis
      using refresh_exact [OF assms(2) k(1), of ?x "acc_updated_at u"]
      by (simp add: sqlite_federation_port_def quiet_call [OF assms(1)])
  qed
  have "resolve_existing ?srv a k (?w (w_tick w + 2)) =
    (if acc_active u
     then (Inr u, \<lparr>w_db = (w_db w)\<lparr>db_identities := update_where (\<lambda>r. ext_provider_key r = ext_provider_key k)
       (\<lambda>r. r\<lparr>ext_email := asr_email a, ext_username := asr_username a\<rparr>) (db_identities (w_db w))\<rparr>,
       w_tick = w_tick w + 4\<rparr>)
     else (Inl (FromIdentity AccountDisabled), ?w (w_tick w + 3)))"
    using read store
    by (simp add: resolve_existing_def bind_act_def lift_identity_def lift_act_def require_active_account_def
        u(2) ident try_act_def return_act_def)
  then show ?thesis
    by (simp add: resolve_assertion_def assms(3) bind_act_def lift_act_def quiet_lookup [OF assms(1,2) a] found)
qed

section \<open>Authenticating through an adapter\<close>

text \<open>Credentials do not come back as claims: when authentication through any adapter succeeds with a
  text credential, no text claim of the assertion the adapter returned equals the credential,
  the normalized provider is the one the adapter is registered for, and the account is the one
  the assertion resolves to.\<close>

theorem authenticated_claims_are_clean:
  assumes "federated_authenticate srv adapter (PyStr credential) s = (Inr u, t)"
  shows "\<exists>raw a s1. ad_authenticate adapter (PyStr credential) s = (Inr (Some raw), s1) \<and>
    make_assertion raw = Inr a \<and> PyStr credential \<notin> set (assertion_claims raw) \<and>
    auth_required_text True (ad_provider_name adapter) = Inr (asr_provider a) \<and>
    resolve_assertion srv (Some raw) s1 = (Inr u, t)"
proof -
  have clean: "echoes_credential credential claims = Some False \<Longrightarrow> PyStr credential \<notin> set claims" for claims
    by (induction claims)
      (auto simp: compare_digest_def split: pyval.splits option.splits bool.splits if_splits)
  obtain name obj s1 where n: "auth_required_text True (ad_provider_name adapter) = Inr name"
    and ad: "ad_authenticate adapter (PyStr credential) s = (Inr obj, s1)"
    and go: "(case (case (obj, PyStr credential) of
                  (Some raw, PyStr text) \<Rightarrow> echoes_credential text (assertion_claims raw)
                | _ \<Rightarrow> Some False) of
            None \<Rightarrow> raise_act ProviderAuthentication
          | Some echoed \<Rightarrow>
              if echoed then raise_act ProviderProtocol
              else bind_act (lift_act (normalize_assertion obj)) (\<lambda>a.
                if asr_provider a \<noteq> name then raise_act ProviderProtocol
                else resolve_normalized srv a)) s1 = (Inr u, t)"
    using assms by (auto simp: federated_authenticate_def action_simps split: sum.splits)
  obtain raw where raw: "obj = Some raw"
    using go by (cases obj) (auto simp: normalize_assertion_def action_simps)
  with go obtain a where e: "echoes_credential credential (assertion_claims raw) = Some False"
    and a: "make_assertion raw = Inr a" "asr_provider a = name" "resolve_normalized srv a s1 = (Inr u, t)"
    by (auto simp: normalize_assertion_def run_simps split: option.splits if_splits)
  have "resolve_assertion srv (Some raw) s1 = (Inr u, t)"
    using a by (simp add: resolve_assertion_def normalize_assertion_def bind_act_def lift_act_def)
  with n ad raw a clean [OF e] show ?thesis by blast
qed

text \<open>C37. A subject whose display name is not ASCII cannot authenticate: whatever the credential, as long
  as neither provider nor subject repeats it, the service answers that the provider failed,
  although the adapter returned a valid assertion that \<^verbatim>\<open>resolve\<close> accepts. The comparison of the
  claims with the credential raises \<^verbatim>\<open>TypeError\<close>, which the handler around it takes for a
  failure of the provider.\<close>

theorem accented_name_is_refused:
  assumes "ad_authenticate adapter (PyStr credential) s = (Inr (Some (raw_of_assertion a)), t)"
    and "valid_assertion a" "\<not> ascii_text (asr_display_name a)"
    and "asr_provider a \<noteq> credential" "asr_subject a \<noteq> credential"
  shows "federated_authenticate srv adapter (PyStr credential) s =
      (Inl ProviderAuthentication,
       if \<exists>n. auth_required_text True (ad_provider_name adapter) = Inr n then t else s) \<and>
    normalize_assertion (Some (raw_of_assertion a)) = Inr a"
  using assms make_assertion_again [OF assms(2)]
  by (auto simp: normalize_assertion_def federated_authenticate_def try_act_def raise_act_def assertion_claims_def raw_of_assertion_def
      compare_digest_def split: sum.splits)

end
