(* ===== verification/Edge_Rate_Limit.thy ===== *)
theory Edge_Rate_Limit
  imports Py_Text "HOL-Library.AList" "HOL-Library.Log_Nat"
begin

text \<open>
  The admission limits of \<^verbatim>\<open>scripts/thebitlab_edge_rate_limit.py\<close>: rules and buckets, the two
  atomic fixed-window stores (in memory, and SQLite with its roll back), and their common
  contract as a locale. Times are the doubles of \<^verbatim>\<open>datetime.timestamp\<close>, as rationals; the
  arithmetic the source does on them is exact.
\<close>

section \<open>Time\<close>

text \<open>
  \<^verbatim>\<open>timestamp()\<close> of an aware datetime: the double nearest to the number of seconds since 1970.
  With \<open>m\<close> microseconds and \<open>k\<close> binary places left for the fraction, no tie occurs below the
  year 10000, so rounding halves up is rounding to nearest.
\<close>

definition unix_epoch :: instant where
  "unix_epoch = 62135596800 * 10 ^ 6"

definition double_places :: "nat \<Rightarrow> nat" where
  "double_places m = 73 - floorlog 2 (m * 2 ^ 20 div 10 ^ 6)"

definition double_seconds :: "int \<Rightarrow> rat" where
  "double_seconds m =
     (let k = double_places (nat m) in of_int ((m * 2 ^ (k + 1) + 10 ^ 6) div (2 * 10 ^ 6)) / 2 ^ k)"

datatype rate_error = RateStoreError | RateOverflow

definition rate_utc :: "pyval \<Rightarrow> (rate_error, instant) result" where
  "rate_utc v =
     (case v of
        PyDatetime wall (Some offset) \<Rightarrow>
          if representable (wall - offset) then Inr (wall - offset) else Inl RateOverflow
      | _ \<Rightarrow> Inl RateStoreError)"

section \<open>Rules and buckets\<close>

definition route_char :: "char \<Rightarrow> bool" where
  "route_char c \<longleftrightarrow>
     (let n = code_point c in 97 \<le> n \<and> n \<le> 122 \<or> 48 \<le> n \<and> n \<le> 57)"

definition route_text :: "string \<Rightarrow> bool" where
  "route_text t \<longleftrightarrow>
     (case t of
        [] \<Rightarrow> False
      | c # cs \<Rightarrow> route_char c \<and> length cs \<le> 127 \<and>
          list_all (\<lambda>x. route_char x \<or> x = CHR ''_'' \<or> x = CHR ''.'' \<or> x = CHR '':'' \<or> x = CHR ''-'') cs)"

record rate_rule =
  rule_name :: string
  rule_limit :: int
  rule_window :: int

text \<open>\<^verbatim>\<open>RateLimitRule\<close>; the window is a \<^verbatim>\<open>timedelta\<close> in microseconds and becomes whole seconds.\<close>

definition make_rate_rule :: "pyval \<Rightarrow> pyval \<Rightarrow> int \<Rightarrow> rate_rule option" where
  "make_rate_rule name limit window =
     (case (name, limit) of
        (PyStr n, PyInt l) \<Rightarrow>
          if route_text n \<and> 1 \<le> l \<and> l \<le> 1000000 \<and> window mod 10 ^ 6 = 0 \<and>
             1 \<le> window div 10 ^ 6 \<and> window div 10 ^ 6 \<le> 86400
          then Some \<lparr>rule_name = n, rule_limit = l, rule_window = window div 10 ^ 6\<rparr>
          else None
      | _ \<Rightarrow> None)"

record rate_bucket =
  bkt_key :: string
  bkt_limit :: int
  bkt_window :: int

definition bucket_key_text :: "string \<Rightarrow> bool" where
  "bucket_key_text t \<longleftrightarrow>
     take 7 t = ''global:'' \<or>
     take 12 t = ''hmac-sha256:'' \<and> length t = 76 \<and> list_all is_hex_digit (drop 12 t)"

definition valid_bucket :: "rate_bucket \<Rightarrow> bool" where
  "valid_bucket b \<longleftrightarrow>
     bucket_key_text (bkt_key b) \<and> 1 \<le> bkt_limit b \<and> bkt_limit b \<le> 1000000 \<and>
     1 \<le> bkt_window b \<and> bkt_window b \<le> 86400"

text \<open>\<^verbatim>\<open>RateLimitBucket.__post_init__\<close>\<close>

definition make_rate_bucket :: "pyval \<Rightarrow> pyval \<Rightarrow> pyval \<Rightarrow> rate_bucket option" where
  "make_rate_bucket key limit window_seconds =
     (case (key, limit, window_seconds) of
        (PyStr k, PyInt l, PyInt w) \<Rightarrow>
          let b = \<lparr>bkt_key = k, bkt_limit = l, bkt_window = w\<rparr> in if valid_bucket b then Some b else None
      | _ \<Rightarrow> None)"

section \<open>Admission\<close>

text \<open>Bucket key, window length in seconds, number of the window.\<close>

type_synonym rate_key = "string \<times> int \<times> int"

definition admission_input :: "rate_bucket list \<Rightarrow> pyval \<Rightarrow> (rate_error, rat) result" where
  "admission_input buckets now =
     (if buckets = [] \<or> 8 < length buckets \<or> \<not> distinct (map (\<lambda>b. (bkt_key b, bkt_window b)) buckets)
      then Inl RateStoreError
      else bind_result (rate_utc now) (\<lambda>t.
        if t - unix_epoch < 0 then Inl RateStoreError else Inr (double_seconds (t - unix_epoch))))"

definition bucket_key :: "rat \<Rightarrow> rate_bucket \<Rightarrow> rate_key" where
  "bucket_key epoch b = (bkt_key b, bkt_window b, \<lfloor>epoch / of_int (bkt_window b)\<rfloor>)"

definition window_end :: "rate_key \<Rightarrow> int" where
  "window_end k = (snd (snd k) + 1) * fst (snd k)"

definition counter_of :: "(rate_key \<times> int) list \<Rightarrow> rate_key \<Rightarrow> int" where
  "counter_of counts k = (case map_of counts k of None \<Rightarrow> 0 | Some n \<Rightarrow> n)"

fun exhausted_waits ::
  "rate_bucket list \<Rightarrow> (rate_key \<times> int) list \<Rightarrow> rat \<Rightarrow> (rate_error, int list) result" where
  "exhausted_waits [] counts epoch = Inr []"
| "exhausted_waits (b # bs) counts epoch =
     (let n = counter_of counts (bucket_key epoch b) in
      if n < 0 then Inl RateStoreError
      else bind_result (exhausted_waits bs counts epoch) (\<lambda>waits.
        Inr (if bkt_limit b \<le> n
             then max 1 \<lceil>of_int (window_end (bucket_key epoch b)) - epoch\<rceil> # waits
             else waits)))"

definition retry_after ::
  "rate_bucket list \<Rightarrow> (rate_key \<times> int) list \<Rightarrow> rat \<Rightarrow> (rate_error, int option) result" where
  "retry_after buckets counts epoch =
     bind_result (exhausted_waits buckets counts epoch) (\<lambda>waits.
       Inr (if waits = [] then None else Some (foldr max waits 1)))"

record rate_store =
  rs_counters :: "(rate_key \<times> int) list"
  rs_high :: "rat option"

definition empty_store :: rate_store where
  "empty_store = \<lparr>rs_counters = [], rs_high = None\<rparr>"

text \<open>The clock may run backwards; the store does not.\<close>

definition effective_epoch :: "rate_store \<Rightarrow> rat \<Rightarrow> rat" where
  "effective_epoch s epoch = (case rs_high s of None \<Rightarrow> epoch | Some h \<Rightarrow> max epoch h)"

definition live_key :: "rat \<Rightarrow> rate_key \<Rightarrow> bool" where
  "live_key epoch k \<longleftrightarrow> epoch < of_int (window_end k)"

definition live_counters :: "rat \<Rightarrow> (rate_key \<times> int) list \<Rightarrow> (rate_key \<times> int) list" where
  "live_counters epoch = filter (\<lambda>(k, n). live_key epoch k)"

definition increment :: "rate_key \<Rightarrow> (rate_key \<times> int) list \<Rightarrow> (rate_key \<times> int) list" where
  "increment k counts = AList.update k (counter_of counts k + 1) counts"

definition count_new :: "rate_key list \<Rightarrow> (rate_key \<times> int) list \<Rightarrow> nat" where
  "count_new keys counts = length (filter (\<lambda>k. map_of counts k = None) keys)"

type_synonym 's admission = "(rate_error, int option) result \<times> 's"

text \<open>
  \<^verbatim>\<open>InMemoryAtomicRateLimitStore.admit\<close>: the high-water mark and the purge are kept also when
  the request is refused.
\<close>

definition memory_admit :: "nat \<Rightarrow> rate_store \<Rightarrow> rate_bucket list \<Rightarrow> pyval \<Rightarrow> rate_store admission" where
  "memory_admit max_counters s buckets now =
     (case admission_input buckets now of
        Inl e \<Rightarrow> (Inl e, s)
      | Inr input_epoch \<Rightarrow>
          let epoch = effective_epoch s input_epoch;
              active = live_counters epoch (rs_counters s);
              keys = map (bucket_key epoch) buckets;
              purged = \<lparr>rs_counters = active, rs_high = Some epoch\<rparr>
          in case retry_after buckets active epoch of
               Inl e \<Rightarrow> (Inl e, purged)
             | Inr (Some r) \<Rightarrow> (Inr (Some r), purged)
             | Inr None \<Rightarrow>
                 if max_counters < length active + count_new keys active then (Inl RateStoreError, purged)
                 else (Inr None, purged\<lparr>rs_counters := fold increment keys active\<rparr>))"

text \<open>
  \<^verbatim>\<open>SqliteAtomicRateLimitStore.admit\<close>: the same steps in one transaction, of which a failure
  leaves nothing. \<open>fault\<close> says when SQLite or the file system raises, for equal calls in the same
  state alike.
\<close>

definition sqlite_admit ::
  "nat \<Rightarrow> (rate_store \<Rightarrow> rate_bucket list \<Rightarrow> pyval \<Rightarrow> bool) \<Rightarrow> rate_store \<Rightarrow> rate_bucket list \<Rightarrow> pyval \<Rightarrow>
   rate_store admission"
where
  "sqlite_admit max_counters fault s buckets now =
     (case admission_input buckets now of
        Inl e \<Rightarrow> (Inl e, s)
      | Inr input_epoch \<Rightarrow>
          if fault s buckets now then (Inl RateStoreError, s)
          else
            let epoch = effective_epoch s input_epoch;
                rows = live_counters epoch (rs_counters s);
                keys = map (bucket_key epoch) buckets;
                counts = filter (\<lambda>(k, n). k \<in> set keys) rows;
                purged = \<lparr>rs_counters = rows, rs_high = Some epoch\<rparr>
            in case retry_after buckets counts epoch of
                 Inl e \<Rightarrow> (Inl e, s)
               | Inr (Some r) \<Rightarrow> (Inr (Some r), purged)
               | Inr None \<Rightarrow>
                   if max_counters < length rows + count_new keys counts then (Inl RateStoreError, s)
                   else (Inr None, purged\<lparr>rs_counters := fold increment keys rows\<rparr>))"

section \<open>The contract of a store\<close>

text \<open>The windows that the granted requests of a history were counted in, one entry per bucket.\<close>

fun granted_keys ::
  "('s \<Rightarrow> rate_bucket list \<Rightarrow> pyval \<Rightarrow> 's admission) \<Rightarrow> ('s \<Rightarrow> rat option) \<Rightarrow> 's \<Rightarrow>
   (rate_bucket list \<times> pyval) list \<Rightarrow> rate_key list"
where
  "granted_keys admit high s [] = []"
| "granted_keys admit high s ((buckets, now) # requests) =
     (case admit s buckets now of
        (r, t) \<Rightarrow>
          (if r = Inr None then map (bucket_key (the (high t))) buckets else []) @
          granted_keys admit high t requests)"

fun final_state ::
  "('s \<Rightarrow> rate_bucket list \<Rightarrow> pyval \<Rightarrow> 's admission) \<Rightarrow> 's \<Rightarrow> (rate_bucket list \<times> pyval) list \<Rightarrow> 's" where
  "final_state admit s [] = s"
| "final_state admit s ((buckets, now) # requests) = final_state admit (snd (admit s buckets now)) requests"

definition well_formed :: "(rate_bucket list \<times> pyval) list \<Rightarrow> bool" where
  "well_formed requests \<longleftrightarrow> (\<forall>(buckets, now) \<in> set requests. list_all valid_bucket buckets)"

text \<open>No bucket of a history that counts in the key allows more than \<open>limit\<close>.\<close>

definition limited :: "rate_key \<Rightarrow> int \<Rightarrow> (rate_bucket list \<times> pyval) list \<Rightarrow> bool" where
  "limited k limit requests \<longleftrightarrow>
     (\<forall>(buckets, now) \<in> set requests. \<forall>b \<in> set buckets.
        bkt_key b = fst k \<and> bkt_window b = fst (snd k) \<longrightarrow> bkt_limit b \<le> limit)"

lemma distinct_count: "distinct xs \<Longrightarrow> count_list xs k = (if k \<in> set xs then 1 else 0)"
  by (induction xs) auto

lemma live_mono: "live_key h' k \<Longrightarrow> h \<le> h' \<Longrightarrow> live_key h k"
  by (simp add: live_key_def)

lemma bucket_key_live: "1 \<le> bkt_window b \<Longrightarrow> live_key epoch (bucket_key epoch b)"
proof -
  assume w: "1 \<le> bkt_window b"
  have "epoch / of_int (bkt_window b) < of_int (\<lfloor>epoch / of_int (bkt_window b)\<rfloor> + 1)" by linarith
  then have "epoch < of_int (\<lfloor>epoch / of_int (bkt_window b)\<rfloor> + 1) * of_int (bkt_window b)"
    using w by (simp add: divide_less_eq)
  then show ?thesis by (simp add: live_key_def window_end_def bucket_key_def)
qed

locale rate_limiter =
  fixes admit :: "'s \<Rightarrow> rate_bucket list \<Rightarrow> pyval \<Rightarrow> 's admission"
    and high :: "'s \<Rightarrow> rat option"
    and counted :: "'s \<Rightarrow> rate_key \<Rightarrow> int"
  assumes high_mono: "admit s buckets now = (r, t) \<Longrightarrow> high s = Some h \<Longrightarrow> \<exists>h'. high t = Some h' \<and> h \<le> h'"
    and granted: "admit s buckets now = (Inr None, t) \<Longrightarrow>
      \<exists>e. high t = Some e \<and> distinct (map (bucket_key e) buckets) \<and>
        (\<forall>k. live_key e k \<longrightarrow>
           counted t k = counted s k + (if k \<in> bucket_key e ` set buckets then 1 else 0)) \<and>
        (\<forall>b \<in> set buckets. live_key e (bucket_key e b) \<longrightarrow> counted s (bucket_key e b) < bkt_limit b)"
    and refused: "admit s buckets now = (r, t) \<Longrightarrow> r \<noteq> Inr None \<Longrightarrow>
      (\<forall>h. high t = Some h \<longrightarrow> live_key h k) \<Longrightarrow> counted t k = counted s k"
begin

definition room :: "'s \<Rightarrow> rate_key \<Rightarrow> int \<Rightarrow> int" where
  "room s k limit =
     (if (\<forall>h. high s = Some h \<longrightarrow> live_key h k) then max 0 (limit - counted s k) else 0)"

lemma live_before:
  "admit s buckets now = (r, t) \<Longrightarrow> (\<forall>h. high t = Some h \<longrightarrow> live_key h k) \<Longrightarrow> high s = Some h \<Longrightarrow> live_key h k"
  using high_mono live_mono by blast

lemma room_refused:
  assumes "admit s buckets now = (r, t)" "r \<noteq> Inr None"
  shows "room t k limit \<le> room s k limit"
proof (cases "\<forall>h. high t = Some h \<longrightarrow> live_key h k")
  case True
  then have "\<forall>h. high s = Some h \<longrightarrow> live_key h k" using live_before [OF assms(1)] by blast
  with True refused [OF assms True] show ?thesis by (simp add: room_def)
next
  case False
  then show ?thesis by (auto simp: room_def)
qed

lemma room_granted:
  assumes "admit s buckets now = (Inr None, t)" "list_all valid_bucket buckets"
    "\<forall>b \<in> set buckets. bkt_key b = fst k \<and> bkt_window b = fst (snd k) \<longrightarrow> bkt_limit b \<le> limit"
  shows "int (count_list (map (bucket_key (the (high t))) buckets) k) + room t k limit \<le> room s k limit"
proof -
  obtain e where e: "high t = Some e" and dist: "distinct (map (bucket_key e) buckets)"
    and step: "\<And>k. live_key e k \<Longrightarrow> counted t k = counted s k + (if k \<in> bucket_key e ` set buckets then 1 else 0)"
    and below: "\<And>b. b \<in> set buckets \<Longrightarrow> live_key e (bucket_key e b) \<Longrightarrow> counted s (bucket_key e b) < bkt_limit b"
    using granted [OF assms(1)] by blast
  have live: "live_key e k \<Longrightarrow> (\<forall>h. high s = Some h \<longrightarrow> live_key h k)"
    by (intro allI impI, rule live_before [OF assms(1)]) (simp_all add: e)
  have once: "count_list (map (bucket_key e) buckets) k = (if k \<in> bucket_key e ` set buckets then 1 else 0)"
    using distinct_count [OF dist] by simp
  show ?thesis
  proof (cases "k \<in> bucket_key e ` set buckets")
    case True
    then obtain b where b: "b \<in> set buckets" "k = bucket_key e b" by blast
    have "1 \<le> bkt_window b" using assms(2) b(1) by (auto simp: list_all_iff valid_bucket_def)
    from bucket_key_live [OF this] have lk: "live_key e k" by (simp add: b(2))
    have "bkt_limit b \<le> limit" using assms(3) b by (simp add: bucket_key_def)
    with below [OF b(1)] lk step [OF lk] live [OF lk] True once b(2) show ?thesis
      by (simp add: room_def e)
  next
    case False
    then show ?thesis
      using once e step [of k] live by (auto simp: room_def)
  qed
qed

lemma granted_within_room:
  "well_formed requests \<Longrightarrow> limited k limit requests \<Longrightarrow>
     int (count_list (granted_keys admit high s requests) k) \<le> room s k limit"
proof (induction requests arbitrary: s)
  case Nil
  then show ?case by (simp add: room_def)
next
  case (Cons request requests)
  obtain buckets now where q: "request = (buckets, now)" by (cases request)
  obtain r t where a: "admit s buckets now = (r, t)" by fastforce
  have rest: "int (count_list (granted_keys admit high t requests) k) \<le> room t k limit"
    using Cons by (simp add: well_formed_def limited_def)
  show ?case
  proof (cases "r = Inr None")
    case True
    have "int (count_list (map (bucket_key (the (high t))) buckets) k) + room t k limit \<le> room s k limit"
      using Cons.prems q by (intro room_granted [OF a [unfolded True]]) (auto simp: well_formed_def limited_def)
    then show ?thesis using rest a q True by simp
  next
    case False
    then show ?thesis using rest room_refused [OF a False, of k limit] a q by simp
  qed
qed

end

section \<open>Both stores keep the contract\<close>

lemma counter_of_live: "live_key epoch k \<Longrightarrow> counter_of (live_counters epoch counts) k = counter_of counts k"
  by (induction counts) (auto simp: counter_of_def live_counters_def)

lemma map_of_filter_keys:
  "map_of (filter (\<lambda>(k, n). P k) counts) k = (if P k then map_of counts k else None)"
  by (induction counts) auto

lemma counter_of_increment: "counter_of (increment k counts) k' = counter_of counts k' + (if k = k' then 1 else 0)"
  by (simp add: increment_def counter_of_def update_conv')

lemma counter_of_fold: "counter_of (fold increment keys counts) k = counter_of counts k + int (count_list keys k)"
  by (induction keys arbitrary: counts) (simp_all add: counter_of_increment)

lemma exhausted_waits_cong:
  "(\<And>b. b \<in> set buckets \<Longrightarrow> counter_of c (bucket_key epoch b) = counter_of c' (bucket_key epoch b)) \<Longrightarrow>
     exhausted_waits buckets c epoch = exhausted_waits buckets c' epoch"
  by (induction buckets) (simp_all add: Let_def)

lemma sqlite_counts:
  assumes "keys = map (bucket_key epoch) buckets"
  shows "retry_after buckets (filter (\<lambda>(k, n). k \<in> set keys) rows) epoch = retry_after buckets rows epoch"
    "count_new keys (filter (\<lambda>(k, n). k \<in> set keys) rows) = count_new keys rows"
proof -
  have "exhausted_waits buckets (filter (\<lambda>(k, n). k \<in> set keys) rows) epoch = exhausted_waits buckets rows epoch"
    by (rule exhausted_waits_cong) (simp add: counter_of_def map_of_filter_keys assms)
  then show "retry_after buckets (filter (\<lambda>(k, n). k \<in> set keys) rows) epoch = retry_after buckets rows epoch"
    by (simp add: retry_after_def)
  show "count_new keys (filter (\<lambda>(k, n). k \<in> set keys) rows) = count_new keys rows"
    unfolding count_new_def by (intro arg_cong [where f = length] filter_cong) (auto simp: map_of_filter_keys)
qed

lemma retry_after_None:
  "retry_after buckets counts epoch = Inr None \<Longrightarrow> b \<in> set buckets \<Longrightarrow>
     counter_of counts (bucket_key epoch b) < bkt_limit b"
proof -
  have "exhausted_waits buckets counts epoch = Inr [] \<Longrightarrow> b \<in> set buckets \<Longrightarrow>
      counter_of counts (bucket_key epoch b) < bkt_limit b" for buckets
    by (induction buckets) (auto simp: result_simps Let_def split: if_splits)
  then show "retry_after buckets counts epoch = Inr None \<Longrightarrow> b \<in> set buckets \<Longrightarrow>
      counter_of counts (bucket_key epoch b) < bkt_limit b"
    by (auto simp: retry_after_def result_simps split: if_splits)
qed

lemma admission_distinct:
  "admission_input buckets now = Inr e0 \<Longrightarrow> distinct (map (bucket_key epoch) buckets)"
  by (auto simp: admission_input_def distinct_map inj_on_def bucket_key_def split: if_splits)

text \<open>
  What a store does, whatever it keeps of a failure: nothing changes but the purge and the
  high-water mark, or the request is granted and counted.
\<close>

definition purged_store :: "rat \<Rightarrow> rate_store \<Rightarrow> rate_store" where
  "purged_store epoch s = \<lparr>rs_counters = live_counters epoch (rs_counters s), rs_high = Some epoch\<rparr>"

lemma admit_cases:
  assumes "memory_admit cap s buckets now = (r, t) \<or> sqlite_admit cap fault s buckets now = (r, t)"
  obtains (unchanged) e where "t = s" "r = Inl e"
  | (refusal) e0 where "admission_input buckets now = Inr e0" "t = purged_store (effective_epoch s e0) s" "r \<noteq> Inr None"
      "r = Inl RateStoreError \<or>
       retry_after buckets (live_counters (effective_epoch s e0) (rs_counters s)) (effective_epoch s e0) = r"
  | (grant) e0 where "admission_input buckets now = Inr e0" "r = Inr None"
      "retry_after buckets (live_counters (effective_epoch s e0) (rs_counters s)) (effective_epoch s e0) = Inr None"
      "t = (purged_store (effective_epoch s e0) s)\<lparr>rs_counters :=
         fold increment (map (bucket_key (effective_epoch s e0)) buckets)
           (live_counters (effective_epoch s e0) (rs_counters s))\<rparr>"
proof (cases "admission_input buckets now")
  case (Inl e)
  with assms show ?thesis by (auto simp: memory_admit_def sqlite_admit_def intro: unchanged)
next
  case (Inr e0)
  let ?e = "effective_epoch s e0"
  obtain v where v: "retry_after buckets (live_counters ?e (rs_counters s)) ?e = v" by blast
  have stop: thesis if "v \<noteq> Inr None" "t = s \<and> (\<exists>e. r = Inl e) \<or> t = purged_store ?e s \<and> r = v"
    using that unchanged refusal [OF Inr] v by auto
  have go: thesis if "v = Inr None" "t = s \<and> r = Inl RateStoreError \<or>
      t = purged_store ?e s \<and> r = Inl RateStoreError \<or>
      r = Inr None \<and> t = (purged_store ?e s)\<lparr>rs_counters :=
        fold increment (map (bucket_key ?e) buckets) (live_counters ?e (rs_counters s))\<rparr>"
    using that unchanged refusal [OF Inr] grant [OF Inr] v by auto
  from assms show ?thesis
  proof
    assume m: "memory_admit cap s buckets now = (r, t)"
    show ?thesis
    proof (cases "v = Inr None")
      case True
      with m Inr v show ?thesis
        by (intro go) (auto simp: memory_admit_def Let_def purged_store_def split: if_splits)
    next
      case False
      with m Inr v show ?thesis
        by (intro stop) (auto simp: memory_admit_def Let_def purged_store_def split: sum.splits option.splits)
    qed
  next
    assume m: "sqlite_admit cap fault s buckets now = (r, t)"
    show ?thesis
    proof (cases "fault s buckets now")
      case True
      with m Inr show ?thesis by (auto simp: sqlite_admit_def intro: unchanged)
    next
      case ok: False
      show ?thesis
      proof (cases "v = Inr None")
        case True
        with m Inr v ok show ?thesis
          by (intro go) (auto simp: sqlite_admit_def Let_def purged_store_def sqlite_counts [OF refl, simplified]
              split: if_splits)
      next
        case False
        have "t = s \<and> (\<exists>e. r = Inl e) \<or> t = purged_store ?e s \<and> r = v"
        proof (cases v)
          case (Inl x)
          note rt = v [unfolded Inl]
          from m Inr ok have "t = s \<and> r = Inl x"
            by (auto simp: sqlite_admit_def Let_def sqlite_counts [OF refl, simplified] rt)
          then show ?thesis by simp
        next
          case (Inr y)
          with False obtain n where "y = Some n" by (cases y) auto
          note rt = v [unfolded Inr this]
          from m \<open>admission_input buckets now = Inr e0\<close> ok have "t = purged_store ?e s \<and> r = Inr (Some n)"
            by (auto simp: sqlite_admit_def Let_def purged_store_def sqlite_counts [OF refl, simplified] rt)
          then show ?thesis using rt v by simp
        qed
        with False show ?thesis by (rule stop)
      qed
    qed
  qed
qed

lemma effective_high: "rs_high s = Some h \<Longrightarrow> h \<le> effective_epoch s e0"
  by (simp add: effective_epoch_def)

lemma store_contract:
  assumes "\<And>s buckets now r t. admit s buckets now = (r, t) \<Longrightarrow>
    memory_admit cap s buckets now = (r, t) \<or> sqlite_admit cap fault s buckets now = (r, t)"
  shows "rate_limiter admit rs_high (\<lambda>s. counter_of (rs_counters s))"
proof
  fix s buckets now r t h
  assume a: "admit s buckets now = (r, t)"
  show "rs_high s = Some h \<Longrightarrow> \<exists>h'. rs_high t = Some h' \<and> h \<le> h'"
    using assms [OF a] by (rule admit_cases) (auto simp: purged_store_def dest: effective_high)
next
  fix s buckets now t
  assume "admit s buckets now = (Inr None, t)"
  from assms [OF this] show "\<exists>e. rs_high t = Some e \<and> distinct (map (bucket_key e) buckets) \<and>
      (\<forall>k. live_key e k \<longrightarrow> counter_of (rs_counters t) k =
         counter_of (rs_counters s) k + (if k \<in> bucket_key e ` set buckets then 1 else 0)) \<and>
      (\<forall>b \<in> set buckets. live_key e (bucket_key e b) \<longrightarrow>
         counter_of (rs_counters s) (bucket_key e b) < bkt_limit b)"
  proof (cases rule: admit_cases)
    case (grant e0)
    let ?e = "effective_epoch s e0"
    have dist: "distinct (map (bucket_key ?e) buckets)" by (rule admission_distinct [OF grant(1)])
    have "counter_of (rs_counters s) (bucket_key ?e b) < bkt_limit b"
      if "b \<in> set buckets" "live_key ?e (bucket_key ?e b)" for b
      using retry_after_None [OF grant(3) that(1)] counter_of_live [OF that(2)] by simp
    moreover have "rs_high t = Some ?e" by (simp add: grant(4) purged_store_def)
    ultimately show ?thesis
      using dist distinct_count [OF dist]
      by (intro exI [of _ ?e]) (simp add: grant(4) purged_store_def counter_of_fold counter_of_live)
  qed auto
next
  fix s buckets now r t k
  assume "admit s buckets now = (r, t)" and r: "r \<noteq> Inr None"
    and live: "\<forall>h. rs_high t = Some h \<longrightarrow> live_key h k"
  from assms [OF this(1)] show "counter_of (rs_counters t) k = counter_of (rs_counters s) k"
    by (rule admit_cases) (use r live in \<open>auto simp: purged_store_def counter_of_live\<close>)
qed

interpretation memory_store: rate_limiter "memory_admit cap" rs_high "\<lambda>s. counter_of (rs_counters s)" for cap
  by (rule store_contract, rule disjI1)

interpretation sqlite_store: rate_limiter "sqlite_admit cap fault" rs_high "\<lambda>s. counter_of (rs_counters s)"
  for cap fault
  by (rule store_contract, rule disjI2)

text \<open>C18. The limit of a window is never exceeded: in any history of requests from an empty store, with
  clocks running any way and requests failing any time, the in-memory store grants at most as
  many requests in a window of a bucket as the largest limit any request gave for it; the same
  holds for the SQLite store shared by worker processes, whatever SQLite and the file system
  refuse in between.\<close>

theorem window_limit_holds:
  assumes "well_formed requests" "limited k limit requests" "0 \<le> limit"
  shows "int (count_list (granted_keys (memory_admit cap) rs_high empty_store requests) k) \<le> limit \<and>
    int (count_list (granted_keys (sqlite_admit cap fault) rs_high empty_store requests) k) \<le> limit"
  using memory_store.granted_within_room [OF assms(1,2), of cap empty_store] assms(3)
    sqlite_store.granted_within_room [OF assms(1,2), of cap fault empty_store]
  by (simp add: memory_store.room_def sqlite_store.room_def empty_store_def counter_of_def)

section \<open>Waiting\<close>

text \<open>Counters are not negative and belong to windows that have begun.\<close>

definition store_ok :: "rate_store \<Rightarrow> bool" where
  "store_ok s \<longleftrightarrow>
     (\<forall>(k, n) \<in> set (rs_counters s). 0 \<le> n \<and>
        (\<exists>h. rs_high s = Some h \<and> of_int (snd (snd k)) * of_int (fst (snd k)) \<le> h))"

lemma update_entries: "(k, n) \<in> set (AList.update k' v counts) \<Longrightarrow> k = k' \<and> n = v \<or> (k, n) \<in> set counts"
  by (induction counts) (auto split: if_splits)

lemma increment_entries: "(k, n) \<in> set (increment k' counts) \<Longrightarrow> k = k' \<and> n = counter_of counts k' + 1 \<or> (k, n) \<in> set counts"
  unfolding increment_def by (rule update_entries)

lemma fold_increment_entries:
  assumes "\<forall>(k, n) \<in> set counts. 0 \<le> n \<and> P k" "\<forall>k \<in> set keys. P k"
  shows "\<forall>(k, n) \<in> set (fold increment keys counts). 0 \<le> n \<and> P k"
  using assms
proof (induction keys arbitrary: counts)
  case (Cons a keys)
  have "0 \<le> counter_of counts a"
    using Cons.prems(1) by (auto simp: counter_of_def dest: map_of_SomeD split: option.split)
  then have "\<forall>(k, n) \<in> set (increment a counts). 0 \<le> n \<and> P k"
    using Cons.prems by (auto dest!: increment_entries)
  then show ?case using Cons.IH Cons.prems(2) by simp
qed simp

lemma bucket_key_begun:
  assumes "1 \<le> bkt_window b"
  shows "of_int (snd (snd (bucket_key e b))) * of_int (fst (snd (bucket_key e b))) \<le> e"
proof -
  have "of_int \<lfloor>e / of_int (bkt_window b)\<rfloor> \<le> e / of_int (bkt_window b)" by simp
  then show ?thesis using assms by (simp add: bucket_key_def le_divide_eq)
qed

lemma purged_ok:
  assumes "store_ok s"
  shows "\<forall>(k, n) \<in> set (live_counters (effective_epoch s e0) (rs_counters s)).
    0 \<le> n \<and> of_int (snd (snd k)) * of_int (fst (snd k)) \<le> effective_epoch s e0"
  using assms by (fastforce simp: store_ok_def live_counters_def effective_epoch_def)

lemma admit_ok:
  assumes "memory_admit cap s buckets now = (r, t) \<or> sqlite_admit cap fault s buckets now = (r, t)"
    "store_ok s" "list_all valid_bucket buckets"
  shows "store_ok t"
  using assms(1)
proof (cases rule: admit_cases)
  case (refusal e0)
  then show ?thesis using purged_ok [OF assms(2)] by (auto simp: store_ok_def purged_store_def)
next
  case (grant e0)
  have "\<forall>k \<in> set (map (bucket_key (effective_epoch s e0)) buckets).
      of_int (snd (snd k)) * of_int (fst (snd k)) \<le> effective_epoch s e0"
    using assms(3) bucket_key_begun by (auto simp: list_all_iff valid_bucket_def)
  from fold_increment_entries [OF purged_ok [OF assms(2)] this] grant(4) show ?thesis
    by (auto simp: store_ok_def purged_store_def)
qed (use assms in simp)

lemma exhausted_waits_mem:
  "exhausted_waits buckets counts epoch = Inr waits \<Longrightarrow>
     set waits = (\<lambda>b. max 1 \<lceil>of_int (window_end (bucket_key epoch b)) - epoch\<rceil>) `
       {b \<in> set buckets. bkt_limit b \<le> counter_of counts (bucket_key epoch b)}"
  by (induction buckets arbitrary: waits) (auto simp: result_simps Let_def split: if_splits)

lemma foldr_max_ge: "x \<in> set xs \<Longrightarrow> x \<le> foldr max xs (1::int)"
  by (induction xs) auto

lemma foldr_max_in:
  assumes "xs \<noteq> []" "\<forall>x \<in> set xs. 1 \<le> x"
  shows "foldr max xs (1::int) \<in> set xs"
proof -
  have "foldr max xs (1::int) \<in> insert 1 (set xs)" by (induction xs) (auto simp: max_def)
  moreover have "hd xs \<le> foldr max xs 1" "1 \<le> hd xs" "hd xs \<in> set xs"
    using assms by (simp_all add: foldr_max_ge)
  ultimately show ?thesis by fastforce
qed

text \<open>The answer of a refusal: the wait of some exhausted bucket, and no shorter than any.\<close>

lemma retry_after_Some:
  assumes "retry_after buckets counts epoch = Inr (Some r)"
  shows "\<exists>b \<in> set buckets. bkt_limit b \<le> counter_of counts (bucket_key epoch b) \<and>
      r = max 1 \<lceil>of_int (window_end (bucket_key epoch b)) - epoch\<rceil>"
    "b \<in> set buckets \<Longrightarrow> bkt_limit b \<le> counter_of counts (bucket_key epoch b) \<Longrightarrow>
      of_int (window_end (bucket_key epoch b)) \<le> epoch + of_int r"
proof -
  obtain waits where w: "exhausted_waits buckets counts epoch = Inr waits" "waits \<noteq> []" "r = foldr max waits 1"
    using assms by (auto simp: retry_after_def result_simps split: if_splits)
  note mem = exhausted_waits_mem [OF w(1)]
  have "foldr max waits 1 \<in> set waits" by (rule foldr_max_in) (auto simp: w(2) mem)
  then show "\<exists>b \<in> set buckets. bkt_limit b \<le> counter_of counts (bucket_key epoch b) \<and>
      r = max 1 \<lceil>of_int (window_end (bucket_key epoch b)) - epoch\<rceil>"
    unfolding mem w(3) [symmetric] by blast
  assume "b \<in> set buckets" "bkt_limit b \<le> counter_of counts (bucket_key epoch b)"
  then have "max 1 \<lceil>of_int (window_end (bucket_key epoch b)) - epoch\<rceil> \<le> r"
    unfolding w(3) by (intro foldr_max_ge) (auto simp: mem)
  then have "\<lceil>of_int (window_end (bucket_key epoch b)) - epoch\<rceil> \<le> r" by simp
  then have "of_int (window_end (bucket_key epoch b)) - epoch \<le> of_int r" by (simp add: ceiling_le_iff)
  then show "of_int (window_end (bucket_key epoch b)) \<le> epoch + of_int r" by simp
qed

text \<open>Once the wait is over, every bucket counts in a window with room.\<close>

lemma room_after_wait:
  assumes "\<forall>(k, n) \<in> set counts. 0 \<le> n \<and> of_int (snd (snd k)) * of_int (fst (snd k)) \<le> e"
    "retry_after buckets counts e = Inr (Some r)" "e + of_int r \<le> e'" "list_all valid_bucket buckets"
  shows "retry_after buckets (live_counters e' counts) e' = Inr None"
proof -
  have ge: "0 \<le> counter_of counts k" for k
    using assms(1) by (auto simp: counter_of_def dest: map_of_SomeD split: option.split)
  have r: "1 \<le> r" using retry_after_Some(1) [OF assms(2)] by auto
  have low: "counter_of counts (bucket_key e' b) < bkt_limit b" if b: "b \<in> set buckets" for b
  proof -
    let ?w = "bkt_window b"
    have w: "1 \<le> ?w" "1 \<le> bkt_limit b" using assms(4) b by (auto simp: list_all_iff valid_bucket_def)
    show ?thesis
    proof (cases "\<lfloor>e' / of_int ?w\<rfloor> = \<lfloor>e / of_int ?w\<rfloor>")
      case True
      then have same: "bucket_key e' b = bucket_key e b" by (simp add: bucket_key_def)
      show ?thesis
      proof (rule ccontr)
        assume "\<not> counter_of counts (bucket_key e' b) < bkt_limit b"
        then have "of_int (window_end (bucket_key e b)) \<le> e + of_int r"
          using retry_after_Some(2) [OF assms(2) b] same by simp
        then show False
          using bucket_key_live [OF w(1), of e'] assms(3) by (simp add: same live_key_def)
      qed
    next
      case False
      have "e / of_int ?w \<le> e' / of_int ?w"
        using assms(3) r w(1) by (intro divide_right_mono) auto
      then have "\<lfloor>e / of_int ?w\<rfloor> \<le> \<lfloor>e' / of_int ?w\<rfloor>" by (rule floor_mono)
      with False have "\<lfloor>e / of_int ?w\<rfloor> < \<lfloor>e' / of_int ?w\<rfloor>" by simp
      then have "e / of_int ?w < of_int \<lfloor>e' / of_int ?w\<rfloor>" unfolding floor_less_iff .
      then have "e < of_int (snd (snd (bucket_key e' b))) * of_int (fst (snd (bucket_key e' b)))"
        using w(1) by (simp add: bucket_key_def pos_divide_less_eq)
      then have "map_of counts (bucket_key e' b) = None"
        using assms(1) by (fastforce simp: map_of_eq_None_iff)
      then show ?thesis using w(2) by (simp add: counter_of_def)
    qed
  qed
  have "exhausted_waits bs (live_counters e' counts) e' = Inr []" if "set bs \<subseteq> set buckets" for bs
    using that
  proof (induction bs)
    case (Cons b bs)
    have "1 \<le> bkt_window b" using Cons.prems assms(4) by (auto simp: list_all_iff valid_bucket_def)
    then have "counter_of (live_counters e' counts) (bucket_key e' b) = counter_of counts (bucket_key e' b)"
      by (intro counter_of_live bucket_key_live)
    then show ?case using Cons ge [of "bucket_key e' b"] low [of b] by (simp add: Let_def)
  qed simp
  then show ?thesis by (simp add: retry_after_def)
qed

lemma wait_bounds:
  assumes "retry_after buckets counts epoch = Inr (Some r)" "list_all valid_bucket buckets"
  shows "1 \<le> r \<and> r \<le> 86400"
proof -
  obtain b where b: "b \<in> set buckets" "r = max 1 \<lceil>of_int (window_end (bucket_key epoch b)) - epoch\<rceil>"
    using retry_after_Some(1) [OF assms(1)] by blast
  have w: "1 \<le> bkt_window b" "bkt_window b \<le> 86400"
    using assms(2) b(1) by (auto simp: list_all_iff valid_bucket_def)
  have "of_int (window_end (bucket_key epoch b)) - epoch \<le> of_int (bkt_window b)"
    using bucket_key_begun [OF w(1), of epoch] by (simp add: window_end_def bucket_key_def algebra_simps)
  then have "\<lceil>of_int (window_end (bucket_key epoch b)) - epoch\<rceil> \<le> bkt_window b" by (simp add: ceiling_le_iff)
  then show ?thesis unfolding b(2) using w by linarith
qed

lemma refusal_wait:
  assumes "memory_admit cap s buckets now = (Inr (Some r), t) \<or> sqlite_admit cap fault s buckets now = (Inr (Some r), t)"
    "store_ok s" "list_all valid_bucket buckets"
  obtains e where "rs_high t = Some e" "retry_after buckets (rs_counters t) e = Inr (Some r)"
    "\<forall>(k, n) \<in> set (rs_counters t). 0 \<le> n \<and> of_int (snd (snd k)) * of_int (fst (snd k)) \<le> e"
  using assms(1)
proof (cases rule: admit_cases)
  case (refusal e0)
  then show ?thesis using that [of "effective_epoch s e0"] purged_ok [OF assms(2)] by (simp add: purged_store_def)
qed auto

lemma admission_after_wait:
  assumes "rs_high t = Some e" "retry_after buckets (rs_counters t) e = Inr (Some r)" "list_all valid_bucket buckets"
    "\<forall>(k, n) \<in> set (rs_counters t). 0 \<le> n \<and> of_int (snd (snd k)) * of_int (fst (snd k)) \<le> e"
    "admission_input buckets later = Inr e'" "e + of_int r \<le> e'"
  shows "fst (memory_admit cap t buckets later) \<in> {Inr None, Inl RateStoreError}"
    "fst (sqlite_admit cap fault t buckets later) \<in> {Inr None, Inl RateStoreError}"
proof -
  have "0 \<le> r" using wait_bounds [OF assms(2,3)] by simp
  then have eff: "effective_epoch t e' = e'" using assms(1,6) by (simp add: effective_epoch_def max_def)
  have none: "retry_after buckets (live_counters e' (rs_counters t)) e' = Inr None"
    by (rule room_after_wait [OF assms(4,2,6,3)])
  show "fst (memory_admit cap t buckets later) \<in> {Inr None, Inl RateStoreError}"
    by (simp add: memory_admit_def assms(5) eff none Let_def)
  show "fst (sqlite_admit cap fault t buckets later) \<in> {Inr None, Inl RateStoreError}"
    by (simp add: sqlite_admit_def assms(5) eff none Let_def sqlite_counts [OF refl, simplified])
qed

text \<open>A refusal tells how long to wait, in seconds between one and a day, and the wait is enough: the
  same request made that much after the instant the refusal was decided on is not refused for
  its limits again, by either store (it is granted, unless the store is out of counters or
  SQLite fails).\<close>

theorem waiting_is_enough:
  assumes "memory_admit cap s buckets now = (Inr (Some r), t) \<or> sqlite_admit cap fault s buckets now = (Inr (Some r), t)"
    "store_ok s" "list_all valid_bucket buckets"
  shows "1 \<le> r \<and> r \<le> 86400 \<and>
    (\<exists>e. rs_high t = Some e \<and>
      (\<forall>later e'. admission_input buckets later = Inr e' \<and> e + of_int r \<le> e' \<longrightarrow>
        fst (memory_admit cap t buckets later) \<in> {Inr None, Inl RateStoreError} \<and>
        fst (sqlite_admit cap fault t buckets later) \<in> {Inr None, Inl RateStoreError}))"
  using assms
proof (rule refusal_wait)
  fix e
  assume e: "rs_high t = Some e" "retry_after buckets (rs_counters t) e = Inr (Some r)"
    "\<forall>(k, n) \<in> set (rs_counters t). 0 \<le> n \<and> of_int (snd (snd k)) * of_int (fst (snd k)) \<le> e"
  show ?thesis
    using wait_bounds [OF e(2) assms(3)] e(1) admission_after_wait [OF e(1,2) assms(3) e(3)] by blast
qed

text \<open>All or nothing: a request that is granted adds one to the counter of each of its buckets in the
  window the store decided on and to no other live counter; one that is not granted changes no
  live counter. Counters stay non-negative and in windows that have begun.\<close>

theorem admission_is_atomic:
  assumes "memory_admit cap s buckets now = (r, t) \<or> sqlite_admit cap fault s buckets now = (r, t)"
    "store_ok s" "list_all valid_bucket buckets"
  shows "store_ok t \<and>
    (\<forall>k. (\<forall>h. rs_high t = Some h \<longrightarrow> live_key h k) \<longrightarrow>
      counter_of (rs_counters t) k = counter_of (rs_counters s) k +
        (if r = Inr None \<and> (\<exists>e. rs_high t = Some e \<and> k \<in> bucket_key e ` set buckets) then 1 else 0))"
proof -
  have grant: "r = Inr None \<Longrightarrow> \<exists>e. rs_high t = Some e \<and> (\<forall>k. live_key e k \<longrightarrow>
      counter_of (rs_counters t) k = counter_of (rs_counters s) k + (if k \<in> bucket_key e ` set buckets then 1 else 0))"
    using assms(1) memory_store.granted sqlite_store.granted by blast
  have refuse: "r \<noteq> Inr None \<Longrightarrow> \<forall>h. rs_high t = Some h \<longrightarrow> live_key h k \<Longrightarrow>
      counter_of (rs_counters t) k = counter_of (rs_counters s) k" for k
    using assms(1) memory_store.refused sqlite_store.refused by blast
  show ?thesis
  proof (intro conjI allI impI)
    show "store_ok t" by (rule admit_ok [OF assms])
    fix k
    assume live: "\<forall>h. rs_high t = Some h \<longrightarrow> live_key h k"
    show "counter_of (rs_counters t) k = counter_of (rs_counters s) k +
        (if r = Inr None \<and> (\<exists>e. rs_high t = Some e \<and> k \<in> bucket_key e ` set buckets) then 1 else 0)"
    proof (cases "r = Inr None")
      case True
      with grant obtain e where e: "rs_high t = Some e" "\<forall>k. live_key e k \<longrightarrow> counter_of (rs_counters t) k =
          counter_of (rs_counters s) k + (if k \<in> bucket_key e ` set buckets then 1 else 0)" by blast
      then have "live_key e k" using live by blast
      with e(2) have "counter_of (rs_counters t) k =
          counter_of (rs_counters s) k + (if k \<in> bucket_key e ` set buckets then 1 else 0)" by blast
      with e(1) True show ?thesis by simp
    next
      case False
      with refuse live show ?thesis by simp
    qed
  qed
qed

end
