(* ===== verification/Sample_Services.thy ===== *)
theory Sample_Services
  imports Sample_School Auth_Tui Auth_Federated Edge_Rate_Limit
begin

text \<open>The properties of the services and the admission limits on concrete inputs.\<close>

lemma noon_intact: "db_ok (w_db noon)"
  by (simp add: noon_def school_ok)

section \<open>Web sessions\<close>

definition new_bearer :: pyval where
  "new_bearer = PyStr (replicate 40 (CHR ''t''))"

theorem authenticated_session_is_live_witness:
  "\<exists>x u w'. authenticate_session web_service old_bearer noon = (Inr (x, u), w') \<and>
    x \<in> set (db_sessions (w_db w')) \<and> acc_active u \<and> acc_user_id u = ses_user_id x"
proof -
  have "run_ok (authenticate_session web_service old_bearer noon)" by code_simp
  from run_ok_pair [OF this] obtain x u w' where run: "authenticate_session web_service old_bearer noon = (Inr (x, u), w')"
    by blast
  from authenticated_session_is_live [OF afternoon_honest noon_intact same_hash_ok run [unfolded web_service_def]] run
  show ?thesis by blast
qed

theorem issued_session_is_stored_witness:
  "\<exists>x raw w'. issue_session web_service ''stu'' noon = (Inr (x, raw), w') \<and> x \<in> set (db_sessions (w_db w')) \<and>
    session_token_digest same_hash raw = Inr (ses_token_digest x)"
proof -
  have "run_ok (issue_session web_service ''stu'' noon)" by code_simp
  from run_ok_pair [OF this] obtain x raw w' where run: "issue_session web_service ''stu'' noon = (Inr (x, raw), w')"
    by blast
  from issued_session_is_stored [OF afternoon_honest noon_intact same_hash_ok run [unfolded web_service_def]] run
  show ?thesis by blast
qed

theorem revoke_all_closes_sessions_witness:
  "\<exists>n w' now. revoke_all_sessions web_service ''stu'' noon = (Inr n, w') \<and>
    (\<forall>y \<in> set (db_sessions (w_db w')). ses_user_id y = ''stu'' \<and> ses_audience y = AudienceWeb \<longrightarrow> \<not> open_session now y)"
proof -
  have "run_ok (revoke_all_sessions web_service ''stu'' noon)" by code_simp
  from run_okD [OF this] obtain n w' where run: "revoke_all_sessions web_service ''stu'' noon = (Inr n, w')" by blast
  from revoke_all_closes_sessions [OF afternoon_honest noon_intact same_hash_ok run [unfolded web_service_def]] run
  show ?thesis by blast
qed

theorem issue_then_authenticate_witness:
  "\<exists>x raw w1 u w2. issue_session web_service ''stu'' noon = (Inr (x, raw), w1) \<and>
    authenticate_session web_service raw w1 = (Inr (x\<lparr>ses_last_seen_at := ticking (w_tick w1 + 3)\<rparr>, u), w2) \<and> acc_active u"
proof -
  let ?run = "issue_session web_service ''stu'' noon"
  have "case ?run of (Inr (x, raw), w1) \<Rightarrow>
      ses_created_at x \<le> ticking (w_tick w1 + 1) \<and> ticking (w_tick w1 + 3) < ses_expires_at x
    | _ \<Rightarrow> False"
    by code_simp
  then obtain x raw w1 where run: "?run = (Inr (x, raw), w1)"
    and t: "ses_created_at x \<le> ticking (w_tick w1 + 1)" "ticking (w_tick w1 + 3) < ses_expires_at x"
    by (auto split: prod.splits sum.splits)
  from issue_then_authenticate [OF afternoon_quiet noon_intact same_hash_ok run [unfolded web_service_def] t] run
  show ?thesis unfolding web_service_def by blast
qed

theorem revoke_then_reject_witness:
  "\<exists>w1 err w2. revoke_session web_service old_bearer noon = (Inr True, w1) \<and>
    authenticate_session web_service old_bearer w1 = (Inl err, w2)"
proof -
  have "fst (revoke_session web_service old_bearer noon) = Inr True" by code_simp
  then obtain w1 where run: "revoke_session web_service old_bearer noon = (Inr True, w1)"
    by (cases "revoke_session web_service old_bearer noon") simp
  from revoke_then_reject [OF afternoon_quiet noon_intact same_hash_ok run [unfolded web_service_def]] run
  show ?thesis unfolding web_service_def by blast
qed

section \<open>Terminal sessions\<close>

definition sample_pepper :: pyval where
  "sample_pepper = PyBytes (replicate 32 7)"

definition code_of :: "nat \<Rightarrow> pyval" where
  "code_of n = PyStr ''CODE0001''"

definition pairing_id_of :: "nat \<Rightarrow> pyval" where
  "pairing_id_of n = PyStr ''q9''"

definition tui_sample :: "world tui_service" where
  "tui_sample = sqlite_tui_service afternoon
     (sqlite_pairing_service afternoon code_of pairing_id_of sample_pepper 600 same_hash) 300"

theorem authorized_code_is_bound_witness:
  "\<exists>q w'. tui_authorize tui_sample (PyStr ''CODE0002'') ''stu'' noon = (Inr q, w') \<and>
    q \<in> set (db_pairings (w_db w')) \<and> par_status q = PairAuthorized \<and> par_user_id q = Some ''stu''"
proof -
  have "run_ok (tui_authorize tui_sample (PyStr ''CODE0002'') ''stu'' noon)" by code_simp
  from run_okD [OF this] obtain q w' where
    run: "tui_authorize tui_sample (PyStr ''CODE0002'') ''stu'' noon = (Inr q, w')" by blast
  from authorized_code_is_bound [OF afternoon_honest noon_intact same_hash_ok run [unfolded tui_sample_def]] run
  show ?thesis by blast
qed

theorem exchanged_session_is_founded_witness:
  "\<exists>x raw w'. tui_consume tui_sample ''q1'' (PyStr ''CODE0003'') noon = (Inr (x, raw), w') \<and>
    x \<in> set (db_sessions (w_db w')) \<and> ses_audience x = AudienceTui \<and> ses_source_pairing x = Some ''q1''"
proof -
  have "run_ok (tui_consume tui_sample ''q1'' (PyStr ''CODE0003'') noon)" by code_simp
  from run_ok_pair [OF this] obtain x raw w' where
    run: "tui_consume tui_sample ''q1'' (PyStr ''CODE0003'') noon = (Inr (x, raw), w')" by blast
  from exchanged_session_is_founded [OF afternoon_honest noon_intact same_hash_ok run [unfolded tui_sample_def]] run
  show ?thesis by blast
qed

theorem terminal_login_succeeds_witness:
  "\<exists>p code w1 q w2 x w3. tui_issue tui_sample noon = (Inr (p, code), w1) \<and>
    tui_authorize tui_sample (PyStr code) ''stu'' w1 = (Inr q, w2) \<and>
    tui_consume tui_sample (par_pairing_id p) (PyStr code) w2 = (Inr (x, new_bearer), w3) \<and>
    x \<in> set (db_sessions (w_db w3)) \<and> ses_user_id x = ''stu''"
proof -
  let ?run = "tui_issue tui_sample noon"
  have "case ?run of (Inr (p, code), w1) \<Rightarrow>
      some_student \<in> set (db_users (w_db w1)) \<and> w_tick w1 = 4 \<and> par_created_at p \<le> ticking 5 \<and>
      ticking 13 < par_expires_at p \<and> sha_of (CHR ''d'') \<notin> ses_token_digest ` set (db_sessions (w_db w1)) \<and>
      ''w2'' \<notin> ses_session_id ` set (db_sessions (w_db w1))
    | _ \<Rightarrow> False"
    by code_simp
  then obtain p code w1 where run: "?run = (Inr (p, code), w1)"
    and s: "some_student \<in> set (db_users (w_db w1))" and n: "4 = w_tick w1"
    and t: "par_created_at p \<le> ticking (4 + 1)" "ticking (4 + 9) < par_expires_at p"
    and f: "sha_of (CHR ''d'') \<notin> ses_token_digest ` set (db_sessions (w_db w1))"
      "''w2'' \<notin> ses_session_id ` set (db_sessions (w_db w1))"
    by (auto split: prod.splits sum.splits)
  have "acc_active some_student" "acc_role some_student = RoleStudent"
    "ticking (4 + 9) < ticking (4 + 5) + 300" "representable (ticking (4 + 5) + 300)"
    "valid_session_bearer (env_token afternoon (4 + 7))"
    "session_token_digest same_hash (env_token afternoon (4 + 7)) = Inr (sha_of (CHR ''d''))"
    "generated_text 1 (env_identifier afternoon (4 + 8)) = Inr ''w2''"
    by code_simp+
  note facts = this
  have "env_token afternoon (4 + 7) = new_bearer" "acc_user_id some_student = ''stu''" by code_simp+
  with terminal_login_succeeds [OF afternoon_quiet noon_intact same_hash_ok tui_sample_def run
      s facts(1,2) n t facts(3,4,5,6) f(1) facts(7) f(2)] run
  show ?thesis by metis
qed

theorem exchange_happens_once_witness:
  "\<exists>x raw w1 err w2. tui_consume tui_sample ''q1'' (PyStr ''CODE0003'') noon = (Inr (x, raw), w1) \<and>
    tui_consume tui_sample ''q1'' (PyStr ''CODE0003'') w1 = (Inl err, w2) \<and> w_db w2 = w_db w1"
proof -
  have "run_ok (tui_consume tui_sample ''q1'' (PyStr ''CODE0003'') noon)" by code_simp
  from run_ok_pair [OF this] obtain x raw w1 where
    run: "tui_consume tui_sample ''q1'' (PyStr ''CODE0003'') noon = (Inr (x, raw), w1)" by blast
  from exchange_happens_once [OF afternoon_quiet noon_intact same_hash_ok tui_sample_def run] run
  show ?thesis by blast
qed

section \<open>Federated identities\<close>

definition known_claims :: assertion where
  "known_claims = \<lparr>asr_provider = ''google'', asr_subject = ''42'', asr_display_name = ''Stu'',
     asr_email = Some ''stu@x.org'', asr_email_verified = True, asr_username = None\<rparr>"

definition unknown_claims :: assertion where
  "unknown_claims = known_claims\<lparr>asr_subject := ''43''\<rparr>"

definition accented_claims :: assertion where
  "accented_claims = known_claims\<lparr>asr_display_name := ''Jos'' @ [char_of (233::nat)]\<rparr>"

definition user_id_of :: "nat \<Rightarrow> pyval" where
  "user_id_of n = PyStr ''u7''"

definition federation_sample :: "world federation_service" where
  "federation_sample = sqlite_federation_service afternoon user_id_of ['' Google '']"

definition one_answer :: "assertion \<Rightarrow> world provider_adapter" where
  "one_answer a = \<lparr>ad_provider_name = PyStr ''google'', ad_authenticate = (\<lambda>credential. return_act (Some (raw_of_assertion a)))\<rparr>"

theorem resolved_account_is_linked_witness:
  "\<exists>u w'. resolve_assertion federation_sample (Some (raw_of_assertion known_claims)) noon = (Inr u, w') \<and>
    u \<in> set (db_users (w_db w')) \<and> acc_active u"
proof -
  have "run_ok (resolve_assertion federation_sample (Some (raw_of_assertion known_claims)) noon)" by code_simp
  from run_okD [OF this] obtain u w' where
    run: "resolve_assertion federation_sample (Some (raw_of_assertion known_claims)) noon = (Inr u, w')" by blast
  from resolved_account_is_linked [OF afternoon_honest noon_intact run [unfolded federation_sample_def]] run
  show ?thesis by blast
qed

theorem onboarding_follows_policy_witness:
  "\<exists>u w'. resolve_assertion federation_sample (Some (raw_of_assertion unknown_claims)) noon = (Inr u, w') \<and>
    acc_role u = RolePending \<and> u \<in> set (db_users (w_db w'))"
proof -
  have "normalize_assertion (Some (raw_of_assertion unknown_claims)) = Inr unknown_claims"
    "(asr_provider unknown_claims, asr_subject unknown_claims) \<notin> ext_provider_key ` set (db_identities (w_db noon))"
    "generated_text 1 (user_id_of (w_tick noon + 2)) = Inr ''u7''" "\<not> user_exists (w_db noon) ''u7''"
    "(asr_provider unknown_claims, asr_subject unknown_claims, ticking (w_tick noon)) \<notin> set (db_generations (w_db noon))"
    "asr_provider unknown_claims \<in> (\<lambda>v. lower (strip v)) ` set ['' Google ''] \<and>
     asr_email unknown_claims \<noteq> None \<and> asr_email_verified unknown_claims"
    by code_simp+
  note facts = this
  note policy = onboarding_follows_policy [where ids = user_id_of and a = unknown_claims and w = noon and c = ticking,
      OF afternoon_quiet noon_intact facts(1-5) refl refl refl, of "['' Google '']"]
  show ?thesis
    unfolding federation_sample_def policy if_P [OF facts(6)] by (intro exI conjI, rule refl) simp_all
qed

theorem known_subject_resolves_witness:
  "\<exists>w'. resolve_assertion federation_sample (Some (raw_of_assertion known_claims)) noon = (Inr some_student, w')"
proof -
  have "normalize_assertion (Some (raw_of_assertion known_claims)) = Inr known_claims"
    "some_link \<in> set (db_identities (w_db noon))" "ext_provider some_link = asr_provider known_claims"
    "ext_subject some_link = asr_subject known_claims" "some_student \<in> set (db_users (w_db noon))"
    "acc_user_id some_student = ext_user_id some_link" "acc_active some_student"
    by code_simp+
  note facts = this
  from known_subject_resolves [OF afternoon_quiet noon_intact facts(1-6), of user_id_of "['' Google '']"] facts(7)
  show ?thesis unfolding federation_sample_def by simp
qed

theorem authenticated_claims_are_clean_witness:
  "\<exists>u t. federated_authenticate federation_sample (one_answer known_claims) (PyStr ''cred'') noon = (Inr u, t) \<and>
    PyStr ''cred'' \<notin> set (assertion_claims (raw_of_assertion known_claims))"
proof -
  have "run_ok (federated_authenticate federation_sample (one_answer known_claims) (PyStr ''cred'') noon)"
    by code_simp
  from run_okD [OF this] obtain u t where
    run: "federated_authenticate federation_sample (one_answer known_claims) (PyStr ''cred'') noon = (Inr u, t)" by blast
  obtain raw s1 where ad: "ad_authenticate (one_answer known_claims) (PyStr ''cred'') noon = (Inr (Some raw), s1)"
    and clean: "PyStr ''cred'' \<notin> set (assertion_claims raw)"
    using authenticated_claims_are_clean [OF run] by blast
  have "raw = raw_of_assertion known_claims" using ad by (simp add: one_answer_def)
  with run clean show ?thesis by blast
qed

theorem accented_name_is_refused_witness:
  "fst (federated_authenticate federation_sample (one_answer accented_claims) (PyStr ''cred'') noon) =
     Inl ProviderAuthentication \<and>
   normalize_assertion (Some (raw_of_assertion accented_claims)) = Inr accented_claims"
proof -
  have "ad_authenticate (one_answer accented_claims) (PyStr ''cred'') noon =
      (Inr (Some (raw_of_assertion accented_claims)), noon)"
    by (simp add: one_answer_def return_act_def)
  moreover have "valid_assertion accented_claims" "\<not> ascii_text (asr_display_name accented_claims)"
    "asr_provider accented_claims \<noteq> ''cred''" "asr_subject accented_claims \<noteq> ''cred''"
    by code_simp+
  ultimately show ?thesis
    using accented_name_is_refused [of "one_answer accented_claims" "''cred''" noon accented_claims noon] by simp
qed

section \<open>Admission limits\<close>

definition one_bucket :: rate_bucket where
  "one_bucket = \<lparr>bkt_key = ''global:login'', bkt_limit = 1, bkt_window = 60\<rparr>"

definition first_window :: rate_key where
  "first_window = (''global:login'', 60, 0)"

definition at_epoch :: pyval where
  "at_epoch = utc_datetime unix_epoch"

definition busy_store :: rate_store where
  "busy_store = \<lparr>rs_counters = [(first_window, 1)], rs_high = Some 0\<rparr>"

lemma one_bucket_valid: "list_all valid_bucket [one_bucket]"
  by code_simp

lemma at_epoch_input: "admission_input [one_bucket] at_epoch = Inr 0"
  by (simp add: admission_input_def at_epoch_def rate_utc_def utc_datetime_def unix_epoch_def representable_def
      max_instant_def day_micros_def double_seconds_def)

lemma busy_store_ok: "store_ok busy_store"
  by (simp add: store_ok_def busy_store_def first_window_def)

lemma one_bucket_simps: "bucket_key 0 one_bucket = first_window" "bkt_limit one_bucket = 1"
    "live_key 0 first_window" "window_end first_window = 60"
  by (simp_all add: bucket_key_def one_bucket_def first_window_def live_key_def window_end_def)

lemma busy_refusal: "memory_admit 10 busy_store [one_bucket] at_epoch = (Inr (Some 60), busy_store)"
  by (simp add: memory_admit_def at_epoch_input effective_epoch_def busy_store_def live_counters_def
      one_bucket_simps retry_after_def counter_of_def)

lemma two_requests: "well_formed [([one_bucket], at_epoch), ([one_bucket], at_epoch)]"
    "limited first_window 1 [([one_bucket], at_epoch), ([one_bucket], at_epoch)]"
  using one_bucket_valid by (simp_all add: well_formed_def limited_def one_bucket_simps)

theorem window_limit_holds_witness:
  "int (count_list (granted_keys (memory_admit 10) rs_high empty_store
     [([one_bucket], at_epoch), ([one_bucket], at_epoch)]) first_window) \<le> 1 \<and>
   int (count_list (granted_keys (sqlite_admit 10 (\<lambda>s b n. False)) rs_high empty_store
     [([one_bucket], at_epoch), ([one_bucket], at_epoch)]) first_window) \<le> 1"
  by (rule window_limit_holds [OF two_requests]) simp

theorem waiting_is_enough_witness:
  "memory_admit 10 busy_store [one_bucket] at_epoch = (Inr (Some 60), busy_store) \<and>
   fst (memory_admit 10 busy_store [one_bucket] (utc_datetime (unix_epoch + 60000000))) \<in> {Inr None, Inl RateStoreError}"
proof -
  have "floorlog 2 62914560 = 26" by (simp add: compute_floorlog)
  then have "double_places 60000000 = 47" by (simp add: double_places_def)
  then have "double_seconds 60000000 = 60" by (simp add: double_seconds_def)
  then have "admission_input [one_bucket] (utc_datetime (unix_epoch + 60000000)) = Inr 60"
    by (simp add: admission_input_def rate_utc_def utc_datetime_def unix_epoch_def representable_def
        max_instant_def day_micros_def)
  with waiting_is_enough [OF disjI1 [OF busy_refusal] busy_store_ok one_bucket_valid]
  show ?thesis using busy_refusal by (auto simp: busy_store_def)
qed

theorem admission_is_atomic_witness:
  "store_ok (snd (memory_admit 10 empty_store [one_bucket] at_epoch)) \<and>
   counter_of (rs_counters (snd (memory_admit 10 empty_store [one_bucket] at_epoch))) first_window = 1"
proof -
  let ?t = "\<lparr>rs_counters = [(first_window, 1)], rs_high = Some 0\<rparr>"
  have run: "memory_admit 10 empty_store [one_bucket] at_epoch = (Inr None, ?t)"
    by (simp add: memory_admit_def at_epoch_input effective_epoch_def empty_store_def live_counters_def
        retry_after_def counter_of_def one_bucket_simps count_new_def increment_def)
  have ok: "store_ok empty_store" by (simp add: store_ok_def empty_store_def)
  have "live_key 0 first_window" "first_window \<in> bucket_key 0 ` set [one_bucket]"
    by (simp_all add: one_bucket_simps)
  with admission_is_atomic [OF disjI1 [OF run] ok one_bucket_valid] run show ?thesis
    by (auto simp: empty_store_def counter_of_def)
qed

end
