(* ===== verification/Auth_Linking.thy ===== *)
theory Auth_Linking
  imports Auth_Federated
begin

text \<open>
  \<^verbatim>\<open>ExternalIdentityLinkService\<close>: an authenticated user links one account of one provider to the
  internal account, or unlinks it. When a link loses a race against a link of the same user the
  service calls itself again; the interpreter bounds the depth of that recursion, and so does
  the model.
\<close>

section \<open>The storage protocol\<close>

record 's link_port =
  lp_read_user :: "string \<Rightarrow> ('s, user_account option) storage_call"
  lp_read_identity :: "string \<Rightarrow> string \<Rightarrow> ('s, external_identity option) storage_call"
  lp_latest_generation :: "string \<Rightarrow> string \<Rightarrow> ('s, instant option) storage_call"
  lp_list_identities :: "string \<Rightarrow> ('s, external_identity list) storage_call"
  lp_link_for_user :: "external_identity \<Rightarrow> instant \<Rightarrow> ('s, unit) storage_call"
  lp_link_for_session :: "external_identity \<Rightarrow> instant \<Rightarrow> session_expectation \<Rightarrow> ('s, unit) storage_call"
  lp_refresh :: "external_identity \<Rightarrow> instant \<Rightarrow> instant \<Rightarrow> ('s, unit) storage_call"
  lp_refresh_for_session ::
    "external_identity \<Rightarrow> instant \<Rightarrow> instant \<Rightarrow> session_expectation \<Rightarrow> ('s, unit) storage_call"
  lp_unlink_for_session ::
    "string \<Rightarrow> string \<Rightarrow> string \<Rightarrow> instant \<Rightarrow> instant \<Rightarrow> session_expectation \<Rightarrow> ('s, bool) storage_call"

section \<open>The service\<close>

record 's link_service =
  ls_storage :: "'s link_port"
  ls_provider :: string
  ls_clock :: "'s source"

definition make_link_service ::
  "'s link_port \<Rightarrow> pyval \<Rightarrow> 's source \<Rightarrow> (auth_error, 's link_service) result" where
  "make_link_service storage expected_provider clock =
     bind_result (auth_required_text True expected_provider) (\<lambda>provider.
     Inr \<lparr>ls_storage = storage, ls_provider = provider, ls_clock = clock\<rparr>)"

text \<open>The \<^verbatim>\<open>expected_session\<close> argument: none, an object of another type, or a session.\<close>

datatype session_argument = NoSession | OtherObject | GivenSession user_session

definition session_expected :: "user_session \<Rightarrow> instant \<Rightarrow> session_expectation" where
  "session_expected x t =
     \<lparr>exp_session_id = ses_session_id x, exp_token_digest = ses_token_digest x,
      exp_created_at = ses_created_at x, exp_expires_at = ses_expires_at x, exp_audience = ses_audience x,
      exp_source_pairing = ses_source_pairing x, exp_valid_at = t\<rparr>"

fun session_accepted :: "session_argument \<Rightarrow> string \<Rightarrow> bool" where
  "session_accepted NoSession i = True"
| "session_accepted OtherObject i = False"
| "session_accepted (GivenSession x) i = (ses_user_id x = i)"

definition store_refresh ::
  "'s link_port \<Rightarrow> session_argument \<Rightarrow> external_identity \<Rightarrow> instant \<Rightarrow> instant \<Rightarrow> instant \<Rightarrow> ('s, unit) storage_call"
where
  "store_refresh port session refreshed linked_at revision now =
     (case session of
        GivenSession x \<Rightarrow> lp_refresh_for_session port refreshed linked_at revision (session_expected x now)
      | _ \<Rightarrow> lp_refresh port refreshed linked_at revision)"

definition store_link ::
  "'s link_port \<Rightarrow> session_argument \<Rightarrow> external_identity \<Rightarrow> instant \<Rightarrow> instant \<Rightarrow> ('s, unit) storage_call" where
  "store_link port session identity revision now =
     (case session of
        GivenSession x \<Rightarrow> lp_link_for_session port identity revision (session_expected x now)
      | _ \<Rightarrow> lp_link_for_user port identity revision)"

definition link_identity ::
  "'s link_service \<Rightarrow> string \<Rightarrow> assertion \<Rightarrow> instant \<Rightarrow> (identity_error, external_identity) result" where
  "link_identity srv user_id a linked_at =
     make_external_identity (PyStr user_id) (PyStr (ls_provider srv)) (PyStr (asr_subject a))
       (utc_datetime linked_at) (py_optional PyStr (asr_email a)) (py_optional PyStr (asr_username a))"

text \<open>The next generation to try after a read of the latest one; \<open>None\<close> when it overflows.\<close>

definition first_generation :: "instant option \<Rightarrow> instant \<Rightarrow> instant option" where
  "first_generation latest linked_at =
     (case latest of
        None \<Rightarrow> Some linked_at
      | Some t \<Rightarrow> if linked_at \<le> t then (if representable (t + 1) then Some (t + 1) else None) else Some linked_at)"

definition later_generation :: "instant option \<Rightarrow> instant \<Rightarrow> instant option" where
  "later_generation latest linked_at =
     (let t = (case latest of Some t \<Rightarrow> if linked_at \<le> t then t else linked_at | None \<Rightarrow> linked_at)
      in if representable (t + 1) then Some (t + 1) else None)"

text \<open>The loop over generations; \<open>again\<close> is the recursive call of the service.\<close>

fun link_attempts ::
  "nat \<Rightarrow> 's link_service \<Rightarrow> ('s, external_identity) auth_action \<Rightarrow> string \<Rightarrow> assertion \<Rightarrow> session_argument \<Rightarrow>
   instant \<Rightarrow> instant \<Rightarrow> instant \<Rightarrow> ('s, external_identity) auth_action"
where
  "link_attempts 0 srv again i a session revision now linked_at = raise_act ConcurrentStateChange"
| "link_attempts (Suc n) srv again i a session revision now linked_at =
     bind_act (lift_identity (link_identity srv i a linked_at)) (\<lambda>identity.
     try_act (store_link (ls_storage srv) session identity revision now)
       (\<lambda>e. if e = GenerationConflict then
              bind_act (uncaught (lp_read_identity (ls_storage srv) (ls_provider srv) (asr_subject a))) (\<lambda>current.
              case current of
                Some k \<Rightarrow> if ext_user_id k = i then again else raise_act ExternalLinkConflict
              | None \<Rightarrow>
                  bind_act (uncaught (lp_latest_generation (ls_storage srv) (ls_provider srv) (asr_subject a))) (\<lambda>latest.
                  case later_generation latest linked_at of
                    None \<Rightarrow> raise_act ConcurrentStateChange
                  | Some t \<Rightarrow> link_attempts n srv again i a session revision now t))
            else if is_conflict e then
              bind_act (uncaught (lp_read_identity (ls_storage srv) (ls_provider srv) (asr_subject a))) (\<lambda>current.
              case current of
                Some k \<Rightarrow> if ext_user_id k \<noteq> i then raise_act ExternalLinkConflict else raise_act ConcurrentStateChange
              | None \<Rightarrow> raise_act ConcurrentStateChange)
            else raise_act (FromStorage e))
       (\<lambda>_. return_act identity))"

definition expected_revision :: "pyval \<Rightarrow> user_account \<Rightarrow> (auth_error, instant) result" where
  "expected_revision expected account =
     (if expected = PyNone then Inr (acc_updated_at account)
      else bind_result (utc expected) (\<lambda>rvn.
        if acc_updated_at account \<noteq> rvn then Inl ConcurrentStateChange else Inr rvn))"

text \<open>The part of \<^verbatim>\<open>link\<close> from the list of the account's identities on.\<close>

definition link_checked ::
  "'s link_service \<Rightarrow> ('s, external_identity) auth_action \<Rightarrow> string \<Rightarrow> assertion \<Rightarrow> session_argument \<Rightarrow>
   instant \<Rightarrow> instant \<Rightarrow> ('s, external_identity) auth_action"
where
  "link_checked srv again i a session revision now =
     bind_act (uncaught (lp_list_identities (ls_storage srv) i)) (\<lambda>links.
     let own = filter (\<lambda>k. ext_provider k = ls_provider srv) links in
     if 1 < length own then raise_act ConcurrentStateChange
     else bind_act (uncaught (lp_read_identity (ls_storage srv) (ls_provider srv) (asr_subject a))) (\<lambda>winner.
     if (case winner of None \<Rightarrow> False | Some w \<Rightarrow> ext_user_id w \<noteq> i) then raise_act ExternalLinkConflict
     else if own \<noteq> [] \<and> ext_subject (hd own) \<noteq> asr_subject a then raise_act ExternalLinkConflict
     else case winner of
       Some w \<Rightarrow>
         bind_act (lift_identity (link_identity srv i a (ext_linked_at w))) (\<lambda>refreshed.
         try_act (store_refresh (ls_storage srv) session refreshed (ext_linked_at w) revision now)
           (\<lambda>e. if is_conflict e \<or> e = StorageNotFound then raise_act ConcurrentStateChange
                 else raise_act (FromStorage e))
           (\<lambda>_. return_act refreshed))
     | None \<Rightarrow>
         bind_act (uncaught (lp_latest_generation (ls_storage srv) (ls_provider srv) (asr_subject a))) (\<lambda>latest.
         case first_generation latest now of
           None \<Rightarrow> raise_act ConcurrentStateChange
         | Some linked_at \<Rightarrow> link_attempts max_attempts srv again i a session revision now linked_at)))"

fun link_account ::
  "nat \<Rightarrow> 's link_service \<Rightarrow> pyval \<Rightarrow> raw_assertion option \<Rightarrow> session_argument \<Rightarrow> pyval \<Rightarrow>
   ('s, external_identity) auth_action"
where
  "link_account 0 srv user_id obj session expected = raise_act AuthRecursion"
| "link_account (Suc depth) srv user_id obj session expected =
     bind_act (lift_act (auth_required_text False user_id)) (\<lambda>i.
     bind_act (lift_act (normalize_assertion obj)) (\<lambda>a.
     if asr_provider a \<noteq> ls_provider srv then raise_act ProviderProtocol
     else bind_act (uncaught (lp_read_user (ls_storage srv) i)) (\<lambda>found.
     case found of
       None \<Rightarrow> raise_act InvalidCredential
     | Some account \<Rightarrow>
         bind_act (lift_identity (require_active_account account)) (\<lambda>_.
         if \<not> session_accepted session (acc_user_id account) then raise_act InvalidCredential
         else bind_act (read_clock (ls_clock srv)) (\<lambda>now.
         bind_act (lift_act (expected_revision expected account)) (\<lambda>revision.
         link_checked srv
           (link_account depth srv (PyStr (acc_user_id account)) (Some (raw_of_assertion a)) session
             (utc_datetime revision))
           (acc_user_id account) a session revision now))))))"

definition unlink_account ::
  "'s link_service \<Rightarrow> pyval \<Rightarrow> session_argument \<Rightarrow> ('s, external_identity) auth_action" where
  "unlink_account srv user_id session =
     bind_act (lift_act (auth_required_text False user_id)) (\<lambda>i.
     bind_act (uncaught (lp_read_user (ls_storage srv) i)) (\<lambda>found.
     case found of
       None \<Rightarrow> raise_act InvalidCredential
     | Some account \<Rightarrow>
         bind_act (lift_identity (require_active_account account)) (\<lambda>_.
         case session of
           GivenSession x \<Rightarrow>
             if ses_user_id x \<noteq> acc_user_id account then raise_act InvalidCredential
             else bind_act (read_clock (ls_clock srv)) (\<lambda>now.
             bind_act (uncaught (lp_list_identities (ls_storage srv) (acc_user_id account))) (\<lambda>links.
             case filter (\<lambda>k. ext_provider k = ls_provider srv) links of
               [] \<Rightarrow> raise_act ExternalNotLinked
             | k # others \<Rightarrow>
                 if others \<noteq> [] then raise_act ConcurrentStateChange
                 else try_act (lp_unlink_for_session (ls_storage srv) (ext_provider k) (ext_subject k) (ext_user_id k)
                     (ext_linked_at k) (acc_updated_at account) (session_expected x now))
                   (\<lambda>e. if is_conflict e then raise_act ConcurrentStateChange else raise_act (FromStorage e))
                   (\<lambda>removed. if \<not> removed then raise_act ConcurrentStateChange else return_act k)))
         | _ \<Rightarrow> raise_act InvalidCredential)))"

section \<open>The contract\<close>

text \<open>The session that was given is still there, of the same generation and open.\<close>

definition session_stands :: "('s \<Rightarrow> user_session \<Rightarrow> bool) \<Rightarrow> 's \<Rightarrow> session_expectation \<Rightarrow> string \<Rightarrow> bool" where
  "session_stands session_at s x i \<longleftrightarrow>
     (\<exists>y. session_at s y \<and> ses_session_id y = exp_session_id x \<and> ses_token_digest y = exp_token_digest x \<and>
        ses_created_at y = exp_created_at x \<and> ses_expires_at y = exp_expires_at x \<and>
        ses_audience y = exp_audience x \<and> ses_source_pairing y = exp_source_pairing x \<and> ses_user_id y = i \<and>
        ses_revoked_at y = None \<and> exp_valid_at x < ses_expires_at y)"

definition linked_at_key :: "('s \<Rightarrow> external_identity \<Rightarrow> bool) \<Rightarrow> 's \<Rightarrow> external_identity \<Rightarrow> bool" where
  "linked_at_key link_at s e \<longleftrightarrow>
     (\<exists>k. link_at s k \<and> ext_provider_key k = ext_provider_key e \<and> ext_user_id k = ext_user_id e \<and>
        ext_linked_at k = ext_linked_at e)"

locale link_registry = identity_registry intact evolves user_at
  for intact :: "'s \<Rightarrow> bool" and evolves :: "'s \<Rightarrow> 's \<Rightarrow> bool" and user_at :: "'s \<Rightarrow> user_account \<Rightarrow> bool" +
  fixes port :: "'s link_port"
    and link_at :: "'s \<Rightarrow> external_identity \<Rightarrow> bool"
    and session_at :: "'s \<Rightarrow> user_session \<Rightarrow> bool"
  assumes read_user_keeps: "keeps (guarded intact evolves) (lp_read_user port i)"
    and read_identity_keeps: "keeps (guarded intact evolves) (lp_read_identity port p q)"
    and latest_keeps: "keeps (guarded intact evolves) (lp_latest_generation port p q)"
    and list_keeps: "keeps (guarded intact evolves) (lp_list_identities port i)"
    and link_user_keeps: "valid_external e \<Longrightarrow> keeps (guarded intact evolves) (lp_link_for_user port e rvn)"
    and link_session_keeps: "valid_external e \<Longrightarrow> keeps (guarded intact evolves) (lp_link_for_session port e rvn x)"
    and refresh_keeps: "valid_external e \<Longrightarrow> keeps (guarded intact evolves) (lp_refresh port e l rvn)"
    and refresh_session_keeps: "valid_external e \<Longrightarrow>
      keeps (guarded intact evolves) (lp_refresh_for_session port e l rvn x)"
    and unlink_keeps: "keeps (guarded intact evolves) (lp_unlink_for_session port p q i l rvn x)"
    and read_user_law: "intact s \<Longrightarrow> lp_read_user port i s = (Inr (Some u), t) \<Longrightarrow>
      user_at t u \<and> acc_user_id u = i"
    and link_user_law: "intact s \<Longrightarrow> lp_link_for_user port e rvn s = (Inr (), t) \<Longrightarrow>
      link_at t e \<and> active_at user_at t (ext_user_id e) rvn"
    and link_session_law: "intact s \<Longrightarrow> lp_link_for_session port e rvn x s = (Inr (), t) \<Longrightarrow>
      link_at t e \<and> active_at user_at t (ext_user_id e) rvn \<and> session_stands session_at t x (ext_user_id e)"
    and refresh_law: "intact s \<Longrightarrow> lp_refresh port e (ext_linked_at e) rvn s = (Inr (), t) \<Longrightarrow>
      linked_at_key link_at t e \<and> active_at user_at t (ext_user_id e) rvn"
    and refresh_session_law: "intact s \<Longrightarrow>
      lp_refresh_for_session port e (ext_linked_at e) rvn x s = (Inr (), t) \<Longrightarrow>
      linked_at_key link_at t e \<and> active_at user_at t (ext_user_id e) rvn \<and>
      session_stands session_at t x (ext_user_id e)"
    and list_law: "intact s \<Longrightarrow> lp_list_identities port i s = (Inr ks, t) \<Longrightarrow> k \<in> set ks \<Longrightarrow>
      ext_user_id k = i \<and> lower (ext_provider k) = ext_provider k"
    and unlink_law: "intact s \<Longrightarrow> lp_unlink_for_session port p q i l rvn x s = (Inr True, t) \<Longrightarrow> lower p = p \<Longrightarrow>
      (\<forall>k. link_at t k \<longrightarrow> ext_provider_key k \<noteq> (p, q)) \<and> active_at user_at t i rvn \<and>
      session_stands session_at t x i"

section \<open>Proofs against the contract\<close>

definition link_wired ::
  "('s \<Rightarrow> bool) \<Rightarrow> ('s \<Rightarrow> 's \<Rightarrow> bool) \<Rightarrow> 's link_port \<Rightarrow> 's link_service \<Rightarrow> bool" where
  "link_wired intact evolves port srv \<longleftrightarrow> ls_storage srv = port \<and> harmless (guarded intact evolves) (ls_clock srv)"

lemma link_identity_assertion: "asr_provider a = ls_provider srv \<Longrightarrow> link_identity srv i a t = assertion_identity i a t"
  by (simp add: link_identity_def assertion_identity_def)

lemma session_expected_same:
  "session_stands session_at s (session_expected x t) (ses_user_id x) \<longleftrightarrow>
     (\<exists>y. session_at s y \<and> same_generation x y \<and> ses_revoked_at y = None \<and> t < ses_expires_at y)"
  by (auto simp: session_stands_def session_expected_def same_generation_def)

context link_registry begin

text \<open>The link of the assertion's subject is the given user's, who is active, and the session that was
  given is open.\<close>

definition held :: "'s \<Rightarrow> assertion \<Rightarrow> string \<Rightarrow> session_argument \<Rightarrow> external_identity \<Rightarrow> bool" where
  "held s a i session x \<longleftrightarrow>
     ext_provider x = asr_provider a \<and> ext_subject x = asr_subject a \<and> ext_user_id x = i \<and>
     linked_at_key link_at s x \<and> (\<exists>rvn. active_at user_at s i rvn) \<and>
     (\<forall>y. session = GivenSession y \<longrightarrow>
        (\<exists>z. session_at s z \<and> same_generation y z \<and> ses_revoked_at z = None))"

lemma link_parts:
  assumes "link_wired intact evolves port srv"
  shows "ls_storage srv = port" "keeps (guarded intact evolves) (read_clock (ls_clock srv))"
  using assms by (auto simp: link_wired_def harmless_def intro!: guarded_draw)

lemma link_identity_valid: "link_identity srv i a t = Inr x \<Longrightarrow> valid_external x"
  unfolding link_identity_def by (rule make_external_valid)

lemma store_keeps:
  assumes "valid_external x"
  shows "keeps (guarded intact evolves) (store_link port session x rvn now)"
    "keeps (guarded intact evolves) (store_refresh port session x l rvn now)"
  using assms
  by (auto simp: store_link_def store_refresh_def split: session_argument.splits
      intro: link_user_keeps link_session_keeps refresh_keeps refresh_session_keeps)

lemma store_held:
  assumes "intact s" "valid_assertion a" "clean_text i" "assertion_identity i a l = Inr x" "session_accepted session i"
    and "store_link port session x rvn now s = (Inr (), t) \<or> store_refresh port session x l rvn now s = (Inr (), t)"
  shows "held t a i session x"
proof -
  have x: "x = \<lparr>ext_user_id = i, ext_provider = asr_provider a, ext_subject = asr_subject a, ext_linked_at = l,
      ext_email = asr_email a, ext_username = asr_username a\<rparr>"
    using assms(4) unfolding assertion_identity_Inr [OF assms(2,3)] by simp
  have "ext_linked_at x = l" "ext_user_id x = i" by (simp_all add: x)
  moreover have "link_at t x \<Longrightarrow> linked_at_key link_at t x" by (auto simp: linked_at_key_def)
  ultimately have "linked_at_key link_at t x \<and> active_at user_at t i rvn \<and>
      (\<forall>y. session = GivenSession y \<longrightarrow> session_stands session_at t (session_expected y now) i)"
    using assms(1,6) link_user_law [OF assms(1), of x rvn t] refresh_law [OF assms(1), of x rvn t]
      link_session_law [OF assms(1), of x rvn _ t] refresh_session_law [OF assms(1), of x rvn _ t]
    by (cases session) (auto simp: store_link_def store_refresh_def)
  then show ?thesis
    using assms(5) by (auto simp: held_def x session_expected_same; blast)
qed

lemma attempts_keeps:
  assumes "link_wired intact evolves port srv" "keeps (guarded intact evolves) again"
  shows "keeps (guarded intact evolves) (link_attempts n srv again i a session rvn now l)"
proof (induction n arbitrary: l)
  case 0
  then show ?case by (simp add: guarded_pure)
next
  case (Suc n)
  show ?case
    unfolding link_attempts.simps link_parts(1) [OF assms(1)]
    by (auto intro!: guarded_bind guarded_lift_bind guarded_try guarded_uncaught guarded_pure keeps_if keeps_option
        read_identity_keeps latest_keeps store_keeps assms(2) Suc.IH dest: link_identity_valid)
qed

lemma attempts_held:
  assumes w: "link_wired intact evolves port srv" and a: "valid_assertion a" "asr_provider a = ls_provider srv"
    and i: "clean_text i" "session_accepted session i"
    and again: "\<And>s t x. again s = (Inr x, t) \<Longrightarrow> intact s \<Longrightarrow> held t a i session x"
  shows "link_attempts n srv again i a session rvn now l s = (Inr x, t) \<Longrightarrow> intact s \<Longrightarrow> held t a i session x"
proof (induction n arbitrary: s l)
  case 0
  then show ?case by simp
next
  case (Suc n)
  from Suc.prems(1) obtain y where y: "link_identity srv i a l = Inr y"
    and tried: "store_link port session y rvn now s = (Inr (), t) \<and> x = y \<or>
      (\<exists>e s1 s2 k. store_link port session y rvn now s = (Inl e, s1) \<and>
         lp_read_identity port (ls_provider srv) (asr_subject a) s1 = (Inr (Some k), s2) \<and> again s2 = (Inr x, t)) \<or>
      (\<exists>e s1 s2 s3 v l'. store_link port session y rvn now s = (Inl e, s1) \<and>
         lp_read_identity port (ls_provider srv) (asr_subject a) s1 = (Inr None, s2) \<and>
         lp_latest_generation port (ls_provider srv) (asr_subject a) s2 = (Inr v, s3) \<and>
         link_attempts n srv again i a session rvn now l' s3 = (Inr x, t))"
    by (auto simp: run_simps uncaught_def lift_identity_def link_parts(1) [OF w] split: if_splits; blast)
  have v: "valid_external y" using y by (rule link_identity_valid)
  have s1: "intact s1" if "store_link port session y rvn now s = (r, s1)" for r s1
    using guardedD [OF store_keeps(1) [OF v] that Suc.prems(2)] by blast
  have s2: "intact s2" if "intact s1" "lp_read_identity port p q s1 = (r, s2)" for p q r s1 s2
    using guardedD [OF read_identity_keeps that(2,1)] by blast
  have s3: "intact s2" if "intact s1" "lp_latest_generation port p q s1 = (r, s2)" for p q r s1 s2
    using guardedD [OF latest_keeps that(2,1)] by blast
  from tried show ?case
  proof (elim disjE exE conjE)
    assume "store_link port session y rvn now s = (Inr (), t)" "x = y"
    with store_held [OF Suc.prems(2) a(1) i(1) _ i(2), of l x rvn now t] y
    show ?thesis by (simp add: link_identity_assertion a(2))
  next
    fix e s1 s2 k
    assume "store_link port session y rvn now s = (Inl e, s1)"
      "lp_read_identity port (ls_provider srv) (asr_subject a) s1 = (Inr (Some k), s2)" "again s2 = (Inr x, t)"
    with again [of s2 x t] s1 s2 show ?thesis by blast
  next
    fix e s1 s2 s3 u l'
    assume "store_link port session y rvn now s = (Inl e, s1)"
      "lp_read_identity port (ls_provider srv) (asr_subject a) s1 = (Inr None, s2)"
      "lp_latest_generation port (ls_provider srv) (asr_subject a) s2 = (Inr u, s3)"
      "link_attempts n srv again i a session rvn now l' s3 = (Inr x, t)"
    with Suc.IH [of l' s3] s1 s2 s3 show ?thesis by blast
  qed
qed

lemma checked_keeps:
  assumes w: "link_wired intact evolves port srv" and again: "keeps (guarded intact evolves) again"
  shows "keeps (guarded intact evolves) (link_checked srv again i a session rvn now)"
  unfolding link_checked_def link_parts(1) [OF w] Let_def
  by (auto intro!: guarded_bind guarded_lift_bind guarded_try guarded_uncaught guarded_pure keeps_if keeps_option
      list_keeps read_identity_keeps latest_keeps store_keeps attempts_keeps [OF w] again dest: link_identity_valid)

lemma account_link_keeps:
  assumes w: "link_wired intact evolves port srv"
  shows "keeps (guarded intact evolves) (link_account depth srv uid obj session expected)"
proof (induction depth arbitrary: uid obj expected)
  case 0
  then show ?case by (simp add: guarded_pure)
next
  case (Suc depth)
  show ?case
    unfolding link_account.simps link_parts(1) [OF w]
    by (auto intro!: guarded_bind guarded_lift_bind guarded_uncaught guarded_pure keeps_if keeps_option
        read_user_keeps link_parts(2) [OF w] checked_keeps [OF w] Suc.IH)
qed

lemma checked_held:
  assumes w: "link_wired intact evolves port srv" and a: "valid_assertion a" "asr_provider a = ls_provider srv"
    and i: "clean_text i" "session_accepted session i"
    and again: "\<And>s t x. again s = (Inr x, t) \<Longrightarrow> intact s \<Longrightarrow> held t a i session x"
    and run: "link_checked srv again i a session rvn now s = (Inr x, t)" and s: "intact s"
  shows "held t a i session x"
proof -
  from run obtain ks s1 w s2 where li: "lp_list_identities port i s = (Inr ks, s1)"
    and wi: "lp_read_identity port (ls_provider srv) (asr_subject a) s1 = (Inr w, s2)"
    and go: "(\<exists>k y. w = Some k \<and> link_identity srv i a (ext_linked_at k) = Inr y \<and>
        store_refresh port session y (ext_linked_at k) rvn now s2 = (Inr (), t) \<and> x = y) \<or>
      (\<exists>v s3 l. lp_latest_generation port (ls_provider srv) (asr_subject a) s2 = (Inr v, s3) \<and>
        link_attempts max_attempts srv again i a session rvn now l s3 = (Inr x, t))"
    unfolding link_checked_def link_parts(1) [OF w]
    by (auto simp: run_simps uncaught_def lift_identity_def Let_def split: if_splits; blast)
  have s1: "intact s1" using guardedD [OF list_keeps li s] by blast
  have s2: "intact s2" using guardedD [OF read_identity_keeps wi s1] by blast
  from go show ?thesis
  proof (elim disjE exE conjE)
    fix k y
    assume "link_identity srv i a (ext_linked_at k) = Inr y"
      "store_refresh port session y (ext_linked_at k) rvn now s2 = (Inr (), t)" "x = y"
    with store_held [OF s2 a(1) i(1) _ i(2), of "ext_linked_at k" y rvn now t] a(2)
    show ?thesis by (simp add: link_identity_assertion)
  next
    fix v s3 l
    assume c: "lp_latest_generation port (ls_provider srv) (asr_subject a) s2 = (Inr v, s3)"
      "link_attempts max_attempts srv again i a session rvn now l s3 = (Inr x, t)"
    have "intact s3" using guardedD [OF latest_keeps c(1) s2] by blast
    show ?thesis by (rule attempts_held [OF w a i again c(2) \<open>intact s3\<close>])
  qed
qed

lemma link_held:
  assumes w: "link_wired intact evolves port srv"
  shows "link_account depth srv uid obj session expected s = (Inr x, t) \<Longrightarrow> intact s \<Longrightarrow>
    \<exists>i a. auth_required_text False uid = Inr i \<and> normalize_assertion obj = Inr a \<and>
      asr_provider a = ls_provider srv \<and> held t a i session x"
proof (induction depth arbitrary: uid obj expected s x t)
  case 0
  then show ?case by simp
next
  case (Suc depth)
  let ?rec = "\<lambda>u a rvn. link_account depth srv (PyStr (acc_user_id u)) (Some (raw_of_assertion a)) session (utc_datetime rvn)"
  from Suc.prems(1) obtain i a u s1 now s2 rvn
    where i: "auth_required_text False uid = Inr i" and a: "normalize_assertion obj = Inr a" "asr_provider a = ls_provider srv"
    and rd: "lp_read_user port i s = (Inr (Some u), s1)" and se: "session_accepted session (acc_user_id u)"
    and cl: "read_clock (ls_clock srv) s1 = (Inr now, s2)"
    and go: "link_checked srv (?rec u a rvn) (acc_user_id u) a session rvn now s2 = (Inr x, t)"
    unfolding link_account.simps link_parts(1) [OF w]
    by (auto simp: run_simps uncaught_def lift_identity_def require_active_account_def split: if_splits)
  have s1: "intact s1" using guardedD [OF read_user_keeps rd Suc.prems(2)] by blast
  have u: "user_at s1 u" "acc_user_id u = i" using read_user_law [OF Suc.prems(2) rd] by auto
  have clean: "clean_text i" using user_valid [OF s1 u(1)] u(2) by (simp add: valid_user_def)
  have s2: "intact s2" using guardedD [OF link_parts(2) [OF w] cl s1] by blast
  have va: "valid_assertion a" using a(1) by (rule normalize_valid)
  have again: "held t' a i session x'" if "?rec u a rvn s' = (Inr x', t')" "intact s'" for s' x' t'
    using Suc.IH [OF that] make_assertion_again [OF va] clean u(2)
    by (auto simp: normalize_assertion_def auth_text_domain field_simps)
  from checked_held [OF w va a(2) clean _ again go [unfolded u(2)] s2] se u(2) i a show ?case by auto
qed

lemma unlink_gone:
  assumes w: "link_wired intact evolves port srv"
    and run: "unlink_account srv uid session s = (Inr k, t)" and s: "intact s"
  shows "\<exists>i x. auth_required_text False uid = Inr i \<and> session = GivenSession x \<and> ext_user_id k = i \<and>
    ext_provider k = ls_provider srv \<and> (\<forall>j. link_at t j \<longrightarrow> ext_provider_key j \<noteq> ext_provider_key k) \<and>
    (\<exists>rvn. active_at user_at t i rvn) \<and>
    (\<exists>z. session_at t z \<and> same_generation x z \<and> ses_revoked_at z = None)"
proof -
  obtain x where x: "session = GivenSession x"
    using run by (cases session) (auto simp: unlink_account_def run_simps)
  from run obtain i u s1 now s2 ks s3
    where i: "auth_required_text False uid = Inr i" and rd: "lp_read_user port i s = (Inr (Some u), s1)"
    and xu: "ses_user_id x = acc_user_id u"
    and cl: "read_clock (ls_clock srv) s1 = (Inr now, s2)"
    and li: "lp_list_identities port (acc_user_id u) s2 = (Inr ks, s3)"
    and go: "(case filter (\<lambda>k. ext_provider k = ls_provider srv) ks of
               [] \<Rightarrow> raise_act ExternalNotLinked
             | k # others \<Rightarrow>
                 if others \<noteq> [] then raise_act ConcurrentStateChange
                 else try_act (lp_unlink_for_session port (ext_provider k) (ext_subject k) (ext_user_id k)
                     (ext_linked_at k) (acc_updated_at u) (session_expected x now))
                   (\<lambda>e. if is_conflict e then raise_act ConcurrentStateChange else raise_act (FromStorage e))
                   (\<lambda>removed. if \<not> removed then raise_act ConcurrentStateChange else return_act k)) s3 = (Inr k, t)"
    unfolding unlink_account_def link_parts(1) [OF w] x session_argument.case
    by (auto simp: bind_act_Inr case_option_act try_act_iff uncaught_def lift_identity_def split: if_splits)
  obtain others where k: "filter (\<lambda>k. ext_provider k = ls_provider srv) ks = k # others"
    and un: "lp_unlink_for_session port (ext_provider k) (ext_subject k) (ext_user_id k) (ext_linked_at k)
      (acc_updated_at u) (session_expected x now) s3 = (Inr True, t)"
    using go by (auto simp: run_simps split: list.splits if_splits)
  have s1: "intact s1" using guardedD [OF read_user_keeps rd s] by blast
  have u: "acc_user_id u = i" using read_user_law [OF s rd] by auto
  have s2: "intact s2" using guardedD [OF link_parts(2) [OF w] cl s1] by blast
  have s3: "intact s3" using guardedD [OF list_keeps li s2] by blast
  have "k \<in> set (filter (\<lambda>k. ext_provider k = ls_provider srv) ks)" by (simp add: k)
  then have kp: "k \<in> set ks" "ext_provider k = ls_provider srv" by auto
  have kl: "ext_user_id k = i" "lower (ext_provider k) = ext_provider k"
    using list_law [OF s2 li kp(1)] u by auto
  from unlink_law [OF s3 un kl(2)] i x xu kp(2) kl(1) u show ?thesis
    by (auto simp: ext_provider_key_def session_expected_same)
qed

end

end
