(* ===== verification/Sqlite_Links.thy ===== *)
theory Sqlite_Links
  imports Auth_Linking
begin

text \<open>
  \<^verbatim>\<open>ExternalIdentityLinkService\<close> on the SQLite storage: the contract of the link storage, what a
  link and an unlink leave behind under interference, when the recursion of a link ends, and
  what a link does when nobody interferes.
\<close>

definition sqlite_link_port :: "environment \<Rightarrow> world link_port" where
  "sqlite_link_port e =
     \<lparr>lp_read_user = (\<lambda>i. call e (\<lambda>now. read_user i)),
      lp_read_identity = (\<lambda>p q. call e (\<lambda>now. read_external_identity p q)),
      lp_latest_generation = (\<lambda>p q. call e (\<lambda>now. read_latest_generation p q)),
      lp_list_identities = (\<lambda>i. call e (\<lambda>now. list_external_identities i)),
      lp_link_for_user = (\<lambda>x rvn. call e (\<lambda>now. link_external_identity_for_active_user x rvn)),
      lp_link_for_session = (\<lambda>x rvn y. call e (\<lambda>now. link_external_identity_for_active_session now x rvn y)),
      lp_refresh = (\<lambda>x l rvn. call e (\<lambda>now. refresh_external_identity x l rvn)),
      lp_refresh_for_session =
        (\<lambda>x l rvn y. call e (\<lambda>now. refresh_external_identity_for_active_session now x l rvn y)),
      lp_unlink_for_session =
        (\<lambda>p q i l rvn y. call e (\<lambda>now. unlink_external_identity_for_active_session now p q i l rvn y))\<rparr>"

definition sqlite_link_service :: "environment \<Rightarrow> string \<Rightarrow> world link_service" where
  "sqlite_link_service e provider =
     \<lparr>ls_storage = sqlite_link_port e, ls_provider = provider, ls_clock = tick_source (env_clock e)\<rparr>"

section \<open>The contract holds\<close>

lemma hydrate_all_set: "hydrate_all h rs = Inr xs \<Longrightarrow> k \<in> set xs \<Longrightarrow> \<exists>r \<in> set rs. h r = Inr k"
  by (induction rs arbitrary: xs) (auto simp: result_simps)

lemma listed_identities:
  assumes "db_ok d" "list_external_identities i d = (Inr ks, d')" "k \<in> set ks"
  shows "k \<in> set (db_identities d) \<and> ext_user_id k = i \<and> lower (ext_provider k) = ext_provider k"
proof -
  obtain r where "r \<in> set (db_identities d)" "ext_user_id r = i" "hydrate_identity r = Inr k"
    using assms(2,3) by (auto simp: list_external_identities_def dest!: hydrate_all_set)
  moreover have "hydrate_identity r = Inr r" using hydrate_ok(2) [OF assms(1)] calculation(1) .
  ultimately have "k = r" by simp
  with \<open>r \<in> set (db_identities d)\<close> \<open>ext_user_id r = i\<close> assms(1) show ?thesis
    by (auto simp: ok_defs valid_external_def clean_lower_text_def)
qed

lemma standing_session:
  "db_ok d \<Longrightarrow> session_backs d x i (max (exp_valid_at x) now) \<Longrightarrow> w_db w = d' \<Longrightarrow> db_sessions d' = db_sessions d \<Longrightarrow>
     session_stands session_in w x i"
  by (auto simp: session_stands_def session_in_def session_backs_def list_ex_iff)

lemma session_refreshed_link:
  assumes "db_ok d" "refresh_external_identity_for_active_session now e l rvn x d = (Inr (), d')"
  shows "\<exists>k \<in> set (db_identities d'). ext_provider_key k = ext_provider_key e \<and> ext_user_id k = ext_user_id e \<and>
      ext_linked_at k = l" "user_at_revision d (ext_user_id e) rvn"
    "session_backs d x (ext_user_id e) (max (exp_valid_at x) now)"
    "db_users d' = db_users d \<and> db_sessions d' = db_sessions d"
proof -
  let ?P = "\<lambda>r. linked_row e l r \<and> user_at_revision d (ext_user_id r) rvn \<and>
    session_backs d x (ext_user_id r) (max (exp_valid_at x) now)"
  let ?f = "\<lambda>r. r\<lparr>ext_email := ext_email e, ext_username := ext_username e\<rparr>"
  have "count_where ?P (db_identities d) = 1"
    and d': "d' = d\<lparr>db_identities := update_where ?P ?f (db_identities d)\<rparr>"
    using assms(2)
    by (auto simp: refresh_external_identity_for_active_session_def update_identities_def Let_def action_simps
        split: if_splits)
  then have "count_where ?P (db_identities d) \<noteq> 0" by linarith
  then obtain r where r: "r \<in> set (db_identities d)" "?P r" unfolding count_where_eq_0 by blast
  then have "?f r \<in> set (db_identities d')"
    by (auto simp: d' update_where_def intro!: image_eqI [of _ _ r])
  then show "\<exists>k \<in> set (db_identities d'). ext_provider_key k = ext_provider_key e \<and>
      ext_user_id k = ext_user_id e \<and> ext_linked_at k = l"
    using r(2) by (intro bexI [of _ "?f r"]) (auto simp: ext_provider_key_def linked_row_def link_key_def)
  show "user_at_revision d (ext_user_id e) rvn" "session_backs d x (ext_user_id e) (max (exp_valid_at x) now)"
    using r(2) by (auto simp: linked_row_def)
  show "db_users d' = db_users d \<and> db_sessions d' = db_sessions d" by (simp add: d')
qed

lemma user_linked:
  assumes "link_external_identity_for_active_user x rvn d = (Inr (), d')"
  shows "x \<in> set (db_identities d')" "user_at_revision d (ext_user_id x) rvn" "db_users d' = db_users d"
  using assms
  by (auto simp: link_external_identity_for_active_user_def action_simps result_simps statement_simps split: if_splits)

lemma unlink_frames:
  assumes "unlink_external_identity_for_active_session now p q i l rvn x d = (r, d')"
  shows "db_users d' = db_users d" "db_sessions d' = db_sessions d"
  using assms
  by (cases r; auto simp: unlink_external_identity_for_active_session_def finish_unlink_def delete_identities_def
      drop_github_memberships_def Let_def action_simps split: if_splits)+

interpretation sqlite_links:
  link_registry "world_intact e" world_evolves user_in "sqlite_link_port e" link_in session_in for e
proof unfold_locales
  fix i p q l rvn x y
  show "keeps (guarded (world_intact e) world_evolves) (lp_read_user (sqlite_link_port e) i)"
    "keeps (guarded (world_intact e) world_evolves) (lp_read_identity (sqlite_link_port e) p q)"
    "keeps (guarded (world_intact e) world_evolves) (lp_latest_generation (sqlite_link_port e) p q)"
    "keeps (guarded (world_intact e) world_evolves) (lp_list_identities (sqlite_link_port e) i)"
    by (auto simp: sqlite_link_port_def read_latest_generation_def list_external_identities_def Let_def
        intro!: call_step intro: read_only_steps)
  show "valid_external x \<Longrightarrow> keeps (guarded (world_intact e) world_evolves) (lp_link_for_user (sqlite_link_port e) x rvn)"
    "valid_external x \<Longrightarrow> keeps (guarded (world_intact e) world_evolves) (lp_link_for_session (sqlite_link_port e) x rvn y)"
    "valid_external x \<Longrightarrow> keeps (guarded (world_intact e) world_evolves) (lp_refresh (sqlite_link_port e) x l rvn)"
    "valid_external x \<Longrightarrow>
      keeps (guarded (world_intact e) world_evolves) (lp_refresh_for_session (sqlite_link_port e) x l rvn y)"
    "keeps (guarded (world_intact e) world_evolves) (lp_unlink_for_session (sqlite_link_port e) p q i l rvn y)"
    by (auto simp: sqlite_link_port_def intro!: call_step step_of intro: storage_op.intros)
next
  fix w w' x y rvn
  assume w: "world_intact e w"
  show "user_in w' u \<and> acc_user_id u = i" if "lp_read_user (sqlite_link_port e) i w = (Inr (Some u), w')" for i u
    using that w by (auto simp: sqlite_link_port_def user_in_def elim!: call_cases dest: read_rows)
  show "link_in w' x \<and> active_at user_in w' (ext_user_id x) rvn"
    if "lp_link_for_user (sqlite_link_port e) x rvn w = (Inr (), w')"
    using that w
    by (auto simp: sqlite_link_port_def link_in_def elim!: call_cases intro: active_user dest: user_linked)
  show "link_in w' x \<and> active_at user_in w' (ext_user_id x) rvn \<and> session_stands session_in w' y (ext_user_id x)"
    if run: "lp_link_for_session (sqlite_link_port e) x rvn y w = (Inr (), w')"
  proof -
    obtain d now where "link_external_identity_for_active_session now x rvn y d = (Inr (), w_db w')" "db_ok d"
      using run w by (auto simp: sqlite_link_port_def elim!: call_cases)
    note r = this(1) [unfolded link_session_Inr] and ok = this(2)
    show ?thesis
      using r active_user [OF ok, of "ext_user_id x" rvn w'] standing_session [OF ok, of y "ext_user_id x" now w']
      by (simp add: link_in_def)
  qed
  show "linked_at_key link_in w' x \<and> active_at user_in w' (ext_user_id x) rvn"
    if run: "lp_refresh (sqlite_link_port e) x (ext_linked_at x) rvn w = (Inr (), w')"
  proof -
    obtain d where "refresh_external_identity x (ext_linked_at x) rvn d = (Inr (), w_db w')" "db_ok d"
      using run w by (auto simp: sqlite_link_port_def elim!: call_cases)
    with refreshed_link [OF this(2,1)] show ?thesis
      by (auto simp: linked_at_key_def link_in_def intro: active_user)
  qed
  show "linked_at_key link_in w' x \<and> active_at user_in w' (ext_user_id x) rvn \<and>
      session_stands session_in w' y (ext_user_id x)"
    if run: "lp_refresh_for_session (sqlite_link_port e) x (ext_linked_at x) rvn y w = (Inr (), w')"
  proof -
    obtain d now where r: "refresh_external_identity_for_active_session now x (ext_linked_at x) rvn y d = (Inr (), w_db w')"
        and ok: "db_ok d"
      using run w by (auto simp: sqlite_link_port_def elim!: call_cases)
    from session_refreshed_link [OF ok r] show ?thesis
      by (auto simp: linked_at_key_def link_in_def intro: active_user [OF ok] standing_session [OF ok])
  qed
  show "ext_user_id k = i \<and> lower (ext_provider k) = ext_provider k"
    if "lp_list_identities (sqlite_link_port e) i w = (Inr ks, w')" "k \<in> set ks" for i ks k
    using that w by (auto simp: sqlite_link_port_def elim!: call_cases dest: listed_identities)
  show "(\<forall>k. link_in w' k \<longrightarrow> ext_provider_key k \<noteq> (p, q)) \<and> active_at user_in w' i rvn \<and>
      session_stands session_in w' y i"
    if run: "lp_unlink_for_session (sqlite_link_port e) p q i l rvn y w = (Inr True, w')" and p: "lower p = p" for p q i l
  proof -
    obtain d now where r: "unlink_external_identity_for_active_session now p q i l rvn y d = (Inr True, w_db w')"
        and ok: "db_ok d"
      using run w by (auto simp: sqlite_link_port_def elim!: call_cases)
    note eff = unlink_session_outcome [OF ok r, unfolded p] and fr = unlink_frames [OF r]
    show ?thesis
      using eff active_user [OF ok _ refl fr(1), of i rvn] standing_session [OF ok _ refl fr(2), of y i now]
      by (auto simp: link_in_def link_exists_def link_key_def list_ex_iff ext_provider_key_def)
  qed
qed

lemma sqlite_link_simps [simp]:
  "ls_storage (sqlite_link_service e provider) = sqlite_link_port e"
  "ls_provider (sqlite_link_service e provider) = provider"
  "ls_clock (sqlite_link_service e provider) = tick_source (env_clock e)"
  by (simp_all add: sqlite_link_service_def)

lemma sqlite_link_wired:
  "link_wired (world_intact e) world_evolves (sqlite_link_port e) (sqlite_link_service e provider)"
  by (simp add: link_wired_def tick_source_harmless)

section \<open>Ownership under interference\<close>

text \<open>Linking is sound under interference: when the service returns a link, it is one of the provider
  it serves and of the subject of the validated assertion, for the given user; the database it
  leaves holds a link of that subject to that user of the same generation, the user is active
  there, and a session that was given is still there, of the same generation and not revoked.\<close>

theorem linked_account_is_owned:
  assumes "honest e" "db_ok (w_db w)"
    and "link_account depth (sqlite_link_service e provider) uid obj session expected w = (Inr x, w')"
  shows "\<exists>a. auth_required_text False uid = Inr (ext_user_id x) \<and> normalize_assertion obj = Inr a \<and>
    ext_provider x = provider \<and> asr_provider a = provider \<and> ext_subject x = asr_subject a \<and>
    (\<exists>k \<in> set (db_identities (w_db w')). ext_provider_key k = ext_provider_key x \<and>
       ext_user_id k = ext_user_id x \<and> ext_linked_at k = ext_linked_at x) \<and>
    (\<exists>u \<in> set (db_users (w_db w')). acc_user_id u = ext_user_id x \<and> acc_active u) \<and>
    (\<forall>y. session = GivenSession y \<longrightarrow>
       (\<exists>z \<in> set (db_sessions (w_db w')). same_generation y z \<and> ses_revoked_at z = None))"
proof -
  have "world_intact e w" using assms(1,2) by (simp add: world_intact_def)
  from sqlite_links.link_held [OF sqlite_link_wired assms(3) this] show ?thesis
    by (auto simp: sqlite_links.held_def linked_at_key_def active_at_def observations)
qed

text \<open>An unlink that returns has removed the link it returns: it was the user's own, of the provider of
  the service, no link of that provider subject is in the database the service leaves, the user
  is active there, and the session that was given is still there and not revoked.\<close>

theorem unlinked_account_is_gone:
  assumes "honest e" "db_ok (w_db w)"
    and "unlink_account (sqlite_link_service e provider) uid session w = (Inr k, w')"
  shows "auth_required_text False uid = Inr (ext_user_id k) \<and> ext_provider k = provider \<and>
    ext_provider_key k \<notin> ext_provider_key ` set (db_identities (w_db w')) \<and>
    (\<exists>u \<in> set (db_users (w_db w')). acc_user_id u = ext_user_id k \<and> acc_active u) \<and>
    (\<exists>y. session = GivenSession y \<and>
       (\<exists>z \<in> set (db_sessions (w_db w')). same_generation y z \<and> ses_revoked_at z = None))"
proof -
  have "world_intact e w" using assms(1,2) by (simp add: world_intact_def)
  from sqlite_links.unlink_gone [OF sqlite_link_wired assms(3) this] show ?thesis
    by (auto simp: active_at_def observations)
qed

section \<open>The recursion ends\<close>

text \<open>From tick \<open>k\<close> on no other process touches the database.\<close>

definition idle_from :: "environment \<Rightarrow> nat \<Rightarrow> bool" where
  "idle_from e k \<longleftrightarrow> (\<forall>n \<ge> k. env_others e n = id)"

lemma call_tick: "call e m w = (r, w') \<Longrightarrow> w_tick w' = Suc (w_tick w)"
  by (auto simp: call_def Let_def split: prod.splits)

lemma idle_call:
  "idle_from e (w_tick w) \<Longrightarrow> call e m w = (r, w') \<Longrightarrow>
     m (env_storage_clock e (w_tick w)) (w_db w) = (r, w_db w') \<and> w_tick w' = Suc (w_tick w) \<and> idle_from e (w_tick w')"
  by (auto simp: call_def Let_def idle_from_def split: prod.splits)

lemma transaction_failed: "transaction body d = (Inl e, d') \<Longrightarrow> d' = d"
  by (auto simp: action_simps)

definition unlinked :: "string \<Rightarrow> string \<Rightarrow> world \<Rightarrow> bool" where
  "unlinked p q w \<longleftrightarrow> lookup_by ext_provider_key (db_identities (w_db w)) (lower p, q) = None"

lemma idle_same:
  assumes "idle_from e (w_tick w)" "call e m w = (r, w')" "\<And>now d r d'. m now d = (r, d') \<Longrightarrow> ok r \<Longrightarrow> d' = d" "ok r"
  shows "w_db w' = w_db w \<and> idle_from e (w_tick w')"
  using idle_call [OF assms(1,2)] assms(3,4) by blast

lemma idle_identity:
  assumes "idle_from e (w_tick w)" "lp_read_identity (sqlite_link_port e) p q w = (Inr v, w')"
  shows "w_db w' = w_db w \<and> idle_from e (w_tick w') \<and> (v = None \<longleftrightarrow> unlinked p q w)"
proof -
  have "call e (\<lambda>now. read_external_identity p q) w = (Inr v, w')"
    using assms(2) by (simp add: sqlite_link_port_def)
  from idle_call [OF assms(1) this] show ?thesis
    by (cases "lookup_by ext_provider_key (db_identities (w_db w)) (lower p, q)")
      (auto simp: read_external_identity_def hydrate_optional_def unlinked_def result_simps simp del: lookup_by_None)
qed

lemma idle_reads:
  assumes "idle_from e (w_tick w)"
  shows "lp_latest_generation (sqlite_link_port e) p q w = (Inr g, w') \<Longrightarrow> w_db w' = w_db w \<and> idle_from e (w_tick w')"
    "lp_list_identities (sqlite_link_port e) i w = (Inr ks, w') \<Longrightarrow> w_db w' = w_db w \<and> idle_from e (w_tick w')"
    "lp_read_user (sqlite_link_port e) i w = (Inr u, w') \<Longrightarrow> w_db w' = w_db w \<and> idle_from e (w_tick w')"
  by (auto simp: sqlite_link_port_def read_latest_generation_def list_external_identities_def read_user_def Let_def
      elim!: idle_same [OF assms, where ok = "\<lambda>_. True"])

lemma idle_failed:
  "idle_from e (w_tick w) \<Longrightarrow> call e (\<lambda>now. transaction (body now)) w = (Inl err, w') \<Longrightarrow>
     w_db w' = w_db w \<and> idle_from e (w_tick w')"
  using idle_call [of e w "\<lambda>now. transaction (body now)" "Inl err" w'] by (auto dest: transaction_failed)

lemma idle_link_failed:
  assumes "idle_from e (w_tick w)" "store_link (sqlite_link_port e) session x rvn now w = (Inl err, w')"
  shows "w_db w' = w_db w \<and> idle_from e (w_tick w')"
  using assms(2)
  by (cases session) (simp_all add: store_link_def sqlite_link_port_def link_external_identity_for_active_user_def
      link_external_identity_for_active_session_def idle_failed [OF assms(1)])

lemma idle_attempts_settle:
  assumes "unlinked provider (asr_subject a) w" "idle_from e (w_tick w)"
  shows "link_attempts n (sqlite_link_service e provider) again i a session rvn now l w \<noteq> (Inl AuthRecursion, w')"
  using assms
proof (induction n arbitrary: w l)
  case (Suc n)
  show ?case
  proof
    assume run: "link_attempts (Suc n) (sqlite_link_service e provider) again i a session rvn now l w =
      (Inl AuthRecursion, w')"
    then obtain x w1 err where st: "store_link (sqlite_link_port e) session x rvn now w = (Inl err, w1)"
      and go: "bind_act (uncaught (lp_read_identity (sqlite_link_port e) provider (asr_subject a)))
          (\<lambda>current. case current of
             Some k \<Rightarrow> if ext_user_id k = i then again else raise_act ExternalLinkConflict
           | None \<Rightarrow> bind_act (uncaught (lp_latest_generation (sqlite_link_port e) provider (asr_subject a))) (\<lambda>latest.
               case later_generation latest l of
                 None \<Rightarrow> raise_act ConcurrentStateChange
               | Some t \<Rightarrow> link_attempts n (sqlite_link_service e provider) again i a session rvn now t)) w1 =
        (Inl AuthRecursion, w')"
      by (auto simp: run_simps uncaught_def lift_identity_def map_error_def split: if_splits sum.splits)
    from idle_link_failed [OF Suc.prems(2) st] Suc.prems(1)
    have w1: "unlinked provider (asr_subject a) w1" "idle_from e (w_tick w1)" by (simp_all add: unlinked_def)
    from go obtain v w2 where rd: "lp_read_identity (sqlite_link_port e) provider (asr_subject a) w1 = (Inr v, w2)"
      and go2: "(case v of
             Some k \<Rightarrow> if ext_user_id k = i then again else raise_act ExternalLinkConflict
           | None \<Rightarrow> bind_act (uncaught (lp_latest_generation (sqlite_link_port e) provider (asr_subject a))) (\<lambda>latest.
               case later_generation latest l of
                 None \<Rightarrow> raise_act ConcurrentStateChange
               | Some t \<Rightarrow> link_attempts n (sqlite_link_service e provider) again i a session rvn now t)) w2 =
        (Inl AuthRecursion, w')"
      by (auto simp: bind_act_Inl uncaught_def try_act_iff)
    from idle_identity [OF w1(2) rd] w1(1)
    have w2: "v = None" "unlinked provider (asr_subject a) w2" "idle_from e (w_tick w2)"
      by (simp_all add: unlinked_def)
    from go2 w2(1) obtain g w3 t where la: "lp_latest_generation (sqlite_link_port e) provider (asr_subject a) w2 = (Inr g, w3)"
      and rest: "link_attempts n (sqlite_link_service e provider) again i a session rvn now t w3 = (Inl AuthRecursion, w')"
      by (auto simp: run_simps uncaught_def split: option.splits)
    from idle_reads(1) [OF w2(3) la] w2(2) have "unlinked provider (asr_subject a) w3" "idle_from e (w_tick w3)"
      by (simp_all add: unlinked_def)
    with Suc.IH [OF this] rest show False by blast
  qed
qed simp

lemma link_port_ticks:
  "lp_read_identity (sqlite_link_port e) p q w = (r1, w') \<Longrightarrow> w_tick w' = Suc (w_tick w)"
  "lp_latest_generation (sqlite_link_port e) p q w = (r2, w') \<Longrightarrow> w_tick w' = Suc (w_tick w)"
  "lp_list_identities (sqlite_link_port e) i w = (r3, w') \<Longrightarrow> w_tick w' = Suc (w_tick w)"
  "lp_read_user (sqlite_link_port e) i w = (r4, w') \<Longrightarrow> w_tick w' = Suc (w_tick w)"
  "store_link (sqlite_link_port e) session x rvn now w = (r5, w') \<Longrightarrow> w_tick w' = Suc (w_tick w)"
  "read_clock (tick_source f) w = (r6, w') \<Longrightarrow> w_tick w' = Suc (w_tick w)"
  by (auto simp: sqlite_link_port_def store_link_def read_clock_def draw_def tick_source_def bind_act_def
      split: session_argument.splits dest: call_tick)

text \<open>What never raises \<^verbatim>\<open>RecursionError\<close>: every step but the recursive call.\<close>

lemma plain_steps [simp]:
  "auth_required_text b v \<noteq> Inl AuthRecursion" "normalize_assertion obj \<noteq> Inl AuthRecursion"
  "utc v \<noteq> Inl AuthRecursion" "expected_revision expected account \<noteq> Inl AuthRecursion"
  "lift_identity m s \<noteq> (Inl AuthRecursion, t)" "uncaught c s \<noteq> (Inl AuthRecursion, t)"
  "read_clock f s \<noteq> (Inl AuthRecursion, t)"
proof -
  show u: "utc v \<noteq> Inl AuthRecursion" for v by (auto simp: utc_def split: pyval.splits option.splits)
  show "auth_required_text b v \<noteq> Inl AuthRecursion" by (auto simp: auth_required_text_def Let_def split: pyval.splits)
  show "normalize_assertion obj \<noteq> Inl AuthRecursion"
    by (auto simp: normalize_assertion_def map_error_def split: option.splits sum.splits)
  show "expected_revision expected account \<noteq> Inl AuthRecursion" using u by (auto simp: expected_revision_def result_simps)
  show "lift_identity m s \<noteq> (Inl AuthRecursion, t)" by (auto simp: lift_identity_def map_error_def split: sum.splits)
  show "uncaught c s \<noteq> (Inl AuthRecursion, t)" by (auto simp: uncaught_def try_act_iff)
  show "read_clock f s \<noteq> (Inl AuthRecursion, t)"
    using u by (auto simp: read_clock_def bind_act_Inl draw_def split: prod.splits)
qed

lemma uncaught_Inr: "uncaught m s = (Inr x, t) \<longleftrightarrow> m s = (Inr x, t)"
  by (auto simp: uncaught_def try_act_iff)

lemma lift_identity_Inr: "lift_identity m s = (Inr x, t) \<longleftrightarrow> m = Inr x \<and> t = s"
  by (simp add: lift_identity_def)

lemma attempts_recurse_later:
  "link_attempts n (sqlite_link_service e provider) again i a session rvn now l w = (Inl AuthRecursion, w') \<Longrightarrow>
     \<exists>w1. w_tick w \<le> w_tick w1 \<and> again w1 = (Inl AuthRecursion, w')"
proof (induction n arbitrary: w l)
  case (Suc n)
  let ?port = "sqlite_link_port e"
  from Suc.prems obtain x w1 err v w2 where st: "store_link ?port session x rvn now w = (Inl err, w1)"
    and rd: "lp_read_identity ?port provider (asr_subject a) w1 = (Inr v, w2)"
    and go: "again w2 = (Inl AuthRecursion, w') \<or>
      (\<exists>g w3 t. lp_latest_generation ?port provider (asr_subject a) w2 = (Inr g, w3) \<and>
        link_attempts n (sqlite_link_service e provider) again i a session rvn now t w3 = (Inl AuthRecursion, w'))"
    by (auto simp: run_simps uncaught_Inr lift_identity_Inr split: if_splits; blast)
  note ticks = link_port_ticks(5) [OF st] link_port_ticks(1) [OF rd]
  from go show ?case
  proof (elim disjE exE conjE)
    fix g w3 t
    assume c: "lp_latest_generation ?port provider (asr_subject a) w2 = (Inr g, w3)"
      "link_attempts n (sqlite_link_service e provider) again i a session rvn now t w3 = (Inl AuthRecursion, w')"
    from Suc.IH [OF c(2)] obtain w4 where "w_tick w3 \<le> w_tick w4" "again w4 = (Inl AuthRecursion, w')" by blast
    with link_port_ticks(2) [OF c(1)] ticks show ?thesis by (intro exI [of _ w4]) simp
  qed (use ticks in \<open>intro exI [of _ w2]; simp\<close>)
qed simp

text \<open>A recursion that runs out was entered after the checks, which take a tick, and only because
  somebody else had interfered.\<close>

lemma checked_recurses_later:
  assumes "link_checked (sqlite_link_service e provider) again i a session rvn now w = (Inl AuthRecursion, w')"
  shows "\<exists>w1. w_tick w < w_tick w1 \<and> again w1 = (Inl AuthRecursion, w')" "\<not> idle_from e (w_tick w)"
proof -
  let ?port = "sqlite_link_port e"
  from assms obtain ks w1 w2 g w3 l where li: "lp_list_identities ?port i w = (Inr ks, w1)"
    and rd: "lp_read_identity ?port provider (asr_subject a) w1 = (Inr None, w2)"
    and la: "lp_latest_generation ?port provider (asr_subject a) w2 = (Inr g, w3)"
    and go: "link_attempts max_attempts (sqlite_link_service e provider) again i a session rvn now l w3 =
      (Inl AuthRecursion, w')"
    unfolding link_checked_def sqlite_link_simps
    by (auto simp: run_simps uncaught_Inr lift_identity_Inr Let_def split: if_splits option.splits)
  have "w_tick w < w_tick w3"
    using link_port_ticks(3) [OF li] link_port_ticks(1) [OF rd] link_port_ticks(2) [OF la] by simp
  then show "\<exists>w1. w_tick w < w_tick w1 \<and> again w1 = (Inl AuthRecursion, w')"
    using attempts_recurse_later [OF go] order_less_le_trans by blast
  show "\<not> idle_from e (w_tick w)"
  proof
    assume idle: "idle_from e (w_tick w)"
    from idle_reads(2) [OF idle li] have w1: "idle_from e (w_tick w1)" by simp
    from idle_identity [OF w1 rd] have w2: "idle_from e (w_tick w2)" "unlinked provider (asr_subject a) w2"
      by (simp_all add: unlinked_def)
    from idle_reads(1) [OF w2(1) la] w2(2) have "unlinked provider (asr_subject a) w3" "idle_from e (w_tick w3)"
      by (simp_all add: unlinked_def)
    from idle_attempts_settle [OF this] go show False by blast
  qed
qed

lemma link_enters_check:
  assumes "link_account (Suc depth) (sqlite_link_service e provider) uid obj session expected w = (Inl AuthRecursion, w')"
  shows "\<exists>i a rvn now w1 u. w_tick w < w_tick w1 \<and> (idle_from e (w_tick w) \<longrightarrow> idle_from e (w_tick w1)) \<and>
    link_checked (sqlite_link_service e provider)
      (link_account depth (sqlite_link_service e provider) (PyStr i) (Some (raw_of_assertion a)) session u)
      i a session rvn now w1 = (Inl AuthRecursion, w')"
proof -
  from assms obtain i a u w1 now w2 rvn
    where rd: "lp_read_user (sqlite_link_port e) i w = (Inr (Some u), w1)"
    and cl: "read_clock (tick_source (env_clock e)) w1 = (Inr now, w2)"
    and go: "link_checked (sqlite_link_service e provider)
      (link_account depth (sqlite_link_service e provider) (PyStr (acc_user_id u)) (Some (raw_of_assertion a)) session
        (utc_datetime rvn)) (acc_user_id u) a session rvn now w2 = (Inl AuthRecursion, w')"
    unfolding link_account.simps sqlite_link_simps
    by (auto simp: run_simps uncaught_Inr lift_identity_Inr split: if_splits)
  have t: "w_tick w2 = Suc (Suc (w_tick w))" using link_port_ticks(4) [OF rd] link_port_ticks(6) [OF cl] by simp
  then have "idle_from e (w_tick w) \<longrightarrow> idle_from e (w_tick w2)" by (simp add: idle_from_def)
  with t go show ?thesis by (intro exI [of _ w2] exI conjI) (auto intro: exI)
qed

text \<open>C35. The recursion of a link ends: once the other processes leave the database alone, the service
  does not call itself again, and each recursive call starts at least one tick after its
  caller; so when they do so \<open>depth\<close> ticks after the start at the latest, a recursion limit
  above \<open>depth\<close> is never reached.\<close>

theorem linking_terminates:
  assumes "idle_from e k" "k \<le> w_tick w + depth"
  shows "fst (link_account (Suc depth) (sqlite_link_service e provider) uid obj session expected w) \<noteq> Inl AuthRecursion"
  using assms(2)
proof (induction depth arbitrary: w uid obj expected)
  case 0
  have "idle_from e (w_tick w)" using assms(1) 0 by (simp add: idle_from_def)
  show ?case
  proof
    assume "fst (link_account (Suc 0) (sqlite_link_service e provider) uid obj session expected w) = Inl AuthRecursion"
    then obtain w' where "link_account (Suc 0) (sqlite_link_service e provider) uid obj session expected w =
      (Inl AuthRecursion, w')" by (metis prod.collapse)
    from link_enters_check [OF this] checked_recurses_later(2) \<open>idle_from e (w_tick w)\<close> show False by blast
  qed
next
  case (Suc depth)
  show ?case
  proof
    assume "fst (link_account (Suc (Suc depth)) (sqlite_link_service e provider) uid obj session expected w) = Inl AuthRecursion"
    then obtain w' where "link_account (Suc (Suc depth)) (sqlite_link_service e provider) uid obj session expected w =
      (Inl AuthRecursion, w')" by (metis prod.collapse)
    from link_enters_check [OF this] obtain i a w1 u rvn now where w1: "w_tick w < w_tick w1"
      and go: "link_checked (sqlite_link_service e provider)
        (link_account (Suc depth) (sqlite_link_service e provider) (PyStr i) (Some (raw_of_assertion a)) session u)
        i a session rvn now w1 = (Inl AuthRecursion, w')" by blast
    from checked_recurses_later(1) [OF go] obtain w2 where "w_tick w1 < w_tick w2"
      "link_account (Suc depth) (sqlite_link_service e provider) (PyStr i) (Some (raw_of_assertion a)) session u w2 =
        (Inl AuthRecursion, w')" by blast
    moreover from this(1) w1 Suc.prems have "k \<le> w_tick w2 + depth" by simp
    ultimately show False using Suc.IH [of w2 "PyStr i" "Some (raw_of_assertion a)" u] by simp
  qed
qed

section \<open>A quiet environment\<close>

lemma read_latest_Inr:
  obtains latest where "read_latest_generation p s d = (Inr latest, d)"
    "\<And>t. (lower p, s, t) \<in> set (db_generations d) \<Longrightarrow> \<exists>m. latest = Some m \<and> t \<le> m"
    "\<And>m. latest = Some m \<Longrightarrow> (lower p, s, m) \<in> set (db_generations d)"
proof -
  let ?ts = "map (\<lambda>(p, s, t). t) (filter (\<lambda>(p', s', t). p' = lower p \<and> s' = s) (db_generations d))"
  have mem: "t \<in> set ?ts \<longleftrightarrow> (lower p, s, t) \<in> set (db_generations d)" for t by force
  show ?thesis
  proof (rule that [of "if ?ts = [] then None else Some (foldr max ?ts (hd ?ts))"])
    show "read_latest_generation p s d = (Inr (if ?ts = [] then None else Some (foldr max ?ts (hd ?ts))), d)"
      by (simp add: read_latest_generation_def Let_def)
    show "\<exists>m. (if ?ts = [] then None else Some (foldr max ?ts (hd ?ts))) = Some m \<and> t \<le> m"
      if "(lower p, s, t) \<in> set (db_generations d)" for t
    proof -
      have t: "t \<in> set ?ts" using that mem by simp
      then have "?ts \<noteq> []" by (metis list.set(1) empty_iff)
      with foldr_max_le [OF t] show ?thesis by simp
    qed
    show "(lower p, s, m) \<in> set (db_generations d)"
      if "(if ?ts = [] then None else Some (foldr max ?ts (hd ?ts))) = Some m" for m
    proof -
      have "?ts \<noteq> []" "m = foldr max ?ts (hd ?ts)" using that by (auto split: if_splits)
      with foldr_max_hd [of ?ts] show ?thesis using mem by simp
    qed
  qed
qed

lemma quiet_link_reads:
  assumes q: "quiet e c" and ok: "db_ok (w_db w)"
  shows "uncaught (lp_list_identities (sqlite_link_port e) i) w =
      (Inr (sort_key ext_provider (sort_key ext_subject (filter (\<lambda>k. ext_user_id k = i) (db_identities (w_db w))))),
       w\<lparr>w_tick := Suc (w_tick w)\<rparr>)"
    "lower p = p \<Longrightarrow> uncaught (lp_read_identity (sqlite_link_port e) p s) w =
      (Inr (lookup_by ext_provider_key (db_identities (w_db w)) (p, s)), w\<lparr>w_tick := Suc (w_tick w)\<rparr>)"
    "u \<in> set (db_users (w_db w)) \<Longrightarrow> uncaught (lp_read_user (sqlite_link_port e) (acc_user_id u)) w =
      (Inr (Some u), w\<lparr>w_tick := Suc (w_tick w)\<rparr>)"
proof -
  have "hydrate_all hydrate_identity ks = Inr ks" if "set ks \<subseteq> set (db_identities (w_db w))" for ks
    using that by (intro hydrate_all_same) (auto intro: hydrate_ok(2) [OF ok])
  then have "list_external_identities i (w_db w) =
      (Inr (sort_key ext_provider (sort_key ext_subject (filter (\<lambda>k. ext_user_id k = i) (db_identities (w_db w))))), w_db w)"
    by (simp add: list_external_identities_def)
  then show "uncaught (lp_list_identities (sqlite_link_port e) i) w =
      (Inr (sort_key ext_provider (sort_key ext_subject (filter (\<lambda>k. ext_user_id k = i) (db_identities (w_db w))))),
       w\<lparr>w_tick := Suc (w_tick w)\<rparr>)"
    by (simp add: uncaught_Inr sqlite_link_port_def quiet_call [OF q])
  show "uncaught (lp_read_identity (sqlite_link_port e) p s) w =
      (Inr (lookup_by ext_provider_key (db_identities (w_db w)) (p, s)), w\<lparr>w_tick := Suc (w_tick w)\<rparr>)" if "lower p = p"
    using quiet_identity [OF q ok that, of s] by (simp add: sqlite_federation_port_def sqlite_link_port_def)
  show "uncaught (lp_read_user (sqlite_link_port e) (acc_user_id u)) w = (Inr (Some u), w\<lparr>w_tick := Suc (w_tick w)\<rparr>)"
    if "u \<in> set (db_users (w_db w))"
    by (simp add: uncaught_Inr sqlite_link_port_def quiet_call [OF q] read_row_exact(1) [OF ok that])
qed

text \<open>The checks before the write, in a quiet environment: who holds the subject, and what the user
  holds of the provider.\<close>

lemma quiet_link_start:
  assumes q: "quiet e c" and ok: "db_ok (w_db w)" and u: "u \<in> set (db_users (w_db w))" "acc_active u"
    and uid: "auth_required_text False uid = Inr (acc_user_id u)"
    and a: "normalize_assertion obj = Inr a" "asr_provider a = provider"
    and y: "session_accepted session (acc_user_id u)"
  shows "link_account (Suc depth) (sqlite_link_service e provider) uid obj session PyNone w =
    link_checked (sqlite_link_service e provider)
      (link_account depth (sqlite_link_service e provider) (PyStr (acc_user_id u)) (Some (raw_of_assertion a)) session
        (utc_datetime (acc_updated_at u)))
      (acc_user_id u) a session (acc_updated_at u) (c (Suc (w_tick w))) (w\<lparr>w_tick := Suc (Suc (w_tick w))\<rparr>)"
  using quiet_link_reads(3) [OF q ok u(1)] quiet_clock [OF q, of "w\<lparr>w_tick := Suc (w_tick w)\<rparr>"] u(2) a y
  by (simp add: uid bind_act_def lift_act_def lift_identity_def require_active_account_def expected_revision_def)

lemma quiet_link_check:
  assumes q: "quiet e c" and ok: "db_ok (w_db w)" and p: "lower provider = provider" "asr_provider a = provider"
    and own: "own = filter (\<lambda>k. ext_provider k = provider \<and> ext_user_id k = i) (db_identities (w_db w))"
    and holder: "holder = lookup_by ext_provider_key (db_identities (w_db w)) (provider, asr_subject a)"
  shows "link_checked (sqlite_link_service e provider) again i a session rvn now w =
    (if (case holder of None \<Rightarrow> False | Some k \<Rightarrow> ext_user_id k \<noteq> i) \<or> own \<noteq> [] \<and> ext_subject (hd own) \<noteq> asr_subject a
     then (Inl ExternalLinkConflict, w\<lparr>w_tick := w_tick w + 2\<rparr>)
     else (case holder of
       Some k \<Rightarrow>
         bind_act (lift_identity (link_identity (sqlite_link_service e provider) i a (ext_linked_at k))) (\<lambda>refreshed.
         try_act (store_refresh (sqlite_link_port e) session refreshed (ext_linked_at k) rvn now)
           (\<lambda>e. if is_conflict e \<or> e = StorageNotFound then raise_act ConcurrentStateChange
                 else raise_act (FromStorage e))
           (\<lambda>_. return_act refreshed))
     | None \<Rightarrow>
         bind_act (uncaught (lp_latest_generation (sqlite_link_port e) provider (asr_subject a))) (\<lambda>latest.
         case first_generation latest now of
           None \<Rightarrow> raise_act ConcurrentStateChange
         | Some linked_at \<Rightarrow> link_attempts max_attempts (sqlite_link_service e provider) again i a session rvn now linked_at))
       (w\<lparr>w_tick := w_tick w + 2\<rparr>))"
proof -
  have uniq: "unique_on ext_user_provider (db_identities (w_db w))" using ok by (simp add: ok_defs)
  have len: "length own \<le> 1"
  proof (cases "\<exists>k. k \<in> set own")
    case True
    then obtain k where k: "k \<in> set (db_identities (w_db w))" "ext_provider k = provider \<and> ext_user_id k = i"
      by (auto simp: own)
    then have "count_where (\<lambda>k. ext_provider k = provider \<and> ext_user_id k = i) (db_identities (w_db w)) = 1"
      using count_where_le_1 [OF uniq, of "\<lambda>k. ext_provider k = provider \<and> ext_user_id k = i" "(i, provider)"]
      by (auto simp: ext_user_provider_def)
    then show ?thesis by (simp add: own count_where_def)
  next
    case False
    then have "own = []" by (cases own) auto
    then show ?thesis by simp
  qed
  have "mset (filter (\<lambda>k. ext_provider k = provider)
      (sort_key ext_provider (sort_key ext_subject (filter (\<lambda>k. ext_user_id k = i) (db_identities (w_db w)))))) = mset own"
    by (simp add: own filter_filter_mset conj_commute)
  moreover have "own = [] \<or> (\<exists>k. own = [k])" using len by (cases own) auto
  moreover have "mset xs = mset [k] \<Longrightarrow> xs = [k]" "mset xs = mset [] \<Longrightarrow> xs = []" for xs and k :: external_identity
    by simp_all
  ultimately have sorted: "filter (\<lambda>k. ext_provider k = provider)
      (sort_key ext_provider (sort_key ext_subject (filter (\<lambda>k. ext_user_id k = i) (db_identities (w_db w))))) = own"
    by metis
  have few: "\<not> Suc 0 < length own" using len by simp
  show ?thesis
    unfolding link_checked_def sqlite_link_simps
    by (simp add: few quiet_link_reads(1) [OF q ok] quiet_link_reads(2) [OF q, of "w\<lparr>w_tick := Suc (w_tick w)\<rparr>"] ok p
        sorted Let_def holder [symmetric] raise_act_def flip: numeral_2_eq_2 split: option.splits)
qed

text \<open>The refresh of a link that is there.\<close>

lemma own_link_refreshed:
  assumes ok: "db_ok d" and k: "k \<in> set (db_identities d)"
    and bk: "user_at_revision d (ext_user_id k) rvn" "session_backs d y (ext_user_id k) (max (exp_valid_at y) now)"
    and x: "x = k\<lparr>ext_email := email, ext_username := name\<rparr>"
  shows "refresh_external_identity_for_active_session now x (ext_linked_at k) rvn y d =
    (Inr (), d\<lparr>db_identities := map (\<lambda>j. if j = k then x else j) (db_identities d)\<rparr>)"
proof -
  let ?P = "\<lambda>r. linked_row x (ext_linked_at k) r \<and> user_at_revision d (ext_user_id r) rvn \<and>
    session_backs d y (ext_user_id r) (max (exp_valid_at y) now)"
  have uniq: "unique_on ext_provider_key (db_identities d)" and "lower (ext_provider k) = ext_provider k"
    using ok k by (auto simp: ok_defs valid_external_def clean_lower_text_def)
  then have P: "?P j \<longleftrightarrow> j = k" if "j \<in> set (db_identities d)" for j
    using k that bk by (auto simp: x linked_row_def link_key_def ext_provider_key_def dest: unique_onD)
  have "filter ?P (db_identities d) = filter (\<lambda>j. j = k) (db_identities d)" using P by (simp cong: filter_cong)
  moreover have "filter (\<lambda>j. j = k) (db_identities d) = [k]"
    using unique_filter_singleton [OF uniq, of "\<lambda>j. j = k" "ext_provider_key k"] k by simp
  ultimately have "count_where ?P (db_identities d) = 1" by (simp add: count_where_def)
  moreover have "update_where ?P (\<lambda>r. r\<lparr>ext_email := ext_email x, ext_username := ext_username x\<rparr>) (db_identities d) =
      map (\<lambda>j. if j = k then x else j) (db_identities d)"
    using P by (auto simp: update_where_def x)
  ultimately show ?thesis
    by (simp add: refresh_external_identity_for_active_session_def update_identities_def transaction_def Let_def)
qed

text \<open>An active user with a session that stays open while the service links.\<close>

definition ready_to_link :: "environment \<Rightarrow> (nat \<Rightarrow> instant) \<Rightarrow> world \<Rightarrow> user_account \<Rightarrow> assertion \<Rightarrow> user_session \<Rightarrow> bool" where
  "ready_to_link e c w u a y \<longleftrightarrow>
     quiet e c \<and> db_ok (w_db w) \<and> valid_assertion a \<and> u \<in> set (db_users (w_db w)) \<and> acc_active u \<and>
     y \<in> set (db_sessions (w_db w)) \<and> ses_user_id y = acc_user_id u \<and> ses_revoked_at y = None \<and>
     ses_created_at y \<le> c (w_tick w) \<and> ses_last_seen_at y \<le> c (w_tick w) \<and> c (w_tick w + 5) < ses_expires_at y"

definition holder_of :: "identity_db \<Rightarrow> assertion \<Rightarrow> external_identity option" where
  "holder_of d a = lookup_by ext_provider_key (db_identities d) (asr_provider a, asr_subject a)"

definition held_of :: "identity_db \<Rightarrow> assertion \<Rightarrow> string \<Rightarrow> external_identity list" where
  "held_of d a i = filter (\<lambda>k. ext_provider k = asr_provider a \<and> ext_user_id k = i) (db_identities d)"

lemma holder_of_Some:
  "db_ok d \<Longrightarrow> holder_of d a = Some k \<longleftrightarrow>
     k \<in> set (db_identities d) \<and> ext_provider k = asr_provider a \<and> ext_subject k = asr_subject a"
  by (auto simp: holder_of_def lookup_by_Some_iff ok_defs ext_provider_key_def)

lemma held_of_Cons:
  assumes "db_ok d" "k \<in> set (db_identities d)" "ext_provider k = asr_provider a" "ext_user_id k = i"
  shows "held_of d a i \<noteq> [] \<and> hd (held_of d a i) = k"
proof -
  have "k \<in> set (held_of d a i)" using assms(2-4) by (simp add: held_of_def)
  then obtain o' os where own: "held_of d a i = o' # os" by (cases "held_of d a i") auto
  then have "o' \<in> set (held_of d a i)" by simp
  then have "o' = k" using assms
    by (auto simp: held_of_def ok_defs ext_user_provider_def dest: unique_onD [where key = ext_user_provider])
  with own show ?thesis by simp
qed

text \<open>What the guarded statements ask of the user and the session, at any of the ticks of the service.\<close>

lemma ready_backs:
  assumes "ready_to_link e c w u a y" "Suc (w_tick w) \<le> n" "n \<le> w_tick w + 5"
  shows "user_at_revision (w_db w) (acc_user_id u) (acc_updated_at u)"
    "session_backs (w_db w) (session_expected y (c (Suc (w_tick w)))) (acc_user_id u)
       (max (exp_valid_at (session_expected y (c (Suc (w_tick w))))) (c n))"
proof -
  have r: "u \<in> set (db_users (w_db w))" "acc_active u" "y \<in> set (db_sessions (w_db w))" "ses_user_id y = acc_user_id u"
      "ses_revoked_at y = None" "ses_created_at y \<le> c (w_tick w)" "ses_last_seen_at y \<le> c (w_tick w)"
      "c (w_tick w + 5) < ses_expires_at y" and q: "quiet e c"
    using assms(1) by (auto simp: ready_to_link_def)
  show "user_at_revision (w_db w) (acc_user_id u) (acc_updated_at u)"
    using r(1,2) by (auto simp: user_at_revision_def list_ex_iff)
  have "max (c (Suc (w_tick w))) (c n) = c n" "c (w_tick w) \<le> c n" "c n \<le> c (w_tick w + 5)"
    using quiet_times(2) [OF q] assms(2,3) by simp_all
  then show "session_backs (w_db w) (session_expected y (c (Suc (w_tick w)))) (acc_user_id u)
      (max (exp_valid_at (session_expected y (c (Suc (w_tick w))))) (c n))"
    using r(3-8) by (auto simp: session_backs_def session_expected_def list_ex_iff intro!: bexI [of _ y])
qed

lemma ready_identity:
  assumes "ready_to_link e c w u a y" "representable l"
  shows "link_identity (sqlite_link_service e (asr_provider a)) (acc_user_id u) a l =
    Inr \<lparr>ext_user_id = acc_user_id u, ext_provider = asr_provider a, ext_subject = asr_subject a, ext_linked_at = l,
          ext_email = asr_email a, ext_username = asr_username a\<rparr>"
proof -
  have "valid_assertion a" "clean_text (acc_user_id u)" using assms(1) by (auto simp: ready_to_link_def ok_defs valid_user_def)
  from assertion_identity_Inr [OF this] assms(2) show ?thesis by (simp add: link_identity_assertion)
qed

lemma ready_check:
  assumes "ready_to_link e c w u a y"
  shows "link_checked (sqlite_link_service e (asr_provider a)) again i a session rvn now (w\<lparr>w_tick := w_tick w + 2\<rparr>) =
    (if (case holder_of (w_db w) a of None \<Rightarrow> False | Some k \<Rightarrow> ext_user_id k \<noteq> i) \<or>
        held_of (w_db w) a i \<noteq> [] \<and> ext_subject (hd (held_of (w_db w) a i)) \<noteq> asr_subject a
     then (Inl ExternalLinkConflict, w\<lparr>w_tick := w_tick w + 4\<rparr>)
     else (case holder_of (w_db w) a of
       Some k \<Rightarrow>
         bind_act (lift_identity (link_identity (sqlite_link_service e (asr_provider a)) i a (ext_linked_at k))) (\<lambda>refreshed.
         try_act (store_refresh (sqlite_link_port e) session refreshed (ext_linked_at k) rvn now)
           (\<lambda>e. if is_conflict e \<or> e = StorageNotFound then raise_act ConcurrentStateChange
                 else raise_act (FromStorage e))
           (\<lambda>_. return_act refreshed))
     | None \<Rightarrow>
         bind_act (uncaught (lp_latest_generation (sqlite_link_port e) (asr_provider a) (asr_subject a))) (\<lambda>latest.
         case first_generation latest now of
           None \<Rightarrow> raise_act ConcurrentStateChange
         | Some linked_at \<Rightarrow>
             link_attempts max_attempts (sqlite_link_service e (asr_provider a)) again i a session rvn now linked_at))
       (w\<lparr>w_tick := w_tick w + 4\<rparr>))"
proof -
  have q: "quiet e c" "db_ok (w_db w)" "lower (asr_provider a) = asr_provider a"
    using assms by (auto simp: ready_to_link_def valid_assertion_def clean_lower_text_def)
  then show ?thesis
    unfolding holder_of_def held_of_def
    by (subst quiet_link_check [OF q(1) _ q(3) refl refl refl]) (simp_all add: numeral_eq_Suc)
qed

lemma checked_refused:
  assumes ready: "ready_to_link e c w u a y" and i: "i = acc_user_id u"
    and k: "k \<in> set (db_identities (w_db w))" "ext_provider k = asr_provider a" "(ext_subject k = asr_subject a) \<noteq> (ext_user_id k = i)"
  shows "link_checked (sqlite_link_service e (asr_provider a)) again i a session rvn now (w\<lparr>w_tick := w_tick w + 2\<rparr>) =
    (Inl ExternalLinkConflict, w\<lparr>w_tick := w_tick w + 4\<rparr>)"
proof -
  have ok: "db_ok (w_db w)" using ready by (simp add: ready_to_link_def)
  show ?thesis
  proof (cases "ext_subject k = asr_subject a")
    case True
    then have "holder_of (w_db w) a = Some k" using holder_of_Some [OF ok] k by blast
    with True k(3) show ?thesis unfolding ready_check [OF ready] by simp
  next
    case False
    with held_of_Cons [OF ok k(1,2)] k(3) show ?thesis unfolding ready_check [OF ready] by simp
  qed
qed

lemma checked_refreshes:
  assumes ready: "ready_to_link e c w u a y"
    and k: "k \<in> set (db_identities (w_db w))" "ext_provider_key k = (asr_provider a, asr_subject a)" "ext_user_id k = acc_user_id u"
    and x: "x = k\<lparr>ext_email := asr_email a, ext_username := asr_username a\<rparr>"
  shows "link_checked (sqlite_link_service e (asr_provider a)) again (acc_user_id u) a (GivenSession y) (acc_updated_at u)
      (c (Suc (w_tick w))) (w\<lparr>w_tick := w_tick w + 2\<rparr>) =
    (Inr x, \<lparr>w_db = (w_db w)\<lparr>db_identities := map (\<lambda>j. if j = k then x else j) (db_identities (w_db w))\<rparr>, w_tick = w_tick w + 5\<rparr>)"
proof -
  have ok: "db_ok (w_db w)" and q: "quiet e c" using ready by (simp_all add: ready_to_link_def)
  have key: "ext_provider k = asr_provider a" "ext_subject k = asr_subject a" using k(2) by (auto simp: ext_provider_key_def)
  then have holder: "holder_of (w_db w) a = Some k" using holder_of_Some [OF ok] k(1) by blast
  have "representable (ext_linked_at k)" using ok k(1) by (auto simp: ok_defs valid_external_def)
  from ready_identity [OF ready this] have ident:
      "link_identity (sqlite_link_service e (asr_provider a)) (acc_user_id u) a (ext_linked_at k) = Inr x"
    using k(3) key by (cases k) (simp add: x)
  have "store_refresh (sqlite_link_port e) (GivenSession y) x (ext_linked_at k) (acc_updated_at u) (c (Suc (w_tick w)))
      (w\<lparr>w_tick := w_tick w + 4\<rparr>) =
    (Inr (), \<lparr>w_db = (w_db w)\<lparr>db_identities := map (\<lambda>j. if j = k then x else j) (db_identities (w_db w))\<rparr>, w_tick = w_tick w + 5\<rparr>)"
    using own_link_refreshed [OF ok k(1) _ _ x, of "acc_updated_at u"] ready_backs [OF ready, of "w_tick w + 4"] k(3)
    by (simp add: store_refresh_def sqlite_link_port_def quiet_call [OF q])
  with ident holder held_of_Cons [OF ok k(1) key(1) k(3)] key(2) k(3) show ?thesis
    unfolding ready_check [OF ready] by (simp add: bind_act_def lift_identity_def lift_act_def try_act_def return_act_def)
qed

lemma new_generation:
  assumes "ready_to_link e c w u a y"
    and room: "\<forall>t. (asr_provider a, asr_subject a, t) \<in> set (db_generations (w_db w)) \<longrightarrow> t < max_instant"
  obtains latest t where "read_latest_generation (asr_provider a) (asr_subject a) (w_db w) = (Inr latest, w_db w)"
    "first_generation latest (c (Suc (w_tick w))) = Some t" "c (Suc (w_tick w)) \<le> t" "representable t"
    "(asr_provider a, asr_subject a, t) \<notin> set (db_generations (w_db w))"
proof -
  have q: "quiet e c" and p: "lower (asr_provider a) = asr_provider a"
    using assms(1) by (auto simp: ready_to_link_def valid_assertion_def clean_lower_text_def)
  obtain latest where latest: "read_latest_generation (asr_provider a) (asr_subject a) (w_db w) = (Inr latest, w_db w)"
    and le: "\<And>t. (asr_provider a, asr_subject a, t) \<in> set (db_generations (w_db w)) \<Longrightarrow> \<exists>m. latest = Some m \<and> t \<le> m"
    and was: "\<And>m. latest = Some m \<Longrightarrow> (asr_provider a, asr_subject a, m) \<in> set (db_generations (w_db w))"
    using read_latest_Inr [of "asr_provider a" "asr_subject a" "w_db w"] p by metis
  have rep: "representable (c (Suc (w_tick w)))" using quiet_times(1) [OF q] .
  obtain t where t: "first_generation latest (c (Suc (w_tick w))) = Some t" "c (Suc (w_tick w)) \<le> t" "representable t"
      "\<And>m. latest = Some m \<Longrightarrow> m < t"
    using rep room was by (cases latest) (fastforce simp: first_generation_def representable_def split: if_splits)+
  have "(asr_provider a, asr_subject a, t) \<notin> set (db_generations (w_db w))" using le t(4) by fastforce
  from that [OF latest t(1-3) this] show thesis .
qed

lemma checked_links:
  assumes ready: "ready_to_link e c w u a y"
    and room: "\<forall>t. (asr_provider a, asr_subject a, t) \<in> set (db_generations (w_db w)) \<longrightarrow> t < max_instant"
    and free: "\<forall>k \<in> set (db_identities (w_db w)). ext_provider k = asr_provider a \<longrightarrow>
        ext_subject k \<noteq> asr_subject a \<and> ext_user_id k \<noteq> acc_user_id u"
  shows "\<exists>t x. c (Suc (w_tick w)) \<le> t \<and> (asr_provider a, asr_subject a, t) \<notin> set (db_generations (w_db w)) \<and>
     x = \<lparr>ext_user_id = acc_user_id u, ext_provider = asr_provider a, ext_subject = asr_subject a, ext_linked_at = t,
          ext_email = asr_email a, ext_username = asr_username a\<rparr> \<and>
     link_checked (sqlite_link_service e (asr_provider a)) again (acc_user_id u) a (GivenSession y) (acc_updated_at u)
       (c (Suc (w_tick w))) (w\<lparr>w_tick := w_tick w + 2\<rparr>) =
     (Inr x, \<lparr>w_db = (w_db w)\<lparr>db_generations := db_generations (w_db w) @ [(asr_provider a, asr_subject a, t)],
       db_identities := db_identities (w_db w) @ [x]\<rparr>, w_tick = w_tick w + 6\<rparr>)"
proof -
  have q: "quiet e c" and ok: "db_ok (w_db w)" using ready by (simp_all add: ready_to_link_def)
  obtain latest t where latest: "read_latest_generation (asr_provider a) (asr_subject a) (w_db w) = (Inr latest, w_db w)"
    and t: "first_generation latest (c (Suc (w_tick w))) = Some t" "c (Suc (w_tick w)) \<le> t" "representable t"
    and fresh: "(asr_provider a, asr_subject a, t) \<notin> set (db_generations (w_db w))"
    by (rule new_generation [OF ready room])
  let ?x = "\<lparr>ext_user_id = acc_user_id u, ext_provider = asr_provider a, ext_subject = asr_subject a, ext_linked_at = t,
          ext_email = asr_email a, ext_username = asr_username a\<rparr>"
  let ?d = "(w_db w)\<lparr>db_generations := db_generations (w_db w) @ [(asr_provider a, asr_subject a, t)],
       db_identities := db_identities (w_db w) @ [?x]\<rparr>"
  have none: "holder_of (w_db w) a = None" "held_of (w_db w) a (acc_user_id u) = []"
    using free by (auto simp: holder_of_def held_of_def ext_provider_key_def filter_empty_conv)
  have "link_external_identity_for_active_session (c (w_tick w + 5)) ?x (acc_updated_at u)
      (session_expected y (c (Suc (w_tick w)))) (w_db w) = (Inr (), ?d)"
    unfolding link_session_Inr using ready_backs [OF ready, of "w_tick w + 5"] free fresh
    by (auto simp: ext_provider_key_def ext_user_provider_def)
  then have st: "store_link (sqlite_link_port e) (GivenSession y) ?x (acc_updated_at u) (c (Suc (w_tick w)))
      (w\<lparr>w_tick := w_tick w + 5\<rparr>) = (Inr (), \<lparr>w_db = ?d, w_tick = w_tick w + 6\<rparr>)"
    by (simp add: store_link_def sqlite_link_port_def quiet_call [OF q])
  have la: "uncaught (lp_latest_generation (sqlite_link_port e) (asr_provider a) (asr_subject a)) (w\<lparr>w_tick := w_tick w + 4\<rparr>) =
      (Inr latest, w\<lparr>w_tick := w_tick w + 5\<rparr>)"
    using latest by (simp add: uncaught_Inr sqlite_link_port_def quiet_call [OF q])
  have five: "max_attempts = Suc 4" by (simp add: max_attempts_def)
  have "link_checked (sqlite_link_service e (asr_provider a)) again (acc_user_id u) a (GivenSession y) (acc_updated_at u)
      (c (Suc (w_tick w))) (w\<lparr>w_tick := w_tick w + 2\<rparr>) = (Inr ?x, \<lparr>w_db = ?d, w_tick = w_tick w + 6\<rparr>)"
    unfolding ready_check [OF ready] five using la t(1) ready_identity [OF ready t(3)] st
    by (simp add: none numeral_eq_Suc bind_act_def lift_identity_def lift_act_def try_act_def return_act_def)
  with t(2) fresh show ?thesis by blast
qed

text \<open>C34. Linking follows ownership: for an active user with a session that stays open, as long as no other
  process interferes, the service refuses with a conflict exactly when the provider subject is somebody else's
  or the user holds another subject of the provider, without a change. A user who holds the very subject
  gets that link back with the e-mail address and the name of the assertion, of the same generation; a subject
  that nobody holds becomes the user's, under a generation that was never used; and nothing else changes.\<close>

theorem linking_follows_ownership:
  assumes q: "quiet e c" and ok: "db_ok (w_db w)" and u: "u \<in> set (db_users (w_db w))" "acc_active u"
    and uid: "auth_required_text False uid = Inr (acc_user_id u)"
    and a: "normalize_assertion obj = Inr a" "asr_provider a = provider"
    and y: "y \<in> set (db_sessions (w_db w))" "ses_user_id y = acc_user_id u" "ses_revoked_at y = None"
      "ses_created_at y \<le> c (w_tick w)" "ses_last_seen_at y \<le> c (w_tick w)" "c (w_tick w + 5) < ses_expires_at y"
    and room: "\<forall>t. (provider, asr_subject a, t) \<in> set (db_generations (w_db w)) \<longrightarrow> t < max_instant"
    and d: "d = w_db w"
    and run: "run = link_account (Suc depth) (sqlite_link_service e provider) uid obj (GivenSession y) PyNone w"
  shows "(fst run = Inl ExternalLinkConflict \<longleftrightarrow>
      (\<exists>k \<in> set (db_identities d). ext_provider k = provider \<and>
        (ext_subject k = asr_subject a) \<noteq> (ext_user_id k = acc_user_id u))) \<and>
    (fst run = Inl ExternalLinkConflict \<longrightarrow> w_db (snd run) = d) \<and>
    (\<forall>k \<in> set (db_identities d). ext_provider_key k = (provider, asr_subject a) \<longrightarrow> ext_user_id k = acc_user_id u \<longrightarrow>
      (\<exists>x. x = k\<lparr>ext_email := asr_email a, ext_username := asr_username a\<rparr> \<and>
         run = (Inr x, \<lparr>w_db = d\<lparr>db_identities := map (\<lambda>j. if j = k then x else j) (db_identities d)\<rparr>,
           w_tick = w_tick w + 5\<rparr>))) \<and>
    ((\<forall>k \<in> set (db_identities d). ext_provider k = provider \<longrightarrow>
        ext_subject k \<noteq> asr_subject a \<and> ext_user_id k \<noteq> acc_user_id u) \<longrightarrow>
      (\<exists>t x. c (Suc (w_tick w)) \<le> t \<and> (provider, asr_subject a, t) \<notin> set (db_generations d) \<and>
         x = \<lparr>ext_user_id = acc_user_id u, ext_provider = provider, ext_subject = asr_subject a, ext_linked_at = t,
              ext_email = asr_email a, ext_username = asr_username a\<rparr> \<and>
         run = (Inr x, \<lparr>w_db = d\<lparr>db_generations := db_generations d @ [(provider, asr_subject a, t)],
           db_identities := db_identities d @ [x]\<rparr>, w_tick = w_tick w + 6\<rparr>)))"
proof -
  have ready: "ready_to_link e c w u a y"
    using q ok u y normalize_valid [OF a(1)] by (simp add: ready_to_link_def)
  have p: "provider = asr_provider a" using a(2) by simp
  let ?again = "link_account depth (sqlite_link_service e provider) (PyStr (acc_user_id u)) (Some (raw_of_assertion a)) (GivenSession y)
    (utc_datetime (acc_updated_at u))"
  have start: "run = link_checked (sqlite_link_service e (asr_provider a)) ?again (acc_user_id u) a (GivenSession y)
      (acc_updated_at u) (c (Suc (w_tick w))) (w\<lparr>w_tick := w_tick w + 2\<rparr>)"
    unfolding run using quiet_link_start [OF q ok u uid a, of "GivenSession y" depth] by (simp add: y(2) p)
  note refused = checked_refused [OF ready refl, where again = ?again and session = "GivenSession y" and rvn = "acc_updated_at u"
      and now = "c (Suc (w_tick w))", folded start p]
  note refreshed = checked_refreshes [OF ready, where again = ?again, folded start p, OF _ _ _ refl]
  note linked = checked_links [OF ready, where again = ?again, folded start p, OF room]
  have decided: "fst run \<noteq> Inl ExternalLinkConflict"
    if "\<not> (\<exists>k \<in> set (db_identities d). ext_provider k = provider \<and> (ext_subject k = asr_subject a) \<noteq> (ext_user_id k = acc_user_id u))"
  proof (cases "\<exists>k \<in> set (db_identities d). ext_provider_key k = (provider, asr_subject a)")
    case True
    then obtain k where k: "k \<in> set (db_identities d)" "ext_provider_key k = (provider, asr_subject a)" by blast
    with that have "ext_user_id k = acc_user_id u" by (auto simp: ext_provider_key_def)
    from refreshed [OF k [unfolded d] this] show ?thesis by simp
  next
    case False
    with that have "\<forall>k \<in> set (db_identities (w_db w)). ext_provider k = provider \<longrightarrow>
        ext_subject k \<noteq> asr_subject a \<and> ext_user_id k \<noteq> acc_user_id u"
      unfolding d by (auto simp: ext_provider_key_def)
    from linked [OF this] show ?thesis by auto
  qed
  show ?thesis
  proof (intro conjI)
    show "fst run = Inl ExternalLinkConflict \<longleftrightarrow>
        (\<exists>k \<in> set (db_identities d). ext_provider k = provider \<and> (ext_subject k = asr_subject a) \<noteq> (ext_user_id k = acc_user_id u))"
      "fst run = Inl ExternalLinkConflict \<longrightarrow> w_db (snd run) = d"
      using decided refused d by fastforce+
  qed (use refreshed linked d in blast)+
qed

end
