(* ===== verification/Sample_Links.thy ===== *)
theory Sample_Links
  imports Sample_School Sqlite_Links
begin

text \<open>The properties of account linking on concrete inputs.\<close>

definition github_claims :: assertion where
  "github_claims = \<lparr>asr_provider = ''github'', asr_subject = ''77'', asr_display_name = ''Stu'', asr_email = None,
     asr_email_verified = False, asr_username = Some ''stu7''\<rparr>"

definition github_service :: "world link_service" where
  "github_service = sqlite_link_service afternoon ''github''"

abbreviation link_run :: "(auth_error, external_identity) result \<times> world" where
  "link_run \<equiv> link_account 1 github_service (PyStr '' stu'') (Some (raw_of_assertion github_claims))
     (GivenSession web_session) PyNone noon"

lemma noon_ok: "honest afternoon" "db_ok (w_db noon)"
  using afternoon_honest school_ok by (simp_all add: noon_def)

theorem linked_account_is_owned_witness:
  "\<exists>x w'. link_run = (Inr x, w') \<and> ext_provider x = ''github'' \<and>
     (\<exists>u \<in> set (db_users (w_db w')). acc_user_id u = ext_user_id x \<and> acc_active u)"
proof -
  have "run_ok link_run" by code_simp
  then obtain x w' where run: "link_run = (Inr x, w')" using run_okD by blast
  from linked_account_is_owned [OF noon_ok run [unfolded github_service_def]] run show ?thesis by blast
qed

theorem unlinked_account_is_gone_witness:
  "\<exists>k w'. unlink_account (sqlite_link_service afternoon ''google'') (PyStr ''stu'') (GivenSession web_session) noon =
      (Inr k, w') \<and> ext_provider k = ''google'' \<and>
     ext_provider_key k \<notin> ext_provider_key ` set (db_identities (w_db w'))"
proof -
  let ?r = "unlink_account (sqlite_link_service afternoon ''google'') (PyStr ''stu'') (GivenSession web_session) noon"
  have "run_ok ?r" by code_simp
  then obtain k w' where run: "?r = (Inr k, w')" using run_okD by blast
  from unlinked_account_is_gone [OF noon_ok run] run show ?thesis by blast
qed

theorem linking_terminates_witness: "fst link_run \<noteq> Inl AuthRecursion"
proof -
  have "idle_from afternoon 0" by (simp add: idle_from_def afternoon_def)
  from linking_terminates [OF this, of noon 0] show ?thesis by (simp add: github_service_def)
qed

theorem linking_follows_ownership_witness:
  "\<exists>t x w'. link_run = (Inr x, w') \<and> 201 \<le> t \<and> ext_linked_at x = t \<and> ext_user_id x = ''stu'' \<and>
     db_identities (w_db w') = [some_link, x]"
proof -
  have input: "some_student \<in> set (db_users (w_db noon))" "acc_active some_student"
    "auth_required_text False (PyStr '' stu'') = Inr (acc_user_id some_student)"
    "normalize_assertion (Some (raw_of_assertion github_claims)) = Inr github_claims"
    "asr_provider github_claims = ''github''" "web_session \<in> set (db_sessions (w_db noon))"
    "ses_user_id web_session = acc_user_id some_student" "ses_revoked_at web_session = None"
    "ses_created_at web_session \<le> ticking (w_tick noon)" "ses_last_seen_at web_session \<le> ticking (w_tick noon)"
    "ticking (w_tick noon + 5) < ses_expires_at web_session"
    by code_simp+
  have room: "\<forall>t. (''github'', asr_subject github_claims, t) \<in> set (db_generations (w_db noon)) \<longrightarrow> t < max_instant"
    by (simp add: noon_def school_def)
  have free: "\<forall>k \<in> set (db_identities (w_db noon)). ext_provider k = ''github'' \<longrightarrow>
      ext_subject k \<noteq> asr_subject github_claims \<and> ext_user_id k \<noteq> acc_user_id some_student"
    by code_simp
  have "acc_user_id some_student = ''stu''" "db_identities (w_db noon) = [some_link]" "ticking (Suc (w_tick noon)) = 201"
    by code_simp+
  with linking_follows_ownership [OF afternoon_quiet noon_ok(2) input room refl refl, of 0, THEN conjunct2, THEN conjunct2,
      THEN conjunct2, THEN mp, OF free]
  show ?thesis by (auto simp: github_service_def)
qed

text \<open>The student links the Google account again that is the student's already.\<close>

lemma own_account_linked_again:
  "link_account 1 (sqlite_link_service afternoon ''google'') (PyStr ''stu'')
     (Some (raw_of_assertion (github_claims\<lparr>asr_provider := ''google'', asr_subject := ''42''\<rparr>)))
     (GivenSession web_session) PyNone noon =
   (Inr (some_link\<lparr>ext_username := Some ''stu7''\<rparr>),
    \<lparr>w_db = school\<lparr>db_identities := [some_link\<lparr>ext_username := Some ''stu7''\<rparr>]\<rparr>, w_tick = 5\<rparr>)"
  by code_simp

end
