(* ===== verification/Http_Cookie.thy ===== *)
theory Http_Cookie
  imports Auth_Ports Py_Json
begin

text \<open>
  The pure part of \<^verbatim>\<open>scripts/thebitlab_http_auth.py\<close>: its exceptions, the cookie policy, the parser
  of the \<^verbatim>\<open>Cookie\<close> header, the CSRF token and the \<^verbatim>\<open>Set-Cookie\<close> values. Theory \<open>Http_Auth\<close> holds the
  boundary that calls the session service.
\<close>

section \<open>Exceptions\<close>

text \<open>
  The subclasses of \<^verbatim>\<open>HttpAuthError\<close>, and the \<^verbatim>\<open>ValueError\<close> and \<^verbatim>\<open>TypeError\<close> that the boundary lets
  through; only the former map to an HTTP response.
\<close>

datatype http_error =
    HttpBadRequest
  | HttpAuthenticationRequired
  | HttpAuthorizationDenied
  | HttpCsrfRejected
  | HttpMethodNotAllowed
  | HttpAuthUnavailable
  | HttpValueError
  | HttpTypeError

fun http_status :: "http_error \<Rightarrow> nat option" where
  "http_status HttpBadRequest = Some 400"
| "http_status HttpAuthenticationRequired = Some 401"
| "http_status HttpAuthorizationDenied = Some 403"
| "http_status HttpCsrfRejected = Some 403"
| "http_status HttpMethodNotAllowed = Some 405"
| "http_status HttpAuthUnavailable = Some 503"
| "http_status HttpValueError = None"
| "http_status HttpTypeError = None"

section \<open>The cookie policy\<close>

definition cookie_name_char :: "char \<Rightarrow> bool" where
  "cookie_name_char c \<longleftrightarrow>
     (let n = code_point c
      in n = 33 \<or> 35 \<le> n \<and> n \<le> 39 \<or> n = 42 \<or> n = 43 \<or> n = 45 \<or> n = 46 \<or> 48 \<le> n \<and> n \<le> 57 \<or>
         65 \<le> n \<and> n \<le> 90 \<or> 94 \<le> n \<and> n \<le> 122 \<or> n = 124 \<or> n = 126)"

definition cookie_name :: "string \<Rightarrow> bool" where
  "cookie_name s \<longleftrightarrow> s \<noteq> [] \<and> list_all cookie_name_char s"

definition cookie_value_text :: "string \<Rightarrow> bool" where
  "cookie_value_text s \<longleftrightarrow> s \<noteq> [] \<and> list_all bearer_char s"

definition other_cookie_char :: "char \<Rightarrow> bool" where
  "other_cookie_char c \<longleftrightarrow>
     (let n = code_point c
      in n = 33 \<or> 35 \<le> n \<and> n \<le> 43 \<or> 45 \<le> n \<and> n \<le> 58 \<or> 60 \<le> n \<and> n \<le> 91 \<or> 93 \<le> n \<and> n \<le> 126)"

definition quoted :: "string \<Rightarrow> bool" where
  "quoted v \<longleftrightarrow> 2 \<le> length v \<and> hd v = CHR 0x22 \<and> last v = CHR 0x22"

definition other_cookie_value :: "string \<Rightarrow> bool" where
  "other_cookie_value v \<longleftrightarrow>
     list_all other_cookie_char v \<or> quoted v \<and> list_all other_cookie_char (butlast (tl v))"

datatype same_site = SameStrict | SameLax | SameNone

fun same_site_text :: "same_site \<Rightarrow> string" where
  "same_site_text SameStrict = ''Strict''"
| "same_site_text SameLax = ''Lax''"
| "same_site_text SameNone = ''None''"

definition same_site_of_text :: "string \<Rightarrow> same_site option" where
  "same_site_of_text s =
     map_of (map (\<lambda>x. (same_site_text x, x)) [SameStrict, SameLax, SameNone]) s"

record cookie_policy =
  pol_name :: string
  pol_secure :: bool
  pol_same_site :: same_site
  pol_loopback :: bool
  pol_max_header :: int
  pol_max_age :: int

definition starts_with :: "string \<Rightarrow> string \<Rightarrow> bool" where
  "starts_with p s \<longleftrightarrow> take (length p) s = p"

definition make_cookie_policy ::
  "pyval \<Rightarrow> pyval \<Rightarrow> pyval \<Rightarrow> pyval \<Rightarrow> pyval \<Rightarrow> pyval \<Rightarrow> (http_error, cookie_policy) result" where
  "make_cookie_policy name secure same_site loopback max_header max_age =
     (case name of
        PyStr n \<Rightarrow>
          if 128 < length n \<or> \<not> cookie_name n then Inl HttpValueError
          else (case (secure, loopback) of
            (PyBool s, PyBool l) \<Rightarrow>
              (case same_site of
                 PyStr site_text \<Rightarrow>
                   (case same_site_of_text site_text of
                      None \<Rightarrow> Inl HttpValueError
                    | Some site \<Rightarrow>
                        if site = SameNone \<and> \<not> s then Inl HttpValueError
                        else if (starts_with ''__Host-'' n \<or> starts_with ''__Secure-'' n) \<and> \<not> s then Inl HttpValueError
                        else if \<not> s \<and> \<not> l then Inl HttpValueError
                        else (case max_header of
                          PyInt h \<Rightarrow>
                            if \<not> (256 \<le> h \<and> h \<le> 65536) then Inl HttpValueError
                            else (case max_age of
                              PyInt a \<Rightarrow>
                                if \<not> (60 \<le> a \<and> a \<le> 2678400) then Inl HttpValueError
                                else Inr \<lparr>pol_name = n, pol_secure = s, pol_same_site = site, pol_loopback = l,
                                          pol_max_header = h, pol_max_age = a\<rparr>
                            | _ \<Rightarrow> Inl HttpValueError)
                        | _ \<Rightarrow> Inl HttpValueError))
               | _ \<Rightarrow> Inl HttpValueError)
          | _ \<Rightarrow> Inl HttpValueError)
      | _ \<Rightarrow> Inl HttpValueError)"

definition default_policy :: "(http_error, cookie_policy) result" where
  "default_policy =
     make_cookie_policy (PyStr ''__Host-thebitlab_session'') (PyBool True) (PyStr ''Lax'') (PyBool False)
       (PyInt 4096) (PyInt 86400)"

definition loopback_development :: "(http_error, cookie_policy) result" where
  "loopback_development =
     make_cookie_policy (PyStr ''thebitlab_session'') (PyBool False) (PyStr ''Lax'') (PyBool True)
       (PyInt 4096) (PyInt 86400)"

definition valid_policy :: "cookie_policy \<Rightarrow> bool" where
  "valid_policy p \<longleftrightarrow>
     cookie_name (pol_name p) \<and> length (pol_name p) \<le> 128 \<and> (pol_same_site p = SameNone \<longrightarrow> pol_secure p) \<and>
     (starts_with ''__Host-'' (pol_name p) \<or> starts_with ''__Secure-'' (pol_name p) \<longrightarrow> pol_secure p) \<and>
     (pol_secure p \<or> pol_loopback p) \<and> 256 \<le> pol_max_header p \<and> pol_max_header p \<le> 65536 \<and>
     60 \<le> pol_max_age p \<and> pol_max_age p \<le> 2678400"

section \<open>The Cookie header\<close>

text \<open>\<^verbatim>\<open>len(s.encode("utf-8"))\<close> and \<^verbatim>\<open>s.split(c)\<close>\<close>

definition utf8_length :: "string \<Rightarrow> nat" where
  "utf8_length s = sum_list (map (\<lambda>c. if code_point c < 128 then 1 else 2) s)"

fun split_on :: "char \<Rightarrow> string \<Rightarrow> string list" where
  "split_on c [] = [[]]"
| "split_on c (x # xs) =
     (if x = c then [] # split_on c xs
      else (case split_on c xs of [] \<Rightarrow> [[x]] | w # ws \<Rightarrow> (x # w) # ws))"

definition unquote :: "string \<Rightarrow> string" where
  "unquote v = (if quoted v then butlast (tl v) else v)"

text \<open>Name and value of a segment, \<^verbatim>\<open>segment.split("=", 1)\<close> with both parts stripped.\<close>

definition segment_pair :: "string \<Rightarrow> string \<times> string" where
  "segment_pair segment = (let (n, _, v) = partition_at (CHR ''='') (strip segment) in (strip n, strip v))"

text \<open>The values of the session cookie in the segments of a header; \<open>None\<close> when a segment is malformed.\<close>

fun cookie_matches :: "string \<Rightarrow> string list \<Rightarrow> string list option" where
  "cookie_matches name [] = Some []"
| "cookie_matches name (segment # segments) =
     (let s = strip segment; (n, v) = segment_pair segment
      in if s = [] \<or> \<not> list_ex (\<lambda>c. c = CHR ''='') s then None
         else if \<not> cookie_name n then None
         else if n = name then map_option (\<lambda>vs. unquote v # vs) (cookie_matches name segments)
         else if \<not> other_cookie_value v then None
         else cookie_matches name segments)"

definition cookie_bearer :: "string \<Rightarrow> bool" where
  "cookie_bearer t \<longleftrightarrow> 32 \<le> length t \<and> length t \<le> 1024 \<and> cookie_value_text t"

definition extract_bearer :: "cookie_policy \<Rightarrow> bool \<Rightarrow> pyval \<Rightarrow> (http_error, string option) result" where
  "extract_bearer p required header =
     (case header of
        PyStr h \<Rightarrow>
          if pol_max_header p < int (utf8_length h) then Inl HttpAuthenticationRequired
          else if list_ex is_control h then Inl HttpAuthenticationRequired
          else (case cookie_matches (pol_name p) (split_on (CHR '';'') h) of
            None \<Rightarrow> Inl HttpAuthenticationRequired
          | Some vs \<Rightarrow>
              if 1 < length vs \<or> required \<and> length vs \<noteq> 1 then Inl HttpAuthenticationRequired
              else (case vs of
                  [] \<Rightarrow> Inr None
                | v # _ \<Rightarrow> if cookie_bearer v then Inr (Some v) else Inl HttpAuthenticationRequired))
      | _ \<Rightarrow> Inl HttpAuthenticationRequired)"

section \<open>The CSRF token\<close>

definition hex_value :: "char \<Rightarrow> nat" where
  "hex_value c = (let n = code_point c in if n < 58 then n - 48 else n - 87)"

fun hex_bytes :: "string \<Rightarrow> nat list" where
  "hex_bytes (a # b # rest) = (16 * hex_value a + hex_value b) # hex_bytes rest"
| "hex_bytes _ = []"

definition base64url_char :: "nat \<Rightarrow> char" where
  "base64url_char n =
     (if n < 26 then char_of (65 + n) else if n < 52 then char_of (71 + n) else if n < 62 then char_of (n - 4)
      else if n = 62 then CHR ''-'' else CHR ''_'')"

text \<open>\<^verbatim>\<open>base64.urlsafe_b64encode(data).rstrip(b"=")\<close>\<close>

fun base64url :: "nat list \<Rightarrow> string" where
  "base64url [] = []"
| "base64url [a] = [base64url_char (a div 4), base64url_char (a mod 4 * 16)]"
| "base64url [a, b] =
     [base64url_char (a div 4), base64url_char (a mod 4 * 16 + b div 16), base64url_char (b mod 16 * 4)]"
| "base64url (a # b # c # rest) =
     base64url_char (a div 4) # base64url_char (a mod 4 * 16 + b div 16) #
     base64url_char (b mod 16 * 4 + c div 64) # base64url_char (c mod 64) # base64url rest"

definition csrf_token :: "hashing \<Rightarrow> nat list \<Rightarrow> string \<Rightarrow> string" where
  "csrf_token h secret bearer =
     base64url (hex_bytes (hmac_sha256_hex h secret (''thebitlab-csrf-v1'' @ [CHR 0x00] @ bearer)))"

definition validate_csrf :: "hashing \<Rightarrow> nat list \<Rightarrow> string \<Rightarrow> pyval \<Rightarrow> (http_error, unit) result" where
  "validate_csrf h secret bearer supplied =
     (let expected = csrf_token h secret bearer
      in case supplied of
           PyStr t \<Rightarrow>
             if length t \<noteq> length expected then Inl HttpCsrfRejected
             else (case compare_digest t expected of
                 None \<Rightarrow> Inl HttpTypeError
               | Some same \<Rightarrow> if same then Inr () else Inl HttpCsrfRejected)
         | _ \<Rightarrow> Inl HttpCsrfRejected)"

lemma base64url_ascii: "ascii_text (base64url bs)"
proof -
  have char: "code_point (base64url_char n) < 128" for n
    by (auto simp: base64url_char_def code_point_char_of) (simp_all add: code_point_def)
  show ?thesis by (induction bs rule: base64url.induct) (simp_all add: ascii_text_def char)
qed

lemma validate_csrf_Inr: "validate_csrf h secret bearer supplied = Inr () \<longleftrightarrow> supplied = PyStr (csrf_token h secret bearer)"
  using base64url_ascii
  by (auto simp: validate_csrf_def csrf_token_def Let_def compare_digest_def split: pyval.splits option.splits if_splits)

lemma length_base64url:
  "length (base64url bs) = 4 * (length bs div 3) + (if length bs mod 3 = 0 then 0 else length bs mod 3 + 1)"
proof (induction bs rule: base64url.induct)
  case (4 a b c rest)
  have "(length rest + 3) div 3 = length rest div 3 + 1" "(length rest + 3) mod 3 = length rest mod 3" by simp_all
  then show ?case using 4 by (simp add: add.commute)
qed simp_all

lemma length_hex_bytes: "length (hex_bytes s) = length s div 2"
  by (induction s rule: hex_bytes.induct) auto

lemma csrf_token_length: "hashing_ok h \<Longrightarrow> length (csrf_token h secret bearer) = 43"
  by (simp add: csrf_token_def length_base64url length_hex_bytes hashing_ok_def hex64_def)

lemma validate_csrf_cases:
  assumes "hashing_ok h"
  shows "validate_csrf h secret bearer (PyStr t) =
    (if t = csrf_token h secret bearer then Inr ()
     else if length t = 43 \<and> \<not> ascii_text t then Inl HttpTypeError else Inl HttpCsrfRejected)"
  using csrf_token_length [OF assms, of secret bearer] base64url_ascii
  by (auto simp: validate_csrf_def compare_digest_def csrf_token_def Let_def)

section \<open>Set-Cookie values\<close>

definition weekday_text :: "instant \<Rightarrow> string" where
  "weekday_text i =
     [''Mon'', ''Tue'', ''Wed'', ''Thu'', ''Fri'', ''Sat'', ''Sun''] ! nat (i div day_micros mod 7)"

definition month_text :: "int \<Rightarrow> string" where
  "month_text m =
     [''Jan'', ''Feb'', ''Mar'', ''Apr'', ''May'', ''Jun'', ''Jul'', ''Aug'', ''Sep'', ''Oct'', ''Nov'', ''Dec'']
       ! nat (m - 1)"

text \<open>\<^verbatim>\<open>email.utils.format_datetime(i, usegmt=True)\<close>; 0001-01-01 is a Monday.\<close>

definition http_date :: "instant \<Rightarrow> string" where
  "http_date i =
     (let c = civil_of i
      in weekday_text i @ '', '' @ pad 2 (civ_day c) @ '' '' @ month_text (civ_month c) @ '' '' @ pad 4 (civ_year c) @
         '' '' @ pad 2 (civ_hour c) @ '':'' @ pad 2 (civ_minute c) @ '':'' @ pad 2 (civ_second c) @ '' GMT'')"

fun join_attributes :: "string list \<Rightarrow> string" where
  "join_attributes [] = []"
| "join_attributes [x] = x"
| "join_attributes (x # y # xs) = x @ ''; '' @ join_attributes (y # xs)"

definition cookie_attributes :: "cookie_policy \<Rightarrow> string \<Rightarrow> string \<Rightarrow> string \<Rightarrow> string list" where
  "cookie_attributes p value max_age expires =
     [pol_name p @ ''='' @ value, ''Path=/'', ''HttpOnly''] @ (if pol_secure p then [''Secure''] else []) @
     [''SameSite='' @ same_site_text (pol_same_site p), ''Max-Age='' @ max_age, ''Expires='' @ expires]"

definition session_cookie ::
  "cookie_policy \<Rightarrow> string \<Rightarrow> user_session \<Rightarrow> instant option \<Rightarrow> (http_error, string) result" where
  "session_cookie p bearer session response_time =
     (case response_time of
        None \<Rightarrow> Inl HttpValueError
      | Some now \<Rightarrow>
          let remaining = ses_expires_at session - now
          in if remaining < 1000000 then Inl HttpValueError
             else Inr (join_attributes (cookie_attributes p bearer (int_text (remaining div 1000000))
                    (http_date (ses_expires_at session)))))"

definition clear_cookie :: "cookie_policy \<Rightarrow> string" where
  "clear_cookie p = join_attributes (cookie_attributes p [] ''0'' ''Thu, 01 Jan 1970 00:00:00 GMT'')"

section \<open>The policy and the parser\<close>

lemma make_policy_valid: "make_cookie_policy a b c d e f = Inr p \<Longrightarrow> valid_policy p"
  by (auto simp: make_cookie_policy_def valid_policy_def split: pyval.splits option.splits if_splits)

text \<open>What the parser accepts, segment by segment.\<close>

definition good_segment :: "string \<Rightarrow> string \<Rightarrow> bool" where
  "good_segment name segment \<longleftrightarrow>
     list_ex (\<lambda>c. c = CHR ''='') (strip segment) \<and> cookie_name (fst (segment_pair segment)) \<and>
     (fst (segment_pair segment) = name \<or> other_cookie_value (snd (segment_pair segment)))"

definition session_values :: "string \<Rightarrow> string list \<Rightarrow> string list" where
  "session_values name segments =
     map (\<lambda>s. unquote (snd (segment_pair s))) (filter (\<lambda>s. fst (segment_pair s) = name) segments)"

lemma cookie_matches_eq:
  "cookie_matches name segments =
     (if list_all (good_segment name) segments then Some (session_values name segments) else None)"
  by (induction segments) (auto simp: good_segment_def session_values_def Let_def split: prod.splits)

text \<open>
  A header is accepted exactly when every segment is well formed, one and only one carries the
  name of the policy, and its value is a bearer: a second cookie of that name, planted by
  another site of the domain, is refused.
\<close>

lemma extract_bearer_iff:
  "extract_bearer p True (PyStr h) = Inr (Some t) \<longleftrightarrow>
     int (utf8_length h) \<le> pol_max_header p \<and> \<not> list_ex is_control h \<and> cookie_bearer t \<and>
     list_all (good_segment (pol_name p)) (split_on (CHR '';'') h) \<and>
     session_values (pol_name p) (split_on (CHR '';'') h) = [t]"
proof -
  have "length vs = Suc 0 \<longleftrightarrow> (\<exists>v. vs = [v])" for vs :: "string list" by (cases vs) auto
  then show ?thesis
    by (auto simp: extract_bearer_def cookie_matches_eq split: option.splits list.splits if_splits)
qed

section \<open>A cookie that is sent back\<close>

text \<open>The header of a browser that holds some cookies, and the characters its parts are made of.\<close>

definition cookie_text :: "string \<times> string \<Rightarrow> string" where
  "cookie_text c = fst c @ ''='' @ snd c"

definition cookie_header :: "(string \<times> string) list \<Rightarrow> string" where
  "cookie_header cookies = join_attributes (map cookie_text cookies)"

definition plain_char :: "char \<Rightarrow> bool" where
  "plain_char c \<longleftrightarrow> \<not> is_space c \<and> \<not> is_control c \<and> code_point c < 128 \<and> c \<noteq> CHR '';''"

lemma plain_chars:
  "cookie_name_char c \<Longrightarrow> plain_char c" "cookie_name_char c \<Longrightarrow> c \<noteq> CHR ''=''"
  "bearer_char c \<Longrightarrow> plain_char c" "bearer_char c \<Longrightarrow> c \<noteq> CHR 0x22" "other_cookie_char c \<Longrightarrow> plain_char c"
  "plain_char (CHR ''='')" "plain_char (CHR 0x22)" "other_cookie_char c \<Longrightarrow> c \<noteq> CHR '';''"
  by (auto simp: cookie_name_char_def bearer_char_def other_cookie_char_def plain_char_def is_space_def
      is_control_def Let_def code_point_def)

lemma quoted_parts: "quoted v \<Longrightarrow> v = CHR 0x22 # butlast (tl v) @ [CHR 0x22]"
proof -
  assume q: "quoted v"
  then obtain x xs where v: "v = x # xs" "xs \<noteq> []" by (cases v) (auto simp: quoted_def Suc_le_eq)
  then show "v = CHR 0x22 # butlast (tl v) @ [CHR 0x22]"
    using q append_butlast_last_id [OF v(2)] by (simp add: quoted_def)
qed

lemma plain_values:
  "cookie_name n \<Longrightarrow> list_all plain_char n" "cookie_value_text v \<Longrightarrow> list_all plain_char v"
  "other_cookie_value v \<Longrightarrow> list_all plain_char v"
proof -
  show "cookie_name n \<Longrightarrow> list_all plain_char n" "cookie_value_text v \<Longrightarrow> list_all plain_char v"
    by (auto simp: cookie_name_def cookie_value_text_def list_all_iff plain_chars)
  assume v: "other_cookie_value v"
  show "list_all plain_char v"
  proof (cases "list_all other_cookie_char v")
    case True
    then show ?thesis by (auto simp: list_all_iff plain_chars)
  next
    case False
    with v have q: "quoted v" "list_all other_cookie_char (butlast (tl v))"
      by (auto simp: other_cookie_value_def)
    from q(2) have "list_all plain_char (CHR 0x22 # butlast (tl v) @ [CHR 0x22])"
      by (auto simp: list_all_iff plain_chars)
    then show ?thesis using quoted_parts [OF q(1)] by simp
  qed
qed

lemma plain_strip: "list_all plain_char s \<Longrightarrow> strip s = s" "list_all plain_char s \<Longrightarrow> strip (CHR '' '' # s) = s"
proof -
  assume s: "list_all plain_char s"
  then have "list_all (\<lambda>c. \<not> is_space c) s" by (auto simp: list_all_iff plain_char_def)
  then show *: "strip s = s" using no_space_stripped by (simp add: stripped_def)
  have "is_space (CHR '' '')" by code_simp
  with * show "strip (CHR '' '' # s) = s" by (simp add: strip_def)
qed

lemma plain_segment:
  assumes c: "cookie_name (fst c)" "list_all plain_char (snd c)" and s: "s = cookie_text c"
  shows "segment_pair s = c" "segment_pair (CHR '' '' # s) = c" "list_all plain_char s"
    "strip s = s" "strip (CHR '' '' # s) = s" "list_ex (\<lambda>c. c = CHR ''='') s"
proof -
  show all: "list_all plain_char s" using plain_values(1) [OF c(1)] c(2) by (simp add: s cookie_text_def plain_chars)
  show strip: "strip s = s" "strip (CHR '' '' # s) = s" using plain_strip all by simp_all
  have "\<forall>x \<in> set (fst c). x \<noteq> CHR ''=''" using c(1) by (auto simp: cookie_name_def list_all_iff plain_chars)
  then have "partition_at (CHR ''='') (fst c @ CHR ''='' # snd c) = (fst c, True, snd c)"
    by (simp add: partition_at_def takeWhile_append2 dropWhile_append2 Let_def)
  then show "segment_pair s = c" "segment_pair (CHR '' '' # s) = c"
    using strip plain_strip(1) [OF c(2)] plain_strip(1) [OF plain_values(1) [OF c(1)]]
    by (simp_all add: segment_pair_def s cookie_text_def)
  show "list_ex (\<lambda>x. x = CHR ''='') s" by (simp add: s cookie_text_def)
qed

lemma split_on_plain:
  "CHR '';'' \<notin> set s \<Longrightarrow> split_on (CHR '';'') s = [s]"
  "CHR '';'' \<notin> set s \<Longrightarrow> split_on (CHR '';'') (s @ CHR '';'' # r) = s # split_on (CHR '';'') r"
  by (induction s) auto

lemma split_on_join:
  assumes "\<forall>s \<in> set (x # xs). CHR '';'' \<notin> set s"
  shows "split_on (CHR '';'') (join_attributes (x # xs)) = x # map ((#) (CHR '' '')) xs"
  using assms
proof (induction xs arbitrary: x)
  case Nil
  then show ?case by (simp add: split_on_plain)
next
  case (Cons y ys)
  have "split_on (CHR '';'') (CHR '' '' # join_attributes (y # ys)) = map ((#) (CHR '' '')) (y # ys)"
    using Cons.IH [of y] Cons.prems by simp
  then show ?case using Cons.prems by (simp add: split_on_plain)
qed

lemma join_chars: "set (join_attributes xs) \<subseteq> \<Union> (set ` set xs) \<union> {CHR '';'', CHR '' ''}"
  by (induction xs rule: join_attributes.induct) auto

lemma utf8_length_ascii: "list_all (\<lambda>c. code_point c < 128) s \<Longrightarrow> utf8_length s = length s"
  by (induction s) (simp_all add: utf8_length_def)

text \<open>What a browser may hold beside the session cookie: cookies of other names.\<close>

definition other_cookie :: "cookie_policy \<Rightarrow> string \<times> string \<Rightarrow> bool" where
  "other_cookie p c \<longleftrightarrow> cookie_name (fst c) \<and> fst c \<noteq> pol_name p \<and> other_cookie_value (snd c)"

lemma header_extract:
  assumes p: "valid_policy p" and t: "cookie_bearer t"
    and others: "list_all (other_cookie p) before" "list_all (other_cookie p) after"
    and h: "h = cookie_header (before @ (pol_name p, t) # after)" "int (length h) \<le> pol_max_header p"
  shows "extract_bearer p True (PyStr h) = Inr (Some t)"
proof -
  let ?cs = "before @ (pol_name p, t) # after"
  have name: "cookie_name (pol_name p)" using p by (simp add: valid_policy_def)
  have val: "cookie_value_text t" using t by (simp add: cookie_bearer_def)
  have each: "cookie_name (fst c) \<and> list_all plain_char (snd c)" if "c \<in> set ?cs" for c
  proof -
    have "other_cookie p k \<Longrightarrow> cookie_name (fst k) \<and> list_all plain_char (snd k)" for k
      by (simp add: other_cookie_def plain_values(3))
    moreover have "c = (pol_name p, t) \<or> other_cookie p c" using that others by (auto simp: list_all_def)
    ultimately show ?thesis using name plain_values(2) [OF val] by (metis fst_conv snd_conv)
  qed
  note seg = plain_segment [OF each [THEN conjunct1] each [THEN conjunct2] refl]
  have texts: "\<forall>s \<in> set (map cookie_text ?cs). list_all plain_char s" using seg(3) by auto
  then have chars: "\<forall>c \<in> set h. plain_char c \<or> c = CHR '';'' \<or> c = CHR '' ''"
    using join_chars [of "map cookie_text ?cs"] unfolding h(1) cookie_header_def list_all_iff by blast
  have "\<not> is_control (CHR '';'')" "\<not> is_control (CHR '' '')" "code_point (CHR '';'') < 128" "code_point (CHR '' '') < 128"
    by code_simp+
  then have clean: "\<not> list_ex is_control h" "list_all (\<lambda>c. code_point c < 128) h"
    using chars by (auto simp: list_ex_iff list_all_iff plain_char_def)
  obtain c cs where cs: "?cs = c # cs" by (cases before) auto
  have "\<forall>s \<in> set (cookie_text c # map cookie_text cs). CHR '';'' \<notin> set s"
    using texts cs by (auto simp: list_all_iff plain_char_def)
  then have split: "split_on (CHR '';'') h = cookie_text c # map (\<lambda>k. CHR '' '' # cookie_text k) cs"
    unfolding h(1) cookie_header_def cs list.map by (simp only: split_on_join) (simp add: o_def)
  have pairs: "map segment_pair (split_on (CHR '';'') h) = ?cs"
    using seg(1,2) unfolding split cs by (simp add: o_def map_idI)
  have strips: "list_all (\<lambda>s. list_ex (\<lambda>c. c = CHR ''='') (strip s)) (split_on (CHR '';'') h)"
    using seg(4,5,6) unfolding split cs by (auto simp: list_all_iff)
  have ok: "cookie_name (fst k) \<and> (fst k = pol_name p \<or> other_cookie_value (snd k))" if "k \<in> set ?cs" for k
    using that others name by (auto simp: list_all_iff other_cookie_def)
  have good: "list_all (good_segment (pol_name p)) (split_on (CHR '';'') h)"
  proof (unfold list_all_iff good_segment_def, intro ballI conjI)
    fix s assume s: "s \<in> set (split_on (CHR '';'') h)"
    then have "segment_pair s \<in> set ?cs" unfolding pairs [symmetric] by simp
    from ok [OF this] show "cookie_name (fst (segment_pair s))"
      "fst (segment_pair s) = pol_name p \<or> other_cookie_value (snd (segment_pair s))" by auto
    show "list_ex (\<lambda>c. c = CHR ''='') (strip s)" using strips s by (simp add: list_all_iff)
  qed
  have none: "filter (\<lambda>k. fst k = pol_name p) before = []" "filter (\<lambda>k. fst k = pol_name p) after = []"
    using others by (auto simp: filter_empty_conv list_all_iff other_cookie_def)
  have unq: "unquote t = t"
    using t by (cases t) (auto simp: unquote_def quoted_def cookie_bearer_def cookie_value_text_def plain_chars)
  have "session_values (pol_name p) (split_on (CHR '';'') h) =
      map (\<lambda>k. unquote (snd k)) (filter (\<lambda>k. fst k = pol_name p) (map segment_pair (split_on (CHR '';'') h)))"
    by (simp add: session_values_def filter_map o_def)
  also have "\<dots> = [t]" by (simp add: pairs none unq)
  finally have "session_values (pol_name p) (split_on (CHR '';'') h) = [t]" .
  with good clean h(2) t show ?thesis by (simp add: extract_bearer_iff utf8_length_ascii)
qed

lemma pair_plain:
  assumes "valid_policy p" "cookie_bearer t"
  shows "list_all plain_char (cookie_text (pol_name p, t))"
  by (rule plain_segment(3) [OF _ _ refl]) (use assms in \<open>auto simp: valid_policy_def cookie_bearer_def plain_values\<close>)

lemma plain_utf8_length: "list_all plain_char s \<Longrightarrow> utf8_length s = length s"
  by (rule utf8_length_ascii) (auto simp: list_all_iff plain_char_def)

lemma set_cookie_pair:
  assumes "valid_policy p" "cookie_bearer t" "session_cookie p t x now = Inr c"
  shows "fst (partition_at (CHR '';'') c) = cookie_text (pol_name p, t)"
proof -
  let ?a = "cookie_text (pol_name p, t)"
  have "list_all plain_char ?a" by (rule pair_plain [OF assms(1,2)])
  then have "\<forall>x \<in> set ?a. x \<noteq> CHR '';''" by (auto simp: list_all_iff plain_char_def)
  then have "fst (partition_at (CHR '';'') (?a @ CHR '';'' # r)) = ?a" for r
    by (simp add: partition_at_def takeWhile_append2 dropWhile_append2 Let_def)
  moreover obtain r where "c = ?a @ CHR '';'' # r"
    using assms(3) by (auto simp: session_cookie_def cookie_attributes_def cookie_text_def Let_def split: option.splits if_splits)
  ultimately show ?thesis by simp
qed

text \<open>C32. A session cookie survives the browser: the first part of a \<^verbatim>\<open>Set-Cookie\<close> value is the pair of name and
  bearer, and a \<^verbatim>\<open>Cookie\<close> header that holds this pair among any other well-formed cookies is read
  back as the same bearer, as long as it fits the limit of the policy.\<close>

theorem issued_cookie_is_read_back:
  assumes "valid_policy p" "cookie_bearer t" "session_cookie p t x now = Inr c"
    and "list_all (other_cookie p) before" "list_all (other_cookie p) after"
    and "int (length (cookie_header (before @ (pol_name p, t) # after))) \<le> pol_max_header p"
  shows "fst (partition_at (CHR '';'') c) = cookie_text (pol_name p, t) \<and>
    extract_bearer p True (PyStr (cookie_header (before @ (pol_name p, t) # after))) = Inr (Some t)"
  using set_cookie_pair [OF assms(1-3)] header_extract [OF assms(1,2,4,5) refl assms(6)] by simp

end
