(* ===== verification/Http_Auth.thy ===== *)
theory Http_Auth
  imports Http_Cookie Auth_Sessions
begin

text \<open>
  \<^verbatim>\<open>HttpSessionAuthBoundary\<close> of \<^verbatim>\<open>scripts/thebitlab_http_auth.py\<close>: requests with a session cookie are
  authenticated through the session service of theory \<open>Auth_Sessions\<close>, unsafe methods need the
  CSRF token of the session, and every failure of the service becomes one of the exceptions of
  \<open>Http_Cookie\<close>.
\<close>

type_synonym ('s, 'a) http_action = "('s, http_error, 'a) action"

section \<open>Requests and contexts\<close>

record http_request =
  req_method :: pyval
  req_cookie :: pyval
  req_csrf :: pyval

record http_context =
  ctx_session :: user_session
  ctx_user :: user_account
  ctx_csrf :: string

record established_session =
  est_context :: http_context
  est_set_cookie :: string

record logout_result =
  out_revoked :: bool
  out_set_cookie :: string

datatype http_method = GET | HEAD | OPTIONS | POST | PUT | PATCH | DELETE

definition method_of_text :: "string \<Rightarrow> http_method option" where
  "method_of_text s =
     map_of [(''GET'', GET), (''HEAD'', HEAD), (''OPTIONS'', OPTIONS), (''POST'', POST), (''PUT'', PUT),
       (''PATCH'', PATCH), (''DELETE'', DELETE)] s"

fun unsafe_method :: "http_method \<Rightarrow> bool" where
  "unsafe_method POST = True"
| "unsafe_method PUT = True"
| "unsafe_method PATCH = True"
| "unsafe_method DELETE = True"
| "unsafe_method _ = False"

text \<open>
  \<^verbatim>\<open>str.upper\<close>. The sharp s becomes two letters; the micro sign and the y with diaeresis have
  uppercase letters outside the modelled code points and are left alone, which no comparison
  with an ASCII text notices.
\<close>

definition upper_char :: "char \<Rightarrow> string" where
  "upper_char c =
     (let n = code_point c
      in if n = 223 then ''SS''
         else if 97 \<le> n \<and> n \<le> 122 \<or> 224 \<le> n \<and> n \<le> 254 \<and> n \<noteq> 247 then [char_of (n - 32)]
         else [c])"

definition upper :: "string \<Rightarrow> string" where
  "upper s = concat (map upper_char s)"

text \<open>An object of another class than \<^verbatim>\<open>HttpAuthRequest\<close> is \<open>None\<close>.\<close>

definition request_values :: "http_request option \<Rightarrow> (http_error, http_method \<times> pyval \<times> pyval) result" where
  "request_values request =
     (case request of
        None \<Rightarrow> Inl HttpBadRequest
      | Some r \<Rightarrow>
          (case req_method r of
             PyStr t \<Rightarrow>
               (case method_of_text (upper (strip t)) of
                  None \<Rightarrow> Inl HttpMethodNotAllowed
                | Some m \<Rightarrow> Inr (m, req_cookie r, req_csrf r))
           | _ \<Rightarrow> Inl HttpBadRequest))"

section \<open>The boundary\<close>

record 's http_boundary =
  hb_sessions :: "'s session_service"
  hb_secret :: "nat list"
  hb_policy :: cookie_policy
  hb_clock :: "'s source"

definition make_http_boundary ::
  "'s session_service \<Rightarrow> pyval \<Rightarrow> cookie_policy \<Rightarrow> 's source \<Rightarrow> (http_error, 's http_boundary) result" where
  "make_http_boundary sessions secret policy clock =
     (case secret of
        PyBytes key \<Rightarrow>
          if length key < 32 then Inl HttpValueError
          else if ss_audience sessions \<noteq> AudienceWeb then Inl HttpValueError
          else Inr \<lparr>hb_sessions = sessions, hb_secret = key, hb_policy = policy, hb_clock = clock\<rparr>
      | _ \<Rightarrow> Inl HttpValueError)"

abbreviation boundary_hash :: "'s http_boundary \<Rightarrow> hashing" where
  "boundary_hash b \<equiv> ss_hash (hb_sessions b)"

text \<open>\<^verbatim>\<open>_current_time\<close>: a clock without a usable answer gives \<^verbatim>\<open>None\<close>.\<close>

definition current_time :: "'s source \<Rightarrow> ('s, instant option) http_action" where
  "current_time clock s =
     (case clock s of (v, t) \<Rightarrow> (Inr (case utc v of Inl e \<Rightarrow> None | Inr i \<Rightarrow> Some i), t))"

definition seconds :: "int \<Rightarrow> int" where
  "seconds n = n * 1000000"

text \<open>The exceptions of the service that mean a wrong credential, \<^verbatim>\<open>InvalidCredentialError\<close> and
  \<^verbatim>\<open>AccountDisabledError\<close>.\<close>

definition credential_error :: "auth_error \<Rightarrow> bool" where
  "credential_error e \<longleftrightarrow> e = InvalidCredential \<or> e = FromIdentity AccountDisabled"

definition authenticated_is_valid ::
  "'s http_boundary \<Rightarrow> user_session \<Rightarrow> user_account \<Rightarrow> string \<Rightarrow> instant \<Rightarrow> bool" where
  "authenticated_is_valid b x u bearer now \<longleftrightarrow>
     ses_user_id x = acc_user_id u \<and> ses_audience x = AudienceWeb \<and> ses_source_pairing x = None \<and>
     acc_active u \<and> ses_revoked_at x = None \<and> ses_created_at x \<le> now \<and> ses_last_seen_at x \<le> now \<and>
     now < ses_expires_at x \<and> ses_expires_at x - ses_created_at x \<le> seconds (pol_max_age (hb_policy b)) \<and>
     session_token_digest (boundary_hash b) (PyStr bearer) = Inr (ses_token_digest x)"

text \<open>
  \<open>None\<close> stands for \<^verbatim>\<open>unavailable\<close>; the clock is read whatever the service answered.
\<close>

definition authenticate_request :: "'s http_boundary \<Rightarrow> http_request option \<Rightarrow> ('s, http_context) http_action" where
  "authenticate_request b request =
     bind_act (lift_act (request_values request)) (\<lambda>(m, cookie, supplied).
     bind_act (lift_act (extract_bearer (hb_policy b) True cookie)) (\<lambda>found.
     case found of
       None \<Rightarrow> raise_act HttpAuthenticationRequired
     | Some bearer \<Rightarrow>
         try_act (authenticate_session (hb_sessions b) (PyStr bearer))
           (\<lambda>e. bind_act (current_time (hb_clock b)) (\<lambda>_.
              if credential_error e then raise_act HttpAuthenticationRequired else raise_act HttpAuthUnavailable))
           (\<lambda>(x, u). bind_act (current_time (hb_clock b)) (\<lambda>now.
              if (case now of None \<Rightarrow> True | Some n \<Rightarrow> \<not> authenticated_is_valid b x u bearer n)
              then raise_act HttpAuthUnavailable
              else bind_act (lift_act (if unsafe_method m
                     then validate_csrf (boundary_hash b) (hb_secret b) bearer supplied else Inr ())) (\<lambda>_.
                return_act \<lparr>ctx_session = x, ctx_user = u,
                            ctx_csrf = csrf_token (boundary_hash b) (hb_secret b) bearer\<rparr>)))))"

text \<open>The \<^verbatim>\<open>allowed_roles\<close> argument: a text (refused) or a collection of texts.\<close>

datatype roles_argument = RolesText string | Roles "string list"

definition application_roles :: "roles_argument \<Rightarrow> (http_error, string list) result" where
  "application_roles allowed =
     (case allowed of
        RolesText s \<Rightarrow> Inl HttpValueError
      | Roles rs \<Rightarrow>
          if rs = [] \<or> \<not> list_all (\<lambda>r. r = ''admin'' \<or> r = ''teacher'' \<or> r = ''student'') rs
          then Inl HttpValueError else Inr rs)"

definition authorize_application ::
  "'s http_boundary \<Rightarrow> http_request option \<Rightarrow> roles_argument \<Rightarrow> ('s, http_context) http_action" where
  "authorize_application b request allowed =
     bind_act (lift_act (application_roles allowed)) (\<lambda>roles.
     bind_act (authenticate_request b request) (\<lambda>ctx.
     if \<not> list_ex (\<lambda>r. r = role_text (acc_role (ctx_user ctx))) roles then raise_act HttpAuthorizationDenied
     else return_act ctx))"

definition logout_request :: "'s http_boundary \<Rightarrow> http_request option \<Rightarrow> ('s, logout_result) http_action" where
  "logout_request b request =
     bind_act (lift_act (request_values request)) (\<lambda>(m, cookie, supplied).
     if m \<noteq> POST then raise_act HttpMethodNotAllowed
     else bind_act (lift_act (extract_bearer (hb_policy b) True cookie)) (\<lambda>found.
     case found of
       None \<Rightarrow> raise_act HttpAuthenticationRequired
     | Some bearer \<Rightarrow>
         try_act (authenticate_session (hb_sessions b) (PyStr bearer))
           (\<lambda>e. if credential_error e
                then return_act \<lparr>out_revoked = False, out_set_cookie = clear_cookie (hb_policy b)\<rparr>
                else raise_act HttpAuthUnavailable)
           (\<lambda>(x, u). bind_act (current_time (hb_clock b)) (\<lambda>now.
              if (case now of None \<Rightarrow> True | Some n \<Rightarrow> \<not> authenticated_is_valid b x u bearer n)
              then raise_act HttpAuthUnavailable
              else bind_act (lift_act (validate_csrf (boundary_hash b) (hb_secret b) bearer supplied)) (\<lambda>_.
                try_act (revoke_session (hb_sessions b) (PyStr bearer))
                  (\<lambda>_. raise_act HttpAuthUnavailable)
                  (\<lambda>revoked. return_act \<lparr>out_revoked = revoked, out_set_cookie = clear_cookie (hb_policy b)\<rparr>))))))"

section \<open>Establishing a session\<close>

definition issued_is_valid :: "'s http_boundary \<Rightarrow> user_session \<Rightarrow> pyval \<Rightarrow> bool" where
  "issued_is_valid b x raw \<longleftrightarrow>
     (case raw of
        PyStr t \<Rightarrow>
          cookie_bearer t \<and>
          int (utf8_length (pol_name (hb_policy b) @ ''='' @ t)) \<le> pol_max_header (hb_policy b) \<and>
          ses_audience x = AudienceWeb \<and> ses_source_pairing x = None \<and> ses_revoked_at x = None \<and>
          0 < ses_expires_at x - ses_created_at x \<and>
          ses_expires_at x - ses_created_at x \<le> seconds (pol_max_age (hb_policy b)) \<and>
          session_token_digest (boundary_hash b) raw = Inr (ses_token_digest x)
      | _ \<Rightarrow> False)"

definition authenticated_matches_issued ::
  "'s http_boundary \<Rightarrow> user_session \<Rightarrow> user_account \<Rightarrow> user_session \<Rightarrow> string \<Rightarrow> instant option \<Rightarrow> string \<Rightarrow> bool"
where
  "authenticated_matches_issued b x u issued bearer now user_id \<longleftrightarrow>
     (case now of
        None \<Rightarrow> False
      | Some n \<Rightarrow>
          authenticated_is_valid b x u bearer n \<and> ses_user_id issued = user_id \<and> acc_user_id u = user_id \<and>
          ses_session_id x = ses_session_id issued \<and> ses_user_id x = ses_user_id issued \<and>
          ses_token_digest x = ses_token_digest issued \<and> ses_created_at x = ses_created_at issued \<and>
          ses_expires_at x = ses_expires_at issued)"

definition best_effort_revoke :: "'s http_boundary \<Rightarrow> pyval \<Rightarrow> ('s, unit) http_action" where
  "best_effort_revoke b bearer =
     try_act (revoke_session (hb_sessions b) bearer) (\<lambda>_. return_act ()) (\<lambda>_. return_act ())"

text \<open>Refuse after the clean-up.\<close>

definition abandon :: "'s http_boundary \<Rightarrow> pyval \<Rightarrow> http_error \<Rightarrow> ('s, 'a) http_action" where
  "abandon b bearer e = bind_act (best_effort_revoke b bearer) (\<lambda>_. raise_act e)"

definition established_result ::
  "'s http_boundary \<Rightarrow> user_session \<Rightarrow> pyval \<Rightarrow> string \<Rightarrow> ('s, established_session) http_action" where
  "established_result b issued raw user_id =
     (if \<not> issued_is_valid b issued raw then abandon b raw HttpAuthUnavailable
      else try_act (authenticate_session (hb_sessions b) raw)
        (\<lambda>e. abandon b raw (if credential_error e then HttpAuthenticationRequired else HttpAuthUnavailable))
        (\<lambda>(x, u). bind_act (current_time (hb_clock b)) (\<lambda>now.
           case raw of
             PyStr bearer \<Rightarrow>
               if \<not> authenticated_matches_issued b x u issued bearer now user_id then abandon b raw HttpAuthUnavailable
               else (case session_cookie (hb_policy b) bearer issued now of
                   Inl _ \<Rightarrow> abandon b raw HttpAuthUnavailable
                 | Inr cookie \<Rightarrow>
                     return_act \<lparr>est_context = \<lparr>ctx_session = x, ctx_user = u,
                         ctx_csrf = csrf_token (boundary_hash b) (hb_secret b) bearer\<rparr>,
                       est_set_cookie = cookie\<rparr>)
           | _ \<Rightarrow> abandon b raw HttpAuthUnavailable)))"

text \<open>\<^verbatim>\<open>bool(value)\<close> of an argument\<close>

fun py_truthy :: "pyval \<Rightarrow> bool" where
  "py_truthy PyNone = False"
| "py_truthy (PyStr s) = (s \<noteq> [])"
| "py_truthy (PyBool v) = v"
| "py_truthy (PyInt n) = (n \<noteq> 0)"
| "py_truthy (PyBytes bs) = (bs \<noteq> [])"
| "py_truthy (PyDatetime _ _) = True"

definition rotate_session :: "'s http_boundary \<Rightarrow> pyval \<Rightarrow> ('s, unit) http_action" where
  "rotate_session b existing_cookie =
     (if \<not> py_truthy existing_cookie then return_act ()
      else bind_act (lift_act (extract_bearer (hb_policy b) False existing_cookie)) (\<lambda>existing.
        case existing of
          None \<Rightarrow> return_act ()
        | Some t \<Rightarrow>
            try_act (revoke_session (hb_sessions b) (PyStr t))
              (\<lambda>_. raise_act HttpAuthUnavailable) (\<lambda>_. return_act ())))"

definition establish_session ::
  "'s http_boundary \<Rightarrow> string \<Rightarrow> pyval \<Rightarrow> ('s, established_session) http_action" where
  "establish_session b user_id existing_cookie =
     bind_act (rotate_session b existing_cookie) (\<lambda>_.
     try_act (issue_session (hb_sessions b) user_id)
       (\<lambda>e. if credential_error e then raise_act HttpAuthenticationRequired else raise_act HttpAuthUnavailable)
       (\<lambda>(issued, raw). established_result b issued raw user_id))"

definition discard_established_session ::
  "'s http_boundary \<Rightarrow> established_session option \<Rightarrow> ('s, bool) http_action" where
  "discard_established_session b established =
     (case established of
        None \<Rightarrow> return_act False
      | Some x \<Rightarrow>
          (case extract_bearer (hb_policy b) True (PyStr (fst (partition_at (CHR '';'') (est_set_cookie x)))) of
             Inr (Some t) \<Rightarrow>
               (case session_token_digest (boundary_hash b) (PyStr t) of
                  Inl _ \<Rightarrow> return_act False
                | Inr digest \<Rightarrow>
                    if ses_token_digest (ctx_session (est_context x)) \<noteq> digest then return_act False
                    else try_act (revoke_session (hb_sessions b) (PyStr t)) (\<lambda>_. return_act False) return_act)
           | _ \<Rightarrow> return_act False))"

section \<open>What the boundary guarantees\<close>

lemma current_time_run: "current_time f s = (r, t) \<longleftrightarrow>
    t = snd (f s) \<and> r = Inr (case utc (fst (f s)) of Inl e \<Rightarrow> None | Inr i \<Rightarrow> Some i)"
  by (auto simp: current_time_def split: prod.splits)

text \<open>A request that is authenticated, step by step.\<close>

lemma authenticate_request_Inr:
  assumes "authenticate_request b request s = (Inr ctx, t)"
  obtains m cookie supplied bearer x u s1 now where "request_values request = Inr (m, cookie, supplied)"
    "extract_bearer (hb_policy b) True cookie = Inr (Some bearer)"
    "authenticate_session (hb_sessions b) (PyStr bearer) s = (Inr (x, u), s1)"
    "utc (fst (hb_clock b s1)) = Inr now" "t = snd (hb_clock b s1)"
    "authenticated_is_valid b x u bearer now"
    "unsafe_method m \<longrightarrow> validate_csrf (boundary_hash b) (hb_secret b) bearer supplied = Inr ()"
    "ctx = \<lparr>ctx_session = x, ctx_user = u, ctx_csrf = csrf_token (boundary_hash b) (hb_secret b) bearer\<rparr>"
proof -
  from assms obtain m cookie supplied bearer where start: "request_values request = Inr (m, cookie, supplied)"
    "extract_bearer (hb_policy b) True cookie = Inr (Some bearer)"
    and rest: "try_act (authenticate_session (hb_sessions b) (PyStr bearer))
           (\<lambda>e. bind_act (current_time (hb_clock b)) (\<lambda>_.
              if credential_error e then raise_act HttpAuthenticationRequired else raise_act HttpAuthUnavailable))
           (\<lambda>(x, u). bind_act (current_time (hb_clock b)) (\<lambda>now.
              if (case now of None \<Rightarrow> True | Some n \<Rightarrow> \<not> authenticated_is_valid b x u bearer n)
              then raise_act HttpAuthUnavailable
              else bind_act (lift_act (if unsafe_method m
                     then validate_csrf (boundary_hash b) (hb_secret b) bearer supplied else Inr ())) (\<lambda>_.
                return_act \<lparr>ctx_session = x, ctx_user = u,
                            ctx_csrf = csrf_token (boundary_hash b) (hb_secret b) bearer\<rparr>))) s = (Inr ctx, t)"
    unfolding authenticate_request_def by (auto simp: run_simps)
  from rest obtain x u s1 where au: "authenticate_session (hb_sessions b) (PyStr bearer) s = (Inr (x, u), s1)"
    and fin: "bind_act (current_time (hb_clock b)) (\<lambda>now.
              if (case now of None \<Rightarrow> True | Some n \<Rightarrow> \<not> authenticated_is_valid b x u bearer n)
              then raise_act HttpAuthUnavailable
              else bind_act (lift_act (if unsafe_method m
                     then validate_csrf (boundary_hash b) (hb_secret b) bearer supplied else Inr ())) (\<lambda>_.
                return_act \<lparr>ctx_session = x, ctx_user = u,
                            ctx_csrf = csrf_token (boundary_hash b) (hb_secret b) bearer\<rparr>)) s1 = (Inr ctx, t)"
    by (auto simp: run_simps)
  from fin obtain now where "utc (fst (hb_clock b s1)) = Inr now" "t = snd (hb_clock b s1)"
    "authenticated_is_valid b x u bearer now"
    "unsafe_method m \<longrightarrow> validate_csrf (boundary_hash b) (hb_secret b) bearer supplied = Inr ()"
    "ctx = \<lparr>ctx_session = x, ctx_user = u, ctx_csrf = csrf_token (boundary_hash b) (hb_secret b) bearer\<rparr>"
    by (auto simp: bind_act_Inr current_time_run if_act split: sum.splits if_splits)
  with start au show thesis by (rule that)
qed

lemma authorize_application_Inr:
  assumes "authorize_application b request (Roles roles) s = (Inr ctx, t)"
  shows "authenticate_request b request s = (Inr ctx, t)" "role_text (acc_role (ctx_user ctx)) \<in> set roles"
    "acc_role (ctx_user ctx) \<noteq> RolePending"
proof -
  from assms obtain rs where rs: "application_roles (Roles roles) = Inr rs"
    and go: "authenticate_request b request s = (Inr ctx, t)"
    and mem: "list_ex (\<lambda>r. r = role_text (acc_role (ctx_user ctx))) rs"
    unfolding authorize_application_def by (auto simp: run_simps)
  show "authenticate_request b request s = (Inr ctx, t)" by (rule go)
  have "rs = roles" "list_all (\<lambda>r. r = ''admin'' \<or> r = ''teacher'' \<or> r = ''student'') roles"
    using rs by (simp_all add: application_roles_def split: if_splits)
  with mem have r: "role_text (acc_role (ctx_user ctx)) \<in> set roles"
    and all: "\<And>r. r \<in> set roles \<Longrightarrow> r = ''admin'' \<or> r = ''teacher'' \<or> r = ''student''"
    unfolding list_ex_iff list_all_iff by blast+
  show "role_text (acc_role (ctx_user ctx)) \<in> set roles" by (rule r)
  show "acc_role (ctx_user ctx) \<noteq> RolePending" using all [OF r] by (cases "acc_role (ctx_user ctx)") auto
qed

text \<open>
  The boundary over a session registry: its own clock does not write, and neither the sessions
  nor the accounts look different after it was read.
\<close>

definition observing :: "('s \<Rightarrow> user_session \<Rightarrow> bool) \<Rightarrow> ('s \<Rightarrow> user_account \<Rightarrow> bool) \<Rightarrow> 's source \<Rightarrow> bool" where
  "observing session_at user_at f \<longleftrightarrow> (\<forall>s. session_at (snd (f s)) = session_at s \<and> user_at (snd (f s)) = user_at s)"

definition backed :: "('s \<Rightarrow> user_session \<Rightarrow> bool) \<Rightarrow> ('s \<Rightarrow> user_account \<Rightarrow> bool) \<Rightarrow> 's \<Rightarrow> http_context \<Rightarrow> bool" where
  "backed session_at user_at s ctx \<longleftrightarrow>
     session_at s (ctx_session ctx) \<and> user_at s (ctx_user ctx) \<and> acc_active (ctx_user ctx) \<and>
     acc_user_id (ctx_user ctx) = ses_user_id (ctx_session ctx) \<and> ses_revoked_at (ctx_session ctx) = None \<and>
     ses_audience (ctx_session ctx) = AudienceWeb \<and> ses_source_pairing (ctx_session ctx) = None"

context session_registry begin

lemma request_sound:
  assumes "wired intact evolves port (hb_sessions b)" "observing session_at user_at (hb_clock b)" "intact s"
    and "authenticate_request b (Some r) s = (Inr ctx, t)"
  shows "backed session_at user_at t ctx \<and>
    (\<exists>m bearer. method_of_text (upper (strip m)) \<noteq> None \<and> req_method r = PyStr m \<and>
       extract_bearer (hb_policy b) True (req_cookie r) = Inr (Some bearer) \<and>
       session_token_digest (boundary_hash b) (PyStr bearer) = Inr (ses_token_digest (ctx_session ctx)) \<and>
       ctx_csrf ctx = csrf_token (boundary_hash b) (hb_secret b) bearer \<and>
       (\<forall>k. method_of_text (upper (strip m)) = Some k \<and> unsafe_method k \<longrightarrow> req_csrf r = PyStr (ctx_csrf ctx)))"
proof -
  from assms(4) obtain m cookie supplied bearer x u s1 now where
    start: "request_values (Some r) = Inr (m, cookie, supplied)"
      "extract_bearer (hb_policy b) True cookie = Inr (Some bearer)"
    and au: "authenticate_session (hb_sessions b) (PyStr bearer) s = (Inr (x, u), s1)"
    and t: "t = snd (hb_clock b s1)" and ok: "authenticated_is_valid b x u bearer now"
    and csrf: "unsafe_method m \<longrightarrow> validate_csrf (boundary_hash b) (hb_secret b) bearer supplied = Inr ()"
    and ctx: "ctx = \<lparr>ctx_session = x, ctx_user = u, ctx_csrf = csrf_token (boundary_hash b) (hb_secret b) bearer\<rparr>"
    by (rule authenticate_request_Inr)
  note sound = authenticate_sound [OF assms(1,3) au]
  have "backed session_at user_at t ctx"
    using sound assms(2) t ok by (simp add: backed_def ctx observing_def authenticated_is_valid_def)
  moreover obtain k where k: "req_method r = PyStr k" "method_of_text (upper (strip k)) = Some m"
      "cookie = req_cookie r" "supplied = req_csrf r"
    using start(1) by (auto simp: request_values_def split: pyval.splits option.splits)
  ultimately show ?thesis
    using start(2) sound csrf by (auto simp: ctx validate_csrf_Inr)
qed

lemma request_keeps:
  assumes "wired intact evolves port (hb_sessions b)" "harmless (guarded intact evolves) (hb_clock b)"
  shows "keeps (guarded intact evolves) (authorize_application b request allowed)"
proof -
  have "keeps (guarded intact evolves) (current_time (hb_clock b))"
    using assms(2) by (auto simp: keeps_def harmless_def current_time_run split_beta current_time_def)
  then have "keeps (guarded intact evolves) (authenticate_request b request)"
    unfolding authenticate_request_def
    by (auto simp: split_beta intro!: guarded_rules authenticate_keeps [OF assms(1)])
  then show ?thesis
    unfolding authorize_application_def by (auto intro!: guarded_rules)
qed

end

text \<open>C33. The CSRF token decides: for a request of a modifying method that is admitted, the same request
  with another text in the place of the token is refused, as a CSRF rejection in all cases but
  one: a text of 43 characters that are not all ASCII makes \<^verbatim>\<open>hmac.compare_digest\<close> raise a
  \<^verbatim>\<open>TypeError\<close>, which is no \<^verbatim>\<open>HttpAuthError\<close> and has no HTTP status.\<close>

theorem csrf_token_decides:
  assumes "hashing_ok (boundary_hash b)" "authenticate_request b (Some r) s = (Inr ctx, t)"
    and "req_method r = PyStr m" "method_of_text (upper (strip m)) = Some k" "unsafe_method k"
  shows "authenticate_request b (Some (r\<lparr>req_csrf := PyStr supplied\<rparr>)) s =
    (if supplied = ctx_csrf ctx then Inr ctx
     else if length supplied = 43 \<and> \<not> ascii_text supplied then Inl HttpTypeError
     else Inl HttpCsrfRejected, t) \<and> http_status HttpTypeError = None"
proof -
  from assms(2) obtain m' cookie csrf bearer x u s1 now where
    start: "request_values (Some r) = Inr (m', cookie, csrf)"
      "extract_bearer (hb_policy b) True cookie = Inr (Some bearer)"
    and au: "authenticate_session (hb_sessions b) (PyStr bearer) s = (Inr (x, u), s1)"
    and cl: "utc (fst (hb_clock b s1)) = Inr now" "t = snd (hb_clock b s1)"
    and ok: "authenticated_is_valid b x u bearer now"
    and ctx: "ctx = \<lparr>ctx_session = x, ctx_user = u, ctx_csrf = csrf_token (boundary_hash b) (hb_secret b) bearer\<rparr>"
    by (rule authenticate_request_Inr)
  have vals: "request_values (Some (r\<lparr>req_csrf := PyStr supplied\<rparr>)) = Inr (k, cookie, PyStr supplied)"
    using start(1) assms(3,4) by (simp add: request_values_def)
  have time: "current_time (hb_clock b) s1 = (Inr (Some now), t)" using cl by (simp add: current_time_run)
  show ?thesis
    using vals start(2) au time ok assms(5)
    by (auto simp: authenticate_request_def bind_act_def lift_act_def try_act_def raise_act_def return_act_def ctx
        validate_csrf_cases [OF assms(1)])
qed

end
