(* ===== verification/Sqlite_Http.thy ===== *)
theory Sqlite_Http
  imports Http_Auth
begin

text \<open>
  The HTTP boundary on the SQLite storage: who stands behind an admitted request, that a login
  works in a browser, and that a logout ends it.
\<close>

definition sqlite_boundary ::
  "environment \<Rightarrow> int \<Rightarrow> nat list \<Rightarrow> cookie_policy \<Rightarrow> hashing \<Rightarrow> world http_boundary" where
  "sqlite_boundary e ttl secret policy h =
     \<lparr>hb_sessions = sqlite_session_service e ttl AudienceWeb h, hb_secret = secret, hb_policy = policy,
      hb_clock = tick_source (env_clock e)\<rparr>"

lemma sqlite_boundary_simps [simp]:
  "hb_sessions (sqlite_boundary e ttl secret policy h) = sqlite_session_service e ttl AudienceWeb h"
  "hb_secret (sqlite_boundary e ttl secret policy h) = secret"
  "hb_policy (sqlite_boundary e ttl secret policy h) = policy"
  "hb_clock (sqlite_boundary e ttl secret policy h) = tick_source (env_clock e)"
  by (simp_all add: sqlite_boundary_def)

lemma tick_source_observes: "observing session_in user_in (tick_source f)"
  by (simp add: observing_def tick_source_def session_in_def user_in_def fun_eq_iff)

text \<open>C3. Whoever passes is who the cookie says: when the boundary admits a request for some roles, then,
  whatever other processes did meanwhile, the database holds the session of the bearer in the
  cookie header, a web session that is not revoked, and its active owner, who has one of the
  roles; and a request with an unsafe method carried the CSRF token of that bearer.\<close>

theorem admitted_request_is_backed:
  assumes "honest e" "db_ok (w_db w)" "hashing_ok h"
    and "authorize_application (sqlite_boundary e ttl secret policy h) (Some r) (Roles roles) w = (Inr ctx, w')"
  shows "ctx_session ctx \<in> set (db_sessions (w_db w')) \<and> ctx_user ctx \<in> set (db_users (w_db w')) \<and>
    acc_user_id (ctx_user ctx) = ses_user_id (ctx_session ctx) \<and> acc_active (ctx_user ctx) \<and>
    role_text (acc_role (ctx_user ctx)) \<in> set roles \<and> acc_role (ctx_user ctx) \<noteq> RolePending \<and>
    ses_revoked_at (ctx_session ctx) = None \<and> ses_audience (ctx_session ctx) = AudienceWeb \<and>
    (\<exists>m bearer. req_method r = PyStr m \<and> extract_bearer policy True (req_cookie r) = Inr (Some bearer) \<and>
       session_token_digest h (PyStr bearer) = Inr (ses_token_digest (ctx_session ctx)) \<and>
       (\<forall>k. method_of_text (upper (strip m)) = Some k \<and> unsafe_method k \<longrightarrow>
          req_csrf r = PyStr (csrf_token h secret bearer)))"
proof -
  let ?b = "sqlite_boundary e ttl secret policy h"
  note inv = authorize_application_Inr [OF assms(4)]
  have wired: "wired (world_intact e) world_evolves (sqlite_session_port e) (hb_sessions ?b)"
    using sqlite_service_wired [OF assms(3)] by simp
  have "observing session_in user_in (hb_clock ?b)" "world_intact e w"
    using tick_source_observes assms(1,2) by (simp_all add: world_intact_def)
  from sqlite_sessions.request_sound [OF wired this inv(1)] inv(2,3) show ?thesis
    by (auto simp: backed_def session_in_def user_in_def)
qed

section \<open>A login in a quiet environment\<close>

lemma quiet_issue:
  assumes q: "quiet e c" and ok: "db_ok (w_db w)" and h: "hashing_ok h"
    and u: "u \<in> set (db_users (w_db w))" "acc_active u"
    and tok: "env_token e (w_tick w + 2) = PyStr t" "session_token_digest h (PyStr t) = Inr digest"
      "digest \<notin> ses_token_digest ` set (db_sessions (w_db w))"
    and sid: "env_identifier e (w_tick w + 3) = PyStr i" "generated_text 1 (PyStr i) = Inr i"
      "i \<notin> ses_session_id ` set (db_sessions (w_db w))"
    and ttl: "0 < ttl" "representable (c (w_tick w + 1) + ttl)"
    and x: "x = \<lparr>ses_session_id = i, ses_user_id = acc_user_id u, ses_token_digest = digest,
      ses_created_at = c (w_tick w + 1), ses_expires_at = c (w_tick w + 1) + ttl, ses_last_seen_at = c (w_tick w + 1),
      ses_revoked_at = None, ses_audience = AudienceWeb, ses_source_pairing = None\<rparr>"
  shows "issue_session (sqlite_session_service e ttl AudienceWeb h) (acc_user_id u) w =
    (Inr (x, PyStr t), \<lparr>w_db = (w_db w)\<lparr>db_sessions := db_sessions (w_db w) @ [x]\<rparr>, w_tick = w_tick w + 5\<rparr>)"
    and "db_ok ((w_db w)\<lparr>db_sessions := db_sessions (w_db w) @ [x]\<rparr>)"
proof -
  let ?d = "(w_db w)\<lparr>db_sessions := db_sessions (w_db w) @ [x]\<rparr>"
  have "clean_text (acc_user_id u)" using ok u(1) by (auto simp: ok_defs valid_user_def)
  moreover have "clean_text i" using generated_text_clean [OF sid(2)] by simp
  moreover have "valid_digest session_digest_algorithms digest" by (rule session_token_digest_valid [OF h tok(2)])
  ultimately have valid: "valid_session x"
    using ttl quiet_times(1) [OF q] by (simp add: x valid_session_def optional_clean_def)
  then have make: "make_user_session (PyStr i) (PyStr (acc_user_id u)) (PyStr digest) (utc_datetime (c (w_tick w + 1)))
      (utc_datetime (c (w_tick w + 1) + ttl)) (utc_datetime (c (w_tick w + 1))) PyNone (PyStr (audience_text AudienceWeb)) PyNone = Inr x"
    using rebuild_session_eq [of x] by (simp add: rebuild_session_def x)
  have ins: "insert_session x (w_db w) = Inr ?d"
    using valid_session_check [OF valid] u(1) tok(3) sid(3)
    by (auto simp: insert_session_Inr x user_exists_def session_correlated_def list_ex_iff)
  then show "db_ok ?d" by (rule db_ok_insert_session [OF ok valid])
  have create: "create_session_for_active_user x (acc_updated_at u) (w_db w) = (Inr (), ?d)"
    using u ins by (auto simp: create_session_for_active_user_def transaction_iff user_at_revision_def list_ex_iff x)
  have user: "uncaught (sp_read_user (sqlite_session_port e) (acc_user_id u)) w = (Inr (Some u), w\<lparr>w_tick := Suc (w_tick w)\<rparr>)"
    by (rule uncaught_values) (simp add: sqlite_session_port_def quiet_call [OF q] read_row_exact(1) [OF ok u(1)])
  have make': "sp_create_session (sqlite_session_port e) x (acc_updated_at u) (w\<lparr>w_tick := w_tick w + 4\<rparr>) =
      (Inr (), \<lparr>w_db = ?d, w_tick = w_tick w + 5\<rparr>)"
    using create by (simp add: sqlite_session_port_def quiet_call [OF q])
  show "issue_session (sqlite_session_service e ttl AudienceWeb h) (acc_user_id u) w =
    (Inr (x, PyStr t), \<lparr>w_db = ?d, w_tick = w_tick w + 5\<rparr>)"
    using user quiet_clock [OF q, of "w\<lparr>w_tick := Suc (w_tick w)\<rparr>"] u(2) tok(1,2) sid(1,2) ttl(2) make make'
    by (simp add: issue_session_def lift_identity_def lift_act_def require_active_account_def max_attempts_def
        numeral_eq_Suc draw_def tick_source_def plus_duration_def bind_act_def try_act_def return_act_def)
qed

text \<open>A bearer is accepted in a world: the service answers, and the boundary finds nothing wrong.\<close>

definition accepted ::
  "world http_boundary \<Rightarrow> string \<Rightarrow> world \<Rightarrow> user_session \<Rightarrow> user_account \<Rightarrow> instant \<Rightarrow> identity_db \<Rightarrow> bool" where
  "accepted b t w s u now d \<longleftrightarrow>
     authenticate_session (hb_sessions b) (PyStr t) w = (Inr (s, u), \<lparr>w_db = d, w_tick = w_tick w + 4\<rparr>) \<and>
     current_time (hb_clock b) \<lparr>w_db = d, w_tick = w_tick w + 4\<rparr> =
       (Inr (Some now), \<lparr>w_db = d, w_tick = w_tick w + 5\<rparr>) \<and>
     authenticated_is_valid b s u t now \<and> db_ok d \<and> s \<in> set (db_sessions d) \<and> u \<in> set (db_users d)"

lemma quiet_accept:
  assumes q: "quiet e c" and ok: "db_ok (w_db w)" and h: "hashing_ok h"
    and b: "b = sqlite_boundary e ttl secret policy h"
    and u: "u \<in> set (db_users (w_db w))" "acc_user_id u = ses_user_id s" "acc_active u"
    and dg: "session_token_digest h (PyStr t) = Inr (ses_token_digest s)"
    and s: "s \<in> set (db_sessions (w_db w))" "ses_audience s = AudienceWeb" "ses_revoked_at s = None"
      "ses_last_seen_at s \<le> c (w_tick w + 1)" "c (w_tick w + 4) < ses_expires_at s"
    and age: "ses_expires_at s - ses_created_at s \<le> seconds (pol_max_age policy)"
    and s': "s' = s\<lparr>ses_last_seen_at := c (w_tick w + 3)\<rparr>" "now = c (w_tick w + 4)"
  shows "\<exists>d. accepted b t w s' u now d"
proof -
  have mono: "c (w_tick w + 3) \<le> c (w_tick w + 4)" "c (w_tick w + 1) \<le> c (w_tick w + 3)" using quiet_times(2) [OF q] by simp_all
  let ?d = "(w_db w)\<lparr>db_sessions := update_where (\<lambda>q. ses_session_id q = ses_session_id s)
        (\<lambda>q. q\<lparr>ses_last_seen_at := c (w_tick w + 3)\<rparr>) (db_sessions (w_db w))\<rparr>"
  have run: "authenticate_session (sqlite_session_service e ttl AudienceWeb h) (PyStr t) w =
      (Inr (s', u), \<lparr>w_db = ?d, w_tick = w_tick w + 4\<rparr>)"
    unfolding s'(1) using quiet_authenticate [OF q ok h dg s(1,2,3,4) _ u refl, of ttl] mono(1) s(5) by simp
  have "world_intact e \<lparr>w_db = ?d, w_tick = w_tick w + 4\<rparr>"
    using sqlite_accounts.guardedD [OF sqlite_sessions.authenticate_keeps [OF sqlite_service_wired [OF h]] run] ok
    by (simp add: world_intact_def quiet_honest [OF q])
  moreover have "valid_session s" using ok s(1) by (simp add: ok_defs)
  moreover have "authenticated_is_valid b s' u t (c (w_tick w + 4))"
  proof -
    have "ses_source_pairing s = None" "ses_created_at s \<le> ses_last_seen_at s"
      using \<open>valid_session s\<close> s(2) by (simp_all add: valid_session_def)
    then show ?thesis using s u age mono dg by (simp add: b s'(1) authenticated_is_valid_def)
  qed
  moreover have "s' \<in> set (db_sessions ?d)" using s(1) by (auto simp: s'(1) set_update_where)
  moreover have "current_time (hb_clock b) \<lparr>w_db = ?d, w_tick = w_tick w + 4\<rparr> =
      (Inr (Some (c (w_tick w + 4))), \<lparr>w_db = ?d, w_tick = w_tick w + 5\<rparr>)"
    using q by (simp add: b current_time_run tick_source_def quiet_def utc_def utc_datetime_def)
  ultimately have "accepted b t w s' u now ?d" using run u(1) by (simp add: accepted_def b s'(2) world_intact_def)
  then show ?thesis ..
qed

lemma bearer_digest:
  assumes "cookie_bearer t" "length t \<le> 512"
  shows "session_token_digest h (PyStr t) = Inr (''sha256:'' @ sha256_hex h t)"
proof -
  have "list_all plain_char t" using assms(1) by (simp add: cookie_bearer_def plain_values)
  then have "strip t = t" "\<not> list_ex is_control t"
    using plain_strip(1) by (auto simp: list_all_iff list_ex_iff plain_char_def)
  then show ?thesis using assms by (auto simp: session_token_digest_def credential_text_def cookie_bearer_def)
qed

text \<open>C4. Logging in works in a browser: for an active user of an application role, with a fresh token and
  identifier and clocks that do not run backwards, a lifetime that the cookie policy covers and
  that is not over yet, as long as no other process interferes, a login returns a session; and a write request of any method that sends back the cookie beside
  other cookies, and the CSRF token, is admitted as that user for that role.\<close>

theorem browser_login_works:
  assumes q: "quiet e c" and ok: "db_ok (w_db w)" and h: "hashing_ok h" and p: "valid_policy policy"
    and u: "u \<in> set (db_users (w_db w))" "acc_active u" "acc_role u \<noteq> RolePending"
    and tok: "env_token e (w_tick w + 2) = PyStr t" "cookie_bearer t" "length t \<le> 512"
      "''sha256:'' @ sha256_hex h t \<notin> ses_token_digest ` set (db_sessions (w_db w))"
    and sid: "env_identifier e (w_tick w + 3) = PyStr i" "generated_text 1 (PyStr i) = Inr i"
      "i \<notin> ses_session_id ` set (db_sessions (w_db w))"
    and ttl: "ttl \<le> seconds (pol_max_age policy)" "representable (c (w_tick w + 1) + ttl)"
      "c (w_tick w + 14) + 1000000 \<le> c (w_tick w + 1) + ttl"
    and others: "list_all (other_cookie policy) before" "list_all (other_cookie policy) after"
    and header: "header = cookie_header (before @ (pol_name policy, t) # after)"
      "int (length header) \<le> pol_max_header policy"
    and pair: "int (length (cookie_text (pol_name policy, t))) \<le> pol_max_header policy"
    and m: "method_of_text (upper (strip m)) = Some k"
    and b: "b = sqlite_boundary e ttl secret policy h"
  shows "\<exists>est w1 ctx w2. establish_session b (acc_user_id u) PyNone w = (Inr est, w1) \<and>
    fst (partition_at (CHR '';'') (est_set_cookie est)) = cookie_text (pol_name policy, t) \<and>
    authorize_application b (Some \<lparr>req_method = PyStr m, req_cookie = PyStr header,
      req_csrf = PyStr (ctx_csrf (est_context est))\<rparr>) (Roles [role_text (acc_role u)]) w1 = (Inr ctx, w2) \<and>
    ctx_user ctx = u"
proof -
  let ?n = "w_tick w" and ?dg = "''sha256:'' @ sha256_hex h t"
  have dg: "session_token_digest h (PyStr t) = Inr ?dg" by (rule bearer_digest [OF tok(2,3)])
  have mono: "\<And>j k. j \<le> k \<Longrightarrow> c j \<le> c k" using quiet_times(2) [OF q] .
  have late: "c (?n + 9) \<le> c (?n + 14)" "c (?n + 1) \<le> c (?n + 9)" by (simp_all add: mono)
  have pos: "0 < ttl" using ttl(3) late by linarith
  obtain x where x: "x = \<lparr>ses_session_id = i, ses_user_id = acc_user_id u, ses_token_digest = ?dg,
      ses_created_at = c (?n + 1), ses_expires_at = c (?n + 1) + ttl, ses_last_seen_at = c (?n + 1),
      ses_revoked_at = None, ses_audience = AudienceWeb, ses_source_pairing = None\<rparr>" by simp
  let ?w5 = "\<lparr>w_db = (w_db w)\<lparr>db_sessions := db_sessions (w_db w) @ [x]\<rparr>, w_tick = ?n + 5\<rparr>"
  note issue = quiet_issue [OF q ok h u(1,2) tok(1) dg tok(4) sid pos ttl(2) x]
  let ?x1 = "x\<lparr>ses_last_seen_at := c (?n + 8)\<rparr>" and ?x2 = "x\<lparr>ses_last_seen_at := c (?n + 13)\<rparr>"
  have xf: "ses_user_id x = acc_user_id u" "ses_token_digest x = ?dg" "ses_audience x = AudienceWeb"
    "ses_revoked_at x = None" "ses_last_seen_at x = c (?n + 1)" "ses_created_at x = c (?n + 1)"
    "ses_expires_at x = c (?n + 1) + ttl" "ses_source_pairing x = None"
    by (simp_all add: x)
  have times: "c (?n + 1) \<le> c (?n + 6)" "c (?n + 8) \<le> c (?n + 11)" by (simp_all add: mono)
  have "\<exists>d. accepted b t ?w5 ?x1 u (c (?n + 9)) d"
    by (rule quiet_accept [OF q _ h b, where s = x]) (use issue(2) dg u xf late ttl(1,3) times in \<open>simp_all add: add.commute\<close>)
  then obtain d1 where au1: "authenticate_session (hb_sessions b) (PyStr t) ?w5 = (Inr (?x1, u), \<lparr>w_db = d1, w_tick = ?n + 9\<rparr>)"
    and d1: "db_ok d1" "?x1 \<in> set (db_sessions d1)" "u \<in> set (db_users d1)"
    and cl1: "current_time (hb_clock b) \<lparr>w_db = d1, w_tick = ?n + 9\<rparr> =
        (Inr (Some (c (?n + 9))), \<lparr>w_db = d1, w_tick = ?n + 10\<rparr>)"
    and va1: "authenticated_is_valid b ?x1 u t (c (?n + 9))"
    by (auto simp: accepted_def add.commute)
  let ?w10 = "\<lparr>w_db = d1, w_tick = ?n + 10\<rparr>"
  obtain cookie where cookie: "session_cookie policy t x (Some (c (?n + 9))) = Inr cookie"
    using ttl(3) late by (simp add: session_cookie_def x)
  let ?est = "\<lparr>est_context = \<lparr>ctx_session = ?x1, ctx_user = u,
      ctx_csrf = csrf_token h secret t\<rparr>, est_set_cookie = cookie\<rparr>"
  have "utf8_length (cookie_text (pol_name policy, t)) = length (cookie_text (pol_name policy, t))"
    by (rule plain_utf8_length [OF pair_plain [OF p tok(2)]])
  then have valid: "issued_is_valid b x (PyStr t)"
    using tok(2) ttl(1) pos dg pair by (simp add: issued_is_valid_def b xf cookie_text_def)
  have "authenticated_matches_issued b ?x1 u x t (Some (c (?n + 9))) (acc_user_id u)"
    using va1 by (simp add: authenticated_matches_issued_def xf)
  then have est: "establish_session b (acc_user_id u) PyNone w = (Inr ?est, ?w10)"
    using issue(1) valid au1 cl1 cookie
    by (simp add: establish_session_def rotate_session_def established_result_def b bind_act_def return_act_def try_act_def)
  have "\<exists>d. accepted b t ?w10 ?x2 u (c (?n + 14)) d"
    by (rule quiet_accept [OF q _ h b, where s = ?x1]) (use d1 dg u xf late ttl(1,3) times in \<open>simp_all add: add.commute\<close>)
  then obtain d2 where au2: "authenticate_session (hb_sessions b) (PyStr t) ?w10 = (Inr (?x2, u), \<lparr>w_db = d2, w_tick = ?n + 14\<rparr>)"
    and cl2: "current_time (hb_clock b) \<lparr>w_db = d2, w_tick = ?n + 14\<rparr> =
        (Inr (Some (c (?n + 14))), \<lparr>w_db = d2, w_tick = ?n + 15\<rparr>)"
    and va2: "authenticated_is_valid b ?x2 u t (c (?n + 14))"
    by (auto simp: accepted_def add.commute)
  have csrf: "validate_csrf h secret t (PyStr (csrf_token h secret t)) = Inr ()" by (simp add: validate_csrf_Inr)
  have "authorize_application b (Some \<lparr>req_method = PyStr m, req_cookie = PyStr header,
      req_csrf = PyStr (ctx_csrf (est_context ?est))\<rparr>) (Roles [role_text (acc_role u)]) ?w10 =
    (Inr \<lparr>ctx_session = ?x2, ctx_user = u, ctx_csrf = csrf_token h secret t\<rparr>,
     \<lparr>w_db = d2, w_tick = ?n + 15\<rparr>)"
    using header_extract [OF p tok(2) others header] m au2 cl2 va2 csrf u(3)
    by (cases "acc_role u")
      (simp_all add: authorize_application_def authenticate_request_def application_roles_def request_values_def
        bind_act_def lift_act_def try_act_def return_act_def b)
  with est set_cookie_pair [OF p tok(2) cookie] show ?thesis by auto
qed

text \<open>C7. A logout ends the session of the browser: once it has answered that it revoked the session, every
  request whose header carries the same bearer is refused, as long as no other process
  interferes, and the answer makes the browser forget the cookie.\<close>

theorem logout_ends_access:
  assumes q: "quiet e c" and ok: "db_ok (w_db w)" and h: "hashing_ok h"
    and b: "b = sqlite_boundary e ttl secret policy h"
    and out: "logout_request b (Some r) w = (Inr out, w1)" "out_revoked out"
    and same: "extract_bearer policy True (req_cookie r') = extract_bearer policy True (req_cookie r)"
  shows "(\<exists>err w2. authenticate_request b (Some r') w1 = (Inl err, w2)) \<and> out_set_cookie out = clear_cookie policy"
proof -
  from out(1) obtain m supplied bearer where ex: "extract_bearer policy True (req_cookie r) = Inr (Some bearer)"
    and go: "try_act (authenticate_session (hb_sessions b) (PyStr bearer))
           (\<lambda>e. if credential_error e
                then return_act \<lparr>out_revoked = False, out_set_cookie = clear_cookie (hb_policy b)\<rparr>
                else raise_act HttpAuthUnavailable)
           (\<lambda>(x, u). bind_act (current_time (hb_clock b)) (\<lambda>now.
              if (case now of None \<Rightarrow> True | Some n \<Rightarrow> \<not> authenticated_is_valid b x u bearer n)
              then raise_act HttpAuthUnavailable
              else bind_act (lift_act (validate_csrf (boundary_hash b) (hb_secret b) bearer supplied)) (\<lambda>_.
                try_act (revoke_session (hb_sessions b) (PyStr bearer))
                  (\<lambda>_. raise_act HttpAuthUnavailable)
                  (\<lambda>revoked. return_act \<lparr>out_revoked = revoked, out_set_cookie = clear_cookie (hb_policy b)\<rparr>)))) w =
      (Inr out, w1)"
    by (auto simp: logout_request_def run_simps request_values_def b split: pyval.splits option.splits)
  from go out(2) obtain x u w2 w3 where au: "authenticate_session (hb_sessions b) (PyStr bearer) w = (Inr (x, u), w2)"
    and cl: "w3 = snd (hb_clock b w2)" and rv: "revoke_session (hb_sessions b) (PyStr bearer) w3 = (Inr True, w1)"
    and clear: "out_set_cookie out = clear_cookie policy"
    by (auto simp: run_simps current_time_run b split: if_splits option.splits)
  have "world_intact e w2"
    using sqlite_accounts.guardedD [OF sqlite_sessions.authenticate_keeps [OF sqlite_service_wired [OF h]] au [unfolded b, simplified]] ok
    by (simp add: world_intact_def quiet_honest [OF q])
  then have "db_ok (w_db w3)" by (simp add: cl b tick_source_def world_intact_def)
  from revoke_then_reject [OF q this h rv [unfolded b, simplified]]
  obtain err w4 where refused: "authenticate_session (hb_sessions b) (PyStr bearer) w1 = (Inl err, w4)"
    by (auto simp: b)
  have "\<exists>err w2. authenticate_request b (Some r') w1 = (Inl err, w2)"
  proof (cases "authenticate_request b (Some r') w1")
    case (Pair res w5)
    show ?thesis
    proof (cases res)
      case (Inr ctx)
      with Pair have "authenticate_request b (Some r') w1 = (Inr ctx, w5)" by simp
      then obtain m' cookie s' bearer' x' u' w6 now where
        "request_values (Some r') = Inr (m', cookie, s')" "extract_bearer policy True cookie = Inr (Some bearer')"
        "authenticate_session (hb_sessions b) (PyStr bearer') w1 = (Inr (x', u'), w6)"
        unfolding b by (elim authenticate_request_Inr) auto
      moreover from this(1) have "cookie = req_cookie r'"
        by (auto simp: request_values_def split: pyval.splits option.splits)
      ultimately show ?thesis using refused ex same by simp
    qed (use Pair in blast)
  qed
  with clear show ?thesis by blast
qed

end
