(* ===== verification/Dashboard_Access.thy ===== *)
theory Dashboard_Access
  imports Sqlite_Http
begin

text \<open>
  \<^verbatim>\<open>scripts/thebitlab_dashboard_auth.py\<close>: the HTTP boundary of theory \<open>Http_Auth\<close> admits a request, and a
  snapshot of the storage decides which classes, and of which student, the dashboard may show.
\<close>

section \<open>The boundary\<close>

text \<open>
  What the boundary raises: an exception of the HTTP boundary, its own
  \<^verbatim>\<open>DashboardAuthorizationUnavailableError\<close>, or what the constructor of a scope raises.
\<close>

datatype access_error = AccessHttp http_error | AccessUnavailable | AccessScope dashboard_error

type_synonym ('s, 'a) access_action = "('s, access_error, 'a) action"

record 's dashboard_port =
  dp_read_snapshot :: "string \<Rightarrow> instant \<Rightarrow> string option \<Rightarrow> ('s, dashboard_snapshot option) storage_call"

record 's dashboard_boundary =
  da_http :: "'s http_boundary"
  da_port :: "'s dashboard_port"

definition lift_http :: "('s, 'a) http_action \<Rightarrow> ('s, 'a) access_action" where
  "lift_http m = try_act m (\<lambda>e. raise_act (AccessHttp e)) return_act"

text \<open>The canonical copy of a snapshot that a storage returned.\<close>

definition rebuild_snapshot :: "dashboard_snapshot \<Rightarrow> (dashboard_error, dashboard_snapshot) result" where
  "rebuild_snapshot s =
     make_dashboard_snapshot (PyStr (dsh_actor_id s)) (PyStr (role_text (dsh_actor_role s)))
       (utc_datetime (dsh_actor_updated_at s)) (map PyStr (dsh_actor_classes s))
       (py_optional PyStr (dsh_target_id s)) (py_optional (\<lambda>r. PyStr (role_text r)) (dsh_target_role s))
       (map PyStr (dsh_target_classes s))"

definition checked_snapshot ::
  "'s dashboard_boundary \<Rightarrow> http_context \<Rightarrow> string option \<Rightarrow> ('s, dashboard_snapshot) access_action" where
  "checked_snapshot b ctx target =
     try_act (dp_read_snapshot (da_port b) (acc_user_id (ctx_user ctx)) (acc_updated_at (ctx_user ctx)) target)
       (\<lambda>_. raise_act AccessUnavailable)
       (\<lambda>found. case found of
          None \<Rightarrow> raise_act (AccessHttp HttpAuthorizationDenied)
        | Some s \<Rightarrow>
            (case rebuild_snapshot s of
               Inl _ \<Rightarrow> raise_act AccessUnavailable
             | Inr canonical \<Rightarrow>
                 if dsh_actor_id canonical \<noteq> acc_user_id (ctx_user ctx) \<or>
                    dsh_actor_role canonical \<noteq> acc_role (ctx_user ctx) \<or>
                    dsh_actor_updated_at canonical \<noteq> acc_updated_at (ctx_user ctx)
                 then raise_act AccessUnavailable
                 else return_act canonical))"

definition new_scope ::
  "dashboard_kind \<Rightarrow> dashboard_snapshot \<Rightarrow> string list \<Rightarrow> string option \<Rightarrow> bool \<Rightarrow> ('s, access_scope) access_action"
where
  "new_scope kind s classes student all_classes =
     lift_act (map_error AccessScope (make_access_scope kind (PyStr (dsh_actor_id s)) (dsh_actor_role s)
       (map PyStr classes) (py_optional PyStr student) all_classes))"

definition teacher_decision :: "dashboard_snapshot \<Rightarrow> ('s, access_scope) access_action" where
  "teacher_decision s =
     (if dsh_actor_role s = RoleAdmin then new_scope DashTeacher s [] None True
      else if dsh_actor_role s \<noteq> RoleTeacher \<or> dsh_actor_classes s = []
      then raise_act (AccessHttp HttpAuthorizationDenied)
      else new_scope DashTeacher s (dsh_actor_classes s) None False)"

definition authorize_teacher_dashboard ::
  "'s dashboard_boundary \<Rightarrow> http_request option \<Rightarrow> ('s, access_scope) access_action" where
  "authorize_teacher_dashboard b request =
     bind_act (lift_http (authorize_application (da_http b) request (Roles [''admin'', ''teacher'']))) (\<lambda>ctx.
     bind_act (checked_snapshot b ctx None) teacher_decision)"

text \<open>\<^verbatim>\<open>tuple(sorted(set(a) & set(b)))\<close>\<close>

definition shared_classes :: "string list \<Rightarrow> string list \<Rightarrow> string list" where
  "shared_classes a b = sort (remdups (filter (\<lambda>c. List.member b c) a))"

definition student_decision :: "string \<Rightarrow> dashboard_snapshot \<Rightarrow> ('s, access_scope) access_action" where
  "student_decision target s =
     (if (case dsh_target_id s of None \<Rightarrow> False | Some i \<Rightarrow> i \<noteq> target) then raise_act AccessUnavailable
      else if dsh_target_id s = None \<or> dsh_target_role s \<noteq> Some RoleStudent \<or> dsh_target_classes s = []
      then raise_act (AccessHttp HttpAuthorizationDenied)
      else bind_act
        (if dsh_actor_role s = RoleAdmin then return_act (dsh_target_classes s)
         else if dsh_actor_role s = RoleStudent then
           (if dsh_actor_id s \<noteq> target then raise_act (AccessHttp HttpAuthorizationDenied)
            else return_act (shared_classes (dsh_actor_classes s) (dsh_target_classes s)))
         else if dsh_actor_role s = RoleTeacher then
           return_act (shared_classes (dsh_actor_classes s) (dsh_target_classes s))
         else raise_act (AccessHttp HttpAuthorizationDenied)) (\<lambda>visible.
      if visible = [] then raise_act (AccessHttp HttpAuthorizationDenied)
      else new_scope DashStudent s visible (Some target) False))"

definition authorize_student_dashboard ::
  "'s dashboard_boundary \<Rightarrow> http_request option \<Rightarrow> pyval \<Rightarrow> ('s, access_scope) access_action" where
  "authorize_student_dashboard b request requested =
     bind_act (lift_http (authorize_application (da_http b) request
       (Roles [''admin'', ''teacher'', ''student'']))) (\<lambda>ctx.
     case dashboard_identifier requested of
       Inl _ \<Rightarrow> raise_act (AccessHttp HttpAuthorizationDenied)
     | Inr target \<Rightarrow>
         if acc_role (ctx_user ctx) = RoleStudent \<and> target \<noteq> acc_user_id (ctx_user ctx)
         then raise_act (AccessHttp HttpAuthorizationDenied)
         else bind_act (checked_snapshot b ctx (Some target)) (student_decision target))"

section \<open>Canonical snapshots\<close>

text \<open>A snapshot that satisfies its constructor, which rebuilding does not change.\<close>

definition valid_snapshot :: "dashboard_snapshot \<Rightarrow> bool" where
  "valid_snapshot s \<longleftrightarrow>
     clean_text (dsh_actor_id s) \<and> representable (dsh_actor_updated_at s) \<and>
     list_all clean_text (dsh_actor_classes s) \<and> sorted (dsh_actor_classes s) \<and> distinct (dsh_actor_classes s) \<and>
     list_all clean_text (dsh_target_classes s) \<and> sorted (dsh_target_classes s) \<and> distinct (dsh_target_classes s) \<and>
     optional_clean (dsh_target_id s) \<and> (dsh_target_id s = None \<longleftrightarrow> dsh_target_role s = None) \<and>
     (dsh_target_id s = None \<longrightarrow> dsh_target_classes s = [])"

lemma dashboard_identifier_clean: "dashboard_identifier v = Inr t \<Longrightarrow> clean_text t"
  by (simp add: dashboard_identifier_def required_text_clean)

lemma identifier_list_clean: "identifier_list vs = Inr ts \<Longrightarrow> list_all clean_text ts"
  by (induction vs arbitrary: ts) (auto simp: result_simps dest: dashboard_identifier_clean)

lemma class_id_tuple_clean:
  "class_id_tuple vs = Inr ts \<Longrightarrow> list_all clean_text ts \<and> sorted ts \<and> distinct ts"
  by (auto simp: class_id_tuple_def result_simps dest: identifier_list_clean split: if_splits)
    (metis sorted_sort, metis distinct_remdups distinct_sort)

lemma snapshot_valid: "make_dashboard_snapshot a b c d e f g = Inr s \<Longrightarrow> valid_snapshot s"
  by (auto simp: make_dashboard_snapshot_def valid_snapshot_def optional_clean_def result_simps dashboard_utc_def
      split: if_splits
      dest: dashboard_identifier_clean class_id_tuple_clean aware_datetime_representable)

lemma rebuild_snapshot_same: "valid_snapshot s \<Longrightarrow> rebuild_snapshot s = Inr s"
  by (cases "dsh_target_id s"; cases "dsh_target_role s")
    (auto simp: rebuild_snapshot_def make_dashboard_snapshot_def valid_snapshot_def optional_clean_def field_simps)

lemma shared_classes_facts:
  "set (shared_classes a b) = set a \<inter> set b" "sorted (shared_classes a b)" "distinct (shared_classes a b)"
  by (auto simp: shared_classes_def)

section \<open>The contract of the storage\<close>

text \<open>
  A snapshot tells the truth about the state it leaves: the actor at the revision asked for, the
  actor's active classes in the role of the actor, and of an active target the active classes
  as a student.
\<close>

locale dashboard_registry = session_registry intact evolves user_at port session_at
  for intact :: "'s \<Rightarrow> bool" and evolves :: "'s \<Rightarrow> 's \<Rightarrow> bool" and user_at :: "'s \<Rightarrow> user_account \<Rightarrow> bool"
    and port :: "'s session_port" and session_at :: "'s \<Rightarrow> user_session \<Rightarrow> bool" +
  fixes snapshots :: "'s dashboard_port"
    and classes_at :: "'s \<Rightarrow> string \<Rightarrow> user_role \<Rightarrow> string list"
  assumes snapshot_law: "intact s \<Longrightarrow> dp_read_snapshot snapshots i rvn target s = (Inr (Some x), t) \<Longrightarrow>
      valid_snapshot x \<and> dsh_actor_id x = i \<and>
      (\<exists>u. user_at t u \<and> acc_user_id u = i \<and> acc_active u \<and> acc_role u = dsh_actor_role x) \<and>
      dsh_actor_classes x = classes_at t i (dsh_actor_role x) \<and>
      (\<forall>j. dsh_target_id x = Some j \<longrightarrow> target = Some j \<and>
         (\<exists>v. user_at t v \<and> acc_user_id v = j \<and> acc_active v \<and> dsh_target_role x = Some (acc_role v)) \<and>
         dsh_target_classes x = classes_at t j RoleStudent)"

text \<open>What a scope promises of the state it was granted in.\<close>

definition teacher_scope ::
  "('s \<Rightarrow> user_account \<Rightarrow> bool) \<Rightarrow> ('s \<Rightarrow> string \<Rightarrow> user_role \<Rightarrow> string list) \<Rightarrow> 's \<Rightarrow> access_scope \<Rightarrow> bool" where
  "teacher_scope user_at classes_at s x \<longleftrightarrow>
     scp_dashboard x = DashTeacher \<and> scp_student_id x = None \<and>
     (\<exists>u. user_at s u \<and> acc_user_id u = scp_actor_id x \<and> acc_active u \<and> acc_role u = scp_actor_role x) \<and>
     (scp_actor_role x = RoleAdmin \<and> scp_all_classes x \<and> scp_class_ids x = [] \<or>
      scp_actor_role x = RoleTeacher \<and> \<not> scp_all_classes x \<and> scp_class_ids x \<noteq> [] \<and>
        scp_class_ids x = classes_at s (scp_actor_id x) RoleTeacher)"

definition student_scope ::
  "('s \<Rightarrow> user_account \<Rightarrow> bool) \<Rightarrow> ('s \<Rightarrow> string \<Rightarrow> user_role \<Rightarrow> string list) \<Rightarrow> 's \<Rightarrow> access_scope \<Rightarrow> bool" where
  "student_scope user_at classes_at s x \<longleftrightarrow>
     scp_dashboard x = DashStudent \<and> \<not> scp_all_classes x \<and> scp_class_ids x \<noteq> [] \<and>
     (\<exists>u. user_at s u \<and> acc_user_id u = scp_actor_id x \<and> acc_active u \<and> acc_role u = scp_actor_role x) \<and>
     (\<exists>j v. scp_student_id x = Some j \<and> user_at s v \<and> acc_user_id v = j \<and> acc_active v \<and> acc_role v = RoleStudent \<and>
        (if scp_actor_role x = RoleAdmin then scp_class_ids x = classes_at s j RoleStudent
         else set (scp_class_ids x) = set (classes_at s (scp_actor_id x) (scp_actor_role x)) \<inter> set (classes_at s j RoleStudent)) \<and>
        (scp_actor_role x = RoleStudent \<longrightarrow> scp_actor_id x = j) \<and>
        scp_actor_role x \<noteq> RolePending)"

lemma checked_snapshot_Inr:
  assumes "checked_snapshot b ctx target s = (Inr x, t)"
  shows "\<exists>y. dp_read_snapshot (da_port b) (acc_user_id (ctx_user ctx)) (acc_updated_at (ctx_user ctx)) target s = (Inr (Some y), t) \<and>
    rebuild_snapshot y = Inr x"
proof (cases "dp_read_snapshot (da_port b) (acc_user_id (ctx_user ctx)) (acc_updated_at (ctx_user ctx)) target s")
  case (Pair found u)
  with assms obtain y where y: "found = Inr (Some y)"
    by (auto simp: checked_snapshot_def try_act_def split: sum.splits option.splits)
  with assms Pair show ?thesis
    by (cases "rebuild_snapshot y") (auto simp: checked_snapshot_def try_act_def if_act)
qed

lemma scope_fields:
  assumes "make_access_scope kind (PyStr i) role (map PyStr cs) (py_optional PyStr student) allc = Inr x"
    and "clean_text i" "list_all clean_text cs" "sorted cs" "distinct cs" "optional_clean student"
  shows "x = \<lparr>scp_dashboard = kind, scp_actor_id = i, scp_actor_role = role, scp_class_ids = cs,
    scp_student_id = student, scp_all_classes = allc\<rparr>"
  using assms by (cases student) (auto simp: make_access_scope_def optional_clean_def field_simps split: if_splits)

lemma lift_http_Inr: "lift_http m s = (Inr x, t) \<longleftrightarrow> m s = (Inr x, t)"
  by (auto simp: lift_http_def try_act_iff)

lemma new_scope_Inr:
  assumes "new_scope kind y cs student allc s = (Inr x, t)" "valid_snapshot y"
    "list_all clean_text cs" "sorted cs" "distinct cs" "optional_clean student"
  shows "x = \<lparr>scp_dashboard = kind, scp_actor_id = dsh_actor_id y, scp_actor_role = dsh_actor_role y,
    scp_class_ids = cs, scp_student_id = student, scp_all_classes = allc\<rparr> \<and> t = s"
  using assms scope_fields [of kind "dsh_actor_id y" "dsh_actor_role y" cs student allc x]
  by (auto simp: new_scope_def valid_snapshot_def)

context dashboard_registry begin

lemma snapshot_sound:
  assumes "da_port b = snapshots" "intact s" "checked_snapshot b ctx target s = (Inr x, t)"
  shows "valid_snapshot x \<and> (\<exists>u. user_at t u \<and> acc_user_id u = dsh_actor_id x \<and> acc_active u \<and> acc_role u = dsh_actor_role x) \<and>
      dsh_actor_classes x = classes_at t (dsh_actor_id x) (dsh_actor_role x) \<and>
      (\<forall>j. dsh_target_id x = Some j \<longrightarrow>
         (\<exists>v. user_at t v \<and> acc_user_id v = j \<and> acc_active v \<and> dsh_target_role x = Some (acc_role v)) \<and>
         dsh_target_classes x = classes_at t j RoleStudent)"
proof -
  from checked_snapshot_Inr [OF assms(3)] obtain y where
    rd: "dp_read_snapshot snapshots (acc_user_id (ctx_user ctx)) (acc_updated_at (ctx_user ctx)) target s = (Inr (Some y), t)"
    and re: "rebuild_snapshot y = Inr x"
    using assms(1) by auto
  note law = snapshot_law [OF assms(2) rd]
  then have "x = y" using re rebuild_snapshot_same [of y] by simp
  with law show ?thesis by simp
qed

lemma teacher_sound:
  assumes "da_port b = snapshots" "wired intact evolves port (hb_sessions (da_http b))"
    "harmless (guarded intact evolves) (hb_clock (da_http b))" "intact s"
    and "authorize_teacher_dashboard b r s = (Inr x, t)"
  shows "teacher_scope user_at classes_at t x"
proof -
  from assms(5) obtain ctx y s1 s2 where
    rq: "authorize_application (da_http b) r (Roles [''admin'', ''teacher'']) s = (Inr ctx, s1)"
    and sn: "checked_snapshot b ctx None s1 = (Inr y, s2)" and de: "teacher_decision y s2 = (Inr x, t)"
    by (auto simp: authorize_teacher_dashboard_def bind_act_Inr lift_http_Inr)
  have "intact s1" using guardedD [OF request_keeps [OF assms(2,3)] rq assms(4)] by blast
  note snap = snapshot_sound [OF assms(1) this sn]
  then have "valid_snapshot y" by (rule conjunct1)
  then have y: "valid_snapshot y" "list_all clean_text (dsh_actor_classes y)" "sorted (dsh_actor_classes y)"
    "distinct (dsh_actor_classes y)"
    by (simp_all add: valid_snapshot_def)
  have scope: "dsh_actor_role y = RoleAdmin \<and> new_scope DashTeacher y [] None True s2 = (Inr x, t) \<or>
    dsh_actor_role y = RoleTeacher \<and> dsh_actor_classes y \<noteq> [] \<and>
      new_scope DashTeacher y (dsh_actor_classes y) None False s2 = (Inr x, t)"
    using de by (auto simp: teacher_decision_def split: if_splits)
  from this show ?thesis
  proof (elim disjE conjE)
    assume "new_scope DashTeacher y [] None True s2 = (Inr x, t)" "dsh_actor_role y = RoleAdmin"
    with snap new_scope_Inr [OF this(1) y(1)] show ?thesis by (auto simp: teacher_scope_def optional_clean_def)
  next
    assume "new_scope DashTeacher y (dsh_actor_classes y) None False s2 = (Inr x, t)" "dsh_actor_role y = RoleTeacher"
      "dsh_actor_classes y \<noteq> []"
    with snap new_scope_Inr [OF this(1) y] show ?thesis by (auto simp: teacher_scope_def optional_clean_def)
  qed
qed

lemma student_sound:
  assumes "da_port b = snapshots" "wired intact evolves port (hb_sessions (da_http b))"
    "harmless (guarded intact evolves) (hb_clock (da_http b))" "intact s"
    and "authorize_student_dashboard b r requested s = (Inr x, t)"
  shows "student_scope user_at classes_at t x \<and> dashboard_identifier requested = Inr (the (scp_student_id x))"
proof -
  from assms(5) obtain ctx target y s1 s2 where
    rq: "authorize_application (da_http b) r (Roles [''admin'', ''teacher'', ''student'']) s = (Inr ctx, s1)"
    and target: "dashboard_identifier requested = Inr target"
    and sn: "checked_snapshot b ctx (Some target) s1 = (Inr y, s2)" and de: "student_decision target y s2 = (Inr x, t)"
    by (cases "dashboard_identifier requested")
      (auto simp: authorize_student_dashboard_def bind_act_Inr lift_http_Inr if_act)
  have "intact s1" using guardedD [OF request_keeps [OF assms(2,3)] rq assms(4)] by blast
  note snap = snapshot_sound [OF assms(1) this sn]
  from de obtain visible s3 where found: "dsh_target_id y = Some target" "dsh_target_role y = Some RoleStudent"
      "visible \<noteq> []"
    and vis: "dsh_actor_role y = RoleAdmin \<and> visible = dsh_target_classes y \<or>
      dsh_actor_role y = RoleStudent \<and> dsh_actor_id y = target \<and>
        visible = shared_classes (dsh_actor_classes y) (dsh_target_classes y) \<or>
      dsh_actor_role y = RoleTeacher \<and> visible = shared_classes (dsh_actor_classes y) (dsh_target_classes y)"
    and sc: "new_scope DashStudent y visible (Some target) False s3 = (Inr x, t)" "s3 = s2"
    unfolding student_decision_def
    by (auto simp: bind_act_Inr if_act split: option.splits)
  have y: "valid_snapshot y" using snap by blast
  have "list_all clean_text visible \<and> sorted visible \<and> distinct visible"
    using vis y shared_classes_facts [of "dsh_actor_classes y" "dsh_target_classes y"]
    by (auto simp: valid_snapshot_def list_all_iff)
  then have x: "x = \<lparr>scp_dashboard = DashStudent, scp_actor_id = dsh_actor_id y, scp_actor_role = dsh_actor_role y,
      scp_class_ids = visible, scp_student_id = Some target, scp_all_classes = False\<rparr>" "t = s2"
    using new_scope_Inr [OF sc(1) y] dashboard_identifier_clean [OF target] sc(2) by (auto simp: optional_clean_def)
  have "student_scope user_at classes_at t x"
    using snap found vis shared_classes_facts(1) [of "dsh_actor_classes y" "dsh_target_classes y"]
    unfolding student_scope_def x by (auto; force)
  with target show ?thesis by (simp add: x)
qed

end

end
