(* ===== verification/Sqlite_Dashboard.thy ===== *)
theory Sqlite_Dashboard
  imports Dashboard_Access
begin

text \<open>
  The dashboard boundary on the SQLite storage: the contract of theory \<open>Dashboard_Access\<close> holds for
  \<^verbatim>\<open>read_dashboard_authorization_snapshot\<close>, and the decision is computed from the database.
\<close>

definition sqlite_dashboard_port :: "environment \<Rightarrow> world dashboard_port" where
  "sqlite_dashboard_port e =
     \<lparr>dp_read_snapshot = (\<lambda>i rvn target. call e (\<lambda>now. read_dashboard_snapshot i rvn target))\<rparr>"

definition sqlite_dashboard ::
  "environment \<Rightarrow> int \<Rightarrow> nat list \<Rightarrow> cookie_policy \<Rightarrow> hashing \<Rightarrow> world dashboard_boundary" where
  "sqlite_dashboard e ttl secret policy h =
     \<lparr>da_http = sqlite_boundary e ttl secret policy h, da_port = sqlite_dashboard_port e\<rparr>"

lemma sqlite_dashboard_simps [simp]:
  "da_http (sqlite_dashboard e ttl secret policy h) = sqlite_boundary e ttl secret policy h"
  "da_port (sqlite_dashboard e ttl secret policy h) = sqlite_dashboard_port e"
  by (simp_all add: sqlite_dashboard_def)

definition classes_in :: "world \<Rightarrow> string \<Rightarrow> user_role \<Rightarrow> string list" where
  "classes_in w i role = active_class_ids (w_db w) i (role_text role)"

section \<open>The snapshot of a database\<close>

lemma active_class_ids_facts:
  assumes "db_ok d"
  shows "list_all clean_text (active_class_ids d i role)" "sorted (active_class_ids d i role)"
    "distinct (active_class_ids d i role)"
proof -
  let ?P = "\<lambda>m. mem_user_id m = i \<and> member_text (mem_role m) = role \<and> class_open d (mem_class_id m)"
  have u: "unique_on mem_key (db_memberships d)" and v: "\<forall>m \<in> set (db_memberships d). valid_membership m"
    using assms by (auto simp: ok_defs)
  show "list_all clean_text (active_class_ids d i role)"
    using v by (auto simp: active_class_ids_def list_all_iff valid_membership_def)
  show "sorted (active_class_ids d i role)" by (simp add: active_class_ids_def)
  have "mem_role x = mem_role y" if "member_text (mem_role x) = member_text (mem_role y)" for x y
    using that by (metis member_of_member_text option.inject)
  then have "inj_on mem_class_id (set (filter ?P (db_memberships d)))"
    by (intro inj_onI) (rule unique_onD [OF u], auto simp: mem_key_def)
  moreover have "distinct (db_memberships d)" using u by (simp add: unique_on_def distinct_map)
  ultimately show "distinct (active_class_ids d i role)"
    by (simp add: active_class_ids_def distinct_map)
qed

lemma find_unique:
  assumes "unique_on key xs" "x \<in> set xs" "P x" "\<And>y. P y \<Longrightarrow> key y = key x"
  shows "find P xs = Some x"
proof (cases "find P xs")
  case None
  with assms(2,3) show ?thesis by (auto simp: find_None_iff)
next
  case (Some y)
  then have "y \<in> set xs" "P y" by (auto simp: find_Some_iff)
  then have "y = x" using unique_onD [OF assms(1)] assms(2,4) by blast
  with Some show ?thesis by simp
qed

definition target_row :: "identity_db \<Rightarrow> string option \<Rightarrow> user_account option" where
  "target_row d target =
     (case target of None \<Rightarrow> None | Some i \<Rightarrow> find (\<lambda>u. acc_user_id u = i \<and> acc_active u) (db_users d))"

definition true_snapshot :: "identity_db \<Rightarrow> user_account \<Rightarrow> string option \<Rightarrow> dashboard_snapshot" where
  "true_snapshot d u target =
     \<lparr>dsh_actor_id = acc_user_id u, dsh_actor_role = acc_role u, dsh_actor_updated_at = acc_updated_at u,
      dsh_actor_classes = active_class_ids d (acc_user_id u) (role_text (acc_role u)),
      dsh_target_id = map_option acc_user_id (target_row d target),
      dsh_target_role = map_option acc_role (target_row d target),
      dsh_target_classes = (case target_row d target of None \<Rightarrow> [] | Some v \<Rightarrow> active_class_ids d (acc_user_id v) ''student'')\<rparr>"

lemma target_row_Some: "target_row d target = Some v \<Longrightarrow>
    v \<in> set (db_users d) \<and> target = Some (acc_user_id v) \<and> acc_active v"
  by (auto simp: target_row_def find_Some_iff split: option.splits)

lemma snapshot_exact:
  assumes ok: "db_ok d" and u: "u \<in> set (db_users d)" "acc_active u"
  shows "read_dashboard_snapshot (acc_user_id u) (acc_updated_at u) target d = (Inr (Some (true_snapshot d u target)), d)"
    and "valid_snapshot (true_snapshot d u target)"
proof -
  have uniq: "unique_on acc_user_id (db_users d)" and valid: "\<And>v. v \<in> set (db_users d) \<Longrightarrow> valid_user v"
    using ok by (auto simp: ok_defs)
  have actor: "find (\<lambda>v. acc_user_id v = acc_user_id u \<and> acc_active v \<and> acc_updated_at v = acc_updated_at u) (db_users d) = Some u"
    using u by (intro find_unique [OF uniq]) auto
  have vu: "clean_text (acc_user_id u)" "representable (acc_updated_at u)" using valid [OF u(1)] by (simp_all add: valid_user_def)
  have vt: "clean_text (acc_user_id v)" if "target_row d target = Some v" for v
    using target_row_Some [OF that] valid by (auto simp: valid_user_def)
  note ids = active_class_ids_facts [OF ok]
  have make: "make_dashboard_snapshot (PyStr (acc_user_id u)) (PyStr (role_text (acc_role u))) (utc_datetime (acc_updated_at u))
      (map PyStr (active_class_ids d (acc_user_id u) (role_text (acc_role u))))
      (py_optional (\<lambda>u. PyStr (acc_user_id u)) (target_row d target))
      (py_optional (\<lambda>u. PyStr (role_text (acc_role u))) (target_row d target))
      (case target_row d target of None \<Rightarrow> [] | Some v \<Rightarrow> map PyStr (active_class_ids d (acc_user_id v) ''student'')) =
    Inr (true_snapshot d u target)"
    using vu ids vt by (cases "target_row d target")
      (simp_all add: make_dashboard_snapshot_def true_snapshot_def field_simps)
  then show "valid_snapshot (true_snapshot d u target)" by (rule snapshot_valid)
  show "read_dashboard_snapshot (acc_user_id u) (acc_updated_at u) target d = (Inr (Some (true_snapshot d u target)), d)"
    using make by (simp add: read_dashboard_snapshot_def actor target_row_def [symmetric])
qed

lemma snapshot_read:
  assumes "db_ok d" "read_dashboard_snapshot i rvn target d = (Inr (Some x), d')"
  shows "\<exists>u \<in> set (db_users d). acc_user_id u = i \<and> acc_active u \<and> acc_updated_at u = rvn \<and> x = true_snapshot d u target \<and> d' = d"
proof -
  from assms(2) obtain u where "find (\<lambda>u. acc_user_id u = i \<and> acc_active u \<and> acc_updated_at u = rvn) (db_users d) = Some u"
    by (auto simp: read_dashboard_snapshot_def split: option.splits)
  then have u: "u \<in> set (db_users d)" "acc_user_id u = i" "acc_active u" "acc_updated_at u = rvn"
    by (auto simp: find_Some_iff)
  with snapshot_exact [OF assms(1) u(1,3), of target] assms(2) show ?thesis by auto
qed

interpretation sqlite_dashboards:
  dashboard_registry "world_intact e" world_evolves user_in "sqlite_session_port e" session_in "sqlite_dashboard_port e" classes_in for e
proof unfold_locales
  fix w i rvn target x w'
  assume w: "world_intact e w"
    and rd: "dp_read_snapshot (sqlite_dashboard_port e) i rvn target w = (Inr (Some x), w')"
  from rd [unfolded sqlite_dashboard_port_def, simplified] w obtain d where
    "read_dashboard_snapshot i rvn target d = (Inr (Some x), w_db w')" and ok: "db_ok d"
    by (rule call_cases)
  from snapshot_read [OF ok this(1)] obtain u where u: "u \<in> set (db_users d)" "acc_user_id u = i" "acc_active u"
    and x: "x = true_snapshot d u target" and d: "w_db w' = d" by blast
  show "valid_snapshot x \<and> dsh_actor_id x = i \<and>
      (\<exists>u. user_in w' u \<and> acc_user_id u = i \<and> acc_active u \<and> acc_role u = dsh_actor_role x) \<and>
      dsh_actor_classes x = classes_in w' i (dsh_actor_role x) \<and>
      (\<forall>j. dsh_target_id x = Some j \<longrightarrow> target = Some j \<and>
         (\<exists>v. user_in w' v \<and> acc_user_id v = j \<and> acc_active v \<and> dsh_target_role x = Some (acc_role v)) \<and>
         dsh_target_classes x = classes_in w' j RoleStudent)"
    using u snapshot_exact(2) [OF ok u(1,3), of target] target_row_Some [of d target]
    by (auto simp: x true_snapshot_def user_in_def classes_in_def d)
qed

lemma sqlite_dashboard_wired:
  assumes "hashing_ok h"
  shows "wired (world_intact e) world_evolves (sqlite_session_port e) (hb_sessions (da_http (sqlite_dashboard e ttl secret policy h)))"
    "harmless (guarded (world_intact e) world_evolves) (hb_clock (da_http (sqlite_dashboard e ttl secret policy h)))"
  using sqlite_service_wired [OF assms] tick_source_harmless by simp_all

lemma classes_in_member:
  "c \<in> set (classes_in w i RoleTeacher) \<longleftrightarrow> class_open (w_db w) c \<and>
     (\<exists>m \<in> set (db_memberships (w_db w)). mem_key m = (i, c, MemberTeacher))"
  "c \<in> set (classes_in w i RoleStudent) \<longleftrightarrow> class_open (w_db w) c \<and> enrolled (w_db w) i c"
proof -
  have role: "member_text r = ''teacher'' \<longleftrightarrow> r = MemberTeacher" "member_text r = ''student'' \<longleftrightarrow> r = MemberStudent" for r
    by (cases r; simp)+
  show "c \<in> set (classes_in w i RoleTeacher) \<longleftrightarrow> class_open (w_db w) c \<and>
     (\<exists>m \<in> set (db_memberships (w_db w)). mem_key m = (i, c, MemberTeacher))"
    "c \<in> set (classes_in w i RoleStudent) \<longleftrightarrow> class_open (w_db w) c \<and> enrolled (w_db w) i c"
    by (auto simp: classes_in_def active_class_ids_def mem_key_def role enrolled_def list_ex_iff)
qed

text \<open>A teacher's dashboard shows the teacher's classes: whatever other processes do meanwhile, a granted
  request belongs to an active administrator, who gets all classes, or to an active teacher,
  who gets the active classes with a teacher membership of that teacher in the database the
  decision was made on, and at least one.\<close>

theorem teacher_dashboard_is_scoped:
  assumes "honest e" "db_ok (w_db w)" "hashing_ok h"
    and "authorize_teacher_dashboard (sqlite_dashboard e ttl secret policy h) r w = (Inr x, w')"
  shows "\<exists>u \<in> set (db_users (w_db w')). acc_user_id u = scp_actor_id x \<and> acc_active u \<and> scp_student_id x = None \<and>
    (acc_role u = RoleAdmin \<and> scp_all_classes x \<and> scp_class_ids x = [] \<or>
     acc_role u = RoleTeacher \<and> \<not> scp_all_classes x \<and> scp_class_ids x \<noteq> [] \<and>
       (\<forall>c. c \<in> set (scp_class_ids x) \<longleftrightarrow> class_open (w_db w') c \<and>
          (\<exists>m \<in> set (db_memberships (w_db w')). mem_key m = (acc_user_id u, c, MemberTeacher))))"
proof -
  have "world_intact e w" using assms(1,2) by (simp add: world_intact_def)
  from sqlite_dashboards.teacher_sound [OF _ sqlite_dashboard_wired [OF assms(3)] this assms(4)]
  have "teacher_scope user_in classes_in w' x" by simp
  then obtain u where "u \<in> set (db_users (w_db w'))" "acc_user_id u = scp_actor_id x" "acc_active u"
    "acc_role u = scp_actor_role x" "scp_student_id x = None"
    "scp_actor_role x = RoleAdmin \<and> scp_all_classes x \<and> scp_class_ids x = [] \<or>
      scp_actor_role x = RoleTeacher \<and> \<not> scp_all_classes x \<and> scp_class_ids x \<noteq> [] \<and>
        scp_class_ids x = classes_in w' (scp_actor_id x) RoleTeacher"
    unfolding teacher_scope_def user_in_def by blast
  then show ?thesis using classes_in_member(1) by (intro bexI [of _ u]) auto
qed

text \<open>C6. A student's dashboard shows shared classes only: a granted request for a student names an active
  student; an administrator sees the active classes the student is enrolled in, a teacher those
  of them where the teacher teaches, and a student only the own ones; never none.\<close>

theorem student_dashboard_is_scoped:
  assumes "honest e" "db_ok (w_db w)" "hashing_ok h"
    and "authorize_student_dashboard (sqlite_dashboard e ttl secret policy h) r requested w = (Inr x, w')"
  shows "\<exists>u \<in> set (db_users (w_db w')). \<exists>v \<in> set (db_users (w_db w')).
    acc_user_id u = scp_actor_id x \<and> acc_active u \<and> acc_role u \<noteq> RolePending \<and>
    scp_student_id x = Some (acc_user_id v) \<and> dashboard_identifier requested = Inr (acc_user_id v) \<and>
    acc_active v \<and> acc_role v = RoleStudent \<and> (acc_role u = RoleStudent \<longrightarrow> acc_user_id u = acc_user_id v) \<and>
    \<not> scp_all_classes x \<and> scp_class_ids x \<noteq> [] \<and>
    (\<forall>c \<in> set (scp_class_ids x). class_open (w_db w') c \<and> enrolled (w_db w') (acc_user_id v) c \<and>
       (acc_role u = RoleTeacher \<longrightarrow>
          (\<exists>m \<in> set (db_memberships (w_db w')). mem_key m = (acc_user_id u, c, MemberTeacher))))"
proof -
  have "world_intact e w" using assms(1,2) by (simp add: world_intact_def)
  from sqlite_dashboards.student_sound [OF _ sqlite_dashboard_wired [OF assms(3)] this assms(4)]
  have scope: "student_scope user_in classes_in w' x" and id: "dashboard_identifier requested = Inr (the (scp_student_id x))"
    by simp_all
  from scope obtain u j v where u: "u \<in> set (db_users (w_db w'))" "acc_user_id u = scp_actor_id x" "acc_active u"
      "acc_role u = scp_actor_role x"
    and v: "v \<in> set (db_users (w_db w'))" "scp_student_id x = Some j" "acc_user_id v = j" "acc_active v" "acc_role v = RoleStudent"
    and cs: "if scp_actor_role x = RoleAdmin then scp_class_ids x = classes_in w' j RoleStudent
         else set (scp_class_ids x) = set (classes_in w' (scp_actor_id x) (scp_actor_role x)) \<inter> set (classes_in w' j RoleStudent)"
    and own: "scp_actor_role x = RoleStudent \<longrightarrow> scp_actor_id x = j" "scp_actor_role x \<noteq> RolePending"
    and rest: "\<not> scp_all_classes x" "scp_class_ids x \<noteq> []"
    unfolding student_scope_def user_in_def by blast
  have "class_open (w_db w') c \<and> enrolled (w_db w') (acc_user_id v) c" if "c \<in> set (scp_class_ids x)" for c
    using cs that classes_in_member(2) v(3) by (auto split: if_splits)
  moreover have "\<exists>m \<in> set (db_memberships (w_db w')). mem_key m = (acc_user_id u, c, MemberTeacher)"
    if "c \<in> set (scp_class_ids x)" "acc_role u = RoleTeacher" for c
    using cs that u classes_in_member(1) by auto
  ultimately show ?thesis using u v own rest id by (intro bexI [OF _ u(1)] bexI [OF _ v(1)]) auto
qed

section \<open>The decision in a quiet environment\<close>

lemma student_decision_exact:
  assumes ok: "db_ok d" and u: "u \<in> set (db_users d)" "acc_active u" "acc_role u \<noteq> RolePending"
    and j: "clean_text j" and own: "acc_role u = RoleStudent \<longrightarrow> j = acc_user_id u"
    and visible: "visible = (if acc_role u = RoleAdmin then active_class_ids d j ''student''
        else shared_classes (active_class_ids d (acc_user_id u) (role_text (acc_role u))) (active_class_ids d j ''student''))"
  shows "student_decision j (true_snapshot d u (Some j)) s =
    (if (\<exists>v \<in> set (db_users d). acc_user_id v = j \<and> acc_active v \<and> acc_role v = RoleStudent) \<and> visible \<noteq> []
     then Inr \<lparr>scp_dashboard = DashStudent, scp_actor_id = acc_user_id u, scp_actor_role = acc_role u,
       scp_class_ids = visible, scp_student_id = Some j, scp_all_classes = False\<rparr>
     else Inl (AccessHttp HttpAuthorizationDenied), s)"
proof -
  have uniq: "unique_on acc_user_id (db_users d)" using ok by (simp add: ok_defs)
  have row: "target_row d (Some j) = Some v \<longleftrightarrow> v \<in> set (db_users d) \<and> acc_user_id v = j \<and> acc_active v" for v
    using find_unique [OF uniq, of v "\<lambda>u. acc_user_id u = j \<and> acc_active u"] target_row_Some [of d "Some j" v]
    by (auto simp: target_row_def)
  show ?thesis
  proof (cases "target_row d (Some j)")
    case None
    with row have "\<not> (\<exists>v \<in> set (db_users d). acc_user_id v = j \<and> acc_active v \<and> acc_role v = RoleStudent)"
      by fastforce
    with None show ?thesis by (auto simp: student_decision_def true_snapshot_def raise_act_def)
  next
    case (Some v)
    then have v: "v \<in> set (db_users d)" "acc_user_id v = j" "acc_active v" using row by simp_all
    then have role: "(\<exists>v \<in> set (db_users d). acc_user_id v = j \<and> acc_active v \<and> acc_role v = RoleStudent) \<longleftrightarrow> acc_role v = RoleStudent"
      using unique_onD [OF uniq] by metis
    note ids = active_class_ids_facts [OF ok]
    have "list_all clean_text visible \<and> sorted visible \<and> distinct visible"
      using ids shared_classes_facts [of "active_class_ids d (acc_user_id u) (role_text (acc_role u))" "active_class_ids d j ''student''"]
      by (auto simp: visible list_all_iff)
    moreover have "clean_text (acc_user_id u)" using ok u(1) by (auto simp: ok_defs valid_user_def)
    ultimately have make: "visible \<noteq> [] \<Longrightarrow> make_access_scope DashStudent (PyStr (acc_user_id u)) (acc_role u) (map PyStr visible)
        (PyStr j) False = Inr \<lparr>scp_dashboard = DashStudent, scp_actor_id = acc_user_id u, scp_actor_role = acc_role u,
          scp_class_ids = visible, scp_student_id = Some j, scp_all_classes = False\<rparr>"
      using j own u(3) by (simp add: make_access_scope_def field_simps)
    have none: "active_class_ids d j ''student'' = [] \<Longrightarrow> visible = []"
      by (simp add: visible shared_classes_def)
    show ?thesis
      using make none v role own u(3) Some
      by (cases "acc_role u")
        (auto simp: student_decision_def true_snapshot_def new_scope_def visible raise_act_def return_act_def
          bind_act_def lift_act_def)
  qed
qed

text \<open>The decision on a student's dashboard is exact: for an admitted request, as long as no other process
  interferes, it is granted exactly when the requested identifier is an active student, the
  actor if the actor is a student, and the classes both share (for an administrator, the
  classes of the student) are not empty; these are the classes of the scope. Otherwise the
  answer is the denial, and the database is not changed.\<close>

theorem student_dashboard_decided:
  assumes q: "quiet e c" and ok: "db_ok (w_db w)" and h: "hashing_ok h"
    and adm: "authorize_application (sqlite_boundary e ttl secret policy h) r
      (Roles [''admin'', ''teacher'', ''student'']) w = (Inr ctx, w1)"
    and j: "dashboard_identifier requested = Inr j"
    and u: "u = ctx_user ctx" and d: "d = w_db w1"
    and visible: "visible = (if acc_role u = RoleAdmin then active_class_ids d j ''student''
        else shared_classes (active_class_ids d (acc_user_id u) (role_text (acc_role u))) (active_class_ids d j ''student''))"
    and run: "run = authorize_student_dashboard (sqlite_dashboard e ttl secret policy h) r requested w"
  shows "fst run =
    (if (\<exists>v \<in> set (db_users d). acc_user_id v = j \<and> acc_active v \<and> acc_role v = RoleStudent) \<and>
        (acc_role u = RoleStudent \<longrightarrow> j = acc_user_id u) \<and> visible \<noteq> []
     then Inr \<lparr>scp_dashboard = DashStudent, scp_actor_id = acc_user_id u, scp_actor_role = acc_role u,
       scp_class_ids = visible, scp_student_id = Some j, scp_all_classes = False\<rparr>
     else Inl (AccessHttp HttpAuthorizationDenied)) \<and> w_db (snd run) = d"
proof -
  let ?b = "sqlite_boundary e ttl secret policy h"
  have w: "world_intact e w" using ok by (simp add: world_intact_def quiet_honest [OF q])
  note wired = sqlite_dashboard_wired [OF h, of e ttl secret policy, simplified]
  have "world_intact e w1"
    using sqlite_accounts.guardedD [OF sqlite_sessions.request_keeps [of e ?b] adm w] wired by simp
  then have okd: "db_ok d" by (simp add: d world_intact_def)
  note inv = authorize_application_Inr [OF adm]
  obtain r' where "r = Some r'" using inv(1) by (cases r) (auto simp: authenticate_request_def request_values_def action_simps)
  with sqlite_sessions.request_sound [of e ?b w r' ctx w1] wired inv(1) w tick_source_observes
  have uu: "u \<in> set (db_users d)" "acc_active u" by (auto simp: backed_def user_in_def u d)
  have role: "acc_role u \<noteq> RolePending" using inv(3) by (simp add: u)
  have jc: "clean_text j" using dashboard_identifier_clean [OF j] .
  have start: "lift_http (authorize_application ?b r (Roles [''admin'', ''teacher'', ''student''])) w = (Inr ctx, w1)"
    using adm by (simp add: lift_http_Inr)
  show ?thesis
  proof (cases "acc_role u = RoleStudent \<and> j \<noteq> acc_user_id u")
    case True
    then have "run = (Inl (AccessHttp HttpAuthorizationDenied), w1)"
      using start j by (simp add: run authorize_student_dashboard_def u [symmetric] raise_act_def)
    with True show ?thesis by (auto simp: d)
  next
    case False
    then have own: "acc_role u = RoleStudent \<longrightarrow> j = acc_user_id u" by blast
    have "dp_read_snapshot (sqlite_dashboard_port e) (acc_user_id u) (acc_updated_at u) (Some j) w1 =
        (Inr (Some (true_snapshot d u (Some j))), w1\<lparr>w_tick := Suc (w_tick w1)\<rparr>)"
      using snapshot_exact(1) [OF okd uu, of "Some j"] by (simp add: sqlite_dashboard_port_def quiet_call [OF q] d)
    then have "checked_snapshot (sqlite_dashboard e ttl secret policy h) ctx (Some j) w1 =
        (Inr (true_snapshot d u (Some j)), w1\<lparr>w_tick := Suc (w_tick w1)\<rparr>)"
      using rebuild_snapshot_same [OF snapshot_exact(2) [OF okd uu, of "Some j"]]
      by (simp add: checked_snapshot_def try_act_def return_act_def u [symmetric]) (simp add: true_snapshot_def)
    then have "run = student_decision j (true_snapshot d u (Some j)) (w1\<lparr>w_tick := Suc (w_tick w1)\<rparr>)"
      using start j False by (simp add: run authorize_student_dashboard_def u [symmetric] bind_act_def del: de_Morgan_conj)
    from this [unfolded student_decision_exact [OF okd uu role jc own visible]] own show ?thesis by (simp add: d)
  qed
qed

end
