(* ===== verification/Admin_Services.thy ===== *)
theory Admin_Services
  imports Auth_Sessions
begin

text \<open>
  The administrative services: \<^verbatim>\<open>AdminBootstrapService\<close> of \<^verbatim>\<open>scripts/thebitlab_admin_bootstrap.py\<close>, which
  makes the first administrator, and \<^verbatim>\<open>AdminProvisioningService\<close> of
  \<^verbatim>\<open>scripts/thebitlab_admin_provisioning.py\<close>, through which an administrator lists pending accounts,
  creates classes and approves accounts.
\<close>

section \<open>Exceptions\<close>

text \<open>
  \<open>AdminValue\<close> is the \<^verbatim>\<open>ValueError\<close> of a refused argument; \<open>AdminDomain\<close> is what the constructor of
  \<^verbatim>\<open>ClassGroup\<close> raises, and \<open>AdminOverflow\<close> what the conversion of a clock value to UTC raises, where the
  service has no handler.
\<close>

datatype admin_error =
    AdminBootstrapFailed
  | AdminProvisioningConflict
  | AdminValue
  | AdminDomain identity_error
  | AdminOverflow

type_synonym ('s, 'a) admin_action = "('s, admin_error, 'a) action"

section \<open>The storage protocols\<close>

record 's admin_port =
  ap_read_user :: "string \<Rightarrow> ('s, user_account option) storage_call"
  ap_bootstrap :: "string \<Rightarrow> instant \<Rightarrow> instant \<Rightarrow> ('s, user_account \<times> nat) storage_call"
  ap_snapshot :: "string \<Rightarrow> instant \<Rightarrow> int \<Rightarrow> ('s, user_account list \<times> class_group list) storage_call"
  ap_create_class :: "string \<Rightarrow> class_group \<Rightarrow> instant \<Rightarrow> ('s, unit) storage_call"
  ap_approve :: "string \<Rightarrow> string \<Rightarrow> string \<Rightarrow> string option \<Rightarrow> instant \<Rightarrow> instant \<Rightarrow> instant \<Rightarrow>
    ('s, user_account \<times> class_membership option \<times> nat) storage_call"

text \<open>Reading the clock, with the exception for a value that is no aware \<^verbatim>\<open>datetime\<close> and the one for
  a value that has no UTC counterpart.\<close>

definition admin_clock :: "'s source \<Rightarrow> admin_error \<Rightarrow> admin_error \<Rightarrow> ('s, instant) admin_action" where
  "admin_clock clock invalid overflow s =
     (case clock s of (v, t) \<Rightarrow>
        (map_error (\<lambda>e. if e = AuthOverflow then overflow else invalid) (utc v), t))"

text \<open>A storage call under \<^verbatim>\<open>except Exception\<close>.\<close>

definition shielded :: "admin_error \<Rightarrow> ('s, 'a) storage_call \<Rightarrow> ('s, 'a) admin_action" where
  "shielded e m = try_act m (\<lambda>_. raise_act e) return_act"

definition nonblank :: "pyval \<Rightarrow> string option" where
  "nonblank v = (case v of PyStr t \<Rightarrow> if strip t = [] then None else Some t | _ \<Rightarrow> None)"

section \<open>The bootstrap service\<close>

record 's bootstrap_service =
  bs_storage :: "'s admin_port"
  bs_clock :: "'s source"

definition bootstrap_admin :: "'s bootstrap_service \<Rightarrow> pyval \<Rightarrow> ('s, user_account \<times> nat) admin_action" where
  "bootstrap_admin srv target_user_id =
     (case nonblank target_user_id of
        None \<Rightarrow> raise_act AdminValue
      | Some i \<Rightarrow>
          bind_act (shielded AdminBootstrapFailed (ap_read_user (bs_storage srv) i)) (\<lambda>found.
          case found of
            None \<Rightarrow> raise_act AdminBootstrapFailed
          | Some target \<Rightarrow>
              if acc_role target \<noteq> RolePending \<or> \<not> acc_active target then raise_act AdminBootstrapFailed
              else bind_act (admin_clock (bs_clock srv) AdminBootstrapFailed AdminBootstrapFailed) (\<lambda>now.
              bind_act (shielded AdminBootstrapFailed
                (ap_bootstrap (bs_storage srv) (acc_user_id target) now (acc_updated_at target))) (\<lambda>(u, revoked).
              if acc_user_id u \<noteq> acc_user_id target \<or> acc_role u \<noteq> RoleAdmin \<or> \<not> acc_active u
              then raise_act AdminBootstrapFailed
              else return_act (u, revoked)))))"

section \<open>The provisioning service\<close>

record 's provisioning_service =
  ps_storage :: "'s admin_port"
  ps_clock :: "'s source"
  ps_maximum :: int

definition make_provisioning_service ::
  "'s admin_port \<Rightarrow> 's source \<Rightarrow> pyval \<Rightarrow> (admin_error, 's provisioning_service) result" where
  "make_provisioning_service storage clock maximum =
     (case maximum of
        PyInt n \<Rightarrow>
          if 1 \<le> n \<and> n \<le> 10000 then Inr \<lparr>ps_storage = storage, ps_clock = clock, ps_maximum = n\<rparr>
          else Inl AdminValue
      | _ \<Rightarrow> Inl AdminValue)"

text \<open>An actor is an account or, as \<open>None\<close>, an object of another class.\<close>

definition provisioning_snapshot ::
  "'s provisioning_service \<Rightarrow> user_account option \<Rightarrow> ('s, user_account list \<times> class_group list) admin_action" where
  "provisioning_snapshot srv actor =
     (case actor of
        None \<Rightarrow> raise_act AdminValue
      | Some a \<Rightarrow>
          bind_act (shielded AdminProvisioningConflict
            (ap_snapshot (ps_storage srv) (acc_user_id a) (acc_updated_at a) (ps_maximum srv))) (\<lambda>(users, classes).
          if list_ex (\<lambda>u. acc_role u \<noteq> RolePending) users then raise_act AdminProvisioningConflict
          else return_act (users, classes)))"

definition create_class_for_admin ::
  "'s provisioning_service \<Rightarrow> user_account option \<Rightarrow> pyval \<Rightarrow> pyval \<Rightarrow> pyval \<Rightarrow> ('s, class_group) admin_action" where
  "create_class_for_admin srv actor class_id label school_year =
     (case actor of
        None \<Rightarrow> raise_act AdminValue
      | Some a \<Rightarrow>
          bind_act (admin_clock (ps_clock srv) AdminProvisioningConflict AdminOverflow) (\<lambda>now.
          bind_act (lift_act (map_error AdminDomain
            (make_class_group class_id label school_year (PyBool True) (utc_datetime now) (utc_datetime now)))) (\<lambda>c.
          bind_act (shielded AdminProvisioningConflict
            (ap_create_class (ps_storage srv) (acc_user_id a) c (acc_updated_at a))) (\<lambda>_.
          return_act c))))"

text \<open>The arguments of an approval: the target, the role and the class.\<close>

definition approval_input :: "pyval \<Rightarrow> pyval \<Rightarrow> pyval \<Rightarrow> pyval \<Rightarrow> (admin_error, string \<times> string \<times> string option) result" where
  "approval_input target_user_id expected role class_id =
     (case nonblank target_user_id of
        None \<Rightarrow> Inl AdminValue
      | Some target \<Rightarrow>
          (case expected of
             PyDatetime _ _ \<Rightarrow>
               if role = PyStr ''student'' then
                 (case nonblank class_id of None \<Rightarrow> Inl AdminValue | Some c \<Rightarrow> Inr (target, ''student'', Some c))
               else if role = PyStr ''teacher'' then
                 (if class_id = PyNone then Inr (target, ''teacher'', None) else Inl AdminValue)
               else Inl AdminValue
           | _ \<Rightarrow> Inl AdminValue))"

definition approve_pending ::
  "'s provisioning_service \<Rightarrow> user_account option \<Rightarrow> pyval \<Rightarrow> pyval \<Rightarrow> pyval \<Rightarrow> pyval \<Rightarrow>
   ('s, user_account \<times> class_membership option \<times> nat) admin_action"
where
  "approve_pending srv actor target_user_id expected role class_id =
     (case actor of
        None \<Rightarrow> raise_act AdminValue
      | Some a \<Rightarrow>
          bind_act (lift_act (approval_input target_user_id expected role class_id)) (\<lambda>(target, role_name, c).
          bind_act (admin_clock (ps_clock srv) AdminProvisioningConflict AdminProvisioningConflict) (\<lambda>now.
          bind_act (lift_act (map_error (\<lambda>_. AdminProvisioningConflict) (utc expected))) (\<lambda>revision.
          bind_act (shielded AdminProvisioningConflict
            (ap_approve (ps_storage srv) (acc_user_id a) target role_name c now (acc_updated_at a) revision))
            (\<lambda>(u, m, revoked).
          if acc_user_id u \<noteq> target \<or> role_text (acc_role u) \<noteq> role_name \<or> (role_name = ''student'') \<noteq> (m \<noteq> None)
          then raise_act AdminProvisioningConflict
          else return_act (u, m, revoked))))))"

section \<open>The contract\<close>

text \<open>
  What a storage promises of the two operations that give a role. \<open>access_at\<close> tells whether a user
  can still act through a session or a pairing, \<open>joined_at\<close> lists the memberships of a user.
\<close>

locale admin_registry = identity_registry intact evolves user_at
  for intact :: "'s \<Rightarrow> bool" and evolves :: "'s \<Rightarrow> 's \<Rightarrow> bool" and user_at :: "'s \<Rightarrow> user_account \<Rightarrow> bool" +
  fixes port :: "'s admin_port"
    and access_at :: "'s \<Rightarrow> string \<Rightarrow> instant \<Rightarrow> bool"
    and joined_at :: "'s \<Rightarrow> string \<Rightarrow> class_membership list"
  assumes read_user_keeps: "keeps (guarded intact evolves) (ap_read_user port i)"
    and read_user_law: "intact s \<Longrightarrow> ap_read_user port i s = (Inr (Some u), t) \<Longrightarrow> user_at t u \<and> acc_user_id u = i"
    and bootstrap_law: "intact s \<Longrightarrow> representable now \<Longrightarrow> ap_bootstrap port i now rvn s = (Inr (u, n), t) \<Longrightarrow>
      (\<forall>a. user_at t a \<and> acc_role a = RoleAdmin \<longleftrightarrow> a = u) \<and> acc_user_id u = i \<and> acc_active u \<and>
      acc_updated_at u = now \<and> \<not> access_at t i now \<and>
      (\<exists>s0. evolves s s0 \<and> (\<forall>a. user_at s0 a \<longrightarrow> acc_role a \<noteq> RoleAdmin) \<and>
         user_at s0 (u\<lparr>acc_role := RolePending, acc_updated_at := rvn\<rparr>))"
    and approve_law: "intact s \<Longrightarrow> representable now \<Longrightarrow>
      ap_approve port actor i role c now ea et s = (Inr (u, m, n), t) \<Longrightarrow>
      user_at t u \<and> acc_user_id u = i \<and> acc_active u \<and> acc_role u = approved_role role \<and>
      acc_updated_at u = now \<and> \<not> access_at t i now \<and>
      joined_at t i = (case c of None \<Rightarrow> [] | Some k \<Rightarrow>
        [\<lparr>mem_user_id = i, mem_class_id = k, mem_role = MemberStudent, mem_joined_at = now,
          mem_source_provider = None, mem_source_group = None\<rparr>]) \<and>
      (\<exists>s0 a. evolves s s0 \<and> user_at s0 a \<and> acc_user_id a = actor \<and> acc_role a = RoleAdmin \<and> acc_active a \<and>
         acc_updated_at a = ea \<and> user_at s0 (u\<lparr>acc_role := RolePending, acc_updated_at := et\<rparr>))"
begin

lemma clock_Inr:
  assumes "harmless (guarded intact evolves) clock" "intact s" "admin_clock clock e1 e2 s = (Inr now, t)"
  shows "intact t" "evolves s t" "representable now"
  using assms utc_representable
  by (auto simp: admin_clock_def harmless_def guarded_def split: prod.splits)

lemma bootstrap_sound:
  assumes "bs_storage srv = port" "harmless (guarded intact evolves) (bs_clock srv)" "intact s"
    and "bootstrap_admin srv v s = (Inr (u, n), t)"
  shows "v = PyStr (acc_user_id u) \<and> (\<forall>a. user_at t a \<and> acc_role a = RoleAdmin \<longleftrightarrow> a = u) \<and> acc_active u \<and>
    \<not> access_at t (acc_user_id u) (acc_updated_at u) \<and>
    (\<exists>s0 rvn. evolves s s0 \<and> (\<forall>a. user_at s0 a \<longrightarrow> acc_role a \<noteq> RoleAdmin) \<and>
       user_at s0 (u\<lparr>acc_role := RolePending, acc_updated_at := rvn\<rparr>))"
proof -
  from assms(4) obtain i target now s1 s2 where
    i: "nonblank v = Some i" and rd: "ap_read_user port i s = (Inr (Some target), s1)"
    and cl: "admin_clock (bs_clock srv) AdminBootstrapFailed AdminBootstrapFailed s1 = (Inr now, s2)"
    and go: "ap_bootstrap port (acc_user_id target) now (acc_updated_at target) s2 = (Inr (u, n), t)"
    by (auto simp: bootstrap_admin_def run_simps shielded_def assms(1) split: option.splits)
  have s1: "intact s1" "evolves s s1" using guardedD [OF read_user_keeps rd assms(3)] by auto
  note s2 = clock_Inr [OF assms(2) s1(1) cl]
  have "acc_user_id target = i" using read_user_law [OF assms(3) rd] by simp
  moreover have "v = PyStr i" using i by (auto simp: nonblank_def split: pyval.splits if_splits)
  moreover note law = bootstrap_law [OF s2(1,3) go]
  moreover from law obtain s0 where "evolves s2 s0" "\<forall>a. user_at s0 a \<longrightarrow> acc_role a \<noteq> RoleAdmin"
    "user_at s0 (u\<lparr>acc_role := RolePending, acc_updated_at := acc_updated_at target\<rparr>)" by (elim conjE exE)
  moreover from this(1) have "evolves s s0" using evolves_trans s1(2) s2(2) by blast
  ultimately show ?thesis by metis
qed

lemma approve_sound:
  assumes "ps_storage srv = port" "harmless (guarded intact evolves) (ps_clock srv)" "intact s"
    and "approve_pending srv (Some actor) target expected role cls s = (Inr (u, m, n), t)"
  shows "\<exists>c et. approval_input target expected role cls = Inr (acc_user_id u, role_text (acc_role u), c) \<and>
    utc expected = Inr et \<and> user_at t u \<and> acc_active u \<and> \<not> access_at t (acc_user_id u) (acc_updated_at u) \<and>
    joined_at t (acc_user_id u) = (case c of None \<Rightarrow> [] | Some k \<Rightarrow>
        [\<lparr>mem_user_id = acc_user_id u, mem_class_id = k, mem_role = MemberStudent, mem_joined_at = acc_updated_at u,
          mem_source_provider = None, mem_source_group = None\<rparr>]) \<and>
    (\<exists>s0 a. evolves s s0 \<and> user_at s0 a \<and> acc_user_id a = acc_user_id actor \<and> acc_role a = RoleAdmin \<and> acc_active a \<and>
       acc_updated_at a = acc_updated_at actor \<and> user_at s0 (u\<lparr>acc_role := RolePending, acc_updated_at := et\<rparr>))"
proof -
  from assms(4) obtain i rn c now et s2 where
    inp: "approval_input target expected role cls = Inr (i, rn, c)" and et: "utc expected = Inr et"
    and cl: "admin_clock (ps_clock srv) AdminProvisioningConflict AdminProvisioningConflict s = (Inr now, s2)"
    and go: "ap_approve port (acc_user_id actor) i rn c now (acc_updated_at actor) et s2 = (Inr (u, m, n), t)"
    and res: "acc_user_id u = i" "role_text (acc_role u) = rn"
    by (auto simp: approve_pending_def run_simps shielded_def assms(1) split: if_splits)
  note s2 = clock_Inr [OF assms(2,3) cl]
  note law = approve_law [OF s2(1,3) go]
  from law obtain s0 a where "evolves s2 s0" and a: "user_at s0 a" "acc_user_id a = acc_user_id actor"
    "acc_role a = RoleAdmin" "acc_active a" "acc_updated_at a = acc_updated_at actor"
    "user_at s0 (u\<lparr>acc_role := RolePending, acc_updated_at := et\<rparr>)" by (elim conjE exE)
  then have "evolves s s0" using evolves_trans s2(2) by blast
  with a have "\<exists>s0 a. evolves s s0 \<and> user_at s0 a \<and> acc_user_id a = acc_user_id actor \<and> acc_role a = RoleAdmin \<and> acc_active a \<and>
       acc_updated_at a = acc_updated_at actor \<and> user_at s0 (u\<lparr>acc_role := RolePending, acc_updated_at := et\<rparr>)" by blast
  with law inp et res show ?thesis by auto
qed

end

end
