(* ===== verification/Sqlite_Admin.thy ===== *)
theory Sqlite_Admin
  imports Admin_Services
begin

text \<open>The administrative services on the SQLite storage.\<close>

definition sqlite_admin_port :: "environment \<Rightarrow> world admin_port" where
  "sqlite_admin_port e =
     \<lparr>ap_read_user = (\<lambda>i. call e (\<lambda>now. read_user i)),
      ap_bootstrap = (\<lambda>i t rvn. call e (\<lambda>now. bootstrap_first_admin i t rvn)),
      ap_snapshot = (\<lambda>i rvn n. call e (\<lambda>now. read_admin_provisioning_snapshot i rvn n)),
      ap_create_class = (\<lambda>i c rvn. call e (\<lambda>now. create_class_as_admin i c rvn)),
      ap_approve = (\<lambda>a i role c t ea et. call e (\<lambda>now. approve_pending_user_as_admin a i role c t ea et))\<rparr>"

definition access_in :: "world \<Rightarrow> string \<Rightarrow> instant \<Rightarrow> bool" where
  "access_in w i t = has_access (w_db w) i t"

definition joined_in :: "world \<Rightarrow> string \<Rightarrow> class_membership list" where
  "joined_in w i = filter (\<lambda>k. mem_user_id k = i) (db_memberships (w_db w))"

lemma lookup_user_in: "db_ok (w_db w) \<Longrightarrow> lookup_user (w_db w) i = Some u \<longleftrightarrow> user_in w u \<and> acc_user_id u = i"
  by (auto simp: lookup_user_iff user_in_def)

interpretation sqlite_admin:
  admin_registry "world_intact e" world_evolves user_in "sqlite_admin_port e" access_in joined_in for e
proof unfold_locales
  fix i
  show "keeps (guarded (world_intact e) world_evolves) (ap_read_user (sqlite_admin_port e) i)"
    by (auto simp: sqlite_admin_port_def intro!: call_step intro: read_only_steps)
next
  fix w i u w'
  assume "world_intact e w" "ap_read_user (sqlite_admin_port e) i w = (Inr (Some u), w')"
  then show "user_in w' u \<and> acc_user_id u = i"
    by (auto simp: sqlite_admin_port_def user_in_def elim!: call_cases dest: read_rows)
next
  fix w now i rvn u n w'
  assume w: "world_intact e w" and now: "representable now"
    and go: "ap_bootstrap (sqlite_admin_port e) i now rvn w = (Inr (u, n), w')"
  from go [unfolded sqlite_admin_port_def, simplified] w obtain d where
    run: "bootstrap_first_admin i now rvn d = (Inr (u, n), w_db w')" and ok: "db_ok d" and st: "dated_steps (w_db w) d"
    by (rule call_cases)
  from bootstrap_happens_once [OF ok now run, of i now rvn] obtain row where
    row: "lookup_user d i = Some row" "acc_role row = RolePending" "acc_active row" "acc_updated_at row = rvn"
      "u = row\<lparr>acc_role := RoleAdmin, acc_updated_at := now\<rparr>"
    and alone: "{a \<in> set (db_users (w_db w')). acc_role a = RoleAdmin} = {u}" and ends: "\<not> has_access (w_db w') i now"
    by blast
  have none: "\<forall>a \<in> set (db_users d). acc_role a \<noteq> RoleAdmin"
    using run by (auto simp: bootstrap_first_admin_def action_simps list_ex_iff split: if_splits)
  have before: "row = u\<lparr>acc_role := RolePending, acc_updated_at := rvn\<rparr>" using row by simp
  obtain w0 where w0: "w0 = w\<lparr>w_db := d\<rparr>" by simp
  have "world_evolves w w0" "\<forall>a. user_in w0 a \<longrightarrow> acc_role a \<noteq> RoleAdmin" "user_in w0 row"
    using st none lookup_userD [OF row(1)] by (auto simp: w0 world_evolves_def user_in_def)
  then have "\<exists>s0. world_evolves w s0 \<and> (\<forall>a. user_in s0 a \<longrightarrow> acc_role a \<noteq> RoleAdmin) \<and>
         user_in s0 (u\<lparr>acc_role := RolePending, acc_updated_at := rvn\<rparr>)"
    using before by metis
  then show "(\<forall>a. user_in w' a \<and> acc_role a = RoleAdmin \<longleftrightarrow> a = u) \<and> acc_user_id u = i \<and> acc_active u \<and>
      acc_updated_at u = now \<and> \<not> access_in w' i now \<and>
      (\<exists>s0. world_evolves w s0 \<and> (\<forall>a. user_in s0 a \<longrightarrow> acc_role a \<noteq> RoleAdmin) \<and>
         user_in s0 (u\<lparr>acc_role := RolePending, acc_updated_at := rvn\<rparr>))"
    using alone ends row(3,5) lookup_userD [OF row(1)] by (auto simp: user_in_def access_in_def)
next
  fix w now actor i role c ea et u m n w'
  assume w: "world_intact e w" and now: "representable now"
    and go: "ap_approve (sqlite_admin_port e) actor i role c now ea et w = (Inr (u, m, n), w')"
  from go [unfolded sqlite_admin_port_def, simplified] w obtain d where
    run: "approve_pending_user_as_admin actor i role c now ea et d = (Inr (u, m, n), w_db w')"
    and ok: "db_ok d" and st: "dated_steps (w_db w) d"
    by (rule call_cases)
  have role: "(role = ''student'') = (c \<noteq> None)"
    using run by (simp add: approve_pending_user_as_admin_def split: if_splits)
  from approval_effect [OF ok now run] obtain a row where
    a: "lookup_user d actor = Some a" "acc_role a = RoleAdmin" "acc_active a" "acc_updated_at a = ea"
    and row: "lookup_user d i = Some row" "acc_role row = RolePending" "acc_active row" "acc_updated_at row = et"
      "u = row\<lparr>acc_role := approved_role role, acc_updated_at := now\<rparr>"
    and now': "lookup_user (w_db w') i = Some u" "\<not> has_access (w_db w') i now"
    and joined: "filter (\<lambda>k. mem_user_id k = i) (db_memberships (w_db w')) =
      (if role = ''student'' then [\<lparr>mem_user_id = i, mem_class_id = the c,
         mem_role = MemberStudent, mem_joined_at = now, mem_source_provider = None, mem_source_group = None\<rparr>]
       else [])"
    by blast
  have before: "row = u\<lparr>acc_role := RolePending, acc_updated_at := et\<rparr>" using row by simp
  obtain w0 where w0: "w0 = w\<lparr>w_db := d\<rparr>" by simp
  have "world_evolves w w0" "user_in w0 a" "acc_user_id a = actor" "user_in w0 row"
    using st lookup_userD [OF row(1)] lookup_userD [OF a(1)] by (auto simp: w0 world_evolves_def user_in_def)
  then have "\<exists>s0 a. world_evolves w s0 \<and> user_in s0 a \<and> acc_user_id a = actor \<and> acc_role a = RoleAdmin \<and> acc_active a \<and>
         acc_updated_at a = ea \<and> user_in s0 (u\<lparr>acc_role := RolePending, acc_updated_at := et\<rparr>)"
    using before a(2-4) by metis
  moreover have "joined_in w' i = (case c of None \<Rightarrow> [] | Some k \<Rightarrow>
        [\<lparr>mem_user_id = i, mem_class_id = k, mem_role = MemberStudent, mem_joined_at = now,
          mem_source_provider = None, mem_source_group = None\<rparr>])"
    using joined role by (cases c) (simp_all add: joined_in_def)
  ultimately show "user_in w' u \<and> acc_user_id u = i \<and> acc_active u \<and> acc_role u = approved_role role \<and>
      acc_updated_at u = now \<and> \<not> access_in w' i now \<and>
      joined_in w' i = (case c of None \<Rightarrow> [] | Some k \<Rightarrow>
        [\<lparr>mem_user_id = i, mem_class_id = k, mem_role = MemberStudent, mem_joined_at = now,
          mem_source_provider = None, mem_source_group = None\<rparr>]) \<and>
      (\<exists>s0 a. world_evolves w s0 \<and> user_in s0 a \<and> acc_user_id a = actor \<and> acc_role a = RoleAdmin \<and> acc_active a \<and>
         acc_updated_at a = ea \<and> user_in s0 (u\<lparr>acc_role := RolePending, acc_updated_at := et\<rparr>))"
    using now' row(3,5) lookup_userD [OF row(1)] lookup_userD [OF now'(1)] by (simp add: user_in_def access_in_def)
qed

definition sqlite_bootstrap :: "environment \<Rightarrow> world bootstrap_service" where
  "sqlite_bootstrap e = \<lparr>bs_storage = sqlite_admin_port e, bs_clock = tick_source (env_clock e)\<rparr>"

definition sqlite_provisioning :: "environment \<Rightarrow> int \<Rightarrow> world provisioning_service" where
  "sqlite_provisioning e n =
     \<lparr>ps_storage = sqlite_admin_port e, ps_clock = tick_source (env_clock e), ps_maximum = n\<rparr>"

text \<open>C16. The first administrator is the only one: when the bootstrap service succeeds, whatever other
  processes do, the account it was asked for is the one administrator of the database it
  leaves, and no session or pairing from before can still be used; some database on the way
  had no administrator at all and held the account as pending.\<close>

theorem bootstrapped_admin_is_alone:
  assumes "honest e" "db_ok (w_db w)" "bootstrap_admin (sqlite_bootstrap e) v w = (Inr (u, n), w')"
  shows "v = PyStr (acc_user_id u) \<and> {a \<in> set (db_users (w_db w')). acc_role a = RoleAdmin} = {u} \<and> acc_active u \<and>
    \<not> has_access (w_db w') (acc_user_id u) (acc_updated_at u) \<and>
    (\<exists>d rvn. dated_steps (w_db w) d \<and> (\<forall>a \<in> set (db_users d). acc_role a \<noteq> RoleAdmin) \<and>
       u\<lparr>acc_role := RolePending, acc_updated_at := rvn\<rparr> \<in> set (db_users d))"
proof -
  have "world_intact e w" using assms(1,2) by (simp add: world_intact_def)
  from sqlite_admin.bootstrap_sound [OF _ _ this assms(3)]
  have sound: "v = PyStr (acc_user_id u) \<and> (\<forall>a. user_in w' a \<and> acc_role a = RoleAdmin \<longleftrightarrow> a = u) \<and> acc_active u \<and>
    \<not> access_in w' (acc_user_id u) (acc_updated_at u) \<and>
    (\<exists>s0 rvn. world_evolves w s0 \<and> (\<forall>a. user_in s0 a \<longrightarrow> acc_role a \<noteq> RoleAdmin) \<and>
       user_in s0 (u\<lparr>acc_role := RolePending, acc_updated_at := rvn\<rparr>))"
    by (simp add: sqlite_bootstrap_def tick_source_harmless)
  moreover from this have "{a \<in> set (db_users (w_db w')). acc_role a = RoleAdmin} = {u}"
    by (auto simp: user_in_def)
  ultimately show ?thesis by (auto simp: world_evolves_def user_in_def access_in_def)
qed

text \<open>An approval by an administrator: when the service answers with an account, then, whatever other
  processes do, the database it leaves holds exactly that account, active, in the chosen role,
  with the one membership of the chosen class for a student and none for a teacher, and without
  any usable session or pairing from before; on the way the actor was the current active
  administrator and the target pending at the revision that was given.\<close>

theorem approved_account_is_stored:
  assumes "honest e" "db_ok (w_db w)"
    and "approve_pending (sqlite_provisioning e k) (Some actor) target expected role cls w = (Inr (u, m, n), w')"
  shows "u \<in> set (db_users (w_db w')) \<and> acc_active u \<and> target = PyStr (acc_user_id u) \<and>
    role = PyStr (role_text (acc_role u)) \<and> \<not> has_access (w_db w') (acc_user_id u) (acc_updated_at u) \<and>
    (acc_role u = RoleTeacher \<and> cls = PyNone \<and> filter (\<lambda>q. mem_user_id q = acc_user_id u) (db_memberships (w_db w')) = [] \<or>
     acc_role u = RoleStudent \<and> (\<exists>c. cls = PyStr c \<and> filter (\<lambda>q. mem_user_id q = acc_user_id u) (db_memberships (w_db w')) =
       [\<lparr>mem_user_id = acc_user_id u, mem_class_id = c, mem_role = MemberStudent, mem_joined_at = acc_updated_at u,
         mem_source_provider = None, mem_source_group = None\<rparr>])) \<and>
    (\<exists>d a et. dated_steps (w_db w) d \<and> utc expected = Inr et \<and> lookup_user d (acc_user_id actor) = Some a \<and>
       acc_role a = RoleAdmin \<and> acc_active a \<and> acc_updated_at a = acc_updated_at actor \<and>
       u\<lparr>acc_role := RolePending, acc_updated_at := et\<rparr> \<in> set (db_users d))"
proof -
  have w: "world_intact e w" using assms(1,2) by (simp add: world_intact_def)
  from sqlite_admin.approve_sound [OF _ _ w assms(3)] obtain c et s0 a where
    inp: "approval_input target expected role cls = Inr (acc_user_id u, role_text (acc_role u), c)" and et: "utc expected = Inr et"
    and u: "user_in w' u" "acc_active u" "\<not> access_in w' (acc_user_id u) (acc_updated_at u)"
    and j: "joined_in w' (acc_user_id u) = (case c of None \<Rightarrow> [] | Some k \<Rightarrow>
        [\<lparr>mem_user_id = acc_user_id u, mem_class_id = k, mem_role = MemberStudent, mem_joined_at = acc_updated_at u,
          mem_source_provider = None, mem_source_group = None\<rparr>])"
    and st: "world_evolves w s0" and a: "user_in s0 a" "acc_user_id a = acc_user_id actor" "acc_role a = RoleAdmin"
      "acc_active a" "acc_updated_at a = acc_updated_at actor" "user_in s0 (u\<lparr>acc_role := RolePending, acc_updated_at := et\<rparr>)"
    by (auto simp: sqlite_provisioning_def tick_source_harmless)
  have "db_ok (w_db s0)"
    using dated_steps_advance [of "w_db w" "w_db s0"] st assms(2) by (simp add: world_evolves_def db_advance_def)
  then have "lookup_user (w_db s0) (acc_user_id actor) = Some a" using a(1,2) by (simp add: lookup_user_in)
  with st et a have way: "\<exists>d a et. dated_steps (w_db w) d \<and> utc expected = Inr et \<and> lookup_user d (acc_user_id actor) = Some a \<and>
       acc_role a = RoleAdmin \<and> acc_active a \<and> acc_updated_at a = acc_updated_at actor \<and>
       u\<lparr>acc_role := RolePending, acc_updated_at := et\<rparr> \<in> set (db_users d)"
    by (auto simp: world_evolves_def user_in_def)
  have "target = PyStr (acc_user_id u)"
    using inp by (auto simp: approval_input_def nonblank_def split: option.splits pyval.splits if_splits)
  moreover have "role = PyStr (role_text (acc_role u)) \<and>
     (acc_role u = RoleTeacher \<and> cls = PyNone \<and> c = None \<or> acc_role u = RoleStudent \<and> (\<exists>k. cls = PyStr k \<and> c = Some k))"
    using inp by (cases "acc_role u")
      (auto simp: approval_input_def nonblank_def split: option.splits pyval.splits if_splits)
  ultimately show ?thesis using u j way by (auto simp: user_in_def access_in_def joined_in_def)
qed

text \<open>What the administrative services raise: the bootstrap its own error or a \<^verbatim>\<open>ValueError\<close> for a target that
  is no text; listing and approving the conflict error or a \<^verbatim>\<open>ValueError\<close>; nothing of the storage's or
  the domain's exceptions comes through. Creating a class is the exception: it also lets out
  the domain error of a malformed class and the overflow of the clock.\<close>

theorem admin_failures_are_sanitized:
  "fst (bootstrap_admin b v s) \<in> {Inl AdminBootstrapFailed, Inl AdminValue} \<union> range Inr \<and>
   fst (provisioning_snapshot p a s) \<in> {Inl AdminProvisioningConflict, Inl AdminValue} \<union> range Inr \<and>
   fst (approve_pending p a target expected role cls s) \<in> {Inl AdminProvisioningConflict, Inl AdminValue} \<union> range Inr \<and>
   fst (create_class_for_admin p a c label year s) \<in>
     {Inl AdminProvisioningConflict, Inl AdminValue, Inl AdminOverflow} \<union> range (\<lambda>e. Inl (AdminDomain e)) \<union> range Inr"
proof (intro conjI)
  show "fst (bootstrap_admin b v s) \<in> {Inl AdminBootstrapFailed, Inl AdminValue} \<union> range Inr"
    unfolding bootstrap_admin_def
    by (auto simp: bind_act_def shielded_def try_act_def raise_act_def return_act_def admin_clock_def map_error_def
        split: option.splits prod.splits sum.splits if_splits)
  show "fst (provisioning_snapshot p a s) \<in> {Inl AdminProvisioningConflict, Inl AdminValue} \<union> range Inr"
    unfolding provisioning_snapshot_def
    by (auto simp: bind_act_def shielded_def try_act_def raise_act_def return_act_def
        split: option.splits prod.splits sum.splits if_splits)
  have "fst (lift_act (approval_input target expected role cls) s) \<in> {Inl AdminValue} \<union> range Inr"
    by (auto simp: approval_input_def lift_act_def split: option.splits pyval.splits if_splits)
  then show "fst (approve_pending p a target expected role cls s) \<in> {Inl AdminProvisioningConflict, Inl AdminValue} \<union> range Inr"
    unfolding approve_pending_def
    by (auto simp: bind_act_def shielded_def try_act_def raise_act_def return_act_def admin_clock_def lift_act_def map_error_def
        split: option.splits prod.splits sum.splits if_splits)
  show "fst (create_class_for_admin p a c label year s) \<in>
     {Inl AdminProvisioningConflict, Inl AdminValue, Inl AdminOverflow} \<union> range (\<lambda>e. Inl (AdminDomain e)) \<union> range Inr"
    unfolding create_class_for_admin_def
    by (auto simp: bind_act_def shielded_def try_act_def raise_act_def return_act_def admin_clock_def lift_act_def map_error_def
        split: option.splits prod.splits sum.splits if_splits)
qed

end
