(* ===== verification/Student_Api.thy ===== *)
theory Student_Api
  imports Assignment_Target Auth_Sessions
begin

text \<open>
  \<^verbatim>\<open>scripts/student_api_authorization.py\<close>: from the identity an HTTP boundary has verified, one
  snapshot of the storage gives the scope of a single request, and the scope decides which of
  the assignments the server has loaded the student may see. SHA-256 is a parameter.
\<close>

section \<open>Refusals\<close>

datatype api_code =
    CodeAccount | CodeAliasAmbiguous | CodeBindingAmbiguous | CodeBindingDuplicate | CodeBindingMissing
  | CodeClassMismatch | CodeIdentityIncoherent | CodeMembershipMissing | CodeSnapshotStorage | CodeStorageCorrupt
  | CodeTargetDuplicate | CodeTargetMissing | CodeUnavailable

text \<open>\<^verbatim>\<open>StudentApiAuthorizationDenied\<close> and \<^verbatim>\<open>StudentApiAuthorizationUnavailable\<close> with their code.\<close>

datatype api_error = ApiDenied api_code | ApiUnavailable api_code

text \<open>
  The codes of a resolution error; \<open>None\<close> for the exceptions of another class, which the callers
  catch separately. A code without an entry becomes \<^verbatim>\<open>unavailable\<close>.
\<close>

fun identity_code :: "binding_error \<Rightarrow> api_code option" where
  "identity_code BindingMissing = Some CodeBindingMissing"
| "identity_code BindingDuplicate = Some CodeBindingDuplicate"
| "identity_code BindingAmbiguous = Some CodeBindingAmbiguous"
| "identity_code BindingIncoherent = Some CodeIdentityIncoherent"
| "identity_code BindingValue = None"
| "identity_code BindingOverflow = None"
| "identity_code _ = Some CodeUnavailable"

fun assignment_code :: "binding_error \<Rightarrow> api_code option" where
  "assignment_code BindingDuplicate = Some CodeTargetDuplicate"
| "assignment_code ClassMismatch = Some CodeClassMismatch"
| "assignment_code TargetMissing = Some CodeTargetMissing"
| "assignment_code LegacyMissing = Some CodeTargetMissing"
| "assignment_code LegacyAmbiguous = Some CodeAliasAmbiguous"
| "assignment_code e = identity_code e"

section \<open>Assignments of a request\<close>

record authorized_assignment =
  asg_assignment_id :: string
  asg_class_id :: string
  asg_user_id :: string
  asg_subject_id :: string
  asg_revision :: string
  asg_used_alias :: bool
  asg_assignment_json :: string
  asg_target_json :: string

definition from_resolution :: "json \<Rightarrow> target_resolution \<Rightarrow> authorized_assignment" where
  "from_resolution assignment r =
     \<lparr>asg_assignment_id = tgt_assignment_id r, asg_class_id = tgt_class_id r, asg_user_id = tgt_user_id r,
      asg_subject_id = tgt_subject_id r, asg_revision = tgt_revision r, asg_used_alias = tgt_used_alias r,
      asg_assignment_json = json_dumps assignment, asg_target_json = json_dumps (JObj (tgt_target r))\<rparr>"

record request_authorization =
  sra_user_id :: string
  sra_subject_id :: string
  sra_class_ids :: "string list"
  sra_revision :: string
  sra_public_id :: string
  sra_snapshot :: binding_snapshot

definition authorize_assignment ::
  "(string \<Rightarrow> string) \<Rightarrow> request_authorization \<Rightarrow> json \<Rightarrow> (api_error, authorized_assignment) result" where
  "authorize_assignment sha256 a assignment =
     (case resolve_assignment_target sha256 (PyStr (sra_user_id a)) (sra_snapshot a) assignment of
        Inl e \<Rightarrow> (case assignment_code e of None \<Rightarrow> Inl (ApiUnavailable CodeStorageCorrupt) | Some c \<Rightarrow> Inl (ApiDenied c))
      | Inr r \<Rightarrow>
          if tgt_revision r \<noteq> sra_revision a then Inl (ApiDenied CodeIdentityIncoherent)
          else Inr (from_resolution assignment r))"

definition hidden :: "api_error \<Rightarrow> bool" where
  "hidden e \<longleftrightarrow> e = ApiDenied CodeClassMismatch \<or> e = ApiDenied CodeTargetMissing"

fun visible_from ::
  "(string \<Rightarrow> string) \<Rightarrow> request_authorization \<Rightarrow> json list \<Rightarrow> string list \<Rightarrow> (api_error, authorized_assignment list) result"
where
  "visible_from sha256 a [] seen = Inr []"
| "visible_from sha256 a (x # xs) seen =
     (case authorize_assignment sha256 a x of
        Inl e \<Rightarrow> if hidden e then visible_from sha256 a xs seen else Inl e
      | Inr v \<Rightarrow>
          if List.member seen (asg_assignment_id v) then Inl (ApiUnavailable CodeStorageCorrupt)
          else bind_result (visible_from sha256 a xs (asg_assignment_id v # seen)) (\<lambda>vs. Inr (v # vs)))"

text \<open>The records of the server; \<open>None\<close> when their iteration raises.\<close>

definition visible_assignments ::
  "(string \<Rightarrow> string) \<Rightarrow> request_authorization \<Rightarrow> json list option \<Rightarrow> (api_error, authorized_assignment list) result" where
  "visible_assignments sha256 a records =
     (case records of None \<Rightarrow> Inl (ApiUnavailable CodeStorageCorrupt) | Some xs \<Rightarrow> visible_from sha256 a xs [])"

section \<open>The scope of a request\<close>

fun validate_legacy_aliases ::
  "string \<Rightarrow> subject_alias list \<Rightarrow> (string \<times> string) list \<Rightarrow> (api_error, unit) result" where
  "validate_legacy_aliases subject [] seen = Inr ()"
| "validate_legacy_aliases subject (x # xs) seen =
     (if als_subject_id x \<noteq> subject then Inl (ApiDenied CodeAliasAmbiguous)
      else if List.member seen (als_class_id x, als_legacy_id x) then Inl (ApiDenied CodeAliasAmbiguous)
      else validate_legacy_aliases subject xs ((als_class_id x, als_legacy_id x) # seen))"

definition public_char :: "char \<Rightarrow> bool" where
  "public_char c \<longleftrightarrow>
     (let n = code_point c in 65 \<le> n \<and> n \<le> 90 \<or> 97 \<le> n \<and> n \<le> 122 \<or> 48 \<le> n \<and> n \<le> 57)"

definition public_student_id :: "(string \<Rightarrow> string) \<Rightarrow> string \<Rightarrow> binding_snapshot \<Rightarrow> string" where
  "public_student_id sha256 subject snapshot =
     (case remdups (map als_legacy_id (filter (\<lambda>x. als_subject_id x = subject) (snp_aliases snapshot))) of
        [candidate] \<Rightarrow>
          if candidate \<noteq> [] \<and> length candidate \<le> 128 \<and> public_char (hd candidate) \<and>
             list_all (\<lambda>c. public_char c \<or> c = CHR ''.'' \<or> c = CHR ''_'' \<or> c = CHR ''-'') candidate
          then candidate else ''student-'' @ take 24 (sha256 subject)
      | _ \<Rightarrow> ''student-'' @ take 24 (sha256 subject))"

definition student_authorization ::
  "(string \<Rightarrow> string) \<Rightarrow> string \<Rightarrow> binding_snapshot \<Rightarrow> (api_error, request_authorization) result" where
  "student_authorization sha256 user_id snapshot =
     (case resolve_student_identity sha256 (PyStr user_id) snapshot of
        Inl e \<Rightarrow> (case identity_code e of None \<Rightarrow> Inl (ApiUnavailable CodeStorageCorrupt) | Some c \<Rightarrow> Inl (ApiDenied c))
      | Inr i \<Rightarrow>
          if sid_class_ids i = [] then Inl (ApiDenied CodeMembershipMissing)
          else bind_result (validate_legacy_aliases (sid_subject_id i) (snp_aliases snapshot) []) (\<lambda>_.
            Inr \<lparr>sra_user_id = sid_user_id i, sra_subject_id = sid_subject_id i, sra_class_ids = sid_class_ids i,
                 sra_revision = sid_revision i, sra_public_id = public_student_id sha256 (sid_subject_id i) snapshot,
                 sra_snapshot = snapshot\<rparr>))"

definition authorize_student_request ::
  "(string \<Rightarrow> ('s, binding_snapshot) storage_call) \<Rightarrow> (string \<Rightarrow> string) \<Rightarrow> string \<Rightarrow>
   ('s, api_error, request_authorization) action" where
  "authorize_student_request read_snapshot sha256 user_id =
     try_act (read_snapshot user_id) (\<lambda>_. raise_act (ApiUnavailable CodeSnapshotStorage))
       (\<lambda>snapshot. lift_act (student_authorization sha256 user_id snapshot))"

section \<open>What a student sees\<close>

lemma resolution_fields:
  assumes "resolve_assignment_target sha256 v s x = Inr r"
  shows "\<exists>i. resolve_student_identity sha256 v s = Inr i \<and> tgt_class_id r \<in> set (sid_class_ids i) \<and>
    tgt_user_id r = sid_user_id i \<and> tgt_subject_id r = sid_subject_id i \<and> tgt_revision r = sid_revision i"
  using assms by (auto simp: resolve_assignment_target_def result_simps split: if_splits list.splits)

lemma resolve_student_self:
  assumes "resolve_student_identity sha256 v s = Inr k"
  shows "resolve_student_identity sha256 (PyStr (sid_user_id k)) s = Inr k"
proof -
  obtain u where u: "binding_text v = Inr u" "sid_user_id k = u"
    using assms by (auto simp: resolve_student_identity_def result_simps split: option.splits list.splits if_splits)
  then have "binding_text (PyStr u) = Inr u" by (simp add: binding_text_clean field_simps)
  with assms u show ?thesis by (simp add: resolve_student_identity_def)
qed

lemma authorization_Inr:
  assumes "student_authorization sha256 i s = Inr a"
  obtains k where "resolve_student_identity sha256 (PyStr i) s = Inr k" "sid_class_ids k \<noteq> []"
    "validate_legacy_aliases (sid_subject_id k) (snp_aliases s) [] = Inr ()"
    "sra_user_id a = sid_user_id k" "sra_subject_id a = sid_subject_id k" "sra_class_ids a = sid_class_ids k"
    "sra_revision a = sid_revision k" "sra_snapshot a = s"
  using assms
  by (auto simp: student_authorization_def result_simps split: sum.splits option.splits if_splits)

lemma validate_aliases_Inr:
  "validate_legacy_aliases subject xs seen = Inr () \<longleftrightarrow>
     list_all (\<lambda>x. als_subject_id x = subject) xs \<and> distinct (map (\<lambda>x. (als_class_id x, als_legacy_id x)) xs) \<and>
     set (map (\<lambda>x. (als_class_id x, als_legacy_id x)) xs) \<inter> set seen = {}"
  by (induction xs arbitrary: seen) auto

text \<open>The verdict on one record, for a scope whose identity resolves.\<close>

lemma authorize_assignment_cases:
  assumes "resolve_student_identity sha256 (PyStr (sra_user_id a)) (sra_snapshot a) = Inr k" "sra_revision a = sid_revision k"
  shows "authorize_assignment sha256 a x =
    (case resolve_assignment_target sha256 (PyStr (sra_user_id a)) (sra_snapshot a) x of
       Inl e \<Rightarrow> (case assignment_code e of None \<Rightarrow> Inl (ApiUnavailable CodeStorageCorrupt) | Some c \<Rightarrow> Inl (ApiDenied c))
     | Inr r \<Rightarrow> Inr (from_resolution x r))"
  using assms resolution_fields [of sha256 "PyStr (sra_user_id a)" "sra_snapshot a" x]
  by (auto simp: authorize_assignment_def split: sum.splits)

lemma visible_from_Inr:
  assumes "visible_from sha256 a xs seen = Inr vs"
  shows "vs = List.map_filter (\<lambda>x. case authorize_assignment sha256 a x of Inl e \<Rightarrow> None | Inr v \<Rightarrow> Some v) xs \<and>
    distinct (map asg_assignment_id vs) \<and> set (map asg_assignment_id vs) \<inter> set seen = {} \<and>
    list_all (\<lambda>x. case authorize_assignment sha256 a x of Inl e \<Rightarrow> hidden e | Inr v \<Rightarrow> True) xs"
  using assms
proof (induction xs arbitrary: seen vs)
  case Nil
  then show ?case by (simp add: List.map_filter_simps)
next
  case (Cons x xs)
  show ?case
  proof (cases "authorize_assignment sha256 a x")
    case (Inl e)
    with Cons.prems Cons.IH show ?thesis by (auto simp: List.map_filter_simps split: if_splits)
  next
    case (Inr v)
    with Cons.prems obtain ws where ws: "visible_from sha256 a xs (asg_assignment_id v # seen) = Inr ws" "vs = v # ws"
      "asg_assignment_id v \<notin> set seen"
      by (auto simp: result_simps split: if_splits)
    from Cons.IH [OF ws(1)] ws(2,3) Inr show ?thesis by (auto simp: List.map_filter_simps)
  qed
qed

text \<open>C14. A student sees exactly the own assignments: when the records of a request pass, the visible ones are
  those that resolve to a target of the student, in the order of the records and without
  two of one identifier; each lies in a class of the scope and names its user and subject, and
  a record is left out only because its class is not the student's or it has no target for the
  student. Any other defect of a record refuses the whole request.\<close>

theorem visible_assignments_are_own:
  assumes "student_authorization sha256 i s = Inr a" "visible_assignments sha256 a (Some records) = Inr vs"
  shows "map asg_assignment_json vs = map json_dumps
      (filter (\<lambda>x. \<exists>r. resolve_assignment_target sha256 (PyStr (sra_user_id a)) s x = Inr r) records) \<and>
    distinct (map asg_assignment_id vs) \<and>
    (\<forall>v \<in> set vs. asg_user_id v = sra_user_id a \<and> asg_subject_id v = sra_subject_id a \<and>
       asg_class_id v \<in> set (sra_class_ids a) \<and> asg_revision v = sra_revision a) \<and>
    (\<forall>x \<in> set records. (\<exists>r. resolve_assignment_target sha256 (PyStr (sra_user_id a)) s x = Inr r) \<or>
       resolve_assignment_target sha256 (PyStr (sra_user_id a)) s x \<in> {Inl ClassMismatch, Inl TargetMissing, Inl LegacyMissing})"
proof -
  obtain k where k: "resolve_student_identity sha256 (PyStr i) s = Inr k" "sra_user_id a = sid_user_id k"
    "sra_subject_id a = sid_subject_id k" "sra_class_ids a = sid_class_ids k"
    "sra_revision a = sid_revision k" "sra_snapshot a = s"
    using assms(1) by (rule authorization_Inr)
  have own: "resolve_student_identity sha256 (PyStr (sra_user_id a)) s = Inr k"
    using resolve_student_self [OF k(1)] k(2) by simp
  let ?res = "resolve_assignment_target sha256 (PyStr (sra_user_id a)) s"
  have verdict: "authorize_assignment sha256 a x =
    (case ?res x of
       Inl e \<Rightarrow> (case assignment_code e of None \<Rightarrow> Inl (ApiUnavailable CodeStorageCorrupt) | Some c \<Rightarrow> Inl (ApiDenied c))
     | Inr r \<Rightarrow> Inr (from_resolution x r))" for x
    using authorize_assignment_cases [of sha256 a k x] own k(5,6) by simp
  have run: "visible_from sha256 a records [] = Inr vs" using assms(2) by (simp add: visible_assignments_def)
  note seen = visible_from_Inr [OF run]
  have vs: "vs = map (\<lambda>x. from_resolution x (projr (?res x))) (filter (\<lambda>x. \<exists>r. ?res x = Inr r) records)"
    using seen [THEN conjunct1] unfolding verdict
    by (induction records arbitrary: vs)
      (auto simp: List.map_filter_simps split: sum.splits option.splits)
  have fields: "tgt_user_id r = sra_user_id a \<and> tgt_subject_id r = sra_subject_id a \<and>
      tgt_class_id r \<in> set (sra_class_ids a) \<and> tgt_revision r = sra_revision a" if "?res x = Inr r" for x r
    using resolution_fields [OF that] own k by auto
  have left: "?res x \<in> {Inl ClassMismatch, Inl TargetMissing, Inl LegacyMissing}"
    if x: "x \<in> set records" and none: "\<not> (\<exists>r. ?res x = Inr r)" for x
  proof -
    obtain e where e: "?res x = Inl e" using none by (cases "?res x") auto
    have "case authorize_assignment sha256 a x of Inl e \<Rightarrow> hidden e | Inr v \<Rightarrow> True"
      using seen x by (simp add: list_all_iff)
    then show ?thesis unfolding verdict e by (cases e) (simp_all add: hidden_def)
  qed
  show ?thesis
  proof (intro conjI ballI)
    show "map asg_assignment_json vs = map json_dumps (filter (\<lambda>x. \<exists>r. ?res x = Inr r) records)"
      by (simp add: vs from_resolution_def)
    show "distinct (map asg_assignment_id vs)" using seen by blast
    fix v assume "v \<in> set vs"
    then obtain x r where "?res x = Inr r" "v = from_resolution x r" by (auto simp: vs)
    with fields [of x r] show "asg_user_id v = sra_user_id a" "asg_subject_id v = sra_subject_id a"
      "asg_class_id v \<in> set (sra_class_ids a)" "asg_revision v = sra_revision a"
      by (simp_all add: from_resolution_def)
  next
    fix x assume "x \<in> set records"
    with left show "(\<exists>r. ?res x = Inr r) \<or> ?res x \<in> {Inl ClassMismatch, Inl TargetMissing, Inl LegacyMissing}"
      by blast
  qed
qed

text \<open>The scope of a request stands on the rows of the database it was read from.\<close>

definition sqlite_snapshot_read :: "environment \<Rightarrow> (string \<Rightarrow> string) \<Rightarrow> string \<Rightarrow> (world, binding_snapshot) storage_call" where
  "sqlite_snapshot_read e sha256 i = call e (\<lambda>now. read_binding_snapshot sha256 i)"

text \<open>C15. A student request is authorized from the database: whatever other processes do, the scope names the
  subject of the account's active binding in the database the request leaves, where the
  account is an active student; its classes are exactly the active ones the student is enrolled in, and at least one.\<close>

theorem student_request_is_backed:
  assumes "honest e" "db_ok (w_db w)" "\<And>t. revision_shape (''sha256:'' @ sha256 t)"
    and "authorize_student_request (sqlite_snapshot_read e sha256) sha256 i w = (Inr a, w')"
  shows "\<exists>u b. lookup_user (w_db w') i = Some u \<and> acc_active u \<and> acc_role u = RoleStudent \<and>
    b \<in> set (db_bindings (w_db w')) \<and> bnd_user_id b = i \<and> bnd_active b \<and>
    sra_user_id a = i \<and> sra_subject_id a = bnd_subject_id b \<and> sra_class_ids a \<noteq> [] \<and>
    (\<forall>c. c \<in> set (sra_class_ids a) \<longleftrightarrow> class_open (w_db w') c \<and> enrolled (w_db w') i c)"
proof -
  obtain snap where rd: "sqlite_snapshot_read e sha256 i w = (Inr snap, w')"
    and go: "student_authorization sha256 i snap = Inr a"
    using assms(4) by (auto simp: authorize_student_request_def run_simps)
  have "world_intact e w" using assms(1,2) by (simp add: world_intact_def)
  from rd [unfolded sqlite_snapshot_read_def] this obtain d where
    run: "read_binding_snapshot sha256 i d = (Inr snap, w_db w')" and ok: "db_ok d"
    by (rule call_cases)
  then have same: "w_db w' = d" by (simp add: read_binding_snapshot_def)
  obtain k where k: "resolve_student_identity sha256 (PyStr i) snap = Inr k" "sid_class_ids k \<noteq> []"
    "sra_user_id a = sid_user_id k" "sra_subject_id a = sid_subject_id k" "sra_class_ids a = sid_class_ids k"
    using go by (rule authorization_Inr)
  from student_of_rows [OF ok assms(3) run, of k] k(1) obtain u b where
    u: "lookup_user d i = Some u" "acc_active u" "acc_role u = RoleStudent"
    and b: "b \<in> set (db_bindings d)" "bnd_user_id b = i" "bnd_active b"
    and m: "list_all (\<lambda>m. mem_user_id m = i \<longrightarrow> mem_role m = MemberStudent \<and> class_open d (mem_class_id m)) (db_memberships d)"
    and kk: "k = \<lparr>sid_user_id = i, sid_subject_id = bnd_subject_id b,
            sid_class_ids = sort (map mem_class_id (filter (\<lambda>m. mem_user_id m = i) (db_memberships d))),
            sid_revision = snp_revision snap\<rparr>"
    by blast
  have "c \<in> set (sra_class_ids a) \<longleftrightarrow> class_open d c \<and> enrolled d i c" for c
    using m k(5) by (auto simp: kk enrolled_def list_ex_iff list_all_iff mem_key_def image_iff)
  with u b k kk show ?thesis by (auto simp: same)
qed

end
