(* ===== verification/Sample_Web.thy ===== *)
theory Sample_Web
  imports Sample_Classes Sqlite_Dashboard Sqlite_Admin Student_Api
begin

text \<open>The properties of the HTTP boundary, the dashboards, the administrative services and the student API on
  concrete inputs.\<close>

section \<open>A browser\<close>

definition dev_policy :: cookie_policy where
  "dev_policy = \<lparr>pol_name = ''thebitlab_session'', pol_secure = False, pol_same_site = SameLax, pol_loopback = True,
     pol_max_header = 4096, pol_max_age = 86400\<rparr>"

lemma dev_policy_made: "loopback_development = Inr dev_policy"
  by code_simp

lemma dev_policy_valid: "valid_policy dev_policy"
  by code_simp

definition dev_secret :: "nat list" where
  "dev_secret = replicate 32 9"

definition web_boundary :: "world http_boundary" where
  "web_boundary = sqlite_boundary afternoon 5000000 dev_secret dev_policy same_hash"

definition other_cookies :: "(string \<times> string) list" where
  "other_cookies = [(''theme'', ''dark''), (''lang'', ''it'')]"

definition old_header :: string where
  "old_header = cookie_header (other_cookies @ [(pol_name dev_policy, replicate 40 (CHR ''o''))])"

definition old_csrf :: string where
  "old_csrf = csrf_token same_hash dev_secret (replicate 40 (CHR ''o''))"

definition old_request :: "string \<Rightarrow> http_request" where
  "old_request m = \<lparr>req_method = PyStr m, req_cookie = PyStr old_header, req_csrf = PyStr old_csrf\<rparr>"

theorem issued_cookie_is_read_back_witness:
  "\<exists>c. session_cookie dev_policy (replicate 40 (CHR ''o'')) (web_session\<lparr>ses_expires_at := 5000000\<rparr>) (Some 200) = Inr c \<and>
     fst (partition_at (CHR '';'') c) = cookie_text (''thebitlab_session'', replicate 40 (CHR ''o'')) \<and>
     extract_bearer dev_policy True (PyStr old_header) = Inr (Some (replicate 40 (CHR ''o'')))"
proof -
  let ?c = "session_cookie dev_policy (replicate 40 (CHR ''o'')) (web_session\<lparr>ses_expires_at := 5000000\<rparr>) (Some 200)"
  have "cookie_bearer (replicate 40 (CHR ''o''))" "list_all (other_cookie dev_policy) other_cookies"
    "list_all (other_cookie dev_policy) []" "int (length old_header) \<le> pol_max_header dev_policy" "run_ok (?c, ())"
    "pol_name dev_policy = ''thebitlab_session''"
    by code_simp+
  moreover from this(5) obtain c where c: "?c = Inr c" using run_okD by fastforce
  ultimately show ?thesis
    using issued_cookie_is_read_back [OF dev_policy_valid _ c, of other_cookies "[]"] by (simp add: old_header_def)
qed

lemma same_csrf:
  "csrf_token same_hash secret t = concat (replicate 10 ''zMzM'') @ ''zMw''"
proof -
  have "base64url (hex_bytes (replicate 64 (CHR ''c''))) = concat (replicate 10 ''zMzM'') @ ''zMw''" by code_simp
  then show ?thesis by (simp add: csrf_token_def same_hash_def)
qed

text \<open>A request with the old cookie, whose parts are evaluated one by one.\<close>

definition old_token :: string where
  "old_token = replicate 40 (CHR ''o'')"

lemma old_header_read: "extract_bearer dev_policy True (PyStr old_header) = Inr (Some old_token)"
  by code_simp

lemma old_request_values:
  "request_values (Some (old_request ''POST'')) = Inr (POST, PyStr old_header, PyStr old_csrf)"
  "request_values (Some (old_request ''post'')) = Inr (POST, PyStr old_header, PyStr old_csrf)"
proof -
  have "method_of_text (upper (strip ''POST'')) = Some POST" "method_of_text (upper (strip ''post'')) = Some POST"
    by code_simp+
  then show "request_values (Some (old_request ''POST'')) = Inr (POST, PyStr old_header, PyStr old_csrf)"
    "request_values (Some (old_request ''post'')) = Inr (POST, PyStr old_header, PyStr old_csrf)"
    by (simp_all add: request_values_def old_request_def)
qed

lemma old_csrf_passes: "validate_csrf same_hash dev_secret old_token (PyStr old_csrf) = Inr ()"
  by (simp add: validate_csrf_Inr old_csrf_def old_token_def)

definition old_context :: "user_session \<Rightarrow> user_account \<Rightarrow> http_context" where
  "old_context x u = \<lparr>ctx_session = x, ctx_user = u, ctx_csrf = old_csrf\<rparr>"

lemma old_clock:
  "current_time (hb_clock web_boundary) w = (Inr (Some (ticking (w_tick w))), w\<lparr>w_tick := w_tick w + 1\<rparr>)"
  using afternoon_quiet
  by (auto simp: web_boundary_def current_time_run tick_source_def quiet_def utc_def utc_datetime_def)

lemma old_request_admitted:
  assumes m: "m = ''POST'' \<or> m = ''post''"
    and au: "authenticate_session (hb_sessions web_boundary) (PyStr old_token) w = (Inr (x, u), w1)"
    and v: "authenticated_is_valid web_boundary x u old_token (ticking (w_tick w1))"
  shows "authenticate_request web_boundary (Some (old_request m)) w = (Inr (old_context x u), w1\<lparr>w_tick := w_tick w1 + 1\<rparr>)"
proof -
  have rv: "request_values (Some (old_request m)) = Inr (POST, PyStr old_header, PyStr old_csrf)"
    using m old_request_values by blast
  have time: "current_time (hb_clock web_boundary) w1 = (Inr (Some (ticking (w_tick w1))), w1\<lparr>w_tick := w_tick w1 + 1\<rparr>)"
    by (rule old_clock)
  show ?thesis
    using rv old_header_read au time v old_csrf_passes
    by (simp add: authenticate_request_def action_simps old_context_def web_boundary_def old_csrf_def old_token_def)
qed

lemma old_session_found:
  "authenticate_session (hb_sessions web_boundary) (PyStr old_token) noon =
     (Inr (web_session\<lparr>ses_last_seen_at := 203\<rparr>, some_student),
      noon\<lparr>w_db := school\<lparr>db_sessions := [web_session\<lparr>ses_last_seen_at := 203\<rparr>]\<rparr>, w_tick := 4\<rparr>)"
  by code_simp

lemma old_session_valid:
  "authenticated_is_valid web_boundary (web_session\<lparr>ses_last_seen_at := 203\<rparr>) some_student old_token (ticking 4)"
  by code_simp

lemma old_request_at_noon:
  assumes "m = ''POST'' \<or> m = ''post''"
  shows "\<exists>w'. authenticate_request web_boundary (Some (old_request m)) noon =
    (Inr (old_context (web_session\<lparr>ses_last_seen_at := 203\<rparr>) some_student), w')"
  using old_request_admitted [OF assms old_session_found] old_session_valid by (simp add: noon_def)

theorem admitted_request_is_backed_witness:
  "\<exists>ctx w'. authorize_application web_boundary (Some (old_request ''post'')) (Roles [''student'']) noon = (Inr ctx, w') \<and>
     acc_active (ctx_user ctx) \<and> ctx_session ctx \<in> set (db_sessions (w_db w')) \<and> ses_revoked_at (ctx_session ctx) = None"
proof -
  obtain w' where "authenticate_request web_boundary (Some (old_request ''post'')) noon =
    (Inr (old_context (web_session\<lparr>ses_last_seen_at := 203\<rparr>) some_student), w')" using old_request_at_noon by blast
  then have run: "authorize_application web_boundary (Some (old_request ''post'')) (Roles [''student'']) noon =
    (Inr (old_context (web_session\<lparr>ses_last_seen_at := 203\<rparr>) some_student), w')"
    by (simp add: authorize_application_def application_roles_def action_simps old_context_def some_student_def)
  have "db_ok (w_db noon)" by (simp add: noon_def school_ok)
  from admitted_request_is_backed [OF afternoon_honest this same_hash_ok run [unfolded web_boundary_def]] run
  show ?thesis by blast
qed

theorem csrf_token_decides_witness:
  "fst (authenticate_request web_boundary (Some (old_request ''post''\<lparr>req_csrf := PyStr (replicate 43 (CHR 0xE8))\<rparr>)) noon) =
     Inl HttpTypeError \<and>
   fst (authenticate_request web_boundary (Some (old_request ''post''\<lparr>req_csrf := PyStr (replicate 43 (CHR ''x''))\<rparr>)) noon) =
     Inl HttpCsrfRejected"
proof -
  let ?r = "old_request ''post''"
  obtain ctx w' where run: "authenticate_request web_boundary (Some ?r) noon = (Inr ctx, w')"
    using old_request_at_noon by blast
  have mth: "req_method ?r = PyStr ''post''" by (simp add: old_request_def)
  have m_post: "method_of_text (upper (strip ''post'')) = Some POST" "unsafe_method POST" by code_simp+
  have texts: "\<not> ascii_text (replicate 43 (CHR 0xE8))" "ascii_text (replicate 43 (CHR ''x''))"
    by (simp_all add: ascii_text_def code_point_def list_all_iff)
  have h: "hashing_ok (boundary_hash web_boundary)" by (simp add: web_boundary_def same_hash_ok)
  have "\<exists>t. ctx_csrf ctx = csrf_token same_hash dev_secret t"
    using run by (auto elim!: authenticate_request_Inr simp: web_boundary_def)
  then have "hd (ctx_csrf ctx) = CHR ''z''" by (auto simp: same_csrf numeral_eq_Suc)
  then have "hd (replicate 43 (CHR 0xE8)) \<noteq> hd (ctx_csrf ctx)" "hd (replicate 43 (CHR ''x'')) \<noteq> hd (ctx_csrf ctx)"
    by simp_all
  then have "replicate 43 (CHR 0xE8) \<noteq> ctx_csrf ctx" "replicate 43 (CHR ''x'') \<noteq> ctx_csrf ctx" by metis+
  then show ?thesis
    using csrf_token_decides [OF h run mth m_post, of "replicate 43 (CHR 0xE8)"]
      csrf_token_decides [OF h run mth m_post, of "replicate 43 (CHR ''x'')"] texts by simp
qed

theorem logout_ends_access_witness:
  "\<exists>out w1 err w2. logout_request web_boundary (Some (old_request ''POST'')) noon = (Inr out, w1) \<and> out_revoked out \<and>
     authenticate_request web_boundary (Some (old_request ''GET'')) w1 = (Inl err, w2)"
proof -
  let ?run = "logout_request web_boundary (Some (old_request ''POST'')) noon"
  let ?x = "web_session\<lparr>ses_last_seen_at := 203\<rparr>"
  let ?s = "noon\<lparr>w_db := school\<lparr>db_sessions := [?x]\<rparr>, w_tick := 5\<rparr>"
  have "fst (revoke_session (hb_sessions web_boundary) (PyStr old_token) ?s) = Inr True" by code_simp
  then obtain w1 where rev: "revoke_session (hb_sessions web_boundary) (PyStr old_token) ?s = (Inr True, w1)"
    by (cases "revoke_session (hb_sessions web_boundary) (PyStr old_token) ?s") simp
  have fields: "hb_policy web_boundary = dev_policy" "hb_secret web_boundary = dev_secret" "boundary_hash web_boundary = same_hash"
    by (simp_all add: web_boundary_def)
  have "?run = (Inr \<lparr>out_revoked = True, out_set_cookie = clear_cookie dev_policy\<rparr>, w1)"
    by (simp add: logout_request_def action_simps old_request_values old_header_read old_session_found old_clock
        old_session_valid old_csrf_passes rev fields) (rule exI, rule TrueI)
  then obtain out where run: "?run = (Inr out, w1)" "out_revoked out" by (rule that) simp
  have "db_ok (w_db noon)" by (simp add: noon_def school_ok)
  moreover have "req_cookie (old_request ''GET'') = req_cookie (old_request ''POST'')" by (simp add: old_request_def)
  ultimately show ?thesis
    using logout_ends_access [OF afternoon_quiet _ same_hash_ok web_boundary_def run, of "old_request ''GET''"] run by auto
qed

theorem browser_login_works_witness:
  "\<exists>est w1 ctx w2. establish_session web_boundary ''stu'' PyNone noon = (Inr est, w1) \<and>
    authorize_application web_boundary (Some \<lparr>req_method = PyStr ''POST'',
      req_cookie = PyStr (cookie_header (other_cookies @ [(pol_name dev_policy, replicate 40 (CHR ''t''))])),
      req_csrf = PyStr (ctx_csrf (est_context est))\<rparr>) (Roles [''student'']) w1 = (Inr ctx, w2) \<and>
    ctx_user ctx = some_student"
proof -
  let ?t = "replicate 40 (CHR ''t'')"
  have u: "some_student \<in> set (db_users (w_db noon))" "acc_active some_student" "acc_role some_student \<noteq> RolePending"
    "acc_user_id some_student = ''stu''" "role_text (acc_role some_student) = ''student''" "db_ok (w_db noon)"
    by code_simp+
  have tok: "env_token afternoon (w_tick noon + 2) = PyStr ?t" "cookie_bearer ?t" "length ?t \<le> 512"
      "''sha256:'' @ sha256_hex same_hash ?t \<notin> ses_token_digest ` set (db_sessions (w_db noon))"
    by code_simp+
  have sid: "env_identifier afternoon (w_tick noon + 3) = PyStr ''w2''" "generated_text 1 (PyStr ''w2'') = Inr ''w2''"
      "''w2'' \<notin> ses_session_id ` set (db_sessions (w_db noon))"
    by code_simp+
  have ttl: "5000000 \<le> seconds (pol_max_age dev_policy)" "representable (ticking (w_tick noon + 1) + 5000000)"
      "ticking (w_tick noon + 14) + 1000000 \<le> ticking (w_tick noon + 1) + 5000000"
    by code_simp+
  have hd: "list_all (other_cookie dev_policy) other_cookies" "list_all (other_cookie dev_policy) []"
      "int (length (cookie_header (other_cookies @ (pol_name dev_policy, ?t) # []))) \<le> pol_max_header dev_policy"
      "int (length (cookie_text (pol_name dev_policy, ?t))) \<le> pol_max_header dev_policy"
      "method_of_text (upper (strip ''POST'')) = Some POST"
    by code_simp+
  from browser_login_works [OF afternoon_quiet u(6) same_hash_ok dev_policy_valid u(1-3) tok sid ttl hd(1,2) refl hd(3-5) web_boundary_def] u(4,5)
  show ?thesis by auto
qed

section \<open>A teacher's browser\<close>

definition some_teacher :: user_account where
  "some_teacher = \<lparr>acc_user_id = ''tea'', acc_display_name = ''Tea'', acc_role = RoleTeacher, acc_active = True,
     acc_created_at = 10, acc_updated_at = 25, acc_primary_email = None\<rparr>"

definition teacher_session :: user_session where
  "teacher_session = web_session\<lparr>ses_user_id := ''tea''\<rparr>"

definition teaching :: class_membership where
  "teaching = \<lparr>mem_user_id = ''tea'', mem_class_id = ''1A'', mem_role = MemberTeacher, mem_joined_at = 50,
     mem_source_provider = None, mem_source_group = None\<rparr>"

definition taught :: world where
  "taught = \<lparr>w_db = enrolled_classroom\<lparr>db_users := [root_admin, some_student, some_pending, some_teacher],
     db_memberships := [manual_membership, teaching], db_sessions := [teacher_session]\<rparr>, w_tick = 0\<rparr>"

definition web_dashboard :: "world dashboard_boundary" where
  "web_dashboard = sqlite_dashboard afternoon 5000000 dev_secret dev_policy same_hash"

lemma taught_ok: "db_ok (w_db taught)"
  by code_simp

definition taught_later :: world where
  "taught_later = taught\<lparr>w_db := w_db taught\<lparr>db_sessions := [teacher_session\<lparr>ses_last_seen_at := 203\<rparr>]\<rparr>, w_tick := 5\<rparr>"

lemma teacher_found:
  "authenticate_session (hb_sessions web_boundary) (PyStr old_token) taught =
     (Inr (teacher_session\<lparr>ses_last_seen_at := 203\<rparr>, some_teacher), taught_later\<lparr>w_tick := 4\<rparr>)"
  by code_simp

lemma teacher_found_valid:
  "authenticated_is_valid web_boundary (teacher_session\<lparr>ses_last_seen_at := 203\<rparr>) some_teacher old_token (ticking 4)"
  by code_simp

lemma teacher_admitted:
  assumes "list_all (\<lambda>r. r = ''admin'' \<or> r = ''teacher'' \<or> r = ''student'') rs" "''teacher'' \<in> set rs"
  shows "authorize_application web_boundary (Some (old_request ''POST'')) (Roles rs) taught =
    (Inr (old_context (teacher_session\<lparr>ses_last_seen_at := 203\<rparr>) some_teacher), taught_later)"
proof -
  have "authenticate_request web_boundary (Some (old_request ''POST'')) taught =
      (Inr (old_context (teacher_session\<lparr>ses_last_seen_at := 203\<rparr>) some_teacher), taught_later)"
    using old_request_admitted [OF disjI1 [OF refl] teacher_found] teacher_found_valid by (simp add: taught_later_def)
  moreover have "role_text (acc_role some_teacher) = ''teacher''" by (simp add: some_teacher_def)
  ultimately show ?thesis
    using assms by (auto simp: authorize_application_def application_roles_def action_simps old_context_def list_ex_iff)
qed

definition teacher_context :: http_context where
  "teacher_context = old_context (teacher_session\<lparr>ses_last_seen_at := 203\<rparr>) some_teacher"

lemma teacher_runs:
  "run_ok (authorize_teacher_dashboard web_dashboard (Some (old_request ''POST'')) taught)"
  "run_ok (authorize_student_dashboard web_dashboard (Some (old_request ''POST'')) (PyStr ''stu'') taught)"
proof -
  have http: "da_http web_dashboard = web_boundary" by (simp add: web_dashboard_def web_boundary_def)
  have "run_ok (bind_act (checked_snapshot web_dashboard teacher_context None) teacher_decision taught_later)"
    by code_simp
  moreover have "lift_http (authorize_application web_boundary (Some (old_request ''POST'')) (Roles [''admin'', ''teacher'']))
      taught = (Inr teacher_context, taught_later)"
    unfolding lift_http_Inr teacher_context_def by (rule teacher_admitted) simp_all
  ultimately show "run_ok (authorize_teacher_dashboard web_dashboard (Some (old_request ''POST'')) taught)"
    by (simp add: authorize_teacher_dashboard_def http)
  have "run_ok (bind_act (checked_snapshot web_dashboard teacher_context (Some ''stu'')) (student_decision ''stu'') taught_later)"
    "dashboard_identifier (PyStr ''stu'') = Inr ''stu''" "acc_role (ctx_user teacher_context) \<noteq> RoleStudent"
    by code_simp+
  moreover have "lift_http (authorize_application web_boundary (Some (old_request ''POST''))
      (Roles [''admin'', ''teacher'', ''student''])) taught = (Inr teacher_context, taught_later)"
    unfolding lift_http_Inr teacher_context_def by (rule teacher_admitted) simp_all
  ultimately show "run_ok (authorize_student_dashboard web_dashboard (Some (old_request ''POST'')) (PyStr ''stu'') taught)"
    by (simp add: authorize_student_dashboard_def http)
qed

theorem teacher_dashboard_is_scoped_witness:
  "\<exists>x w'. authorize_teacher_dashboard web_dashboard (Some (old_request ''POST'')) taught = (Inr x, w') \<and>
     (\<exists>u \<in> set (db_users (w_db w')). acc_user_id u = scp_actor_id x \<and> acc_active u)"
proof -
  from run_okD [OF teacher_runs(1)] obtain x w' where
    run: "authorize_teacher_dashboard web_dashboard (Some (old_request ''POST'')) taught = (Inr x, w')" by blast
  from teacher_dashboard_is_scoped [OF afternoon_honest taught_ok same_hash_ok run [unfolded web_dashboard_def]] run
  show ?thesis by blast
qed

theorem student_dashboard_is_scoped_witness:
  "\<exists>x w'. authorize_student_dashboard web_dashboard (Some (old_request ''POST'')) (PyStr ''stu'') taught = (Inr x, w') \<and>
     scp_student_id x = Some ''stu'' \<and> scp_class_ids x \<noteq> []"
proof -
  from run_okD [OF teacher_runs(2)] obtain x w' where
    run: "authorize_student_dashboard web_dashboard (Some (old_request ''POST'')) (PyStr ''stu'') taught = (Inr x, w')" by blast
  have "dashboard_identifier (PyStr ''stu'') = Inr ''stu''" by code_simp
  with student_dashboard_is_scoped [OF afternoon_honest taught_ok same_hash_ok run [unfolded web_dashboard_def]] run
  show ?thesis by auto
qed

theorem student_dashboard_decided_witness:
  "fst (authorize_student_dashboard web_dashboard (Some (old_request ''POST'')) (PyStr ''new'') taught) =
     Inl (AccessHttp HttpAuthorizationDenied) \<and>
   fst (authorize_student_dashboard web_dashboard (Some (old_request ''POST'')) (PyStr ''stu'') taught) =
     Inr \<lparr>scp_dashboard = DashStudent, scp_actor_id = ''tea'', scp_actor_role = RoleTeacher, scp_class_ids = [''1A''],
       scp_student_id = Some ''stu'', scp_all_classes = False\<rparr>"
proof -
  let ?d = "w_db taught_later"
  have adm: "authorize_application (sqlite_boundary afternoon 5000000 dev_secret dev_policy same_hash)
      (Some (old_request ''POST'')) (Roles [''admin'', ''teacher'', ''student'']) taught = (Inr teacher_context, taught_later)"
    unfolding web_boundary_def [symmetric] teacher_context_def by (rule teacher_admitted) simp_all
  have ids: "dashboard_identifier (PyStr ''new'') = Inr ''new''" "dashboard_identifier (PyStr ''stu'') = Inr ''stu''"
    by code_simp+
  have u: "ctx_user teacher_context = some_teacher" by (simp add: teacher_context_def old_context_def)
  note decided = student_dashboard_decided [OF afternoon_quiet taught_ok same_hash_ok adm _ refl refl refl refl, unfolded u]
  have facts: "acc_role some_teacher = RoleTeacher" "acc_user_id some_teacher = ''tea''"
    "shared_classes (active_class_ids ?d ''tea'' ''teacher'') (active_class_ids ?d ''stu'' ''student'') = [''1A'']"
    "db_users ?d = [root_admin, some_student, some_pending, some_teacher]"
    "acc_role some_pending = RolePending" "acc_role root_admin = RoleAdmin" "acc_user_id some_student = ''stu''" "acc_active some_student"
    "acc_role some_student = RoleStudent"
    by code_simp+
  show ?thesis
    using decided [OF ids(1)] decided [OF ids(2)] facts by (simp add: web_dashboard_def)
qed

section \<open>The administrator\<close>

definition no_admin :: world where
  "no_admin = \<lparr>w_db = school\<lparr>db_users := [some_student, some_pending]\<rparr>, w_tick = 0\<rparr>"

theorem bootstrapped_admin_is_alone_witness:
  "\<exists>u n w'. bootstrap_admin (sqlite_bootstrap afternoon) (PyStr ''new'') no_admin = (Inr (u, n), w') \<and>
     {a \<in> set (db_users (w_db w')). acc_role a = RoleAdmin} = {u} \<and> acc_active u"
proof -
  have "db_ok (w_db no_admin)" "run_ok (bootstrap_admin (sqlite_bootstrap afternoon) (PyStr ''new'') no_admin)"
    by code_simp+
  moreover from run_ok_pair [OF this(2)] obtain u n w' where
    "bootstrap_admin (sqlite_bootstrap afternoon) (PyStr ''new'') no_admin = (Inr (u, n), w')" by blast
  ultimately show ?thesis using bootstrapped_admin_is_alone [OF afternoon_honest] by blast
qed

theorem approved_account_is_stored_witness:
  "\<exists>u m n w'. approve_pending (sqlite_provisioning afternoon 100) (Some root_admin) (PyStr ''new'') (utc_datetime 30)
       (PyStr ''student'') (PyStr ''1A'') noon = (Inr (u, m, n), w') \<and>
     u \<in> set (db_users (w_db w')) \<and> acc_role u = RoleStudent"
proof -
  let ?run = "approve_pending (sqlite_provisioning afternoon 100) (Some root_admin) (PyStr ''new'') (utc_datetime 30)
       (PyStr ''student'') (PyStr ''1A'') noon"
  have "run_ok ?run" by code_simp
  from run_ok_triple [OF this] obtain u m n w' where run: "?run = (Inr (u, m, n), w')" by blast
  have "db_ok (w_db noon)" by (simp add: noon_def school_ok)
  note stored = approved_account_is_stored [OF afternoon_honest this run]
  from stored have "u \<in> set (db_users (w_db w'))" by (rule conjunct1)
  moreover from stored have "PyStr ''1A'' = PyNone \<or> acc_role u = RoleStudent" by blast
  ultimately show ?thesis using run by auto
qed

section \<open>The student API\<close>

definition learner_scope :: request_authorization where
  "learner_scope = \<lparr>sra_user_id = ''stu'', sra_subject_id = the_subject, sra_class_ids = [''1A''],
     sra_revision = snp_revision the_snapshot, sra_public_id = ''old7'', sra_snapshot = the_snapshot\<rparr>"

lemma learner_scope_found: "student_authorization constant_hash ''stu'' the_snapshot = Inr learner_scope"
  by code_simp

definition foreign_assignment :: json where
  "foreign_assignment = JObj [(''id'', JStr ''a2''), (''class_id'', JStr ''2B''), (''targets'', JList [JObj legacy_target])]"

theorem visible_assignments_are_own_witness:
  "\<exists>v. visible_assignments constant_hash learner_scope (Some [foreign_assignment, legacy_assignment]) = Inr [v] \<and>
     asg_assignment_json v = json_dumps legacy_assignment \<and> asg_class_id v = ''1A''"
proof -
  let ?run = "visible_assignments constant_hash learner_scope (Some [foreign_assignment, legacy_assignment])"
  let ?v = "from_resolution legacy_assignment legacy_resolution"
  have res: "resolve_assignment_target constant_hash (PyStr ''stu'') the_snapshot foreign_assignment = Inl ClassMismatch"
    by code_simp
  have "tgt_revision legacy_resolution = snp_revision the_snapshot" by (simp add: legacy_resolution_def the_snapshot_def)
  then have run: "?run = Inr [?v]"
    using res legacy_resolved
    by (simp add: visible_assignments_def authorize_assignment_def learner_scope_def hidden_def bind_result_def)
  from visible_assignments_are_own [OF learner_scope_found run] res legacy_resolved run
  show ?thesis by (intro exI [of _ ?v]) (simp add: learner_scope_def)
qed

theorem student_request_is_backed_witness:
  "\<exists>a w' u. authorize_student_request (sqlite_snapshot_read afternoon constant_hash) constant_hash ''stu''
      \<lparr>w_db = enrolled_classroom, w_tick = 0\<rparr> = (Inr a, w') \<and> lookup_user (w_db w') ''stu'' = Some u \<and> acc_active u"
proof -
  let ?w = "\<lparr>w_db = enrolled_classroom, w_tick = 0\<rparr>"
  let ?run = "authorize_student_request (sqlite_snapshot_read afternoon constant_hash) constant_hash ''stu'' ?w"
  have "run_ok ?run" by code_simp
  from run_okD [OF this] obtain a w' where run: "?run = (Inr a, w')" by blast
  have "db_ok (w_db ?w)" by (simp add: classrooms_ok)
  from student_request_is_backed [OF afternoon_honest this constant_hash_shape run] run show ?thesis by blast
qed

end
