(* ===== verification/Github_Teams.thy ===== *)
theory Github_Teams
  imports Auth_Ports "HOL-Library.AList"
begin

text \<open>
  \<^verbatim>\<open>scripts/thebitlab_github_team_mapping.py\<close>: the snapshot of a user's GitHub teams that a directory
  delivers, the mappings of teams to classes, the promotion of a pending user with one mapped
  team, and the reconciliation of a student's memberships. The directory is a parameter.
\<close>

section \<open>Exceptions\<close>

text \<open>
  The exceptions of the module; \<open>TeamDomain\<close>, \<open>TeamStorage\<close>, \<open>TeamOverflow\<close> and \<open>TeamLookup\<close> are
  those of the domain, the storage, \<^verbatim>\<open>datetime\<close> arithmetic and dictionaries, which it lets through.
\<close>

datatype team_error =
    DirectoryUnavailable
  | DirectoryRejected
  | TeamDenied
  | TeamConflict
  | TeamNotFound
  | TeamDomain identity_error
  | TeamStorage storage_error
  | TeamOverflow
  | TeamLookup

type_synonym ('s, 'a) team_action = "('s, team_error, 'a) action"

definition team_storage :: "('s, 'a) storage_call \<Rightarrow> ('s, 'a) team_action" where
  "team_storage m = try_act m (\<lambda>e. raise_act (TeamStorage e)) return_act"

text \<open>\<^verbatim>\<open>except (IdentityStorageConflictError, IdentityStorageNotFoundError)\<close>\<close>

definition lost_race :: "storage_error \<Rightarrow> team_error" where
  "lost_race e = (if is_conflict e \<or> e = StorageNotFound then TeamConflict else TeamStorage e)"

definition team_guarded :: "('s, 'a) storage_call \<Rightarrow> ('s, 'a) team_action" where
  "team_guarded m = try_act m (\<lambda>e. raise_act (lost_race e)) return_act"

section \<open>Texts, subjects and times\<close>

definition team_text :: "nat \<Rightarrow> pyval \<Rightarrow> (team_error, string) result" where
  "team_text maximum v =
     (case v of
        PyStr s \<Rightarrow>
          if strip s = [] \<or> strip s \<noteq> s \<or> maximum < length (strip s) \<or> list_ex is_control (strip s)
          then Inl DirectoryRejected else Inr (strip s)
      | _ \<Rightarrow> Inl DirectoryRejected)"

definition decimal_digit :: "char \<Rightarrow> bool" where
  "decimal_digit c \<longleftrightarrow> 48 \<le> code_point c \<and> code_point c \<le> 57"

definition max_github_subject :: int where
  "max_github_subject = 9223372036854775807"

definition numeric_subject :: "pyval \<Rightarrow> (team_error, string) result" where
  "numeric_subject v =
     bind_result (team_text 19 v) (\<lambda>t.
     if \<not> ascii_text t \<or> \<not> list_all decimal_digit t \<or> take 1 t = ''0'' then Inl DirectoryRejected
     else (case digits_value 0 t of
             None \<Rightarrow> Inl DirectoryRejected
           | Some n \<Rightarrow>
               if n \<le> 0 \<or> max_github_subject < n \<or> int_text n \<noteq> t then Inl DirectoryRejected else Inr t))"

definition team_time :: "team_error \<Rightarrow> pyval \<Rightarrow> (team_error, instant) result" where
  "team_time invalid v = map_error (\<lambda>e. if e = AuthOverflow then TeamOverflow else invalid) (utc v)"

definition team_clock :: "'s source \<Rightarrow> ('s, instant) team_action" where
  "team_clock clock s = (case clock s of (v, t) \<Rightarrow> (team_time TeamConflict v, t))"

definition next_generation :: "instant \<Rightarrow> instant option \<Rightarrow> (team_error, instant) result" where
  "next_generation candidate previous =
     (case previous of
        None \<Rightarrow> Inr candidate
      | Some p \<Rightarrow>
          if p < candidate then Inr candidate
          else if representable (p + 1) then Inr (p + 1) else Inl TeamConflict)"

section \<open>Teams and snapshots\<close>

record team =
  tm_organization :: string
  tm_team :: string
  tm_name :: "string option"

definition make_team :: "pyval \<Rightarrow> pyval \<Rightarrow> pyval \<Rightarrow> (team_error, team) result" where
  "make_team organization team_subject display_name =
     bind_result (numeric_subject organization) (\<lambda>o'.
     bind_result (numeric_subject team_subject) (\<lambda>t.
     bind_result (if display_name = PyNone then Inr None
                  else bind_result (team_text 512 display_name) (\<lambda>n. Inr (Some n))) (\<lambda>n.
     Inr \<lparr>tm_organization = o', tm_team = t, tm_name = n\<rparr>)))"

definition team_key :: "team \<Rightarrow> string \<times> string \<times> string" where
  "team_key t = (''github'', tm_organization t, tm_team t)"

definition group_key :: "team \<Rightarrow> string \<times> string" where
  "group_key t = (tm_organization t, tm_team t)"

record team_snapshot =
  ts_user :: string
  ts_teams :: "team list"
  ts_captured_at :: instant

definition max_teams :: nat where
  "max_teams = 200"

text \<open>A snapshot that exists is complete: the constructor refuses any other.\<close>

definition make_team_snapshot :: "pyval \<Rightarrow> team list \<Rightarrow> pyval \<Rightarrow> pyval \<Rightarrow> (team_error, team_snapshot) result" where
  "make_team_snapshot user teams captured complete =
     bind_result (numeric_subject user) (\<lambda>u.
     if max_teams < length teams then Inl DirectoryRejected
     else if \<not> distinct (map team_key teams) then Inl DirectoryRejected
     else if complete \<noteq> PyBool True then Inl DirectoryRejected
     else bind_result (team_time DirectoryRejected captured) (\<lambda>c.
       Inr \<lparr>ts_user = u, ts_teams = teams, ts_captured_at = c\<rparr>))"

text \<open>
  What an adapter returns: an object of another class (\<open>None\<close>) or an instance whose fields were
  never checked; its teams are no tuple (\<open>None\<close>) or a tuple of such objects.
\<close>

record raw_team =
  rt_organization :: pyval
  rt_team :: pyval
  rt_name :: pyval

record raw_snapshot =
  rs_user :: pyval
  rs_teams :: "raw_team option list option"
  rs_captured :: pyval
  rs_complete :: pyval

fun make_teams :: "raw_team option list \<Rightarrow> (team_error, team list) result" where
  "make_teams [] = Inr []"
| "make_teams (None # rs) = make_teams rs"
| "make_teams (Some r # rs) =
     bind_result (make_team (rt_organization r) (rt_team r) (rt_name r)) (\<lambda>t.
     bind_result (make_teams rs) (\<lambda>ts. Inr (t # ts)))"

definition validated_snapshot :: "raw_snapshot option \<Rightarrow> string \<Rightarrow> (team_error, team_snapshot) result" where
  "validated_snapshot value expected =
     (case value of
        None \<Rightarrow> Inl DirectoryRejected
      | Some r \<Rightarrow>
          (case rs_teams r of
             None \<Rightarrow> Inl DirectoryRejected
           | Some xs \<Rightarrow>
               if max_teams < length xs then Inl DirectoryRejected
               else bind_result
                 (map_error (\<lambda>_. DirectoryRejected) (bind_result (make_teams xs) (\<lambda>ts.
                    if length ts \<noteq> length xs then Inl DirectoryRejected
                    else make_team_snapshot (rs_user r) ts (rs_captured r) (rs_complete r)))) (\<lambda>s.
                 if ts_user s \<noteq> expected then Inl DirectoryRejected else Inr s)))"

section \<open>Directories\<close>

datatype directory_failure = FailUnavailable | FailRejected | FailOther

type_synonym 's team_directory = "string \<Rightarrow> ('s, directory_failure, raw_snapshot option) action"

definition raw_of_team :: "team \<Rightarrow> raw_team" where
  "raw_of_team t = \<lparr>rt_organization = PyStr (tm_organization t), rt_team = PyStr (tm_team t), rt_name = py_optional PyStr (tm_name t)\<rparr>"

definition raw_of_snapshot :: "team_snapshot \<Rightarrow> raw_snapshot" where
  "raw_of_snapshot s =
     \<lparr>rs_user = PyStr (ts_user s), rs_teams = Some (map (\<lambda>t. Some (raw_of_team t)) (ts_teams s)),
      rs_captured = utc_datetime (ts_captured_at s), rs_complete = PyBool True\<rparr>"

text \<open>\<^verbatim>\<open>FakeGitHubTeamDirectory\<close>; \<open>now\<close> is the system clock.\<close>

definition fake_directory ::
  "(string \<Rightarrow> team_snapshot option) \<Rightarrow> string list \<Rightarrow> ('s \<Rightarrow> instant \<times> 's) \<Rightarrow> 's team_directory" where
  "fake_directory snapshots unavailable now subject =
     (case numeric_subject (PyStr subject) of
        Inl _ \<Rightarrow> raise_act FailRejected
      | Inr i \<Rightarrow>
          if List.member unavailable i then raise_act FailUnavailable
          else (case snapshots i of
                  Some x \<Rightarrow> return_act (Some (raw_of_snapshot x))
                | None \<Rightarrow> (\<lambda>s. case now s of (t, s') \<Rightarrow>
                    (Inr (Some (raw_of_snapshot \<lparr>ts_user = i, ts_teams = [], ts_captured_at = t\<rparr>)), s'))))"

section \<open>The storage protocol\<close>

record 's team_port =
  tp_read_user :: "string \<Rightarrow> ('s, user_account option) storage_call"
  tp_read_class :: "string \<Rightarrow> ('s, class_group option) storage_call"
  tp_memberships :: "string \<Rightarrow> ('s, class_membership list) storage_call"
  tp_identities :: "string \<Rightarrow> ('s, external_identity list) storage_call"
  tp_read_mapping :: "string \<times> string \<times> string \<Rightarrow> ('s, group_mapping option) storage_call"
  tp_latest :: "string \<times> string \<times> string \<Rightarrow> ('s, instant option) storage_call"
  tp_save_mapping :: "group_mapping \<Rightarrow> string \<Rightarrow> instant \<Rightarrow> instant \<Rightarrow> instant option \<Rightarrow> instant option \<Rightarrow> ('s, unit) storage_call"
  tp_delete_mapping :: "group_mapping \<Rightarrow> string \<Rightarrow> instant \<Rightarrow> instant \<Rightarrow> ('s, bool) storage_call"
  tp_revoke :: "string \<Rightarrow> instant \<Rightarrow> class_membership list \<Rightarrow> ('s, unit) storage_call"
  tp_synchronize :: "github_sync \<Rightarrow> ('s, unit) storage_call"
  tp_onboard :: "github_onboarding \<Rightarrow> ('s, unit) storage_call"

section \<open>Mappings of teams to classes\<close>

record 's mapping_service =
  mas_storage :: "'s team_port"
  mas_clock :: "'s source"

definition admin_and_class :: "'s mapping_service \<Rightarrow> pyval \<Rightarrow> pyval \<Rightarrow> ('s, user_account \<times> class_group) team_action" where
  "admin_and_class srv admin_id class_id =
     bind_act (lift_act (team_text 512 admin_id)) (\<lambda>a.
     bind_act (team_storage (tp_read_user (mas_storage srv) a)) (\<lambda>found.
     case found of
       None \<Rightarrow> raise_act TeamDenied
     | Some actor \<Rightarrow>
         if \<not> acc_active actor \<or> acc_role actor \<noteq> RoleAdmin then raise_act TeamDenied
         else bind_act (lift_act (team_text 512 class_id)) (\<lambda>c.
           bind_act (team_storage (tp_read_class (mas_storage srv) c)) (\<lambda>known.
           case known of
             None \<Rightarrow> raise_act TeamNotFound
           | Some k \<Rightarrow> if \<not> cls_active k then raise_act TeamConflict else return_act (actor, k)))))"

definition team_mapping :: "team \<Rightarrow> class_group \<Rightarrow> instant \<Rightarrow> pyval \<Rightarrow> (team_error, group_mapping) result" where
  "team_mapping t k created updated =
     map_error TeamDomain (make_group_mapping (PyStr ''github'') (PyStr (tm_organization t)) (PyStr (tm_team t))
       (PyStr (cls_class_id k)) (utc_datetime created) (py_optional PyStr (tm_name t)) updated)"

definition mapping_attempts :: nat where
  "mapping_attempts = 5"

fun save_new_mapping ::
  "nat \<Rightarrow> 's mapping_service \<Rightarrow> team \<Rightarrow> user_account \<Rightarrow> class_group \<Rightarrow> instant \<Rightarrow> ('s, group_mapping) team_action" where
  "save_new_mapping 0 srv t actor k candidate = raise_act TeamConflict"
| "save_new_mapping (Suc n) srv t actor k candidate =
     bind_act (team_storage (tp_latest (mas_storage srv) (team_key t))) (\<lambda>previous.
     bind_act (lift_act (next_generation candidate previous)) (\<lambda>created.
     bind_act (lift_act (team_mapping t k created PyNone)) (\<lambda>m.
     try_act (tp_save_mapping (mas_storage srv) m (acc_user_id actor) (acc_updated_at actor) (cls_updated_at k) None None)
       (\<lambda>e. if e = MappingGenerationConflict
            then bind_act (team_storage (tp_read_mapping (mas_storage srv) (team_key t))) (\<lambda>current.
              if current \<noteq> None then raise_act TeamConflict
              else bind_act (lift_act (next_generation created (Some created)))
                (save_new_mapping n srv t actor k))
            else raise_act (lost_race e))
       (\<lambda>_. return_act m))))"

definition save_team_mapping ::
  "'s mapping_service \<Rightarrow> pyval \<Rightarrow> pyval \<Rightarrow> pyval \<Rightarrow> pyval \<Rightarrow> pyval \<Rightarrow> ('s, group_mapping) team_action" where
  "save_team_mapping srv admin_id class_id organization team_subject display_name =
     bind_act (lift_act (make_team organization team_subject display_name)) (\<lambda>t.
     bind_act (admin_and_class srv admin_id class_id) (\<lambda>(actor, k).
     bind_act (team_storage (tp_read_mapping (mas_storage srv) (team_key t))) (\<lambda>existing.
     case existing of
       Some x \<Rightarrow>
         if map_class_id x \<noteq> cls_class_id k then raise_act TeamConflict
         else bind_act (team_clock (mas_clock srv)) (\<lambda>now.
           bind_act (lift_act (next_generation now (Some (map_updated_at x)))) (\<lambda>updated.
           bind_act (lift_act (team_mapping t k (map_created_at x) (utc_datetime updated))) (\<lambda>m.
           bind_act (team_guarded (tp_save_mapping (mas_storage srv) m (acc_user_id actor) (acc_updated_at actor)
             (cls_updated_at k) (Some (map_created_at x)) (Some (map_updated_at x)))) (\<lambda>_.
           return_act m))))
     | None \<Rightarrow> bind_act (team_clock (mas_clock srv)) (save_new_mapping mapping_attempts srv t actor k))))"

definition delete_team_mapping ::
  "'s mapping_service \<Rightarrow> pyval \<Rightarrow> pyval \<Rightarrow> pyval \<Rightarrow> ('s, group_mapping) team_action" where
  "delete_team_mapping srv admin_id organization team_subject =
     bind_act (lift_act (make_team organization team_subject PyNone)) (\<lambda>t.
     bind_act (team_storage (tp_read_mapping (mas_storage srv) (team_key t))) (\<lambda>found.
     case found of
       None \<Rightarrow> raise_act TeamNotFound
     | Some m \<Rightarrow>
         bind_act (admin_and_class srv admin_id (PyStr (map_class_id m))) (\<lambda>(actor, k).
         bind_act (try_act (tp_delete_mapping (mas_storage srv) m (acc_user_id actor) (acc_updated_at actor) (cls_updated_at k))
             (\<lambda>e. raise_act (if is_conflict e then TeamConflict else TeamStorage e)) return_act) (\<lambda>removed.
         if removed \<noteq> True then raise_act TeamConflict else return_act m))))"

end
