(* ===== verification/Github_Sync.thy ===== *)
theory Github_Sync
  imports Github_Teams
begin

text \<open>
  \<^verbatim>\<open>GitHubPendingOnboardingService\<close> and \<^verbatim>\<open>GitHubMembershipSyncService\<close>: what the teams of a user mean
  for the account, decided on a fresh snapshot and handed to the storage with everything that
  was seen.
\<close>

section \<open>The common part\<close>

record 's reconciler =
  rec_storage :: "'s team_port"
  rec_directory :: "'s team_directory"
  rec_clock :: "'s source"
  rec_max_age :: int
  rec_skew :: int

text \<open>Durations are in microseconds.\<close>

definition make_reconciler ::
  "'s team_port \<Rightarrow> 's team_directory \<Rightarrow> 's source \<Rightarrow> int \<Rightarrow> int \<Rightarrow> (team_error, 's reconciler) result" where
  "make_reconciler storage directory clock max_age skew =
     (if \<not> (1000000 \<le> max_age \<and> max_age \<le> 600000000) \<or> \<not> (0 \<le> skew \<and> skew \<le> 120000000)
      then Inl DirectoryRejected
      else Inr \<lparr>rec_storage = storage, rec_directory = directory, rec_clock = clock,
                rec_max_age = max_age, rec_skew = skew\<rparr>)"

definition account_of :: "'s reconciler \<Rightarrow> pyval \<Rightarrow> ('s, user_account) team_action" where
  "account_of srv user_id =
     bind_act (lift_act (team_text 512 user_id)) (\<lambda>i.
     bind_act (team_storage (tp_read_user (rec_storage srv) i)) (\<lambda>found.
     case found of None \<Rightarrow> raise_act TeamNotFound | Some u \<Rightarrow> return_act u))"

definition github_links :: "'s reconciler \<Rightarrow> user_account \<Rightarrow> ('s, external_identity list) team_action" where
  "github_links srv u =
     bind_act (team_storage (tp_identities (rec_storage srv) (acc_user_id u))) (\<lambda>xs.
     return_act (filter (\<lambda>x. ext_provider x = ''github'') xs))"

definition team_stale :: "'s reconciler \<Rightarrow> external_identity \<Rightarrow> team_snapshot \<Rightarrow> instant \<Rightarrow> (team_error, bool) result" where
  "team_stale srv x s now =
     (if ts_captured_at s < ext_linked_at x then Inr True
      else map_error (\<lambda>_. TeamOverflow) (snapshot_stale (ts_captured_at s) now (rec_max_age srv) (rec_skew srv)))"

definition fresh_snapshot :: "'s reconciler \<Rightarrow> external_identity \<Rightarrow> ('s, team_snapshot) team_action" where
  "fresh_snapshot srv x =
     bind_act (try_act (rec_directory srv (ext_subject x))
         (\<lambda>e. raise_act (if e = FailRejected then DirectoryRejected else DirectoryUnavailable)) return_act) (\<lambda>value.
     bind_act (lift_act (validated_snapshot value (ext_subject x))) (\<lambda>s.
     bind_act (team_clock (rec_clock srv)) (\<lambda>now.
     bind_act (lift_act (team_stale srv x s now)) (\<lambda>stale.
     if stale then raise_act DirectoryRejected else return_act s))))"

fun read_mappings :: "'s reconciler \<Rightarrow> team list \<Rightarrow> ('s, group_mapping list) team_action" where
  "read_mappings srv [] = return_act []"
| "read_mappings srv (t # ts) =
     bind_act (team_storage (tp_read_mapping (rec_storage srv) (team_key t))) (\<lambda>m.
     bind_act (read_mappings srv ts) (\<lambda>ms.
     return_act (case m of None \<Rightarrow> ms | Some x \<Rightarrow> x # ms)))"

text \<open>\<^verbatim>\<open>_next_generation(_utc(self.clock()), account.updated_at)\<close> and the membership that starts then\<close>

definition new_membership ::
  "'s reconciler \<Rightarrow> user_account \<Rightarrow> string \<Rightarrow> string \<Rightarrow> ('s, class_membership) team_action" where
  "new_membership srv u class_id group_subject =
     bind_act (team_clock (rec_clock srv)) (\<lambda>now.
     bind_act (lift_act (next_generation now (Some (acc_updated_at u)))) (\<lambda>joined.
     lift_act (map_error TeamDomain (make_class_membership (PyStr (acc_user_id u)) (PyStr class_id) (PyStr ''student'')
       (utc_datetime joined) (PyStr ''github'') (PyStr group_subject)))))"

section \<open>Pending users\<close>

record onboarding_result =
  onr_status :: string
  onr_reason :: string
  onr_membership :: "class_membership option"

definition still_pending :: "string \<Rightarrow> onboarding_result" where
  "still_pending reason = \<lparr>onr_status = ''pending'', onr_reason = reason, onr_membership = None\<rparr>"

definition onboard_through ::
  "'s reconciler \<Rightarrow> user_account \<Rightarrow> external_identity \<Rightarrow> team_snapshot \<Rightarrow> group_mapping \<Rightarrow> ('s, onboarding_result) team_action"
where
  "onboard_through srv u x s mapping =
     bind_act (team_storage (tp_read_class (rec_storage srv) (map_class_id mapping))) (\<lambda>found.
     case found of
       None \<Rightarrow> return_act (still_pending ''class-unavailable'')
     | Some k \<Rightarrow>
         if \<not> cls_active k then return_act (still_pending ''class-unavailable'')
         else bind_act (new_membership srv u (cls_class_id k) (map_group mapping)) (\<lambda>m.
           bind_act (team_guarded (tp_onboard (rec_storage srv)
             \<lparr>go_membership = m, go_user_revision = acc_updated_at u, go_subject = ext_subject x,
              go_linked_at = ext_linked_at x, go_mapping = mapping, go_group_keys = map group_key (ts_teams s),
              go_captured_at = ts_captured_at s, go_max_age = rec_max_age srv, go_skew = rec_skew srv,
              go_class_revision = cls_updated_at k\<rparr>)) (\<lambda>_.
           return_act \<lparr>onr_status = ''onboarded'', onr_reason = ''single-mapped-team'', onr_membership = Some m\<rparr>)))"

definition reconcile_pending :: "'s reconciler \<Rightarrow> pyval \<Rightarrow> ('s, onboarding_result) team_action" where
  "reconcile_pending srv user_id =
     bind_act (account_of srv user_id) (\<lambda>u.
     if \<not> acc_active u \<or> acc_role u \<noteq> RolePending then return_act (still_pending ''not-eligible'')
     else bind_act (github_links srv u) (\<lambda>links.
     case links of
       [x] \<Rightarrow>
         bind_act (fresh_snapshot srv x) (\<lambda>s.
         bind_act (read_mappings srv (ts_teams s)) (\<lambda>mapped.
         case mapped of
           [] \<Rightarrow> return_act (still_pending ''no-mapped-team'')
         | [mapping] \<Rightarrow> onboard_through srv u x s mapping
         | _ \<Rightarrow> return_act (still_pending ''ambiguous-mapped-teams'')))
     | _ \<Rightarrow> return_act (still_pending ''github-not-linked'')))"

section \<open>Students\<close>

record sync_result =
  syn_status :: string
  syn_reason :: string
  syn_added :: "string list"
  syn_removed :: "string list"

definition unchanged :: "string \<Rightarrow> sync_result" where
  "unchanged reason = \<lparr>syn_status = ''unchanged'', syn_reason = reason, syn_added = [], syn_removed = []\<rparr>"

definition from_github :: "class_membership \<Rightarrow> bool" where
  "from_github m \<longleftrightarrow> mem_role m = MemberStudent \<and> mem_source_provider m = Some ''github''"

definition by_hand :: "class_membership \<Rightarrow> bool" where
  "by_hand m \<longleftrightarrow> mem_role m = MemberStudent \<and> mem_source_provider m \<noteq> Some ''github''"

definition revoke_unlinked :: "'s reconciler \<Rightarrow> user_account \<Rightarrow> ('s, sync_result) team_action" where
  "revoke_unlinked srv u =
     bind_act (team_storage (tp_memberships (rec_storage srv) (acc_user_id u))) (\<lambda>ms.
     let ids = sort (map mem_class_id (filter from_github ms))
     in bind_act (team_guarded (tp_revoke (rec_storage srv) (acc_user_id u) (acc_updated_at u) ms)) (\<lambda>_.
        return_act \<lparr>syn_status = (if ids \<noteq> [] then ''synchronized'' else ''unchanged''),
          syn_reason = ''github-unlinked'', syn_added = [], syn_removed = ids\<rparr>))"

text \<open>The dictionary of the classes of the mappings, by identifier.\<close>

fun read_classes ::
  "'s reconciler \<Rightarrow> group_mapping list \<Rightarrow> (string \<times> class_group) list \<Rightarrow> ('s, (string \<times> class_group) list) team_action"
where
  "read_classes srv [] known = return_act known"
| "read_classes srv (m # ms) known =
     bind_act (team_storage (tp_read_class (rec_storage srv) (map_class_id m))) (\<lambda>found.
     case found of
       None \<Rightarrow> raise_act TeamConflict
     | Some k \<Rightarrow> read_classes srv ms (AList.update (cls_class_id k) k known))"

text \<open>The first mapping of each class that is active and not already joined by hand.\<close>

fun select_mappings ::
  "(string \<times> class_group) list \<Rightarrow> string list \<Rightarrow> group_mapping list \<Rightarrow> (string \<times> group_mapping) list \<Rightarrow>
   (team_error, (string \<times> group_mapping) list) result"
where
  "select_mappings classes manual [] chosen = Inr chosen"
| "select_mappings classes manual (m # ms) chosen =
     (case map_of classes (map_class_id m) of
        None \<Rightarrow> Inl TeamLookup
      | Some k \<Rightarrow>
          select_mappings classes manual ms
            (if cls_active k \<and> \<not> List.member manual (map_class_id m) \<and> map_of chosen (map_class_id m) = None
             then chosen @ [(map_class_id m, m)] else chosen))"

fun desired_memberships ::
  "'s reconciler \<Rightarrow> user_account \<Rightarrow> (string \<times> class_membership) list \<Rightarrow> (string \<times> group_mapping) list \<Rightarrow>
   ('s, class_membership list) team_action"
where
  "desired_memberships srv u current [] = return_act []"
| "desired_memberships srv u current ((c, m) # rest) =
     bind_act
       (case map_of current c of
          Some k \<Rightarrow> if mem_source_group k = Some (map_group m) then return_act k else new_membership srv u c (map_group m)
        | None \<Rightarrow> new_membership srv u c (map_group m)) (\<lambda>k.
     bind_act (desired_memberships srv u current rest) (\<lambda>ks. return_act (k # ks)))"

definition current_memberships :: "class_membership list \<Rightarrow> (string \<times> class_membership) list" where
  "current_memberships ms = fold (\<lambda>m. AList.update (mem_class_id m) m) (filter from_github ms) []"

definition sorted_keys :: "group_mapping list \<Rightarrow> group_mapping list" where
  "sorted_keys ms = sort_key map_provider (sort_key map_organization (sort_key map_group ms))"

definition synchronize_student ::
  "'s reconciler \<Rightarrow> user_account \<Rightarrow> external_identity \<Rightarrow> team_snapshot \<Rightarrow> ('s, sync_result) team_action" where
  "synchronize_student srv u x s =
     bind_act (read_mappings srv (ts_teams s)) (\<lambda>found.
     let mappings = sorted_keys found
     in bind_act (read_classes srv mappings []) (\<lambda>classes.
     bind_act (team_storage (tp_memberships (rec_storage srv) (acc_user_id u))) (\<lambda>ms.
     let current = current_memberships ms
     in bind_act (lift_act (select_mappings classes (map mem_class_id (filter by_hand ms)) mappings [])) (\<lambda>chosen.
     bind_act (desired_memberships srv u current (sort_key fst chosen)) (\<lambda>desired.
     let already = (sort_key mem_class_id (map snd current) = desired);
         before = map fst current; after = map mem_class_id desired
     in bind_act (team_guarded (tp_synchronize (rec_storage srv)
          \<lparr>gs_user_id = acc_user_id u, gs_desired = desired, gs_user_revision = acc_updated_at u,
           gs_subject = ext_subject x, gs_linked_at = ext_linked_at x, gs_memberships = ms, gs_mappings = mappings,
           gs_group_keys = map group_key (ts_teams s), gs_captured_at = ts_captured_at s,
           gs_max_age = rec_max_age srv, gs_skew = rec_skew srv, gs_classes = sort_key cls_class_id (map snd classes)\<rparr>)) (\<lambda>_.
        return_act
          \<lparr>syn_status = (if already then ''unchanged'' else ''synchronized''),
           syn_reason = (if already then ''already-current'' else ''complete-snapshot''),
           syn_added = sort (remdups (filter (\<lambda>c. \<not> List.member before c) after)),
           syn_removed = sort (remdups (filter (\<lambda>c. \<not> List.member after c) before))\<rparr>))))))"

definition reconcile_student :: "'s reconciler \<Rightarrow> pyval \<Rightarrow> ('s, sync_result) team_action" where
  "reconcile_student srv user_id =
     bind_act (account_of srv user_id) (\<lambda>u.
     if \<not> acc_active u \<or> acc_role u \<noteq> RoleStudent then return_act (unchanged ''not-eligible'')
     else bind_act (github_links srv u) (\<lambda>links.
     case links of
       [] \<Rightarrow> revoke_unlinked srv u
     | [x] \<Rightarrow> bind_act (fresh_snapshot srv x) (synchronize_student srv u x)
     | _ \<Rightarrow> return_act (unchanged ''github-identity-ambiguous'')))"

end
