(* ===== verification/Github_Contract.thy ===== *)
theory Github_Contract
  imports Github_Sync Auth_Sessions
begin

text \<open>
  What the GitHub services ask of their storage, as the locale \<open>team_registry\<close>, and what they
  guarantee over any storage that keeps the contract.
\<close>

section \<open>Dictionaries and selections\<close>

lemma fold_update_map_of:
  "map_of (fold (\<lambda>m. AList.update (f m) m) ms al) c = Some m \<Longrightarrow> map_of al c = Some m \<or> m \<in> set ms \<and> f m = c"
proof (induction ms arbitrary: al)
  case (Cons a ms)
  with Cons.IH [of "AList.update (f a) a al"] show ?case by (auto simp: AList.update_conv' split: if_splits)
qed simp

lemma fold_update_keys:
  "fst ` set (fold (\<lambda>m. AList.update (f m) m) ms al) = fst ` set al \<union> f ` set ms"
  "distinct (map fst al) \<Longrightarrow> distinct (map fst (fold (\<lambda>m. AList.update (f m) m) ms al))"
  by (induction ms arbitrary: al) (auto simp: dom_update AList.distinct_update)

lemma current_memberships_facts:
  "map_of (current_memberships ms) c = Some m \<Longrightarrow> m \<in> set ms \<and> from_github m \<and> mem_class_id m = c"
  "fst ` set (current_memberships ms) = mem_class_id ` {m \<in> set ms. from_github m}"
  "distinct (map fst (current_memberships ms))"
proof -
  show "m \<in> set ms \<and> from_github m \<and> mem_class_id m = c" if "map_of (current_memberships ms) c = Some m"
    using fold_update_map_of [OF that [unfolded current_memberships_def]] by simp
  show "fst ` set (current_memberships ms) = mem_class_id ` {m \<in> set ms. from_github m}"
    unfolding current_memberships_def fold_update_keys(1) by simp
  show "distinct (map fst (current_memberships ms))"
    unfolding current_memberships_def by (rule fold_update_keys(2)) simp
qed

text \<open>The classes a selection is made of: those with a mapping, active and not joined by hand.\<close>

definition selectable :: "(string \<times> class_group) list \<Rightarrow> string list \<Rightarrow> string \<Rightarrow> bool" where
  "selectable classes manual c \<longleftrightarrow> c \<notin> set manual \<and> (\<exists>k. map_of classes c = Some k \<and> cls_active k)"

lemma select_mappings_Inr:
  assumes "select_mappings classes manual ms chosen = Inr out" "distinct (map fst chosen)"
  shows "distinct (map fst out)"
    "\<forall>x \<in> set out. x \<in> set chosen \<or> snd x \<in> set ms \<and> map_class_id (snd x) = fst x"
    "fst ` set out = fst ` set chosen \<union> {c \<in> map_class_id ` set ms. selectable classes manual c}"
  using assms
proof (induction ms arbitrary: chosen)
  case (Cons m ms)
  { case 1
    with Cons.IH(1) show ?case by (auto split: option.splits if_splits simp: map_of_eq_None_iff) }
  { case 2
    with Cons.IH(2) show ?case by (fastforce split: option.splits if_splits simp: map_of_eq_None_iff) }
  { case 3
    then obtain k where k: "map_of classes (map_class_id m) = Some k"
      and run: "select_mappings classes manual ms
        (if cls_active k \<and> \<not> List.member manual (map_class_id m) \<and> map_of chosen (map_class_id m) = None
         then chosen @ [(map_class_id m, m)] else chosen) = Inr out"
      by (auto split: option.splits)
    let ?c = "if cls_active k \<and> \<not> List.member manual (map_class_id m) \<and> map_of chosen (map_class_id m) = None
         then chosen @ [(map_class_id m, m)] else chosen"
    have "distinct (map fst ?c)" using 3(2) by (auto simp: map_of_eq_None_iff)
    from Cons.IH(3) [OF run this]
    have "fst ` set out = fst ` set ?c \<union> {c \<in> map_class_id ` set ms. selectable classes manual c}" .
    moreover have "fst ` set ?c = fst ` set chosen \<union> {c. c = map_class_id m \<and> selectable classes manual c}"
      using k by (auto simp: selectable_def map_of_eq_None_iff)
    ultimately show ?case by auto }
qed auto

lemma related_left: "list_all2 P xs ys \<Longrightarrow> y \<in> set ys \<Longrightarrow> \<exists>x \<in> set xs. P x y"
  by (induction rule: list_all2_induct) auto

lemma set_update: "x \<in> set (AList.update k v al) \<Longrightarrow> x = (k, v) \<or> x \<in> set al"
  by (induction al) (auto split: if_splits)

lemma team_text_Inr: "team_text n v = Inr t \<Longrightarrow> v = PyStr t"
  by (auto simp: team_text_def split: pyval.splits if_splits)

lemma new_membership_Inr:
  assumes "new_membership srv u c g s = (Inr k, t)" "clean_text (acc_user_id u)" "clean_text c" "clean_text g"
  shows "\<exists>now v. rec_clock srv s = (v, t) \<and> team_time TeamConflict v = Inr now \<and> representable (mem_joined_at k) \<and>
    acc_updated_at u < mem_joined_at k \<and>
    k = \<lparr>mem_user_id = acc_user_id u, mem_class_id = c, mem_role = MemberStudent, mem_joined_at = mem_joined_at k,
      mem_source_provider = Some ''github'', mem_source_group = Some g\<rparr>"
proof -
  obtain v where v: "rec_clock srv s = (v, snd (rec_clock srv s))" by (cases "rec_clock srv s") simp
  have gh: "clean_text ''github''" "lower ''github'' = ''github''" by code_simp+
  have st: "choice_field InvalidRole member_of_text (PyStr ''student'') = Inr MemberStudent" by code_simp
  have lw: "clean_lower_text ''github''" using gh by (simp add: clean_lower_text_def)
  from assms(1) obtain now joined where now: "team_time TeamConflict v = Inr now"
    and joined: "next_generation now (Some (acc_updated_at u)) = Inr joined" and t: "t = snd (rec_clock srv s)"
    and mk: "make_class_membership (PyStr (acc_user_id u)) (PyStr c) (PyStr ''student'') (utc_datetime joined)
      (PyStr ''github'') (PyStr g) = Inr k"
    using v by (auto simp: new_membership_def team_clock_def action_simps result_simps split: prod.splits)
  obtain at where "aware_datetime (utc_datetime joined) = Inr at"
    using mk by (auto simp: make_class_membership_def result_simps)
  then have rep: "representable joined" by (auto simp: aware_datetime_def utc_datetime_def split: if_splits)
  have "acc_updated_at u < joined" using joined by (auto simp: next_generation_def split: if_splits)
  moreover have "k = \<lparr>mem_user_id = acc_user_id u, mem_class_id = c, mem_role = MemberStudent, mem_joined_at = joined,
      mem_source_provider = Some ''github'', mem_source_group = Some g\<rparr>"
    using mk assms(2-4) rep lw gh st
    by (auto simp: make_class_membership_def result_simps field_simps optional_text_def)
  ultimately show ?thesis using v now t rep by auto
qed

lemma team_text_clean: "team_text n v = Inr t \<Longrightarrow> n \<le> 512 \<Longrightarrow> clean_text t"
  by (auto simp: team_text_def clean_text_def stripped_def not_list_ex split: pyval.splits if_splits)

lemma numeric_subject_Inr: "numeric_subject v = Inr t \<Longrightarrow> v = PyStr t \<and> clean_text t"
  by (auto simp: numeric_subject_def result_simps split: if_splits option.splits
      dest: team_text_Inr team_text_clean)

lemma make_team_Inr:
  "make_team a b c = Inr tm \<Longrightarrow> a = PyStr (tm_organization tm) \<and> b = PyStr (tm_team tm) \<and>
     clean_text (tm_organization tm) \<and> clean_text (tm_team tm)"
  by (auto simp: make_team_def result_simps split: if_splits dest: numeric_subject_Inr)

lemma team_key_provider: "fst (team_key tm) = ''github''"
  by (simp add: team_key_def)

lemma team_mapping_Inr:
  assumes "team_mapping tm k created updated = Inr m" "clean_text (tm_organization tm)" "clean_text (tm_team tm)" "valid_class k"
  shows "valid_mapping m \<and> map_provider m = ''github'' \<and> map_provider_key m = team_key tm \<and> map_class_id m = cls_class_id k"
proof -
  have gh: "required_text True (PyStr ''github'') = Inr ''github''" by code_simp
  have mk: "make_group_mapping (PyStr ''github'') (PyStr (tm_organization tm)) (PyStr (tm_team tm))
       (PyStr (cls_class_id k)) (utc_datetime created) (py_optional PyStr (tm_name tm)) updated = Inr m"
    using assms(1) by (auto simp: team_mapping_def result_simps)
  then have "map_provider m = ''github'' \<and> map_organization m = tm_organization tm \<and> map_group m = tm_team tm \<and>
      map_class_id m = cls_class_id k"
    using assms(2-4) gh by (auto simp: make_group_mapping_def result_simps field_simps valid_class_def split: if_splits)
  then show ?thesis using make_mapping_valid [OF mk] by (simp add: map_provider_key_def team_key_def)
qed

section \<open>The contract\<close>

text \<open>
  What is observed of a state: the accounts, the memberships of a user, the mappings of GitHub
  groups, and which classes are active. A synchronization compares all of it with what its
  caller saw in a state \<open>s0\<close> right before it writes.
\<close>

locale team_registry = identity_registry intact evolves user_at
  for intact :: "'s \<Rightarrow> bool" and evolves :: "'s \<Rightarrow> 's \<Rightarrow> bool" and user_at :: "'s \<Rightarrow> user_account \<Rightarrow> bool" +
  fixes port :: "'s team_port"
    and members_at :: "'s \<Rightarrow> string \<Rightarrow> class_membership set"
    and mapped_at :: "'s \<Rightarrow> group_mapping \<Rightarrow> bool"
    and open_at :: "'s \<Rightarrow> string \<Rightarrow> bool"
    and links_at :: "'s \<Rightarrow> string \<Rightarrow> external_identity set"
  assumes reads_keep: "keeps (guarded intact evolves) (tp_read_user port i)"
      "keeps (guarded intact evolves) (tp_read_class port c)"
      "keeps (guarded intact evolves) (tp_memberships port i)"
      "keeps (guarded intact evolves) (tp_identities port i)"
      "keeps (guarded intact evolves) (tp_read_mapping port key)"
      "keeps (guarded intact evolves) (tp_latest port key)"
    and save_mapping_keep: "valid_mapping m \<Longrightarrow> keeps (guarded intact evolves) (tp_save_mapping port m a ar cr ec eu)"
    and delete_mapping_keep: "keeps (guarded intact evolves) (tp_delete_mapping port m a ar cr)"
    and revoke_keep: "keeps (guarded intact evolves) (tp_revoke port i rvn ms)"
    and synchronize_keep: "list_all valid_membership (gs_desired g) \<Longrightarrow> keeps (guarded intact evolves) (tp_synchronize port g)"
    and onboard_keep: "valid_membership (go_membership o') \<Longrightarrow> go_user_revision o' < mem_joined_at (go_membership o') \<Longrightarrow>
      keeps (guarded intact evolves) (tp_onboard port o')"
    and read_user_law: "intact s \<Longrightarrow> tp_read_user port i s = (Inr (Some u), t) \<Longrightarrow> valid_user u \<and> acc_user_id u = i"
    and read_class_law: "intact s \<Longrightarrow> tp_read_class port c s = (Inr (Some k), t) \<Longrightarrow> valid_class k \<and> cls_class_id k = c"
    and memberships_law: "intact s \<Longrightarrow> tp_memberships port i s = (Inr ms, t) \<Longrightarrow> list_all valid_membership ms"
    and identities_law: "intact s \<Longrightarrow> tp_identities port i s = (Inr xs, t) \<Longrightarrow> \<forall>x \<in> set xs. ext_user_id x = i"
    and read_mapping_law: "intact s \<Longrightarrow> fst key = ''github'' \<Longrightarrow> tp_read_mapping port key s = (Inr (Some m), t) \<Longrightarrow> valid_mapping m \<and> map_provider_key m = key"
    and synchronize_law: "intact s \<Longrightarrow> list_all valid_membership (gs_desired g) \<Longrightarrow> tp_synchronize port g s = (Inr (), t) \<Longrightarrow>
      \<exists>s0 u x. evolves s s0 \<and> user_at t u \<and> acc_user_id u = gs_user_id g \<and> acc_active u \<and> acc_role u = RoleStudent \<and>
        acc_updated_at u = gs_user_revision g \<and>
        links_at t (gs_user_id g) = {x} \<and> ext_subject x = gs_subject g \<and> ext_linked_at x = gs_linked_at g \<and>
        members_at s0 (gs_user_id g) = set (gs_memberships g) \<and>
        members_at t (gs_user_id g) = {m \<in> set (gs_memberships g). \<not> from_github m} \<union> set (gs_desired g) \<and>
        list_all from_github (gs_desired g) \<and>
        mapping_row ` {m. mapped_at t m \<and> (map_organization m, map_group m) \<in> set (gs_group_keys g)} = mapping_row ` set (gs_mappings g) \<and>
        (\<forall>k \<in> set (gs_classes g). open_at t (cls_class_id k) \<longleftrightarrow> cls_active k)"
    and onboard_law: "intact s \<Longrightarrow> tp_onboard port o' s = (Inr (), t) \<Longrightarrow>
      \<exists>u x m. user_at t u \<and> acc_user_id u = mem_user_id (go_membership o') \<and> acc_active u \<and> acc_role u = RoleStudent \<and>
        acc_updated_at u = mem_joined_at (go_membership o') \<and> go_membership o' \<in> members_at t (acc_user_id u) \<and>
        links_at t (acc_user_id u) = {x} \<and> ext_subject x = go_subject o' \<and> ext_linked_at x = go_linked_at o' \<and>
        {m. mapped_at t m \<and> (map_organization m, map_group m) \<in> set (go_group_keys o')} = {m} \<and>
        mapping_row m = mapping_row (go_mapping o') \<and> open_at t (mem_class_id (go_membership o'))"
    and save_mapping_law: "intact s \<Longrightarrow> valid_mapping m \<Longrightarrow> map_provider m = ''github'' \<Longrightarrow>
      tp_save_mapping port m a ar cr ec eu s = (Inr (), t) \<Longrightarrow>
      mapped_at t m \<and> open_at t (map_class_id m) \<and>
      (\<exists>u. user_at t u \<and> acc_user_id u = a \<and> acc_active u \<and> acc_role u = RoleAdmin \<and> acc_updated_at u = ar)"
    and delete_mapping_law: "intact s \<Longrightarrow> map_provider m = ''github'' \<Longrightarrow> tp_delete_mapping port m a ar cr s = (Inr True, t) \<Longrightarrow>
      \<not> (\<exists>n. mapped_at t n \<and> map_provider_key n = map_provider_key m) \<and>
      (\<exists>u. user_at t u \<and> acc_user_id u = a \<and> acc_active u \<and> acc_role u = RoleAdmin \<and> acc_updated_at u = ar)"
begin

lemma storage_keeps:
  assumes "keeps (guarded intact evolves) m"
  shows "keeps (guarded intact evolves) (team_storage m)" "keeps (guarded intact evolves) (team_guarded m)"
  unfolding team_storage_def team_guarded_def by (intro guarded_try guarded_pure assms)+

lemma team_clock_keeps:
  assumes "harmless (guarded intact evolves) f"
  shows "keeps (guarded intact evolves) (team_clock f)"
  using assms by (simp add: keeps_def harmless_def team_clock_def prod.case_eq_if)

lemma team_storage_Inr: "team_storage m s = (Inr x, t) \<longleftrightarrow> m s = (Inr x, t)" "team_guarded m s = (Inr x, t) \<longleftrightarrow> m s = (Inr x, t)"
  by (auto simp: team_storage_def team_guarded_def action_simps)

definition reconciler_wired :: "'s reconciler \<Rightarrow> bool" where
  "reconciler_wired srv \<longleftrightarrow>
     rec_storage srv = port \<and> harmless (guarded intact evolves) (rec_clock srv) \<and>
     (\<forall>i. keeps (guarded intact evolves) (rec_directory srv i))"

lemma wired_keeps:
  assumes "reconciler_wired srv"
  shows "keeps (guarded intact evolves) (account_of srv v)" "keeps (guarded intact evolves) (github_links srv u)"
    "keeps (guarded intact evolves) (fresh_snapshot srv x)" "keeps (guarded intact evolves) (read_mappings srv ts)"
    "keeps (guarded intact evolves) (read_classes srv ms known)" "keeps (guarded intact evolves) (new_membership srv u c g)"
    "keeps (guarded intact evolves) (desired_memberships srv u current l)"
proof -
  have st: "rec_storage srv = port" using assms by (simp add: reconciler_wired_def)
  have cl: "keeps (guarded intact evolves) (team_clock (rec_clock srv))"
    using assms by (intro team_clock_keeps) (simp add: reconciler_wired_def)
  have dir: "keeps (guarded intact evolves) (rec_directory srv i)" for i using assms by (simp add: reconciler_wired_def)
  show "keeps (guarded intact evolves) (account_of srv v)" "keeps (guarded intact evolves) (github_links srv u)"
    unfolding account_of_def github_links_def st
    by (intro guarded_rules keeps_option storage_keeps reads_keep)+
  show "keeps (guarded intact evolves) (fresh_snapshot srv x)"
    unfolding fresh_snapshot_def by (intro guarded_rules cl dir)
  show "keeps (guarded intact evolves) (read_mappings srv ts)"
    by (induction ts) (auto simp: st intro!: guarded_rules storage_keeps reads_keep)
  show "keeps (guarded intact evolves) (read_classes srv ms known)"
    by (induction ms arbitrary: known) (auto simp: st intro!: guarded_rules keeps_option storage_keeps reads_keep)
  show new: "keeps (guarded intact evolves) (new_membership srv u c g)" for c g
    unfolding new_membership_def by (intro guarded_rules cl)
  show "keeps (guarded intact evolves) (desired_memberships srv u current l)"
    by (induction l) (auto intro!: guarded_rules keeps_option new)
qed

lemma read_mappings_Inr:
  assumes "reconciler_wired srv" "intact s" "read_mappings srv ts s = (Inr ms, t)"
  shows "\<forall>m \<in> set ms. valid_mapping m \<and> (\<exists>tm \<in> set ts. map_provider_key m = team_key tm)"
  using assms(2,3)
proof (induction ts arbitrary: s ms)
  case (Cons tm ts)
  have st: "rec_storage srv = port" using assms(1) by (simp add: reconciler_wired_def)
  from Cons.prems(2) obtain found s1 rest where rd: "tp_read_mapping port (team_key tm) s = (Inr found, s1)"
    and rest: "read_mappings srv ts s1 = (Inr rest, t)" and ms: "ms = (case found of None \<Rightarrow> rest | Some x \<Rightarrow> x # rest)"
    by (auto simp: st action_simps team_storage_Inr)
  have "intact s1" using guardedD [OF reads_keep(5) rd Cons.prems(1)] by blast
  from Cons.IH [OF this rest] ms read_mapping_law [OF Cons.prems(1) team_key_provider] rd
  show ?case by (cases found) auto
qed simp

definition class_entries :: "(string \<times> class_group) list \<Rightarrow> bool" where
  "class_entries al \<longleftrightarrow> distinct (map fst al) \<and> (\<forall>x \<in> set al. valid_class (snd x) \<and> cls_class_id (snd x) = fst x)"

lemma read_classes_Inr:
  assumes "reconciler_wired srv" "intact s" "read_classes srv ms known s = (Inr al, t)" "class_entries known"
  shows "class_entries al \<and> fst ` set al = fst ` set known \<union> map_class_id ` set ms"
  using assms(2-4)
proof (induction ms arbitrary: s known)
  case (Cons m ms)
  have st: "rec_storage srv = port" using assms(1) by (simp add: reconciler_wired_def)
  from Cons.prems(2) obtain k s1 where rd: "tp_read_class port (map_class_id m) s = (Inr (Some k), s1)"
    and rest: "read_classes srv ms (AList.update (cls_class_id k) k known) s1 = (Inr al, t)"
    by (auto simp: st action_simps team_storage_Inr split: option.splits)
  have k: "valid_class k" "cls_class_id k = map_class_id m" using read_class_law [OF Cons.prems(1) rd] by auto
  have "class_entries (AList.update (cls_class_id k) k known)"
    using Cons.prems(3) k by (auto simp: class_entries_def AList.distinct_update dest: set_update)
  moreover have "intact s1" using guardedD [OF reads_keep(2) rd Cons.prems(1)] by blast
  ultimately have "class_entries al \<and> fst ` set al = fst ` set (AList.update (cls_class_id k) k known) \<union> map_class_id ` set ms"
    using Cons.IH [OF _ rest] by blast
  then show ?case using k by (auto simp: dom_update)
qed simp

lemma desired_Inr:
  assumes "desired_memberships srv u current l s = (Inr ks, t)" "valid_user u"
    "\<forall>x \<in> set l. clean_text (fst x) \<and> valid_mapping (snd x)"
    "\<And>c k. map_of current c = Some k \<Longrightarrow> valid_membership k \<and> from_github k \<and> mem_class_id k = c"
  shows "list_all2 (\<lambda>x k. valid_membership k \<and> from_github k \<and> mem_class_id k = fst x \<and>
    mem_source_group k = Some (map_group (snd x))) l ks"
  using assms(1,3)
proof (induction l arbitrary: s ks)
  case (Cons x l)
  obtain c m where x: "x = (c, m)" by fastforce
  let ?new = "new_membership srv u c (map_group m)"
  from Cons.prems(1) obtain k s1 rest where
    first: "(case map_of current c of Some k \<Rightarrow> if mem_source_group k = Some (map_group m) then return_act k else ?new
             | None \<Rightarrow> ?new) s = (Inr k, s1)"
    and rest: "desired_memberships srv u current l s1 = (Inr rest, t)" and ks: "ks = k # rest"
    by (auto simp: x action_simps)
  have clean: "clean_text c" "clean_text (map_group m)" "clean_text (acc_user_id u)"
    using Cons.prems(2) assms(2) by (auto simp: x valid_mapping_def valid_user_def)
  have new: "valid_membership k \<and> from_github k \<and> mem_class_id k = c \<and> mem_source_group k = Some (map_group m)"
    if made: "?new s = (Inr k, s1)"
  proof -
    obtain j where j: "representable (mem_joined_at k)" "k = \<lparr>mem_user_id = acc_user_id u, mem_class_id = c,
        mem_role = MemberStudent, mem_joined_at = j, mem_source_provider = Some ''github'', mem_source_group = Some (map_group m)\<rparr>"
      using new_membership_Inr [OF made clean(3,1,2)] by blast
    have "clean_lower_text ''github''" by code_simp
    with j clean show ?thesis
      by (auto simp: valid_membership_def from_github_def optional_clean_def optional_clean_lower_def)
  qed
  have "valid_membership k \<and> from_github k \<and> mem_class_id k = c \<and> mem_source_group k = Some (map_group m)"
  proof (cases "map_of current c")
    case None
    with first new show ?thesis by simp
  next
    case (Some k0)
    show ?thesis
    proof (cases "mem_source_group k0 = Some (map_group m)")
      case True
      with first Some have "k = k0" by simp
      with True assms(4) [OF Some] show ?thesis by simp
    next
      case False
      with first Some new show ?thesis by simp
    qed
  qed
  with Cons.IH [OF rest] Cons.prems(2) show ?case by (simp add: x ks)
qed simp

text \<open>The classes a student is in through GitHub.\<close>

definition github_classes :: "'s \<Rightarrow> string \<Rightarrow> string set" where
  "github_classes s i = mem_class_id ` {m \<in> members_at s i. from_github m}"

text \<open>What a synchronization handed to the storage, and what it answered.\<close>

lemma synchronize_Inr:
  assumes w: "reconciler_wired srv" and s: "intact s" and u: "valid_user u"
    and run: "synchronize_student srv u x snap s = (Inr r, t)"
  obtains s1 g ms classes where "intact s1" "evolves s s1" "tp_synchronize port g s1 = (Inr (), t)"
    "gs_user_id g = acc_user_id u" "gs_user_revision g = acc_updated_at u" "gs_subject g = ext_subject x"
    "gs_linked_at g = ext_linked_at x" "gs_memberships g = ms" "gs_group_keys g = map group_key (ts_teams snap)"
    "list_all valid_membership (gs_desired g)" "class_entries classes" "set (gs_classes g) = snd ` set classes"
    "fst ` set classes = map_class_id ` set (gs_mappings g)"
    "\<forall>k \<in> set (gs_desired g). \<exists>m \<in> set (gs_mappings g). mem_class_id k = map_class_id m \<and>
       mem_source_group k = Some (map_group m)"
    "mem_class_id ` set (gs_desired g) = {c \<in> map_class_id ` set (gs_mappings g).
       selectable classes (map mem_class_id (filter by_hand ms)) c}"
    "set (syn_added r) = mem_class_id ` set (gs_desired g) - mem_class_id ` {m \<in> set ms. from_github m}"
    "set (syn_removed r) = mem_class_id ` {m \<in> set ms. from_github m} - mem_class_id ` set (gs_desired g)"
    "syn_reason r = (if sort_key mem_class_id (map snd (current_memberships ms)) = gs_desired g
       then ''already-current'' else ''complete-snapshot'')"
proof -
  have st: "rec_storage srv = port" using w by (simp add: reconciler_wired_def)
  note keep = wired_keeps [OF w]
  from run obtain found s1 where found: "read_mappings srv (ts_teams snap) s = (Inr found, s1)"
    and rest: "bind_act (read_classes srv (sorted_keys found) []) (\<lambda>classes.
       bind_act (team_storage (tp_memberships (rec_storage srv) (acc_user_id u))) (\<lambda>ms.
       let current = current_memberships ms
       in bind_act (lift_act (select_mappings classes (map mem_class_id (filter by_hand ms)) (sorted_keys found) [])) (\<lambda>chosen.
       bind_act (desired_memberships srv u current (sort_key fst chosen)) (\<lambda>desired.
       let already = (sort_key mem_class_id (map snd current) = desired);
           before = map fst current; after = map mem_class_id desired
       in bind_act (team_guarded (tp_synchronize (rec_storage srv)
            \<lparr>gs_user_id = acc_user_id u, gs_desired = desired, gs_user_revision = acc_updated_at u,
             gs_subject = ext_subject x, gs_linked_at = ext_linked_at x, gs_memberships = ms, gs_mappings = sorted_keys found,
             gs_group_keys = map group_key (ts_teams snap), gs_captured_at = ts_captured_at snap,
             gs_max_age = rec_max_age srv, gs_skew = rec_skew srv, gs_classes = sort_key cls_class_id (map snd classes)\<rparr>)) (\<lambda>_.
          return_act
            \<lparr>syn_status = (if already then ''unchanged'' else ''synchronized''),
             syn_reason = (if already then ''already-current'' else ''complete-snapshot''),
             syn_added = sort (remdups (filter (\<lambda>c. \<not> List.member before c) after)),
             syn_removed = sort (remdups (filter (\<lambda>c. \<not> List.member after c) before))\<rparr>))))) s1 = (Inr r, t)"
    by (auto simp: synchronize_student_def Let_def action_simps)
  from rest obtain classes s2 ms s3 chosen desired s4 where
    cl: "read_classes srv (sorted_keys found) [] s1 = (Inr classes, s2)"
    and ms: "tp_memberships port (acc_user_id u) s2 = (Inr ms, s3)"
    and sel: "select_mappings classes (map mem_class_id (filter by_hand ms)) (sorted_keys found) [] = Inr chosen"
    and des: "desired_memberships srv u (current_memberships ms) (sort_key fst chosen) s3 = (Inr desired, s4)"
    and sync: "tp_synchronize port
            \<lparr>gs_user_id = acc_user_id u, gs_desired = desired, gs_user_revision = acc_updated_at u,
             gs_subject = ext_subject x, gs_linked_at = ext_linked_at x, gs_memberships = ms, gs_mappings = sorted_keys found,
             gs_group_keys = map group_key (ts_teams snap), gs_captured_at = ts_captured_at snap,
             gs_max_age = rec_max_age srv, gs_skew = rec_skew srv, gs_classes = sort_key cls_class_id (map snd classes)\<rparr> s4 = (Inr (), t)"
    and r: "syn_added r = sort (remdups (filter (\<lambda>c. \<not> List.member (map fst (current_memberships ms)) c) (map mem_class_id desired)))"
      "syn_removed r = sort (remdups (filter (\<lambda>c. \<not> List.member (map mem_class_id desired) c) (map fst (current_memberships ms))))"
      "syn_reason r = (if sort_key mem_class_id (map snd (current_memberships ms)) = desired
         then ''already-current'' else ''complete-snapshot'')"
    unfolding st Let_def by (auto simp: action_simps team_storage_Inr)
  have i1: "intact s1 \<and> evolves s s1" by (rule guardedD [OF keep(4) found s])
  have i2: "intact s2 \<and> evolves s1 s2" by (rule guardedD [OF keep(5) cl]) (use i1 in blast)
  have i3: "intact s3 \<and> evolves s2 s3" by (rule guardedD [OF reads_keep(3) ms]) (use i2 in blast)
  have i4: "intact s4 \<and> evolves s3 s4" by (rule guardedD [OF keep(7) des]) (use i3 in blast)
  have ev: "evolves s s4" using i1 i2 i3 i4 evolves_trans by blast
  have maps: "\<forall>m \<in> set (sorted_keys found). valid_mapping m"
    using read_mappings_Inr [OF w s found] by (simp add: sorted_keys_def)
  have "class_entries []" by (simp add: class_entries_def)
  from read_classes_Inr [OF w _ cl this] i1
  have entries: "class_entries classes" "fst ` set classes = map_class_id ` set (sorted_keys found)" by auto
  have vms: "list_all valid_membership ms" using memberships_law [OF _ ms] i2 by blast
  note chosen = select_mappings_Inr [OF sel]
  have l: "\<forall>y \<in> set (sort_key fst chosen). clean_text (fst y) \<and> valid_mapping (snd y)"
  proof
    fix y assume "y \<in> set (sort_key fst chosen)"
    then have "snd y \<in> set (sorted_keys found)" "map_class_id (snd y) = fst y" using chosen(2) by auto
    with maps show "clean_text (fst y) \<and> valid_mapping (snd y)" by (auto simp: valid_mapping_def)
  qed
  have cur: "valid_membership k \<and> from_github k \<and> mem_class_id k = c" if "map_of (current_memberships ms) c = Some k" for c k
    using current_memberships_facts(1) [OF that] vms by (simp add: list_all_iff)
  have each: "list_all2 (\<lambda>y k. valid_membership k \<and> from_github k \<and> mem_class_id k = fst y \<and>
      mem_source_group k = Some (map_group (snd y))) (sort_key fst chosen) desired"
    by (rule desired_Inr [OF des u l cur])
  then have ids: "map mem_class_id desired = map fst (sort_key fst chosen)"
    by (auto simp: list_all2_conv_all_nth intro: nth_equalityI)
  have src: "\<forall>k \<in> set desired. \<exists>m \<in> set (sorted_keys found). mem_class_id k = map_class_id m \<and>
       mem_source_group k = Some (map_group m)"
  proof
    fix k assume "k \<in> set desired"
    from related_left [OF each this]
    obtain y where "y \<in> set chosen" "mem_class_id k = fst y" "mem_source_group k = Some (map_group (snd y))" by auto
    then show "\<exists>m \<in> set (sorted_keys found). mem_class_id k = map_class_id m \<and> mem_source_group k = Some (map_group m)"
      using chosen(2) by (intro bexI [of _ "snd y"]) auto
  qed
  have valid: "list_all valid_membership desired"
    using each by (auto simp: list_all2_conv_all_nth list_all_length)
  have set_ids: "mem_class_id ` set desired = {c \<in> map_class_id ` set (sorted_keys found).
       selectable classes (map mem_class_id (filter by_hand ms)) c}"
    using arg_cong [OF ids, of set] chosen(3) by simp
  have diff: "set (syn_added r) = mem_class_id ` set desired - mem_class_id ` {m \<in> set ms. from_github m}"
      "set (syn_removed r) = mem_class_id ` {m \<in> set ms. from_github m} - mem_class_id ` set desired"
    unfolding r current_memberships_facts(2) [symmetric] by auto
  show ?thesis
    by (rule that [OF conjunct1 [OF i4] ev sync, of ms classes])
      (simp_all only: github_sync.simps entries valid set_ids diff r(3) set_sort set_map, rule src)
qed

text \<open>
  After a reconciliation of a linked student, the classes joined through GitHub are exactly the
  active ones with a mapping of a team of the snapshot that were not joined by hand.
\<close>

definition team_mapped :: "'s \<Rightarrow> team_snapshot \<Rightarrow> group_mapping \<Rightarrow> bool" where
  "team_mapped s snap m \<longleftrightarrow> mapped_at s m \<and> (map_organization m, map_group m) \<in> group_key ` set (ts_teams snap)"

definition sync_outcome :: "'s \<Rightarrow> 's \<Rightarrow> user_account \<Rightarrow> team_snapshot \<Rightarrow> sync_result \<Rightarrow> bool" where
  "sync_outcome s0 t u snap r \<longleftrightarrow>
     (\<forall>m. m \<in> members_at t (acc_user_id u) \<and> \<not> from_github m \<longleftrightarrow> m \<in> members_at s0 (acc_user_id u) \<and> \<not> from_github m) \<and>
     (\<forall>c. c \<in> github_classes t (acc_user_id u) \<longleftrightarrow> open_at t c \<and>
        c \<notin> mem_class_id ` {m \<in> members_at t (acc_user_id u). by_hand m} \<and> (\<exists>m. team_mapped t snap m \<and> map_class_id m = c)) \<and>
     (\<forall>k \<in> members_at t (acc_user_id u). from_github k \<longrightarrow>
        (\<exists>m. team_mapped t snap m \<and> map_class_id m = mem_class_id k \<and> mem_source_group k = Some (map_group m))) \<and>
     set (syn_added r) = github_classes t (acc_user_id u) - github_classes s0 (acc_user_id u) \<and>
     set (syn_removed r) = github_classes s0 (acc_user_id u) - github_classes t (acc_user_id u)"

lemma mapping_row_fields:
  "mapping_row m = mapping_row n \<Longrightarrow> map_organization m = map_organization n \<and> map_group m = map_group n \<and>
     map_class_id m = map_class_id n"
  by (simp add: mapping_row_def)

lemma synchronize_sound:
  assumes w: "reconciler_wired srv" and s: "intact s" and u: "valid_user u"
    and run: "synchronize_student srv u x snap s = (Inr r, t)"
  shows "\<exists>s0 y. evolves s s0 \<and> (\<exists>v. user_at t v \<and> acc_user_id v = acc_user_id u \<and> acc_active v \<and> acc_role v = RoleStudent \<and>
      acc_updated_at v = acc_updated_at u) \<and> links_at t (acc_user_id u) = {y} \<and> ext_subject y = ext_subject x \<and>
      ext_linked_at y = ext_linked_at x \<and> sync_outcome s0 t u snap r"
proof -
  obtain s1 g ms classes where
    s1: "intact s1" "evolves s s1" and sync: "tp_synchronize port g s1 = (Inr (), t)"
    and g: "gs_user_id g = acc_user_id u" "gs_user_revision g = acc_updated_at u" "gs_subject g = ext_subject x"
      "gs_linked_at g = ext_linked_at x" "gs_memberships g = ms" "gs_group_keys g = map group_key (ts_teams snap)"
    and valid: "list_all valid_membership (gs_desired g)" and cl: "class_entries classes" "set (gs_classes g) = snd ` set classes"
      "fst ` set classes = map_class_id ` set (gs_mappings g)"
    and src: "\<forall>k \<in> set (gs_desired g). \<exists>m \<in> set (gs_mappings g). mem_class_id k = map_class_id m \<and>
       mem_source_group k = Some (map_group m)"
    and ids: "mem_class_id ` set (gs_desired g) = {c \<in> map_class_id ` set (gs_mappings g).
       selectable classes (map mem_class_id (filter by_hand ms)) c}"
    and r: "set (syn_added r) = mem_class_id ` set (gs_desired g) - mem_class_id ` {m \<in> set ms. from_github m}"
      "set (syn_removed r) = mem_class_id ` {m \<in> set ms. from_github m} - mem_class_id ` set (gs_desired g)"
      "syn_reason r = (if sort_key mem_class_id (map snd (current_memberships ms)) = gs_desired g
       then ''already-current'' else ''complete-snapshot'')"
    by (rule synchronize_Inr [OF w s u run])
  let ?i = "acc_user_id u"
  from synchronize_law [OF s1(1) valid sync, unfolded g] obtain s0 v y where ev: "evolves s1 s0"
    and v: "user_at t v" "acc_user_id v = ?i" "acc_active v" "acc_role v = RoleStudent" "acc_updated_at v = acc_updated_at u"
    and y: "links_at t ?i = {y}" "ext_subject y = ext_subject x" "ext_linked_at y = ext_linked_at x"
    and m0: "members_at s0 ?i = set ms" and mt: "members_at t ?i = {m \<in> set ms. \<not> from_github m} \<union> set (gs_desired g)"
    and gh: "list_all from_github (gs_desired g)"
    and rows: "mapping_row ` {m. mapped_at t m \<and> (map_organization m, map_group m) \<in> set (map group_key (ts_teams snap))} =
        mapping_row ` set (gs_mappings g)"
    and cls: "\<forall>k \<in> set (gs_classes g). open_at t (cls_class_id k) \<longleftrightarrow> cls_active k"
    by (elim exE conjE) (rule that; assumption)
  have gh': "\<forall>k \<in> set (gs_desired g). from_github k" using gh by (simp add: list_all_iff)
  have now: "github_classes t ?i = mem_class_id ` set (gs_desired g)"
    unfolding github_classes_def mt using gh' by auto
  have before: "github_classes s0 ?i = mem_class_id ` {m \<in> set ms. from_github m}"
    by (simp add: github_classes_def m0)
  have same: "{m. team_mapped t snap m} = {m. mapped_at t m \<and> (map_organization m, map_group m) \<in> set (map group_key (ts_teams snap))}"
    by (simp add: team_mapped_def)
  have forth: "\<exists>n \<in> set (gs_mappings g). mapping_row n = mapping_row m" if "team_mapped t snap m" for m
  proof -
    have "mapping_row m \<in> mapping_row ` set (gs_mappings g)" unfolding rows [symmetric] same [symmetric] using that by simp
    then show ?thesis by auto
  qed
  have origin: "\<exists>m. team_mapped t snap m \<and> mapping_row m = mapping_row n" if "n \<in> set (gs_mappings g)" for n
  proof -
    have "mapping_row n \<in> mapping_row ` {m. team_mapped t snap m}" unfolding same rows using that by simp
    then show ?thesis by auto
  qed
  have mapped: "c \<in> map_class_id ` set (gs_mappings g) \<longleftrightarrow> (\<exists>m. team_mapped t snap m \<and> map_class_id m = c)" for c
  proof
    assume "c \<in> map_class_id ` set (gs_mappings g)"
    then obtain n where n: "n \<in> set (gs_mappings g)" "map_class_id n = c" by auto
    then obtain m where m: "team_mapped t snap m" "mapping_row m = mapping_row n" using origin by blast
    then show "\<exists>m. team_mapped t snap m \<and> map_class_id m = c" using mapping_row_fields [OF m(2)] n(2) by auto
  next
    assume "\<exists>m. team_mapped t snap m \<and> map_class_id m = c"
    then obtain m where m: "team_mapped t snap m" "map_class_id m = c" by blast
    then obtain n where n: "n \<in> set (gs_mappings g)" "mapping_row n = mapping_row m" using forth by blast
    then show "c \<in> map_class_id ` set (gs_mappings g)" using mapping_row_fields [OF n(2)] m(2) by (intro image_eqI [of _ _ n]) auto
  qed
  have hand: "mem_class_id ` {m \<in> members_at t ?i. by_hand m} = set (map mem_class_id (filter by_hand ms))"
  proof -
    have "by_hand m \<Longrightarrow> \<not> from_github m" for m by (simp add: by_hand_def from_github_def)
    then have "{m \<in> members_at t ?i. by_hand m} = {m \<in> set ms. by_hand m}" unfolding mt using gh' by blast
    then show ?thesis by simp
  qed
  have act: "open_at t c \<longleftrightarrow> (\<exists>k. map_of classes c = Some k \<and> cls_active k)" if c: "c \<in> fst ` set classes" for c
  proof -
    have "map_of classes c \<noteq> None" using c by (simp add: map_of_eq_None_iff)
    then obtain k where k: "map_of classes c = Some k" by blast
    then have mem: "(c, k) \<in> set classes" by (rule map_of_SomeD)
    then have "k \<in> set (gs_classes g)" unfolding cl(2) by (intro image_eqI [of _ _ "(c, k)"]) simp_all
    moreover have "cls_class_id k = c" using cl(1) mem by (auto simp: class_entries_def)
    ultimately show ?thesis using cls k by auto
  qed
  have exact: "c \<in> github_classes t ?i \<longleftrightarrow> open_at t c \<and> c \<notin> mem_class_id ` {m \<in> members_at t ?i. by_hand m} \<and>
      (\<exists>m. team_mapped t snap m \<and> map_class_id m = c)" for c
    unfolding now ids hand mapped [symmetric] selectable_def using act [of c] cl(3) by auto
  have source: "\<exists>m. team_mapped t snap m \<and> map_class_id m = mem_class_id k \<and> mem_source_group k = Some (map_group m)"
    if "k \<in> members_at t ?i" "from_github k" for k
  proof -
    have "k \<in> set (gs_desired g)" using that mt by auto
    then obtain n where "n \<in> set (gs_mappings g)" "mem_class_id k = map_class_id n" "mem_source_group k = Some (map_group n)"
      using src by blast
    moreover obtain m where m: "team_mapped t snap m" "mapping_row m = mapping_row n" using origin calculation(1) by blast
    ultimately show ?thesis using mapping_row_fields [OF m(2)] m(1) by auto
  qed
  have kept: "m \<in> members_at t ?i \<and> \<not> from_github m \<longleftrightarrow> m \<in> members_at s0 ?i \<and> \<not> from_github m" for m
    unfolding mt m0 using gh' by auto
  have "sync_outcome s0 t u snap r"
    unfolding sync_outcome_def using exact source kept r(1,2) now before by simp
  then show ?thesis using evolves_trans [OF s1(2) ev] v y by blast
qed

text \<open>A snapshot the directory delivered for a link, taken after the account was linked and fresh on the clock.\<close>

definition delivered :: "'s reconciler \<Rightarrow> external_identity \<Rightarrow> team_snapshot \<Rightarrow> bool" where
  "delivered srv y snap \<longleftrightarrow> ext_linked_at y \<le> ts_captured_at snap \<and>
     (\<exists>s1 s2 raw. rec_directory srv (ext_subject y) s1 = (Inr raw, s2) \<and> validated_snapshot raw (ext_subject y) = Inr snap) \<and>
     (\<exists>s1 v s2 now. rec_clock srv s1 = (v, s2) \<and> utc v = Inr now \<and> now - rec_max_age srv < ts_captured_at snap \<and>
        ts_captured_at snap \<le> now + rec_skew srv)"

lemma fresh_snapshot_Inr:
  assumes "fresh_snapshot srv x s = (Inr snap, t)" "ext_subject y = ext_subject x" "ext_linked_at y = ext_linked_at x"
  shows "delivered srv y snap"
proof -
  from assms(1) obtain raw s1 s2 now where raw: "rec_directory srv (ext_subject x) s = (Inr raw, s1)"
    "validated_snapshot raw (ext_subject x) = Inr snap"
    and clock: "team_clock (rec_clock srv) s1 = (Inr now, s2)" and stale: "team_stale srv x snap now = Inr False"
    by (auto simp: fresh_snapshot_def action_simps split: if_splits)
  obtain v where v: "rec_clock srv s1 = (v, s2)" "utc v = Inr now"
    using clock by (auto simp: team_clock_def team_time_def result_simps split: prod.splits)
  have "ext_linked_at x \<le> ts_captured_at snap \<and> now - rec_max_age srv < ts_captured_at snap \<and>
      ts_captured_at snap \<le> now + rec_skew srv"
    using stale by (auto simp: team_stale_def snapshot_stale_def result_simps split: if_splits)
  with raw v show ?thesis unfolding delivered_def assms(2,3) by blast
qed

lemma account_of_Inr:
  assumes "rec_storage srv = port" "account_of srv v s = (Inr u, t)" "intact s"
  shows "v = PyStr (acc_user_id u) \<and> valid_user u"
proof -
  obtain i where "team_text 512 v = Inr i" "tp_read_user port i s = (Inr (Some u), t)"
    using assms(1,2) by (auto simp: account_of_def action_simps team_storage_Inr split: option.splits)
  with read_user_law [OF assms(3)] team_text_Inr show ?thesis by fastforce
qed

lemma student_sound:
  assumes w: "reconciler_wired srv" and s: "intact s" and run: "reconcile_student srv v s = (Inr r, t)"
    and ans: "syn_reason r = ''already-current'' \<or> syn_reason r = ''complete-snapshot''"
  shows "\<exists>s0 u y snap. evolves s s0 \<and> v = PyStr (acc_user_id u) \<and> user_at t u \<and> acc_active u \<and> acc_role u = RoleStudent \<and>
    links_at t (acc_user_id u) = {y} \<and> delivered srv y snap \<and> sync_outcome s0 t u snap r"
proof -
  have st: "rec_storage srv = port" using w by (simp add: reconciler_wired_def)
  from run obtain u s1 where acc: "account_of srv v s = (Inr u, s1)"
    and rest: "(if \<not> acc_active u \<or> acc_role u \<noteq> RoleStudent then return_act (unchanged ''not-eligible'')
       else bind_act (github_links srv u) (\<lambda>links.
       case links of
         [] \<Rightarrow> revoke_unlinked srv u
       | [x] \<Rightarrow> bind_act (fresh_snapshot srv x) (synchronize_student srv u x)
       | _ \<Rightarrow> return_act (unchanged ''github-identity-ambiguous''))) s1 = (Inr r, t)"
    by (auto simp: reconcile_student_def bind_act_Inr)
  note u = account_of_Inr [OF st acc s]
  have i1: "intact s1 \<and> evolves s s1" by (rule guardedD [OF wired_keeps(1) [OF w] acc s])
  have el: "acc_active u \<and> acc_role u = RoleStudent"
    using rest ans by (auto simp: unchanged_def if_act split: if_splits)
  with rest obtain links s2 where ln: "github_links srv u s1 = (Inr links, s2)"
    and go: "(case links of
         [] \<Rightarrow> revoke_unlinked srv u
       | [x] \<Rightarrow> bind_act (fresh_snapshot srv x) (synchronize_student srv u x)
       | _ \<Rightarrow> return_act (unchanged ''github-identity-ambiguous'')) s2 = (Inr r, t)"
    by (auto simp: bind_act_Inr)
  have i2: "intact s2 \<and> evolves s1 s2" by (rule guardedD [OF wired_keeps(2) [OF w] ln]) (use i1 in blast)
  have "revoke_unlinked srv u s2 = (Inr r, t) \<Longrightarrow> syn_reason r = ''github-unlinked''"
    by (auto simp: revoke_unlinked_def action_simps Let_def)
  then obtain x where x: "links = [x]" using go ans
    by (auto simp: unchanged_def split: list.splits)
  with go obtain snap s3 where fr: "fresh_snapshot srv x s2 = (Inr snap, s3)" and sy: "synchronize_student srv u x snap s3 = (Inr r, t)"
    by (auto simp: bind_act_Inr)
  have i3: "intact s3 \<and> evolves s2 s3" by (rule guardedD [OF wired_keeps(3) [OF w] fr]) (use i2 in blast)
  from synchronize_sound [OF w _ _ sy] i3 u obtain s0 y v' where
    out: "evolves s3 s0" "user_at t v'" "acc_user_id v' = acc_user_id u" "acc_active v'" "acc_role v' = RoleStudent"
      "links_at t (acc_user_id u) = {y}" "ext_subject y = ext_subject x" "ext_linked_at y = ext_linked_at x"
      "sync_outcome s0 t u snap r"
    by blast
  have "evolves s s0" using i1 i2 i3 out(1) evolves_trans by blast
  moreover have "delivered srv y snap" using fresh_snapshot_Inr [OF fr out(7,8)] .
  moreover have "sync_outcome s0 t v' snap r" using out(3,9) by (simp add: sync_outcome_def)
  ultimately show ?thesis using u out by (intro exI [of _ s0] exI [of _ v'] exI [of _ y] exI [of _ snap]) simp
qed

text \<open>An account that was onboarded is an active student with the one membership its one mapped team stands for.\<close>

definition onboarding_outcome :: "'s \<Rightarrow> user_account \<Rightarrow> team_snapshot \<Rightarrow> class_membership \<Rightarrow> bool" where
  "onboarding_outcome t u snap m \<longleftrightarrow>
     mem_user_id m = acc_user_id u \<and> acc_updated_at u = mem_joined_at m \<and> m \<in> members_at t (acc_user_id u) \<and>
     from_github m \<and> open_at t (mem_class_id m) \<and>
     (\<exists>n. {k. team_mapped t snap k} = {n} \<and> map_class_id n = mem_class_id m \<and> mem_source_group m = Some (map_group n))"

lemma onboard_through_sound:
  assumes w: "reconciler_wired srv" and s: "intact s" and u: "valid_user u" and mp: "valid_mapping mapping"
    and run: "onboard_through srv u x snap mapping s = (Inr r, t)" and ans: "onr_status r = ''onboarded''"
  shows "\<exists>m v y. onr_membership r = Some m \<and> user_at t v \<and> acc_user_id v = acc_user_id u \<and> acc_active v \<and> acc_role v = RoleStudent \<and>
    links_at t (acc_user_id u) = {y} \<and> ext_subject y = ext_subject x \<and> ext_linked_at y = ext_linked_at x \<and>
    onboarding_outcome t v snap m"
proof -
  have st: "rec_storage srv = port" using w by (simp add: reconciler_wired_def)
  from run obtain found s1 where rd: "tp_read_class port (map_class_id mapping) s = (Inr found, s1)"
    and rest: "(case found of
       None \<Rightarrow> return_act (still_pending ''class-unavailable'')
     | Some k \<Rightarrow>
         if \<not> cls_active k then return_act (still_pending ''class-unavailable'')
         else bind_act (new_membership srv u (cls_class_id k) (map_group mapping)) (\<lambda>m.
           bind_act (team_guarded (tp_onboard (rec_storage srv)
             \<lparr>go_membership = m, go_user_revision = acc_updated_at u, go_subject = ext_subject x,
              go_linked_at = ext_linked_at x, go_mapping = mapping, go_group_keys = map group_key (ts_teams snap),
              go_captured_at = ts_captured_at snap, go_max_age = rec_max_age srv, go_skew = rec_skew srv,
              go_class_revision = cls_updated_at k\<rparr>)) (\<lambda>_.
           return_act \<lparr>onr_status = ''onboarded'', onr_reason = ''single-mapped-team'', onr_membership = Some m\<rparr>))) s1 = (Inr r, t)"
    by (auto simp: onboard_through_def bind_act_Inr st team_storage_Inr)
  obtain k where k: "found = Some k" "cls_active k"
    using rest ans by (auto simp: still_pending_def if_act split: option.splits if_splits)
  with rest obtain m s2 where nm: "new_membership srv u (cls_class_id k) (map_group mapping) s1 = (Inr m, s2)"
    and on: "tp_onboard port
             \<lparr>go_membership = m, go_user_revision = acc_updated_at u, go_subject = ext_subject x,
              go_linked_at = ext_linked_at x, go_mapping = mapping, go_group_keys = map group_key (ts_teams snap),
              go_captured_at = ts_captured_at snap, go_max_age = rec_max_age srv, go_skew = rec_skew srv,
              go_class_revision = cls_updated_at k\<rparr> s2 = (Inr (), t)"
    and r: "onr_membership r = Some m"
    by (auto simp: bind_act_Inr st team_storage_Inr)
  have i1: "intact s1 \<and> evolves s s1" by (rule guardedD [OF reads_keep(2) rd s])
  have i2: "intact s2 \<and> evolves s1 s2" by (rule guardedD [OF wired_keeps(6) [OF w] nm]) (use i1 in blast)
  have kc: "valid_class k" "cls_class_id k = map_class_id mapping" using read_class_law [OF s, of _ k] rd k by auto
  have clean: "clean_text (acc_user_id u)" "clean_text (cls_class_id k)" "clean_text (map_group mapping)"
    using u kc mp by (auto simp: valid_user_def valid_class_def valid_mapping_def)
  obtain j where m: "m = \<lparr>mem_user_id = acc_user_id u, mem_class_id = cls_class_id k, mem_role = MemberStudent, mem_joined_at = j,
      mem_source_provider = Some ''github'', mem_source_group = Some (map_group mapping)\<rparr>"
    using new_membership_Inr [OF nm clean] by blast
  have i2': "intact s2" using i2 by blast
  from onboard_law [OF i2' on] obtain v y n where
    v: "user_at t v" "acc_user_id v = acc_user_id u" "acc_active v" "acc_role v = RoleStudent"
      "acc_updated_at v = mem_joined_at m" "m \<in> members_at t (acc_user_id v)"
    and y: "links_at t (acc_user_id v) = {y}" "ext_subject y = ext_subject x" "ext_linked_at y = ext_linked_at x"
    and n: "{k. mapped_at t k \<and> (map_organization k, map_group k) \<in> set (map group_key (ts_teams snap))} = {n}"
      "mapping_row n = mapping_row mapping"
    and op: "open_at t (mem_class_id m)"
    unfolding m by auto
  have "{k. team_mapped t snap k} = {n}" using n(1) by (simp add: team_mapped_def)
  moreover have "map_class_id n = mem_class_id m" "mem_source_group m = Some (map_group n)"
    using mapping_row_fields [OF n(2)] kc(2) by (simp_all add: m)
  moreover have "from_github m" "mem_user_id m = acc_user_id v" using v(2) by (simp_all add: m from_github_def)
  ultimately have "onboarding_outcome t v snap m" using v(5,6) op unfolding onboarding_outcome_def by blast
  then show ?thesis using r v y by auto
qed

lemma pending_sound:
  assumes w: "reconciler_wired srv" and s: "intact s" and run: "reconcile_pending srv v s = (Inr r, t)"
    and ans: "onr_status r = ''onboarded''"
  shows "\<exists>m u y snap. onr_membership r = Some m \<and> v = PyStr (acc_user_id u) \<and> user_at t u \<and> acc_active u \<and>
    acc_role u = RoleStudent \<and> links_at t (acc_user_id u) = {y} \<and> delivered srv y snap \<and> onboarding_outcome t u snap m"
proof -
  have st: "rec_storage srv = port" using w by (simp add: reconciler_wired_def)
  from run obtain u s1 where acc: "account_of srv v s = (Inr u, s1)"
    and rest: "(if \<not> acc_active u \<or> acc_role u \<noteq> RolePending then return_act (still_pending ''not-eligible'')
     else bind_act (github_links srv u) (\<lambda>links.
     case links of
       [x] \<Rightarrow>
         bind_act (fresh_snapshot srv x) (\<lambda>s.
         bind_act (read_mappings srv (ts_teams s)) (\<lambda>mapped.
         case mapped of
           [] \<Rightarrow> return_act (still_pending ''no-mapped-team'')
         | [mapping] \<Rightarrow> onboard_through srv u x s mapping
         | _ \<Rightarrow> return_act (still_pending ''ambiguous-mapped-teams'')))
     | _ \<Rightarrow> return_act (still_pending ''github-not-linked''))) s1 = (Inr r, t)"
    by (auto simp: reconcile_pending_def bind_act_Inr)
  note u = account_of_Inr [OF st acc s]
  have no: "return_act (still_pending e) s' = (Inr r, t') \<Longrightarrow> False" for e s' t' using ans by (simp add: still_pending_def)
  have i1: "intact s1 \<and> evolves s s1" by (rule guardedD [OF wired_keeps(1) [OF w] acc s])
  from rest no obtain links s2 where ln: "github_links srv u s1 = (Inr links, s2)"
    and go: "(case links of
       [x] \<Rightarrow>
         bind_act (fresh_snapshot srv x) (\<lambda>s.
         bind_act (read_mappings srv (ts_teams s)) (\<lambda>mapped.
         case mapped of
           [] \<Rightarrow> return_act (still_pending ''no-mapped-team'')
         | [mapping] \<Rightarrow> onboard_through srv u x s mapping
         | _ \<Rightarrow> return_act (still_pending ''ambiguous-mapped-teams'')))
     | _ \<Rightarrow> return_act (still_pending ''github-not-linked'')) s2 = (Inr r, t)"
    by (auto simp: bind_act_Inr if_act split: if_splits)
  have i2: "intact s2 \<and> evolves s1 s2" by (rule guardedD [OF wired_keeps(2) [OF w] ln]) (use i1 in blast)
  obtain x where x: "links = [x]" using go no by (auto split: list.splits)
  with go obtain snap s3 mapped s4 where fr: "fresh_snapshot srv x s2 = (Inr snap, s3)"
    and rd: "read_mappings srv (ts_teams snap) s3 = (Inr mapped, s4)"
    and on: "(case mapped of
           [] \<Rightarrow> return_act (still_pending ''no-mapped-team'')
         | [mapping] \<Rightarrow> onboard_through srv u x snap mapping
         | _ \<Rightarrow> return_act (still_pending ''ambiguous-mapped-teams'')) s4 = (Inr r, t)"
    by (auto simp: bind_act_Inr)
  have i3: "intact s3 \<and> evolves s2 s3" by (rule guardedD [OF wired_keeps(3) [OF w] fr]) (use i2 in blast)
  have i4: "intact s4 \<and> evolves s3 s4" by (rule guardedD [OF wired_keeps(4) [OF w] rd]) (use i3 in blast)
  obtain mapping where mp: "mapped = [mapping]" using on no by (auto split: list.splits)
  have vm: "valid_mapping mapping" using read_mappings_Inr [OF w _ rd] i3 mp by auto
  have "onboard_through srv u x snap mapping s4 = (Inr r, t)" using on mp by simp
  from onboard_through_sound [OF w _ _ vm this ans] i4 u obtain m v' y where
    "onr_membership r = Some m" "user_at t v'" "acc_user_id v' = acc_user_id u" "acc_active v'" "acc_role v' = RoleStudent"
    "links_at t (acc_user_id u) = {y}" "ext_subject y = ext_subject x" "ext_linked_at y = ext_linked_at x"
    "onboarding_outcome t v' snap m"
    by blast
  moreover from this have "delivered srv y snap" using fresh_snapshot_Inr [OF fr] by blast
  ultimately show ?thesis using u by (intro exI [of _ m] exI [of _ v'] exI [of _ y] exI [of _ snap]) simp
qed

text \<open>The mapping service.\<close>

definition mapping_wired :: "'s mapping_service \<Rightarrow> bool" where
  "mapping_wired srv \<longleftrightarrow> mas_storage srv = port \<and> harmless (guarded intact evolves) (mas_clock srv)"

definition admin_at :: "'s \<Rightarrow> pyval \<Rightarrow> bool" where
  "admin_at t v \<longleftrightarrow> (\<exists>u. user_at t u \<and> v = PyStr (acc_user_id u) \<and> acc_active u \<and> acc_role u = RoleAdmin)"

lemma admin_and_class_Inr:
  assumes "mapping_wired srv" "intact s" "admin_and_class srv a c s = (Inr (u, k), t)"
  shows "a = PyStr (acc_user_id u) \<and> c = PyStr (cls_class_id k) \<and> valid_class k \<and> cls_active k \<and> intact t \<and> evolves s t"
proof -
  have st: "mas_storage srv = port" using assms(1) by (simp add: mapping_wired_def)
  from assms(3) obtain i found s1 where i: "team_text 512 a = Inr i" and rd: "tp_read_user port i s = (Inr found, s1)"
    and rest: "(case found of
       None \<Rightarrow> raise_act TeamDenied
     | Some actor \<Rightarrow>
         if \<not> acc_active actor \<or> acc_role actor \<noteq> RoleAdmin then raise_act TeamDenied
         else bind_act (lift_act (team_text 512 c)) (\<lambda>c.
           bind_act (team_storage (tp_read_class port c)) (\<lambda>known.
           case known of
             None \<Rightarrow> raise_act TeamNotFound
           | Some k \<Rightarrow> if \<not> cls_active k then raise_act TeamConflict else return_act (actor, k)))) s1 = (Inr (u, k), t)"
    unfolding admin_and_class_def st bind_act_Inr team_storage_Inr by (elim exE conjE) (rule that; simp)
  obtain actor where fo: "found = Some actor" "acc_active actor" "acc_role actor = RoleAdmin"
    using rest by (cases found) (auto simp: if_act split: if_splits)
  with rest obtain j known where j: "team_text 512 c = Inr j" "tp_read_class port j s1 = (Inr known, t)"
    and fin: "known = Some k" "cls_active k" "actor = u"
    by (auto simp: bind_act_Inr team_storage_Inr if_act split: option.splits if_splits)
  have s1: "intact s1 \<and> evolves s s1" by (rule guardedD [OF reads_keep(1) rd assms(2)])
  have t: "intact t \<and> evolves s1 t" by (rule guardedD [OF reads_keep(2) j(2)]) (use s1 in blast)
  have "acc_user_id u = i" using read_user_law [OF assms(2)] rd fo fin by blast
  moreover have "valid_class k \<and> cls_class_id k = j" using read_class_law [of s1 j k t] j(2) s1 fin by blast
  ultimately show ?thesis using team_text_Inr [OF i] team_text_Inr [OF j(1)] fin s1 t evolves_trans by blast
qed

lemma save_new_sound:
  assumes w: "mapping_wired srv" and c: "clean_text (tm_organization tm)" "clean_text (tm_team tm)" "valid_class k"
    and s: "intact s" and run: "save_new_mapping n srv tm actor k cand s = (Inr m, t)"
  shows "intact t \<and> mapped_at t m \<and> map_provider_key m = team_key tm \<and> map_class_id m = cls_class_id k \<and>
    open_at t (cls_class_id k) \<and> admin_at t (PyStr (acc_user_id actor))"
  using s run
proof (induction n arbitrary: cand s)
  case (Suc n)
  have st: "mas_storage srv = port" using w by (simp add: mapping_wired_def)
  let ?save = "\<lambda>m. tp_save_mapping port m (acc_user_id actor) (acc_updated_at actor) (cls_updated_at k) None None"
  from Suc.prems(2) obtain previous s1 created x where lt: "tp_latest port (team_key tm) s = (Inr previous, s1)"
    and mk: "team_mapping tm k created PyNone = Inr x"
    and rest: "try_act (?save x)
       (\<lambda>e. if e = MappingGenerationConflict
            then bind_act (team_storage (tp_read_mapping port (team_key tm))) (\<lambda>current.
              if current \<noteq> None then raise_act TeamConflict
              else bind_act (lift_act (next_generation created (Some created))) (save_new_mapping n srv tm actor k))
            else raise_act (lost_race e))
       (\<lambda>_. return_act x) s1 = (Inr m, t)"
    unfolding save_new_mapping.simps st by (auto simp: bind_act_Inr team_storage_Inr)
  have i1: "intact s1 \<and> evolves s s1" by (rule guardedD [OF reads_keep(6) lt Suc.prems(1)])
  note x = team_mapping_Inr [OF mk c]
  show ?case
  proof (cases "?save x s1")
    case (Pair res s2)
    have i2: "intact s2 \<and> evolves s1 s2" by (rule guardedD [OF save_mapping_keep Pair]) (use x i1 in blast)+
    show ?thesis
    proof (cases res)
      case (Inr y)
      with rest Pair have m: "m = x" "t = s2" by (auto simp: try_act_def)
      have "mapped_at s2 x \<and> open_at s2 (map_class_id x) \<and> (\<exists>u. user_at s2 u \<and> acc_user_id u = acc_user_id actor \<and>
          acc_active u \<and> acc_role u = RoleAdmin \<and> acc_updated_at u = acc_updated_at actor)"
        by (rule save_mapping_law [where s = s1]) (use x i1 Pair Inr in auto)
      then show ?thesis using x m i2 unfolding admin_at_def by auto
    next
      case (Inl e)
      with rest Pair have "e = MappingGenerationConflict"
        by (auto simp: try_act_def if_act split: if_splits)
      with rest Pair Inl obtain s3 g where rd: "tp_read_mapping port (team_key tm) s2 = (Inr None, s3)"
        and again: "save_new_mapping n srv tm actor k g s3 = (Inr m, t)"
        by (auto simp: try_act_def bind_act_Inr team_storage_Inr if_act)
      have "intact s3 \<and> evolves s2 s3" by (rule guardedD [OF reads_keep(5) rd]) (use i2 in blast)
      then show ?thesis using Suc.IH [OF _ again] by blast
    qed
  qed
qed simp

lemma save_mapping_sound:
  assumes w: "mapping_wired srv" and s: "intact s" and run: "save_team_mapping srv a c organization team_subject name s = (Inr m, t)"
  shows "intact t \<and> mapped_at t m \<and> (\<exists>o' g. organization = PyStr o' \<and> team_subject = PyStr g \<and> map_provider_key m = (''github'', o', g)) \<and>
    c = PyStr (map_class_id m) \<and> open_at t (map_class_id m) \<and> admin_at t a"
proof -
  have st: "mas_storage srv = port" using w by (simp add: mapping_wired_def)
  from run obtain tm actor k s1 existing s2 where tm: "make_team organization team_subject name = Inr tm"
    and ac: "admin_and_class srv a c s = (Inr (actor, k), s1)"
    and rd: "tp_read_mapping port (team_key tm) s1 = (Inr existing, s2)"
    and rest: "(case existing of
       Some x \<Rightarrow>
         if map_class_id x \<noteq> cls_class_id k then raise_act TeamConflict
         else bind_act (team_clock (mas_clock srv)) (\<lambda>now.
           bind_act (lift_act (next_generation now (Some (map_updated_at x)))) (\<lambda>updated.
           bind_act (lift_act (team_mapping tm k (map_created_at x) (utc_datetime updated))) (\<lambda>m.
           bind_act (team_guarded (tp_save_mapping port m (acc_user_id actor) (acc_updated_at actor)
             (cls_updated_at k) (Some (map_created_at x)) (Some (map_updated_at x)))) (\<lambda>_.
           return_act m))))
     | None \<Rightarrow> bind_act (team_clock (mas_clock srv)) (save_new_mapping mapping_attempts srv tm actor k)) s2 = (Inr m, t)"
    unfolding save_team_mapping_def st by (auto simp: bind_act_Inr team_storage_Inr split: prod.splits)
  note ac' = admin_and_class_Inr [OF w s ac]
  have i2: "intact s2 \<and> evolves s1 s2" by (rule guardedD [OF reads_keep(5) rd]) (use ac' in blast)
  note team = make_team_Inr [OF tm]
  have cl: "clean_text (tm_organization tm)" "clean_text (tm_team tm)" "valid_class k" using team ac' by auto
  have clk: "keeps (guarded intact evolves) (team_clock (mas_clock srv))"
    using w by (intro team_clock_keeps) (simp add: mapping_wired_def)
  have "intact t \<and> mapped_at t m \<and> map_provider_key m = team_key tm \<and> map_class_id m = cls_class_id k \<and> open_at t (cls_class_id k) \<and>
    admin_at t (PyStr (acc_user_id actor))"
  proof (cases existing)
    case None
    with rest obtain now s3 where ck: "team_clock (mas_clock srv) s2 = (Inr now, s3)"
      and new: "save_new_mapping mapping_attempts srv tm actor k now s3 = (Inr m, t)"
      by (auto simp: bind_act_Inr)
    have "intact s3 \<and> evolves s2 s3" by (rule guardedD [OF clk ck]) (use i2 in blast)
    then show ?thesis using save_new_sound [OF w cl _ new] by blast
  next
    case (Some x)
    with rest obtain now s3 updated where ck: "team_clock (mas_clock srv) s2 = (Inr now, s3)"
      and mk: "team_mapping tm k (map_created_at x) (utc_datetime updated) = Inr m"
      and sv: "tp_save_mapping port m (acc_user_id actor) (acc_updated_at actor)
             (cls_updated_at k) (Some (map_created_at x)) (Some (map_updated_at x)) s3 = (Inr (), t)"
      by (auto simp: bind_act_Inr team_storage_Inr split: if_splits)
    have i3: "intact s3 \<and> evolves s2 s3" by (rule guardedD [OF clk ck]) (use i2 in blast)
    note m = team_mapping_Inr [OF mk cl]
    have "mapped_at t m \<and> open_at t (map_class_id m) \<and> (\<exists>u. user_at t u \<and> acc_user_id u = acc_user_id actor \<and>
        acc_active u \<and> acc_role u = RoleAdmin \<and> acc_updated_at u = acc_updated_at actor)"
      by (rule save_mapping_law [OF _ _ _ sv]) (use m i3 in auto)
    moreover have "intact t" using guardedD [OF save_mapping_keep sv] m i3 by blast
    ultimately show ?thesis using m unfolding admin_at_def by auto
  qed
  then show ?thesis using team ac' by (auto simp: team_key_def)
qed

lemma delete_mapping_sound:
  assumes w: "mapping_wired srv" and s: "intact s" and run: "delete_team_mapping srv a organization team_subject s = (Inr m, t)"
  shows "(\<exists>o' g. organization = PyStr o' \<and> team_subject = PyStr g \<and> map_provider_key m = (''github'', o', g)) \<and>
    \<not> (\<exists>n. mapped_at t n \<and> map_provider_key n = map_provider_key m) \<and> admin_at t a"
proof -
  have st: "mas_storage srv = port" using w by (simp add: mapping_wired_def)
  from run obtain tm s1 actor k s2 where tm: "make_team organization team_subject PyNone = Inr tm"
    and rd: "tp_read_mapping port (team_key tm) s = (Inr (Some m), s1)"
    and ac: "admin_and_class srv a (PyStr (map_class_id m)) s1 = (Inr (actor, k), s2)"
    and dl: "tp_delete_mapping port m (acc_user_id actor) (acc_updated_at actor) (cls_updated_at k) s2 = (Inr True, t)"
    by (auto simp: delete_team_mapping_def bind_act_Inr try_act_iff st team_storage_Inr split: option.splits prod.splits if_splits)
  have i1: "intact s1 \<and> evolves s s1" by (rule guardedD [OF reads_keep(5) rd s])
  have ac': "a = PyStr (acc_user_id actor) \<and> intact s2" using admin_and_class_Inr [OF w _ ac] i1 by blast
  have key: "map_provider_key m = team_key tm" using read_mapping_law [OF s team_key_provider rd] by blast
  then have "map_provider m = ''github''" by (simp add: map_provider_key_def team_key_def)
  from delete_mapping_law [OF _ this dl] ac'
  have "\<not> (\<exists>n. mapped_at t n \<and> map_provider_key n = map_provider_key m) \<and> (\<exists>u. user_at t u \<and> acc_user_id u = acc_user_id actor \<and>
      acc_active u \<and> acc_role u = RoleAdmin \<and> acc_updated_at u = acc_updated_at actor)" by blast
  then show ?thesis using make_team_Inr [OF tm] key ac' by (auto simp: team_key_def admin_at_def)
qed

end

end
