(* ===== verification/Sqlite_Teams.thy ===== *)
theory Sqlite_Teams
  imports Github_Contract Sqlite_Ports
begin

text \<open>
  The GitHub services over \<^verbatim>\<open>SQLiteIdentityStorage\<close>, with any environment between two calls and any
  directory: the contract \<open>team_registry\<close> of theory \<open>Github_Contract\<close> holds for the port, and
  with it what a synchronization, an onboarding and a change of a mapping leave in the database.
\<close>

section \<open>The port\<close>

definition sqlite_team_port :: "environment \<Rightarrow> world team_port" where
  "sqlite_team_port e =
     \<lparr>tp_read_user = (\<lambda>i. call e (\<lambda>now. read_user i)),
      tp_read_class = (\<lambda>c. call e (\<lambda>now. read_class c)),
      tp_memberships = (\<lambda>i. call e (\<lambda>now. list_user_memberships i)),
      tp_identities = (\<lambda>i. call e (\<lambda>now. list_external_identities i)),
      tp_read_mapping = (\<lambda>(p, o', g). call e (\<lambda>now. read_external_group_mapping p o' g)),
      tp_latest = (\<lambda>(p, o', g). call e (\<lambda>now. read_latest_mapping_generation p o' g)),
      tp_save_mapping = (\<lambda>m a ar cr ec eu. call e (\<lambda>now. save_mapping_for_admin m a ar cr ec eu)),
      tp_delete_mapping = (\<lambda>m a ar cr. call e (\<lambda>now. delete_mapping_for_admin m a ar cr)),
      tp_revoke = (\<lambda>i rvn ms. call e (\<lambda>now. revoke_github_memberships i rvn ms)),
      tp_synchronize = (\<lambda>g. call e (\<lambda>now. synchronize_github_memberships now g)),
      tp_onboard = (\<lambda>g. call e (\<lambda>now. onboard_pending_user now g))\<rparr>"

text \<open>A directory whose answers depend on the moment of the request alone.\<close>

definition tick_directory ::
  "(nat \<Rightarrow> string \<Rightarrow> (directory_failure, raw_snapshot option) result) \<Rightarrow> world team_directory" where
  "tick_directory answers i w = (answers (w_tick w) i, w\<lparr>w_tick := Suc (w_tick w)\<rparr>)"

definition sqlite_reconciler ::
  "environment \<Rightarrow> (nat \<Rightarrow> string \<Rightarrow> (directory_failure, raw_snapshot option) result) \<Rightarrow> int \<Rightarrow> int \<Rightarrow>
   (team_error, world reconciler) result"
where
  "sqlite_reconciler e answers max_age skew =
     make_reconciler (sqlite_team_port e) (tick_directory answers) (tick_source (env_clock e)) max_age skew"

definition sqlite_mapping_service :: "environment \<Rightarrow> world mapping_service" where
  "sqlite_mapping_service e = \<lparr>mas_storage = sqlite_team_port e, mas_clock = tick_source (env_clock e)\<rparr>"

section \<open>What is observed\<close>

definition memberships_in :: "world \<Rightarrow> string \<Rightarrow> class_membership set" where
  "memberships_in w i = {m \<in> set (db_memberships (w_db w)). mem_user_id m = i}"

definition mapping_in :: "world \<Rightarrow> group_mapping \<Rightarrow> bool" where
  "mapping_in w m \<longleftrightarrow> m \<in> set (db_mappings (w_db w)) \<and> map_provider m = ''github''"

definition class_open_in :: "world \<Rightarrow> string \<Rightarrow> bool" where
  "class_open_in w c \<longleftrightarrow> class_open (w_db w) c"

definition github_links_in :: "world \<Rightarrow> string \<Rightarrow> external_identity set" where
  "github_links_in w i = {x \<in> set (db_identities (w_db w)). ext_provider x = ''github'' \<and> ext_user_id x = i}"

lemmas team_observations = memberships_in_def mapping_in_def class_open_in_def github_links_in_def user_in_def

section \<open>The operations of the storage\<close>

lemma all_memberships:
  assumes "db_ok d" "set ms \<subseteq> set (db_memberships d)"
  shows "hydrate_all hydrate_membership ms = Inr ms" "list_all valid_membership ms"
proof -
  show "hydrate_all hydrate_membership ms = Inr ms"
    using assms(2) by (intro hydrate_all_same) (auto intro: hydrate_ok(6) [OF assms(1)])
  show "list_all valid_membership ms" using assms by (auto simp: ok_defs list_all_iff)
qed

lemma team_reads:
  assumes "db_ok d"
  shows "read_class c d = (Inr (Some k), d') \<Longrightarrow> valid_class k \<and> cls_class_id k = c"
    "list_user_memberships i d = (Inr ms, d') \<Longrightarrow> list_all valid_membership ms"
    "list_external_identities i d = (Inr xs, d') \<Longrightarrow> \<forall>x \<in> set xs. ext_user_id x = i"
    "read_external_group_mapping p o' g d = (Inr (Some m), d') \<Longrightarrow> valid_mapping m \<and> map_provider_key m = (lower p, o', g)"
proof -
  show "read_class c d = (Inr (Some k), d') \<Longrightarrow> valid_class k \<and> cls_class_id k = c"
    using assms by (auto simp: read_class_def hydrate_lookup hydrate_ok ok_defs dest!: lookup_by_SomeD)
  let ?ms = "sort_key mem_class_id (sort_key (\<lambda>m. member_text (mem_role m)) (filter (\<lambda>m. mem_user_id m = i) (db_memberships d)))"
  have "set ?ms \<subseteq> set (db_memberships d)" by auto
  from all_memberships [OF assms this]
  show "list_user_memberships i d = (Inr ms, d') \<Longrightarrow> list_all valid_membership ms"
    by (auto simp: list_user_memberships_def)
  let ?xs = "sort_key ext_provider (sort_key ext_subject (filter (\<lambda>e. ext_user_id e = i) (db_identities d)))"
  have "hydrate_all hydrate_identity ?xs = Inr ?xs"
    by (rule hydrate_all_same) (auto intro: hydrate_ok(2) [OF assms])
  then show "list_external_identities i d = (Inr xs, d') \<Longrightarrow> \<forall>x \<in> set xs. ext_user_id x = i"
    by (auto simp: list_external_identities_def)
  show "read_external_group_mapping p o' g d = (Inr (Some m), d') \<Longrightarrow> valid_mapping m \<and> map_provider_key m = (lower p, o', g)"
    using assms
    by (auto simp: read_external_group_mapping_def mapping_at_def hydrate_lookup hydrate_ok ok_defs dest!: lookup_by_SomeD)
qed

lemma student_at: "student_at_revision d i rvn \<Longrightarrow>
    \<exists>u \<in> set (db_users d). acc_user_id u = i \<and> acc_active u \<and> acc_role u = RoleStudent \<and> acc_updated_at u = rvn"
  by (auto simp: student_at_revision_def split: option.splits dest: lookup_userD)

text \<open>A synchronization compares the memberships, the mappings and the classes with those that were seen.\<close>

lemma synchronized_detail:
  assumes "synchronize_github_memberships now g d = (Inr (), d')"
  shows "sync_arguments_ok g"
    "{m \<in> set (db_memberships d). mem_user_id m = gs_user_id g} = set (gs_memberships g)"
    "mapping_row ` {m \<in> set (db_mappings d). map_provider m = ''github'' \<and> (map_organization m, map_group m) \<in> set (gs_group_keys g)} =
       mapping_row ` set (gs_mappings g)"
    "list_all (class_as_seen d) (gs_classes g)"
proof -
  have body: "sync_body now g d = Inr ((), d')" and args: "sync_arguments_ok g"
    using assms by (auto simp: synchronize_github_memberships_def action_simps split: if_splits)
  then have ms: "memberships_of d (gs_user_id g) = sorted_memberships (gs_memberships g)"
    and rows: "mapping_rows (joined_mappings d (gs_group_keys g)) = mapping_rows (gs_mappings g)"
    and cl: "list_all (class_as_seen d) (gs_classes g)"
    by (auto simp: sync_body_def result_simps split: if_splits)
  show "sync_arguments_ok g" "list_all (class_as_seen d) (gs_classes g)" by fact+
  show "{m \<in> set (db_memberships d). mem_user_id m = gs_user_id g} = set (gs_memberships g)"
    using arg_cong [OF ms, of set] by (simp add: memberships_of_def sorted_memberships_def)
  show "mapping_row ` {m \<in> set (db_mappings d). map_provider m = ''github'' \<and> (map_organization m, map_group m) \<in> set (gs_group_keys g)} =
       mapping_row ` set (gs_mappings g)"
    using arg_cong [OF rows, of set] by (simp add: mapping_rows_def joined_mappings_def)
qed

lemma seen_class_open:
  assumes "db_ok d" "class_as_seen d k"
  shows "class_open d (cls_class_id k) \<longleftrightarrow> cls_active k"
proof -
  obtain r where r: "r \<in> set (db_classes d)" "cls_class_id r = cls_class_id k" "cls_active r = cls_active k"
    using assms(2) by (auto simp: class_as_seen_def split: option.splits dest: lookup_by_SomeD)
  moreover have "unique_on cls_class_id (db_classes d)" using assms(1) by (simp add: ok_defs)
  ultimately show ?thesis by (auto simp: class_open_def list_ex_iff dest: unique_onD)
qed

lemma links_of:
  "map (\<lambda>e. (ext_subject e, ext_linked_at e)) (github_identities d i) = [(s, l)] \<Longrightarrow>
     \<exists>x. {x \<in> set (db_identities d). ext_provider x = ''github'' \<and> ext_user_id x = i} = {x} \<and> ext_subject x = s \<and> ext_linked_at x = l"
proof -
  assume a: "map (\<lambda>e. (ext_subject e, ext_linked_at e)) (github_identities d i) = [(s, l)]"
  then obtain x where x: "github_identities d i = [x]" "ext_subject x = s" "ext_linked_at x = l" by auto
  from arg_cong [OF x(1), of set] have "{x \<in> set (db_identities d). ext_provider x = ''github'' \<and> ext_user_id x = i} = {x}"
    by (simp add: github_identities_def)
  with x(2,3) show ?thesis by blast
qed

lemma mapping_saved_for_admin:
  assumes "db_ok d" "save_mapping_for_admin m a ar cr ec eu d = (Inr (), d')"
  shows "m \<in> set (db_mappings d')" "class_open d' (map_class_id m)" "admin_at_revision d' a ar"
proof -
  have frame: "db_users d' = db_users d \<and> db_classes d' = db_classes d \<and> m \<in> set (db_mappings d') \<and>
      admin_at_revision d a ar \<and> class_at_revision d (map_class_id m) cr"
  proof (cases ec)
    case None
    with assms(2) show ?thesis
      by (auto simp: save_mapping_for_admin_def action_simps result_simps Let_def statement_simps split: if_splits)
  next
    case (Some created)
    let ?P = "\<lambda>r. map_provider_key r = map_provider_key m \<and> map_class_id r = map_class_id m \<and>
      map_created_at r = map_created_at m \<and> Some (map_updated_at r) = eu \<and> admin_at_revision d a ar \<and>
      class_at_revision d (map_class_id m) cr"
    from assms(2) Some have u: "update_mappings ?P (map_display_name m) (map_updated_at m) d = (1, d')"
      by (auto simp: save_mapping_for_admin_def action_simps Let_def split: if_splits option.splits prod.splits)
    then have "count_where ?P (db_mappings d) \<noteq> 0"
      and d': "d' = d\<lparr>db_mappings := update_where ?P (\<lambda>r. r\<lparr>map_display_name := map_display_name m, map_updated_at := map_updated_at m\<rparr>)
        (db_mappings d)\<rparr>"
      by (auto simp: update_mappings_def)
    then obtain r where r: "r \<in> set (db_mappings d)" "?P r" unfolding count_where_eq_0 by blast
    then have "r\<lparr>map_display_name := map_display_name m, map_updated_at := map_updated_at m\<rparr> \<in> set (db_mappings d')"
      by (auto simp: d' update_where_def intro!: image_eqI [of _ _ r])
    moreover have "r\<lparr>map_display_name := map_display_name m, map_updated_at := map_updated_at m\<rparr> = m"
      using r(2) by (cases r; cases m) (simp add: map_provider_key_def)
    ultimately show ?thesis using r(2) by (simp add: d')
  qed
  then show "m \<in> set (db_mappings d')" "class_open d' (map_class_id m)" "admin_at_revision d' a ar"
    by (auto simp: class_at_revision_def class_open_def admin_at_revision_def list_ex_iff)
qed

lemma mapping_deleted_for_admin:
  assumes "db_ok d" "delete_mapping_for_admin m a ar cr d = (Inr True, d')"
  shows "\<forall>n \<in> set (db_mappings d'). map_provider_key n \<noteq> map_provider_key m" "admin_at_revision d' a ar"
proof -
  let ?P = "\<lambda>r. map_provider_key r = map_provider_key m \<and> map_class_id r = map_class_id m \<and>
      map_created_at r = map_created_at m \<and> map_updated_at r = map_updated_at m \<and> admin_at_revision d a ar \<and>
      class_at_revision d (map_class_id m) cr"
  from assms(2) have u: "delete_mappings ?P d = (1, d')"
    by (auto simp: delete_mapping_for_admin_def action_simps Let_def split: if_splits prod.splits)
  then have "count_where ?P (db_mappings d) \<noteq> 0" and d': "d' = d\<lparr>db_mappings := delete_where ?P (db_mappings d)\<rparr>"
    by (auto simp: delete_mappings_def)
  then obtain r where r: "r \<in> set (db_mappings d)" "?P r" unfolding count_where_eq_0 by blast
  have "unique_on map_provider_key (db_mappings d)" using assms(1) by (simp add: ok_defs)
  then have "n \<in> set (db_mappings d) \<Longrightarrow> map_provider_key n = map_provider_key m \<Longrightarrow> n = r" for n
    using r by (auto dest: unique_onD)
  then show "\<forall>n \<in> set (db_mappings d'). map_provider_key n \<noteq> map_provider_key m"
    using r(2) by (auto simp: d' delete_where_def)
  show "admin_at_revision d' a ar" using r(2) by (simp add: d' admin_at_revision_def)
qed

section \<open>The contract holds\<close>

lemma admin_in:
  "admin_at_revision (w_db w) a ar \<Longrightarrow> \<exists>u. user_in w u \<and> acc_user_id u = a \<and> acc_active u \<and> acc_role u = RoleAdmin \<and> acc_updated_at u = ar"
  by (auto simp: admin_at_revision_def list_ex_iff user_in_def)

lemma synchronized_world:
  assumes w: "world_intact e w" and run: "tp_synchronize (sqlite_team_port e) g w = (Inr (), w')"
  shows "\<exists>w0 u x. world_evolves w w0 \<and> user_in w' u \<and> acc_user_id u = gs_user_id g \<and> acc_active u \<and> acc_role u = RoleStudent \<and>
    acc_updated_at u = gs_user_revision g \<and>
    github_links_in w' (gs_user_id g) = {x} \<and> ext_subject x = gs_subject g \<and> ext_linked_at x = gs_linked_at g \<and>
    memberships_in w0 (gs_user_id g) = set (gs_memberships g) \<and>
    memberships_in w' (gs_user_id g) = {m \<in> set (gs_memberships g). \<not> from_github m} \<union> set (gs_desired g) \<and>
    list_all from_github (gs_desired g) \<and>
    mapping_row ` {m. mapping_in w' m \<and> (map_organization m, map_group m) \<in> set (gs_group_keys g)} = mapping_row ` set (gs_mappings g) \<and>
    (\<forall>k \<in> set (gs_classes g). class_open_in w' (cls_class_id k) \<longleftrightarrow> cls_active k)"
proof -
  obtain d now where sync: "synchronize_github_memberships now g d = (Inr (), w_db w')" and d: "db_ok d" "dated_steps (w_db w) d"
    using run w by (auto simp: sqlite_team_port_def elim!: call_cases)
  note out = sync_follows_mappings [OF sync] and detail = synchronized_detail [OF sync]
  let ?i = "gs_user_id g"
  obtain u where u: "u \<in> set (db_users d)" "acc_user_id u = ?i" "acc_active u" "acc_role u = RoleStudent" "acc_updated_at u = gs_user_revision g"
    using student_at out by blast
  obtain x where x: "{x \<in> set (db_identities d). ext_provider x = ''github'' \<and> ext_user_id x = ?i} = {x}"
    "ext_subject x = gs_subject g" "ext_linked_at x = gs_linked_at g"
    using links_of [of d ?i "gs_subject g" "gs_linked_at g"] out by auto
  have db: "w_db w' = d\<lparr>db_memberships := filter (\<lambda>m. \<not> github_student ?i m) (db_memberships d) @ gs_desired g\<rparr>"
    using out by blast
  have own: "mem_user_id m = ?i \<and> from_github m" if "m \<in> set (gs_desired g)" for m
    using detail(1) that by (auto simp: sync_arguments_ok_def list_all_iff github_student_def from_github_def)
  have mine: "{m \<in> set (gs_memberships g). \<not> from_github m} = {m \<in> set (db_memberships d). mem_user_id m = ?i \<and> \<not> github_student ?i m}"
    unfolding detail(2) [symmetric] by (auto simp: github_student_def from_github_def)
  have "memberships_in w' ?i = {m \<in> set (gs_memberships g). \<not> from_github m} \<union> set (gs_desired g)"
    unfolding mine using own by (auto simp: memberships_in_def db)
  moreover have "memberships_in (w\<lparr>w_db := d\<rparr>) ?i = set (gs_memberships g)"
    using detail(2) by (simp add: memberships_in_def)
  moreover have "list_all from_github (gs_desired g)" using own by (simp add: list_all_iff)
  moreover have "{m. mapping_in w' m \<and> (map_organization m, map_group m) \<in> set (gs_group_keys g)} =
      {m \<in> set (db_mappings d). map_provider m = ''github'' \<and> (map_organization m, map_group m) \<in> set (gs_group_keys g)}"
    by (auto simp: mapping_in_def db)
  moreover have "\<forall>k \<in> set (gs_classes g). class_open_in w' (cls_class_id k) \<longleftrightarrow> cls_active k"
    using detail(4) seen_class_open [OF d(1)] by (simp add: list_all_iff class_open_in_def db class_open_def)
  moreover have "github_links_in w' ?i = {x}" using x(1) by (simp add: github_links_in_def db)
  moreover have "world_evolves w (w\<lparr>w_db := d\<rparr>)" using d(2) by (simp add: world_evolves_def)
  moreover have "user_in w' u" using u(1) by (simp add: user_in_def db)
  ultimately show ?thesis using u x(2,3) detail(3)
    by (intro exI [of _ "w\<lparr>w_db := d\<rparr>"] exI [of _ u] exI [of _ x]) simp
qed

lemma onboarded_world:
  assumes w: "world_intact e w" and run: "tp_onboard (sqlite_team_port e) g w = (Inr (), w')"
  shows "\<exists>u x m. user_in w' u \<and> acc_user_id u = mem_user_id (go_membership g) \<and> acc_active u \<and> acc_role u = RoleStudent \<and>
    acc_updated_at u = mem_joined_at (go_membership g) \<and> go_membership g \<in> memberships_in w' (acc_user_id u) \<and>
    github_links_in w' (acc_user_id u) = {x} \<and> ext_subject x = go_subject g \<and> ext_linked_at x = go_linked_at g \<and>
    {m. mapping_in w' m \<and> (map_organization m, map_group m) \<in> set (go_group_keys g)} = {m} \<and>
    mapping_row m = mapping_row (go_mapping g) \<and> class_open_in w' (mem_class_id (go_membership g))"
proof -
  obtain d now where on: "onboard_pending_user now g d = (Inr (), w_db w')" and d: "db_ok d"
    using run w by (auto simp: sqlite_team_port_def elim!: call_cases)
  let ?i = "mem_user_id (go_membership g)"
  from onboarding_effect [OF d on refl] obtain u where
    u: "lookup_user (w_db w') ?i = Some (u\<lparr>acc_role := RoleStudent, acc_updated_at := mem_joined_at (go_membership g)\<rparr>)" "acc_active u"
    and ms: "db_memberships (w_db w') = db_memberships d @ [go_membership g]"
    and x: "map (\<lambda>e. (ext_subject e, ext_linked_at e)) (github_identities d ?i) = [(go_subject g, go_linked_at g)]"
    and rows: "map mapping_row (joined_mappings d (go_group_keys g)) = [mapping_row (go_mapping g)]"
    and cl: "class_at_revision d (map_class_id (go_mapping g)) (go_class_revision g)"
    by (elim exE conjE) (rule that; assumption)
  have frame: "db_identities (w_db w') = db_identities d \<and> db_mappings (w_db w') = db_mappings d \<and> db_classes (w_db w') = db_classes d \<and>
      mem_class_id (go_membership g) = map_class_id (go_mapping g)"
  proof -
    have args: "onboarding_arguments_ok g" and body: "onboarding_body now g d = Inr ((), w_db w')"
      using on by (auto simp: onboard_pending_user_def action_simps split: if_splits)
    obtain n d1 where "update_users (onboardable d g)
        (\<lambda>u. u\<lparr>acc_role := RoleStudent, acc_updated_at := mem_joined_at (go_membership g)\<rparr>) d = Inr (n, d1)"
      "insert_membership (go_membership g) d1 = Inr (w_db w')"
      using body by (auto simp: onboarding_body_def result_simps split: if_splits)
    then show ?thesis using args
      by (simp add: update_users_Inr insert_membership_Inr onboarding_arguments_ok_def)
  qed
  let ?u = "u\<lparr>acc_role := RoleStudent, acc_updated_at := mem_joined_at (go_membership g)\<rparr>"
  have v: "user_in w' ?u" "acc_user_id ?u = ?i" using lookup_userD [OF u(1)] by (simp_all add: user_in_def)
  obtain k where k: "github_links_in w' ?i = {k}" "ext_subject k = go_subject g" "ext_linked_at k = go_linked_at g"
    using links_of [OF x] frame by (auto simp: github_links_in_def)
  obtain m where m: "joined_mappings d (go_group_keys g) = [m]" "mapping_row m = mapping_row (go_mapping g)"
    using rows by auto
  have "{m. mapping_in w' m \<and> (map_organization m, map_group m) \<in> set (go_group_keys g)} = {m}"
    using arg_cong [OF m(1), of set] frame by (auto simp: joined_mappings_def mapping_in_def)
  moreover have "class_open_in w' (mem_class_id (go_membership g))"
    using cl frame by (auto simp: class_open_in_def class_open_def class_at_revision_def list_ex_iff)
  moreover have "go_membership g \<in> memberships_in w' ?i" using ms by (simp add: memberships_in_def)
  ultimately show ?thesis using v k m(2) u(2)
    by (intro exI [of _ ?u] exI [of _ k] exI [of _ m]) simp
qed

interpretation sqlite_teams:
  team_registry "world_intact e" world_evolves user_in "sqlite_team_port e" memberships_in mapping_in class_open_in github_links_in for e
proof unfold_locales
  fix i c m a ar cr ec eu rvn ms g o' and key :: "string \<times> string \<times> string"
  obtain p q r where key: "key = (p, q, r)" by (rule prod_cases3)
  show "keeps (guarded (world_intact e) world_evolves) (tp_read_user (sqlite_team_port e) i)"
      "keeps (guarded (world_intact e) world_evolves) (tp_read_class (sqlite_team_port e) c)"
      "keeps (guarded (world_intact e) world_evolves) (tp_memberships (sqlite_team_port e) i)"
      "keeps (guarded (world_intact e) world_evolves) (tp_identities (sqlite_team_port e) i)"
      "keeps (guarded (world_intact e) world_evolves) (tp_read_mapping (sqlite_team_port e) key)"
      "keeps (guarded (world_intact e) world_evolves) (tp_latest (sqlite_team_port e) key)"
    by (auto simp: sqlite_team_port_def key read_user_def read_class_def list_user_memberships_def list_external_identities_def
        read_external_group_mapping_def read_latest_mapping_generation_def intro!: call_step)
  show "valid_mapping m \<Longrightarrow> keeps (guarded (world_intact e) world_evolves) (tp_save_mapping (sqlite_team_port e) m a ar cr ec eu)"
    "keeps (guarded (world_intact e) world_evolves) (tp_delete_mapping (sqlite_team_port e) m a ar cr)"
    "keeps (guarded (world_intact e) world_evolves) (tp_revoke (sqlite_team_port e) i rvn ms)"
    "list_all valid_membership (gs_desired g) \<Longrightarrow> keeps (guarded (world_intact e) world_evolves) (tp_synchronize (sqlite_team_port e) g)"
    "valid_membership (go_membership o') \<Longrightarrow> go_user_revision o' < mem_joined_at (go_membership o') \<Longrightarrow>
      keeps (guarded (world_intact e) world_evolves) (tp_onboard (sqlite_team_port e) o')"
    by (auto simp: sqlite_team_port_def intro!: call_step step_of intro: storage_op.intros)
next
  fix w w' m n
  assume w: "world_intact e w"
  show "valid_user u \<and> acc_user_id u = i" if rd: "tp_read_user (sqlite_team_port e) i w = (Inr (Some u), w')" for i u
  proof -
    obtain d where d: "read_user i d = (Inr (Some u), w_db w')" "db_ok d"
      using rd w by (auto simp: sqlite_team_port_def elim!: call_cases)
    from read_rows(1) [OF d(2,1)] d(2) show ?thesis by (auto simp: ok_defs)
  qed
  show "valid_class k \<and> cls_class_id k = c" if "tp_read_class (sqlite_team_port e) c w = (Inr (Some k), w')" for c k
    using that w by (auto simp: sqlite_team_port_def elim!: call_cases dest: team_reads)
  show "list_all valid_membership ms" if "tp_memberships (sqlite_team_port e) i w = (Inr ms, w')" for i ms
    using that w by (auto simp: sqlite_team_port_def elim!: call_cases dest: team_reads)
  show "\<forall>x \<in> set xs. ext_user_id x = i" if "tp_identities (sqlite_team_port e) i w = (Inr xs, w')" for i xs
    using that w by (auto simp: sqlite_team_port_def elim!: call_cases dest: team_reads)
  show "valid_mapping k \<and> map_provider_key k = key"
    if gh: "fst key = ''github''" and rd: "tp_read_mapping (sqlite_team_port e) key w = (Inr (Some k), w')" for key k
  proof -
    obtain q r where key: "key = (''github'', q, r)" using gh by (cases key) auto
    have "lower ''github'' = ''github''" by code_simp
    then show ?thesis using rd w team_reads(4) unfolding key
      by (fastforce simp: sqlite_team_port_def elim!: call_cases)
  qed
  show "mapping_in w' m \<and> class_open_in w' (map_class_id m) \<and>
      (\<exists>u. user_in w' u \<and> acc_user_id u = a \<and> acc_active u \<and> acc_role u = RoleAdmin \<and> acc_updated_at u = ar)"
    if gh: "map_provider m = ''github''" and sv: "tp_save_mapping (sqlite_team_port e) m a ar cr ec eu w = (Inr (), w')" for a ar cr ec eu
  proof -
    obtain d where "save_mapping_for_admin m a ar cr ec eu d = (Inr (), w_db w')" "db_ok d"
      using sv w by (auto simp: sqlite_team_port_def elim!: call_cases)
    from mapping_saved_for_admin [OF this(2,1)] show ?thesis
      using gh admin_in by (auto simp: mapping_in_def class_open_in_def)
  qed
  show "\<not> (\<exists>k. mapping_in w' k \<and> map_provider_key k = map_provider_key m) \<and>
      (\<exists>u. user_in w' u \<and> acc_user_id u = a \<and> acc_active u \<and> acc_role u = RoleAdmin \<and> acc_updated_at u = ar)"
    if dl: "tp_delete_mapping (sqlite_team_port e) m a ar cr w = (Inr True, w')" for a ar cr
  proof -
    obtain d where "delete_mapping_for_admin m a ar cr d = (Inr True, w_db w')" "db_ok d"
      using dl w by (auto simp: sqlite_team_port_def elim!: call_cases)
    from mapping_deleted_for_admin [OF this(2,1)] show ?thesis
      using admin_in by (auto simp: mapping_in_def)
  qed
qed (rule synchronized_world onboarded_world; assumption)+

lemma tick_directory_keeps: "keeps (guarded (world_intact e) world_evolves) (tick_directory answers i)"
  by (simp add: keeps_def guarded_def tick_directory_def world_intact_def world_evolves_def)

lemma sqlite_reconciler_Inr:
  "sqlite_reconciler e answers max_age skew = Inr srv \<Longrightarrow>
     srv = \<lparr>rec_storage = sqlite_team_port e, rec_directory = tick_directory answers,
       rec_clock = tick_source (env_clock e), rec_max_age = max_age, rec_skew = skew\<rparr>"
  by (auto simp: sqlite_reconciler_def make_reconciler_def split: if_splits)

lemma sqlite_reconciler_wired:
  "sqlite_reconciler e answers max_age skew = Inr srv \<Longrightarrow> sqlite_teams.reconciler_wired e srv"
  unfolding sqlite_teams.reconciler_wired_def
  by (drule sqlite_reconciler_Inr) (simp add: tick_source_harmless tick_directory_keeps)

lemma sqlite_mapping_wired: "sqlite_teams.mapping_wired e (sqlite_mapping_service e)"
  unfolding sqlite_teams.mapping_wired_def by (simp add: sqlite_mapping_service_def tick_source_harmless)

section \<open>What reconciliations leave in the database\<close>

text \<open>
  The specification of a reconciliation: the classes a student is in through GitHub are those
  that are open, that the student has not joined by hand, and to which a team of the snapshot
  is mapped.
\<close>

definition team_mappings :: "identity_db \<Rightarrow> team list \<Rightarrow> group_mapping list" where
  "team_mappings d ts = filter (\<lambda>m. map_provider m = ''github'' \<and> (map_organization m, map_group m) \<in> set (map group_key ts)) (db_mappings d)"

definition github_class_ids :: "identity_db \<Rightarrow> string \<Rightarrow> string set" where
  "github_class_ids d i = set (map mem_class_id (filter (\<lambda>m. mem_user_id m = i \<and> from_github m) (db_memberships d)))"

definition manual_class_ids :: "identity_db \<Rightarrow> string \<Rightarrow> string set" where
  "manual_class_ids d i = set (map mem_class_id (filter (\<lambda>m. mem_user_id m = i \<and> by_hand m) (db_memberships d)))"

definition target_class_ids :: "identity_db \<Rightarrow> string \<Rightarrow> team list \<Rightarrow> string set" where
  "target_class_ids d i ts = set (filter (\<lambda>c. class_open d c) (map map_class_id (team_mappings d ts))) - manual_class_ids d i"

lemma team_specification:
  "sqlite_teams.github_classes w i = github_class_ids (w_db w) i"
  "mem_class_id ` {m \<in> memberships_in w i. by_hand m} = manual_class_ids (w_db w) i"
  "sqlite_teams.team_mapped w snap m \<longleftrightarrow> m \<in> set (team_mappings (w_db w) (ts_teams snap))"
  unfolding sqlite_teams.github_classes_def sqlite_teams.team_mapped_def
  by (auto simp: team_observations github_class_ids_def manual_class_ids_def team_mappings_def)

text \<open>A snapshot that the directory delivered for a link within the allowed age.\<close>

definition snapshot_for ::
  "environment \<Rightarrow> (nat \<Rightarrow> string \<Rightarrow> (directory_failure, raw_snapshot option) result) \<Rightarrow> int \<Rightarrow> int \<Rightarrow>
   external_identity \<Rightarrow> team_snapshot \<Rightarrow> bool"
where
  "snapshot_for e answers max_age skew y snap \<longleftrightarrow> ext_linked_at y \<le> ts_captured_at snap \<and>
     (\<exists>n raw. answers n (ext_subject y) = Inr raw \<and> validated_snapshot raw (ext_subject y) = Inr snap) \<and>
     (\<exists>n now. utc (env_clock e n) = Inr now \<and> now - max_age < ts_captured_at snap \<and> ts_captured_at snap \<le> now + skew)"

lemma delivered_snapshot:
  assumes "sqlite_reconciler e answers max_age skew = Inr srv" "sqlite_teams.delivered srv y snap"
  shows "snapshot_for e answers max_age skew y snap"
  using assms(2) unfolding sqlite_reconciler_Inr [OF assms(1)] sqlite_teams.delivered_def snapshot_for_def
  by (auto simp: tick_directory_def tick_source_def)

text \<open>C28. A synchronization that answers with the teams of a student implements its specification, whatever
  other processes do between two calls: in the database it leaves, the classes the student is in
  through GitHub are exactly the target classes of the snapshot, each membership names a team
  mapped to its class, no other membership of the student has changed, and the answer lists what
  was added and removed. The account is an active student with one GitHub link, and the snapshot
  was delivered for that link, after it was linked and within the allowed age.\<close>

theorem student_sync_meets_specification:
  assumes "honest e" "db_ok (w_db w)" "sqlite_reconciler e answers max_age skew = Inr srv"
    "reconcile_student srv v w = (Inr r, w')" "syn_reason r = ''already-current'' \<or> syn_reason r = ''complete-snapshot''"
  shows "\<exists>d0 u y snap. dated_steps (w_db w) d0 \<and> v = PyStr (acc_user_id u) \<and>
    u \<in> set (db_users (w_db w')) \<and> acc_active u \<and> acc_role u = RoleStudent \<and>
    {x \<in> set (db_identities (w_db w')). ext_provider x = ''github'' \<and> ext_user_id x = acc_user_id u} = {y} \<and>
    snapshot_for e answers max_age skew y snap \<and>
    github_class_ids (w_db w') (acc_user_id u) = target_class_ids (w_db w') (acc_user_id u) (ts_teams snap) \<and>
    (\<forall>k \<in> set (db_memberships (w_db w')). mem_user_id k = acc_user_id u \<and> from_github k \<longrightarrow>
       (\<exists>m \<in> set (team_mappings (w_db w') (ts_teams snap)). map_class_id m = mem_class_id k \<and> mem_source_group k = Some (map_group m))) \<and>
    (\<forall>k. mem_user_id k = acc_user_id u \<and> \<not> from_github k \<longrightarrow> (k \<in> set (db_memberships (w_db w')) \<longleftrightarrow> k \<in> set (db_memberships d0))) \<and>
    set (syn_added r) = github_class_ids (w_db w') (acc_user_id u) - github_class_ids d0 (acc_user_id u) \<and>
    set (syn_removed r) = github_class_ids d0 (acc_user_id u) - github_class_ids (w_db w') (acc_user_id u)"
proof -
  have w: "world_intact e w" using assms(1,2) by (simp add: world_intact_def)
  from sqlite_teams.student_sound [OF sqlite_reconciler_wired [OF assms(3)] w assms(4,5)] obtain w0 u y snap where
    o1: "world_evolves w w0" "v = PyStr (acc_user_id u)" "user_in w' u" "acc_active u" "acc_role u = RoleStudent"
      "github_links_in w' (acc_user_id u) = {y}"
    and dl: "sqlite_teams.delivered srv y snap"
    and out: "sqlite_teams.sync_outcome w0 w' u snap r" by blast
  let ?d = "w_db w'" and ?i = "acc_user_id u"
  note out = out [unfolded sqlite_teams.sync_outcome_def team_specification]
  have "github_class_ids ?d ?i = target_class_ids ?d ?i (ts_teams snap)"
    using out by (auto simp: target_class_ids_def class_open_in_def)
  moreover have "\<exists>m \<in> set (team_mappings ?d (ts_teams snap)). map_class_id m = mem_class_id k \<and> mem_source_group k = Some (map_group m)"
    if "k \<in> set (db_memberships ?d)" "mem_user_id k = ?i" "from_github k" for k
    using out that by (auto simp: memberships_in_def)
  moreover have "k \<in> set (db_memberships ?d) \<longleftrightarrow> k \<in> set (db_memberships (w_db w0))" if "mem_user_id k = ?i" "\<not> from_github k" for k
    using out that by (auto simp: memberships_in_def)
  moreover have "set (syn_added r) = github_class_ids ?d ?i - github_class_ids (w_db w0) ?i"
    "set (syn_removed r) = github_class_ids (w_db w0) ?i - github_class_ids ?d ?i" using out by blast+
  ultimately show ?thesis using o1 delivered_snapshot [OF assms(3) dl]
    by (intro exI [of _ "w_db w0"] exI [of _ u] exI [of _ y] exI [of _ snap])
      (simp add: world_evolves_def user_in_def github_links_in_def)
qed

text \<open>C29. A user who is reported as onboarded is an active student in the database, with the GitHub membership
  the answer holds, of the one class to which the teams of a fresh snapshot of the one GitHub
  link are mapped: exactly one mapping of those teams exists and its class is open.\<close>

theorem pending_user_is_onboarded:
  assumes "honest e" "db_ok (w_db w)" "sqlite_reconciler e answers max_age skew = Inr srv"
    "reconcile_pending srv v w = (Inr r, w')" "onr_status r = ''onboarded''"
  shows "\<exists>m n u y snap. onr_membership r = Some m \<and> v = PyStr (acc_user_id u) \<and> u \<in> set (db_users (w_db w')) \<and>
    acc_active u \<and> acc_role u = RoleStudent \<and> acc_updated_at u = mem_joined_at m \<and>
    {x \<in> set (db_identities (w_db w')). ext_provider x = ''github'' \<and> ext_user_id x = acc_user_id u} = {y} \<and>
    snapshot_for e answers max_age skew y snap \<and> set (team_mappings (w_db w') (ts_teams snap)) = {n} \<and>
    m \<in> set (db_memberships (w_db w')) \<and> mem_user_id m = acc_user_id u \<and> from_github m \<and>
    mem_class_id m = map_class_id n \<and> mem_source_group m = Some (map_group n) \<and> class_open (w_db w') (map_class_id n)"
proof -
  have w: "world_intact e w" using assms(1,2) by (simp add: world_intact_def)
  from sqlite_teams.pending_sound [OF sqlite_reconciler_wired [OF assms(3)] w assms(4,5)] obtain m u y snap where
    o1: "onr_membership r = Some m" "v = PyStr (acc_user_id u)" "user_in w' u" "acc_active u" "acc_role u = RoleStudent"
      "github_links_in w' (acc_user_id u) = {y}"
    and dl: "sqlite_teams.delivered srv y snap"
    and out: "sqlite_teams.onboarding_outcome w' u snap m" by blast
  from out [unfolded sqlite_teams.onboarding_outcome_def team_specification] obtain n where
    "set (team_mappings (w_db w') (ts_teams snap)) = {n}" "map_class_id n = mem_class_id m" "mem_source_group m = Some (map_group n)"
    "mem_user_id m = acc_user_id u" "acc_updated_at u = mem_joined_at m" "m \<in> memberships_in w' (acc_user_id u)"
    "from_github m" "class_open_in w' (mem_class_id m)" by auto
  with o1 delivered_snapshot [OF assms(3) dl] show ?thesis
    by (intro exI [of _ m] exI [of _ n] exI [of _ u] exI [of _ y] exI [of _ snap]) (simp add: team_observations)
qed

section \<open>What a change of a mapping leaves in the database\<close>

lemma sqlite_admin_at:
  "sqlite_teams.admin_at w v \<longleftrightarrow> (\<exists>u \<in> set (db_users (w_db w)). v = PyStr (acc_user_id u) \<and> acc_active u \<and> acc_role u = RoleAdmin)"
  unfolding sqlite_teams.admin_at_def by (auto simp: user_in_def)

text \<open>A saved mapping of a team is the only mapping of that team in the database, leads to the class that
  was asked for, which is open, and the caller is an active administrator there; this holds for
  a new mapping, also after lost races for its generation, and for the update of an existing one.\<close>

theorem team_mapping_is_stored:
  assumes "honest e" "db_ok (w_db w)"
    "save_team_mapping (sqlite_mapping_service e) admin_id class_id organization team_subject name w = (Inr m, w')"
  shows "(\<exists>o' g. organization = PyStr o' \<and> team_subject = PyStr g \<and>
      {n \<in> set (db_mappings (w_db w')). map_provider_key n = (''github'', o', g)} = {m}) \<and>
    class_id = PyStr (map_class_id m) \<and> class_open (w_db w') (map_class_id m) \<and>
    (\<exists>u \<in> set (db_users (w_db w')). admin_id = PyStr (acc_user_id u) \<and> acc_active u \<and> acc_role u = RoleAdmin)"
proof -
  have w: "world_intact e w" using assms(1,2) by (simp add: world_intact_def)
  from sqlite_teams.save_mapping_sound [OF sqlite_mapping_wired w assms(3)] obtain o' g where
    o1: "world_intact e w'" "mapping_in w' m" "organization = PyStr o'" "team_subject = PyStr g" "map_provider_key m = (''github'', o', g)"
      "class_id = PyStr (map_class_id m)" "class_open_in w' (map_class_id m)" "sqlite_teams.admin_at w' admin_id" by blast
  then have "unique_on map_provider_key (db_mappings (w_db w'))" by (simp add: world_intact_def ok_defs)
  then have "{n \<in> set (db_mappings (w_db w')). map_provider_key n = (''github'', o', g)} = {m}"
    using o1(2,5) by (auto simp: mapping_in_def dest: unique_onD)
  with o1 show ?thesis by (auto simp: sqlite_admin_at class_open_in_def)
qed

lemma team_mapping_is_removed:
  assumes "honest e" "db_ok (w_db w)"
    "delete_team_mapping (sqlite_mapping_service e) admin_id organization team_subject w = (Inr m, w')"
  shows "(\<exists>o' g. organization = PyStr o' \<and> team_subject = PyStr g \<and> map_provider_key m = (''github'', o', g) \<and>
      (\<forall>n \<in> set (db_mappings (w_db w')). map_provider_key n \<noteq> (''github'', o', g))) \<and>
    (\<exists>u \<in> set (db_users (w_db w')). admin_id = PyStr (acc_user_id u) \<and> acc_active u \<and> acc_role u = RoleAdmin)"
proof -
  have w: "world_intact e w" using assms(1,2) by (simp add: world_intact_def)
  from sqlite_teams.delete_mapping_sound [OF sqlite_mapping_wired w assms(3)] obtain o' g where
    o1: "organization = PyStr o'" "team_subject = PyStr g" "map_provider_key m = (''github'', o', g)"
      "\<not> (\<exists>n. mapping_in w' n \<and> map_provider_key n = map_provider_key m)" "sqlite_teams.admin_at w' admin_id" by blast
  then show ?thesis by (auto simp: sqlite_admin_at mapping_in_def map_provider_key_def)
qed

end
