(* ===== verification/Sample_Teams.thy ===== *)
theory Sample_Teams
  imports Sample_Classes Sqlite_Teams
begin

text \<open>The properties of the GitHub services on concrete inputs.\<close>

section \<open>An evening\<close>

definition evening_tick :: "nat \<Rightarrow> instant" where
  "evening_tick n = 2000000 + int (min n 100)"

definition evening :: environment where
  "evening = \<lparr>env_clock = (\<lambda>n. utc_datetime (evening_tick n)), env_storage_clock = evening_tick,
     env_token = (\<lambda>n. PyNone), env_identifier = (\<lambda>n. PyNone), env_others = (\<lambda>n. id)\<rparr>"

lemma evening_quiet: "quiet evening evening_tick"
  by (auto simp: quiet_def evening_def fun_eq_iff evening_tick_def representable_def max_instant_def day_micros_def
      intro!: monoI)

lemmas evening_honest = quiet_honest [OF evening_quiet]

definition team_answer :: "nat \<Rightarrow> string \<Rightarrow> (directory_failure, raw_snapshot option) result" where
  "team_answer n i = Inr (Some \<lparr>rs_user = PyStr i,
     rs_teams = Some [Some \<lparr>rt_organization = PyStr ''7'', rt_team = PyStr ''70'', rt_name = PyNone\<rparr>],
     rs_captured = utc_datetime 1999990, rs_complete = PyBool True\<rparr>)"

definition dusk :: world where
  "dusk = \<lparr>w_db = classroom, w_tick = 0\<rparr>"

lemma dusk_ok: "db_ok (w_db dusk)"
  using classrooms_ok(1) by (simp add: dusk_def)

definition team_service :: "world reconciler" where
  "team_service = \<lparr>rec_storage = sqlite_team_port evening, rec_directory = tick_directory team_answer,
     rec_clock = tick_source (env_clock evening), rec_max_age = 1000000, rec_skew = 0\<rparr>"

lemma team_service_made: "sqlite_reconciler evening team_answer 1000000 0 = Inr team_service"
  by (simp add: sqlite_reconciler_def make_reconciler_def team_service_def)

definition answered :: "('a \<Rightarrow> bool) \<Rightarrow> ('e + 'a) \<times> 's \<Rightarrow> bool" where
  "answered P p = (case fst p of Inl e \<Rightarrow> False | Inr x \<Rightarrow> P x)"

lemma answeredD: "answered P p \<Longrightarrow> \<exists>x t. p = (Inr x, t) \<and> P x"
  by (cases p) (auto simp: answered_def split: sum.splits)

section \<open>A student, a pending user and a mapping\<close>

theorem student_sync_meets_specification_witness:
  "\<exists>r w' d0. reconcile_student team_service (PyStr ''stu'') dusk = (Inr r, w') \<and> dated_steps classroom d0 \<and>
     syn_added r = [''1A''] \<and> set (syn_added r) = github_class_ids (w_db w') ''stu'' - github_class_ids d0 ''stu''"
proof -
  have "answered (\<lambda>r. syn_reason r = ''complete-snapshot'' \<and> syn_added r = [''1A''])
      (reconcile_student team_service (PyStr ''stu'') dusk)" by code_simp
  then obtain r w' where run: "reconcile_student team_service (PyStr ''stu'') dusk = (Inr r, w')"
    and r: "syn_reason r = ''complete-snapshot''" "syn_added r = [''1A'']" using answeredD by blast
  from student_sync_meets_specification [OF evening_honest dusk_ok team_service_made run disjI2 [OF r(1)]] run r(2)
  show ?thesis by (auto simp: dusk_def)
qed

theorem pending_user_is_onboarded_witness:
  "\<exists>r m w'. reconcile_pending team_service (PyStr ''new'') dusk = (Inr r, w') \<and> onr_membership r = Some m \<and>
     m \<in> set (db_memberships (w_db w')) \<and> mem_user_id m = ''new'' \<and> from_github m"
proof -
  have "answered (\<lambda>r. onr_status r = ''onboarded'') (reconcile_pending team_service (PyStr ''new'') dusk)" by code_simp
  then obtain r w' where run: "reconcile_pending team_service (PyStr ''new'') dusk = (Inr r, w')"
    and r: "onr_status r = ''onboarded''" using answeredD by blast
  from pending_user_is_onboarded [OF evening_honest dusk_ok team_service_made run r] run
  show ?thesis by auto
qed

theorem team_mapping_is_stored_witness:
  "\<exists>m w'. save_team_mapping (sqlite_mapping_service evening) (PyStr ''root'') (PyStr ''1A'') (PyStr ''7'') (PyStr ''71'') PyNone dusk =
       (Inr m, w') \<and> {n \<in> set (db_mappings (w_db w')). map_provider_key n = (''github'', ''7'', ''71'')} = {m}"
proof -
  let ?run = "save_team_mapping (sqlite_mapping_service evening) (PyStr ''root'') (PyStr ''1A'') (PyStr ''7'') (PyStr ''71'') PyNone dusk"
  have "run_ok ?run" by code_simp
  then obtain m w' where run: "?run = (Inr m, w')" using run_okD by blast
  from team_mapping_is_stored [OF evening_honest dusk_ok run] run show ?thesis by auto
qed

end
