(* ===== verification/Tui_Boundary.thy ===== *)
theory Tui_Boundary
  imports Auth_Pairings Http_Auth
begin

text \<open>
  \<^verbatim>\<open>TuiBrowserPairingBoundary\<close> of \<^verbatim>\<open>scripts/thebitlab_tui_pairing.py\<close>: a terminal asks for a code, a
  browser with a student's session authorizes it, the terminal exchanges it for a bearer and
  uses the bearer. Every failure of a service becomes an exception with an HTTP status.
\<close>

section \<open>Exceptions\<close>

datatype tui_error = TuiBadRequest | TuiConflict | TuiExpired | TuiUnavailable | TuiHttp http_error

type_synonym ('s, 'a) tui_action = "('s, tui_error, 'a) action"

fun tui_status :: "tui_error \<Rightarrow> nat option" where
  "tui_status TuiBadRequest = Some 400"
| "tui_status TuiConflict = Some 409"
| "tui_status TuiExpired = Some 410"
| "tui_status TuiUnavailable = Some 503"
| "tui_status (TuiHttp e) = http_status e"

abbreviation authentication_required :: tui_error where
  "authentication_required \<equiv> TuiHttp HttpAuthenticationRequired"

abbreviation authorization_denied :: tui_error where
  "authorization_denied \<equiv> TuiHttp HttpAuthorizationDenied"

section \<open>Values\<close>

text \<open>\<open>None\<close> is a \<^verbatim>\<open>ValueError\<close>.\<close>

definition boundary_identifier :: "pyval \<Rightarrow> string option" where
  "boundary_identifier v =
     (case v of
        PyStr s \<Rightarrow>
          if strip s = [] \<or> strip s \<noteq> s \<or> 512 < length (strip s) \<or> list_ex category_C (strip s)
          then None else Some (strip s)
      | _ \<Rightarrow> None)"

definition verification_path :: "pyval \<Rightarrow> string option" where
  "verification_path v =
     (case boundary_identifier v of
        None \<Rightarrow> None
      | Some p \<Rightarrow>
          if take 1 p \<noteq> ''/'' \<or> take 2 p = ''//'' \<or> List.member p (CHR ''?'') \<or> List.member p (CHR ''#'') \<or>
             List.member p (CHR 0x5C)
          then None else Some p)"

record tui_start =
  start_pairing_id :: string
  start_expires_at :: instant
  start_path :: string
  start_code :: string

definition make_tui_start :: "string \<Rightarrow> instant \<Rightarrow> string \<Rightarrow> string \<Rightarrow> tui_start option" where
  "make_tui_start pairing_id expires_at path code =
     (case (boundary_identifier (PyStr pairing_id), utc (utc_datetime expires_at), verification_path (PyStr path),
            boundary_identifier (PyStr code)) of
        (Some i, Inr t, Some p, Some c) \<Rightarrow>
          Some \<lparr>start_pairing_id = i, start_expires_at = t, start_path = p, start_code = c\<rparr>
      | _ \<Rightarrow> None)"

definition proof_shape :: "string \<Rightarrow> bool" where
  "proof_shape p \<longleftrightarrow> length p = 43 \<and> list_all bearer_char p"

record tui_credential =
  crd_session_id :: string
  crd_user_id :: string
  crd_expires_at :: instant
  crd_bearer :: string
  crd_proof :: string

definition make_tui_credential :: "user_session \<Rightarrow> pyval \<Rightarrow> string \<Rightarrow> tui_credential option" where
  "make_tui_credential x raw logout_proof =
     (case (boundary_identifier (PyStr (ses_session_id x)), boundary_identifier (PyStr (ses_user_id x)),
            utc (utc_datetime (ses_expires_at x)), raw) of
        (Some i, Some u, Inr t, PyStr bearer) \<Rightarrow>
          if \<not> valid_session_bearer raw \<or> \<not> proof_shape logout_proof then None
          else Some \<lparr>crd_session_id = i, crd_user_id = u, crd_expires_at = t, crd_bearer = bearer, crd_proof = logout_proof\<rparr>
      | _ \<Rightarrow> None)"

definition bearer_header :: "pyval \<Rightarrow> string option" where
  "bearer_header v =
     (case v of
        PyStr s \<Rightarrow>
          if 2048 < length s \<or> s \<noteq> strip s \<or> list_ex is_control s then None
          else (case partition_at (CHR '' '') (strip s) of
                  (scheme, found, bearer) \<Rightarrow>
                    if \<not> found \<or> lower scheme \<noteq> ''bearer'' \<or> \<not> valid_session_bearer (PyStr bearer)
                    then None else Some bearer)
      | _ \<Rightarrow> None)"

section \<open>The boundary\<close>

text \<open>
  \<open>tb_snapshot\<close> is the read of a session with its account and its pairing that the storage
  offers; \<open>tb_shared\<close> says that the three services hold the same storage object.
\<close>

type_synonym 's tui_snapshot =
  "string \<Rightarrow> string option \<Rightarrow> ('s, user_session option \<times> user_account option \<times> tui_pairing option) storage_call"

record 's tui_boundary =
  tb_pairings :: "'s tui_service"
  tb_http :: "'s http_boundary"
  tb_sessions :: "'s session_service"
  tb_snapshot :: "'s tui_snapshot"
  tb_shared :: bool
  tb_path :: string

definition well_configured :: "'s session_service \<Rightarrow> 's http_boundary \<Rightarrow> bool \<Rightarrow> bool" where
  "well_configured sessions http same_storage \<longleftrightarrow>
     ss_audience sessions = AudienceTui \<and> ss_audience (hb_sessions http) = AudienceWeb \<and> same_storage"

definition make_tui_boundary ::
  "'s tui_service \<Rightarrow> 's http_boundary \<Rightarrow> 's session_service \<Rightarrow> 's tui_snapshot \<Rightarrow> bool \<Rightarrow> pyval \<Rightarrow> 's tui_boundary option"
where
  "make_tui_boundary pairings http sessions snapshot same_storage path =
     (if \<not> well_configured sessions http same_storage then None
      else (case verification_path path of
              None \<Rightarrow> None
            | Some p \<Rightarrow> Some \<lparr>tb_pairings = pairings, tb_http = http, tb_sessions = sessions, tb_snapshot = snapshot,
                tb_shared = same_storage, tb_path = p\<rparr>))"

definition require_shared :: "'s tui_boundary \<Rightarrow> ('s, unit) tui_action" where
  "require_shared b =
     (if well_configured (tb_sessions b) (tb_http b) (tb_shared b) then return_act () else raise_act TuiUnavailable)"

definition refuse :: "'s tui_boundary \<Rightarrow> tui_error \<Rightarrow> ('s, 'a) tui_action" where
  "refuse b e = bind_act (require_shared b) (\<lambda>_. raise_act e)"

definition begin_pairing :: "'s tui_boundary \<Rightarrow> ('s, tui_start) tui_action" where
  "begin_pairing b =
     bind_act (require_shared b) (\<lambda>_.
     try_act (tui_issue (tb_pairings b))
       (\<lambda>_. refuse b TuiUnavailable)
       (\<lambda>(p, code). bind_act (require_shared b) (\<lambda>_.
          case make_tui_start (par_pairing_id p) (par_expires_at p) (tb_path b) code of
            None \<Rightarrow> raise_act TuiUnavailable
          | Some start \<Rightarrow> return_act start)))"

abbreviation pairing_storage :: "'s tui_boundary \<Rightarrow> 's pairing_port" where
  "pairing_storage b \<equiv> ps_storage (tui_pairings (tb_pairings b))"

text \<open>After a wrong code or a disabled account: what is true of the caller now.\<close>

definition browser_refused :: "'s tui_boundary \<Rightarrow> string \<Rightarrow> ('s, 'a) tui_action" where
  "browser_refused b user_id =
     try_act (pp_read_user (pairing_storage b) user_id)
       (\<lambda>_. refuse b TuiUnavailable)
       (\<lambda>found. refuse b
          (case found of
             None \<Rightarrow> authentication_required
           | Some u \<Rightarrow>
               if \<not> acc_active u then authentication_required
               else if acc_role u \<noteq> RoleStudent then authorization_denied else TuiBadRequest))"

definition authorize_browser :: "'s tui_boundary \<Rightarrow> http_request option \<Rightarrow> pyval \<Rightarrow> ('s, unit) tui_action" where
  "authorize_browser b request code =
     bind_act (require_shared b) (\<lambda>_.
     if (case request of None \<Rightarrow> True | Some r \<Rightarrow> req_method r \<noteq> PyStr ''POST'') then raise_act TuiBadRequest
     else bind_act (try_act (authorize_application (tb_http b) request (Roles [''student'']))
            (\<lambda>e. raise_act (TuiHttp e)) return_act) (\<lambda>ctx.
     bind_act (require_shared b) (\<lambda>_.
     try_act (tui_authorize (tb_pairings b) code (acc_user_id (ctx_user ctx)))
       (\<lambda>e. if credential_error e then browser_refused b (acc_user_id (ctx_user ctx))
            else refuse b (if e = PairingExpiredState then TuiExpired
              else if e = PairingState \<or> e = ConcurrentStateChange then TuiConflict else TuiUnavailable))
       (\<lambda>p. bind_act (require_shared b) (\<lambda>_.
          if par_status p \<noteq> PairAuthorized then raise_act TuiUnavailable else return_act ())))))"

section \<open>Delivering a bearer\<close>

text \<open>\<^verbatim>\<open>hmac.new\<close> needs a key of bytes.\<close>

definition logout_proof :: "'s tui_boundary \<Rightarrow> string \<Rightarrow> string option" where
  "logout_proof b bearer =
     (case ps_pepper (tui_pairings (tb_pairings b)) of
        PyBytes key \<Rightarrow> Some (base64url (hex_bytes (hmac_sha256_hex (ps_hash (tui_pairings (tb_pairings b))) key
          (''thebitlab:tui-logout:v1'' @ [CHR 0x00] @ bearer))))
      | _ \<Rightarrow> None)"

definition valid_logout_proof :: "'s tui_boundary \<Rightarrow> string \<Rightarrow> pyval \<Rightarrow> bool option" where
  "valid_logout_proof b bearer v =
     (case v of
        PyStr p \<Rightarrow>
          if \<not> proof_shape p then Some False
          else (case logout_proof b bearer of None \<Rightarrow> None | Some expected \<Rightarrow> compare_digest expected p)
      | _ \<Rightarrow> Some False)"

abbreviation bearer_digest :: "'s tui_boundary \<Rightarrow> pyval \<Rightarrow> (auth_error, string) result" where
  "bearer_digest b raw \<equiv> session_token_digest (ss_hash (tb_sessions b)) raw"

text \<open>The common start of the checks of a session that was issued for a pairing: its digest, if it fits.\<close>

definition issued_digest :: "'s tui_boundary \<Rightarrow> user_session \<Rightarrow> pyval \<Rightarrow> string \<Rightarrow> string option" where
  "issued_digest b x raw pairing_id =
     (if ses_audience x \<noteq> AudienceTui \<or> ses_source_pairing x \<noteq> Some pairing_id \<or> \<not> valid_session_bearer raw then None
      else (case bearer_digest b raw of
              Inl _ \<Rightarrow> None
            | Inr digest \<Rightarrow> if compare_digest (ses_token_digest x) digest = Some True then Some digest else None))"

definition tui_issued_is_valid :: "'s tui_boundary \<Rightarrow> user_session \<Rightarrow> pyval \<Rightarrow> string \<Rightarrow> ('s, bool) tui_action" where
  "tui_issued_is_valid b x raw pairing_id =
     (case issued_digest b x raw pairing_id of
        None \<Rightarrow> return_act False
      | Some _ \<Rightarrow>
          try_act (authenticate_session (tb_sessions b) raw) (\<lambda>_. return_act False)
            (\<lambda>(y, u). try_act (pp_read_pairing (pairing_storage b) pairing_id) (\<lambda>_. return_act False)
              (\<lambda>found. return_act
                 (well_configured (tb_sessions b) (tb_http b) (tb_shared b) \<and>
                  acc_active u \<and> acc_role u = RoleStudent \<and> acc_user_id u = ses_user_id x \<and>
                  ses_session_id y = ses_session_id x \<and> ses_user_id y = ses_user_id x \<and>
                  ses_token_digest y = ses_token_digest x \<and> ses_created_at y = ses_created_at x \<and>
                  ses_expires_at y = ses_expires_at x \<and> ses_audience y = AudienceTui \<and>
                  ses_source_pairing y = Some pairing_id \<and> ses_revoked_at y = None \<and>
                  (case found of
                     None \<Rightarrow> False
                   | Some q \<Rightarrow> par_status q = PairConsumed \<and> par_user_id q = Some (ses_user_id x) \<and>
                       par_consumed_at q = Some (ses_created_at x))))))"

definition revoke_quietly :: "'s tui_boundary \<Rightarrow> pyval \<Rightarrow> ('s, unit) tui_action" where
  "revoke_quietly b raw =
     try_act (revoke_session (tb_sessions b) raw) (\<lambda>_. return_act ()) (\<lambda>_. return_act ())"

text \<open>\<open>sp_read_by_digest\<close> is the read of the storage of the session service.\<close>

definition revoke_issued_quietly :: "'s tui_boundary \<Rightarrow> user_session \<Rightarrow> pyval \<Rightarrow> string \<Rightarrow> ('s, unit) tui_action" where
  "revoke_issued_quietly b x raw pairing_id =
     (case issued_digest b x raw pairing_id of
        None \<Rightarrow> return_act ()
      | Some digest \<Rightarrow>
          try_act (sp_read_by_digest (ss_storage (tb_sessions b)) digest) (\<lambda>_. return_act ())
            (\<lambda>persisted. try_act (pp_read_pairing (pairing_storage b) pairing_id) (\<lambda>_. return_act ())
              (\<lambda>found. case (persisted, found) of
                 (Some y, Some q) \<Rightarrow>
                   if ses_session_id y \<noteq> ses_session_id x \<or> ses_user_id y \<noteq> ses_user_id x \<or>
                      ses_token_digest y \<noteq> ses_token_digest x \<or> ses_created_at y \<noteq> ses_created_at x \<or>
                      ses_expires_at y \<noteq> ses_expires_at x \<or> ses_audience y \<noteq> AudienceTui \<or>
                      ses_source_pairing y \<noteq> Some pairing_id \<or> par_status q \<noteq> PairConsumed \<or>
                      par_user_id q \<noteq> Some (ses_user_id y) \<or> par_consumed_at q \<noteq> Some (ses_created_at y)
                   then return_act () else revoke_quietly b raw
               | _ \<Rightarrow> return_act ())))"

text \<open>\<^verbatim>\<open>IdentityDomainError\<close> is a \<^verbatim>\<open>ValueError\<close>.\<close>

definition exchange_error :: "auth_error \<Rightarrow> tui_error" where
  "exchange_error e =
     (if credential_error e \<or> (case e of FromIdentity _ \<Rightarrow> True | _ \<Rightarrow> False) then TuiBadRequest
      else if e = PairingExpiredState then TuiExpired
      else if e = PairingState \<or> e = ConcurrentStateChange then TuiConflict else TuiUnavailable)"

definition deliver_credential :: "'s tui_boundary \<Rightarrow> user_session \<Rightarrow> pyval \<Rightarrow> string \<Rightarrow> ('s, tui_credential) tui_action" where
  "deliver_credential b x raw pairing_id =
     bind_act (tui_issued_is_valid b x raw pairing_id) (\<lambda>ok.
     if \<not> ok then bind_act (revoke_issued_quietly b x raw pairing_id) (\<lambda>_. raise_act TuiUnavailable)
     else (case (case raw of PyStr t \<Rightarrow> logout_proof b t | _ \<Rightarrow> None) of
             None \<Rightarrow> bind_act (revoke_quietly b raw) (\<lambda>_. raise_act TuiUnavailable)
           | Some p \<Rightarrow>
               (case make_tui_credential x raw p of
                  None \<Rightarrow> bind_act (revoke_quietly b raw) (\<lambda>_. raise_act TuiUnavailable)
                | Some c \<Rightarrow> return_act c)))"

definition consume_terminal :: "'s tui_boundary \<Rightarrow> pyval \<Rightarrow> pyval \<Rightarrow> ('s, tui_credential) tui_action" where
  "consume_terminal b pairing_id code =
     bind_act (require_shared b) (\<lambda>_.
     case boundary_identifier pairing_id of
       None \<Rightarrow> refuse b TuiBadRequest
     | Some i \<Rightarrow>
         try_act (tui_consume (tb_pairings b) i code)
           (\<lambda>e. refuse b (exchange_error e))
           (\<lambda>(x, raw). bind_act (require_shared b) (\<lambda>_. deliver_credential b x raw i)))"

text \<open>An object of another class than \<^verbatim>\<open>IssuedTuiCredential\<close> is \<open>None\<close>.\<close>

definition discard_credential :: "'s tui_boundary \<Rightarrow> tui_credential option \<Rightarrow> ('s, bool) tui_action" where
  "discard_credential b credential =
     (case credential of
        None \<Rightarrow> return_act False
      | Some c \<Rightarrow>
          if \<not> well_configured (tb_sessions b) (tb_http b) (tb_shared b) then return_act False
          else (case bearer_digest b (PyStr (crd_bearer c)) of
              Inl _ \<Rightarrow> return_act False
            | Inr digest \<Rightarrow>
                try_act (sp_read_by_digest (ss_storage (tb_sessions b)) digest) (\<lambda>_. return_act False)
                  (\<lambda>found. case found of
                     None \<Rightarrow> return_act False
                   | Some y \<Rightarrow>
                       if ses_audience y \<noteq> AudienceTui \<or> ses_source_pairing y = None \<or>
                          ses_session_id y \<noteq> crd_session_id c \<or> ses_user_id y \<noteq> crd_user_id c \<or>
                          ses_expires_at y \<noteq> crd_expires_at c \<or> compare_digest (ses_token_digest y) digest \<noteq> Some True
                       then return_act False
                       else try_act (revoke_session (tb_sessions b) (PyStr (crd_bearer c)))
                         (\<lambda>_. return_act False) return_act)))"

section \<open>Using a bearer\<close>

definition revoke_terminal :: "'s tui_boundary \<Rightarrow> pyval \<Rightarrow> pyval \<Rightarrow> ('s, unit) tui_action" where
  "revoke_terminal b header supplied =
     bind_act (require_shared b) (\<lambda>_.
     case bearer_header header of
       None \<Rightarrow> raise_act authentication_required
     | Some bearer \<Rightarrow>
         (case valid_logout_proof b bearer supplied of
            None \<Rightarrow> raise_act TuiUnavailable
          | Some ok \<Rightarrow>
              if \<not> ok then raise_act authentication_required
              else bind_act
                (try_act (revoke_session (tb_sessions b) (PyStr bearer))
                  (\<lambda>e. if credential_error e then return_act False else raise_act TuiUnavailable) return_act) (\<lambda>revoked.
              bind_act (require_shared b) (\<lambda>_.
              if \<not> revoked then raise_act authentication_required else return_act ()))))"

text \<open>\<open>None\<close> is a clock that is no usable datetime.\<close>

definition session_clock :: "'s tui_boundary \<Rightarrow> ('s, instant option) tui_action" where
  "session_clock b s =
     (case ss_clock (tb_sessions b) s of (v, t) \<Rightarrow> (Inr (case utc v of Inl e \<Rightarrow> None | Inr i \<Rightarrow> Some i), t))"

definition snapshot_matches ::
  "user_session \<Rightarrow> user_account \<Rightarrow> string \<Rightarrow> instant \<Rightarrow> user_session option \<times> user_account option \<times> tui_pairing option \<Rightarrow> bool"
where
  "snapshot_matches x u digest now snapshot \<longleftrightarrow>
     compare_digest (ses_token_digest x) digest = Some True \<and>
     (case snapshot of
        (Some y, found, Some q) \<Rightarrow>
          ses_session_id y = ses_session_id x \<and> ses_user_id y = ses_user_id x \<and>
          ses_token_digest y = ses_token_digest x \<and> ses_created_at y = ses_created_at x \<and>
          ses_expires_at y = ses_expires_at x \<and> ses_audience y = ses_audience x \<and>
          ses_source_pairing y = ses_source_pairing x \<and> ses_last_seen_at x \<le> ses_last_seen_at y \<and>
          found = Some u \<and> ses_revoked_at y = None \<and> ses_created_at y \<le> now \<and> now < ses_expires_at y \<and>
          ses_last_seen_at y \<le> now \<and> par_status q = PairConsumed \<and> par_user_id q = Some (acc_user_id u) \<and>
          par_consumed_at q = Some (ses_created_at x)
      | _ \<Rightarrow> False)"

definition valid_terminal :: "'s tui_boundary \<Rightarrow> user_session \<Rightarrow> user_account \<Rightarrow> string \<Rightarrow> ('s, bool) tui_action" where
  "valid_terminal b x u bearer =
     (if ses_user_id x \<noteq> acc_user_id u \<or> ses_audience x \<noteq> AudienceTui \<or> ses_source_pairing x = None \<or> \<not> acc_active u
      then return_act False
      else (case bearer_digest b (PyStr bearer) of
              Inl _ \<Rightarrow> return_act False
            | Inr digest \<Rightarrow>
                try_act (tb_snapshot b digest (ses_source_pairing x)) (\<lambda>_. return_act False)
                  (\<lambda>snapshot. bind_act (session_clock b) (\<lambda>now.
                     case now of
                       None \<Rightarrow> return_act False
                     | Some n \<Rightarrow> return_act (well_configured (tb_sessions b) (tb_http b) (tb_shared b) \<and>
                         snapshot_matches x u digest n snapshot)))))"

datatype credential_status = StatusInvalid | StatusDenied | StatusUnavailable

definition status_now ::
  "user_session \<Rightarrow> instant \<Rightarrow> user_session option \<times> user_account option \<times> tui_pairing option \<Rightarrow> credential_status"
where
  "status_now x now snapshot =
     (case snapshot of
        (None, _, _) \<Rightarrow> if ses_expires_at x \<le> now then StatusInvalid else StatusUnavailable
      | (Some y, found, _) \<Rightarrow>
          if ses_revoked_at y \<noteq> None \<or> \<not> (ses_created_at y \<le> now \<and> now < ses_expires_at y) \<or>
             (case found of None \<Rightarrow> True | Some u \<Rightarrow> \<not> acc_active u)
          then StatusInvalid
          else if map_option acc_role found \<noteq> Some RoleStudent then StatusDenied else StatusUnavailable)"

definition current_status :: "'s tui_boundary \<Rightarrow> user_session \<Rightarrow> string \<Rightarrow> ('s, credential_status) tui_action" where
  "current_status b x bearer =
     (if ses_audience x \<noteq> AudienceTui then return_act StatusUnavailable
      else (case bearer_digest b (PyStr bearer) of
              Inl _ \<Rightarrow> return_act StatusUnavailable
            | Inr digest \<Rightarrow>
                try_act (tb_snapshot b digest (ses_source_pairing x)) (\<lambda>_. return_act StatusUnavailable)
                  (\<lambda>snapshot. bind_act (session_clock b) (\<lambda>now.
                     case now of
                       None \<Rightarrow> return_act StatusUnavailable
                     | Some n \<Rightarrow> return_act (if well_configured (tb_sessions b) (tb_http b) (tb_shared b)
                         then status_now x n snapshot else StatusUnavailable)))))"

definition authenticate_terminal :: "'s tui_boundary \<Rightarrow> pyval \<Rightarrow> ('s, user_session \<times> user_account) tui_action" where
  "authenticate_terminal b header =
     bind_act (require_shared b) (\<lambda>_.
     case bearer_header header of
       None \<Rightarrow> raise_act authentication_required
     | Some bearer \<Rightarrow>
         try_act (authenticate_session (tb_sessions b) (PyStr bearer))
           (\<lambda>e. refuse b (if credential_error e then authentication_required else TuiUnavailable))
           (\<lambda>(x, u). bind_act (require_shared b) (\<lambda>_.
              bind_act (valid_terminal b x u bearer) (\<lambda>ok.
              bind_act (if ok then return_act None else bind_act (current_status b x bearer) (\<lambda>c. return_act (Some c))) (\<lambda>status.
              case status of
                Some StatusInvalid \<Rightarrow> raise_act authentication_required
              | Some StatusUnavailable \<Rightarrow> raise_act TuiUnavailable
              | Some StatusDenied \<Rightarrow> raise_act authorization_denied
              | None \<Rightarrow> if acc_role u \<noteq> RoleStudent then raise_act authorization_denied else return_act (x, u))))))"

end
