(* ===== verification/Tui_Contract.thy ===== *)
theory Tui_Contract
  imports Tui_Boundary
begin

text \<open>
  What the terminal boundary asks of its storage, as the locale \<open>tui_registry\<close> over the contracts
  of the session and the pairing service, and what it guarantees.
\<close>

section \<open>Values\<close>

lemma bearer_char_plain: "bearer_char c \<Longrightarrow> \<not> is_space c \<and> \<not> is_control c \<and> c \<noteq> CHR '' ''"
  by (auto simp: bearer_char_def is_space_def is_control_def Let_def code_point_def)

lemma credential_header:
  assumes "valid_session_bearer (PyStr t)"
  shows "bearer_header (PyStr (''Bearer '' @ t)) = Some t"
proof -
  let ?h = "''Bearer '' @ t"
  have len: "32 \<le> length t" "length t \<le> 1024" and plain: "\<forall>c \<in> set t. \<not> is_space c \<and> \<not> is_control c"
    using assms bearer_char_plain by (auto simp: valid_session_bearer_def list_all_iff)
  have word: "\<not> is_space (CHR ''B'')" "list_all (\<lambda>c. \<not> is_control c) ''Bearer ''" "lower ''Bearer'' = ''bearer''"
    by code_simp+
  have last: "\<not> is_space (hd (List.rev t))" "List.rev t \<noteq> []" using plain len by (cases t rule: rev_cases; simp)+
  then have "dropWhile is_space (List.rev t @ u) = List.rev t @ u" for u by (cases "List.rev t") simp_all
  then have "strip ?h = ?h" using word(1) by (simp add: strip_def)
  moreover have "\<not> list_ex is_control ?h" using word(2) plain by (simp add: list_ex_iff list_all_iff)
  moreover have "partition_at (CHR '' '') ?h = (''Bearer'', True, t)" by (simp add: partition_at_def)
  ultimately show ?thesis using word(3) len assms by (simp add: bearer_header_def)
qed

lemma bearer_header_Some: "bearer_header v = Some t \<Longrightarrow> valid_session_bearer (PyStr t)"
  by (auto simp: bearer_header_def split: pyval.splits if_splits prod.splits)

lemma proof_decides:
  "valid_logout_proof b t v = Some True \<longleftrightarrow> (\<exists>p. v = PyStr p \<and> proof_shape p \<and> logout_proof b t = Some p)"
proof -
  have "logout_proof b t = Some p \<Longrightarrow> ascii_text p" for p
    using base64url_ascii by (auto simp: logout_proof_def split: pyval.splits)
  then show ?thesis
    by (auto simp: valid_logout_proof_def compare_digest_def split: pyval.splits option.splits if_splits)
qed

lemma logout_proof_shape:
  assumes "hashing_ok (ps_hash (tui_pairings (tb_pairings b)))" "logout_proof b t = Some p"
  shows "length p = 43"
  using assms
  by (auto simp: logout_proof_def length_base64url length_hex_bytes hashing_ok_def hex64_def split: pyval.splits)

lemma make_tui_credential_Some:
  assumes "make_tui_credential x raw p = Some c"
  shows "crd_session_id c = ses_session_id x" "crd_user_id c = ses_user_id x" "crd_expires_at c = ses_expires_at x"
    "raw = PyStr (crd_bearer c)" "crd_proof c = p" "proof_shape p" "valid_session_bearer raw"
proof -
  have id: "boundary_identifier (PyStr s) = Some i \<Longrightarrow> i = s" for s i
    by (auto simp: boundary_identifier_def split: if_splits)
  have at: "utc (utc_datetime t) = Inr j \<Longrightarrow> j = t" for t j by (auto simp: utc_def utc_datetime_def split: if_splits)
  show "crd_session_id c = ses_session_id x" "crd_user_id c = ses_user_id x" "crd_expires_at c = ses_expires_at x"
    "raw = PyStr (crd_bearer c)" "crd_proof c = p" "proof_shape p" "valid_session_bearer raw"
    using assms by (auto simp: make_tui_credential_def split: option.splits sum.splits pyval.splits if_splits dest!: id at)
qed

lemma snapshot_matchesD:
  assumes "snapshot_matches x u digest n sn"
  shows "\<exists>y q. sn = (Some y, Some u, Some q) \<and> compare_digest (ses_token_digest x) digest = Some True \<and> same_generation x y \<and>
    ses_revoked_at y = None \<and> ses_created_at y \<le> n \<and> n < ses_expires_at y \<and> ses_last_seen_at y \<le> n \<and>
    par_status q = PairConsumed \<and> par_user_id q = Some (acc_user_id u) \<and> par_consumed_at q = Some (ses_created_at x)"
proof -
  obtain a f c where sn: "sn = (a, f, c)" by (rule prod_cases3)
  show ?thesis using assms unfolding sn snapshot_matches_def same_generation_def
    by (cases a; cases c) simp_all
qed

section \<open>Failures\<close>

text \<open>An action that can only fail with errors whose status code is in a set.\<close>

definition fails_with :: "nat option set \<Rightarrow> ('s \<Rightarrow> (tui_error + 'a) \<times> 's) \<Rightarrow> bool" where
  "fails_with A m \<longleftrightarrow> (\<forall>s e. fst (m s) = Inl e \<longrightarrow> tui_status e \<in> A)"

lemma fails_return: "fails_with A (return_act x)"
  by (simp add: fails_with_def return_act_def)

lemma fails_raise: "tui_status e \<in> A \<Longrightarrow> fails_with A (raise_act e)"
  by (simp add: fails_with_def raise_act_def)

lemma fails_bind: "fails_with A m \<Longrightarrow> (\<And>x. fails_with A (f x)) \<Longrightarrow> fails_with A (bind_act m f)"
  unfolding fails_with_def bind_act_def by (simp split: prod.splits sum.splits) (metis fst_conv)

lemma fails_try: "(\<And>e. fails_with A (h e)) \<Longrightarrow> (\<And>x. fails_with A (f x)) \<Longrightarrow> fails_with A (try_act m h f)"
  unfolding fails_with_def try_act_def by (simp split: prod.splits sum.splits)

lemma fails_clock: "fails_with A (session_clock b)"
  by (simp add: fails_with_def session_clock_def split: prod.splits)

lemma fails_cases:
  "(c \<Longrightarrow> fails_with A m) \<Longrightarrow> (\<not> c \<Longrightarrow> fails_with A n) \<Longrightarrow> fails_with A (if c then m else n)"
  "fails_with A g \<Longrightarrow> (\<And>x. fails_with A (k x)) \<Longrightarrow> fails_with A (case z of None \<Rightarrow> g | Some x \<Rightarrow> k x)"
  "(\<And>x y. fails_with A (h x y)) \<Longrightarrow> fails_with A (case p of (x, y) \<Rightarrow> h x y)"
  "(\<And>e. fails_with A (l e)) \<Longrightarrow> (\<And>x. fails_with A (k x)) \<Longrightarrow> fails_with A (case w of Inl e \<Rightarrow> l e | Inr x \<Rightarrow> k x)"
  "fails_with A i \<Longrightarrow> fails_with A u \<Longrightarrow> fails_with A d \<Longrightarrow>
    fails_with A (case st of StatusInvalid \<Rightarrow> i | StatusUnavailable \<Rightarrow> u | StatusDenied \<Rightarrow> d)"
  by (auto split: option.splits prod.splits sum.splits credential_status.splits)

lemmas fails_rules = fails_return fails_bind fails_try fails_clock fails_cases

lemma fails_shared:
  "Some 503 \<in> A \<Longrightarrow> fails_with A (require_shared b)"
  "Some 503 \<in> A \<Longrightarrow> tui_status e \<in> A \<Longrightarrow> fails_with A (refuse b e)"
proof -
  show shared: "fails_with A (require_shared b)" if "Some 503 \<in> A"
    using that unfolding require_shared_def by (intro fails_rules fails_raise) simp
  show "fails_with A (refuse b e)" if "Some 503 \<in> A" "tui_status e \<in> A"
    unfolding refuse_def by (intro fails_rules fails_raise shared that)
qed

lemma fails_quietly: "fails_with A (revoke_quietly b raw)"
  unfolding revoke_quietly_def by (intro fails_rules)

lemma fails_inside:
  "fails_with A (tui_issued_is_valid b x raw i)" "fails_with A (revoke_issued_quietly b x raw i)"
  "fails_with A (valid_terminal b x u t)" "fails_with A (current_status b x t)"
  unfolding tui_issued_is_valid_def revoke_issued_quietly_def valid_terminal_def current_status_def
  by (intro fails_rules fails_quietly)+

text \<open>Whatever fails behind the terminal boundary, the terminal sees one of the documented answers:
  starting a pairing can only be unavailable (503); an exchange is invalid (400), in conflict
  (409), expired (410) or unavailable; giving a bearer back is unauthenticated (401) or
  unavailable; and using it is unauthenticated, forbidden (403) or unavailable.\<close>

theorem terminal_failures_are_documented:
  "fails_with {Some 503} (begin_pairing b) \<and>
   fails_with {Some 400, Some 409, Some 410, Some 503} (consume_terminal b v code) \<and>
   fails_with {Some 401, Some 503} (revoke_terminal b header supplied) \<and>
   fails_with {Some 401, Some 403, Some 503} (authenticate_terminal b header)"
proof (intro conjI)
  show "fails_with {Some 503} (begin_pairing b)"
    unfolding begin_pairing_def by (intro fails_rules fails_shared fails_raise) simp_all
  have exchange: "tui_status (exchange_error e) \<in> {Some 400, Some 409, Some 410, Some 503}" for e
    by (simp add: exchange_error_def)
  show "fails_with {Some 400, Some 409, Some 410, Some 503} (consume_terminal b v code)"
    unfolding consume_terminal_def deliver_credential_def
    by (intro fails_rules fails_shared fails_inside fails_quietly fails_raise exchange) simp_all
  show "fails_with {Some 401, Some 503} (revoke_terminal b header supplied)"
    unfolding revoke_terminal_def by (intro fails_rules fails_shared fails_raise) simp_all
  show "fails_with {Some 401, Some 403, Some 503} (authenticate_terminal b header)"
    unfolding authenticate_terminal_def by (intro fails_rules fails_shared fails_inside fails_raise) simp_all
qed

section \<open>The contract\<close>

locale tui_registry =
  sessions: session_registry intact evolves user_at session_storage session_at +
  pairings: pairing_registry intact evolves user_at pairing_store pairing_at session_at
  for intact :: "'s \<Rightarrow> bool" and evolves :: "'s \<Rightarrow> 's \<Rightarrow> bool" and user_at :: "'s \<Rightarrow> user_account \<Rightarrow> bool"
    and session_storage :: "'s session_port" and session_at :: "'s \<Rightarrow> user_session \<Rightarrow> bool"
    and pairing_store :: "'s pairing_port" and pairing_at :: "'s \<Rightarrow> tui_pairing \<Rightarrow> bool" +
  fixes snapshot :: "'s tui_snapshot"
  assumes snapshot_keep: "keeps (guarded intact evolves) (snapshot d i)"
    and snapshot_law: "intact s \<Longrightarrow> snapshot d i s = (Inr (Some y, Some u, Some q), t) \<Longrightarrow>
      session_at t y \<and> user_at t u \<and> pairing_at t q \<and> acc_user_id u = ses_user_id y \<and> Some (par_pairing_id q) = i"
begin

definition silent :: "'s source \<Rightarrow> bool" where
  "silent f \<longleftrightarrow> (\<forall>s. session_at (snd (f s)) = session_at s \<and> user_at (snd (f s)) = user_at s \<and> pairing_at (snd (f s)) = pairing_at s)"

definition boundary_wired :: "'s tui_boundary \<Rightarrow> bool" where
  "boundary_wired b \<longleftrightarrow>
     wired intact evolves session_storage (tb_sessions b) \<and> tui_wired intact evolves pairing_store (tb_pairings b) \<and>
     tb_snapshot b = snapshot \<and> silent (ss_clock (tb_sessions b))"

text \<open>A terminal session that stands on an active student and on the pairing this student authorized.\<close>

definition founded :: "'s \<Rightarrow> user_session \<Rightarrow> user_account \<Rightarrow> bool" where
  "founded s y u \<longleftrightarrow> session_at s y \<and> ses_audience y = AudienceTui \<and> ses_revoked_at y = None \<and>
     user_at s u \<and> acc_active u \<and> acc_role u = RoleStudent \<and> acc_user_id u = ses_user_id y \<and>
     (\<exists>q. pairing_at s q \<and> ses_source_pairing y = Some (par_pairing_id q) \<and> par_status q = PairConsumed \<and>
        par_user_id q = Some (acc_user_id u) \<and> par_consumed_at q = Some (ses_created_at y))"

lemma session_clock_Inr:
  "session_clock b s = (Inr n, t) \<Longrightarrow> n = Some now \<Longrightarrow> utc (fst (ss_clock (tb_sessions b) s)) = Inr now \<and> t = snd (ss_clock (tb_sessions b) s)"
  by (auto simp: session_clock_def split: prod.splits sum.splits)

lemma valid_terminal_sound:
  assumes b: "boundary_wired b" and s: "intact s" and run: "valid_terminal b x u bearer s = (Inr True, t)"
    and st: "acc_role u = RoleStudent"
  shows "\<exists>y s1 now. same_generation x y \<and> founded t y u \<and> session_token_digest (ss_hash (tb_sessions b)) (PyStr bearer) = Inr (ses_token_digest y) \<and>
    utc (fst (ss_clock (tb_sessions b) s1)) = Inr now \<and> ses_created_at y \<le> now \<and> ses_last_seen_at y \<le> now \<and> now < ses_expires_at y"
proof -
  obtain digest where x: "ses_user_id x = acc_user_id u" "ses_audience x = AudienceTui" "acc_active u"
    and dg: "session_token_digest (ss_hash (tb_sessions b)) (PyStr bearer) = Inr digest"
    and go: "try_act (tb_snapshot b digest (ses_source_pairing x)) (\<lambda>_. return_act False)
                  (\<lambda>sn. bind_act (session_clock b) (\<lambda>now.
                     case now of
                       None \<Rightarrow> return_act False
                     | Some n \<Rightarrow> return_act (well_configured (tb_sessions b) (tb_http b) (tb_shared b) \<and>
                         snapshot_matches x u digest n sn))) s = (Inr True, t)"
    using run by (auto simp: valid_terminal_def if_act split: sum.splits)
  obtain sn s1 where sn: "snapshot digest (ses_source_pairing x) s = (Inr sn, s1)"
    and rest: "bind_act (session_clock b) (\<lambda>now.
                     case now of
                       None \<Rightarrow> return_act False
                     | Some n \<Rightarrow> return_act (well_configured (tb_sessions b) (tb_http b) (tb_shared b) \<and>
                         snapshot_matches x u digest n sn)) s1 = (Inr True, t)"
    using go b by (auto simp: boundary_wired_def try_act_def split: prod.splits sum.splits)
  obtain n where n: "session_clock b s1 = (Inr (Some n), t)" and m: "snapshot_matches x u digest n sn"
    using rest by (auto simp: bind_act_Inr split: option.splits)
  note cl = session_clock_Inr [OF n refl]
  obtain y q where y: "sn = (Some y, Some u, Some q)" "compare_digest (ses_token_digest x) digest = Some True" "same_generation x y"
      "ses_revoked_at y = None" "ses_created_at y \<le> n" "n < ses_expires_at y" "ses_last_seen_at y \<le> n"
      "par_status q = PairConsumed" "par_user_id q = Some (acc_user_id u)" "par_consumed_at q = Some (ses_created_at x)"
    using snapshot_matchesD [OF m] by blast
  have law: "session_at s1 y \<and> user_at s1 u \<and> pairing_at s1 q \<and> acc_user_id u = ses_user_id y \<and> Some (par_pairing_id q) = ses_source_pairing x"
    by (rule snapshot_law [OF s]) (use sn y(1) in simp)
  have "founded t y u"
    using law y x b st cl by (auto simp: founded_def same_generation_def boundary_wired_def silent_def)
  moreover have "digest = ses_token_digest y"
    using y(2,3) by (auto simp: compare_digest_def same_generation_def split: if_splits)
  ultimately show ?thesis using dg y cl by blast
qed

lemma require_shared_Inr: "require_shared b s = (Inr v, t) \<longleftrightarrow> well_configured (tb_sessions b) (tb_http b) (tb_shared b) \<and> t = s"
  by (auto simp: require_shared_def action_simps)

lemma refuse_Inr: "refuse b e s = (Inr v, t) \<longleftrightarrow> False"
  by (simp add: refuse_def bind_act_Inr)

lemma browser_refused_Inr: "browser_refused b i s = (Inr v, t) \<longleftrightarrow> False"
  by (simp add: browser_refused_def try_act_iff refuse_Inr)

lemma authorize_browser_Inr:
  assumes "authorize_browser b request code s = (Inr (), t)"
  shows "\<exists>r ctx s1 q. request = Some r \<and> req_method r = PyStr ''POST'' \<and>
    authorize_application (tb_http b) request (Roles [''student'']) s = (Inr ctx, s1) \<and>
    tui_authorize (tb_pairings b) code (acc_user_id (ctx_user ctx)) s1 = (Inr q, t)"
proof -
  obtain r where r: "request = Some r" "req_method r = PyStr ''POST''"
    using assms by (auto simp: authorize_browser_def bind_act_Inr if_act split: option.splits if_splits)
  then show ?thesis
    using assms
    by (auto simp: authorize_browser_def bind_act_Inr require_shared_Inr refuse_Inr browser_refused_Inr try_act_iff if_act
        split: if_splits)
qed

lemma terminal_sound:
  assumes b: "boundary_wired b" and s: "intact s" and run: "authenticate_terminal b header s = (Inr (x, u), t)"
  shows "\<exists>bearer y s1 now. bearer_header header = Some bearer \<and> same_generation x y \<and> founded t y u \<and>
    session_token_digest (ss_hash (tb_sessions b)) (PyStr bearer) = Inr (ses_token_digest y) \<and>
    utc (fst (ss_clock (tb_sessions b) s1)) = Inr now \<and> ses_created_at y \<le> now \<and> ses_last_seen_at y \<le> now \<and> now < ses_expires_at y"
proof -
  obtain bearer where be: "bearer_header header = Some bearer"
    using run by (auto simp: authenticate_terminal_def bind_act_Inr split: option.splits)
  have w: "wired intact evolves session_storage (tb_sessions b)" using b by (simp add: boundary_wired_def)
  obtain x' u' s1 where au: "authenticate_session (tb_sessions b) (PyStr bearer) s = (Inr (x', u'), s1)"
    and rest: "bind_act (valid_terminal b x' u' bearer) (\<lambda>ok.
              bind_act (if ok then return_act None else bind_act (current_status b x' bearer) (\<lambda>c. return_act (Some c))) (\<lambda>status.
              case status of
                Some StatusInvalid \<Rightarrow> raise_act authentication_required
              | Some StatusUnavailable \<Rightarrow> raise_act TuiUnavailable
              | Some StatusDenied \<Rightarrow> raise_act authorization_denied
              | None \<Rightarrow> if acc_role u' \<noteq> RoleStudent then raise_act authorization_denied else return_act (x', u'))) s1 = (Inr (x, u), t)"
    using run be
    by (auto simp: authenticate_terminal_def bind_act_Inr require_shared_Inr refuse_Inr try_act_def split: prod.splits sum.splits)
  obtain ok s2 status s3 where ok: "valid_terminal b x' u' bearer s1 = (Inr ok, s2)"
    and st: "(if ok then return_act None else bind_act (current_status b x' bearer) (\<lambda>c. return_act (Some c))) s2 = (Inr status, s3)"
    and fin: "(case status of
                Some StatusInvalid \<Rightarrow> raise_act authentication_required
              | Some StatusUnavailable \<Rightarrow> raise_act TuiUnavailable
              | Some StatusDenied \<Rightarrow> raise_act authorization_denied
              | None \<Rightarrow> if acc_role u' \<noteq> RoleStudent then raise_act authorization_denied else return_act (x', u')) s3 = (Inr (x, u), t)"
    using rest unfolding bind_act_Inr by blast
  have none: "status = None" using fin by (auto split: option.splits credential_status.splits)
  with fin have eq: "x' = x" "u' = u" "t = s3" "acc_role u = RoleStudent" by (auto simp: if_act)
  from st none have "ok" "s3 = s2" by (auto simp: if_act bind_act_Inr split: if_splits)
  then have "valid_terminal b x u bearer s1 = (Inr True, t)" using ok eq by simp
  moreover have "intact s1" using sessions.guardedD [OF sessions.authenticate_keeps [OF w] au s] by blast
  ultimately show ?thesis using valid_terminal_sound [OF b _ _ eq(4)] be by blast
qed

lemma revoke_terminal_sound:
  assumes b: "boundary_wired b" and s: "intact s" and run: "revoke_terminal b header supplied s = (Inr (), t)"
  shows "\<exists>bearer p. bearer_header header = Some bearer \<and> supplied = PyStr p \<and> logout_proof b bearer = Some p \<and>
    (\<forall>y. session_at t y \<and> session_token_digest (ss_hash (tb_sessions b)) (PyStr bearer) = Inr (ses_token_digest y) \<longrightarrow> ses_revoked_at y \<noteq> None)"
proof -
  obtain bearer where be: "bearer_header header = Some bearer"
    using run by (auto simp: revoke_terminal_def bind_act_Inr split: option.splits)
  have w: "wired intact evolves session_storage (tb_sessions b)" using b by (simp add: boundary_wired_def)
  have p: "valid_logout_proof b bearer supplied = Some True"
    using run be by (auto simp: revoke_terminal_def bind_act_Inr require_shared_Inr if_act split: option.splits if_splits)
  have "try_act (revoke_session (tb_sessions b) (PyStr bearer))
      (\<lambda>e. if credential_error e then return_act False else raise_act TuiUnavailable) return_act s = (Inr True, t)"
    using run be p by (auto simp: revoke_terminal_def bind_act_Inr require_shared_Inr if_act split: if_splits)
  then have rv: "revoke_session (tb_sessions b) (PyStr bearer) s = (Inr True, t)"
    by (auto simp: try_act_def if_act split: prod.splits sum.splits if_splits)
  have "ses_revoked_at y \<noteq> None"
    if "session_at t y" "session_token_digest (ss_hash (tb_sessions b)) (PyStr bearer) = Inr (ses_token_digest y)" for y
    using sessions.revoke_sound [OF w s rv that(2,1)] by blast
  with be p [unfolded proof_decides] show ?thesis by blast
qed

text \<open>
  A credential that is delivered: right before the last read, of the pairing, its session was
  founded, and what the credential holds is the session's.
\<close>

lemma consume_sound:
  assumes b: "boundary_wired b" and s: "intact s" and run: "consume_terminal b v code s = (Inr c, t)"
  shows "\<exists>i s1 y u q. boundary_identifier v = Some i \<and> intact s1 \<and> pp_read_pairing pairing_store i s1 = (Inr (Some q), t) \<and>
    session_at s1 y \<and> ses_audience y = AudienceTui \<and> ses_source_pairing y = Some i \<and> ses_revoked_at y = None \<and>
    user_at s1 u \<and> acc_active u \<and> acc_role u = RoleStudent \<and> acc_user_id u = ses_user_id y \<and>
    par_status q = PairConsumed \<and> par_user_id q = Some (ses_user_id y) \<and> par_consumed_at q = Some (ses_created_at y) \<and>
    session_token_digest (ss_hash (tb_sessions b)) (PyStr (crd_bearer c)) = Inr (ses_token_digest y) \<and>
    valid_session_bearer (PyStr (crd_bearer c)) \<and> logout_proof b (crd_bearer c) = Some (crd_proof c) \<and>
    proof_shape (crd_proof c) \<and> crd_session_id c = ses_session_id y \<and> crd_user_id c = ses_user_id y \<and>
    crd_expires_at c = ses_expires_at y \<and> well_configured (tb_sessions b) (tb_http b) (tb_shared b)"
proof -
  have w: "wired intact evolves session_storage (tb_sessions b)" "tui_wired intact evolves pairing_store (tb_pairings b)"
    using b by (simp_all add: boundary_wired_def)
  obtain i where i: "boundary_identifier v = Some i" and cfg: "well_configured (tb_sessions b) (tb_http b) (tb_shared b)"
    using run by (auto simp: consume_terminal_def bind_act_Inr require_shared_Inr refuse_Inr split: option.splits)
  obtain x raw s1 where ex: "tui_consume (tb_pairings b) i code s = (Inr (x, raw), s1)"
    and dl: "deliver_credential b x raw i s1 = (Inr c, t)"
    using run i
    by (auto simp: consume_terminal_def bind_act_Inr require_shared_Inr refuse_Inr try_act_def split: prod.splits sum.splits)
  have i1: "intact s1" using sessions.guardedD [OF pairings.tui_consume_keeps [OF w(2)] ex s] by blast
  obtain ok s2 where iv: "tui_issued_is_valid b x raw i s1 = (Inr ok, s2)"
    and fin: "(if \<not> ok then bind_act (revoke_issued_quietly b x raw i) (\<lambda>_. raise_act TuiUnavailable)
     else (case (case raw of PyStr t \<Rightarrow> logout_proof b t | _ \<Rightarrow> None) of
             None \<Rightarrow> bind_act (revoke_quietly b raw) (\<lambda>_. raise_act TuiUnavailable)
           | Some p \<Rightarrow>
               (case make_tui_credential x raw p of
                  None \<Rightarrow> bind_act (revoke_quietly b raw) (\<lambda>_. raise_act TuiUnavailable)
                | Some c \<Rightarrow> return_act c))) s2 = (Inr c, t)"
    using dl by (auto simp: deliver_credential_def bind_act_Inr)
  have ok: "ok" using fin by (auto simp: if_act bind_act_Inr split: if_splits)
  with fin obtain p where p: "(case raw of PyStr t \<Rightarrow> logout_proof b t | _ \<Rightarrow> None) = Some p"
    by (auto simp: bind_act_Inr split: option.splits)
  with fin ok have mk: "make_tui_credential x raw p = Some c" "t = s2" by (auto simp: bind_act_Inr split: option.splits)
  note m = make_tui_credential_Some [OF mk(1)]
  have proof_of: "logout_proof b (crd_bearer c) = Some (crd_proof c)" using p m(4,5) by simp
  obtain digest where dg: "issued_digest b x raw i = Some digest"
    using iv ok by (auto simp: tui_issued_is_valid_def split: option.splits)
  obtain y u s3 found where au: "authenticate_session (tb_sessions b) raw s1 = (Inr (y, u), s3)"
    and rd: "pp_read_pairing pairing_store i s3 = (Inr found, s2)"
    and all: "acc_active u \<and> acc_role u = RoleStudent \<and> acc_user_id u = ses_user_id x \<and>
                  ses_session_id y = ses_session_id x \<and> ses_user_id y = ses_user_id x \<and>
                  ses_token_digest y = ses_token_digest x \<and> ses_created_at y = ses_created_at x \<and>
                  ses_expires_at y = ses_expires_at x \<and> ses_audience y = AudienceTui \<and>
                  ses_source_pairing y = Some i \<and> ses_revoked_at y = None \<and>
                  (case found of
                     None \<Rightarrow> False
                   | Some q \<Rightarrow> par_status q = PairConsumed \<and> par_user_id q = Some (ses_user_id x) \<and>
                       par_consumed_at q = Some (ses_created_at x))"
    using iv ok dg pairings.tui_parts(4) [OF w(2)]
    by (auto simp: tui_issued_is_valid_def try_act_def split: prod.splits sum.splits)
  obtain q where q: "found = Some q" using all by (cases found) auto
  note sound = sessions.authenticate_sound [OF w(1) i1 au]
  have bearer: "raw = PyStr (crd_bearer c)" by (rule m(4))
  show ?thesis
    using i rd q all sound cfg m proof_of mk(2) unfolding bearer
    by (intro exI [of _ i] exI [of _ s3] exI [of _ y] exI [of _ u] exI [of _ q]) simp
qed

end

end
