(* ===== verification/Sqlite_Tui.thy ===== *)
theory Sqlite_Tui
  imports Tui_Contract Auth_Tui Sqlite_Http
begin

text \<open>
  The terminal boundary on the SQLite storage: who stands behind an admitted terminal, and that a
  credential works until its owner gives it back.
\<close>

section \<open>The boundary\<close>

text \<open>A comparison with \<^verbatim>\<open>NULL\<close> finds no pairing.\<close>

definition sqlite_tui_snapshot :: "environment \<Rightarrow> world tui_snapshot" where
  "sqlite_tui_snapshot e digest pairing_id =
     call e (\<lambda>now d. case pairing_id of
       Some i \<Rightarrow> read_tui_authentication_snapshot digest i d
     | None \<Rightarrow> (bind_result (fst (read_tui_authentication_snapshot digest [] d)) (\<lambda>(s, u, p). Inr (s, u, None)), d))"

text \<open>
  The configuration of a deployment: one storage, one clock and one hash library for the pairing
  service, the terminal sessions and the browser sessions.
\<close>

definition sqlite_tui_boundary ::
  "environment \<Rightarrow> world pairing_service \<Rightarrow> int \<Rightarrow> world http_boundary \<Rightarrow> int \<Rightarrow> hashing \<Rightarrow> string \<Rightarrow> world tui_boundary"
where
  "sqlite_tui_boundary e pairings sttl http ttl h path =
     \<lparr>tb_pairings = sqlite_tui_service e pairings sttl, tb_http = http,
      tb_sessions = sqlite_session_service e ttl AudienceTui h, tb_snapshot = sqlite_tui_snapshot e,
      tb_shared = True, tb_path = path\<rparr>"

lemma sqlite_tui_boundary_simps [simp]:
  "tb_pairings (sqlite_tui_boundary e pairings sttl http ttl h path) = sqlite_tui_service e pairings sttl"
  "tb_http (sqlite_tui_boundary e pairings sttl http ttl h path) = http"
  "tb_sessions (sqlite_tui_boundary e pairings sttl http ttl h path) = sqlite_session_service e ttl AudienceTui h"
  "tb_snapshot (sqlite_tui_boundary e pairings sttl http ttl h path) = sqlite_tui_snapshot e"
  "tb_shared (sqlite_tui_boundary e pairings sttl http ttl h path)"
  by (simp_all add: sqlite_tui_boundary_def)

section \<open>The contract holds\<close>

lemma tui_snapshot_rows:
  assumes "db_ok d" "read_tui_authentication_snapshot g i d = (Inr (Some y, Some u, Some q), d')"
  shows "d' = d \<and> y \<in> set (db_sessions d) \<and> u \<in> set (db_users d) \<and> q \<in> set (db_pairings d) \<and>
    acc_user_id u = ses_user_id y \<and> par_pairing_id q = i"
proof -
  have s: "hydrate_optional hydrate_session (lookup_by ses_token_digest (db_sessions d) (lower g)) =
      Inr (lookup_by ses_token_digest (db_sessions d) (lower g))"
    by (rule hydrate_lookup) (rule hydrate_ok(3) [OF assms(1)])
  have u: "hydrate_optional hydrate_user (lookup_user d j) = Inr (lookup_user d j)" for j
    unfolding lookup_user_def by (rule hydrate_lookup) (rule hydrate_ok(1) [OF assms(1)])
  have p: "hydrate_optional hydrate_pairing (lookup_by par_pairing_id (db_pairings d) i) =
      Inr (lookup_by par_pairing_id (db_pairings d) i)"
    by (rule hydrate_lookup) (rule hydrate_ok(4) [OF assms(1)])
  have "lookup_by ses_token_digest (db_sessions d) (lower g) = Some y" "lookup_user d (ses_user_id y) = Some u"
    "lookup_by par_pairing_id (db_pairings d) i = Some q" "d' = d"
    using assms(2) by (auto simp: read_tui_authentication_snapshot_def s u p split: option.splits)
  then show ?thesis by (auto dest!: lookup_by_SomeD lookup_userD)
qed

interpretation sqlite_tui:
  tui_registry "world_intact e" world_evolves user_in "sqlite_session_port e" session_in "sqlite_pairing_port e" pairing_in
    "sqlite_tui_snapshot e" for e
proof (unfold_locales, goal_cases)
  case (1 d i)
  show ?case unfolding sqlite_tui_snapshot_def
    by (rule call_step) (auto simp: read_tui_authentication_snapshot_def split: option.splits)
next
  case (2 s d i y u q t)
  obtain db now where db: "db_ok db" and run: "(case i of
       Some i \<Rightarrow> read_tui_authentication_snapshot d i db
     | None \<Rightarrow> (bind_result (fst (read_tui_authentication_snapshot d [] db)) (\<lambda>(s, u, p). Inr (s, u, None)), db)) =
       (Inr (Some y, Some u, Some q), w_db t)"
    using 2 by (auto simp: sqlite_tui_snapshot_def elim!: call_cases)
  obtain j where j: "i = Some j" using run by (cases i) (auto simp: result_simps)
  with run have "read_tui_authentication_snapshot d j db = (Inr (Some y, Some u, Some q), w_db t)" by simp
  from tui_snapshot_rows [OF db this] j show ?case by (simp add: observations)
qed

lemma sqlite_tui_wired_boundary:
  assumes "hashing_ok h"
  shows "sqlite_tui.boundary_wired e
    (sqlite_tui_boundary e (sqlite_pairing_service e codes ids pepper pttl h) sttl http ttl h path)"
  unfolding sqlite_tui.boundary_wired_def sqlite_tui.silent_def
  using assms by (simp add: sqlite_service_wired sqlite_tui_wired tick_source_def observations fun_eq_iff)

text \<open>C11. Whoever is admitted as a terminal is a student who authorized it: when the boundary accepts an
  authorization header, then, whatever other processes did meanwhile, one and the same database
  held the terminal session of the bearer, not revoked and not expired on the session clock, its
  active student, and the pairing that this student authorized and that was consumed at the
  instant the session was created.\<close>

theorem admitted_terminal_is_founded:
  assumes "honest e" "db_ok (w_db w)" "hashing_ok h"
    and "b = sqlite_tui_boundary e (sqlite_pairing_service e codes ids pepper pttl h) sttl http ttl h path"
    and "authenticate_terminal b header w = (Inr (x, u), w')"
  shows "\<exists>bearer now y q. bearer_header header = Some bearer \<and> session_token_digest h (PyStr bearer) = Inr (ses_token_digest y) \<and>
    same_generation x y \<and> y \<in> set (db_sessions (w_db w')) \<and> ses_audience y = AudienceTui \<and> ses_revoked_at y = None \<and>
    (\<exists>n. utc (env_clock e n) = Inr now) \<and> ses_created_at y \<le> now \<and> now < ses_expires_at y \<and>
    u \<in> set (db_users (w_db w')) \<and> acc_active u \<and> acc_role u = RoleStudent \<and> acc_user_id u = ses_user_id y \<and>
    q \<in> set (db_pairings (w_db w')) \<and> ses_source_pairing y = Some (par_pairing_id q) \<and> par_status q = PairConsumed \<and>
    par_user_id q = Some (acc_user_id u) \<and> par_consumed_at q = Some (ses_created_at y)"
proof -
  have w: "world_intact e w" using assms(1,2) by (simp add: world_intact_def)
  from sqlite_tui.terminal_sound [OF sqlite_tui_wired_boundary [OF assms(3)] w assms(5) [unfolded assms(4)]]
  obtain bearer y s1 now where o1: "bearer_header header = Some bearer" "same_generation x y"
      "session_token_digest h (PyStr bearer) = Inr (ses_token_digest y)" "ses_created_at y \<le> now" "now < ses_expires_at y"
    and cl: "utc (fst (tick_source (env_clock e) s1)) = Inr now"
    and f: "sqlite_tui.founded w' y u" by auto
  have cl': "\<exists>n. utc (env_clock e n) = Inr now" using cl by (auto simp: tick_source_def)
  from f obtain q where "pairing_in w' q" "ses_source_pairing y = Some (par_pairing_id q)" "par_status q = PairConsumed"
      "par_user_id q = Some (acc_user_id u)" "par_consumed_at q = Some (ses_created_at y)"
    and g: "session_in w' y" "ses_audience y = AudienceTui" "ses_revoked_at y = None" "user_in w' u" "acc_active u"
      "acc_role u = RoleStudent" "acc_user_id u = ses_user_id y"
    unfolding sqlite_tui.founded_def by blast
  with o1 cl' show ?thesis
    by (intro exI [of _ bearer] exI [of _ now] exI [of _ y] exI [of _ q]) (simp add: observations)
qed

text \<open>C13. A code is authorized by the owner of the cookie: when the boundary accepts an authorization, the
  request was a POST with the CSRF token of the bearer in its cookie header, the database held a
  web session of this bearer that was not revoked, and since then the pairing with the digest of
  the code is authorized for the user of that session, an active student.\<close>

theorem code_is_authorized_by_cookie_owner:
  assumes "honest e" "db_ok (w_db w)" "hashing_ok h"
    and b: "b = sqlite_tui_boundary e (sqlite_pairing_service e codes ids pepper pttl h) sttl
      (sqlite_boundary e wttl secret policy h) ttl h path"
    and run: "authorize_browser b (Some r) code w = (Inr (), w')"
  shows "req_method r = PyStr ''POST'' \<and> (\<exists>d bearer x q u. dated_steps (w_db w) d \<and> dated_steps d (w_db w') \<and>
    extract_bearer policy True (req_cookie r) = Inr (Some bearer) \<and> req_csrf r = PyStr (csrf_token h secret bearer) \<and>
    x \<in> set (db_sessions d) \<and> session_token_digest h (PyStr bearer) = Inr (ses_token_digest x) \<and>
    ses_audience x = AudienceWeb \<and> ses_revoked_at x = None \<and>
    q \<in> set (db_pairings (w_db w')) \<and> pairing_code_digest h code pepper = Inr (par_code_digest q) \<and>
    par_status q = PairAuthorized \<and> par_user_id q = Some (ses_user_id x) \<and>
    u \<in> set (db_users (w_db w')) \<and> acc_user_id u = ses_user_id x \<and> acc_active u \<and> acc_role u = RoleStudent)"
proof -
  let ?web = "sqlite_boundary e wttl secret policy h"
  let ?tui = "sqlite_tui_service e (sqlite_pairing_service e codes ids pepper pttl h) sttl"
  have w: "world_intact e w" using assms(1,2) by (simp add: world_intact_def)
  obtain ctx w1 q where po: "req_method r = PyStr ''POST''"
    and au: "authorize_application ?web (Some r) (Roles [''student'']) w = (Inr ctx, w1)"
    and bound: "tui_authorize ?tui code (acc_user_id (ctx_user ctx)) w1 = (Inr q, w')"
    using sqlite_tui.authorize_browser_Inr [OF run] unfolding b sqlite_tui_boundary_simps by blast
  have wired: "wired (world_intact e) world_evolves (sqlite_session_port e) (hb_sessions ?web)"
    using sqlite_service_wired [OF assms(3)] by simp
  have "keeps (guarded (world_intact e) world_evolves) (authorize_application ?web (Some r) (Roles [''student'']))"
    by (rule sqlite_sessions.request_keeps [OF wired]) (simp add: tick_source_harmless)
  from sqlite_accounts.guardedD [OF this au w] have w1: "world_intact e w1" and s1: "dated_steps (w_db w) (w_db w1)"
    by (simp_all add: world_evolves_def)
  have "keeps (guarded (world_intact e) world_evolves) (tui_authorize ?tui code (acc_user_id (ctx_user ctx)))"
    unfolding tui_authorize_def sqlite_tui_simps by (rule sqlite_pairings.authorize_keeps [OF sqlite_pairing_wired [OF assms(3)]])
  from sqlite_accounts.guardedD [OF this bound w1] have s2: "dated_steps (w_db w1) (w_db w')" by (simp add: world_evolves_def)
  note inv = authorize_application_Inr [OF au]
  have "observing session_in user_in (hb_clock ?web)" by (simp add: tick_source_observes)
  from sqlite_sessions.request_sound [OF wired this w inv(1)] obtain m bearer where
    bk: "backed session_in user_in w1 ctx" and m: "req_method r = PyStr m"
    and ex: "extract_bearer policy True (req_cookie r) = Inr (Some bearer)"
    and dg: "session_token_digest h (PyStr bearer) = Inr (ses_token_digest (ctx_session ctx))"
    and cs: "ctx_csrf ctx = csrf_token h secret bearer"
      "\<forall>k. method_of_text (upper (strip m)) = Some k \<and> unsafe_method k \<longrightarrow> req_csrf r = PyStr (ctx_csrf ctx)"
    by auto
  have "method_of_text (upper (strip ''POST'')) = Some POST" "unsafe_method POST" by code_simp+
  then have csrf: "req_csrf r = PyStr (csrf_token h secret bearer)" using cs m po by simp
  have x: "ctx_session ctx \<in> set (db_sessions (w_db w1))" "ses_audience (ctx_session ctx) = AudienceWeb"
    "ses_revoked_at (ctx_session ctx) = None" "acc_user_id (ctx_user ctx) = ses_user_id (ctx_session ctx)"
    using bk by (simp_all add: backed_def session_in_def)
  have "db_ok (w_db w1)" using w1 by (simp add: world_intact_def)
  from authorized_code_is_bound [OF assms(1) this assms(3) bound] obtain u where
    "q \<in> set (db_pairings (w_db w'))" "par_status q = PairAuthorized" "par_user_id q = Some (acc_user_id (ctx_user ctx))"
    "pairing_code_digest h code pepper = Inr (par_code_digest q)"
    "u \<in> set (db_users (w_db w'))" "acc_user_id u = acc_user_id (ctx_user ctx)" "acc_active u" "acc_role u = RoleStudent"
    by blast
  then have "dated_steps (w_db w) (w_db w1) \<and> dated_steps (w_db w1) (w_db w') \<and>
    extract_bearer policy True (req_cookie r) = Inr (Some bearer) \<and> req_csrf r = PyStr (csrf_token h secret bearer) \<and>
    ctx_session ctx \<in> set (db_sessions (w_db w1)) \<and> session_token_digest h (PyStr bearer) = Inr (ses_token_digest (ctx_session ctx)) \<and>
    ses_audience (ctx_session ctx) = AudienceWeb \<and> ses_revoked_at (ctx_session ctx) = None \<and>
    q \<in> set (db_pairings (w_db w')) \<and> pairing_code_digest h code pepper = Inr (par_code_digest q) \<and>
    par_status q = PairAuthorized \<and> par_user_id q = Some (ses_user_id (ctx_session ctx)) \<and>
    u \<in> set (db_users (w_db w')) \<and> acc_user_id u = ses_user_id (ctx_session ctx) \<and> acc_active u \<and> acc_role u = RoleStudent"
    using s1 s2 ex csrf x dg by simp
  with po show ?thesis by blast
qed

section \<open>A credential in a quiet environment\<close>

lemma quiet_read_digest:
  assumes "quiet e c" "db_ok (w_db w)" "s \<in> set (db_sessions (w_db w))" "hashing_ok h"
    "session_token_digest h bearer = Inr (ses_token_digest s)"
  shows "sp_read_by_digest (sqlite_session_port e) (ses_token_digest s) w = (Inr (Some s), w\<lparr>w_tick := Suc (w_tick w)\<rparr>)"
  using read_row_exact(2) [OF assms(2,3), of "ses_token_digest s"] session_token_digest_lower [OF assms(4,5)]
  by (simp add: sqlite_session_port_def quiet_call [OF assms(1)])

lemma save_closed:
  assumes ok: "db_ok d" and s: "s \<in> set (db_sessions d)" "ses_revoked_at s = None"
    and r: "closed = s\<lparr>ses_revoked_at := Some t\<rparr>" "valid_session closed"
  shows "\<exists>d'. save_session closed d = (Inr (), d') \<and> closed \<in> set (db_sessions d') \<and> db_ok d'"
proof -
  let ?P = "\<lambda>q. same_generation closed q \<and> ses_revoked_at q = None \<and> ses_last_seen_at q \<le> t"
  let ?seen = "\<lambda>q. if ses_last_seen_at closed < ses_last_seen_at q then ses_last_seen_at q else ses_last_seen_at closed"
  let ?f = "set_session_times ?seen (\<lambda>q. Some t)"
  have rt: "ses_revoked_at closed = Some t" using r(1) by simp
  have P: "?P s" using s(2) r by (simp add: same_generation_def valid_session_def)
  have uniq: "unique_on ses_session_id (db_sessions d)" using ok by (simp add: ok_defs)
  then have only: "?P q \<Longrightarrow> q \<in> set (db_sessions d) \<Longrightarrow> q = s" for q
    using s(1) r(1) by (auto simp: same_generation_def dest: unique_onD)
  have fs: "?f s = closed" using s(2) r(1) by (simp add: set_session_times_def)
  have one: "count_where ?P (db_sessions d) = 1"
    using count_where_le_1 [OF uniq, of ?P "ses_session_id s"] s(1) P r(1) by (auto simp: same_generation_def)
  have "list_all (\<lambda>q. ?P q \<longrightarrow> session_check (?f q)) (db_sessions d)"
    unfolding list_all_iff using only fs valid_session_check [OF r(2)] by metis
  then have "save_session closed d = (Inr (), d\<lparr>db_sessions := update_where ?P ?f (db_sessions d)\<rparr>)"
    using one rt by (simp add: save_session_def transaction_def update_sessions_def)
  moreover have "closed \<in> set (update_where ?P ?f (db_sessions d))" using update_where_hit [OF s(1), of ?P ?f] P fs by simp
  moreover have "db_ok (d\<lparr>db_sessions := update_where ?P ?f (db_sessions d)\<rparr>)"
    using keepsD [OF save_session_keeps calculation(1)] ok by (simp add: db_advance_def)
  ultimately show ?thesis by auto
qed

lemma quiet_revoke:
  assumes q: "quiet e c" and ok: "db_ok (w_db w)" and h: "hashing_ok h"
    and dg: "session_token_digest h bearer = Inr (ses_token_digest s)"
    and s: "s \<in> set (db_sessions (w_db w))" "ses_audience s = a" "ses_revoked_at s = None"
    and t: "ses_created_at s \<le> c (w_tick w + 1)" "c (w_tick w + 1) < ses_expires_at s"
  shows "\<exists>d'. revoke_session (sqlite_session_service e ttl a h) bearer w = (Inr True, \<lparr>w_db = d', w_tick = w_tick w + 3\<rparr>) \<and>
    db_ok d' \<and> s\<lparr>ses_revoked_at := Some (max (c (w_tick w + 1)) (ses_last_seen_at s))\<rparr> \<in> set (db_sessions d')"
proof -
  let ?srv = "sqlite_session_service e ttl a h" and ?n = "w_tick w"
  let ?closed = "s\<lparr>ses_revoked_at := Some (max (c (Suc ?n)) (ses_last_seen_at s))\<rparr>"
  have v: "valid_session s" using ok s(1) by (simp add: ok_defs)
  then have vc: "valid_session ?closed"
    using t quiet_times(1) [OF q, of "Suc ?n"] by (auto simp: valid_session_def max_def)
  obtain d' where d': "save_session ?closed (w_db w) = (Inr (), d')" "?closed \<in> set (db_sessions d')" "db_ok d'"
    using save_closed [OF ok s(1,3) refl vc] by blast
  have rd: "uncaught (sp_read_by_digest (sqlite_session_port e) (ses_token_digest s)) w = (Inr (Some s), w\<lparr>w_tick := Suc ?n\<rparr>)"
    by (rule uncaught_values) (rule quiet_read_digest [OF q ok s(1) h dg])
  have sv: "sp_save_session (sqlite_session_port e) ?closed (w\<lparr>w_tick := Suc (Suc ?n)\<rparr>) = (Inr (), \<lparr>w_db = d', w_tick = ?n + 3\<rparr>)"
    using d'(1) by (simp add: sqlite_session_port_def quiet_call [OF q])
  have rb: "rebuild_session ?closed = Inr ?closed" using vc by simp
  have "revoke_attempts max_attempts ?srv (ses_token_digest s) (Some s) (w\<lparr>w_tick := Suc ?n\<rparr>) = (Inr True, \<lparr>w_db = d', w_tick = ?n + 3\<rparr>)"
    using s(2,3) t rb sv quiet_clock [OF q, of "w\<lparr>w_tick := Suc ?n\<rparr>"]
    by (simp del: rebuild_session_eq add: max_attempts_def numeral_eq_Suc bind_act_def lift_identity_def lift_act_def try_act_def return_act_def)
  then have "revoke_session ?srv bearer w = (Inr True, \<lparr>w_db = d', w_tick = ?n + 3\<rparr>)"
    using dg rd by (simp add: revoke_session_def session_digest_for_verification_def bind_act_def lift_act_def)
  with d'(2,3) show ?thesis by auto
qed

lemma quiet_reject:
  assumes q: "quiet e c" and ok: "db_ok (w_db w)" and h: "hashing_ok h"
    and dg: "session_token_digest h bearer = Inr (ses_token_digest s)"
    and s: "s \<in> set (db_sessions (w_db w))" "ses_revoked_at s \<noteq> None" "ses_last_seen_at s \<le> c (w_tick w + 1)"
  shows "\<exists>w'. authenticate_session (sqlite_session_service e ttl a h) bearer w = (Inl InvalidCredential, w')"
proof -
  have rd: "uncaught (sp_read_by_digest (sqlite_session_port e) (ses_token_digest s)) w = (Inr (Some s), w\<lparr>w_tick := Suc (w_tick w)\<rparr>)"
    by (rule uncaught_values) (rule quiet_read_digest [OF q ok s(1) h dg])
  have "require_valid (sqlite_session_service e ttl a h) (Some s) (ses_token_digest s) (c (Suc (w_tick w))) v = (Inl InvalidCredential, v)" for v
    using s(2,3) by (auto simp: require_valid_def raise_act_def)
  with dg rd quiet_clock [OF q, of "w\<lparr>w_tick := Suc (w_tick w)\<rparr>"] show ?thesis
    by (simp add: authenticate_session_def session_digest_for_verification_def bind_act_def lift_act_def max_attempts_def numeral_eq_Suc)
qed

lemma session_digest_ascii:
  assumes "hashing_ok h" "session_token_digest h raw = Inr d"
  shows "ascii_text d"
proof -
  obtain t where d: "d = ''sha256:'' @ sha256_hex h t"
    using assms(2) by (auto simp: session_token_digest_def split: pyval.splits if_splits)
  have "is_hex_digit c \<Longrightarrow> code_point c < 128" for c by (auto simp: is_hex_digit_def Let_def)
  then have "ascii_text (sha256_hex h t)" using assms(1) by (auto simp: hashing_ok_def hex64_def ascii_text_def list_all_iff)
  moreover have "ascii_text ''sha256:''" by code_simp
  ultimately show ?thesis by (simp add: d ascii_text_def)
qed

lemma tui_snapshot_exact:
  assumes ok: "db_ok d" and y: "y \<in> set (db_sessions d)" "lower g = ses_token_digest y"
    and u: "u \<in> set (db_users d)" "acc_user_id u = ses_user_id y" and q: "q \<in> set (db_pairings d)"
  shows "read_tui_authentication_snapshot g (par_pairing_id q) d = (Inr (Some y, Some u, Some q), d)"
proof -
  have "lookup_by ses_token_digest (db_sessions d) (lower g) = Some y" "lookup_user d (ses_user_id y) = Some u"
    "lookup_by par_pairing_id (db_pairings d) (par_pairing_id q) = Some q"
    using assms by (simp_all add: lookup_by_Some_iff lookup_user_iff ok_defs)
  then show ?thesis
    using hydrate_ok(3) [OF ok y(1)] hydrate_ok(1) [OF ok u(1)] hydrate_ok(4) [OF ok q]
    by (simp add: read_tui_authentication_snapshot_def hydrate_optional_def)
qed

lemma quiet_admit:
  assumes q: "quiet e c" and ok: "db_ok (w_db w)" and h: "hashing_ok h"
    and b: "b = sqlite_tui_boundary e ps sttl http ttl h path" "ss_audience (hb_sessions http) = AudienceWeb"
    and t: "valid_session_bearer (PyStr t)" "session_token_digest h (PyStr t) = Inr (ses_token_digest s)"
    and s: "s \<in> set (db_sessions (w_db w))" "ses_audience s = AudienceTui" "ses_revoked_at s = None"
      "ses_last_seen_at s \<le> c (w_tick w + 1)" "c (w_tick w + 5) < ses_expires_at s"
    and u: "u \<in> set (db_users (w_db w))" "acc_user_id u = ses_user_id s" "acc_active u" "acc_role u = RoleStudent"
    and p: "p \<in> set (db_pairings (w_db w))" "ses_source_pairing s = Some (par_pairing_id p)" "par_status p = PairConsumed"
      "par_user_id p = Some (ses_user_id s)" "par_consumed_at p = Some (ses_created_at s)"
    and s': "s' = s\<lparr>ses_last_seen_at := c (w_tick w + 3)\<rparr>"
  shows "\<exists>d'. authenticate_terminal b (PyStr (''Bearer '' @ t)) w = (Inr (s', u), \<lparr>w_db = d', w_tick = w_tick w + 6\<rparr>) \<and>
    db_ok d' \<and> s' \<in> set (db_sessions d')"
proof -
  let ?n = "w_tick w" and ?srv = "sqlite_session_service e ttl AudienceTui h"
  let ?d = "(w_db w)\<lparr>db_sessions := update_where (\<lambda>q. ses_session_id q = ses_session_id s)
        (\<lambda>q. q\<lparr>ses_last_seen_at := c (?n + 3)\<rparr>) (db_sessions (w_db w))\<rparr>"
  have mono: "c (?n + 1) \<le> c (?n + 3)" "c (?n + 3) \<le> c (?n + 5)" using quiet_times(2) [OF q] by simp_all
  then have live: "c (?n + 3) < ses_expires_at s" using s(5) by simp
  have au: "authenticate_session ?srv (PyStr t) w = (Inr (s', u), \<lparr>w_db = ?d, w_tick = ?n + 4\<rparr>)"
    unfolding s' by (rule quiet_authenticate [OF q ok h t(2) s(1-4) live u(1-3) refl])
  have wi: "world_intact e w" using ok q by (simp add: world_intact_def quiet_honest)
  have ok': "db_ok ?d"
    using sqlite_accounts.guardedD [OF sqlite_sessions.authenticate_keeps [OF sqlite_service_wired [OF h]] au wi]
    by (simp add: world_intact_def)
  have row: "s' \<in> set (db_sessions ?d)" using s(1) by (auto simp: s' update_where_def intro!: image_eqI [of _ _ s])
  have vs: "valid_session s" using ok s(1) by (simp add: ok_defs)
  have sn: "sqlite_tui_snapshot e (ses_token_digest s) (Some (par_pairing_id p)) \<lparr>w_db = ?d, w_tick = ?n + 4\<rparr> =
      (Inr (Some s', Some u, Some p), \<lparr>w_db = ?d, w_tick = ?n + 5\<rparr>)"
    using tui_snapshot_exact [OF ok' row, of "ses_token_digest s" u p] session_token_digest_lower [OF h t(2)] u(1,2) p(1)
    by (simp add: sqlite_tui_snapshot_def quiet_call [OF q] s')
  have cl: "session_clock b \<lparr>w_db = ?d, w_tick = ?n + 5\<rparr> = (Inr (Some (c (?n + 5))), \<lparr>w_db = ?d, w_tick = ?n + 6\<rparr>)"
    using q by (simp add: b session_clock_def tick_source_def quiet_def utc_def utc_datetime_def)
  have cfg: "well_configured (tb_sessions b) (tb_http b) (tb_shared b)" using b(2) by (simp add: b(1) well_configured_def)
  have asc: "ascii_text (ses_token_digest s)"
    by (rule session_digest_ascii [OF h t(2)])
  have m: "snapshot_matches s' u (ses_token_digest s) (c (?n + 5)) (Some s', Some u, Some p)"
    using s p u vs mono live asc
    by (simp add: snapshot_matches_def s' compare_digest_def valid_session_def)
  have "valid_terminal b s' u t \<lparr>w_db = ?d, w_tick = ?n + 4\<rparr> = (Inr True, \<lparr>w_db = ?d, w_tick = ?n + 6\<rparr>)"
    using s(2) p(2) u(2,3) t(2) sn cl cfg m b(1)
    by (simp add: valid_terminal_def try_act_def return_act_def s')
  moreover have "require_shared b = return_act ()" using cfg by (simp add: require_shared_def)
  moreover have "bind_act (return_act ()) f = f ()" for f :: "unit \<Rightarrow> (world, tui_error, 'b) action"
    by (simp add: bind_act_def return_act_def fun_eq_iff)
  ultimately have "authenticate_terminal b (PyStr (''Bearer '' @ t)) w = (Inr (s', u), \<lparr>w_db = ?d, w_tick = ?n + 6\<rparr>)"
    using au credential_header [OF t(1)] u(4) b(1)
    by (simp add: authenticate_terminal_def try_act_def return_act_def bind_act_def)
  with ok' row show ?thesis by blast
qed

lemma quiet_pairing_read:
  assumes "quiet e c" "pp_read_pairing (sqlite_pairing_port e) i w = (Inr (Some q), w')" "world_intact e w"
  shows "w_db w' = w_db w \<and> q \<in> set (db_pairings (w_db w)) \<and> par_pairing_id q = i"
proof -
  have rd: "read_pairing i (w_db w) = (Inr (Some q), w_db w')"
    using assms(2) by (auto simp: sqlite_pairing_port_def quiet_call [OF assms(1)] Let_def split: prod.splits)
  have "db_ok (w_db w)" using assms(3) by (simp add: world_intact_def)
  from read_rows(3) [OF this rd] show ?thesis by simp
qed

text \<open>C12. A delivered credential works until it is given back: in a quiet environment the bearer of a
  credential that an exchange delivered is admitted as the student the credential names; then
  the logout proof that came with it revokes the session, and after that the same header is
  answered with \<^verbatim>\<open>HttpAuthenticationRequiredError\<close>. This needs that the credential lives long
  enough and that no session in the database was seen later than the clock says.\<close>

theorem delivered_credential_works:
  assumes q: "quiet e c" and ok: "db_ok (w_db w)" and h: "hashing_ok h"
    and b: "b = sqlite_tui_boundary e (sqlite_pairing_service e codes ids pepper pttl h) sttl http ttl h path"
    and run: "consume_terminal b v code w = (Inr cr, w1)" and n: "n = w_tick w1"
    and live: "c (n + 7) < crd_expires_at cr" and past: "\<forall>s \<in> set (db_sessions (w_db w1)). ses_last_seen_at s \<le> c n"
    and header: "header = PyStr (''Bearer '' @ crd_bearer cr)"
  shows "\<exists>x u w2 w3 w4. authenticate_terminal b header w1 = (Inr (x, u), w2) \<and>
    ses_session_id x = crd_session_id cr \<and> acc_user_id u = crd_user_id cr \<and> acc_role u = RoleStudent \<and>
    revoke_terminal b header (PyStr (crd_proof cr)) w2 = (Inr (), w3) \<and>
    authenticate_terminal b header w3 = (Inl authentication_required, w4)"
proof -
  let ?srv = "sqlite_session_service e ttl AudienceTui h"
  have w: "world_intact e w" using q ok by (simp add: world_intact_def quiet_honest)
  have wired: "sqlite_tui.boundary_wired e b" unfolding b by (rule sqlite_tui_wired_boundary [OF h])
  from sqlite_tui.consume_sound [OF wired w run] obtain i s1 s u p where
    s1: "world_intact e s1" and rd: "pp_read_pairing (sqlite_pairing_port e) i s1 = (Inr (Some p), w1)"
    and s: "session_in s1 s" "ses_audience s = AudienceTui" "ses_source_pairing s = Some i" "ses_revoked_at s = None"
    and u: "user_in s1 u" "acc_active u" "acc_role u = RoleStudent" "acc_user_id u = ses_user_id s"
    and p: "par_status p = PairConsumed" "par_user_id p = Some (ses_user_id s)" "par_consumed_at p = Some (ses_created_at s)"
    and dg0: "session_token_digest (ss_hash (tb_sessions b)) (PyStr (crd_bearer cr)) = Inr (ses_token_digest s)"
    and dg': "valid_session_bearer (PyStr (crd_bearer cr))" "logout_proof b (crd_bearer cr) = Some (crd_proof cr)" "proof_shape (crd_proof cr)"
      "crd_session_id cr = ses_session_id s" "crd_user_id cr = ses_user_id s" "crd_expires_at cr = ses_expires_at s"
    and cfg0: "well_configured (tb_sessions b) (tb_http b) (tb_shared b)"
    by (elim exE conjE) (rule that; assumption)
  have cfg: "well_configured ?srv http True" using cfg0 by (simp add: b)
  have dg1: "session_token_digest h (PyStr (crd_bearer cr)) = Inr (ses_token_digest s)" using dg0 by (simp add: b)
  note dg = dg1 dg'
  note pr = quiet_pairing_read [OF q rd s1]
  have same: "w_db s1 = w_db w1" using pr by simp
  have ok1: "db_ok (w_db w1)" using s1 same by (simp add: world_intact_def)
  have web: "ss_audience (hb_sessions http) = AudienceWeb" using cfg by (simp add: well_configured_def)
  have rows: "s \<in> set (db_sessions (w_db w1))" "u \<in> set (db_users (w_db w1))" "p \<in> set (db_pairings (w_db w1))" "par_pairing_id p = i"
    using s(1) u(1) pr by (simp_all add: observations)
  have mono: "c n \<le> c (n + 1)" "c (n + 5) \<le> c (n + 7)" "c (n + 3) \<le> c (n + 7)" "c (n + 3) \<le> c (n + 10)" "c (n + 1) \<le> c (n + 7)"
    by (rule quiet_times(2) [OF q]; simp)+
  have seen: "ses_last_seen_at s \<le> c (n + 1)" using past rows(1) mono(1) by force
  have vs: "valid_session s" using ok1 rows(1) by (simp add: ok_defs)
  let ?s = "s\<lparr>ses_last_seen_at := c (n + 3)\<rparr>"
  obtain d2 where au: "authenticate_terminal b header w1 = (Inr (?s, u), \<lparr>w_db = d2, w_tick = n + 6\<rparr>)"
    and d2: "db_ok d2" "?s \<in> set (db_sessions d2)"
    using quiet_admit [OF q ok1 h b web dg(2,1) rows(1) s(2,4) _ _ rows(2) u(4,2,3) rows(3) _ p refl] seen live mono(2) s(3) rows(4)
    by (auto simp: n dg(7) header)
  let ?w2 = "\<lparr>w_db = d2, w_tick = n + 6\<rparr>"
  have dg2: "session_token_digest h (PyStr (crd_bearer cr)) = Inr (ses_token_digest ?s)" using dg(1) by simp
  obtain d3 where rv: "revoke_session ?srv (PyStr (crd_bearer cr)) ?w2 = (Inr True, \<lparr>w_db = d3, w_tick = n + 9\<rparr>)"
    and d3: "db_ok d3" "?s\<lparr>ses_revoked_at := Some (max (c (n + 7)) (c (n + 3)))\<rparr> \<in> set (db_sessions d3)"
    using quiet_revoke [OF q, of ?w2 h "PyStr (crd_bearer cr)" ?s AudienceTui ttl] d2 h dg2 s(2,4) vs live mono seen
    by (auto simp: dg(7) valid_session_def numeral_eq_Suc)
  let ?w3 = "\<lparr>w_db = d3, w_tick = n + 9\<rparr>"
  have shared: "require_shared b w = (Inr (), w)" for w using cfg by (simp add: require_shared_def b return_act_def)
  have bh: "bearer_header header = Some (crd_bearer cr)" using credential_header [OF dg(2)] by (simp add: header)
  have passes: "valid_logout_proof b (crd_bearer cr) (PyStr (crd_proof cr)) = Some True"
    using dg(3,4) by (simp add: proof_decides)
  have out: "revoke_terminal b header (PyStr (crd_proof cr)) ?w2 = (Inr (), ?w3)"
    using rv bh passes shared by (simp add: revoke_terminal_def try_act_def return_act_def b)
  obtain w4 where rej: "authenticate_session ?srv (PyStr (crd_bearer cr)) ?w3 = (Inl InvalidCredential, w4)"
    using quiet_reject [OF q, of ?w3 h "PyStr (crd_bearer cr)" "?s\<lparr>ses_revoked_at := Some (max (c (n + 7)) (c (n + 3)))\<rparr>" ttl AudienceTui]
      d3 h dg(1) mono(4) by (auto simp: numeral_eq_Suc)
  have "authenticate_terminal b header ?w3 = (Inl authentication_required, w4)"
    using rej bh shared by (simp add: authenticate_terminal_def try_act_def refuse_def raise_act_def credential_error_def b)
  with au out dg(5,6) u(3,4) show ?thesis
    by (intro exI [of _ ?s] exI [of _ u] exI [of _ ?w2] exI [of _ ?w3] exI [of _ w4]) simp
qed

end
