(* ===== verification/Sample_Tui.thy ===== *)
theory Sample_Tui
  imports Sample_Web Sample_Services Sample_Teams Sqlite_Tui
begin

text \<open>The properties of the terminal boundary on concrete inputs.\<close>

definition tui_school_boundary :: "world tui_boundary" where
  "tui_school_boundary = sqlite_tui_boundary afternoon
     (sqlite_pairing_service afternoon code_of pairing_id_of sample_pepper 600 same_hash) 300 web_boundary 300 same_hash
     ''/auth/tui/pair''"

definition terminal_header :: pyval where
  "terminal_header = PyStr (''Bearer '' @ replicate 40 (CHR ''t''))"

text \<open>The school after the student exchanged the code of the pairing \<^verbatim>\<open>q1\<close>.\<close>

definition terminal_session :: user_session where
  "terminal_session = \<lparr>ses_session_id = ''w2'', ses_user_id = ''stu'', ses_token_digest = sha_of (CHR ''d''),
     ses_created_at = 180, ses_expires_at = 1000, ses_last_seen_at = 180, ses_revoked_at = None,
     ses_audience = AudienceTui, ses_source_pairing = Some ''q1''\<rparr>"

definition paired :: world where
  "paired = noon\<lparr>w_db := school\<lparr>db_sessions := [web_session, terminal_session],
     db_pairings := [authorized_pairing\<lparr>par_status := PairConsumed, par_consumed_at := Some 180\<rparr>]\<rparr>\<rparr>"

theorem admitted_terminal_is_founded_witness:
  "\<exists>x u w'. authenticate_terminal tui_school_boundary terminal_header paired = (Inr (x, u), w') \<and>
    u \<in> set (db_users (w_db w')) \<and> acc_role u = RoleStudent \<and>
    (\<exists>q \<in> set (db_pairings (w_db w')). par_status q = PairConsumed \<and> par_user_id q = Some (acc_user_id u))"
proof -
  have "run_ok (authenticate_terminal tui_school_boundary terminal_header paired)" by code_simp
  from run_ok_pair [OF this] obtain x u w' where
    run: "authenticate_terminal tui_school_boundary terminal_header paired = (Inr (x, u), w')" by blast
  have "db_ok (w_db paired)" by code_simp
  from admitted_terminal_is_founded [OF afternoon_honest this same_hash_ok tui_school_boundary_def run] run
  show ?thesis by blast
qed

theorem code_is_authorized_by_cookie_owner_witness:
  "\<exists>w' q. authorize_browser tui_school_boundary (Some (old_request ''POST'')) (PyStr ''CODE0002'') noon = (Inr (), w') \<and>
    q \<in> set (db_pairings (w_db w')) \<and> par_status q = PairAuthorized \<and>
    pairing_code_digest same_hash (PyStr ''CODE0002'') sample_pepper = Inr (par_code_digest q)"
proof -
  let ?w1 = "noon\<lparr>w_db := school\<lparr>db_sessions := [web_session\<lparr>ses_last_seen_at := 203\<rparr>]\<rparr>, w_tick := 5\<rparr>"
  have "authenticate_request web_boundary (Some (old_request ''POST'')) noon =
      (Inr (old_context (web_session\<lparr>ses_last_seen_at := 203\<rparr>) some_student), ?w1)"
    using old_request_admitted [OF disjI1 [OF refl] old_session_found] old_session_valid by (simp add: noon_def)
  then have adm: "authorize_application web_boundary (Some (old_request ''POST'')) (Roles [''student'']) noon =
      (Inr (old_context (web_session\<lparr>ses_last_seen_at := 203\<rparr>) some_student), ?w1)"
    by (simp add: authorize_application_def application_roles_def action_simps old_context_def some_student_def)
  have "answered (\<lambda>q. par_status q = PairAuthorized)
      (tui_authorize (tb_pairings tui_school_boundary) (PyStr ''CODE0002'') ''stu'' ?w1)" by code_simp
  from answeredD [OF this] obtain q w' where
    auth: "tui_authorize (tb_pairings tui_school_boundary) (PyStr ''CODE0002'') ''stu'' ?w1 = (Inr q, w')"
      "par_status q = PairAuthorized" by blast
  have shared: "require_shared tui_school_boundary = return_act ()"
    by (simp add: require_shared_def well_configured_def tui_school_boundary_def web_boundary_def)
  have "tb_http tui_school_boundary = web_boundary" by (simp add: tui_school_boundary_def)
  then have run: "authorize_browser tui_school_boundary (Some (old_request ''POST'')) (PyStr ''CODE0002'') noon = (Inr (), w')"
    using adm auth
    by (simp add: authorize_browser_def action_simps shared old_request_def old_context_def some_student_def)
  have "db_ok (w_db noon)" by (simp add: noon_def school_ok)
  from code_is_authorized_by_cookie_owner [OF afternoon_honest this same_hash_ok
      tui_school_boundary_def [unfolded web_boundary_def] run] run
  show ?thesis by blast
qed

theorem delivered_credential_works_witness:
  "\<exists>cr w1 x u w2 w3 w4. consume_terminal tui_school_boundary (PyStr ''q1'') (PyStr ''CODE0003'') noon = (Inr cr, w1) \<and>
    authenticate_terminal tui_school_boundary (PyStr (''Bearer '' @ crd_bearer cr)) w1 = (Inr (x, u), w2) \<and>
    revoke_terminal tui_school_boundary (PyStr (''Bearer '' @ crd_bearer cr)) (PyStr (crd_proof cr)) w2 = (Inr (), w3) \<and>
    authenticate_terminal tui_school_boundary (PyStr (''Bearer '' @ crd_bearer cr)) w3 = (Inl authentication_required, w4)"
proof -
  let ?run = "consume_terminal tui_school_boundary (PyStr ''q1'') (PyStr ''CODE0003'') noon"
  have "case ?run of
      (Inr cr, w1) \<Rightarrow> ticking (w_tick w1 + 7) < crd_expires_at cr \<and>
        list_all (\<lambda>s. ses_last_seen_at s \<le> ticking (w_tick w1)) (db_sessions (w_db w1))
    | _ \<Rightarrow> False"
    by code_simp
  then obtain cr w1 where run: "?run = (Inr cr, w1)" and live: "ticking (w_tick w1 + 7) < crd_expires_at cr"
    and past: "\<forall>s \<in> set (db_sessions (w_db w1)). ses_last_seen_at s \<le> ticking (w_tick w1)"
    by (auto simp: list_all_iff split: prod.splits sum.splits)
  have "db_ok (w_db noon)" by (simp add: noon_def school_ok)
  from delivered_credential_works [OF afternoon_quiet this same_hash_ok tui_school_boundary_def run refl live past refl] run
  show ?thesis by blast
qed

end
