(* ===== verification/Ip_Address.thy ===== *)
theory Ip_Address
  imports Http_Cookie
begin

text \<open>
  What \<^verbatim>\<open>scripts/thebitlab_edge_rate_limit.py\<close> uses of the module \<^verbatim>\<open>ipaddress\<close> of the standard library:
  parsing and printing of addresses and networks, membership, and that printing is undone by
  parsing.
\<close>

section \<open>Numbers in texts\<close>

definition decimal_digit :: "char \<Rightarrow> bool" where
  "decimal_digit c \<longleftrightarrow> 48 \<le> code_point c \<and> code_point c \<le> 57"

definition decimal_number :: "string \<Rightarrow> nat" where
  "decimal_number s = foldl (\<lambda>n c. 10 * n + (code_point c - 48)) 0 s"

text \<open>\<^verbatim>\<open>_parse_octet\<close>\<close>

definition parse_octet :: "string \<Rightarrow> nat option" where
  "parse_octet s =
     (if s = [] \<or> \<not> list_all decimal_digit s \<or> 3 < length s \<or> s \<noteq> ''0'' \<and> hd s = CHR ''0'' \<or> 255 < decimal_number s
      then None else Some (decimal_number s))"

definition any_hex_value :: "char \<Rightarrow> nat option" where
  "any_hex_value c =
     (let n = code_point c
      in if 48 \<le> n \<and> n \<le> 57 then Some (n - 48)
         else if 97 \<le> n \<and> n \<le> 102 then Some (n - 87)
         else if 65 \<le> n \<and> n \<le> 70 then Some (n - 55)
         else None)"

text \<open>\<^verbatim>\<open>_parse_hextet\<close>; \<^verbatim>\<open>int("", 16)\<close> raises.\<close>

definition parse_hextet :: "string \<Rightarrow> nat option" where
  "parse_hextet s =
     (if s = [] \<or> list_ex (\<lambda>c. any_hex_value c = None) s \<or> 4 < length s then None
      else Some (foldl (\<lambda>n c. 16 * n + the (any_hex_value c)) 0 s))"

text \<open>\<^verbatim>\<open>'%x'\<close>\<close>

function hex_text :: "nat \<Rightarrow> string" where
  "hex_text n = (if n < 16 then [hex_char n] else hex_text (n div 16) @ [hex_char (n mod 16)])"
  by pat_completeness auto
termination by (relation "measure id") auto

declare hex_text.simps [simp del]

text \<open>The digits of a number to a base, and the number of digits; the most significant comes first.\<close>

definition big_endian :: "nat \<Rightarrow> nat \<Rightarrow> nat \<Rightarrow> nat list" where
  "big_endian base k n = map (\<lambda>i. n div base ^ (k - 1 - i) mod base) [0..<k]"

definition from_digits :: "nat \<Rightarrow> nat list \<Rightarrow> nat" where
  "from_digits base = foldl (\<lambda>n d. base * n + d) 0"

fun join_with :: "char \<Rightarrow> string list \<Rightarrow> string" where
  "join_with c [] = []"
| "join_with c [x] = x"
| "join_with c (x # y # xs) = x @ c # join_with c (y # xs)"

fun collect_options :: "'a option list \<Rightarrow> 'a list option" where
  "collect_options [] = Some []"
| "collect_options (None # xs) = None"
| "collect_options (Some x # xs) = map_option ((#) x) (collect_options xs)"

section \<open>Addresses\<close>

text \<open>An address of version 4 is below \<open>2 ^ 32\<close>, one of version 6 below \<open>2 ^ 128\<close>.\<close>

datatype ip_address = Ipv4 nat | Ipv6 nat

fun valid_address :: "ip_address \<Rightarrow> bool" where
  "valid_address (Ipv4 n) \<longleftrightarrow> n < 2 ^ 32"
| "valid_address (Ipv6 n) \<longleftrightarrow> n < 2 ^ 128"

text \<open>\<^verbatim>\<open>_BaseV4._ip_int_from_string\<close>\<close>

definition ipv4_number :: "string \<Rightarrow> nat option" where
  "ipv4_number s =
     (let octets = split_on (CHR ''.'') s
      in if length octets \<noteq> 4 then None
         else map_option (from_digits 256) (collect_options (map parse_octet octets)))"

text \<open>The parts of a version 6 text, with an IPv4 suffix turned into two parts.\<close>

definition ipv6_parts :: "string \<Rightarrow> string list option" where
  "ipv6_parts s =
     (let parts = split_on (CHR '':'') s
      in if length parts < 3 then None
         else if List.member (last parts) (CHR ''.'')
         then map_option (\<lambda>n. butlast parts @ [hex_text (n div 65536 mod 65536), hex_text (n mod 65536)])
           (ipv4_number (last parts))
         else Some parts)"

text \<open>\<^verbatim>\<open>_BaseV6._ip_int_from_string\<close>: the parts before \<^verbatim>\<open>::\<close>, the number of skipped parts, the parts after.\<close>

definition ipv6_layout :: "string list \<Rightarrow> (nat \<times> nat \<times> nat) option" where
  "ipv6_layout parts =
     (case filter (\<lambda>i. parts ! i = []) [1..<length parts - 1] of
        [] \<Rightarrow> if length parts \<noteq> 8 \<or> hd parts = [] \<or> last parts = [] then None else Some (length parts, 0, 0)
      | [skip] \<Rightarrow>
          let hi = (if hd parts = [] then skip - 1 else skip);
              lo = (if last parts = [] then length parts - skip - 2 else length parts - skip - 1)
          in if hd parts = [] \<and> hi \<noteq> 0 \<or> last parts = [] \<and> lo \<noteq> 0 \<or> 8 < hi + lo + 1 then None
             else Some (hi, 8 - (hi + lo), lo)
      | _ \<Rightarrow> None)"

definition ipv6_number :: "string \<Rightarrow> nat option" where
  "ipv6_number s =
     (case ipv6_parts s of
        None \<Rightarrow> None
      | Some parts \<Rightarrow>
          if 9 < length parts then None
          else (case ipv6_layout parts of
              None \<Rightarrow> None
            | Some (hi, skipped, lo) \<Rightarrow>
                (case (collect_options (map parse_hextet (take hi parts)),
                       collect_options (map parse_hextet (drop (length parts - lo) parts))) of
                   (Some before, Some after) \<Rightarrow> Some (from_digits 65536 (before @ replicate skipped 0 @ after))
                 | _ \<Rightarrow> None)))"

text \<open>
  \<^verbatim>\<open>ipaddress.ip_address\<close> on a text, which carries no scope identifier. The texts with a slash that the
  constructors refuse are refused by the parsers.
\<close>

definition ip_of_text :: "string \<Rightarrow> ip_address option" where
  "ip_of_text s =
     (case ipv4_number s of Some n \<Rightarrow> Some (Ipv4 n) | None \<Rightarrow> map_option Ipv6 (ipv6_number s))"

text \<open>\<^verbatim>\<open>IPv6Address.ipv4_mapped\<close>\<close>

definition ipv4_mapped :: "nat \<Rightarrow> nat option" where
  "ipv4_mapped n = (if n div 2 ^ 32 = 0xFFFF then Some (n mod 2 ^ 32) else None)"

section \<open>Printing\<close>

text \<open>The loop of \<^verbatim>\<open>_compress_hextets\<close>: start and length of the best run of zeros, of the current run.\<close>

fun zero_runs :: "nat \<Rightarrow> (nat \<times> nat) \<times> nat option \<times> nat \<Rightarrow> string list \<Rightarrow> nat \<times> nat" where
  "zero_runs i (best, run) [] = best"
| "zero_runs i ((best_start, best_len), start, len) (h # hs) =
     (if h = ''0''
      then let start' = (case start of None \<Rightarrow> i | Some s \<Rightarrow> s)
           in zero_runs (Suc i) (if best_len < len + 1 then (start', len + 1) else (best_start, best_len), Some start', len + 1) hs
      else zero_runs (Suc i) ((best_start, best_len), None, 0) hs)"

definition compress_hextets :: "string list \<Rightarrow> string list" where
  "compress_hextets hs =
     (case zero_runs 0 ((0, 0), None, 0) hs of
        (start, len) \<Rightarrow>
          if len \<le> 1 then hs
          else (if start = 0 then [[]] else []) @ take start hs @ [[]] @ drop (start + len) hs @
            (if start + len = length hs then [[]] else []))"

text \<open>\<^verbatim>\<open>compressed\<close>\<close>

fun address_text :: "ip_address \<Rightarrow> string" where
  "address_text (Ipv4 n) = join_with (CHR ''.'') (map decimal (big_endian 256 4 n))"
| "address_text (Ipv6 n) = join_with (CHR '':'') (compress_hextets (map hex_text (big_endian 65536 8 n)))"

section \<open>Networks\<close>

text \<open>
  A network: an address and the number of its leading bits that count. \<^verbatim>\<open>int\<close> refuses texts of
  more than 4300 digits.
\<close>

type_synonym ip_network = "ip_address \<times> nat"

definition prefix_number :: "nat \<Rightarrow> string \<Rightarrow> nat option" where
  "prefix_number width s =
     (if s = [] \<or> \<not> list_all decimal_digit s \<or> 4300 < length s \<or> width < decimal_number s then None else Some (decimal_number s))"

text \<open>\<^verbatim>\<open>_prefix_from_ip_int\<close>: the bits of a netmask are ones, then zeros.\<close>

definition netmask_prefix :: "nat \<Rightarrow> nat option" where
  "netmask_prefix n = List.find (\<lambda>p. n = (2 ^ p - 1) * 2 ^ (32 - p)) [0..<33]"

text \<open>\<^verbatim>\<open>_make_netmask\<close> of version 4: a prefix length, a netmask or a host mask.\<close>

definition ipv4_prefix :: "string \<Rightarrow> nat option" where
  "ipv4_prefix s =
     (case prefix_number 32 s of
        Some p \<Rightarrow> Some p
      | None \<Rightarrow>
          (case ipv4_number s of
             None \<Rightarrow> None
           | Some n \<Rightarrow> (case netmask_prefix n of Some p \<Rightarrow> Some p | None \<Rightarrow> netmask_prefix (2 ^ 32 - 1 - n))))"

definition network_text :: "nat \<Rightarrow> (string \<Rightarrow> nat option) \<Rightarrow> (string \<Rightarrow> nat option) \<Rightarrow> string \<Rightarrow> (nat \<times> nat) option" where
  "network_text width number prefix s =
     (case split_on (CHR ''/'') s of
        [a] \<Rightarrow> map_option (\<lambda>n. (n, width)) (number a)
      | [a, p] \<Rightarrow>
          (case (number a, prefix p) of
             (Some n, Some q) \<Rightarrow> Some (n, q)
           | _ \<Rightarrow> None)
      | _ \<Rightarrow> None)"

definition host_bits_clear :: "nat \<Rightarrow> nat \<times> nat \<Rightarrow> bool" where
  "host_bits_clear width nw \<longleftrightarrow> fst nw mod 2 ^ (width - snd nw) = 0"

text \<open>An address of a network may have a scope identifier; \<open>Some True\<close> says that it has one.\<close>

definition scoped_text :: "string \<Rightarrow> bool option" where
  "scoped_text a =
     (case partition_at (CHR ''%'') a of
        (addr, found, scope) \<Rightarrow>
          if found \<and> (scope = [] \<or> List.member scope (CHR ''%'')) then None else Some found)"

definition scope_number :: "string \<Rightarrow> nat option" where
  "scope_number a = (if scoped_text a = None then None else ipv6_number (fst (partition_at (CHR ''%'') a)))"

text \<open>\<^verbatim>\<open>ipaddress.ip_network(s, strict=True)\<close>, with the flag of a scope identifier.\<close>

definition ip_network_of_text :: "string \<Rightarrow> (ip_network \<times> bool) option" where
  "ip_network_of_text s =
     (case network_text 32 ipv4_number ipv4_prefix s of
        Some nw \<Rightarrow> if host_bits_clear 32 nw then Some ((Ipv4 (fst nw), snd nw), False) else None
      | None \<Rightarrow>
          (case network_text 128 scope_number (prefix_number 128) s of
             Some nw \<Rightarrow>
               if host_bits_clear 128 nw
               then Some ((Ipv6 (fst nw), snd nw), scoped_text (hd (split_on (CHR ''/'') s)) = Some True) else None
           | None \<Rightarrow> None))"

fun in_network :: "ip_address \<Rightarrow> ip_network \<Rightarrow> bool" where
  "in_network (Ipv4 a) (Ipv4 n, p) \<longleftrightarrow> a div 2 ^ (32 - p) * 2 ^ (32 - p) = n"
| "in_network (Ipv6 a) (Ipv6 n, p) \<longleftrightarrow> a div 2 ^ (128 - p) * 2 ^ (128 - p) = n"
| "in_network _ _ \<longleftrightarrow> False"

section \<open>Parsing undoes printing\<close>

lemma split_on_sep:
  "c \<notin> set s \<Longrightarrow> split_on c s = [s]" "c \<notin> set s \<Longrightarrow> split_on c (s @ c # r) = s # split_on c r"
  by (induction s) auto

lemma split_join: "xs \<noteq> [] \<Longrightarrow> \<forall>x \<in> set xs. c \<notin> set x \<Longrightarrow> split_on c (join_with c xs) = xs"
  by (induction c xs rule: join_with.induct) (simp_all add: split_on_sep)

lemma collect_options_map: "\<forall>x \<in> set xs. f x = Some (g x) \<Longrightarrow> collect_options (map f xs) = Some (map g xs)"
  by (induction xs) auto

lemma collect_options_values: "collect_options vs = Some xs \<Longrightarrow> vs = map Some xs"
  by (induction vs arbitrary: xs rule: collect_options.induct) auto

lemma big_endian_Suc: "big_endian b (Suc k) n = big_endian b k (n div b) @ [n mod b]"
proof -
  have "n div b ^ (k - i) mod b = n div b div b ^ (k - Suc i) mod b" if "i < k" for i
  proof -
    have "b ^ (k - i) = b * b ^ (k - Suc i)" using that by (simp add: Suc_diff_Suc flip: power_Suc)
    then show ?thesis by (simp add: div_mult2_eq)
  qed
  then show ?thesis by (auto simp: big_endian_def)
qed

lemma from_digits_snoc: "from_digits b (ds @ [d]) = b * from_digits b ds + d"
  by (simp add: from_digits_def)

lemma from_big_endian: "0 < b \<Longrightarrow> from_digits b (big_endian b k n) = n mod b ^ k"
proof (induction k arbitrary: n)
  case 0
  then show ?case by (simp add: big_endian_def from_digits_def)
next
  case (Suc k)
  then show ?case by (simp add: big_endian_Suc from_digits_snoc mod_mult2_eq)
qed

lemma big_endian_bound: "0 < b \<Longrightarrow> \<forall>d \<in> set (big_endian b k n). d < b"
  by (auto simp: big_endian_def)

lemma length_big_endian [simp]: "length (big_endian b k n) = k"
  by (simp add: big_endian_def)

lemma digit_char_value: "d < 10 \<Longrightarrow> code_point (digit_char (int d)) = 48 + d"
  by (simp add: digit_char_def code_point_char_of nat_add_distrib)

lemma decimal_shape:
  "decimal n \<noteq> []" "list_all decimal_digit (decimal n)" "decimal_number (decimal n) = n"
  "hd (decimal n) = CHR ''0'' \<longleftrightarrow> n = 0"
proof (induction n rule: decimal.induct)
  case (1 n)
  have zero: "digit_char (int d) = CHR ''0'' \<longleftrightarrow> d = 0" if "d < 10" for d
  proof -
    have "code_point (CHR ''0'') = 48" by code_simp
    moreover have "code_point x = code_point y \<Longrightarrow> x = y" for x y by (simp add: code_point_def)
    ultimately show ?thesis using digit_char_value [OF that] by (metis add.right_neutral add_left_cancel)
  qed
  {
    case 1
    then show ?case by (subst decimal.simps) simp
  next
    case 2
    have "decimal_digit (digit_char (int d))" if "d < 10" for d using digit_char_value [OF that] that by (simp add: decimal_digit_def)
    then show ?case using "1.IH"(2) by (subst decimal.simps) simp
  next
    case 3
    then show ?case using "1.IH"(3) by (subst decimal.simps) (simp add: decimal_number_def digit_char_value)
  next
    case 4
    then show ?case using "1.IH"(1,4) zero by (subst decimal.simps) auto
  }
qed

lemma decimal_length: "n < 10 ^ Suc k \<Longrightarrow> length (decimal n) \<le> Suc k"
proof (induction k arbitrary: n)
  case 0
  then show ?case by (subst decimal.simps) simp
next
  case (Suc k)
  have "n div 10 < 10 ^ Suc k" using Suc.prems by (simp add: div_less_iff_less_mult mult.commute)
  then show ?case using Suc.IH by (subst decimal.simps) simp
qed

lemma octet_read_back: "n < 256 \<Longrightarrow> parse_octet (decimal n) = Some n"
proof -
  assume "n < 256"
  moreover have "decimal 0 = ''0''" by code_simp
  ultimately show ?thesis using decimal_shape [of n] decimal_length [of n 2] by (auto simp: parse_octet_def)
qed

lemma digit_no_dot: "list_all decimal_digit s \<Longrightarrow> CHR ''.'' \<notin> set s"
  by (auto simp: list_all_iff decimal_digit_def code_point_def)

lemma ipv4_read_back: "n < 2 ^ 32 \<Longrightarrow> ipv4_number (join_with (CHR ''.'') (map decimal (big_endian 256 4 n))) = Some n"
proof -
  assume n: "n < 2 ^ 32"
  let ?ds = "big_endian 256 4 n"
  have d: "\<forall>d \<in> set ?ds. d < 256" by (rule big_endian_bound) simp
  have parts: "split_on (CHR ''.'') (join_with (CHR ''.'') (map decimal ?ds)) = map decimal ?ds"
  proof (rule split_join)
    show "map decimal ?ds \<noteq> []" by (metis length_big_endian length_map list.size(3) zero_neq_numeral)
    show "\<forall>x \<in> set (map decimal ?ds). CHR ''.'' \<notin> set x" using decimal_shape(2) digit_no_dot by auto
  qed
  have "collect_options (map parse_octet (map decimal ?ds)) = Some ?ds"
    using collect_options_map [of ?ds "parse_octet \<circ> decimal" id] d octet_read_back by auto
  then show ?thesis using n by (simp add: ipv4_number_def parts from_big_endian)
qed

lemma hex_char_value: "d < 16 \<Longrightarrow> any_hex_value (hex_char d) = Some d"
  by (simp add: any_hex_value_def hex_char_def code_point_char_of)

lemma hex_text_value: "foldl (\<lambda>n c. 16 * n + the (any_hex_value c)) 0 (hex_text n) = n"
proof (induction n rule: hex_text.induct)
  case (1 n)
  then show ?case by (subst hex_text.simps) (simp add: hex_char_value)
qed

lemma hex_text_chars: "\<forall>c \<in> set (hex_text n). any_hex_value c \<noteq> None"
proof (induction n rule: hex_text.induct)
  case (1 n)
  then show ?case by (subst hex_text.simps) (auto simp: hex_char_value)
qed

lemma hex_text_not_Nil [simp]: "hex_text n \<noteq> []"
  by (subst hex_text.simps) simp

lemma hex_text_length: "n < 16 ^ Suc k \<Longrightarrow> length (hex_text n) \<le> Suc k"
proof (induction k arbitrary: n)
  case 0
  then show ?case by (subst hex_text.simps) simp
next
  case (Suc k)
  have "n div 16 < 16 ^ Suc k" using Suc.prems by (simp add: div_less_iff_less_mult mult.commute)
  then show ?case using Suc.IH by (subst hex_text.simps) simp
qed

lemma hextet_read_back: "n < 65536 \<Longrightarrow> parse_hextet (hex_text n) = Some n"
  using hex_text_length [of n 3] hex_text_chars [of n] by (auto simp: parse_hextet_def hex_text_value list_ex_iff)

lemma hex_no_separator: "any_hex_value c \<noteq> None \<Longrightarrow> c \<noteq> CHR '':'' \<and> c \<noteq> CHR ''.''"
  by (auto simp: any_hex_value_def code_point_def)

subsection \<open>Compressed texts\<close>

text \<open>What the loop has seen: the current and the best run of zeros lie in the part that was read.\<close>

definition zeros_at :: "string list \<Rightarrow> nat \<Rightarrow> nat \<Rightarrow> bool" where
  "zeros_at hs start len \<longleftrightarrow> start + len \<le> length hs \<and> (\<forall>j < len. hs ! (start + j) = ''0'')"

lemma zero_runs_sound:
  assumes "zero_runs (length seen) ((bs, bl), run, len) hs = (s, l)" "zeros_at seen bs bl"
    and "case run of None \<Rightarrow> len = 0 | Some r \<Rightarrow> zeros_at seen r len \<and> r + len = length seen"
  shows "zeros_at (seen @ hs) s l"
  using assms
proof (induction hs arbitrary: seen bs bl run len)
  case Nil
  then show ?case by simp
next
  case (Cons h hs)
  have more: "zeros_at seen a k \<Longrightarrow> zeros_at (seen @ [h]) a k" for a k by (auto simp: zeros_at_def nth_append)
  have grow: "zeros_at (seen @ [h]) a (Suc k)" if "zeros_at seen a k" "a + k = length seen" "h = ''0''" for a k
    using that by (auto simp: zeros_at_def nth_append less_Suc_eq)
  have empty: "zeros_at seen (length seen) 0" by (simp add: zeros_at_def)
  show ?case
  proof (cases "h = ''0''")
    case False
    with Cons show ?thesis using Cons.IH [of "seen @ [h]" bs bl None 0] more by simp
  next
    case True
    let ?r = "case run of None \<Rightarrow> length seen | Some r \<Rightarrow> r"
    have r: "zeros_at seen ?r len" "?r + len = length seen" using Cons.prems(3) empty by (auto split: option.splits)
    let ?best = "if bl < len + 1 then (?r, len + 1) else (bs, bl)"
    have best: "zeros_at (seen @ [h]) (fst ?best) (snd ?best)" using grow [OF r True] more [OF Cons.prems(2)] by simp
    have "zero_runs (length (seen @ [h])) ((fst ?best, snd ?best), Some ?r, len + 1) hs = (s, l)"
      using Cons.prems(1) True by (simp add: Let_def)
    from Cons.IH [OF this best] grow [OF r True] r(2) show ?thesis by simp
  qed
qed

lemma zeros_split:
  assumes "zeros_at hs s l"
  shows "hs = take s hs @ replicate l ''0'' @ drop (s + l) hs"
proof -
  have "take l (drop s hs) = replicate l ''0''"
    using assms by (intro nth_equalityI) (auto simp: zeros_at_def)
  then show ?thesis by (metis append_take_drop_id drop_drop add.commute)
qed

definition hextet_text :: "string \<Rightarrow> bool" where
  "hextet_text h \<longleftrightarrow> h \<noteq> [] \<and> (\<forall>c \<in> set h. any_hex_value c \<noteq> None)"

lemma layout_plain:
  assumes "length hs = 8" "\<forall>h \<in> set hs. hextet_text h"
  shows "ipv6_layout hs = Some (8, 0, 0)"
proof -
  have "hs ! i \<noteq> []" if "i < 8" for i using assms that by (simp add: hextet_text_def)
  then have "filter (\<lambda>i. hs ! i = []) [1..<length hs - 1] = []" using assms(1) by (auto simp: filter_empty_conv)
  moreover have "hd hs \<noteq> []" "last hs \<noteq> []"
    using assms by (metis hextet_text_def hd_in_set length_0_conv zero_neq_numeral, metis hextet_text_def last_in_set length_0_conv zero_neq_numeral)
  ultimately show ?thesis using assms(1) by (simp add: ipv6_layout_def)
qed

text \<open>The parts of a text with a double colon.\<close>

definition gap_parts :: "string list \<Rightarrow> string list \<Rightarrow> string list" where
  "gap_parts pre suf = (if pre = [] then [[]] else []) @ pre @ [[]] @ suf @ (if suf = [] then [[]] else [])"

lemma layout_gap:
  assumes "\<forall>h \<in> set (pre @ suf). hextet_text h" "length pre + length suf \<le> 7"
  shows "ipv6_layout (gap_parts pre suf) = Some (length pre, 8 - (length pre + length suf), length suf)"
proof -
  let ?ps = "gap_parts pre suf" and ?k = "if pre = [] then 1 else length pre"
  have len: "length ?ps = ?k + 1 + (if suf = [] then 1 else length suf)" by (simp add: gap_parts_def)
  have at: "?ps ! i = [] \<longleftrightarrow> i = ?k" if "1 \<le> i" "i < length ?ps - 1" for i
  proof -
    have "hs ! j \<noteq> []" if "hs = pre \<or> hs = suf" "j < length hs" for hs j
      using assms(1) that by (auto simp: hextet_text_def dest: nth_mem)
    then show ?thesis using that unfolding gap_parts_def
      by (auto simp: nth_append nth_Cons split: nat.splits if_splits)
  qed
  have "filter (\<lambda>i. ?ps ! i = []) [1..<length ?ps - 1] = filter (\<lambda>i. i = ?k) [1..<length ?ps - 1]"
    using at by (intro filter_cong) auto
  also have "\<dots> = [?k]"
  proof -
    have k: "?k \<in> set [1..<length ?ps - 1]" using len by (auto simp: Suc_le_eq)
    have "filter (\<lambda>i. i = x) xs = [x]" if "distinct xs" "x \<in> set xs" for x :: nat and xs
      using that by (induction xs) (auto simp: filter_empty_conv)
    from this [OF distinct_upt k] show ?thesis .
  qed
  finally have skip: "filter (\<lambda>i. ?ps ! i = []) [1..<length ?ps - 1] = [?k]" .
  have ends: "hd ?ps = [] \<longleftrightarrow> pre = []" "last ?ps = [] \<longleftrightarrow> suf = []"
    using assms(1) by (cases pre; cases suf rule: rev_cases; simp add: gap_parts_def hextet_text_def)+
  show ?thesis unfolding ipv6_layout_def skip
    using ends len assms(2) by (auto simp: Let_def)
qed

lemma gap_parts_ends:
  "take (length pre) (gap_parts pre suf) = pre" "drop (length (gap_parts pre suf) - length suf) (gap_parts pre suf) = suf"
  by (simp_all add: gap_parts_def)

lemma compress_split:
  assumes "length hs = 8"
  obtains "compress_hextets hs = hs"
  | pre suf l where "compress_hextets hs = gap_parts pre suf" "hs = pre @ replicate l ''0'' @ suf" "2 \<le> l"
proof -
  obtain s l where z: "zero_runs 0 ((0, 0), None, 0) hs = (s, l)" by fastforce
  have at: "zeros_at hs s l" using zero_runs_sound [of "[]" 0 0 None 0 hs s l] z by (simp add: zeros_at_def)
  show thesis
  proof (cases "l \<le> 1")
    case True
    with z show thesis by (intro that(1)) (simp add: compress_hextets_def)
  next
    case False
    have "hs \<noteq> []" using assms by auto
    with z False at have "compress_hextets hs = gap_parts (take s hs) (drop (s + l) hs)"
      by (auto simp: compress_hextets_def gap_parts_def zeros_at_def)
    with zeros_split [OF at] False show thesis by (intro that(2)) auto
  qed
qed

lemma hextet_text_hex: "hextet_text (hex_text n)"
  using hex_text_chars by (simp add: hextet_text_def)

lemma hextet_text_plain: "hextet_text h \<Longrightarrow> CHR '':'' \<notin> set h \<and> CHR ''.'' \<notin> set h"
  unfolding hextet_text_def by (metis hex_no_separator)

lemma parts_read:
  assumes "\<forall>h \<in> set parts. CHR '':'' \<notin> set h \<and> CHR ''.'' \<notin> set h" "3 \<le> length parts"
  shows "ipv6_parts (join_with (CHR '':'') parts) = Some parts"
proof -
  have some: "parts \<noteq> []" using assms(2) by auto
  then have "split_on (CHR '':'') (join_with (CHR '':'') parts) = parts" using assms(1) by (intro split_join) auto
  moreover have "\<not> List.member (last parts) (CHR ''.'')" using assms(1) some by simp
  ultimately show ?thesis using assms(2) by (simp add: ipv6_parts_def Let_def)
qed

lemma hextets_read: "\<forall>d \<in> set ds. d < 65536 \<Longrightarrow> collect_options (map parse_hextet (map hex_text ds)) = Some ds"
  using collect_options_map [of ds "parse_hextet \<circ> hex_text" id] hextet_read_back by simp

lemma zero_digits: "map hex_text ds = pre @ replicate l ''0'' @ suf \<Longrightarrow>
  \<exists>a b. ds = a @ replicate l 0 @ b \<and> map hex_text a = pre \<and> map hex_text b = suf"
proof -
  assume m: "map hex_text ds = pre @ replicate l ''0'' @ suf"
  have inj: "hex_text d = ''0'' \<Longrightarrow> d = 0" for d
    using hex_text_value [of d] by (simp add: any_hex_value_def code_point_def)
  from m obtain a zs b where ds: "ds = a @ zs @ b" "map hex_text a = pre" "map hex_text zs = replicate l ''0''" "map hex_text b = suf"
    by (auto simp: map_eq_append_conv append_eq_map_conv)
  then have "length zs = l" by (metis length_map length_replicate)
  moreover have "\<forall>z \<in> set zs. z = 0"
    using ds(3) inj by (metis in_set_conv_nth length_map length_replicate nth_map nth_replicate)
  ultimately have "zs = replicate l 0" by (metis replicate_eqI)
  with ds show ?thesis by blast
qed

lemma ipv6_read_back:
  assumes n: "n < 2 ^ 128"
  shows "ipv6_number (address_text (Ipv6 n)) = Some n"
proof -
  let ?ds = "big_endian 65536 8 n"
  let ?hs = "map hex_text ?ds"
  have d: "\<forall>d \<in> set ?ds. d < 65536" by (rule big_endian_bound) simp
  have whole: "from_digits 65536 ?ds = n" using n by (simp add: from_big_endian)
  have len: "length ?hs = 8" by simp
  have plain: "\<forall>h \<in> set ?hs. hextet_text h" using hextet_text_hex by auto
  from compress_split [OF len] show ?thesis
  proof cases
    case 1
    have "ipv6_parts (join_with (CHR '':'') ?hs) = Some ?hs"
      by (rule parts_read) (use plain hextet_text_plain len in auto)
    with 1 layout_plain [OF len plain] hextets_read [OF d] whole show ?thesis
      by (simp add: ipv6_number_def)
  next
    case (2 pre suf l)
    have short: "length pre + l + length suf = 8" using arg_cong [OF 2(2), of length] by simp
    have gap: "\<forall>h \<in> set (pre @ suf). hextet_text h" using plain 2(2) by auto
    obtain a b where ab: "?ds = a @ replicate l 0 @ b" "map hex_text a = pre" "map hex_text b = suf"
      using zero_digits [OF 2(2)] by blast
    have small: "\<forall>d \<in> set a. d < 65536" "\<forall>d \<in> set b. d < 65536" using d ab(1) by auto
    have "3 \<le> length (gap_parts pre suf)" by (cases pre; cases suf) (simp_all add: gap_parts_def)
    then have "ipv6_parts (join_with (CHR '':'') (gap_parts pre suf)) = Some (gap_parts pre suf)"
      by (intro parts_read) (use gap hextet_text_plain in \<open>auto simp: gap_parts_def split: if_splits\<close>)
    moreover have "length (gap_parts pre suf) \<le> 9" using short 2(3) by (simp add: gap_parts_def)
    moreover have "8 - (length pre + length suf) = l" using short by simp
    ultimately show ?thesis
      using 2(1,3) layout_gap [OF gap] short gap_parts_ends [of pre suf] hextets_read [OF small(1)] hextets_read [OF small(2)]
        ab whole by (simp add: ipv6_number_def)
  qed
qed

lemma join_chars_of: "set (join_with c xs) \<subseteq> insert c (\<Union> (set ` set xs))"
  by (induction c xs rule: join_with.induct) auto

lemma compress_chars: "h \<in> set (compress_hextets hs) \<Longrightarrow> h = [] \<or> h \<in> set hs"
  by (auto simp: compress_hextets_def split: prod.splits if_splits dest: in_set_takeD in_set_dropD)

text \<open>The texts of addresses are told apart by the separator, so every address is read back.\<close>

theorem address_read_back:
  assumes "valid_address a"
  shows "ip_of_text (address_text a) = Some a"
proof (cases a)
  case (Ipv4 n)
  with assms ipv4_read_back [of n] show ?thesis by (simp add: ip_of_text_def)
next
  case (Ipv6 n)
  let ?t = "address_text a"
  have "CHR ''.'' \<notin> set h" if "h \<in> set (compress_hextets (map hex_text (big_endian 65536 8 n)))" for h
    using compress_chars [OF that] hextet_text_plain [OF hextet_text_hex] by auto
  then have "CHR ''.'' \<notin> set ?t"
    using join_chars_of [of "CHR '':''" "compress_hextets (map hex_text (big_endian 65536 8 n))"] Ipv6 by auto
  then have "ipv4_number ?t = None" by (simp add: ipv4_number_def split_on_sep)
  with ipv6_read_back [of n] assms Ipv6 show ?thesis by (simp add: ip_of_text_def)
qed

end
