(* ===== verification/Client_Address.thy ===== *)
theory Client_Address
  imports Ip_Address
begin

text \<open>
  \<^verbatim>\<open>EdgeRequestMetadata\<close> and \<^verbatim>\<open>TrustedProxyClientResolver\<close> of \<^verbatim>\<open>scripts/thebitlab_edge_rate_limit.py\<close>:
  which client a request is attributed to when it arrives through proxies.
\<close>

section \<open>Exceptions and requests\<close>

datatype edge_error = EdgeAttribution | EdgeExceeded int | EdgeUnavailable

fun edge_status :: "edge_error \<Rightarrow> nat" where
  "edge_status EdgeAttribution = 400"
| "edge_status (EdgeExceeded retry_after) = 429"
| "edge_status EdgeUnavailable = 503"

record edge_request =
  edge_peer :: string
  edge_headers :: "(string \<times> string) list"

definition edge_header :: "pyval \<times> pyval \<Rightarrow> (string \<times> string) option" where
  "edge_header item =
     (case item of
        (PyStr name, PyStr value) \<Rightarrow>
          if name = [] \<or> 128 < length name \<or> 8192 < utf8_length value \<or> list_ex is_control name then None
          else Some (name, value)
      | _ \<Rightarrow> None)"

text \<open>\<^verbatim>\<open>EdgeRequestMetadata.__post_init__\<close>\<close>

definition make_edge_request :: "pyval \<Rightarrow> (pyval \<times> pyval) list \<Rightarrow> edge_request option" where
  "make_edge_request peer headers =
     (case peer of
        PyStr p \<Rightarrow>
          if p = [] \<or> 128 < length p \<or> 128 < length headers then None
          else map_option (\<lambda>hs. \<lparr>edge_peer = p, edge_headers = hs\<rparr>) (collect_options (map edge_header headers))
      | _ \<Rightarrow> None)"

section \<open>Addresses and networks\<close>

text \<open>\<^verbatim>\<open>_address\<close>: an IPv4-mapped address is the IPv4 address.\<close>

definition unmapped :: "ip_address \<Rightarrow> ip_address" where
  "unmapped a =
     (case a of
        Ipv4 n \<Rightarrow> Ipv4 n
      | Ipv6 n \<Rightarrow> (case ipv4_mapped n of None \<Rightarrow> Ipv6 n | Some m \<Rightarrow> Ipv4 m))"

definition client_address :: "string \<Rightarrow> ip_address option" where
  "client_address s =
     (if s = [] \<or> List.member s (CHR ''%'') then None else map_option unmapped (ip_of_text s))"

definition mapped_base :: nat where
  "mapped_base = 0xFFFF * 2 ^ 32"

text \<open>
  \<^verbatim>\<open>network.subnet_of(IPv6Network("::ffff:0:0/96"))\<close>: the addresses are compared with their scope
  identifiers, the last addresses of the networks have none.
\<close>

definition in_mapped_space :: "nat \<Rightarrow> nat \<Rightarrow> bool \<Rightarrow> bool" where
  "in_mapped_space n p scoped \<longleftrightarrow>
     (mapped_base < n \<or> mapped_base = n \<and> \<not> scoped) \<and> n + 2 ^ (128 - p) \<le> mapped_base + 2 ^ 32"

definition overlaps_mapped_space :: "nat \<Rightarrow> nat \<Rightarrow> bool" where
  "overlaps_mapped_space n p \<longleftrightarrow>
     in_network (Ipv6 n) (Ipv6 mapped_base, 96) \<or> in_network (Ipv6 (n + 2 ^ (128 - p) - 1)) (Ipv6 mapped_base, 96) \<or>
     in_network (Ipv6 mapped_base) (Ipv6 n, p) \<or> in_network (Ipv6 (mapped_base + 2 ^ 32 - 1)) (Ipv6 n, p)"

text \<open>\<^verbatim>\<open>_network\<close>\<close>

definition trusted_network :: "string \<Rightarrow> ip_network option" where
  "trusted_network s =
     (case ip_network_of_text s of
        None \<Rightarrow> None
      | Some ((Ipv4 n, p), _) \<Rightarrow> Some (Ipv4 n, p)
      | Some ((Ipv6 n, p), scoped) \<Rightarrow>
          if in_mapped_space n p scoped
          then (case ipv4_mapped n of
                  None \<Rightarrow> None
                | Some m \<Rightarrow> if host_bits_clear 32 (m, p - 96) then Some (Ipv4 m, p - 96) else None)
          else if overlaps_mapped_space n p then None
          else Some (Ipv6 n, p))"

section \<open>The resolver\<close>

record resolver =
  res_networks :: "ip_network list"
  res_max_hops :: int
  res_max_header :: int

definition make_resolver :: "string list \<Rightarrow> pyval \<Rightarrow> pyval \<Rightarrow> resolver option" where
  "make_resolver cidrs max_hops max_header =
     (case (max_hops, max_header) of
        (PyInt hops, PyInt header) \<Rightarrow>
          if \<not> (1 \<le> hops \<and> hops \<le> 64) \<or> \<not> (128 \<le> header \<and> header \<le> 65536) then None
          else map_option (\<lambda>ns. \<lparr>res_networks = ns, res_max_hops = hops, res_max_header = header\<rparr>)
            (collect_options (map trusted_network cidrs))
      | _ \<Rightarrow> None)"

definition trusted :: "resolver \<Rightarrow> ip_address \<Rightarrow> bool" where
  "trusted r a \<longleftrightarrow> list_ex (in_network a) (res_networks r)"

text \<open>A request of another class is \<open>None\<close>.\<close>

definition is_trusted_peer :: "resolver \<Rightarrow> edge_request option \<Rightarrow> (edge_error, bool) result" where
  "is_trusted_peer r request =
     (case request of
        None \<Rightarrow> Inl EdgeAttribution
      | Some q \<Rightarrow>
          (case client_address (edge_peer q) of None \<Rightarrow> Inl EdgeAttribution | Some a \<Rightarrow> Inr (trusted r a)))"

text \<open>The \<^verbatim>\<open>while\<close> loop over the chain, which is given from its end.\<close>

fun walk_back :: "(ip_address \<Rightarrow> bool) \<Rightarrow> ip_address \<Rightarrow> ip_address list \<Rightarrow> ip_address" where
  "walk_back known a [] = a"
| "walk_back known a (b # bs) = (if known a then walk_back known b bs else a)"

definition header_values :: "string \<Rightarrow> edge_request \<Rightarrow> string list" where
  "header_values name q = map snd (filter (\<lambda>h. lower (fst h) = name) (edge_headers q))"

definition forwarded_chain :: "resolver \<Rightarrow> string \<Rightarrow> ip_address list option" where
  "forwarded_chain r raw =
     (let parts = split_on (CHR '','') raw
      in if res_max_header r < int (utf8_length raw) \<or> \<not> (1 \<le> length parts \<and> int (length parts) \<le> res_max_hops r)
         then None else collect_options (map (\<lambda>part. client_address (strip part)) parts))"

definition resolve_client :: "resolver \<Rightarrow> edge_request option \<Rightarrow> (edge_error, string) result" where
  "resolve_client r request =
     (case request of
        None \<Rightarrow> Inl EdgeAttribution
      | Some q \<Rightarrow>
          (case client_address (edge_peer q) of
             None \<Rightarrow> Inl EdgeAttribution
           | Some peer \<Rightarrow>
               if \<not> trusted r peer then Inr (address_text peer)
               else if header_values ''forwarded'' q \<noteq> [] then Inl EdgeAttribution
               else (case header_values ''x-forwarded-for'' q of
                   [] \<Rightarrow> Inr (address_text peer)
                 | [raw] \<Rightarrow>
                     (case forwarded_chain r raw of
                        None \<Rightarrow> Inl EdgeAttribution
                      | Some chain \<Rightarrow> Inr (address_text (walk_back (trusted r) peer (List.rev chain))))
                 | _ \<Rightarrow> Inl EdgeAttribution)))"

section \<open>Texts of clients\<close>

lemma from_digits_bound: "\<forall>d \<in> set ds. d < b \<Longrightarrow> from_digits b ds < b ^ length ds"
proof (induction ds rule: rev_induct)
  case Nil
  then show ?case by (simp add: from_digits_def)
next
  case (snoc d ds)
  then have "Suc (from_digits b ds) \<le> b ^ length ds" "d < b" by (simp_all add: Suc_le_eq)
  then have "b * Suc (from_digits b ds) \<le> b * b ^ length ds" "d < b" by (simp_all only: mult_le_mono2)
  then show ?case by (simp add: from_digits_snoc)
qed

lemma collected: "collect_options (map f xs) = Some ys \<Longrightarrow> length ys = length xs \<and> (\<forall>y \<in> set ys. \<exists>x \<in> set xs. f x = Some y)"
proof -
  assume "collect_options (map f xs) = Some ys"
  then have "map f xs = map Some ys" by (rule collect_options_values)
  then show ?thesis by (metis ex_map_conv length_map list.set_map image_iff)
qed

lemma octet_bound: "parse_octet s = Some n \<Longrightarrow> n < 256"
  by (auto simp: parse_octet_def split: if_splits)

lemma hextet_bound: "parse_hextet s = Some n \<Longrightarrow> n < 65536"
proof -
  assume p: "parse_hextet s = Some n"
  let ?v = "\<lambda>c. the (any_hex_value c)"
  have n: "n = from_digits 16 (map ?v s)" and len: "length s \<le> 4" and hex: "\<forall>c \<in> set s. any_hex_value c \<noteq> None"
    using p by (auto simp: parse_hextet_def from_digits_def foldl_map list_ex_iff split: if_splits)
  have "any_hex_value c = Some k \<Longrightarrow> k < 16" for c k by (auto simp: any_hex_value_def Let_def split: if_splits)
  then have "\<forall>d \<in> set (map ?v s). d < 16" using hex by auto
  from from_digits_bound [OF this] have "n < 16 ^ length s" by (simp add: n)
  also have "\<dots> \<le> 16 ^ 4" using len by (intro power_increasing) auto
  finally show ?thesis by simp
qed

lemma ip_text_valid: "ip_of_text s = Some a \<Longrightarrow> valid_address a"
proof -
  assume a: "ip_of_text s = Some a"
  show ?thesis
  proof (cases "ipv4_number s")
    case (Some n)
    then obtain ds where ds: "collect_options (map parse_octet (split_on (CHR ''.'') s)) = Some ds"
        "length (split_on (CHR ''.'') s) = 4" "n = from_digits 256 ds"
      by (auto simp: ipv4_number_def Let_def split: if_splits)
    have "\<forall>d \<in> set ds. d < 256" "length ds = 4" using collected [OF ds(1)] ds(2) octet_bound by auto
    from from_digits_bound [OF this(1)] this(2) Some a ds(3) show ?thesis by (auto simp: ip_of_text_def)
  next
    case None
    with a obtain n where n: "ipv6_number s = Some n" "a = Ipv6 n" by (auto simp: ip_of_text_def)
    then obtain parts hi skipped lo before after where lay: "ipv6_layout parts = Some (hi, skipped, lo)"
      and bf: "collect_options (map parse_hextet (take hi parts)) = Some before"
      and af: "collect_options (map parse_hextet (drop (length parts - lo) parts)) = Some after"
      and val: "n = from_digits 65536 (before @ replicate skipped 0 @ after)"
      by (auto simp: ipv6_number_def split: option.splits if_splits)
    have sum: "hi + skipped + lo = 8"
      using lay by (auto simp: ipv6_layout_def Let_def split: list.splits if_splits)
    have "length before \<le> hi" "length after \<le> lo" using collected [OF bf] collected [OF af] by auto
    then have len: "length (before @ replicate skipped 0 @ after) \<le> 8" using sum by simp
    have "\<forall>d \<in> set (before @ replicate skipped 0 @ after). d < 65536"
      using collected [OF bf] collected [OF af] hextet_bound by auto
    from from_digits_bound [OF this] have "n < 65536 ^ length (before @ replicate skipped 0 @ after)" by (simp add: val)
    also have "\<dots> \<le> 65536 ^ 8" using len by (intro power_increasing) auto
    finally show ?thesis using n(2) by simp
  qed
qed

lemma unmapped_valid: "valid_address a \<Longrightarrow> valid_address (unmapped a)"
  by (auto simp: unmapped_def ipv4_mapped_def split: ip_address.splits if_splits)

lemma unmapped_idem: "unmapped (unmapped a) = unmapped a"
  by (auto simp: unmapped_def split: ip_address.splits option.splits)

lemma address_text_clean: "valid_address a \<Longrightarrow> address_text a \<noteq> [] \<and> CHR ''%'' \<notin> set (address_text a)"
proof (cases a)
  case (Ipv4 n)
  have "CHR ''%'' \<notin> set (decimal d)" for d
    using decimal_shape(2) [of d] by (auto simp: list_all_iff decimal_digit_def code_point_def)
  moreover have "join_with c (x # xs) \<noteq> []" if "x \<noteq> []" for c x and xs :: "string list" using that by (cases xs) simp_all
  moreover have "big_endian 256 4 n \<noteq> []" by (metis length_big_endian list.size(3) zero_neq_numeral)
  ultimately show ?thesis
    using join_chars_of [of "CHR ''.''" "map decimal (big_endian 256 4 n)"] Ipv4 decimal_shape(1)
    by (cases "big_endian 256 4 n") auto
next
  case (Ipv6 n)
  have "any_hex_value (CHR ''%'') = None" by code_simp
  then have "CHR ''%'' \<notin> set h" if "h \<in> set (compress_hextets (map hex_text (big_endian 65536 8 n)))" for h
    using compress_chars [OF that] hextet_text_hex unfolding hextet_text_def by (metis emptyE image_iff list.set(1) list.set_map)
  moreover have "ipv6_number [] = None" by code_simp
  moreover assume "valid_address a"
  ultimately show ?thesis
    using join_chars_of [of "CHR '':''" "compress_hextets (map hex_text (big_endian 65536 8 n))"] Ipv6
      ipv6_read_back [of n] by auto
qed

lemma client_address_valid: "client_address s = Some a \<Longrightarrow> valid_address a \<and> unmapped a = a"
  using ip_text_valid unmapped_valid unmapped_idem by (auto simp: client_address_def split: if_splits)

lemma client_text_read_back: "valid_address a \<Longrightarrow> unmapped a = a \<Longrightarrow> client_address (address_text a) = Some a"
  using address_text_clean [of a] address_read_back [of a] by (simp add: client_address_def)

section \<open>Who the client is\<close>

text \<open>The addresses a request went through, the last one is the direct peer.\<close>

definition hops :: "resolver \<Rightarrow> edge_request \<Rightarrow> ip_address list option" where
  "hops r q =
     (case (client_address (edge_peer q), header_values ''x-forwarded-for'' q) of
        (Some peer, []) \<Rightarrow> Some [peer]
      | (Some peer, [raw]) \<Rightarrow> map_option (\<lambda>chain. chain @ [peer]) (forwarded_chain r raw)
      | _ \<Rightarrow> None)"

lemma walk_back_split:
  "\<exists>before after. List.rev as @ [a] = before @ walk_back known a as # after \<and> list_all known after \<and>
     (before = [] \<or> \<not> known (walk_back known a as))"
proof (induction as arbitrary: a)
  case Nil
  show ?case by (rule exI [of _ "[]"], rule exI [of _ "[]"]) simp
next
  case (Cons b bs)
  show ?case
  proof (cases "known a")
    case True
    obtain before after where "List.rev bs @ [b] = before @ walk_back known b bs # after" "list_all known after"
        "before = [] \<or> \<not> known (walk_back known b bs)" using Cons.IH by blast
    with True show ?thesis by (intro exI [of _ before] exI [of _ "after @ [a]"]) simp
  next
    case False
    then show ?thesis by (intro exI [of _ "List.rev bs @ [b]"] exI [of _ "[]"]) simp
  qed
qed

lemma walk_back_stops: "walk_back known a as = x \<Longrightarrow> \<not> known x \<Longrightarrow> walk_back known a (as @ further) = x"
proof (induction known a as rule: walk_back.induct)
  case (1 known a)
  then show ?case by (cases further) simp_all
qed (simp split: if_splits)

lemma split_on_not_Nil: "split_on c s \<noteq> []"
  by (induction s) (auto split: list.splits)

lemma split_on_append: "split_on c (s @ c # r) = split_on c s @ split_on c r"
  using split_on_not_Nil [of c] by (induction s) (auto split: list.splits)

lemma collect_options_append:
  "collect_options (xs @ ys) = Some zs \<Longrightarrow> \<exists>as bs. zs = as @ bs \<and> collect_options ys = Some bs"
proof (induction xs arbitrary: zs)
  case (Cons x xs)
  then obtain y vs where v: "x = Some y" "collect_options (xs @ ys) = Some vs" "zs = y # vs" by (cases x) auto
  from Cons.IH [OF v(2)] v(3) show ?case by (metis append_Cons)
qed simp

lemma forwarded_suffix:
  "forwarded_chain r raw = Some chain \<Longrightarrow> forwarded_chain r (spoof @ CHR '','' # raw) = Some chain' \<Longrightarrow>
    \<exists>further. chain' = further @ chain"
  by (auto simp: forwarded_chain_def Let_def split_on_append split: if_splits dest!: collect_options_append)

lemma walk_back_in: "walk_back known a as \<in> set (a # as)"
  by (induction known a as rule: walk_back.induct) auto

lemma chain_clean:
  "forwarded_chain r raw = Some chain \<Longrightarrow> a \<in> set chain \<Longrightarrow> valid_address a \<and> unmapped a = a"
  using client_address_valid by (fastforce simp: forwarded_chain_def Let_def split: if_splits dest!: collected)

text \<open>C21. The client of a request is the nearest address that no trusted proxy vouches for: when the
  resolver answers, either the direct peer is not trusted and is the client, or the client is the
  last address of the forwarded chain and the peer after which all are trusted proxies, and it is
  itself untrusted unless it is the first; and its canonical text is read back as that address.\<close>

theorem client_is_nearest_untrusted:
  assumes "resolve_client r (Some q) = Inr t"
  shows "\<exists>a peer. client_address t = Some a \<and> t = address_text a \<and> client_address (edge_peer q) = Some peer \<and>
    (if trusted r peer
     then \<exists>before after. hops r q = Some (before @ a # after) \<and> list_all (trusted r) after \<and> (before = [] \<or> \<not> trusted r a)
     else a = peer)"
proof -
  obtain peer where peer: "client_address (edge_peer q) = Some peer"
    using assms by (auto simp: resolve_client_def split: option.splits)
  note clean = client_address_valid [OF peer]
  have read: "client_address (address_text a) = Some a" if "valid_address a \<and> unmapped a = a" for a
    using client_text_read_back that by blast
  show ?thesis
  proof (cases "trusted r peer")
    case False
    with assms peer have "t = address_text peer" by (simp add: resolve_client_def)
    with read [OF clean] peer False show ?thesis by auto
  next
    case True
    show ?thesis
    proof (cases "header_values ''x-forwarded-for'' q")
      case Nil
      with assms peer True have "t = address_text peer" by (simp add: resolve_client_def split: if_splits)
      moreover have "hops r q = Some ([] @ peer # [])" using Nil peer by (simp add: hops_def)
      ultimately show ?thesis using read [OF clean] peer True
        by (intro exI [of _ peer]) (auto intro!: exI [of _ "[]"])
    next
      case (Cons raw rest)
      with assms peer True obtain chain where ch: "rest = []" "forwarded_chain r raw = Some chain"
          "t = address_text (walk_back (trusted r) peer (List.rev chain))"
        by (auto simp: resolve_client_def split: list.splits option.splits if_splits)
      let ?a = "walk_back (trusted r) peer (List.rev chain)"
      have "valid_address ?a \<and> unmapped ?a = ?a"
        using walk_back_in [of "trusted r" peer "List.rev chain"] clean chain_clean [OF ch(2)] by auto
      moreover have "hops r q = Some (chain @ [peer])" using Cons ch peer by (simp add: hops_def)
      ultimately show ?thesis
        using walk_back_split [of "List.rev chain" peer "trusted r"] ch(3) read peer True by auto
    qed
  qed
qed

text \<open>C22. A client cannot choose who it is: whatever a client writes in front of the chain that the proxies
  append, the request is attributed to the same address or refused, once the answer is an
  address that is not a trusted proxy.\<close>

theorem spoofed_prefix_is_ignored:
  assumes "resolve_client r (Some \<lparr>edge_peer = p, edge_headers = before @ (n, raw) # after\<rparr>) = Inr t"
    and "lower n = ''x-forwarded-for''" "client_address t = Some a" "\<not> trusted r a"
  shows "resolve_client r (Some \<lparr>edge_peer = p, edge_headers = before @ (n, spoof @ CHR '','' # raw) # after\<rparr>) \<in>
    {Inr t, Inl EdgeAttribution}"
proof -
  let ?q = "\<lambda>raw. \<lparr>edge_peer = p, edge_headers = before @ (n, raw) # after\<rparr>"
  obtain peer where peer: "client_address p = Some peer"
    using assms(1) by (auto simp: resolve_client_def split: option.splits)
  show ?thesis
  proof (cases "trusted r peer")
    case False
    with assms(1) peer show ?thesis by (simp add: resolve_client_def)
  next
    case True
    have vals: "header_values ''x-forwarded-for'' (?q v) =
        header_values ''x-forwarded-for'' \<lparr>edge_peer = p, edge_headers = before\<rparr> @ v #
        header_values ''x-forwarded-for'' \<lparr>edge_peer = p, edge_headers = after\<rparr>"
      "header_values ''forwarded'' (?q v) = header_values ''forwarded'' \<lparr>edge_peer = p, edge_headers = before @ after\<rparr>" for v
      using assms(2) by (simp_all add: header_values_def)
    obtain chain where one: "header_values ''x-forwarded-for'' \<lparr>edge_peer = p, edge_headers = before\<rparr> = []"
        "header_values ''x-forwarded-for'' \<lparr>edge_peer = p, edge_headers = after\<rparr> = []"
        "header_values ''forwarded'' \<lparr>edge_peer = p, edge_headers = before @ after\<rparr> = []"
      and ch: "forwarded_chain r raw = Some chain" "t = address_text (walk_back (trusted r) peer (List.rev chain))"
      using assms(1) peer True
      by (auto simp: resolve_client_def vals append_eq_Cons_conv split: list.splits option.splits if_splits)
    let ?a = "walk_back (trusted r) peer (List.rev chain)"
    have "valid_address ?a \<and> unmapped ?a = ?a"
      using walk_back_in [of "trusted r" peer "List.rev chain"] client_address_valid [OF peer] chain_clean [OF ch(1)] by auto
    then have "?a = a" using client_text_read_back assms(3) ch(2) by simp
    then have stop: "walk_back (trusted r) peer (List.rev chain @ further) = ?a" for further
      using assms(4) walk_back_stops by blast
    have "forwarded_chain r (spoof @ CHR '','' # raw) = Some chain' \<Longrightarrow> \<exists>further. chain' = further @ chain" for chain'
      using ch(1) forwarded_suffix by blast
    then show ?thesis
      using peer True one ch(2) stop
      by (auto simp: resolve_client_def vals split: option.splits)
  qed
qed

end
