(* ===== verification/Edge_Login.thy ===== *)
theory Edge_Login
  imports Client_Address Edge_Rate_Limit
begin

text \<open>
  \<^verbatim>\<open>GoogleOidcLoginAdmissionBoundary\<close> of \<^verbatim>\<open>scripts/thebitlab_edge_rate_limit.py\<close>: a login is started
  only when the client it is attributed to and the route are within their limits.
\<close>

section \<open>The boundary\<close>

datatype 'e login_error = FromEdge edge_error | FromLogin 'e

text \<open>
  \<open>lb_admit\<close> is the atomic store, \<open>lb_login\<close> the login behind the boundary; it returns \<open>None\<close> for an
  object that is no \<^verbatim>\<open>GoogleAuthorizationRequest\<close>.
\<close>

record ('s, 'e, 'r) login_boundary =
  lb_login :: "('s, 'e, 'r option) action"
  lb_admit :: "rate_bucket list \<Rightarrow> pyval \<Rightarrow> ('s, rate_error, int option) action"
  lb_resolver :: resolver
  lb_hash :: hashing
  lb_pepper :: "nat list"
  lb_route :: string
  lb_global :: rate_rule
  lb_client :: rate_rule
  lb_clock :: "'s source"

text \<open>The checks of \<^verbatim>\<open>__init__\<close>; \<open>None\<close> is a rule of another class.\<close>

definition login_settings ::
  "pyval \<Rightarrow> pyval \<Rightarrow> rate_rule option \<Rightarrow> rate_rule option \<Rightarrow> (nat list \<times> string \<times> rate_rule \<times> rate_rule) option"
where
  "login_settings pepper route global_rule client_rule =
     (case (pepper, route, global_rule, client_rule) of
        (PyBytes k, PyStr t, Some g, Some c) \<Rightarrow>
          if \<not> route_text t \<or> length k < 32 then None else Some (k, t, g, c)
      | _ \<Rightarrow> None)"

definition client_key :: "('s, 'e, 'r) login_boundary \<Rightarrow> string \<Rightarrow> string" where
  "client_key b ip = ''hmac-sha256:'' @ hmac_sha256_hex (lb_hash b) (lb_pepper b) (lb_route b @ [CHR 0x00] @ ip)"

definition global_key :: "('s, 'e, 'r) login_boundary \<Rightarrow> string" where
  "global_key b = ''global:'' @ lb_route b @ '':'' @ rule_name (lb_global b)"

definition login_buckets :: "('s, 'e, 'r) login_boundary \<Rightarrow> string \<Rightarrow> rate_bucket list option" where
  "login_buckets b ip =
     collect_options
       [make_rate_bucket (PyStr (global_key b)) (PyInt (rule_limit (lb_global b))) (PyInt (rule_window (lb_global b))),
        make_rate_bucket (PyStr (client_key b ip)) (PyInt (rule_limit (lb_client b))) (PyInt (rule_window (lb_client b)))]"

definition edge_clock :: "('s, 'e, 'r) login_boundary \<Rightarrow> ('s, rate_error, instant) action" where
  "edge_clock b s = (case lb_clock b s of (v, t) \<Rightarrow> (rate_utc v, t))"

definition begin_login :: "('s, 'e, 'r) login_boundary \<Rightarrow> edge_request option \<Rightarrow> ('s, 'e login_error, 'r) action" where
  "begin_login b request =
     (case resolve_client (lb_resolver b) request of
        Inl e \<Rightarrow> raise_act (FromEdge e)
      | Inr ip \<Rightarrow>
          try_act (edge_clock b) (\<lambda>_. raise_act (FromEdge EdgeUnavailable)) (\<lambda>now.
            case login_buckets b ip of
              None \<Rightarrow> raise_act (FromEdge EdgeUnavailable)
            | Some buckets \<Rightarrow>
                try_act (lb_admit b buckets (utc_datetime now)) (\<lambda>_. raise_act (FromEdge EdgeUnavailable)) (\<lambda>retry_after.
                  case retry_after of
                    Some n \<Rightarrow> raise_act (FromEdge (if n < 1 then EdgeUnavailable else EdgeExceeded n))
                  | None \<Rightarrow>
                      try_act (lb_login b) (\<lambda>e. raise_act (FromLogin e)) (\<lambda>result.
                        case result of
                          None \<Rightarrow> raise_act (FromEdge EdgeUnavailable)
                        | Some r \<Rightarrow> return_act r))))"

section \<open>The boundary on an admission store\<close>

text \<open>The counters, and everything else the clock and the login use.\<close>

record ('st, 'm) edge_world =
  ew_store :: 'st
  ew_rest :: 'm

definition on_rest :: "('m, 'e, 'a) action \<Rightarrow> (('st, 'm) edge_world, 'e, 'a) action" where
  "on_rest m w = (case m (ew_rest w) of (r, t) \<Rightarrow> (r, w\<lparr>ew_rest := t\<rparr>))"

definition on_store ::
  "('st \<Rightarrow> rate_bucket list \<Rightarrow> pyval \<Rightarrow> 'st admission) \<Rightarrow> rate_bucket list \<Rightarrow> pyval \<Rightarrow>
   (('st, 'm) edge_world, rate_error, int option) action"
where
  "on_store admit buckets now w = (case admit (ew_store w) buckets now of (r, t) \<Rightarrow> (r, w\<lparr>ew_store := t\<rparr>))"

definition stored_boundary ::
  "('st \<Rightarrow> rate_bucket list \<Rightarrow> pyval \<Rightarrow> 'st admission) \<Rightarrow> 'm source \<Rightarrow> ('m, 'e, 'r option) action \<Rightarrow>
   resolver \<Rightarrow> hashing \<Rightarrow> nat list \<Rightarrow> string \<Rightarrow> rate_rule \<Rightarrow> rate_rule \<Rightarrow> (('st, 'm) edge_world, 'e, 'r) login_boundary"
where
  "stored_boundary admit clock login r h pepper route global_rule client_rule =
     \<lparr>lb_login = on_rest login, lb_admit = on_store admit, lb_resolver = r, lb_hash = h, lb_pepper = pepper,
      lb_route = route, lb_global = global_rule, lb_client = client_rule,
      lb_clock = (\<lambda>w. case clock (ew_rest w) of (v, t) \<Rightarrow> (v, w\<lparr>ew_rest := t\<rparr>))\<rparr>"

text \<open>The windows of the client bucket in which the logins of a history were started.\<close>

definition client_window :: "(('st, 'm) edge_world, 'e, 'r) login_boundary \<Rightarrow> ('st \<Rightarrow> rat option) \<Rightarrow> string \<Rightarrow> 'st \<Rightarrow> rate_key" where
  "client_window b high ip st =
     bucket_key (the (high st)) \<lparr>bkt_key = client_key b ip, bkt_limit = rule_limit (lb_client b), bkt_window = rule_window (lb_client b)\<rparr>"

fun started_logins ::
  "(('st, 'm) edge_world, 'e, 'r) login_boundary \<Rightarrow> ('st \<Rightarrow> rat option) \<Rightarrow> edge_request option list \<Rightarrow>
   ('st, 'm) edge_world \<Rightarrow> rate_key list"
where
  "started_logins b high [] w = []"
| "started_logins b high (q # qs) w =
     (case begin_login b q w of
        (r, t) \<Rightarrow>
          (case (r, resolve_client (lb_resolver b) q) of
             (Inr x, Inr ip) \<Rightarrow> [client_window b high ip (ew_store t)]
           | _ \<Rightarrow> []) @ started_logins b high qs t)"

section \<open>The limit of a client\<close>

lemma login_buckets_Some:
  assumes "login_buckets b ip = Some buckets"
  shows "buckets =
      [\<lparr>bkt_key = global_key b, bkt_limit = rule_limit (lb_global b), bkt_window = rule_window (lb_global b)\<rparr>,
       \<lparr>bkt_key = client_key b ip, bkt_limit = rule_limit (lb_client b), bkt_window = rule_window (lb_client b)\<rparr>] \<and>
    list_all valid_bucket buckets"
  using assms by (auto simp: login_buckets_def make_rate_bucket_def Let_def split: if_splits)

context rate_limiter
begin

lemma begin_login_room:
  assumes b: "b = stored_boundary admit clock login r h pepper route g c"
    and run: "begin_login b q w = (res, t)" and k: "k = (client_key b ip, rule_window c, n)"
  shows "int (count_list (case (res, resolve_client r q) of
        (Inr x, Inr i) \<Rightarrow> [client_window b high i (ew_store t)] | _ \<Rightarrow> []) k) + room (ew_store t) k (rule_limit c) \<le>
      room (ew_store w) k (rule_limit c)"
proof (cases "ew_store t = ew_store w \<and> (\<forall>x. res \<noteq> Inr x)")
  case True
  then show ?thesis by (auto split: sum.splits)
next
  case False
  have fields: "lb_resolver b = r" "lb_client b = c" "lb_admit b = on_store admit" "lb_login b = on_rest login"
    by (simp_all add: b stored_boundary_def)
  have clock: "edge_clock b v = (x, v') \<Longrightarrow> ew_store v' = ew_store v" for v x v'
    by (auto simp: edge_clock_def b stored_boundary_def split: prod.splits)
  have login: "on_rest login v = (x, v') \<Longrightarrow> ew_store v' = ew_store v" for v x v'
    by (auto simp: on_rest_def split: prod.splits)
  from run False obtain i now w1 buckets ans w2 where i: "resolve_client r q = Inr i"
    and cl: "edge_clock b w = (Inr now, w1)" and bk: "login_buckets b i = Some buckets"
    and ad: "lb_admit b buckets (utc_datetime now) w1 = (ans, w2)" and after: "ew_store t = ew_store w2"
    and ok: "\<forall>x. res = Inr x \<longrightarrow> ans = Inr None"
    unfolding begin_login_def fields
    by (auto simp: try_act_def raise_act_def return_act_def split: sum.splits prod.splits option.splits dest: clock login)
  have st: "admit (ew_store w) buckets (utc_datetime now) = (ans, ew_store t)"
    using ad clock [OF cl] after by (auto simp: fields on_store_def split: prod.splits)
  note form = login_buckets_Some [OF bk, unfolded fields]
  show ?thesis
  proof (cases "ans = Inr None")
    case True
    have "global_key b \<noteq> client_key b j" for j by (simp add: global_key_def client_key_def)
    then have "int (count_list (map (bucket_key (the (high (ew_store t)))) buckets) k) + room (ew_store t) k (rule_limit c) \<le>
        room (ew_store w) k (rule_limit c)"
      using form k by (intro room_granted [OF st [unfolded True]]) auto
    moreover have "count_list (case (res, resolve_client r q) of
        (Inr x, Inr i) \<Rightarrow> [client_window b high i (ew_store t)] | _ \<Rightarrow> []) k \<le>
        count_list (map (bucket_key (the (high (ew_store t)))) buckets) k"
      using form i by (auto simp: client_window_def fields split: sum.splits)
    ultimately show ?thesis by linarith
  next
    case False
    with ok have "\<forall>x. res \<noteq> Inr x" by blast
    with room_refused [OF st False, of k "rule_limit c"] show ?thesis by (auto split: sum.splits)
  qed
qed

lemma started_within_room:
  assumes "b = stored_boundary admit clock login r h pepper route g c" "k = (client_key b ip, rule_window c, n)"
  shows "int (count_list (started_logins b high qs w) k) \<le> room (ew_store w) k (rule_limit c)"
proof (induction qs arbitrary: w)
  case Nil
  then show ?case by (simp add: room_def)
next
  case (Cons q qs)
  obtain res t where run: "begin_login b q w = (res, t)" by fastforce
  have "lb_resolver b = r" by (simp add: assms(1) stored_boundary_def)
  with begin_login_room [OF assms(1) run assms(2)] Cons.IH [of t] run show ?case by simp
qed

end

text \<open>C23. No client gets more logins than its limit: in any history of requests that begins with an empty
  store, whatever the headers, the clock and the login behind the boundary do, at most as many
  logins are started in one window for the requests that are attributed to the same client as the
  client rule allows; with the in-memory store and with the SQLite store, whatever SQLite refuses.\<close>

theorem client_logins_are_limited:
  assumes "b = stored_boundary (memory_admit cap) clock login r h pepper route g c \<or>
      b = stored_boundary (sqlite_admit cap fault) clock login r h pepper route g c"
    and "0 \<le> rule_limit c" "ew_store w = empty_store"
  shows "int (count_list (started_logins b rs_high qs w) (client_key b ip, rule_window c, n)) \<le> rule_limit c"
  using assms(1)
proof
  assume b: "b = stored_boundary (memory_admit cap) clock login r h pepper route g c"
  from memory_store.started_within_room [OF this refl, where ip = ip and n = n and qs = qs and w = w] assms(2,3) show ?thesis
    by (simp add: memory_store.room_def empty_store_def counter_of_def)
next
  assume b: "b = stored_boundary (sqlite_admit cap fault) clock login r h pepper route g c"
  from sqlite_store.started_within_room [OF this refl, where ip = ip and n = n and qs = qs and w = w] assms(2,3) show ?thesis
    by (simp add: sqlite_store.room_def empty_store_def counter_of_def)
qed

end
