(* ===== verification/Sample_Edge.thy ===== *)
theory Sample_Edge
  imports Edge_Login Sample_School "HOL-Library.Code_Target_Nat"
begin

text \<open>The properties of client attribution and of the login limits on concrete inputs.\<close>

definition proxy_resolver :: resolver where
  "proxy_resolver = \<lparr>res_networks = [(Ipv4 0x0A000000, 8)], res_max_hops = 16, res_max_header = 4096\<rparr>"

lemma proxy_resolver_made:
  "make_resolver [''10.0.0.0/8''] (PyInt 16) (PyInt 4096) = Some proxy_resolver"
  "make_resolver [''::ffff:10.0.0.0/104''] (PyInt 16) (PyInt 4096) = Some proxy_resolver"
  "make_resolver [''10.0.0.1/8''] (PyInt 16) (PyInt 4096) = None"
  "make_resolver [''::/0''] (PyInt 16) (PyInt 4096) = None"
  by code_simp+

definition proxied :: "string \<Rightarrow> edge_request" where
  "proxied raw = \<lparr>edge_peer = ''10.0.0.1'', edge_headers = [(''Host'', ''lab''), (''X-Forwarded-For'', raw)]\<rparr>"

definition client_chain :: string where
  "client_chain = ''203.0.113.9, ::ffff:10.0.0.7''"

lemma client_resolved: "resolve_client proxy_resolver (Some (proxied client_chain)) = Inr ''203.0.113.9''"
  by code_simp

theorem client_is_nearest_untrusted_witness:
  "\<exists>a. client_address ''203.0.113.9'' = Some a \<and> ''203.0.113.9'' = address_text a \<and>
    (\<exists>before after. hops proxy_resolver (proxied client_chain) = Some (before @ a # after) \<and> list_all (trusted proxy_resolver) after)"
proof -
  have peer: "client_address (edge_peer (proxied client_chain)) = Some (Ipv4 0x0A000001)" "trusted proxy_resolver (Ipv4 0x0A000001)"
    by code_simp+
  from client_is_nearest_untrusted [OF client_resolved] peer show ?thesis by auto
qed

theorem spoofed_prefix_is_ignored_witness:
  "resolve_client proxy_resolver (Some (proxied (''198.51.100.7'' @ CHR '','' # client_chain))) \<in>
    {Inr ''203.0.113.9'', Inl EdgeAttribution}"
proof -
  have "lower ''X-Forwarded-For'' = ''x-forwarded-for''" "client_address ''203.0.113.9'' = Some (Ipv4 0xCB007109)"
    "\<not> trusted proxy_resolver (Ipv4 0xCB007109)" by code_simp+
  from spoofed_prefix_is_ignored [of proxy_resolver "''10.0.0.1''" "[(''Host'', ''lab'')]" "''X-Forwarded-For''" client_chain "[]"
      "''203.0.113.9''", OF _ this, where spoof = "''198.51.100.7''"] client_resolved
  show ?thesis by (simp add: proxied_def)
qed

definition login_rule :: "string \<Rightarrow> int \<Rightarrow> rate_rule" where
  "login_rule name limit = \<lparr>rule_name = name, rule_limit = limit, rule_window = 60\<rparr>"

lemma login_rule_made:
  "make_rate_rule (PyStr ''client'') (PyInt 10) 60000000 = Some (login_rule ''client'' 10)"
  "login_settings (PyBytes (replicate 32 7)) (PyStr ''auth.google.login'') (Some (login_rule ''global'' 120))
     (Some (login_rule ''client'' 10)) = Some (replicate 32 7, ''auth.google.login'', login_rule ''global'' 120, login_rule ''client'' 10)"
  by code_simp+

text \<open>Every login works; the clock ticks a second per call.\<close>

definition login_boundary_sample :: "((rate_store, nat) edge_world, edge_error, string) login_boundary" where
  "login_boundary_sample = stored_boundary (memory_admit 100) (\<lambda>n. (utc_datetime (unix_epoch + int n * 1000000), Suc n))
     (return_act (Some ''https'')) proxy_resolver same_hash (replicate 32 7) ''auth.google.login''
     (login_rule ''global'' 120) (login_rule ''client'' 1)"

theorem client_logins_are_limited_witness:
  "int (count_list (started_logins login_boundary_sample rs_high
      [Some (proxied client_chain), Some (proxied (''198.51.100.7,'' @ client_chain))] \<lparr>ew_store = empty_store, ew_rest = 0\<rparr>)
      (client_key login_boundary_sample ''203.0.113.9'', 60, 0)) \<le> 1"
  using client_logins_are_limited [OF disjI1 [OF login_boundary_sample_def],
      of "\<lparr>ew_store = empty_store, ew_rest = 0\<rparr>" "[Some (proxied client_chain), Some (proxied (''198.51.100.7,'' @ client_chain))]"
        "''203.0.113.9''" 0]
  by (simp add: login_rule_def del: started_logins.simps)

end
