(* ===== verification/Help_Policy.thy ===== *)
theory Help_Policy
  imports Py_Json
begin

text \<open>
  The pure part of \<^verbatim>\<open>scripts/student_help_service.py\<close> and \<^verbatim>\<open>scripts/student_support_policy.py\<close>: support
  modes, the decision on a help request, the budget of AI requests, and the checks of what a
  provider answers. Dictionaries are JSON objects.
\<close>

type_synonym members = "(string \<times> json) list"

section \<open>Python values as texts\<close>

definition hex_escape :: "nat \<Rightarrow> string" where
  "hex_escape n = [CHR 0x5C, CHR ''x'', hex_char (n div 16), hex_char (n mod 16)]"

text \<open>\<^verbatim>\<open>repr\<close> of a text: apostrophes around it unless it has some and no quotation marks.\<close>

definition repr_char :: "char \<Rightarrow> char \<Rightarrow> string" where
  "repr_char quote c =
     (let n = code_point c
      in if c = quote \<or> n = 92 then [CHR 0x5C, c]
         else if n = 9 then [CHR 0x5C, CHR ''t'']
         else if n = 10 then [CHR 0x5C, CHR ''n'']
         else if n = 13 then [CHR 0x5C, CHR ''r'']
         else if n < 32 \<or> 127 \<le> n \<and> n \<le> 160 \<or> n = 173 then hex_escape n
         else [c])"

definition repr_text :: "string \<Rightarrow> string" where
  "repr_text s =
     (let quote = (if List.member s (CHR 0x27) \<and> \<not> List.member s (CHR 0x22) then CHR 0x22 else CHR 0x27)
      in quote # concat (map (repr_char quote) s) @ [quote])"

fun comma_list :: "string list \<Rightarrow> string" where
  "comma_list [] = []"
| "comma_list [x] = x"
| "comma_list (x # y # xs) = x @ '', '' @ comma_list (y # xs)"

fun py_repr :: "json \<Rightarrow> string" where
  "py_repr JNull = ''None''"
| "py_repr (JBool b) = (if b then ''True'' else ''False'')"
| "py_repr (JInt n) = int_text n"
| "py_repr (JStr s) = repr_text s"
| "py_repr (JList xs) = CHR ''['' # comma_list (map py_repr xs) @ [CHR '']'']"
| "py_repr (JObj ms) = CHR ''{'' # comma_list (map (\<lambda>(k, v). repr_text k @ '': '' @ py_repr v) ms) @ [CHR ''}'']"

definition py_str :: "json \<Rightarrow> string" where
  "py_str v = (case v of JStr s \<Rightarrow> s | _ \<Rightarrow> py_repr v)"

text \<open>\<^verbatim>\<open>clean_text\<close>: \<^verbatim>\<open>str(value or "").strip()\<close>\<close>

definition cleaned :: "json \<Rightarrow> string" where
  "cleaned v = (if truthy v then strip (py_str v) else [])"

lemma cleaned_text [simp]: "cleaned (JStr s) = strip s"
  by (cases s) (simp_all add: cleaned_def py_str_def)

text \<open>\<^verbatim>\<open>int\<close> of a text: a sign, then digits with single underscores between them.\<close>

definition digit_text :: "char \<Rightarrow> bool" where
  "digit_text c \<longleftrightarrow> 48 \<le> code_point c \<and> code_point c \<le> 57"

fun grouped_digits :: "string \<Rightarrow> string option" where
  "grouped_digits [] = None"
| "grouped_digits [c] = (if digit_text c then Some [c] else None)"
| "grouped_digits (c # d # cs) =
     (if \<not> digit_text c then None
      else if d = CHR ''_'' then map_option ((#) c) (grouped_digits cs)
      else map_option ((#) c) (grouped_digits (d # cs)))"

definition int_of_text :: "string \<Rightarrow> int option" where
  "int_of_text s =
     (let t = strip s; negative = (take 1 t = ''-''); body = (if take 1 t = ''-'' \<or> take 1 t = ''+'' then drop 1 t else t)
      in case grouped_digits body of
           None \<Rightarrow> None
         | Some ds \<Rightarrow>
             if 4300 < length ds then None
             else let n = foldl (\<lambda>m c. 10 * m + (int (code_point c) - 48)) 0 ds in Some (if negative then - n else n))"

text \<open>\<^verbatim>\<open>positive_int(value)\<close> with the default 0\<close>

definition positive_int :: "json \<Rightarrow> int" where
  "positive_int v =
     (let n = (case v of JInt n \<Rightarrow> n | JBool b \<Rightarrow> if b then 1 else 0 | JStr s \<Rightarrow> (case int_of_text s of None \<Rightarrow> 0 | Some n \<Rightarrow> n) | _ \<Rightarrow> 0)
      in max 0 n)"

section \<open>Support modes\<close>

definition jtexts :: "string list \<Rightarrow> json" where
  "jtexts xs = JList (map JStr xs)"

definition mode_policy :: "string \<Rightarrow> string \<Rightarrow> string \<Rightarrow> string list \<Rightarrow> string list \<Rightarrow> bool \<Rightarrow> bool \<Rightarrow> bool \<Rightarrow> int \<Rightarrow> members" where
  "mode_policy mode label summary allowed not_allowed ai theory debug limit =
     [(''mode'', JStr mode), (''label'', JStr label), (''summary'', JStr summary), (''allowed'', jtexts allowed),
      (''not_allowed'', jtexts not_allowed), (''ai_allowed'', JBool ai), (''theory_allowed'', JBool theory),
      (''debug_allowed'', JBool debug), (''ai_request_limit'', JInt limit)]"

text \<open>\<^verbatim>\<open>SUPPORT_POLICIES\<close>\<close>

definition support_policies :: "(string \<times> members) list" where
  "support_policies =
    [(''senza-aiuto'', mode_policy ''senza-aiuto'' ''Senza aiuto''
       ''Lavora in autonomia: il sistema mostra consegna, workspace e risultati dei test.''
       [''consultare consegna e file assegnati'', ''eseguire test se previsti'', ''vedere esito deterministico'']
       [''aiuto AI'', ''suggerimenti sugli errori'', ''richiami teorici generati''] False False False 0),
     (''feedback-tecnico'', mode_policy ''feedback-tecnico'' ''Feedback tecnico''
       ''Puoi usare errori, output e risultati dei test per capire cosa correggere.''
       [''messaggi di compilazione'', ''errori runtime'', ''test falliti'', ''stdout e stderr'']
       [''soluzioni complete'', ''aiuto AI generativo se non autorizzato''] False False True 0),
     (''studio-guidato'', mode_policy ''studio-guidato'' ''Studio guidato''
       (''Puoi consultare materiali, richiami teorici e domande guida collegate all'' @ [CHR 0x27] @ ''attivit'' @ [CHR 0xE0] @ ''.'')
       [''riferimenti alla teoria'', ''domande guida'', ''esempi approvati dal docente'', ''feedback tecnico'']
       [''soluzioni complete non approvate'', ''AI generativa libera''] False True True 0),
     (''ai-assisted'', mode_policy ''ai-assisted'' ''AI assisted''
       ''Puoi usare aiuto AI nei limiti decisi dal docente e tracciati dalla piattaforma.''
       [''feedback tecnico'', ''richiami teorici'', ''suggerimenti AI controllati'', ''domande di chiarimento'']
       [''sostituire la consegna con una soluzione non rivista'', ''superare i limiti di budget o policy''] True True True 5)]"

definition normalize_support_mode :: "json \<Rightarrow> string" where
  "normalize_support_mode v =
     (let mode = cleaned v in if map_of support_policies mode = None then ''feedback-tecnico'' else mode)"

definition support_policy :: "json \<Rightarrow> members" where
  "support_policy v =
     (let mode = normalize_support_mode v
      in json_put ''is_defaulted'' (JBool (cleaned v \<noteq> mode))
           (json_put ''source_mode'' (JStr (cleaned v)) (the (map_of support_policies mode))))"

section \<open>Decisions\<close>

record help_kind =
  hk_label :: string
  hk_policy_key :: string
  hk_allowed_reason :: string
  hk_denied_reason :: string

definition help_kinds :: "(string \<times> help_kind) list" where
  "help_kinds =
    [(''feedback-tecnico'', \<lparr>hk_label = ''Feedback tecnico'', hk_policy_key = ''debug_allowed'',
        hk_allowed_reason = ''La modalit'' @ [CHR 0xE0] @ '' consente feedback tecnico, errori e risultati dei test.'',
        hk_denied_reason = ''La modalit'' @ [CHR 0xE0] @ '' scelta dal docente non consente feedback tecnico aggiuntivo.''\<rparr>),
     (''teoria'', \<lparr>hk_label = ''Richiamo teorico'', hk_policy_key = ''theory_allowed'',
        hk_allowed_reason = ''La modalit'' @ [CHR 0xE0] @ '' consente richiami teorici e materiali guida.'',
        hk_denied_reason = ''La modalit'' @ [CHR 0xE0] @ '' scelta dal docente non consente richiami teorici aggiuntivi.''\<rparr>),
     (''ai'', \<lparr>hk_label = ''Aiuto AI'', hk_policy_key = ''ai_allowed'',
        hk_allowed_reason = ''La modalit'' @ [CHR 0xE0] @ '' consente aiuto AI nei limiti decisi dal docente.'',
        hk_denied_reason = ''La modalit'' @ [CHR 0xE0] @ '' scelta dal docente non consente aiuto AI.''\<rparr>)]"

definition help_aliases :: "(string \<times> string) list" where
  "help_aliases =
    [(''debug'', ''feedback-tecnico''), (''feedback'', ''feedback-tecnico''), (''technical'', ''feedback-tecnico''),
     (''theory'', ''teoria''), (''richiamo-teorico'', ''teoria''), (''ia'', ''ai''), (''ai-assisted'', ''ai'')]"

definition normalize_help_type :: "json \<Rightarrow> string" where
  "normalize_help_type v =
     (let t = lower (cleaned v) in case map_of help_aliases t of None \<Rightarrow> t | Some u \<Rightarrow> u)"

text \<open>\<open>bud_\<close> is the object \<^verbatim>\<open>budget\<close> of a decision.\<close>

record budget =
  bud_limit :: int
  bud_used :: int
  bud_remaining :: int
  bud_exhausted :: bool

record decision =
  dec_type :: string
  dec_label :: string
  dec_allowed :: bool
  dec_reason :: string
  dec_budget :: "budget option"

definition evaluate_help_request :: "members \<Rightarrow> json \<Rightarrow> decision" where
  "evaluate_help_request policy help_type =
     (let t = normalize_help_type help_type
      in case map_of help_kinds (normalize_help_type (JStr t)) of
           None \<Rightarrow> \<lparr>dec_type = t, dec_label = (if cleaned help_type = [] then ''Aiuto non indicato'' else cleaned help_type),
             dec_allowed = False, dec_reason = ''Tipo di aiuto non riconosciuto.'', dec_budget = None\<rparr>
         | Some k \<Rightarrow>
             let allowed = truthy (json_get policy (hk_policy_key k))
             in \<lparr>dec_type = t, dec_label = hk_label k, dec_allowed = allowed,
                  dec_reason = (if allowed then hk_allowed_reason k else hk_denied_reason k), dec_budget = None\<rparr>)"

section \<open>The budget\<close>

definition charged :: "members \<Rightarrow> bool" where
  "charged e \<longleftrightarrow> normalize_help_type (json_get e ''help_type'') = ''ai'' \<and> json_get e ''allowed'' = JBool True \<and>
     json_get e ''budget_charged'' \<noteq> JBool False"

definition ai_events_used :: "members list \<Rightarrow> nat" where
  "ai_events_used events = length (filter charged events)"

definition ai_budget_status :: "members \<Rightarrow> members list \<Rightarrow> budget" where
  "ai_budget_status policy events =
     (let limit = positive_int (json_get policy ''ai_request_limit''); used = int (ai_events_used events)
      in \<lparr>bud_limit = limit, bud_used = used, bud_remaining = (if limit \<noteq> 0 then max (limit - used) 0 else 0),
           bud_exhausted = (limit \<noteq> 0 \<and> limit \<le> used)\<rparr>)"

definition apply_budget_limit :: "decision \<Rightarrow> members \<Rightarrow> members list \<Rightarrow> decision" where
  "apply_budget_limit d policy events =
     (if dec_type d \<noteq> ''ai'' \<or> \<not> dec_allowed d then d
      else let b = ai_budget_status policy events
           in if \<not> bud_exhausted b then d\<lparr>dec_budget := Some b\<rparr>
              else d\<lparr>dec_allowed := False, dec_reason := ''Budget richieste AI esaurito per questa consegna.'', dec_budget := Some b\<rparr>)"

definition budget_json :: "budget \<Rightarrow> json" where
  "budget_json b =
     JObj [(''limit'', JInt (bud_limit b)), (''used'', JInt (bud_used b)), (''remaining'', JInt (bud_remaining b)),
           (''exhausted'', JBool (bud_exhausted b))]"

section \<open>What a provider answers\<close>

definition response_schema :: json where
  "response_schema = JStr ''student_help_response.v1''"

definition provider_error_detail :: json where
  "provider_error_detail =
     JStr (''Il provider non ha potuto completare la richiesta. Riprova pi'' @ [CHR 0xF9] @ '' tardi o avvisa il docente.'')"

definition zero_usage :: json where
  "zero_usage = JObj [(''input_tokens'', JInt 0), (''output_tokens'', JInt 0), (''total_tokens'', JInt 0)]"

definition error_response :: "string \<Rightarrow> string \<Rightarrow> json" where
  "error_response provider label =
     JObj [(''schema_version'', response_schema), (''status'', JStr ''error''), (''provider'', JStr provider),
           (''provider_label'', JStr label), (''message'', JStr []), (''usage'', zero_usage), (''detail'', provider_error_detail)]"

text \<open>The entries of a detail object: the normalized entries and the characters so far.\<close>

fun detail_entries :: "nat \<Rightarrow> members \<Rightarrow> members \<Rightarrow> members option" where
  "detail_entries sofar acc [] = Some acc"
| "detail_entries sofar acc ((k, v) # ms) =
     (case v of
        JStr s \<Rightarrow>
          if strip k = [] \<or> 64 < length (strip k) then None
          else let n = sofar + length (strip k) + length (strip s)
               in if 16000 < n then None else detail_entries n (json_put (strip k) (JStr (strip s)) acc) ms
      | _ \<Rightarrow> None)"

definition normalized_provider_detail :: "json \<Rightarrow> json option" where
  "normalized_provider_detail v =
     (case v of
        JStr s \<Rightarrow> if 16000 < length s then None else Some (JStr (strip s))
      | JObj ms \<Rightarrow> if 16 < length ms then None else map_option JObj (detail_entries 0 [] ms)
      | _ \<Rightarrow> None)"

definition usage_counter :: "members \<Rightarrow> string \<Rightarrow> int option" where
  "usage_counter usage key = (case json_get usage key of JInt n \<Rightarrow> if n < 0 then None else Some n | _ \<Rightarrow> None)"

text \<open>\<^verbatim>\<open>payload.get("detail", "")\<close>\<close>

definition payload_detail :: "members \<Rightarrow> json" where
  "payload_detail ms = (case map_of ms ''detail'' of None \<Rightarrow> JStr [] | Some v \<Rightarrow> v)"

text \<open>\<^verbatim>\<open>provider_response_payload\<close>; \<open>None\<close> is a \<^verbatim>\<open>ValueError\<close>.\<close>

definition provider_response_payload :: "json \<Rightarrow> json option" where
  "provider_response_payload payload =
     (case payload of
        JObj ms \<Rightarrow>
          (case (json_get ms ''status'', json_get ms ''provider'', json_get ms ''provider_label'', json_get ms ''message'',
                 json_get ms ''usage'') of
             (JStr status, JStr provider, JStr label, JStr message, JObj usage) \<Rightarrow>
               if status \<noteq> ''ready'' \<and> status \<noteq> ''error'' \<or> strip provider = [] \<or> strip label = [] \<or>
                  status = ''ready'' \<and> strip message = [] \<or> 8000 < length message
               then None
               else (case (normalized_provider_detail (payload_detail ms), usage_counter usage ''input_tokens'',
                       usage_counter usage ''output_tokens'', usage_counter usage ''total_tokens'') of
                   (Some detail, Some i, Some out, Some t) \<Rightarrow>
                     Some (JObj [(''schema_version'', response_schema), (''status'', JStr status), (''provider'', JStr (strip provider)),
                       (''provider_label'', JStr (strip label)),
                       (''message'', JStr (if status = ''error'' then [] else strip message)),
                       (''usage'', JObj [(''input_tokens'', JInt i), (''output_tokens'', JInt out), (''total_tokens'', JInt (i + out))]),
                       (''detail'', if status = ''error'' then provider_error_detail else detail)])
                 | _ \<Rightarrow> None)
           | _ \<Rightarrow> None)
      | _ \<Rightarrow> None)"

section \<open>Usage\<close>

definition token_counter :: "json \<Rightarrow> int" where
  "token_counter v = (case v of JInt n \<Rightarrow> if 0 \<le> n then n else 0 | _ \<Rightarrow> 0)"

definition object_members :: "json \<Rightarrow> members" where
  "object_members v = (case v of JObj ms \<Rightarrow> ms | _ \<Rightarrow> [])"

definition normalized_token_usage :: "json \<Rightarrow> int \<times> int \<times> int" where
  "normalized_token_usage v =
     (let i = token_counter (json_get (object_members v) ''input_tokens''); out = token_counter (json_get (object_members v) ''output_tokens'')
      in (i, out, i + out))"

record ai_usage =
  use_input :: int
  use_output :: int
  use_total :: int
  use_reported :: nat
  use_unreported :: nat

fun add_usage :: "ai_usage \<Rightarrow> members \<Rightarrow> ai_usage" where
  "add_usage u e =
     (let response = object_members (json_get e ''response''); provider = cleaned (json_get response ''provider'')
      in if normalize_help_type (json_get e ''help_type'') \<noteq> ''ai'' \<or> json_get e ''allowed'' \<noteq> JBool True \<or>
            provider = [] \<or> provider = ''deterministic-local''
         then u
         else (case normalized_token_usage (json_get response ''usage'') of
             (i, out, both) \<Rightarrow>
               u\<lparr>use_input := use_input u + i, use_output := use_output u + out, use_total := use_total u + both,
                 use_reported := use_reported u + (if both \<noteq> 0 then 1 else 0),
                 use_unreported := use_unreported u + (if both \<noteq> 0 then 0 else 1)\<rparr>))"

definition summarize_ai_usage :: "members list \<Rightarrow> ai_usage" where
  "summarize_ai_usage =
     foldl add_usage \<lparr>use_input = 0, use_output = 0, use_total = 0, use_reported = 0, use_unreported = 0\<rparr>"

end
