(* ===== verification/Help_Log.thy ===== *)
theory Help_Log
  imports Help_Policy
begin

text \<open>
  The log of help requests of \<^verbatim>\<open>scripts/student_help_service.py\<close>: reading, releasing what stale provider
  calls hold, and the two critical sections of \<^verbatim>\<open>record_help_request\<close>, between which the provider is called.
\<close>

section \<open>The log\<close>

text \<open>
  The file of a log, by the JSON value of its text; \<open>BadLog\<close> is a file whose text is too large, no
  UTF-8 or no JSON, with the message of the service.
\<close>

datatype help_file = NoLog | BadLog string | JsonLog json

text \<open>\<open>hs_active\<close>: the request identifiers of this log whose provider call runs in this process.\<close>

record help_state =
  hs_file :: help_file
  hs_active :: "string list"

datatype help_error = HelpInvalid | HelpRateLimit | HelpPending | HelpNotFound | HelpUnreadable

type_synonym 'a help_action = "(help_state, help_error, 'a) action"

text \<open>
  What the service uses of the platform: \<^verbatim>\<open>datetime.fromisoformat\<close>, the size in bytes of the text
  that is written for a list of events, and the wall clock as a text.
\<close>

record help_platform =
  hp_iso :: "string \<Rightarrow> pyval option"
  hp_bytes :: "members list \<Rightarrow> nat"

definition objects_of :: "json list \<Rightarrow> members list" where
  "objects_of vs = concat (map (\<lambda>v. case v of JObj ms \<Rightarrow> [ms] | _ \<Rightarrow> []) vs)"

text \<open>\<^verbatim>\<open>read_help_log\<close>: the events and the error, which is empty when there is none.\<close>

definition read_help_log :: "help_file \<Rightarrow> members list \<times> string" where
  "read_help_log f =
     (case f of
        NoLog \<Rightarrow> ([], [])
      | BadLog e \<Rightarrow> ([], e)
      | JsonLog (JList vs) \<Rightarrow> (objects_of vs, [])
      | JsonLog (JObj ms) \<Rightarrow>
          (case json_get ms ''events'' of
             JList vs \<Rightarrow> (objects_of vs, [])
           | _ \<Rightarrow> ([], ''Formato log aiuti non valido.''))
      | JsonLog _ \<Rightarrow> ([], ''Formato log aiuti non valido.''))"

definition max_log_bytes :: nat where
  "max_log_bytes = 2 * 1024 * 1024"

definition log_json :: "members list \<Rightarrow> json" where
  "log_json events = JObj [(''schema_version'', JStr ''student_help_log.v1''), (''events'', JList (map JObj events))]"

definition write_help_events :: "help_platform \<Rightarrow> members list \<Rightarrow> unit help_action" where
  "write_help_events p events st =
     (if max_log_bytes < hp_bytes p events then (Inl HelpRateLimit, st)
      else (Inr (), st\<lparr>hs_file := JsonLog (log_json events)\<rparr>))"

definition load_writable :: "members list help_action" where
  "load_writable st =
     (case read_help_log (hs_file st) of (events, error) \<Rightarrow> if error \<noteq> [] then (Inl HelpUnreadable, st) else (Inr events, st))"

definition set_active :: "string \<Rightarrow> bool \<Rightarrow> unit help_action" where
  "set_active i on st =
     (Inr (), st\<lparr>hs_active := (if on then List.insert i (hs_active st) else filter (\<lambda>j. j \<noteq> i) (hs_active st))\<rparr>)"

section \<open>Stale reservations\<close>

text \<open>The difference of two datetimes in microseconds; \<open>None\<close> is a \<^verbatim>\<open>TypeError\<close>.\<close>

definition datetime_age :: "pyval \<Rightarrow> pyval \<Rightarrow> int option" where
  "datetime_age a b =
     (case (a, b) of
        (PyDatetime x (Some ox), PyDatetime y (Some oy)) \<Rightarrow> Some ((x - ox) - (y - oy))
      | (PyDatetime x None, PyDatetime y None) \<Rightarrow> Some (x - y)
      | _ \<Rightarrow> None)"

definition max_pending_age :: int where
  "max_pending_age = 5 * 60 * 1000000"

definition is_stale :: "help_platform \<Rightarrow> pyval \<Rightarrow> string list \<Rightarrow> members \<Rightarrow> bool" where
  "is_stale p current active e \<longleftrightarrow>
     json_get e ''provider_status'' = JStr ''pending'' \<and> json_get e ''budget_charged'' \<noteq> JBool False \<and>
     \<not> List.member active (cleaned (json_get e ''request_id'')) \<and>
     (case hp_iso p (cleaned (json_get e ''requested_at'')) of
        None \<Rightarrow> False
      | Some requested \<Rightarrow>
          (case datetime_age current requested of None \<Rightarrow> False | Some age \<Rightarrow> max_pending_age < age))"

definition interrupt :: "members \<Rightarrow> members" where
  "interrupt e =
     json_put ''response'' (error_response ''interrupted-provider-call'' ''Richiesta interrotta'')
       (json_put ''budget_charged'' (JBool False) (json_put ''provider_status'' (JStr ''interrupted'') e))"

text \<open>\<^verbatim>\<open>release_stale_provider_reservations\<close>: the events afterwards, and whether one has changed.\<close>

definition release_stale :: "help_platform \<Rightarrow> string \<Rightarrow> string list \<Rightarrow> members list \<Rightarrow> members list \<times> bool" where
  "release_stale p now active events =
     (case hp_iso p now of
        None \<Rightarrow> (events, False)
      | Some current \<Rightarrow>
          (map (\<lambda>e. if is_stale p current active e then interrupt e else e) events,
           list_ex (is_stale p current active) events))"

section \<open>Recording a request\<close>

definition request_id_text :: "string \<Rightarrow> bool" where
  "request_id_text s \<longleftrightarrow> 16 \<le> length s \<and> length s \<le> 128 \<and> list_all
     (\<lambda>c. let n = code_point c in 65 \<le> n \<and> n \<le> 90 \<or> 97 \<le> n \<and> n \<le> 122 \<or> 48 \<le> n \<and> n \<le> 57 \<or> n = 95 \<or> n = 45) s"

text \<open>
  The arguments: \<open>hc_now\<close> is the given time or the wall clock, \<open>hc_id\<close> the given identifier or, when
  this is empty, the one of \<^verbatim>\<open>uuid4\<close>. The flags say that a provider and a factory are given.
\<close>

record help_call =
  hc_activity :: string
  hc_policy :: members
  hc_type :: json
  hc_prompt :: string
  hc_now :: string
  hc_id :: string
  hc_provider :: bool
  hc_factory :: bool
  hc_existing_only :: bool

definition requested_at :: "string \<Rightarrow> string option \<Rightarrow> string" where
  "requested_at clock now = (case now of Some t \<Rightarrow> if strip t = [] then clock else strip t | None \<Rightarrow> clock)"

definition clean_request_id :: "string \<Rightarrow> string \<Rightarrow> string" where
  "clean_request_id fresh given = (if strip given = [] then fresh else strip given)"

definition find_request :: "string \<Rightarrow> members list \<Rightarrow> members option" where
  "find_request i events = List.find (\<lambda>e. cleaned (json_get e ''request_id'') = i) events"

definition same_request :: "help_call \<Rightarrow> members \<Rightarrow> bool" where
  "same_request c e \<longleftrightarrow>
     cleaned (json_get e ''activity_id'') = strip (hc_activity c) \<and>
     cleaned (json_get e ''help_type'') = dec_type (evaluate_help_request (hc_policy c) (hc_type c)) \<and>
     cleaned (json_get e ''prompt'') = strip (hc_prompt c)"

definition provider_expected :: "help_call \<Rightarrow> decision \<Rightarrow> bool" where
  "provider_expected c d \<longleftrightarrow> dec_allowed d \<and> (hc_provider c \<or> dec_type d = ''ai'' \<and> hc_factory c)"

definition new_event :: "help_call \<Rightarrow> decision \<Rightarrow> members" where
  "new_event c d =
     [(''schema_version'', JStr ''student_help_event.v1''), (''request_id'', JStr (hc_id c)), (''requested_at'', JStr (hc_now c)),
      (''activity_id'', JStr (strip (hc_activity c))), (''help_type'', JStr (dec_type d)), (''label'', JStr (dec_label d)),
      (''allowed'', JBool (dec_allowed d)), (''reason'', JStr (dec_reason d)), (''prompt'', JStr (strip (hc_prompt c)))] @
     (case dec_budget d of None \<Rightarrow> [] | Some b \<Rightarrow> [(''budget'', budget_json b)]) @
     (if dec_type d = ''ai'' \<and> dec_allowed d then [(''budget_charged'', JBool True)] else []) @
     (if provider_expected c d then [(''provider_status'', JStr ''pending'')] else [])"

definition max_events :: nat where
  "max_events = 40"

text \<open>How the first critical section ends: with the answer, or with an event whose provider is to be called.\<close>

datatype begun = Answered members | Calling members

definition when_act :: "bool \<Rightarrow> ('s, 'e, unit) action \<Rightarrow> ('s, 'e, unit) action" where
  "when_act b m = (if b then m else return_act ())"

definition begin_help :: "help_platform \<Rightarrow> help_call \<Rightarrow> begun help_action" where
  "begin_help p c st =
     (if \<not> request_id_text (hc_id c) then raise_act HelpInvalid
      else bind_act load_writable (\<lambda>read_events.
        case release_stale p (hc_now c) (hs_active st) read_events of
          (events, reconciled) \<Rightarrow>
            (case find_request (hc_id c) events of
               Some e \<Rightarrow>
                 if \<not> same_request c e then raise_act HelpInvalid
                 else bind_act (when_act reconciled (write_help_events p events)) (\<lambda>_.
                   if json_get e ''provider_status'' = JStr ''pending'' then raise_act HelpPending else return_act (Answered e))
             | None \<Rightarrow>
                 if hc_existing_only c
                 then bind_act (when_act reconciled (write_help_events p events)) (\<lambda>_. raise_act HelpNotFound)
                 else if max_events \<le> length events then raise_act HelpRateLimit
                 else let d = apply_budget_limit (evaluate_help_request (hc_policy c) (hc_type c)) (hc_policy c) events;
                          e = new_event c d
                      in bind_act (write_help_events p (events @ [e])) (\<lambda>_.
                         if provider_expected c d then bind_act (set_active (hc_id c) True) (\<lambda>_. return_act (Calling e))
                         else return_act (Answered e))))) st"

text \<open>
  The second critical section, given what the provider answered: \<open>None\<close> when the factory or the provider
  raised. \<open>name\<close> is the class of the provider or \<^verbatim>\<open>"unavailable"\<close>.
\<close>

definition final_response :: "string \<Rightarrow> json option \<Rightarrow> json" where
  "final_response name outcome =
     (case (case outcome of None \<Rightarrow> None | Some v \<Rightarrow> provider_response_payload v) of
        Some r \<Rightarrow> r
      | None \<Rightarrow> error_response name ''Provider aiuto non disponibile'')"

definition complete :: "json \<Rightarrow> members \<Rightarrow> members" where
  "complete response e =
     json_put ''budget_charged'' (JBool True) (json_put ''provider_status'' (JStr ''completed'') (json_put ''response'' response e))"

fun complete_first :: "json \<Rightarrow> json \<Rightarrow> members list \<Rightarrow> members list \<times> members option" where
  "complete_first i response [] = ([], None)"
| "complete_first i response (e # es) =
     (if json_get e ''request_id'' = i then (complete response e # es, Some (complete response e))
      else (case complete_first i response es of (fs, found) \<Rightarrow> (e # fs, found)))"

definition finish_help :: "help_platform \<Rightarrow> members \<Rightarrow> string \<Rightarrow> json option \<Rightarrow> members help_action" where
  "finish_help p e name outcome st =
     (case bind_act load_writable (\<lambda>events.
        case complete_first (json_get e ''request_id'') (final_response name outcome) events of
          (written, found) \<Rightarrow>
            bind_act (write_help_events p written) (\<lambda>_. return_act (case found of None \<Rightarrow> e | Some f \<Rightarrow> f))) st of
        (r, t) \<Rightarrow> (r, snd (set_active (cleaned (json_get e ''request_id'')) False t)))"

text \<open>\<^verbatim>\<open>record_help_request\<close> when nobody else uses the log between its two critical sections.\<close>

definition record_help_request :: "help_platform \<Rightarrow> help_call \<Rightarrow> string \<Rightarrow> json option \<Rightarrow> members help_action" where
  "record_help_request p c name outcome =
     bind_act (begin_help p c) (\<lambda>b. case b of Answered e \<Rightarrow> return_act e | Calling e \<Rightarrow> finish_help p e name outcome)"

text \<open>\<^verbatim>\<open>load_reconciled_help_events\<close>, which every summary begins with.\<close>

definition load_reconciled :: "help_platform \<Rightarrow> string \<Rightarrow> (members list \<times> string) help_action" where
  "load_reconciled p clock st =
     (case read_help_log (hs_file st) of
        (events, error) \<Rightarrow>
          if error \<noteq> [] then (Inr (events, error), st)
          else (case release_stale p clock (hs_active st) events of
              (kept, changed) \<Rightarrow>
                bind_act (when_act changed (write_help_events p kept)) (\<lambda>_. return_act (kept, [])) st))"

section \<open>Summaries\<close>

definition is_allowed :: "members \<Rightarrow> bool" where
  "is_allowed e \<longleftrightarrow> json_get e ''allowed'' = JBool True"

definition is_denied :: "members \<Rightarrow> bool" where
  "is_denied e \<longleftrightarrow> json_get e ''allowed'' = JBool False"

record help_summary =
  sum_path :: string
  sum_exists :: bool
  sum_status :: string
  sum_error :: string
  sum_total :: nat
  sum_allowed :: nat
  sum_denied :: nat
  sum_last_requested :: string
  sum_last_decision :: string
  sum_last_status :: string
  sum_last_provider :: string
  sum_counts :: "(string \<times> nat) list"
  sum_usage :: ai_usage

definition empty_help_summary :: help_summary where
  "empty_help_summary = \<lparr>sum_path = [], sum_exists = False, sum_status = ''missing'', sum_error = [], sum_total = 0,
     sum_allowed = 0, sum_denied = 0, sum_last_requested = [], sum_last_decision = [], sum_last_status = [],
     sum_last_provider = [], sum_counts = [], sum_usage = summarize_ai_usage []\<rparr>"

definition help_type_label :: "members \<Rightarrow> string" where
  "help_type_label e = (let t = cleaned (json_get e ''help_type'') in if t = [] then ''sconosciuto'' else t)"

fun count_text :: "string \<Rightarrow> (string \<times> nat) list \<Rightarrow> (string \<times> nat) list" where
  "count_text t [] = [(t, 1)]"
| "count_text t ((u, n) # counts) = (if u = t then (u, n + 1) # counts else (u, n) # count_text t counts)"

definition summary_of :: "string \<Rightarrow> members list \<Rightarrow> string \<Rightarrow> help_summary" where
  "summary_of path events error =
     (let final = (if events = [] then [] else last events); response = object_members (json_get final ''response'')
      in \<lparr>sum_path = map (\<lambda>c. if c = CHR 0x5C then CHR ''/'' else c) path, sum_exists = (events \<noteq> []),
          sum_status = (if error \<noteq> [] then ''invalid'' else ''ok''), sum_error = error, sum_total = length events,
          sum_allowed = length (filter is_allowed events), sum_denied = length (filter is_denied events),
          sum_last_requested = cleaned (json_get final ''requested_at''),
          sum_last_decision = (if is_allowed final then ''consentita'' else if is_denied final then ''bloccata'' else []),
          sum_last_status = cleaned (json_get response ''status''), sum_last_provider = cleaned (json_get response ''provider_label''),
          sum_counts = fold (\<lambda>e. count_text (help_type_label e)) events [], sum_usage = summarize_ai_usage events\<rparr>)"

definition help_summary_of :: "help_platform \<Rightarrow> string \<Rightarrow> string \<Rightarrow> help_summary help_action" where
  "help_summary_of p clock path =
     bind_act (load_reconciled p clock) (\<lambda>(events, error). return_act (summary_of path events error))"

text \<open>The budget that is shown: all used when the log cannot be read.\<close>

definition shown_budget :: "members \<Rightarrow> members list \<Rightarrow> string \<Rightarrow> budget" where
  "shown_budget policy events error =
     (if error \<noteq> []
      then let limit = positive_int (json_get policy ''ai_request_limit'')
           in \<lparr>bud_limit = limit, bud_used = limit, bud_remaining = 0, bud_exhausted = (limit \<noteq> 0)\<rparr>
      else ai_budget_status policy events)"

text \<open>\<^verbatim>\<open>help_summary_with_budget\<close> and \<^verbatim>\<open>help_budget_summary\<close>; no path is \<open>None\<close>.\<close>

definition summary_with_budget ::
  "help_platform \<Rightarrow> string \<Rightarrow> string option \<Rightarrow> members \<Rightarrow> (help_summary \<times> budget) help_action" where
  "summary_with_budget p clock path policy =
     (case path of
        None \<Rightarrow> return_act (empty_help_summary, shown_budget policy [] [])
      | Some f \<Rightarrow>
          bind_act (load_reconciled p clock) (\<lambda>(events, error).
            return_act (summary_of f events error, shown_budget policy events error)))"

definition help_budget_summary :: "help_platform \<Rightarrow> string \<Rightarrow> string option \<Rightarrow> members \<Rightarrow> budget help_action" where
  "help_budget_summary p clock path policy =
     (case path of
        None \<Rightarrow> return_act (shown_budget policy [] [])
      | Some _ \<Rightarrow> bind_act (load_reconciled p clock) (\<lambda>(events, error). return_act (shown_budget policy events error)))"

text \<open>What a teacher sees of a response and of an event.\<close>

definition teacher_response :: "json \<Rightarrow> members" where
  "teacher_response v =
     (case v of
        JObj ms \<Rightarrow>
          (case normalized_token_usage (json_get ms ''usage'') of
             (i, out, both) \<Rightarrow>
               [(''status'', JStr (cleaned (json_get ms ''status''))), (''provider'', JStr (cleaned (json_get ms ''provider''))),
                (''provider_label'', JStr (cleaned (json_get ms ''provider_label''))), (''message'', JStr (cleaned (json_get ms ''message''))),
                (''detail'', JStr (cleaned (json_get ms ''detail''))),
                (''usage'', JObj [(''input_tokens'', JInt i), (''output_tokens'', JInt out), (''total_tokens'', JInt both)])])
      | _ \<Rightarrow> [])"

definition teacher_event :: "members \<Rightarrow> members" where
  "teacher_event e =
     (let status = cleaned (json_get e ''provider_status'')
      in [(''requested_at'', JStr (cleaned (json_get e ''requested_at''))), (''help_type'', JStr (cleaned (json_get e ''help_type''))),
          (''label'', JStr (cleaned (json_get e ''label''))), (''allowed'', JBool (is_allowed e)),
          (''reason'', JStr (cleaned (json_get e ''reason''))), (''prompt'', JStr (cleaned (json_get e ''prompt''))),
          (''response'', JObj (teacher_response (json_get e ''response'')))] @
         (if status = ''pending'' \<or> status = ''completed'' \<or> status = ''interrupted'' then [(''provider_status'', JStr status)] else []))"

definition teacher_help_summary ::
  "help_platform \<Rightarrow> string \<Rightarrow> string option \<Rightarrow> (help_summary \<times> members list \<times> nat) help_action" where
  "teacher_help_summary p clock path =
     (case path of
        None \<Rightarrow> return_act (empty_help_summary, [], 0)
      | Some f \<Rightarrow>
          bind_act (load_reconciled p clock) (\<lambda>(events, error).
            let shown = map teacher_event events
            in return_act (summary_of f events error, if error \<noteq> [] then [] else shown,
                 length (filter (\<lambda>e. json_get e ''help_type'' = JStr ''ai'') shown))))"

end
