(* ===== verification/Help_Machine.thy ===== *)
theory Help_Machine
  imports Help_Log
begin

text \<open>
  The requests of a student, the provider calls in flight, the summaries that teachers and students
  read and restarts of the server, in any order; and what holds of the log in every such history.
\<close>

section \<open>Steps\<close>

text \<open>A state is the log with its running calls, and the events whose provider call is in flight.\<close>

type_synonym help_world = "help_state \<times> members list"

inductive help_step :: "help_platform \<Rightarrow> members \<Rightarrow> help_world \<Rightarrow> help_world \<Rightarrow> bool" for p policy where
  step_call: "begin_help p c st = (Inr (Calling e), st') \<Longrightarrow> hc_policy c = policy \<Longrightarrow> help_step p policy (st, calls) (st', e # calls)"
| step_answer: "begin_help p c st = (r, st') \<Longrightarrow> hc_policy c = policy \<Longrightarrow> \<forall>e. r \<noteq> Inr (Calling e) \<Longrightarrow>
    help_step p policy (st, calls) (st', calls)"
| step_finish: "e \<in> set calls \<Longrightarrow> finish_help p e name outcome st = (r, st') \<Longrightarrow>
    help_step p policy (st, calls) (st', remove1 e calls)"
| step_summary: "load_reconciled p clock st = (r, st') \<Longrightarrow> help_step p policy (st, calls) (st', calls)"
| step_restart: "help_step p policy (st, calls) (st\<lparr>hs_active := []\<rparr>, [])"

abbreviation help_steps :: "help_platform \<Rightarrow> members \<Rightarrow> help_world \<Rightarrow> help_world \<Rightarrow> bool" where
  "help_steps p policy \<equiv> (help_step p policy)\<^sup>*\<^sup>*"

abbreviation log_events :: "help_state \<Rightarrow> members list" where
  "log_events st \<equiv> fst (read_help_log (hs_file st))"

definition fresh_help :: help_world where
  "fresh_help = (\<lparr>hs_file = NoLog, hs_active = []\<rparr>, [])"

section \<open>Events\<close>

abbreviation rid :: "members \<Rightarrow> json" where
  "rid e \<equiv> json_get e ''request_id''"

lemma written_log [simp]: "read_help_log (JsonLog (log_json events)) = (events, [])"
  by (simp add: read_help_log_def log_json_def json_get_def objects_of_def comp_def)

lemma interrupt_fields [simp]:
  "rid (interrupt e) = rid e" "charged (interrupt e) = False"
  by (simp_all add: interrupt_def charged_def)

lemma complete_fields [simp]:
  "rid (complete v e) = rid e" "json_get (complete v e) ''budget_charged'' = JBool True"
  "charged (complete v e) \<longleftrightarrow> charged e \<or> normalize_help_type (json_get e ''help_type'') = ''ai'' \<and> is_allowed e"
  by (auto simp: complete_def charged_def is_allowed_def)

lemma id_char_plain: "request_id_text i \<Longrightarrow> strip i = i"
proof -
  assume i: "request_id_text i"
  have "\<not> is_space c" if "c \<in> set i" for c
    using i that by (auto simp: request_id_text_def list_all_iff is_space_def Let_def)
  moreover have plain: "dropWhile is_space u = u" if "\<forall>c \<in> set u. \<not> is_space c" for u using that by (cases u) simp_all
  ultimately show ?thesis using plain [of i] plain [of "List.rev i"] by (simp add: strip_def)
qed

lemma new_event_fields [simp]:
  "rid (new_event c d) = JStr (hc_id c)" "json_get (new_event c d) ''help_type'' = JStr (dec_type d)"
  "json_get (new_event c d) ''allowed'' = JBool (dec_allowed d)" "json_get (new_event c d) ''budget_charged'' \<noteq> JBool False"
  by (auto simp: new_event_def json_get_def split: option.splits if_splits)

section \<open>Operations on the log\<close>

lemma release_events:
  assumes "release_stale p now active events = (kept, changed)"
  shows "\<exists>stale. kept = map (\<lambda>e. if stale e then interrupt e else e) events \<and>
    (\<forall>e. stale e \<longrightarrow> cleaned (rid e) \<notin> set active) \<and> (\<not> changed \<longrightarrow> kept = events)"
proof (cases "hp_iso p now")
  case None
  with assms have "kept = events" by (simp add: release_stale_def)
  then show ?thesis by (intro exI [of _ "\<lambda>e. False"]) simp
next
  case (Some current)
  with assms have "kept = map (\<lambda>e. if is_stale p current active e then interrupt e else e) events"
    "changed \<longleftrightarrow> list_ex (is_stale p current active) events"
    by (simp_all add: release_stale_def)
  moreover from this have "kept = events" if "\<not> changed" using that by (auto simp: list_ex_iff intro!: map_idI)
  moreover have "is_stale p current active e \<Longrightarrow> cleaned (rid e) \<notin> set active" for e by (simp add: is_stale_def)
  ultimately show ?thesis by (intro exI [of _ "is_stale p current active"]) blast
qed

text \<open>What a step may do to a readable log, given the identifiers of the calls in flight.\<close>

definition kept_events :: "string list \<Rightarrow> members list \<Rightarrow> members list \<Rightarrow> bool" where
  "kept_events active events kept \<longleftrightarrow>
     (\<exists>stale. kept = map (\<lambda>e. if stale e then interrupt e else e) events \<and> (\<forall>e. stale e \<longrightarrow> cleaned (rid e) \<notin> set active))"

lemma kept_refl: "kept_events active events events"
  unfolding kept_events_def by (rule exI [of _ "\<lambda>e. False"]) simp

lemma kept_used: "kept_events active events kept \<Longrightarrow> ai_events_used kept \<le> ai_events_used events"
proof -
  have "length (filter charged (map (\<lambda>e. if stale e then interrupt e else e) es)) \<le> length (filter charged es)" for stale es
    by (induction es) auto
  then show "kept_events active events kept \<Longrightarrow> ?thesis" by (auto simp: kept_events_def ai_events_used_def)
qed

lemma kept_length: "kept_events active events kept \<Longrightarrow> length kept = length events"
  by (auto simp: kept_events_def)

lemma kept_rids: "kept_events active events kept \<Longrightarrow> map rid kept = map rid events"
  by (auto simp: kept_events_def)

lemma find_request_None: "find_request i events = None \<longleftrightarrow> i \<notin> set (map cleaned (map rid events))"
  by (auto simp: find_request_def find_None_iff)

lemma begin_cases:
  assumes "begin_help p c st = (r, st')" "read_help_log (hs_file st) = (events, [])"
  obtains (same) kept where "kept_events (hs_active st) events kept" "hs_active st' = hs_active st" "\<forall>e. r \<noteq> Inr (Calling e)"
      "hs_file st' = hs_file st \<or> read_help_log (hs_file st') = (kept, [])"
  | (new) kept d where "kept_events (hs_active st) events kept" "find_request (hc_id c) kept = None" "length kept < max_events"
      "d = apply_budget_limit (evaluate_help_request (hc_policy c) (hc_type c)) (hc_policy c) kept"
      "read_help_log (hs_file st') = (kept @ [new_event c d], [])" "request_id_text (hc_id c)"
      "r = Inr (Calling (new_event c d)) \<and> hs_active st' = List.insert (hc_id c) (hs_active st) \<or>
       (\<forall>e. r \<noteq> Inr (Calling e)) \<and> hs_active st' = hs_active st"
proof -
  obtain kept changed where rel: "release_stale p (hc_now c) (hs_active st) events = (kept, changed)" by fastforce
  have k: "kept_events (hs_active st) events kept" using release_events [OF rel] by (auto simp: kept_events_def)
  let ?d = "apply_budget_limit (evaluate_help_request (hc_policy c) (hc_type c)) (hc_policy c) kept"
  have wr: "write_help_events p ev s = (x, s') \<Longrightarrow> hs_active s' = hs_active s \<and>
      (hs_file s' = hs_file s \<and> x = Inl HelpRateLimit \<or> read_help_log (hs_file s') = (ev, []) \<and> x = Inr ())" for ev s x s'
    by (auto simp: write_help_events_def split: if_splits)
  show thesis
  proof (cases "request_id_text (hc_id c) \<and> find_request (hc_id c) kept = None \<and> \<not> hc_existing_only c \<and>
      length kept < max_events \<and> hp_bytes p (kept @ [new_event c ?d]) \<le> max_log_bytes")
    case True
    with assms rel show thesis
      by (intro that(2) [OF k _ _ refl])
        (auto simp: begin_help_def load_writable_def write_help_events_def set_active_def bind_act_def return_act_def
          raise_act_def Let_def split: if_splits)
  next
    case False
    with assms rel show thesis
      by (intro that(1) [OF k])
        (auto simp: begin_help_def load_writable_def write_help_events_def bind_act_def return_act_def raise_act_def
          when_act_def Let_def not_le not_less split: option.splits if_splits)
  qed
qed

lemma summary_cases:
  assumes "load_reconciled p clock st = (r, st')" "read_help_log (hs_file st) = (events, [])"
  shows "hs_active st' = hs_active st \<and>
    (\<exists>kept. kept_events (hs_active st) events kept \<and> (hs_file st' = hs_file st \<or> read_help_log (hs_file st') = (kept, [])))"
proof -
  obtain kept changed where rel: "release_stale p clock (hs_active st) events = (kept, changed)" by fastforce
  have "kept_events (hs_active st) events kept" using release_events [OF rel] by (auto simp: kept_events_def)
  with assms rel show ?thesis
    by (auto simp: load_reconciled_def write_help_events_def when_act_def bind_act_def return_act_def split: if_splits)
qed

lemma complete_first_map:
  "complete_first i v events = (written, found) \<Longrightarrow>
    map rid written = map rid events \<and>
    (written = events \<or> (\<exists>xs f ys. events = xs @ f # ys \<and> written = xs @ complete v f # ys \<and> rid f = i \<and> (\<forall>x \<in> set xs. rid x \<noteq> i)))"
proof (induction events arbitrary: written found)
  case (Cons e es)
  show ?case
  proof (cases "rid e = i")
    case True
    with Cons.prems have "e # es = [] @ e # es" "written = [] @ complete v e # es" by simp_all
    with True show ?thesis by (intro conjI disjI2 exI) auto
  next
    case False
    obtain fs g where r: "complete_first i v es = (fs, g)" by fastforce
    with Cons.prems False have w: "written = e # fs" by simp
    from Cons.IH [OF r] False w show ?thesis by (auto, metis append_Cons set_ConsD)
  qed
qed simp

lemma finish_cases:
  assumes "finish_help p e name outcome st = (r, st')" "read_help_log (hs_file st) = (events, [])"
  shows "hs_active st' = filter (\<lambda>j. j \<noteq> cleaned (rid e)) (hs_active st) \<and>
    (hs_file st' = hs_file st \<or>
     read_help_log (hs_file st') = (fst (complete_first (rid e) (final_response name outcome) events), []))"
  using assms
  by (auto simp: finish_help_def load_writable_def write_help_events_def set_active_def bind_act_def return_act_def
      split: prod.splits if_splits)

section \<open>The invariant\<close>

definition first_of :: "json \<Rightarrow> members list \<Rightarrow> members option" where
  "first_of i events = List.find (\<lambda>e. rid e = i) events"

text \<open>A call in flight: its identifier is active, and its event in the log holds its reservation.\<close>

definition reserved :: "help_state \<Rightarrow> members list \<Rightarrow> members \<Rightarrow> bool" where
  "reserved st events e \<longleftrightarrow>
     (\<exists>i f. rid e = JStr i \<and> request_id_text i \<and> i \<in> set (hs_active st) \<and> first_of (JStr i) events = Some f \<and>
        json_get f ''budget_charged'' \<noteq> JBool False)"

definition help_ok :: "int \<Rightarrow> help_world \<Rightarrow> bool" where
  "help_ok limit w \<longleftrightarrow>
     (\<exists>events. read_help_log (hs_file (fst w)) = (events, []) \<and> int (ai_events_used events) \<le> limit \<and>
        length events \<le> max_events \<and> distinct (map rid (snd w)) \<and> list_all (reserved (fst w) events) (snd w))"

lemma find_append: "List.find P (xs @ ys) = (case List.find P xs of None \<Rightarrow> List.find P ys | Some x \<Rightarrow> Some x)"
  by (induction xs) auto

lemma rid_remove1:
  assumes "x \<in> set (remove1 e calls)" "distinct (map rid calls)" "e \<in> set calls"
  shows "x \<in> set calls \<and> rid x \<noteq> rid e"
proof -
  have d: "distinct calls" "inj_on rid (set calls)" using assms(2) by (simp_all add: distinct_map)
  then have x: "x \<in> set calls" "x \<noteq> e" using assms(1) by (simp_all add: set_remove1_eq)
  with d(2) assms(3) show ?thesis by (auto dest: inj_onD)
qed

lemma first_of_kept:
  assumes "kept_events active events kept" "first_of (JStr i) events = Some f" "i \<in> set active" "request_id_text i"
  shows "first_of (JStr i) kept = Some f"
proof -
  obtain stale where kept: "kept = map (\<lambda>e. if stale e then interrupt e else e) events"
    and st: "\<forall>e. stale e \<longrightarrow> cleaned (rid e) \<notin> set active"
    using assms(1) by (auto simp: kept_events_def)
  have "rid e = JStr i \<Longrightarrow> \<not> stale e" for e using st assms(3) id_char_plain [OF assms(4)] by auto
  then have "first_of (JStr i) (map (\<lambda>e. if stale e then interrupt e else e) es) = first_of (JStr i) es" for es
    by (induction es) (auto simp: first_of_def)
  with kept assms(2) show ?thesis by simp
qed

lemma reserved_kept:
  assumes "reserved st events e" "kept_events (hs_active st) events kept" "set (hs_active st) \<subseteq> set (hs_active st')"
  shows "reserved st' kept e"
  using assms first_of_kept unfolding reserved_def by blast

lemma first_of_append: "first_of i xs = Some f \<Longrightarrow> first_of i (xs @ ys) = Some f"
  by (induction xs) (auto simp: first_of_def)

lemma first_of_in: "first_of i events = Some f \<Longrightarrow> f \<in> set events \<and> rid f = i"
  by (auto simp: first_of_def find_Some_iff)

lemma first_of_other: "rid f \<noteq> i \<Longrightarrow> first_of i (xs @ complete v f # ys) = first_of i (xs @ f # ys)"
  by (induction xs) (simp_all add: first_of_def)

lemma first_of_hit: "\<forall>x \<in> set xs. rid x \<noteq> rid g \<Longrightarrow> first_of (rid g) (xs @ g # ys) = Some g"
  by (induction xs) (simp_all add: first_of_def)

lemma reserved_append: "reserved st events e \<Longrightarrow> reserved st (events @ es) e"
  using first_of_append unfolding reserved_def by blast

lemma normalize_idem: "normalize_help_type (JStr (normalize_help_type v)) = normalize_help_type v"
proof (cases "map_of help_aliases (lower (cleaned v))")
  case None
  have "strip (cleaned v) = cleaned v" by (simp add: cleaned_def)
  then have "strip (lower (cleaned v)) = lower (cleaned v)" by (simp add: strip_lower)
  with None show ?thesis by (simp add: normalize_help_type_def Let_def)
next
  case (Some u)
  have "list_all (\<lambda>(a, u). normalize_help_type (JStr u) = u) help_aliases" by code_simp
  with Some have "normalize_help_type (JStr u) = u" by (auto simp: list_all_iff dest!: map_of_SomeD)
  with Some show ?thesis by (simp add: normalize_help_type_def [of v] Let_def)
qed

lemma budget_room:
  assumes d: "d = apply_budget_limit (evaluate_help_request policy t) policy events"
    and "0 < limit" "limit = positive_int (json_get policy ''ai_request_limit'')" "int (ai_events_used events) \<le> limit"
  shows "int (ai_events_used (events @ [new_event c d])) \<le> limit"
proof -
  have "dec_type d = normalize_help_type t"
    by (auto simp: d apply_budget_limit_def evaluate_help_request_def Let_def split: option.splits)
  then have aliases: "normalize_help_type (JStr (dec_type d)) = dec_type d" by (simp add: normalize_idem)
  show ?thesis
  proof (cases "charged (new_event c d)")
    case False
    with assms(4) show ?thesis by (simp add: ai_events_used_def)
  next
    case True
    then have "dec_allowed d" "normalize_help_type (JStr (dec_type d)) = ''ai''" by (simp_all add: charged_def)
    with aliases have "dec_type d = ''ai''" "dec_allowed d" by simp_all
    then have "\<not> bud_exhausted (ai_budget_status policy events)"
      using d by (auto simp: apply_budget_limit_def Let_def split: if_splits)
    with assms(2,3) show ?thesis by (simp add: ai_budget_status_def Let_def ai_events_used_def)
  qed
qed

lemma reserved_active: "reserved st events e \<Longrightarrow> \<exists>i. rid e = JStr i \<and> i \<in> set (hs_active st) \<and> cleaned (rid e) = i \<and> rid e \<in> rid ` set events"
proof -
  assume "reserved st events e"
  then obtain i f where "rid e = JStr i" "request_id_text i" "i \<in> set (hs_active st)" "f \<in> set events" "rid f = JStr i"
    by (auto simp: reserved_def dest!: first_of_in)
  then show ?thesis using id_char_plain by (intro exI [of _ i]) (auto intro: image_eqI [of _ _ f])
qed

lemma help_ok_keep:
  assumes ok: "help_ok limit (st, calls)" and ev: "read_help_log (hs_file st) = (events, [])"
    and k: "kept_events (hs_active st) events kept" and a: "hs_active st' = hs_active st"
    and f: "hs_file st' = hs_file st \<or> read_help_log (hs_file st') = (kept, [])"
  shows "help_ok limit (st', calls)"
proof -
  have o: "int (ai_events_used events) \<le> limit" "length events \<le> max_events" "distinct (map rid calls)"
      "list_all (reserved st events) calls"
    using ok ev by (auto simp: help_ok_def)
  have same: "reserved st' events = reserved st events" by (simp add: reserved_def a fun_eq_iff)
  show ?thesis
  proof (cases "read_help_log (hs_file st') = (kept, [])")
    case True
    have "list_all (reserved st' kept) calls" using o(4) reserved_kept [OF _ k] a by (auto simp: list_all_iff)
    with True o(1-3) kept_used [OF k] kept_length [OF k] show ?thesis by (auto simp: help_ok_def)
  next
    case False
    with f have "read_help_log (hs_file st') = (events, [])" using ev by simp
    with o same show ?thesis by (auto simp: help_ok_def)
  qed
qed

lemma help_ok_step:
  assumes step: "help_step p policy w w'" and ok: "help_ok limit w"
    and limit: "0 < limit" "limit = positive_int (json_get policy ''ai_request_limit'')"
  shows "help_ok limit w'"
  using step ok
proof (cases rule: help_step.cases)
  case (step_call c st e st' calls)
  obtain events where ev: "read_help_log (hs_file st) = (events, [])" using ok step_call by (auto simp: help_ok_def)
  show ?thesis using step_call(3) ev
  proof (cases rule: begin_cases)
    case (new kept d)
    have ok': "help_ok limit (st, calls)" using ok step_call by simp
    then have o: "int (ai_events_used events) \<le> limit" "distinct (map rid calls)" "list_all (reserved st events) calls"
      using ev by (auto simp: help_ok_def)
    have e: "e = new_event c d" and act: "hs_active st' = List.insert (hc_id c) (hs_active st)" using new(7) by auto
    let ?E = "kept @ [new_event c d]"
    have used: "int (ai_events_used ?E) \<le> limit"
      using budget_room [OF new(4) [unfolded step_call(4)] limit] kept_used [OF new(1)] o(1) by simp
    have free: "rid x \<noteq> JStr (hc_id c)" if "x \<in> set kept" for x
    proof
      assume "rid x = JStr (hc_id c)"
      then have "cleaned (rid x) = hc_id c" using id_char_plain [OF new(6)] by simp
      then have "hc_id c \<in> set (map cleaned (map rid kept))"
        unfolding set_map using that by (intro image_eqI [of _ cleaned "rid x"]) (auto intro: imageI)
      with new(2) show False by (simp only: find_request_None) simp
    qed
    then have "first_of (JStr (hc_id c)) kept = None" by (auto simp: first_of_def find_None_iff)
    then have "first_of (JStr (hc_id c)) ?E = Some (new_event c d)" by (simp add: first_of_def find_append)
    then have mine: "reserved st' ?E e" using new(6) act by (auto simp: reserved_def e)
    have others: "reserved st' ?E x" "rid x \<noteq> JStr (hc_id c)" if "x \<in> set calls" for x
    proof -
      have r: "reserved st events x" using o(3) that by (simp add: list_all_iff)
      have k: "reserved st' kept x" by (rule reserved_kept [OF r new(1)]) (auto simp: act)
      then show "reserved st' ?E x" by (rule reserved_append)
      from k have "rid x \<in> rid ` set kept" using reserved_active by blast
      then obtain y where "y \<in> set kept" "rid y = rid x" by fastforce
      with free [of y] show "rid x \<noteq> JStr (hc_id c)" by simp
    qed
    have "JStr (hc_id c) \<notin> rid ` set calls"
    proof
      assume "JStr (hc_id c) \<in> rid ` set calls"
      then obtain y where "y \<in> set calls" "JStr (hc_id c) = rid y" by (rule imageE)
      with others(2) [of y] show False by simp
    qed
    then have "distinct (map rid (e # calls))" using o(2) by (simp add: e)
    moreover have "list_all (reserved st' ?E) (e # calls)" using mine others(1) by (auto simp: list_all_iff)
    ultimately show ?thesis using new(3,5) used step_call(2) by (auto simp: help_ok_def)
  qed auto
next
  case (step_answer c st r st' calls)
  obtain events where ev: "read_help_log (hs_file st) = (events, [])" using ok step_answer by (auto simp: help_ok_def)
  have ok': "help_ok limit (st, calls)" using ok step_answer by simp
  show ?thesis using step_answer(3) ev
  proof (cases rule: begin_cases)
    case (same kept)
    from help_ok_keep [OF ok' ev same(1,2,4)] step_answer(2) show ?thesis by simp
  next
    case (new kept d)
    let ?E = "kept @ [new_event c d]"
    have act: "hs_active st' = hs_active st" using new(7) step_answer(5) by auto
    have o: "int (ai_events_used events) \<le> limit" "distinct (map rid calls)" "list_all (reserved st events) calls"
      using ok' ev by (auto simp: help_ok_def)
    have "int (ai_events_used ?E) \<le> limit"
      using budget_room [OF new(4) [unfolded step_answer(4)] limit] kept_used [OF new(1)] o(1) by simp
    moreover have "list_all (reserved st' ?E) calls"
      using o(3) reserved_append [OF reserved_kept [OF _ new(1)]] act by (auto simp: list_all_iff)
    ultimately show ?thesis using new(3,5) o(2) step_answer(2) by (auto simp: help_ok_def)
  qed
next
  case (step_finish e calls name outcome st r st')
  obtain events where ev: "read_help_log (hs_file st) = (events, [])" using ok step_finish by (auto simp: help_ok_def)
  have o: "int (ai_events_used events) \<le> limit" "distinct (map rid calls)" "list_all (reserved st events) calls" "length events \<le> max_events"
    using ok step_finish ev by (auto simp: help_ok_def)
  note fin = finish_cases [OF step_finish(4) ev]
  have mine: "reserved st events e" using o(3) step_finish(3) by (simp add: list_all_iff)
  obtain written found where w: "complete_first (rid e) (final_response name outcome) events = (written, found)" by fastforce
  note cm = complete_first_map [OF w]
  have rest: "reserved st' events x \<and> reserved st' written x" if "x \<in> set (remove1 e calls)" for x
  proof -
    have x: "x \<in> set calls" "rid x \<noteq> rid e" using rid_remove1 [OF that o(2) step_finish(3)] by simp_all
    then have r: "reserved st events x" using o(3) by (simp add: list_all_iff)
    then obtain i f where i: "rid x = JStr i" "request_id_text i" "i \<in> set (hs_active st)" "first_of (JStr i) events = Some f"
        "json_get f ''budget_charged'' \<noteq> JBool False" by (auto simp: reserved_def)
    have "i \<in> set (hs_active st')" using fin i(1,3) x(2) reserved_active [OF mine] by auto
    moreover have "first_of (JStr i) written = Some f"
      using cm i(4) x(2) i(1) by (auto simp: first_of_other)
    ultimately show ?thesis using i by (auto simp: reserved_def)
  qed
  have used: "ai_events_used written = ai_events_used events"
  proof -
    obtain i f where f: "rid e = JStr i" "first_of (JStr i) events = Some f" "json_get f ''budget_charged'' \<noteq> JBool False"
      using mine by (auto simp: reserved_def)
    from cm show ?thesis
    proof (elim conjE disjE exE)
      fix xs g ys
      assume d: "events = xs @ g # ys" "written = xs @ complete (final_response name outcome) g # ys" "rid g = rid e"
        "\<forall>x \<in> set xs. rid x \<noteq> rid e"
      then have "g = f" using f(1,2) first_of_hit [of xs g ys] by simp
      with f(3) have "charged (complete (final_response name outcome) g) = charged g"
        unfolding complete_fields(3) \<open>g = f\<close> by (auto simp: charged_def is_allowed_def)
      with d show ?thesis by (simp add: ai_events_used_def)
    qed simp
  qed
  have "length written = length events" using cm by (metis length_map)
  moreover have "distinct (map rid (remove1 e calls))" using o(2) by (auto simp: distinct_map intro: inj_on_subset dest: notin_set_remove1)
  moreover have "list_all (reserved st' events) (remove1 e calls)" "list_all (reserved st' written) (remove1 e calls)"
    using rest by (simp_all add: list_all_iff)
  ultimately show ?thesis using fin o w used ev step_finish(2) by (auto simp: help_ok_def)
next
  case (step_summary clock st r st' calls)
  obtain events where ev: "read_help_log (hs_file st) = (events, [])" using ok step_summary by (auto simp: help_ok_def)
  from summary_cases [OF step_summary(3) ev] help_ok_keep [of limit st calls events] ok ev step_summary show ?thesis by blast
next
  case (step_restart st calls)
  with ok show ?thesis by (auto simp: help_ok_def)
qed

text \<open>C19. The budget of AI requests holds: whatever requests with a policy arrive, however the provider
  calls end and in whatever order, whatever is read in between and however often the server is
  restarted, the log of an assignment that began empty can be read, holds at most as many charged
  AI requests as the policy allows, and no more than 40 events.\<close>

theorem help_budget_holds:
  assumes "help_steps p policy fresh_help (st, calls)"
    and "positive_int (json_get policy ''ai_request_limit'') = limit" "0 < limit"
  shows "snd (read_help_log (hs_file st)) = [] \<and> int (ai_events_used (log_events st)) \<le> limit \<and> length (log_events st) \<le> max_events"
proof -
  have "help_ok limit fresh_help"
    using assms(3) by (simp add: help_ok_def fresh_help_def read_help_log_def ai_events_used_def)
  with assms(1) have "help_ok limit (st, calls)"
    by (induction rule: rtranclp_induct) (use assms(2,3) help_ok_step in blast)+
  then show ?thesis by (auto simp: help_ok_def)
qed

section \<open>A request is made once\<close>

definition logged :: "string \<Rightarrow> help_state \<Rightarrow> bool" where
  "logged i st \<longleftrightarrow> (\<exists>events. read_help_log (hs_file st) = (events, []) \<and> i \<in> set (map cleaned (map rid events)))"

lemma kept_set: "kept_events active events kept \<Longrightarrow> set (map rid events) \<subseteq> set (map rid kept)"
  by (drule kept_rids) simp

lemma logged_same:
  assumes "logged i st" "read_help_log (hs_file st) = (events, [])"
    and "hs_file st' = hs_file st \<or> (\<exists>es. read_help_log (hs_file st') = (es, []) \<and> set (map rid events) \<subseteq> set (map rid es))"
  shows "logged i st'"
proof -
  from assms(1,2) have i: "i \<in> cleaned ` set (map rid events)" unfolding logged_def set_map by simp
  from assms(3) show ?thesis
  proof
    assume "hs_file st' = hs_file st"
    with assms(1) show ?thesis by (simp add: logged_def)
  next
    assume "\<exists>es. read_help_log (hs_file st') = (es, []) \<and> set (map rid events) \<subseteq> set (map rid es)"
    then obtain es where es: "read_help_log (hs_file st') = (es, [])" "set (map rid events) \<subseteq> set (map rid es)" by blast
    have "i \<in> cleaned ` set (map rid es)" by (rule subsetD [OF image_mono [OF es(2)] i])
    then have "i \<in> set (map cleaned (map rid es))" unfolding set_map .
    with es(1) show ?thesis unfolding logged_def by blast
  qed
qed

lemma logged_step:
  assumes "help_step p policy w w'" "logged i (fst w)"
  shows "logged i (fst w')"
  using assms(1)
proof (cases rule: help_step.cases)
  case (step_call c st e st' calls)
  then obtain events where ev: "read_help_log (hs_file st) = (events, [])" using assms(2) by (auto simp: logged_def)
  have lg: "logged i st" using assms(2) step_call(1) by simp
  from step_call(3) ev have "logged i st'"
  proof (cases rule: begin_cases)
    case (new kept d)
    have "set (map rid events) \<subseteq> set (map rid (kept @ [new_event c d]))" using kept_set [OF new(1)] by auto
    with new(5) show ?thesis by (intro logged_same [OF lg ev]) blast
  qed auto
  then show ?thesis by (simp add: step_call(2))
next
  case (step_answer c st r st' calls)
  then obtain events where ev: "read_help_log (hs_file st) = (events, [])" using assms(2) by (auto simp: logged_def)
  have lg: "logged i st" using assms(2) step_answer(1) by simp
  from step_answer(3) ev have "logged i st'"
  proof (cases rule: begin_cases)
    case (same kept)
    from same(4) kept_set [OF same(1)] show ?thesis by (intro logged_same [OF lg ev]) blast
  next
    case (new kept d)
    have "set (map rid events) \<subseteq> set (map rid (kept @ [new_event c d]))" using kept_set [OF new(1)] by auto
    with new(5) show ?thesis by (intro logged_same [OF lg ev]) blast
  qed
  then show ?thesis by (simp add: step_answer(2))
next
  case (step_finish e calls name outcome st r st')
  then obtain events where ev: "read_help_log (hs_file st) = (events, [])" using assms(2) by (auto simp: logged_def)
  have lg: "logged i st" using assms(2) step_finish(1) by simp
  obtain written found where w: "complete_first (rid e) (final_response name outcome) events = (written, found)" by fastforce
  have "logged i st'"
  proof (rule logged_same [OF lg ev])
    have "set (map rid events) \<subseteq> set (map rid written)" using complete_first_map [OF w] by (metis order_refl)
    with finish_cases [OF step_finish(4) ev] w
    show "hs_file st' = hs_file st \<or> (\<exists>es. read_help_log (hs_file st') = (es, []) \<and> set (map rid events) \<subseteq> set (map rid es))"
      by (metis fst_conv)
  qed
  then show ?thesis by (simp add: step_finish(2))
next
  case (step_summary clock st r st' calls)
  then obtain events where ev: "read_help_log (hs_file st) = (events, [])" using assms(2) by (auto simp: logged_def)
  have lg: "logged i st" using assms(2) step_summary(1) by simp
  have "logged i st'"
    using summary_cases [OF step_summary(3) ev] kept_set by (intro logged_same [OF lg ev]) blast
  then show ?thesis by (simp add: step_summary(2))
qed (use assms(2) in \<open>simp add: logged_def\<close>)

text \<open>C20. A request reaches a provider at most once: after a request identifier has led to a provider
  call, no later request with this identifier leads to another, whatever happens in between, even
  when the server is restarted during the call.\<close>

theorem provider_is_called_once:
  assumes "begin_help p c st = (Inr (Calling e), st1)" "snd (read_help_log (hs_file st)) = []"
    and "help_steps p policy (st1, calls) (st2, calls2)" "hc_id c' = hc_id c"
  shows "begin_help p c' st2 \<noteq> (Inr (Calling e'), st3)"
proof
  obtain events where ev: "read_help_log (hs_file st) = (events, [])" using assms(2) by (cases "read_help_log (hs_file st)") simp
  have one: "logged (hc_id c) st1"
    using assms(1) ev by (cases rule: begin_cases) (auto simp: logged_def id_char_plain)
  have "logged (hc_id c) (fst (st2, calls2))"
    using assms(3) by (induction rule: rtranclp_induct) (use one logged_step in auto)
  then obtain events2 where ev2: "read_help_log (hs_file st2) = (events2, [])" "hc_id c \<in> set (map cleaned (map rid events2))"
    by (auto simp: logged_def)
  assume "begin_help p c' st2 = (Inr (Calling e'), st3)"
  from this ev2(1) show False
  proof (cases rule: begin_cases)
    case (new kept d)
    then show ?thesis using ev2(2) kept_rids [OF new(1)] assms(4) by (simp add: find_request_None del: map_map)
  qed auto
qed

end
