(* ===== verification/Sample_Help.thy ===== *)
theory Sample_Help
  imports Help_Machine "HOL-Library.Code_Target_Nat"
begin

text \<open>The properties of the log of help requests on a first AI request and its answer.\<close>

definition lab_platform :: help_platform where
  "lab_platform = \<lparr>hp_iso = (\<lambda>t. if t = ''2025-03-10T09:00:00+00:00'' then Some (PyDatetime 0 (Some 0)) else None),
     hp_bytes = (\<lambda>events. 2000 * length events)\<rparr>"

definition lab_policy :: members where
  "lab_policy = support_policy (JStr ''ai-assisted'')"

definition first_call :: help_call where
  "first_call = \<lparr>hc_activity = ''lab-1'', hc_policy = lab_policy, hc_type = JStr ''IA'', hc_prompt = ''why?'',
     hc_now = ''2025-03-10T09:00:00+00:00'', hc_id = ''request-0000-0001'', hc_provider = False, hc_factory = True,
     hc_existing_only = False\<rparr>"

definition first_event :: members where
  "first_event = new_event first_call (apply_budget_limit (evaluate_help_request lab_policy (JStr ''IA'')) lab_policy [])"

definition first_log :: help_state where
  "first_log = \<lparr>hs_file = JsonLog (log_json [first_event]), hs_active = [''request-0000-0001'']\<rparr>"

lemma first_request: "begin_help lab_platform first_call (fst fresh_help) = (Inr (Calling first_event), first_log)"
  by code_simp

lemma first_policy: "hc_policy first_call = lab_policy" "positive_int (json_get lab_policy ''ai_request_limit'') = 5"
  by code_simp+

text \<open>The provider answers, and the student asks again with the same identifier.\<close>

definition provider_answer :: json where
  "provider_answer = JObj [(''status'', JStr ''ready''), (''provider'', JStr ''codex''), (''provider_label'', JStr ''Codex''),
     (''message'', JStr '' Look at line 3. ''),
     (''usage'', JObj [(''input_tokens'', JInt 90), (''output_tokens'', JInt 30), (''total_tokens'', JInt 0)])]"

definition answered_log :: help_state where
  "answered_log = snd (finish_help lab_platform first_event ''Codex'' (Some provider_answer) first_log)"

lemma first_step: "help_step lab_platform lab_policy fresh_help (first_log, [first_event])"
  using step_call [OF first_request first_policy(1), of "[]"] by (simp add: fresh_help_def)

lemma answer_step: "help_step lab_platform lab_policy (first_log, [first_event]) (answered_log, [])"
proof -
  have "finish_help lab_platform first_event ''Codex'' (Some provider_answer) first_log =
      (fst (finish_help lab_platform first_event ''Codex'' (Some provider_answer) first_log), answered_log)"
    by (simp add: answered_log_def)
  from step_finish [OF _ this, of "[first_event]"] show ?thesis by simp
qed

lemma answered_used: "ai_events_used (log_events answered_log) = 1" "hs_active answered_log = []"
  by code_simp+

lemma answered_usage:
  "summarize_ai_usage (log_events answered_log) =
     \<lparr>use_input = 90, use_output = 30, use_total = 120, use_reported = 1, use_unreported = 0\<rparr>"
  by code_simp

lemma asked_again:
  "record_help_request lab_platform first_call ''Codex'' (Some provider_answer) answered_log =
     record_help_request lab_platform first_call ''Codex'' (Some provider_answer) (fst fresh_help)"
  "fst (record_help_request lab_platform first_call ''unavailable'' None answered_log) = Inr (hd (log_events answered_log))"
  by code_simp+

theorem help_budget_holds_witness:
  "snd (read_help_log (hs_file answered_log)) = [] \<and> int (ai_events_used (log_events answered_log)) \<le> 5 \<and>
    length (log_events answered_log) \<le> max_events"
proof -
  have "help_steps lab_platform lab_policy fresh_help (answered_log, [])"
    using first_step answer_step by (rule converse_rtranclp_into_rtranclp [OF _ r_into_rtranclp])
  then show ?thesis by (rule help_budget_holds) (simp_all add: first_policy(2))
qed

theorem provider_is_called_once_witness:
  "begin_help lab_platform first_call answered_log \<noteq> (Inr (Calling first_event), first_log)"
proof -
  have start: "snd (read_help_log (hs_file (fst fresh_help))) = []" by code_simp
  have "help_steps lab_platform lab_policy (first_log, [first_event]) (answered_log, [])"
    using answer_step by (rule r_into_rtranclp)
  from provider_is_called_once [OF first_request start this refl] show ?thesis .
qed

end
