(* ===== verification/Spec2Isabelle.thy ===== *)
theory Spec2Isabelle
  imports Sample_Store Sample_Classes Sample_Services Sample_Links Sample_Web Sample_Teams Sample_Tui Sample_Edge Sample_Help
begin

text \<open>
  \<^bold>\<open>TheBitLab identity and authentication.\<close> This development models the identity core of the
  course platform: who a user is, how a provider account, a web session and a terminal are tied
  to that user, how the user becomes a student of classes and the owner of assignment targets, what a browser request
  of that user may do, how the public login is rate limited, and how the requests for help of a student are
  kept within a budget. The code is under \<^verbatim>\<open>src/scripts/\<close>.

  \<^bold>\<open>Layers.\<close>
  \<^item> \<open>Prelude\<close>: results (\<open>error + value\<close>), state actions, lists seen as tables.
  \<^item> \<open>Timestamps\<close>: \<^verbatim>\<open>_encode_datetime\<close> and \<^verbatim>\<open>_decode_datetime\<close> of \<^verbatim>\<open>thebitlab_identity_sqlite.py\<close>. An
    aware \<^verbatim>\<open>datetime\<close> is an instant, an integer of microseconds since year 1 in UTC; the civil
    calendar and the ISO text are computed from it.
  \<^item> \<open>Py_Text\<close>: the Python values that reach a constructor (\<open>pyval\<close>), \<^verbatim>\<open>str.strip\<close>, \<^verbatim>\<open>lower\<close> and
    \<^verbatim>\<open>partition\<close> on texts of the first 256 code points.
  \<^item> \<open>Identity\<close>, \<open>Identity_Lifecycle\<close>, \<open>Identity_Properties\<close>: \<^verbatim>\<open>thebitlab_identity.py\<close>. Each
    \<^verbatim>\<open>__post_init__\<close> is a \<open>make_\<close> function from raw values to a record or an error; \<open>rebuild_\<close>
    functions build a record from one that exists (hydration, \<^verbatim>\<open>dataclasses.replace\<close>). The pairing
    transitions form the step relation \<open>pairing_step\<close>.
  \<^item> \<open>Identity_Store\<close>: the tables of \<^verbatim>\<open>thebitlab_identity_sqlite.py\<close> as lists of rows in the record
    \<open>identity_db\<close>; each SQL statement is an operation that checks the keys, the foreign keys, the
    CHECK constraints and the triggers it meets; \<open>transaction\<close> rolls back on an error.
  \<^item> \<open>Store_Users\<close>, \<open>Store_Links\<close>, \<open>Store_Sessions\<close>, \<open>Store_Pairings\<close>: the methods of
    \<^verbatim>\<open>SQLiteIdentityStorage\<close>, one definition per method, with the early returns of the method.
  \<^item> \<open>Py_Json\<close>, \<open>Subject_Binding\<close>, \<open>Assignment_Target\<close>: \<^verbatim>\<open>thebitlab_identity_binding.py\<close>, the binding of
    an account to an educational subject, its content-versioned snapshot, the resolution of a
    student and of an assignment target, and the migration of legacy targets. An assignment is
    a JSON value; objects are member lists in insertion order.
  \<^item> \<open>Dashboard_Scope\<close>: the contracts of \<^verbatim>\<open>thebitlab_dashboard_auth_ports.py\<close>.
  \<^item> \<open>Store_Classes\<close>, \<open>Store_Mappings\<close>, \<open>Store_Bindings\<close>: the class directory, the provider group
    mappings with the GitHub synchronization and onboarding, and the subject bindings of
    \<^verbatim>\<open>SQLiteIdentityStorage\<close>; \<open>School_Invariant\<close> holds what their statements keep. \<open>Store_Migration\<close>: the
    migration of targets with the aliases of all students in the storage.
  \<^item> \<open>Store_Invariant\<close>: \<open>db_ok\<close>, the integrity of a database, and how rows may evolve.
    \<open>Store_Machine\<close>: the step relation of all operations and what holds of every interleaving;
    \<open>dated_step\<close> leaves out the onboardings, which the storage accepts and no service asks for, whose
    \<^verbatim>\<open>joined_at\<close> is not later than the revision of the user.
  \<^item> \<open>Auth_Ports\<close>: the helpers of \<^verbatim>\<open>thebitlab_auth_services.py\<close> and its storage protocols as records
    of operations, with the contracts of the protocols as locales (\<open>identity_registry\<close> and its
    extensions for sessions, pairings and federation). \<open>Sqlite_Ports\<close> interprets the contracts
    on the storage above, in any environment of other processes that run any dated storage operations
    between the calls of a service.
  \<^item> \<open>Auth_Sessions\<close>, \<open>Auth_Pairings\<close>, \<open>Auth_Tui\<close>, \<open>Auth_Federated\<close>: the services
    \<^verbatim>\<open>SessionService\<close>, \<^verbatim>\<open>PairingService\<close>, \<^verbatim>\<open>TuiPairingSessionService\<close> and
    \<^verbatim>\<open>FederatedIdentityService\<close>.
  \<^item> \<open>Auth_Linking\<close>, \<open>Sqlite_Links\<close>: the service \<^verbatim>\<open>ExternalIdentityLinkService\<close>, the contract of its
    storage protocol and its interpretation on the storage.
  \<^item> \<open>Http_Cookie\<close>, \<open>Http_Auth\<close>, \<open>Sqlite_Http\<close>: \<^verbatim>\<open>thebitlab_http_auth.py\<close>, the cookie policy, the parser of
    \<^verbatim>\<open>Cookie\<close> headers, CSRF tokens, and the boundary that establishes, authenticates, authorizes
    and ends browser sessions over the session service, then on the storage.
  \<^item> \<open>Dashboard_Access\<close>, \<open>Sqlite_Dashboard\<close>: \<^verbatim>\<open>thebitlab_dashboard_auth.py\<close>, whose contract with the storage
    is the locale \<open>dashboard_registry\<close>.
  \<^item> \<open>Admin_Services\<close>, \<open>Sqlite_Admin\<close>: \<^verbatim>\<open>thebitlab_admin_bootstrap.py\<close> and
    \<^verbatim>\<open>thebitlab_admin_provisioning.py\<close>, with the locale \<open>admin_registry\<close>.
  \<^item> \<open>Student_Api\<close>: \<^verbatim>\<open>student_api_authorization.py\<close>, the scope of a student's request and the
    assignments it may see.
  \<^item> \<open>Github_Teams\<close>, \<open>Github_Sync\<close>, \<open>Github_Contract\<close>, \<open>Sqlite_Teams\<close>: \<^verbatim>\<open>thebitlab_github_team_mapping.py\<close>,
    the team snapshot a directory delivers, the mappings an administrator manages, the onboarding
    of pending users and the synchronization of students; the contract with the storage is the
    locale \<open>team_registry\<close>.
  \<^item> \<open>Tui_Boundary\<close>, \<open>Tui_Contract\<close>, \<open>Sqlite_Tui\<close>: \<^verbatim>\<open>thebitlab_tui_pairing.py\<close>, the boundary on which
    a terminal asks for a code, the browser of a student authorizes it, and the terminal exchanges
    it for a bearer, uses the bearer and gives it back; the contract with the storage is the locale
    \<open>tui_registry\<close>.
  \<^item> \<open>Edge_Rate_Limit\<close>: the admission stores of \<^verbatim>\<open>thebitlab_edge_rate_limit.py\<close>, with the contract of
    an atomic limiter as the locale \<open>rate_limiter\<close>, interpreted on both stores.
  \<^item> \<open>Ip_Address\<close>, \<open>Client_Address\<close>, \<open>Edge_Login\<close>: the rest of that file, which client a request through
    trusted proxies is attributed to, and the boundary that starts a login only within the limits
    of its client. \<open>Ip_Address\<close> is what this uses of the standard module \<^verbatim>\<open>ipaddress\<close>.
  \<^item> \<open>Help_Policy\<close>, \<open>Help_Log\<close>, \<open>Help_Machine\<close>: \<^verbatim>\<open>student_support_policy.py\<close> and \<^verbatim>\<open>student_help_service.py\<close>,
    the decision on a request for help, the log of an assignment with its budget of AI requests, its
    summaries, and the step relation \<open>help_step\<close> of all requests, answers, readings and restarts.
    A request is two critical sections, \<open>begin_help\<close> and \<open>finish_help\<close>, with the provider in between.
  \<^item> \<open>Sample_School\<close>, \<open>Sample_Store\<close>, \<open>Sample_Classes\<close>, \<open>Sample_Services\<close>,
    \<open>Sample_Links\<close>, \<open>Sample_Web\<close>, \<open>Sample_Teams\<close>, \<open>Sample_Tui\<close>, \<open>Sample_Edge\<close>, \<open>Sample_Help\<close>: a small database, clocks and hash
    functions on which every theorem with hypotheses is applied.

  \<^bold>\<open>What is shown.\<close> For the domain: construction is idempotent, the pairing life cycle has
  exactly the allowed transitions, timestamps round trip and their texts sort as the instants
  do, and the CHECK constraints say what the dataclasses say. For the storage: integrity of
  every reachable database, soundness of the \<^verbatim>\<open>updated_at\<close> revision as long as onboardings are dated, monotonicity of sessions and
  pairings, permanence of subjects and of mapping generations, and the exact effect of the
  operations that grant or end access or enrol students. For students: who is resolved from a
  database, and that a target is the student's own, before and after the migration. For the services:
  what a returned session, account or pairing guarantees although other processes interfere,
  and that login, logout, pairing and exchange work when nobody does. For browser requests: an admitted
  request stands on rows of the database, a cookie that was issued is read back, the CSRF token
  decides, logout ends access, and a dashboard or a student request is confined to classes and
  assignments the account has a right to. For GitHub teams: a synchronization refines the specification
  \<open>target_class_ids\<close>, and an onboarding and a saved mapping are in the database as answered. For terminals: who is
  admitted stands on a pairing that the owner of a browser session authorized, and a delivered
  credential works until it is given back. For the limiter: the
  limit of a window is never exceeded, a refusal changes no counter, and waiting as told helps; a client is attributed by
  the nearest untrusted address, whatever it forwards, and gets no more logins than its limit. For requests of help: in every history the
  charged requests stay within the limit, and a request reaches a provider at most once.

  \<^bold>\<open>Loops.\<close> Every retry loop of the services runs at most \<open>max_attempts\<close> times; its model
  recurses on that number, so all functions are total. \<^verbatim>\<open>ExternalIdentityLinkService.link\<close> calls
  itself after a lost race; its model takes the recursion limit of the interpreter as a number and
  raises at zero, and \<open>linking_terminates\<close> says which depth is never exceeded. The calendar loops have a measure.

  \<^bold>\<open>Parameters.\<close> SHA-256 and HMAC (\<open>hashing\<close>; only the shape of their output is assumed), the
  clocks and the random factories (\<open>source\<close>, \<open>environment\<close>), identity provider adapters and
  GitHub directories; for the log of help requests, what a provider answers, \<^verbatim>\<open>datetime.fromisoformat\<close> and the
  size of the text that is written.

  \<^bold>\<open>Not modelled.\<close> The schema migrations and connection handling of the storage;
  \<^verbatim>\<open>merge_legacy_help_summary\<close> and the file names of help logs, whose locks make the two sections atomic;
  HTTP transport, HTML, provider protocols, the course board,
  grading, student lab, installer and deployment tools, which are files, processes and network.
  SQLite errors other than violated constraints (a locked or damaged file) are not modelled.
\<close>

end
